(* ===== verification/Py.thy ===== *)
theory Py
  imports Main "HOL-Library.AList" "HOL-Library.Sublist" "HOL-Library.Char_ord"
    "HOL-Library.List_Lexorder"
begin

text \<open>
  The Python values and the few operations of Python's built-in types that the modelled code
  uses, with the lemmas every other theory shares.

  \<^item> A \<open>str\<close> is a \<open>string\<close>: a list of code points below 256 (Latin-1). Everything the code
    does with text (length, slices, strip, split, prefix tests) is exact on that range.
    Literals of the source outside the range (Chinese messages and keywords) cannot occur in
    such a text; a message that is only shown is a constructor here.
  \<^item> A value of type \<open>Any\<close> is a \<open>pyval\<close>: what JSON can carry. A float is a finite decimal,
    mantissa and number of decimals (binary rounding is not modelled). Dict keys are strings.
  \<^item> A \<open>dict\<close> is an association list in insertion order; \<open>AList.update\<close> keeps the place of a
    key that is there and appends one that is not, as Python does.
  \<^item> An exception is a value \<open>Exn\<close> of its class name and message; a call that may raise
    returns \<open>exn + 'a\<close>.
\<close>

named_theorems py_defs \<open>definitions that the component proofs unfold together\<close>

datatype exn = Exn (exn_class: string) (exn_msg: string)

type_synonym 'a res = "exn + 'a"

datatype pyval =
    PNone
  | PBool bool
  | PInt int
  | PFloat int nat
  | PStr string
  | PList "pyval list"
  | PDict "(string \<times> pyval) list"

type_synonym dict = "(string \<times> pyval) list"

section \<open>Text\<close>

definition is_space :: "char \<Rightarrow> bool" where
  "is_space c = (let n = (of_char c :: nat) in
     (9 \<le> n \<and> n \<le> 13) \<or> (28 \<le> n \<and> n \<le> 32) \<or> n = 133 \<or> n = 160)"

definition lstrip :: "string \<Rightarrow> string" where
  "lstrip s = dropWhile is_space s"

definition strip :: "string \<Rightarrow> string" where
  "strip s = rev (lstrip (rev (lstrip s)))"

text \<open>\<open>s.split()\<close>: the maximal runs of non-space characters.\<close>

fun split_ws_acc :: "string \<Rightarrow> string \<Rightarrow> string list" where
  "split_ws_acc acc [] = (if acc = [] then [] else [rev acc])"
| "split_ws_acc acc (c # cs) =
     (if is_space c
      then (if acc = [] then split_ws_acc [] cs else rev acc # split_ws_acc [] cs)
      else split_ws_acc (c # acc) cs)"

definition split_ws :: "string \<Rightarrow> string list" where
  "split_ws s = split_ws_acc [] s"

fun join :: "string \<Rightarrow> string list \<Rightarrow> string" where
  "join sep [] = []"
| "join sep [x] = x"
| "join sep (x # y # xs) = x @ sep @ join sep (y # xs)"

text \<open>\<open>" ".join(s.split())\<close>.\<close>

definition squeeze :: "string \<Rightarrow> string" where
  "squeeze s = join '' '' (split_ws s)"

definition lower_char :: "char \<Rightarrow> char" where
  "lower_char c = (let n = (of_char c :: nat) in
     if (65 \<le> n \<and> n \<le> 90) \<or> (192 \<le> n \<and> n \<le> 222 \<and> n \<noteq> 215) then char_of (n + 32) else c)"

definition lower :: "string \<Rightarrow> string" where
  "lower s = map lower_char s"

definition startswith :: "string \<Rightarrow> string \<Rightarrow> bool" where
  "startswith s p = prefix p s"

definition endswith :: "string \<Rightarrow> string \<Rightarrow> bool" where
  "endswith s p = suffix p s"

text \<open>\<open>needle in hay\<close>.\<close>

fun contains :: "string \<Rightarrow> string \<Rightarrow> bool" where
  "contains [] needle = (needle = [])"
| "contains (c # cs) needle = (prefix needle (c # cs) \<or> contains cs needle)"

text \<open>\<open>text[-n:]\<close> for \<open>n > 0\<close>.\<close>

definition last_chars :: "nat \<Rightarrow> string \<Rightarrow> string" where
  "last_chars n s = drop (length s - n) s"

text \<open>\<open>xs[:n]\<close> and \<open>xs[-n:]\<close> for any integer: a negative bound counts from the end, and
  \<open>xs[-0:]\<close> is the whole list.\<close>

definition slice_to :: "int \<Rightarrow> 'a list \<Rightarrow> 'a list" where
  "slice_to n xs = (if n < 0 then take (length xs - nat (- n)) xs else take (nat n) xs)"

definition slice_last :: "int \<Rightarrow> 'a list \<Rightarrow> 'a list" where
  "slice_last n xs = (if n > 0 then drop (length xs - nat n) xs else drop (nat (- n)) xs)"

fun dec_nat :: "nat \<Rightarrow> string" where
  "dec_nat n = (if n < 10 then [char_of (48 + n)]
                else dec_nat (n div 10) @ [char_of (48 + n mod 10)])"

declare dec_nat.simps [simp del]

definition dec_int :: "int \<Rightarrow> string" where
  "dec_int i = (if i < 0 then CHR ''-'' # dec_nat (nat (- i)) else dec_nat (nat i))"

section \<open>\<open>str\<close>, \<open>bool\<close>, \<open>int\<close> and \<open>dict\<close> of a value\<close>

text \<open>\<open>repr\<close> of a float: at least one decimal.\<close>

definition float_repr :: "int \<Rightarrow> nat \<Rightarrow> string" where
  "float_repr m k = (let a = nat \<bar>m\<bar>; ip = a div 10 ^ k; fp = a mod 10 ^ k; fs = dec_nat fp in
     (if m < 0 then ''-'' else []) @ dec_nat ip @ ''.'' @
     (if k = 0 then ''0'' else replicate (k - length fs) (CHR ''0'') @ fs))"

definition hex_digit :: "nat \<Rightarrow> char" where
  "hex_digit n = (if n < 10 then char_of (48 + n) else char_of (87 + n))"

definition repr_char :: "char \<Rightarrow> char \<Rightarrow> string" where
  "repr_char q c = (let n = (of_char c :: nat) in
     if c = q \<or> n = 92 then [char_of (92::nat), c]
     else if n = 9 then [char_of (92::nat), CHR ''t'']
     else if n = 10 then [char_of (92::nat), CHR ''n'']
     else if n = 13 then [char_of (92::nat), CHR ''r'']
     else if n < 32 \<or> (127 \<le> n \<and> n \<le> 160) \<or> n = 173
          then [char_of (92::nat), CHR ''x'', hex_digit (n div 16), hex_digit (n mod 16)]
     else [c])"

definition str_repr :: "string \<Rightarrow> string" where
  "str_repr s = (let sq = char_of (39::nat); dq = char_of (34::nat);
                     q = (if sq \<in> set s \<and> dq \<notin> set s then dq else sq)
                 in q # concat (map (repr_char q) s) @ [q])"

fun py_repr :: "pyval \<Rightarrow> string" where
  "py_repr PNone = ''None''"
| "py_repr (PBool b) = (if b then ''True'' else ''False'')"
| "py_repr (PInt i) = dec_int i"
| "py_repr (PFloat m k) = float_repr m k"
| "py_repr (PStr s) = str_repr s"
| "py_repr (PList vs) = ''['' @ join '', '' (map py_repr vs) @ '']''"
| "py_repr (PDict kvs) =
     ''{'' @ join '', '' (map (\<lambda>kv. str_repr (fst kv) @ '': '' @ py_repr (snd kv)) kvs) @ ''}''"

fun py_str :: "pyval \<Rightarrow> string" where
  "py_str (PStr s) = s"
| "py_str v = py_repr v"

fun truthy :: "pyval \<Rightarrow> bool" where
  "truthy PNone = False"
| "truthy (PBool b) = b"
| "truthy (PInt i) = (i \<noteq> 0)"
| "truthy (PFloat m k) = (m \<noteq> 0)"
| "truthy (PStr s) = (s \<noteq> [])"
| "truthy (PList vs) = (vs \<noteq> [])"
| "truthy (PDict kvs) = (kvs \<noteq> [])"

text \<open>\<open>v or w\<close>, and the idiom \<open>str(v or "")\<close>.\<close>

definition py_or :: "pyval \<Rightarrow> pyval \<Rightarrow> pyval" where
  "py_or v w = (if truthy v then v else w)"

definition str_or_empty :: "pyval \<Rightarrow> string" where
  "str_or_empty v = py_str (py_or v (PStr []))"

text \<open>\<open>int(s)\<close>: surrounding space, a sign, digits with single underscores between them.\<close>

fun digits_val :: "nat \<Rightarrow> bool \<Rightarrow> string \<Rightarrow> nat option" where
  "digits_val acc prev [] = (if prev then Some acc else None)"
| "digits_val acc prev (c # cs) = (let n = (of_char c :: nat) in
     if 48 \<le> n \<and> n \<le> 57 then digits_val (10 * acc + (n - 48)) True cs
     else if n = 95 \<and> prev \<and> cs \<noteq> [] then digits_val acc False cs
     else None)"

definition int_of_str :: "string \<Rightarrow> int res" where
  "int_of_str s = (let t = strip s;
       bad = Inl (Exn ''ValueError''
               (''invalid literal for int() with base 10: '' @ str_repr s))
     in case t of
          [] \<Rightarrow> bad
        | c # cs \<Rightarrow>
           (let neg = (c = CHR ''-''); body = (if c = CHR ''-'' \<or> c = CHR ''+'' then cs else t)
            in case digits_val 0 False body of
                 None \<Rightarrow> bad
               | Some n \<Rightarrow> Inr (if neg then - int n else int n)))"

fun type_name :: "pyval \<Rightarrow> string" where
  "type_name PNone = ''NoneType''"
| "type_name (PBool b) = ''bool''"
| "type_name (PInt i) = ''int''"
| "type_name (PFloat m k) = ''float''"
| "type_name (PStr s) = ''str''"
| "type_name (PList vs) = ''list''"
| "type_name (PDict kvs) = ''dict''"

fun py_int :: "pyval \<Rightarrow> int res" where
  "py_int (PBool b) = Inr (if b then 1 else 0)"
| "py_int (PInt i) = Inr i"
| "py_int (PFloat m k) = Inr (sgn m * (\<bar>m\<bar> div 10 ^ k))"
| "py_int (PStr s) = int_of_str s"
| "py_int v = Inl (Exn ''TypeError''
     (''int() argument must be a string, a bytes-like object or a real number, not '' @
      str_repr (type_name v)))"

text \<open>\<open>dict(v or {})\<close>: a mapping, or a list of two-element lists whose first element is a
  string; anything else raises.\<close>

fun pair_of :: "pyval \<Rightarrow> (string \<times> pyval) option" where
  "pair_of (PList [PStr k, v]) = Some (k, v)"
| "pair_of (PStr [k, v]) = Some ([k], PStr [v])"
| "pair_of v = None"

fun pairs_of :: "pyval list \<Rightarrow> dict \<Rightarrow> dict option" where
  "pairs_of [] d = Some d"
| "pairs_of (v # vs) d = (case pair_of v of
     None \<Rightarrow> None | Some (k, x) \<Rightarrow> pairs_of vs (AList.update k x d))"

fun py_dict :: "pyval \<Rightarrow> dict res" where
  "py_dict (PDict kvs) = Inr kvs"
| "py_dict (PList vs) = (case pairs_of vs [] of
     Some d \<Rightarrow> Inr d
   | None \<Rightarrow> Inl (Exn ''TypeError'' ''cannot convert dictionary update sequence''))"
| "py_dict (PStr s) = (if s = [] then Inr [] else
     Inl (Exn ''ValueError'' ''dictionary update sequence element #0 has length 1; 2 is required''))"
| "py_dict v = Inl (Exn ''TypeError'' (str_repr (type_name v) @ '' object is not iterable''))"

definition dict_or_empty :: "pyval \<Rightarrow> dict res" where
  "dict_or_empty v = py_dict (py_or v (PDict []))"

section \<open>Dicts\<close>

definition dict_get :: "dict \<Rightarrow> string \<Rightarrow> pyval" where
  "dict_get d k = (case map_of d k of None \<Rightarrow> PNone | Some v \<Rightarrow> v)"

text \<open>\<open>d.get(k, dflt)\<close>, and what is left of a dict when some keys have been popped.\<close>

definition dict_get_or :: "pyval \<Rightarrow> dict \<Rightarrow> string \<Rightarrow> pyval" where
  "dict_get_or dflt d k = (case map_of d k of None \<Rightarrow> dflt | Some v \<Rightarrow> v)"

definition dict_without :: "string list \<Rightarrow> dict \<Rightarrow> dict" where
  "dict_without ks d = filter (\<lambda>kv. fst kv \<notin> set ks) d"

definition dict_update :: "dict \<Rightarrow> dict \<Rightarrow> dict" where
  "dict_update d e = fold (\<lambda>(k, v). AList.update k v) e d"

definition dict_ok :: "dict \<Rightarrow> bool" where
  "dict_ok d = distinct (map fst d)"

fun as_dict :: "pyval \<Rightarrow> dict option" where
  "as_dict (PDict kvs) = Some kvs"
| "as_dict v = None"

fun as_list :: "pyval \<Rightarrow> pyval list option" where
  "as_list (PList vs) = Some vs"
| "as_list v = None"

definition bind_res :: "'a res \<Rightarrow> ('a \<Rightarrow> 'b res) \<Rightarrow> 'b res" where
  "bind_res r f = (case r of Inl e \<Rightarrow> Inl e | Inr a \<Rightarrow> f a)"

lemma bind_res_simps [simp]:
  "bind_res (Inl e) f = Inl e"
  "bind_res (Inr a) f = f a"
  by (simp_all add: bind_res_def)

section \<open>Shared lemmas\<close>

lemma is_space_space [simp]: "is_space (CHR '' '')"
  by (simp add: is_space_def)

lemma length_dec_nat_pos [simp]: "0 < length (dec_nat n)"
  by (subst dec_nat.simps) simp

lemma dec_nat_not_Nil [simp]: "dec_nat n \<noteq> []"
  by (subst dec_nat.simps) simp

lemma length_dec_nat_le: "n < 10 ^ k \<Longrightarrow> 0 < k \<Longrightarrow> length (dec_nat n) \<le> k"
proof (induction k arbitrary: n)
  case 0
  then show ?case by simp
next
  case (Suc k)
  show ?case
  proof (cases "n < 10")
    case True
    then show ?thesis by (subst dec_nat.simps) simp
  next
    case False
    with Suc.prems have k: "0 < k" by (cases k) auto
    have "n div 10 < 10 ^ k" using Suc.prems by (simp add: less_mult_imp_div_less mult.commute)
    then have "length (dec_nat (n div 10)) \<le> k" using Suc.IH k by blast
    with False show ?thesis by (subst dec_nat.simps) simp
  qed
qed

lemma length_last_chars [simp]: "length (last_chars n s) = min n (length s)"
  by (simp add: last_chars_def)

lemma strip_Nil [simp]: "strip [] = []"
  by (simp add: strip_def lstrip_def)

lemma length_strip_le: "length (strip s) \<le> length s"
  using length_dropWhile_le [of is_space "rev (dropWhile is_space s)"]
    length_dropWhile_le [of is_space s]
  by (simp add: strip_def lstrip_def)

lemma dropWhile_rev_idem:
  "dropWhile P (rev (dropWhile P (rev (dropWhile P s)))) = rev (dropWhile P (rev (dropWhile P s)))"
proof (cases "dropWhile P s")
  case Nil
  then show ?thesis by (simp only: Nil dropWhile.simps rev.simps)
next
  case (Cons a as)
  then have "\<not> P a" by (metis hd_dropWhile list.sel(1) list.discI)
  then have "dropWhile P (rev (a # as)) = dropWhile P (rev as) @ [a]"
    by (simp add: dropWhile_append3)
  with Cons \<open>\<not> P a\<close> show ?thesis by simp
qed

lemma strip_strip [simp]: "strip (strip s) = strip s"
proof -
  have "lstrip (strip s) = strip s"
    by (simp add: strip_def lstrip_def dropWhile_rev_idem)
  then show ?thesis by (simp add: strip_def lstrip_def)
qed

lemma startswith_append [simp]: "startswith (p @ s) p"
  by (simp add: startswith_def)

lemma map_of_dict_update:
  "map_of (dict_update d e) = map_of d ++ map_of (rev e)"
proof (induction e arbitrary: d)
  case Nil
  then show ?case by (simp add: dict_update_def)
next
  case (Cons kv e)
  obtain k v where kv: "kv = (k, v)" by fastforce
  have "dict_update d (kv # e) = dict_update (AList.update k v d) e"
    by (simp add: dict_update_def kv)
  then have "map_of (dict_update d (kv # e)) = (map_of d)(k \<mapsto> v) ++ map_of (rev e)"
    by (simp only: Cons.IH update_conv')
  then show ?case by (auto simp: kv fun_eq_iff map_add_def split: option.splits)
qed

lemma map_of_inject_rev: "distinct (map fst e) \<Longrightarrow> map_of (rev e) = map_of e"
proof (induction e)
  case Nil
  then show ?case by simp
next
  case (Cons a e)
  obtain k v where a: "a = (k, v)" by fastforce
  have "dom [k \<mapsto> v] \<inter> dom (map_of e) = {}" using Cons.prems by (auto simp: a dom_map_of_conv_image_fst)
  then have "[k \<mapsto> v] ++ map_of e = map_of e ++ [k \<mapsto> v]" by (rule map_add_comm)
  then show ?case using Cons by (simp add: a)
qed

lemma map_of_dict_update_ok:
  "dict_ok e \<Longrightarrow> map_of (dict_update d e) = map_of d ++ map_of e"
  by (simp add: map_of_dict_update dict_ok_def map_of_inject_rev)

lemma dict_update_Nil [simp]: "dict_update d [] = d"
  by (simp add: dict_update_def)

lemma dict_ok_update [simp]: "dict_ok d \<Longrightarrow> dict_ok (AList.update k v d)"
  by (simp add: dict_ok_def distinct_update)

lemma dict_ok_delete [simp]: "dict_ok d \<Longrightarrow> dict_ok (AList.delete k d)"
  by (simp add: dict_ok_def distinct_delete)

lemma dict_ok_dict_update [simp]: "dict_ok d \<Longrightarrow> dict_ok (dict_update d e)"
  by (induction e arbitrary: d) (auto simp: dict_update_def)

lemma dict_get_update: "dict_get (AList.update k v d) k' = (if k' = k then v else dict_get d k')"
  by (simp add: dict_get_def update_conv')


lemma dict_ok_without [simp]: "dict_ok d \<Longrightarrow> dict_ok (dict_without ks d)"
  by (simp add: dict_ok_def dict_without_def distinct_map_filter)

lemma map_of_dict_without: "map_of (dict_without ks d) k = (if k \<in> set ks then None else map_of d k)"
  by (induction d) (auto simp: dict_without_def)

lemma dict_without_idle: "\<forall>kv \<in> set d. fst kv \<notin> set ks \<Longrightarrow> dict_without ks d = d"
  by (simp add: dict_without_def)

lemma dict_without_append [simp]:
  "dict_without ks (d @ e) = dict_without ks d @ dict_without ks e"
  by (simp add: dict_without_def)

end
