(* ===== verification/Sha256.thy ===== *)
theory Sha256
  imports Py "HOL-Library.Word"
begin

text \<open>
  SHA-256 over 32-bit words, for \<open>hashlib.sha256(text.encode("utf-8")).hexdigest()\<close>: the
  fingerprint the storage layers put into the marker of a truncated text. The theorems about
  truncation need its length only (64 digits); the definition is executable all the same.
\<close>

unbundle bit_operations_syntax

type_synonym u32 = "32 word"

definition utf8_char :: "char \<Rightarrow> int list" where
  "utf8_char c = (let n = of_char c in if n < 128 then [n] else [192 + n div 64, 128 + n mod 64])"

definition utf8 :: "string \<Rightarrow> int list" where
  "utf8 s = concat (map utf8_char s)"

definition sha_k :: "u32 list" where
  "sha_k = [1116352408, 1899447441, 3049323471, 3921009573, 961987163, 1508970993, 2453635748, 2870763221,
    3624381080, 310598401, 607225278, 1426881987, 1925078388, 2162078206, 2614888103, 3248222580,
    3835390401, 4022224774, 264347078, 604807628, 770255983, 1249150122, 1555081692, 1996064986,
    2554220882, 2821834349, 2952996808, 3210313671, 3336571891, 3584528711, 113926993, 338241895,
    666307205, 773529912, 1294757372, 1396182291, 1695183700, 1986661051, 2177026350, 2456956037,
    2730485921, 2820302411, 3259730800, 3345764771, 3516065817, 3600352804, 4094571909, 275423344,
    430227734, 506948616, 659060556, 883997877, 958139571, 1322822218, 1537002063, 1747873779,
    1955562222, 2024104815, 2227730452, 2361852424, 2428436474, 2756734187, 3204031479, 3329325298]"

type_synonym sha_state = "u32 \<times> u32 \<times> u32 \<times> u32 \<times> u32 \<times> u32 \<times> u32 \<times> u32"

definition sha_init :: sha_state where
  "sha_init = (1779033703, 3144134277, 1013904242, 2773480762, 1359893119, 2600822924, 528734635, 1541459225)"

definition be_bytes :: "nat \<Rightarrow> int \<Rightarrow> int list" where
  "be_bytes k n = map (\<lambda>i. (n div 256 ^ (k - 1 - i)) mod 256) [0..<k]"

text \<open>The padded message: a one bit, zeros up to 56 modulo 64, the bit length in eight bytes.\<close>

definition sha_pad :: "int list \<Rightarrow> int list" where
  "sha_pad bs = (let n = length bs; z = (119 - n mod 64) mod 64
                 in bs @ [128] @ replicate z 0 @ be_bytes 8 (8 * int n))"

fun be_words :: "int list \<Rightarrow> u32 list" where
  "be_words (a # b # c # d # bs) =
     of_int (((a * 256 + b) * 256 + c) * 256 + d) # be_words bs"
| "be_words bs = []"

text \<open>The message schedule, newest word first.\<close>

definition sha_next :: "u32 list \<Rightarrow> u32" where
  "sha_next ws = (let w2 = ws ! 1; w7 = ws ! 6; w15 = ws ! 14; w16 = ws ! 15;
       s0 = word_rotr 7 w15 XOR word_rotr 18 w15 XOR drop_bit 3 w15;
       s1 = word_rotr 17 w2 XOR word_rotr 19 w2 XOR drop_bit 10 w2
     in w16 + s0 + w7 + s1)"

fun sha_extend :: "nat \<Rightarrow> u32 list \<Rightarrow> u32 list" where
  "sha_extend 0 ws = ws"
| "sha_extend (Suc n) ws = sha_extend n (sha_next ws # ws)"

fun sha_round :: "u32 \<times> u32 \<Rightarrow> sha_state \<Rightarrow> sha_state" where
  "sha_round (k, w) (a, b, c, d, e, f, g, h) = (let
       s1 = word_rotr 6 e XOR word_rotr 11 e XOR word_rotr 25 e;
       ch = (e AND f) XOR ((NOT e) AND g);
       t1 = h + s1 + ch + k + w;
       s0 = word_rotr 2 a XOR word_rotr 13 a XOR word_rotr 22 a;
       maj = (a AND b) XOR (a AND c) XOR (b AND c)
     in (t1 + (s0 + maj), a, b, c, d + t1, e, f, g))"

fun sha_add :: "sha_state \<Rightarrow> sha_state \<Rightarrow> sha_state" where
  "sha_add (a, b, c, d, e, f, g, h) (a', b', c', d', e', f', g', h') =
     (a + a', b + b', c + c', d + d', e + e', f + f', g + g', h + h')"

definition sha_block :: "sha_state \<Rightarrow> u32 list \<Rightarrow> sha_state" where
  "sha_block st ws = sha_add st (fold sha_round (zip sha_k (rev (sha_extend 48 (rev ws)))) st)"

text \<open>The blocks of sixteen words; the first argument bounds their number.\<close>

fun sha_blocks :: "nat \<Rightarrow> sha_state \<Rightarrow> u32 list \<Rightarrow> sha_state" where
  "sha_blocks 0 st ws = st"
| "sha_blocks (Suc n) st ws =
     (if ws = [] then st else sha_blocks n (sha_block st (take 16 ws)) (drop 16 ws))"

definition hex_nat :: "nat \<Rightarrow> int \<Rightarrow> string" where
  "hex_nat k n = map (\<lambda>i. hex_digit (nat ((n div 16 ^ (k - 1 - i)) mod 16))) [0..<k]"

fun sha_hex :: "sha_state \<Rightarrow> string" where
  "sha_hex (a, b, c, d, e, f, g, h) =
     concat (map (\<lambda>w. hex_nat 8 (uint w)) [a, b, c, d, e, f, g, h])"

definition sha256_hex :: "string \<Rightarrow> string" where
  "sha256_hex s = (let ws = be_words (sha_pad (utf8 s))
                   in sha_hex (sha_blocks (length ws) sha_init ws))"

lemma length_hex_nat [simp]: "length (hex_nat k n) = k"
  by (simp add: hex_nat_def)

lemma length_sha256_hex [simp]: "length (sha256_hex s) = 64"
proof -
  have "length (sha_hex st) = 64" for st
    by (cases st rule: sha_hex.cases) simp
  then show ?thesis by (simp add: sha256_hex_def Let_def)
qed

end
