(* ===== verification/Py_Json.thy ===== *)
theory Py_Json
  imports Py
begin

text \<open>
  \<open>json.dumps(v, ensure_ascii=False)\<close> with and without \<open>sort_keys\<close>, and \<open>json.loads\<close>.
  A text column that holds a JSON document is modelled by the value it parses to
  (\<open>json_col\<close>): \<open>Some v\<close> is a text that parses to \<open>v\<close>, \<open>None\<close> one that does not parse.
  The printer is used where the code measures or stores the printed text (previews of deep
  values, facts); the parser where the code parses a caller's text (facts). A float literal
  with an exponent is read as the decimal it denotes.
\<close>

type_synonym json_col = "pyval option"

definition json_char :: "char \<Rightarrow> string" where
  "json_char c = (let n = (of_char c :: nat); bs = char_of (92::nat) in
     if n = 34 \<or> n = 92 then [bs, c]
     else if n = 8 then [bs, CHR ''b''] else if n = 9 then [bs, CHR ''t'']
     else if n = 10 then [bs, CHR ''n''] else if n = 12 then [bs, CHR ''f'']
     else if n = 13 then [bs, CHR ''r'']
     else if n < 32 then [bs, CHR ''u'', CHR ''0'', CHR ''0'', hex_digit (n div 16), hex_digit (n mod 16)]
     else [c])"

definition json_string :: "string \<Rightarrow> string" where
  "json_string s = char_of (34::nat) # concat (map json_char s) @ [char_of (34::nat)]"

fun json_dumps :: "bool \<Rightarrow> pyval \<Rightarrow> string" where
  "json_dumps sk PNone = ''null''"
| "json_dumps sk (PBool b) = (if b then ''true'' else ''false'')"
| "json_dumps sk (PInt i) = dec_int i"
| "json_dumps sk (PFloat m k) = float_repr m k"
| "json_dumps sk (PStr s) = json_string s"
| "json_dumps sk (PList vs) = ''['' @ join '', '' (map (json_dumps sk) vs) @ '']''"
| "json_dumps sk (PDict kvs) =
     (let ps = map (\<lambda>kv. (fst kv, json_dumps sk (snd kv))) kvs;
          qs = (if sk then sort_key fst ps else ps)
      in ''{'' @ join '', '' (map (\<lambda>(k, t). json_string k @ '': '' @ t) qs) @ ''}'')"

section \<open>The parser\<close>

definition json_ws :: "char \<Rightarrow> bool" where
  "json_ws c = (let n = (of_char c :: nat) in n = 32 \<or> n = 9 \<or> n = 10 \<or> n = 13)"

definition skip_ws :: "string \<Rightarrow> string" where
  "skip_ws s = dropWhile json_ws s"

definition is_digit :: "char \<Rightarrow> bool" where
  "is_digit c = (let n = (of_char c :: nat) in 48 \<le> n \<and> n \<le> 57)"

definition digits_nat :: "string \<Rightarrow> nat" where
  "digits_nat s = foldl (\<lambda>a c. 10 * a + (of_char c - 48)) 0 s"

definition hex_val :: "char \<Rightarrow> nat option" where
  "hex_val c = (let n = (of_char c :: nat) in
     if 48 \<le> n \<and> n \<le> 57 then Some (n - 48)
     else if 97 \<le> n \<and> n \<le> 102 then Some (n - 87)
     else if 65 \<le> n \<and> n \<le> 70 then Some (n - 55) else None)"

definition hex4 :: "char \<Rightarrow> char \<Rightarrow> char \<Rightarrow> char \<Rightarrow> nat option" where
  "hex4 a b c d = (case (hex_val a, hex_val b, hex_val c, hex_val d) of
     (Some x, Some y, Some z, Some w) \<Rightarrow> Some (((x * 16 + y) * 16 + z) * 16 + w) | _ \<Rightarrow> None)"

definition unescape :: "char \<Rightarrow> char option" where
  "unescape c = (let n = (of_char c :: nat) in
     if n = 34 \<or> n = 92 \<or> n = 47 then Some c
     else if n = 98 then Some (char_of (8::nat)) else if n = 102 then Some (char_of (12::nat))
     else if n = 110 then Some (char_of (10::nat)) else if n = 114 then Some (char_of (13::nat))
     else if n = 116 then Some (char_of (9::nat)) else None)"

text \<open>The rest of a string literal, after its opening quote; an escape of a code point above
  255 is outside the modelled alphabet and does not parse.\<close>

fun parse_str :: "string \<Rightarrow> string \<Rightarrow> (string \<times> string) option" where
  "parse_str acc [] = None"
| "parse_str acc (c # cs) =
     (if c = char_of (34::nat) then Some (rev acc, cs)
      else if c = char_of (92::nat) then
        (case cs of
           [] \<Rightarrow> None
         | e # es \<Rightarrow>
             (if e = CHR ''u'' then
                (case es of
                   h1 # h2 # h3 # h4 # r \<Rightarrow>
                     (case hex4 h1 h2 h3 h4 of
                        Some n \<Rightarrow> (if n < 256 then parse_str (char_of n # acc) r else None)
                      | None \<Rightarrow> None)
                 | _ \<Rightarrow> None)
              else (case unescape e of Some x \<Rightarrow> parse_str (x # acc) es | None \<Rightarrow> None)))
      else if (of_char c :: nat) < 32 then None
      else parse_str (c # acc) cs)"

fun parse_num :: "string \<Rightarrow> (pyval \<times> string) option" where
  "parse_num s =
     (let neg = (case s of c # _ \<Rightarrow> c = CHR ''-'' | [] \<Rightarrow> False);
          t = (if neg then tl s else s);
          ip = takeWhile is_digit t; r1 = dropWhile is_digit t;
          frac = (case r1 of c # d # _ \<Rightarrow> c = CHR ''.'' \<and> is_digit d | _ \<Rightarrow> False);
          fp = (if frac then takeWhile is_digit (tl r1) else []);
          r2 = (if frac then dropWhile is_digit (tl r1) else r1);
          m = int (digits_nat (ip @ fp)); sm = (if neg then - m else m)
      in if ip = [] \<or> (length ip > 1 \<and> hd ip = CHR ''0'') then None
         else
           (let isE = (case r2 of c # _ \<Rightarrow> c = CHR ''e'' \<or> c = CHR ''E'' | [] \<Rightarrow> False);
                x1 = (if isE then tl r2 else []);
                eneg = (case x1 of c # _ \<Rightarrow> c = CHR ''-'' | [] \<Rightarrow> False);
                x2 = (case x1 of c # cs \<Rightarrow> if c = CHR ''-'' \<or> c = CHR ''+'' then cs else x1 | [] \<Rightarrow> x1);
                ed = takeWhile is_digit x2; r3 = dropWhile is_digit x2; e = digits_nat ed
            in if isE \<and> ed \<noteq> [] then
                 (if eneg then Some (PFloat sm (length fp + e), r3)
                  else Some (PFloat (sm * 10 ^ (e - length fp)) (length fp - e), r3))
               else if frac then Some (PFloat sm (length fp), r2)
               else Some (PInt sm, r2)))"

text \<open>Recursive descent with fuel: every call consumes a character or hands over to a call
  that does, so the length of the text (twice) is enough.\<close>

fun parse_val :: "nat \<Rightarrow> string \<Rightarrow> (pyval \<times> string) option"
  and parse_elems :: "nat \<Rightarrow> string \<Rightarrow> (pyval list \<times> string) option"
  and parse_members :: "nat \<Rightarrow> dict \<Rightarrow> string \<Rightarrow> (dict \<times> string) option" where
  "parse_val 0 s = None"
| "parse_val (Suc n) s =
     (let t = skip_ws s in
      if prefix ''null'' t then Some (PNone, drop 4 t)
      else if prefix ''true'' t then Some (PBool True, drop 4 t)
      else if prefix ''false'' t then Some (PBool False, drop 5 t)
      else (case t of
        [] \<Rightarrow> None
      | c # cs \<Rightarrow>
         (if c = char_of (34::nat) then
            (case parse_str [] cs of Some (x, r) \<Rightarrow> Some (PStr x, r) | None \<Rightarrow> None)
          else if c = CHR ''['' then
            (case skip_ws cs of
               [] \<Rightarrow> None
             | d # ds \<Rightarrow>
                (if d = CHR '']'' then Some (PList [], ds)
                 else (case parse_elems n cs of
                         Some (vs, r) \<Rightarrow> Some (PList vs, r) | None \<Rightarrow> None)))
          else if c = CHR ''{'' then
            (case skip_ws cs of
               [] \<Rightarrow> None
             | d # ds \<Rightarrow>
                (if d = CHR ''}'' then Some (PDict [], ds)
                 else (case parse_members n [] cs of
                         Some (kvs, r) \<Rightarrow> Some (PDict kvs, r) | None \<Rightarrow> None)))
          else parse_num t)))"
| "parse_elems 0 s = None"
| "parse_elems (Suc n) s =
     (case parse_val n s of
        None \<Rightarrow> None
      | Some (v, r) \<Rightarrow>
         (case skip_ws r of
            [] \<Rightarrow> None
          | c # cs \<Rightarrow>
             (if c = CHR '']'' then Some ([v], cs)
              else if c = CHR '','' then
                (case parse_elems n cs of Some (vs, r') \<Rightarrow> Some (v # vs, r') | None \<Rightarrow> None)
              else None)))"
| "parse_members 0 d s = None"
| "parse_members (Suc n) d s =
     (case skip_ws s of
        [] \<Rightarrow> None
      | q # qs \<Rightarrow>
         (if q \<noteq> char_of (34::nat) then None
          else (case parse_str [] qs of
             None \<Rightarrow> None
           | Some (k, r) \<Rightarrow>
              (case skip_ws r of
                 [] \<Rightarrow> None
               | c # cs \<Rightarrow>
                  (if c \<noteq> CHR '':'' then None
                   else (case parse_val n cs of
                      None \<Rightarrow> None
                    | Some (v, r') \<Rightarrow>
                       (case skip_ws r' of
                          [] \<Rightarrow> None
                        | e # es \<Rightarrow>
                           (if e = CHR ''}'' then Some (AList.update k v d, es)
                            else if e = CHR '','' then parse_members n (AList.update k v d) es
                            else None))))))))"

definition json_loads :: "string \<Rightarrow> pyval option" where
  "json_loads s = (case parse_val (2 * length s + 2) s of
     Some (v, r) \<Rightarrow> (if skip_ws r = [] then Some v else None)
   | None \<Rightarrow> None)"

end
