(* ===== verification/Compact.thy ===== *)
theory Compact
  imports Sha256 Py_Json
begin

text \<open>
  The bounded storage of texts and JSON values: \<open>store/compact.py\<close> (used by every store) and
  its sibling in \<open>core/metabolic/state_writer.py\<close> and \<open>core/metabolic/engine.py\<close>. A text over
  its limit keeps its head and its tail around a marker with its length and SHA-256; a
  collection over 80 entries loses its middle (lists) or its end (dicts) and says how many
  entries went; below the depth limit a collection becomes the text of its JSON.
\<close>

section \<open>Texts\<close>

definition truncation_marker :: "string \<Rightarrow> string \<Rightarrow> string" where
  "truncation_marker label text =
     char_of (10::nat) # ''...['' @ label @ '' truncated chars='' @ dec_nat (length text) @
     '' sha256='' @ sha256_hex text @ '']...'' @ [char_of (10::nat)]"

definition compact_runtime_text :: "nat \<Rightarrow> string \<Rightarrow> string \<Rightarrow> string" where
  "compact_runtime_text limit label text =
     (if length text \<le> limit then text
      else (let marker = truncation_marker label text; remaining = limit - length marker
            in if remaining = 0 then take limit marker
               else (let head = max 1 (remaining div 2); tail = max 1 (remaining - head)
                     in take head text @ marker @ last_chars tail text)))"

text \<open>The variant of the metabolic layer: at least 200 characters of the head, the tail only if
  there is room for one.\<close>

definition clip_text :: "string \<Rightarrow> nat \<Rightarrow> string \<Rightarrow> string" where
  "clip_text label limit text =
     (if length text \<le> limit then text
      else (let marker = truncation_marker label text; budget = limit - length marker;
                head = max 200 (budget div 2); tail = budget - head
            in take head text @ marker @ (if tail = 0 then [] else last_chars tail text)))"

definition runtime_text_max_chars :: nat where
  "runtime_text_max_chars = 12000"

definition runtime_collection_max_items :: nat where
  "runtime_collection_max_items = 80"

definition runtime_max_depth :: nat where
  "runtime_max_depth = 8"

definition omitted_key :: string where
  "omitted_key = ''_persistent_omitted_items''"

text \<open>A dict of \<open>n\<close> entries, of which \<open>compacted\<close> was kept, gets the number of the others.\<close>

definition note_omitted :: "nat \<Rightarrow> dict \<Rightarrow> dict" where
  "note_omitted n compacted = (let omitted = n - length compacted in
     if omitted > 0 then AList.update omitted_key (PInt (int omitted)) compacted else compacted)"

section \<open>JSON values\<close>

text \<open>The walk both layers share: the text clipper, the depth limit, the depth and the value.\<close>

lemma pyval_size_list: "v \<in> set vs \<Longrightarrow> size v < size (PList vs)"
  by (simp add: size_list_estimation' less_Suc_eq_le)

lemma pyval_size_dict: "kv \<in> set kvs \<Longrightarrow> size (snd kv) < size (PDict kvs)"
  by (cases kv) (simp add: size_list_estimation' [of kv kvs] less_Suc_eq_le)

function (sequential) compact_tree ::
    "(string \<Rightarrow> string) \<Rightarrow> nat \<Rightarrow> nat \<Rightarrow> pyval \<Rightarrow> pyval" where
  "compact_tree clip md d (PStr s) = PStr (clip s)"
| "compact_tree clip md d (PDict kvs) =
     (if md \<le> d then PStr (clip (json_dumps True (PDict kvs)))
      else PDict (note_omitted (length kvs) (dict_update []
             (map (\<lambda>kv. (fst kv, compact_tree clip md (d + 1) (snd kv)))
                (take runtime_collection_max_items kvs)))))"
| "compact_tree clip md d (PList vs) =
     (if md \<le> d then PStr (clip (json_dumps True (PList vs)))
      else if length vs \<le> runtime_collection_max_items
           then PList (map (compact_tree clip md (d + 1)) vs)
      else (let retained = max 2 (runtime_collection_max_items - 1);
                head_count = max 1 (retained div 2); tail_count = max 1 (retained - head_count);
                omitted = length vs - head_count - tail_count
            in PList (map (compact_tree clip md (d + 1)) (take head_count vs)
                 @ [PDict [(omitted_key, PInt (int omitted))]]
                 @ map (compact_tree clip md (d + 1)) (drop (length vs - tail_count) vs))))"
| "compact_tree clip md d v = v"
  by pat_completeness auto
termination
proof (relation "measure (\<lambda>(clip, md, d, v). size v)", goal_cases)
  case 1
  show ?case by simp
next
  case (2 clip md d kvs kv)
  from pyval_size_dict [OF in_set_takeD, OF 2(2)] show ?case by (simp only: in_measure prod.case)
next
  case (3 clip md d vs v)
  from pyval_size_list [OF 3(3)] show ?case by (simp only: in_measure prod.case)
next
  case (4 clip md d vs r h t om v)
  from pyval_size_list [OF in_set_takeD] 4 show ?case by (simp only: in_measure prod.case)
next
  case (5 clip md d vs r h t om v)
  from pyval_size_list [OF in_set_dropD] 5 show ?case by (simp only: in_measure prod.case)
qed

definition compact_runtime_value :: "nat \<Rightarrow> pyval \<Rightarrow> pyval" where
  "compact_runtime_value d v =
     compact_tree (compact_runtime_text runtime_text_max_chars ''runtime store'')
       runtime_max_depth d v"

definition compact_runtime_mapping :: "dict \<Rightarrow> dict" where
  "compact_runtime_mapping d =
     (case compact_runtime_value 0 (PDict d) of PDict e \<Rightarrow> e | _ \<Rightarrow> [])"

definition compact_runtime_json_text :: "string \<Rightarrow> string \<Rightarrow> string" where
  "compact_runtime_json_text label text =
     (case json_loads text of
        Some (PDict d) \<Rightarrow> json_dumps True (compact_runtime_value 0 (PDict d))
      | Some (PList vs) \<Rightarrow> json_dumps True (compact_runtime_value 0 (PList vs))
      | _ \<Rightarrow> compact_runtime_text runtime_text_max_chars label text)"

text \<open>\<open>"" if value is None else str(value)\<close>.\<close>

fun text_of :: "pyval \<Rightarrow> string" where
  "text_of PNone = []"
| "text_of v = py_str v"


section \<open>Lengths of texts\<close>

lemma length_truncation_marker:
  "length (truncation_marker label text) = length label + length (dec_nat (length text)) + 99"
  by (simp add: truncation_marker_def)

lemma compact_runtime_text_short [simp]:
  "length text \<le> limit \<Longrightarrow> compact_runtime_text limit label text = text"
  by (simp add: compact_runtime_text_def)

lemma compact_runtime_text_cut:
  assumes long: "limit < length text" and room: "length (truncation_marker label text) + 2 \<le> limit"
  shows "\<exists>head tail. compact_runtime_text limit label text =
       take head text @ truncation_marker label text @ last_chars tail text
     \<and> head + tail + length (truncation_marker label text) = limit \<and> 0 < head \<and> 0 < tail"
proof -
  let ?r = "limit - length (truncation_marker label text)"
  have r: "2 \<le> ?r" using room by simp
  then have h: "max 1 (?r div 2) = ?r div 2" and t: "max 1 (?r - ?r div 2) = ?r - ?r div 2"
    by simp_all
  have "compact_runtime_text limit label text =
      take (?r div 2) text @ truncation_marker label text @ last_chars (?r - ?r div 2) text"
    using long r by (simp add: compact_runtime_text_def Let_def h t)
  moreover have "?r div 2 + (?r - ?r div 2) + length (truncation_marker label text) = limit"
    using room by simp
  moreover have "0 < ?r div 2" "0 < ?r - ?r div 2" using r by simp_all
  ultimately show ?thesis by blast
qed

lemma length_compact_runtime_text_cut:
  assumes "limit < length text" "length (truncation_marker label text) + 2 \<le> limit"
  shows "length (compact_runtime_text limit label text) = limit"
proof -
  obtain head tail where
    eq: "compact_runtime_text limit label text =
       take head text @ truncation_marker label text @ last_chars tail text"
    and sum: "head + tail + length (truncation_marker label text) = limit"
    using compact_runtime_text_cut [OF assms] by blast
  have "head \<le> length text" "tail \<le> length text" using sum assms(1) by simp_all
  then show ?thesis using sum by (simp add: eq)
qed

lemma length_compact_runtime_text_le:
  "length (compact_runtime_text limit label text) \<le> limit + 1"
proof -
  let ?m = "length (truncation_marker label text)"
  consider "length text \<le> limit" | "limit < length text" "?m + 2 \<le> limit"
    | "limit < length text" "limit \<le> ?m" | "limit < length text" "limit = ?m + 1"
    by linarith
  then show ?thesis
  proof cases
    case 1
    then show ?thesis by simp
  next
    case 2
    then show ?thesis by (simp add: length_compact_runtime_text_cut)
  next
    case 3
    then show ?thesis by (simp add: compact_runtime_text_def)
  next
    case 4
    then show ?thesis by (simp add: compact_runtime_text_def Let_def)
  qed
qed

lemma length_clip_text_cut:
  assumes "limit < length text" "length (truncation_marker label text) + 400 \<le> limit"
  shows "length (clip_text label limit text) = limit"
proof -
  let ?b = "limit - length (truncation_marker label text)"
  have b: "400 \<le> ?b" using assms(2) by simp
  then have h: "max 200 (?b div 2) = ?b div 2" by simp
  have t: "0 < ?b - ?b div 2" using b by simp
  have "length (take (?b div 2) text) = ?b div 2"
    using assms(1) by simp
  moreover have "length (last_chars (?b - ?b div 2) text) = ?b - ?b div 2"
    using assms(1) by simp
  moreover have "clip_text label limit text =
      take (?b div 2) text @ truncation_marker label text @ last_chars (?b - ?b div 2) text"
    unfolding clip_text_def Let_def h using t assms(1) by simp
  moreover have "?b div 2 + length (truncation_marker label text) + (?b - ?b div 2) = limit"
    using assms(2) by simp
  ultimately show ?thesis by simp
qed

lemma clip_text_short [simp]: "length text \<le> limit \<Longrightarrow> clip_text label limit text = text"
  by (simp add: clip_text_def)

section \<open>Bounds on values\<close>

text \<open>\<open>bounded L k v\<close>: at most \<open>k\<close> levels of collections, lists of at most 80 and dicts of at
  most 81 entries, texts of at most \<open>L\<close> characters.\<close>

fun bounded :: "nat \<Rightarrow> nat \<Rightarrow> pyval \<Rightarrow> bool" where
  "bounded L k (PStr s) = (length s \<le> L)"
| "bounded L 0 (PList vs) = False"
| "bounded L (Suc k) (PList vs) =
     (length vs \<le> runtime_collection_max_items \<and> list_all (bounded L k) vs)"
| "bounded L 0 (PDict kvs) = False"
| "bounded L (Suc k) (PDict kvs) =
     (length kvs \<le> runtime_collection_max_items + 1 \<and> list_all (\<lambda>kv. bounded L k (snd kv)) kvs)"
| "bounded L k v = True"

lemma length_AList_update_le: "length (AList.update k v d) \<le> Suc (length d)"
  by (induction d) auto

lemma length_dict_update_le: "length (dict_update d e) \<le> length d + length e"
proof (induction e arbitrary: d)
  case Nil
  then show ?case by simp
next
  case (Cons a e)
  obtain k v where a: "a = (k, v)" by fastforce
  have "length (dict_update (AList.update k v d) e) \<le> length (AList.update k v d) + length e"
    by (rule Cons.IH)
  also have "\<dots> \<le> length d + length (a # e)" using length_AList_update_le [of k v d] by simp
  finally show ?case by (simp add: dict_update_def a)
qed

lemma set_AList_update: "set (AList.update k v d) \<subseteq> insert (k, v) (set d)"
  by (induction d) auto

lemma set_dict_update: "set (dict_update d e) \<subseteq> set d \<union> set e"
proof (induction e arbitrary: d)
  case Nil
  then show ?case by simp
next
  case (Cons a e)
  obtain k v where a: "a = (k, v)" by fastforce
  have "set (dict_update (AList.update k v d) e) \<subseteq> set (AList.update k v d) \<union> set e"
    by (rule Cons.IH)
  then show ?case using set_AList_update [of k v d] by (auto simp: dict_update_def a)
qed

lemma bounded_scalar:
  "as_list v = None \<Longrightarrow> as_dict v = None \<Longrightarrow> (\<And>s. v = PStr s \<Longrightarrow> length s \<le> L) \<Longrightarrow> bounded L k v"
  by (cases v; cases k) auto

lemma note_omitted_cases:
  "set (note_omitted n d) \<subseteq> insert (omitted_key, PInt (int (n - length d))) (set d)"
  "length (note_omitted n d) \<le> Suc (length d)"
  using set_AList_update [of omitted_key "PInt (int (n - length d))" d]
    length_AList_update_le [of omitted_key "PInt (int (n - length d))" d]
  by (auto simp: note_omitted_def Let_def)

lemma bounded_note_omitted:
  assumes "\<forall>kv \<in> set d. bounded L k (snd kv)" "length d \<le> runtime_collection_max_items"
  shows "bounded L (Suc k) (PDict (note_omitted n d))"
proof -
  have "\<forall>kv \<in> set (note_omitted n d). bounded L k (snd kv)"
    using assms(1) note_omitted_cases(1) [of n d] by (cases k) auto
  moreover have "length (note_omitted n d) \<le> runtime_collection_max_items + 1"
    using assms(2) note_omitted_cases(2) [of n d] by linarith
  ultimately show ?thesis by (simp add: list_all_iff)
qed

text \<open>Every entry of a compacted collection comes from one level down, or is the count of
  what was left out.\<close>

lemma compact_tree_bounded:
  "(\<And>s. length (clip s) \<le> L) \<Longrightarrow> d \<le> md \<Longrightarrow>
   bounded L (Suc (md - d)) (compact_tree clip md d v)"
proof (induction clip md d v rule: compact_tree.induct)
  case (2 c m d kvs)
  show ?case
  proof (cases "m \<le> d")
    case True
    with 2 show ?thesis by simp
  next
    case False
    then obtain n where n: "m - d = Suc n" "m - (d + 1) = n" by (cases "m - d") auto
    let ?es = "map (\<lambda>kv. (fst kv, compact_tree c m (d + 1) (snd kv)))
      (take runtime_collection_max_items kvs)"
    have sub: "\<forall>kv \<in> set (dict_update [] ?es). bounded L (Suc n) (snd kv)"
      using set_dict_update [of "[]" ?es] 2 False n by fastforce
    have len: "length (dict_update [] ?es) \<le> runtime_collection_max_items"
      using length_dict_update_le [of "[]" ?es] by simp
    from bounded_note_omitted [OF sub len, of "length kvs"] False n show ?thesis by simp
  qed
next
  case (3 c m d vs)
  show ?case
  proof (cases "m \<le> d")
    case True
    with 3 show ?thesis by simp
  next
    case False
    then obtain n where n: "m - d = Suc n" "m - (d + 1) = n" by (cases "m - d") auto
    show ?thesis
    proof (cases "length vs \<le> runtime_collection_max_items")
      case True
      then show ?thesis using 3 False n by (simp add: list_all_iff)
    next
      case long: False
      have h: "max 2 (runtime_collection_max_items - 1) = 79" "max 1 (79 div 2 :: nat) = 39"
        "max 1 (79 - 39 :: nat) = 40" by (simp_all add: runtime_collection_max_items_def)
      have eq: "compact_tree c m d (PList vs) =
          PList (map (compact_tree c m (d + 1)) (take 39 vs) @
            [PDict [(omitted_key, PInt (int (length vs - 39 - 40)))]] @
            map (compact_tree c m (d + 1)) (drop (length vs - 40) vs))"
        using False long by (simp only: compact_tree.simps if_False Let_def h)
      have "\<forall>v \<in> set (take 39 vs). bounded L (Suc n) (compact_tree c m (d + 1) v)"
      proof
        fix v assume v: "v \<in> set (take 39 vs)"
        have "bounded L (Suc (m - (d + 1))) (compact_tree c m (d + 1) v)"
          by (rule "3.IH"(2) [OF False long refl refl refl refl, unfolded h, OF v "3.prems"(1)])
            (use False in simp)
        then show "bounded L (Suc n) (compact_tree c m (d + 1) v)" by (simp only: n)
      qed
      moreover have "\<forall>v \<in> set (drop (length vs - 40) vs). bounded L (Suc n) (compact_tree c m (d + 1) v)"
      proof
        fix v assume v: "v \<in> set (drop (length vs - 40) vs)"
        have "bounded L (Suc (m - (d + 1))) (compact_tree c m (d + 1) v)"
          by (rule "3.IH"(3) [OF False long refl refl refl refl, unfolded h, OF v "3.prems"(1)])
            (use False in simp)
        then show "bounded L (Suc n) (compact_tree c m (d + 1) v)" by (simp only: n)
      qed
      moreover have "length (take 39 vs) + 1 + length (drop (length vs - 40) vs) \<le> 80"
        by simp
      ultimately show ?thesis unfolding eq n(1)
        by (simp add: list_all_iff ball_Un runtime_collection_max_items_def)
    qed
  qed
qed auto


section \<open>What a compacted mapping keeps\<close>

lemma dict_update_fresh:
  "distinct (map fst (d @ e)) \<Longrightarrow> dict_update d e = d @ e"
proof (induction e arbitrary: d)
  case Nil
  then show ?case by simp
next
  case (Cons a e)
  obtain k v where a: "a = (k, v)" by fastforce
  have "k \<notin> fst ` set d" using Cons.prems by (auto simp: a)
  then have "AList.update k v d = d @ [(k, v)]" by (induction d) auto
  then show ?case using Cons.IH [of "d @ [a]"] Cons.prems by (simp add: dict_update_def a)
qed

lemma dict_update_Nil_left: "dict_ok e \<Longrightarrow> dict_update [] e = e"
  by (simp add: dict_update_fresh dict_ok_def)

lemma dict_ok_take: "dict_ok d \<Longrightarrow> dict_ok (take n d)"
  by (simp add: dict_ok_def take_map [symmetric])

lemma dict_ok_map_snd [simp]: "dict_ok (map (\<lambda>kv. (fst kv, f (snd kv))) d) = dict_ok d"
  by (simp add: dict_ok_def comp_def)

lemma map_of_map_snd:
  "map_of (map (\<lambda>kv. (fst kv, f (snd kv))) d) k = map_option f (map_of d k)"
  by (induction d) auto

abbreviation compact_entries :: "dict \<Rightarrow> dict" where
  "compact_entries d \<equiv> map (\<lambda>kv. (fst kv, compact_runtime_value 1 (snd kv))) d"

lemma compact_runtime_mapping_eq:
  "dict_ok d \<Longrightarrow> compact_runtime_mapping d =
     note_omitted (length d) (compact_entries (take runtime_collection_max_items d))"
  by (simp add: compact_runtime_mapping_def compact_runtime_value_def runtime_max_depth_def
      dict_update_Nil_left dict_ok_take)

lemma compact_runtime_mapping_small:
  "dict_ok d \<Longrightarrow> length d \<le> runtime_collection_max_items \<Longrightarrow>
   compact_runtime_mapping d = compact_entries d"
  by (simp add: compact_runtime_mapping_eq note_omitted_def)

lemma map_of_compact_runtime_mapping:
  "dict_ok d \<Longrightarrow> k \<noteq> omitted_key \<Longrightarrow> map_of (compact_runtime_mapping d) k =
     map_option (compact_runtime_value 1) (map_of (take runtime_collection_max_items d) k)"
  by (simp add: compact_runtime_mapping_eq note_omitted_def Let_def update_conv' map_of_map_snd)

lemma dict_ok_note_omitted [simp]: "dict_ok d \<Longrightarrow> dict_ok (note_omitted n d)"
  by (simp add: note_omitted_def Let_def)

lemma dict_ok_compact_runtime_mapping [simp]: "dict_ok d \<Longrightarrow> dict_ok (compact_runtime_mapping d)"
  by (simp add: compact_runtime_mapping_eq dict_ok_take)

lemma compact_runtime_value_simps [simp]:
  "compact_runtime_value d (PStr s) = PStr (compact_runtime_text runtime_text_max_chars ''runtime store'' s)"
  "compact_runtime_value d PNone = PNone"
  "compact_runtime_value d (PBool b) = PBool b"
  "compact_runtime_value d (PInt i) = PInt i"
  "compact_runtime_value d (PFloat m k) = PFloat m k"
  "d < runtime_max_depth \<Longrightarrow> compact_runtime_value d (PList []) = PList []"
  "d < runtime_max_depth \<Longrightarrow> compact_runtime_value d (PDict []) = PDict []"
  by (simp_all add: compact_runtime_value_def note_omitted_def)


lemma compact_runtime_value_dict:
  "d < runtime_max_depth \<Longrightarrow> dict_ok kvs \<Longrightarrow> length kvs \<le> runtime_collection_max_items \<Longrightarrow>
   compact_runtime_value d (PDict kvs) =
     PDict (map (\<lambda>kv. (fst kv, compact_runtime_value (d + 1) (snd kv))) kvs)"
  by (simp add: compact_runtime_value_def note_omitted_def dict_update_Nil_left)

lemma compact_runtime_value_list:
  "d < runtime_max_depth \<Longrightarrow> length vs \<le> runtime_collection_max_items \<Longrightarrow>
   compact_runtime_value d (PList vs) = PList (map (compact_runtime_value (d + 1)) vs)"
  by (simp add: compact_runtime_value_def)

lemma as_list_compact_list:
  "d < runtime_max_depth \<Longrightarrow> \<exists>ws. compact_runtime_value d (PList vs) = PList ws"
  by (simp add: compact_runtime_value_def Let_def)

text \<open>A text as the stores keep it inside a JSON column.\<close>

definition stored_text :: "string \<Rightarrow> string" where
  "stored_text s = compact_runtime_text runtime_text_max_chars ''runtime store'' s"

lemma compact_runtime_value_str: "compact_runtime_value d (PStr s) = PStr (stored_text s)"
  by (simp add: stored_text_def)

lemma stored_text_Nil [simp]: "stored_text [] = []"
  by (simp add: stored_text_def)

lemma stored_text_short: "length s \<le> runtime_text_max_chars \<Longrightarrow> stored_text s = s"
  by (simp add: stored_text_def)

end
