(* ===== verification/Table.thy ===== *)
theory Table
  imports Py
begin

text \<open>
  SQLite tables as the stores use them: an \<open>AUTOINCREMENT\<close> key, rows by key, \<open>UPDATE\<close> by key or
  by a condition, \<open>SELECT\<close> in key order with a \<open>LIMIT\<close>. The interface the stores rely on is the
  locale \<open>keyed_store\<close>; its facts are available for the model's tables as \<open>tb.\<close>\<open>\<dots>\<close>.
\<close>

record 'r tbl =
  seq :: int
  rows :: "(int \<times> 'r) list"

definition empty_tbl :: "'r tbl" where
  "empty_tbl = \<lparr>seq = 0, rows = []\<rparr>"

definition tbl_insert :: "'r \<Rightarrow> 'r tbl \<Rightarrow> int \<times> 'r tbl" where
  "tbl_insert r t = (seq t + 1, \<lparr>seq = seq t + 1, rows = rows t @ [(seq t + 1, r)]\<rparr>)"

definition tbl_get :: "'r tbl \<Rightarrow> int \<Rightarrow> 'r option" where
  "tbl_get t i = map_of (rows t) i"

definition tbl_update_where :: "(int \<Rightarrow> 'r \<Rightarrow> bool) \<Rightarrow> ('r \<Rightarrow> 'r) \<Rightarrow> 'r tbl \<Rightarrow> 'r tbl" where
  "tbl_update_where P f t =
     t\<lparr>rows := map (\<lambda>(i, r). if P i r then (i, f r) else (i, r)) (rows t)\<rparr>"

definition tbl_update :: "int \<Rightarrow> ('r \<Rightarrow> 'r) \<Rightarrow> 'r tbl \<Rightarrow> 'r tbl" where
  "tbl_update k f t = tbl_update_where (\<lambda>i r. i = k) f t"

text \<open>The number of rows an \<open>UPDATE\<close> or a \<open>SELECT COUNT\<close> with this condition matches.\<close>

definition tbl_count_where :: "(int \<Rightarrow> 'r \<Rightarrow> bool) \<Rightarrow> 'r tbl \<Rightarrow> nat" where
  "tbl_count_where P t = length (filter (\<lambda>(i, r). P i r) (rows t))"

definition tbl_select :: "(int \<Rightarrow> 'r \<Rightarrow> bool) \<Rightarrow> 'r tbl \<Rightarrow> (int \<times> 'r) list" where
  "tbl_select P t = sort_key fst (filter (\<lambda>(i, r). P i r) (rows t))"

text \<open>\<open>LIMIT n\<close>: a negative limit is no limit.\<close>

definition sql_limit :: "int \<Rightarrow> 'a list \<Rightarrow> 'a list" where
  "sql_limit n xs = (if n < 0 then xs else take (nat n) xs)"

text \<open>\<open>LIKE\<close>: percent for any text, underscore for any character, ASCII letters without case.\<close>

definition ascii_lower :: "char \<Rightarrow> char" where
  "ascii_lower c = (let n = (of_char c :: nat) in if 65 \<le> n \<and> n \<le> 90 then char_of (n + 32) else c)"

fun sql_like :: "string \<Rightarrow> string \<Rightarrow> bool" where
  "sql_like [] s = (s = [])"
| "sql_like (p # ps) [] = (p = CHR ''%'' \<and> sql_like ps [])"
| "sql_like (p # ps) (c # cs) =
     (if p = CHR ''%'' then sql_like ps (c # cs) \<or> sql_like (p # ps) cs
      else (p = CHR ''_'' \<or> ascii_lower p = ascii_lower c) \<and> sql_like ps cs)"

definition tbl_ok :: "'r tbl \<Rightarrow> bool" where
  "tbl_ok t \<longleftrightarrow> sorted_wrt (<) (map fst (rows t)) \<and> list_all (\<lambda>i. 0 < i \<and> i \<le> seq t) (map fst (rows t))
     \<and> 0 \<le> seq t"

section \<open>The interface\<close>

locale keyed_store =
  fixes ins :: "'r \<Rightarrow> 't \<Rightarrow> int \<times> 't"
    and get :: "'t \<Rightarrow> int \<Rightarrow> 'r option"
    and upd :: "int \<Rightarrow> ('r \<Rightarrow> 'r) \<Rightarrow> 't \<Rightarrow> 't"
    and ok :: "'t \<Rightarrow> bool"
  assumes ins_fresh: "ok t \<Longrightarrow> get t (fst (ins r t)) = None"
    and get_ins: "ok t \<Longrightarrow> get (snd (ins r t)) i = (if i = fst (ins r t) then Some r else get t i)"
    and get_upd: "get (upd k f t) i = (if i = k then map_option f (get t i) else get t i)"
    and ok_ins: "ok t \<Longrightarrow> ok (snd (ins r t))"
    and ok_upd: "ok t \<Longrightarrow> ok (upd k f t)"
begin

lemma get_ins_same: "ok t \<Longrightarrow> get (snd (ins r t)) (fst (ins r t)) = Some r"
  by (simp add: get_ins)

lemma get_ins_old: "ok t \<Longrightarrow> get t i = Some r' \<Longrightarrow> get (snd (ins r t)) i = Some r'"
  using ins_fresh [of t r] by (auto simp: get_ins)

lemma get_upd_same: "get t k = Some r \<Longrightarrow> get (upd k f t) k = Some (f r)"
  by (simp add: get_upd)

lemma get_upd_other: "i \<noteq> k \<Longrightarrow> get (upd k f t) i = get t i"
  by (simp add: get_upd)

lemma get_upd_missing: "get t k = None \<Longrightarrow> get (upd k f t) = get t"
  by (auto simp: get_upd fun_eq_iff)

lemma get_upd_upd: "get (upd k g (upd k f t)) = get (upd k (g \<circ> f) t)"
  by (auto simp: get_upd fun_eq_iff option.map_comp)

lemma ins_ids_differ:
  "ok t \<Longrightarrow> fst (ins r t) \<noteq> fst (ins r' (snd (ins r t)))"
  using ins_fresh [of "snd (ins r t)" r'] ok_ins [of t r] get_ins_same [of t r] by auto

end

lemma rows_update_where_keys [simp]: "map fst (rows (tbl_update_where P f t)) = map fst (rows t)"
  by (simp add: tbl_update_where_def comp_def case_prod_beta if_distrib cong: if_cong)

lemma seq_update_where [simp]: "seq (tbl_update_where P f t) = seq t"
  by (simp add: tbl_update_where_def)

lemma tbl_ok_update_where [simp]: "tbl_ok t \<Longrightarrow> tbl_ok (tbl_update_where P f t)"
  by (simp add: tbl_ok_def)

lemma tbl_get_update_where:
  "tbl_get (tbl_update_where P f t) i =
     map_option (\<lambda>r. if P i r then f r else r) (tbl_get t i)"
proof -
  have "map_of (map (\<lambda>(i, r). if P i r then (i, f r) else (i, r)) rs) i =
      map_option (\<lambda>r. if P i r then f r else r) (map_of rs i)" for rs
    by (induction rs) (auto split: prod.splits)
  then show ?thesis by (simp add: tbl_get_def tbl_update_where_def)
qed

lemma tbl_get_bounds: "tbl_ok t \<Longrightarrow> tbl_get t i = Some r \<Longrightarrow> 0 < i \<and> i \<le> seq t"
  by (force simp: tbl_ok_def tbl_get_def list_all_iff dest: map_of_SomeD)

lemma tbl_get_above: "tbl_ok t \<Longrightarrow> seq t < i \<Longrightarrow> tbl_get t i = None"
  using tbl_get_bounds [of t i] by (cases "tbl_get t i") auto

interpretation tb: keyed_store tbl_insert tbl_get tbl_update tbl_ok
proof unfold_locales
  fix t :: "'r tbl" and r
  assume ok: "tbl_ok t"
  show fresh: "tbl_get t (fst (tbl_insert r t)) = None"
    using tbl_get_above [OF ok] by (simp add: tbl_insert_def)
  show "tbl_get (snd (tbl_insert r t)) i =
      (if i = fst (tbl_insert r t) then Some r else tbl_get t i)" for i
    using fresh by (auto simp: tbl_insert_def tbl_get_def map_add_def split: option.splits)
  show "tbl_ok (snd (tbl_insert r t))"
    using ok by (auto simp: tbl_ok_def tbl_insert_def sorted_wrt_append list_all_iff)
  show "tbl_ok (tbl_update k f t)" for k f
    using ok by (simp add: tbl_update_def)
next
  fix t :: "'r tbl" and k i and f :: "'r \<Rightarrow> 'r"
  show "tbl_get (tbl_update k f t) i = (if i = k then map_option f (tbl_get t i) else tbl_get t i)"
    by (simp add: tbl_update_def tbl_get_update_where option.map_ident)
qed

lemma tbl_ok_empty [simp]: "tbl_ok empty_tbl"
  by (simp add: tbl_ok_def empty_tbl_def)

lemma seq_tbl_update [simp]: "seq (tbl_update k f t) = seq t"
  by (simp add: tbl_update_def)

lemma tbl_ok_update [simp]: "tbl_ok t \<Longrightarrow> tbl_ok (tbl_update k f t)"
  by (rule tb.ok_upd)

lemma tbl_update_update: "tbl_update i g (tbl_update i f t) = tbl_update i (g \<circ> f) t"
proof -
  have "map (\<lambda>(j, r). if j = i then (j, g r) else (j, r))
      (map (\<lambda>(j, r). if j = i then (j, f r) else (j, r)) rs) =
    map (\<lambda>(j, r). if j = i then (j, (g \<circ> f) r) else (j, r)) rs" for rs
    by (induction rs) auto
  then show ?thesis by (simp add: tbl_update_def tbl_update_where_def del: map_map)
qed

lemma tbl_update_id: "tbl_update i id t = t"
proof -
  have "map (\<lambda>(j, r). if j = i then (j, id r) else (j, r)) (rows t) = rows t"
    by (rule map_idI) auto
  then show ?thesis by (simp add: tbl_update_def tbl_update_where_def)
qed

section \<open>Selections\<close>

lemma tbl_ok_distinct: "tbl_ok t \<Longrightarrow> distinct (map fst (rows t))"
  using strict_sorted_iff tbl_ok_def by blast

lemma sorted_filter_keys:
  "sorted_wrt (<) (map fst xs) \<Longrightarrow> sorted (map fst (filter P xs))"
  by (induction xs) (auto simp: less_imp_le)

lemma tbl_select_eq: "tbl_ok t \<Longrightarrow> tbl_select P t = filter (\<lambda>(i, r). P i r) (rows t)"
  by (simp add: tbl_select_def sorted_sort_id tbl_ok_def sorted_filter_keys sort_key_id_if_sorted)

lemma set_tbl_select:
  "tbl_ok t \<Longrightarrow> (i, r) \<in> set (tbl_select P t) \<longleftrightarrow> tbl_get t i = Some r \<and> P i r"
  using tbl_ok_distinct [of t] by (auto simp: tbl_select_def tbl_get_def)

lemma sorted_tbl_select: "sorted (map fst (tbl_select P t))"
  by (simp add: tbl_select_def)

lemma distinct_tbl_select: "tbl_ok t \<Longrightarrow> distinct (map fst (tbl_select P t))"
  using tbl_ok_distinct [of t] by (simp add: tbl_select_eq distinct_map_filter)

lemma set_sql_limit: "set (sql_limit n xs) \<subseteq> set xs"
  by (auto simp: sql_limit_def dest: in_set_takeD)

lemma sql_like_any [simp]: "sql_like ''%'' s"
  by (induction s) auto

lemma sql_like_prefix: "sql_like (p @ ''%'') (p @ s)"
proof (induction p)
  case (Cons a p)
  have "sql_like (CHR ''%'' # ps) (c # cs)" if "sql_like ps cs" for ps c and cs :: string
    using that by (induction cs) (auto elim: sql_like.elims)
  with Cons show ?case by (cases "a = CHR ''%''") auto
qed simp

lemma length_sql_limit: "0 \<le> n \<Longrightarrow> length (sql_limit n xs) \<le> nat n"
  by (simp add: sql_limit_def)

end
