(* ===== verification/Task_Models.thy ===== *)
theory Task_Models
  imports Compact Table
begin

text \<open>
  \<open>store/task/models.py\<close> and the row types of \<open>store/task/schema.py\<close>: the objects \<open>Task\<close>,
  \<open>Failure\<close>, \<open>Run\<close> and \<open>MetaReflection\<close>, reading one from its row and writing its JSON
  column. The fields that live in the JSON column are values of any type, as in the code
  (nothing checks them when a row is read).
\<close>

section \<open>Rows\<close>

record task_row =
  row_title :: string
  row_status :: string
  row_priority :: string
  row_created_at :: string
  row_data :: json_col

record failure_row =
  frow_kind :: string
  frow_dismissed :: int
  frow_created_at :: string
  frow_data :: json_col

record run_row =
  rrow_task_id :: int
  rrow_run_type :: string
  rrow_worker_type :: string
  rrow_status :: string
  rrow_created_at :: string
  rrow_started_at :: string
  rrow_completed_at :: string
  rrow_data :: json_col

record meta_row =
  mrow_target_kind :: string
  mrow_trigger :: string
  mrow_loop_level :: string
  mrow_diagnosis :: string
  mrow_proposal :: string
  mrow_verification_plan :: string
  mrow_decision :: string
  mrow_created_at :: string
  mrow_data :: json_col

text \<open>\<open>json.loads(data_raw or "{}")\<close>, an empty dict when the text does not parse or is no object.\<close>

definition column_dict :: "json_col \<Rightarrow> dict" where
  "column_dict c = (case c of Some (PDict d) \<Rightarrow> d | _ \<Rightarrow> [])"

section \<open>Task\<close>

definition task_core_data_keys :: "string list" where
  "task_core_data_keys = [''goal'', ''source'', ''next_step'', ''chain_id'', ''parent_task_id'',
     ''current_step'', ''wait_kind'', ''wait_key'', ''state_json'', ''wait_json'', ''result_json'',
     ''async_job_id'', ''model_tier'']"

record task =
  t_id :: int
  t_title :: string
  t_status :: string
  t_priority :: string
  t_created_at :: string
  t_goal :: pyval
  t_source :: pyval
  t_next_step :: pyval
  t_chain_id :: pyval
  t_parent_task_id :: pyval
  t_current_step :: pyval
  t_wait_kind :: pyval
  t_wait_key :: pyval
  t_state_json :: pyval
  t_wait_json :: pyval
  t_result_json :: pyval
  t_async_job_id :: pyval
  t_model_tier :: pyval
  t_extras :: dict

definition task_from_row :: "int \<times> task_row \<Rightarrow> task" where
  "task_from_row ir = (let (rid, r) = ir; data = column_dict (row_data r) in
     \<lparr>t_id = rid, t_title = row_title r, t_status = row_status r, t_priority = row_priority r,
      t_created_at = row_created_at r,
      t_goal = dict_get_or (PStr []) data ''goal'',
      t_source = dict_get_or (PStr ''external'') data ''source'',
      t_next_step = dict_get_or (PStr []) data ''next_step'',
      t_chain_id = dict_get_or (PStr []) data ''chain_id'',
      t_parent_task_id = dict_get_or (PStr []) data ''parent_task_id'',
      t_current_step = dict_get_or (PStr []) data ''current_step'',
      t_wait_kind = dict_get_or (PStr []) data ''wait_kind'',
      t_wait_key = dict_get_or (PStr []) data ''wait_key'',
      t_state_json = py_or (dict_get_or (PDict []) data ''state_json'') (PDict []),
      t_wait_json = py_or (dict_get_or (PDict []) data ''wait_json'') (PDict []),
      t_result_json = py_or (dict_get_or (PDict []) data ''result_json'') (PDict []),
      t_async_job_id = dict_get_or (PStr []) data ''async_job_id'',
      t_model_tier = dict_get_or (PStr []) data ''model_tier'',
      t_extras = dict_without task_core_data_keys data\<rparr>)"

definition task_core_data :: "task \<Rightarrow> dict" where
  "task_core_data t =
     [(''goal'', t_goal t), (''source'', t_source t), (''next_step'', t_next_step t),
      (''chain_id'', t_chain_id t), (''parent_task_id'', t_parent_task_id t),
      (''current_step'', t_current_step t), (''wait_kind'', t_wait_kind t),
      (''wait_key'', t_wait_key t), (''state_json'', t_state_json t),
      (''wait_json'', t_wait_json t), (''result_json'', t_result_json t),
      (''async_job_id'', t_async_job_id t), (''model_tier'', t_model_tier t)]"

definition task_to_data_json :: "task \<Rightarrow> json_col" where
  "task_to_data_json t = Some (PDict (compact_runtime_mapping
     (dict_update (task_core_data t) (dict_without task_core_data_keys (t_extras t)))))"

section \<open>Failure\<close>

record failure =
  f_id :: int
  f_kind :: string
  f_dismissed :: bool
  f_created_at :: string
  f_summary :: pyval
  f_context :: pyval
  f_task_id :: pyval
  f_extras :: dict

definition failure_from_row :: "int \<times> failure_row \<Rightarrow> failure" where
  "failure_from_row ir = (let (rid, r) = ir; data = column_dict (frow_data r) in
     \<lparr>f_id = rid, f_kind = frow_kind r, f_dismissed = (frow_dismissed r \<noteq> 0),
      f_created_at = frow_created_at r,
      f_summary = dict_get_or (PStr []) data ''summary'',
      f_context = dict_get_or (PStr []) data ''context'',
      f_task_id = dict_get_or (PStr []) data ''task_id'',
      f_extras = dict_without [''summary'', ''context'', ''task_id''] data\<rparr>)"

section \<open>Run\<close>

definition run_data_keys :: "string list" where
  "run_data_keys = [''input_json'', ''output_json'', ''log_text'', ''error_text'', ''tool_name'',
     ''session_id'', ''model_tier'', ''progress'']"

record run =
  r_id :: int
  r_task_id :: int
  r_run_type :: string
  r_worker_type :: string
  r_status :: string
  r_created_at :: string
  r_started_at :: string
  r_completed_at :: string
  r_input_json :: pyval
  r_output_json :: pyval
  r_log_text :: pyval
  r_error_text :: pyval
  r_tool_name :: pyval
  r_session_id :: pyval
  r_model_tier :: pyval
  r_progress :: pyval
  r_extras :: dict

definition run_from_row :: "int \<times> run_row \<Rightarrow> run" where
  "run_from_row ir = (let (rid, r) = ir; data = column_dict (rrow_data r) in
     \<lparr>r_id = rid, r_task_id = rrow_task_id r, r_run_type = rrow_run_type r,
      r_worker_type = rrow_worker_type r, r_status = rrow_status r,
      r_created_at = rrow_created_at r, r_started_at = rrow_started_at r,
      r_completed_at = rrow_completed_at r,
      r_input_json = py_or (dict_get_or (PDict []) data ''input_json'') (PDict []),
      r_output_json = py_or (dict_get_or (PDict []) data ''output_json'') (PDict []),
      r_log_text = dict_get_or (PStr []) data ''log_text'',
      r_error_text = dict_get_or (PStr []) data ''error_text'',
      r_tool_name = dict_get_or (PStr []) data ''tool_name'',
      r_session_id = dict_get_or (PStr []) data ''session_id'',
      r_model_tier = dict_get_or (PStr []) data ''model_tier'',
      r_progress = dict_get_or (PStr []) data ''progress'',
      r_extras = dict_without run_data_keys data\<rparr>)"

definition run_core_data :: "run \<Rightarrow> dict" where
  "run_core_data r =
     [(''input_json'', r_input_json r), (''output_json'', r_output_json r),
      (''log_text'', r_log_text r), (''error_text'', r_error_text r),
      (''tool_name'', r_tool_name r), (''session_id'', r_session_id r),
      (''model_tier'', r_model_tier r), (''progress'', r_progress r)]"

text \<open>Unlike \<open>Task.to_data_json\<close>, the extras are merged unfiltered: an extra named like a
  field replaces the field.\<close>

definition run_to_data_json :: "run \<Rightarrow> json_col" where
  "run_to_data_json r = Some (PDict (compact_runtime_mapping
     (dict_update (run_core_data r) (r_extras r))))"

section \<open>MetaReflection\<close>

record meta_reflection =
  m_id :: string
  m_target_kind :: string
  m_trigger :: string
  m_loop_level :: string
  m_diagnosis :: string
  m_proposal :: string
  m_verification_plan :: string
  m_decision :: string
  m_created_at :: string
  m_task_id :: int
  m_run_id :: int
  m_tool_name :: string
  m_extras :: dict

text \<open>Two conversions to \<open>int\<close> may raise.\<close>

definition meta_from_row :: "string \<times> meta_row \<Rightarrow> meta_reflection res" where
  "meta_from_row ir = (let (rid, r) = ir; data = column_dict (mrow_data r) in
     bind_res (py_int (py_or (dict_get_or (PInt 0) data ''task_id'') (PInt 0))) (\<lambda>tid.
     bind_res (py_int (py_or (dict_get_or (PInt 0) data ''run_id'') (PInt 0))) (\<lambda>run.
       Inr \<lparr>m_id = rid, m_target_kind = mrow_target_kind r, m_trigger = mrow_trigger r,
         m_loop_level = mrow_loop_level r, m_diagnosis = mrow_diagnosis r,
         m_proposal = mrow_proposal r, m_verification_plan = mrow_verification_plan r,
         m_decision = mrow_decision r, m_created_at = mrow_created_at r,
         m_task_id = tid, m_run_id = run,
         m_tool_name = str_or_empty (dict_get_or (PStr []) data ''tool_name''),
         m_extras = dict_without [''task_id'', ''run_id'', ''tool_name''] data\<rparr>)))"

definition meta_to_data_json :: "meta_reflection \<Rightarrow> json_col" where
  "meta_to_data_json m = Some (PDict (compact_runtime_mapping (dict_update
     [(''task_id'', PInt (m_task_id m)), (''run_id'', PInt (m_run_id m)),
      (''tool_name'', PStr (m_tool_name m))] (m_extras m))))"

section \<open>Reading back what was written\<close>

text \<open>\<open>compact_task\<close>: the task whose every JSON value has gone through the store's compaction.\<close>

definition compact_task :: "task \<Rightarrow> task" where
  "compact_task t = (let c = compact_runtime_value 1; cj = (\<lambda>v. py_or (c v) (PDict [])) in
     t\<lparr>t_goal := c (t_goal t), t_source := c (t_source t), t_next_step := c (t_next_step t),
       t_chain_id := c (t_chain_id t), t_parent_task_id := c (t_parent_task_id t),
       t_current_step := c (t_current_step t), t_wait_kind := c (t_wait_kind t),
       t_wait_key := c (t_wait_key t), t_state_json := cj (t_state_json t),
       t_wait_json := cj (t_wait_json t), t_result_json := cj (t_result_json t),
       t_async_job_id := c (t_async_job_id t), t_model_tier := c (t_model_tier t),
       t_extras := compact_entries (t_extras t)\<rparr>)"

definition task_row_of :: "task \<Rightarrow> int \<times> task_row" where
  "task_row_of t = (t_id t, \<lparr>row_title = t_title t, row_status = t_status t,
     row_priority = t_priority t, row_created_at = t_created_at t,
     row_data = task_to_data_json t\<rparr>)"

lemma task_core_data_keys_fst: "map fst (task_core_data t) = task_core_data_keys"
  by (simp add: task_core_data_def task_core_data_keys_def)

lemma distinct_task_core_data_keys: "distinct task_core_data_keys"
  by (simp add: task_core_data_keys_def)

lemma dict_ok_task_core_data [simp]: "dict_ok (task_core_data t)"
  by (simp add: dict_ok_def task_core_data_keys_fst distinct_task_core_data_keys)

lemma length_task_core_data [simp]: "length (task_core_data t) = 13"
  by (simp add: task_core_data_def)

lemma task_all_data:
  assumes "dict_ok (t_extras t)"
  shows "dict_update (task_core_data t) (dict_without task_core_data_keys (t_extras t)) =
    task_core_data t @ dict_without task_core_data_keys (t_extras t)"
  by (rule dict_update_fresh)
    (use assms in \<open>auto simp: task_core_data_keys_fst distinct_task_core_data_keys dict_without_def
      dict_ok_def distinct_map_filter\<close>)

lemma dict_ok_task_all_data:
  "dict_ok (t_extras t) \<Longrightarrow>
   dict_ok (task_core_data t @ dict_without task_core_data_keys (t_extras t))"
  by (auto simp: dict_ok_def task_core_data_keys_fst distinct_task_core_data_keys dict_without_def
      distinct_map_filter)

lemma omitted_key_not_core [simp]: "omitted_key \<notin> set task_core_data_keys"
  by (simp add: omitted_key_def task_core_data_keys_def)

text \<open>A core field survives, whatever the number of extras: it is among the first 80 entries.\<close>

lemma map_of_task_data_core:
  assumes "dict_ok (t_extras t)" "k \<in> set task_core_data_keys"
  shows "map_of (column_dict (task_to_data_json t)) k =
    map_option (compact_runtime_value 1) (map_of (task_core_data t) k)"
proof -
  have ne: "k \<noteq> omitted_key" using assms(2) by auto
  have "k \<in> fst ` set (task_core_data t)"
    using assms(2) by (metis list.set_map task_core_data_keys_fst)
  then have "map_of (task_core_data t) k \<noteq> None" by (simp add: map_of_eq_None_iff)
  then obtain v where v: "map_of (task_core_data t) k = Some v" by blast
  have "take runtime_collection_max_items
      (task_core_data t @ dict_without task_core_data_keys (t_extras t)) =
    task_core_data t @ take 67 (dict_without task_core_data_keys (t_extras t))"
    by (simp add: runtime_collection_max_items_def)
  then show ?thesis
    using assms(1) ne v
    by (simp add: task_to_data_json_def column_dict_def task_all_data dict_ok_task_all_data
        map_of_compact_runtime_mapping map_add_def)
qed

lemma dict_get_or_task_data_core:
  "dict_ok (t_extras t) \<Longrightarrow> k \<in> set task_core_data_keys \<Longrightarrow>
   dict_get_or dflt (column_dict (task_to_data_json t)) k =
     compact_runtime_value 1 (the (map_of (task_core_data t) k))"
  using map_of_task_data_core [of t k] map_of_eq_None_iff [of "task_core_data t" k]
    task_core_data_keys_fst [of t]
  by (auto simp: dict_get_or_def simp flip: list.set_map)

text \<open>The extras survive entry by entry when core and extras fit into one mapping.\<close>

lemma extras_task_data:
  assumes "dict_ok (t_extras t)" "length (t_extras t) \<le> 67"
    "\<forall>kv \<in> set (t_extras t). fst kv \<notin> set task_core_data_keys"
  shows "dict_without task_core_data_keys (column_dict (task_to_data_json t)) =
    compact_entries (t_extras t)"
proof -
  have "compact_runtime_mapping (task_core_data t @ t_extras t) =
      compact_entries (task_core_data t @ t_extras t)"
    using dict_ok_task_all_data [OF assms(1)] assms
    by (intro compact_runtime_mapping_small)
      (simp_all add: runtime_collection_max_items_def dict_without_idle)
  moreover have "dict_without task_core_data_keys (compact_entries (task_core_data t)) = []"
    by (simp add: task_core_data_def task_core_data_keys_def dict_without_def)
  moreover have "dict_without task_core_data_keys (compact_entries (t_extras t)) =
      compact_entries (t_extras t)"
    using assms(3) by (intro dict_without_idle) auto
  moreover have "task_to_data_json t = Some (PDict (compact_runtime_mapping (task_core_data t @ t_extras t)))"
    by (simp only: task_to_data_json_def dict_without_idle [OF assms(3)]
        task_all_data [OF assms(1), unfolded dict_without_idle [OF assms(3)]])
  ultimately show ?thesis
    by (simp only: column_dict_def option.case pyval.case map_append dict_without_append append_Nil)
qed

lemma task_from_row_of:
  assumes "dict_ok (t_extras t)" "length (t_extras t) \<le> 67"
    "\<forall>kv \<in> set (t_extras t). fst kv \<notin> set task_core_data_keys"
  shows "task_from_row (task_row_of t) = compact_task t"
proof -
  have core: "dict_get_or dflt (column_dict (task_to_data_json t)) k =
      compact_runtime_value 1 (the (map_of (task_core_data t) k))"
    if "k \<in> set task_core_data_keys" for k dflt
    using dict_get_or_task_data_core [OF assms(1) that] .
  show ?thesis
    by (simp add: task_from_row_def task_row_of_def compact_task_def Let_def
        extras_task_data [OF assms])
      (simp add: core task_core_data_keys_def task_core_data_def)
qed

end
