(* ===== verification/Task_State.thy ===== *)
theory Task_State
  imports Task_Models "HOL-Library.Product_Lexorder"
begin

text \<open>
  \<open>store/task/state.py\<close>: creating, patching, amending and listing tasks. A table of
  \<open>task_row\<close>s is the state; an operation that can raise returns its result or the exception
  together with the table, so that what was already written when it raised is visible. A
  keyword argument that may be left out (\<open>_UNSET\<close>) is an option; \<open>None\<close> is \<open>PNone\<close>.
\<close>

type_synonym tasks = "task_row tbl"

section \<open>Building a row\<close>

record task_args =
  a_title :: pyval
  a_goal :: pyval
  a_priority :: pyval
  a_source :: pyval
  a_status :: pyval
  a_next_step :: pyval
  a_chain_id :: pyval
  a_parent_task_id :: pyval
  a_current_step :: pyval
  a_wait_kind :: pyval
  a_wait_key :: pyval
  a_state_json :: pyval
  a_wait_json :: pyval
  a_result_json :: pyval
  a_async_job_id :: pyval
  a_model_tier :: pyval
  a_extras :: pyval

definition task_args_default :: "pyval \<Rightarrow> task_args" where
  "task_args_default title = \<lparr>a_title = title, a_goal = PStr [], a_priority = PStr ''normal'',
     a_source = PStr ''external'', a_status = PStr ''pending'', a_next_step = PStr [],
     a_chain_id = PStr [], a_parent_task_id = PStr [], a_current_step = PStr [],
     a_wait_kind = PStr [], a_wait_key = PStr [], a_state_json = PNone, a_wait_json = PNone,
     a_result_json = PNone, a_async_job_id = PStr [], a_model_tier = PStr [], a_extras = PNone\<rparr>"

definition build_task_data :: "task_args \<Rightarrow> dict res" where
  "build_task_data a = (let data =
     [(''goal'', a_goal a), (''source'', a_source a), (''next_step'', a_next_step a),
      (''chain_id'', a_chain_id a), (''parent_task_id'', a_parent_task_id a),
      (''current_step'', a_current_step a), (''wait_kind'', a_wait_kind a),
      (''wait_key'', a_wait_key a), (''state_json'', py_or (a_state_json a) (PDict [])),
      (''wait_json'', py_or (a_wait_json a) (PDict [])),
      (''result_json'', py_or (a_result_json a) (PDict [])),
      (''async_job_id'', a_async_job_id a), (''model_tier'', a_model_tier a)]
     in if truthy (a_extras a)
        then bind_res (py_dict (a_extras a)) (\<lambda>e. Inr (dict_update data e))
        else Inr data)"

text \<open>\<open>v.strip()\<close> of a value that should be a text.\<close>

fun strip_attr :: "pyval \<Rightarrow> string res" where
  "strip_attr (PStr s) = Inr (strip s)"
| "strip_attr v = Inl (Exn ''AttributeError''
     (str_repr (type_name v) @ '' object has no attribute '' @ str_repr ''strip''))"

definition task_title_limit :: nat where
  "task_title_limit = 1000"

definition stored_title :: "string \<Rightarrow> string" where
  "stored_title s = compact_runtime_text task_title_limit ''task title'' (strip s)"

definition build_task_insert :: "string \<Rightarrow> pyval \<Rightarrow> pyval \<Rightarrow> pyval \<Rightarrow> dict \<Rightarrow> task_row res" where
  "build_task_insert now title status priority data =
     bind_res (strip_attr title) (\<lambda>s. Inr
       \<lparr>row_title = compact_runtime_text task_title_limit ''task title'' s,
        row_status = py_str (py_or status (PStr ''pending'')),
        row_priority = py_str (py_or priority (PStr ''normal'')),
        row_created_at = now,
        row_data = Some (PDict (compact_runtime_mapping data))\<rparr>)"

text \<open>\<open>add_task\<close>: the new id. \<open>now\<close> is \<open>datetime('now')\<close>, the column's default.\<close>

definition add_task :: "string \<Rightarrow> task_args \<Rightarrow> tasks \<Rightarrow> int res \<times> tasks" where
  "add_task now a t =
     (case bind_res (build_task_data a)
             (build_task_insert now (a_title a) (a_status a) (a_priority a)) of
        Inl e \<Rightarrow> (Inl e, t)
      | Inr row \<Rightarrow> (let (i, t') = tbl_insert row t in (Inr i, t')))"

section \<open>Reading and saving one task\<close>

definition get_task_by_id :: "tasks \<Rightarrow> int \<Rightarrow> task option" where
  "get_task_by_id t i = map_option (\<lambda>r. task_from_row (i, r)) (tbl_get t i)"

definition save_task :: "task \<Rightarrow> tasks \<Rightarrow> tasks" where
  "save_task k t = tbl_update (t_id k)
     (\<lambda>r. r\<lparr>row_status := t_status k, row_data := task_to_data_json k\<rparr>) t"

definition save_task_title :: "int \<Rightarrow> string \<Rightarrow> tasks \<Rightarrow> tasks" where
  "save_task_title i title t = tbl_update i (\<lambda>r. r\<lparr>row_title := stored_title title\<rparr>) t"

section \<open>Patching\<close>

record patch =
  p_title :: "pyval option"
  p_goal :: "pyval option"
  p_status :: "pyval option"
  p_next_step :: "pyval option"
  p_current_step :: "pyval option"
  p_model_tier :: "pyval option"
  p_wait_kind :: "pyval option"
  p_wait_key :: "pyval option"
  p_wait_json :: "pyval option"
  p_result_json :: "pyval option"
  p_merge_result_json :: bool
  p_extras :: dict

definition no_patch :: patch where
  "no_patch = \<lparr>p_title = None, p_goal = None, p_status = None, p_next_step = None,
     p_current_step = None, p_model_tier = None, p_wait_kind = None, p_wait_key = None,
     p_wait_json = None, p_result_json = None, p_merge_result_json = False, p_extras = []\<rparr>"

definition set_str :: "pyval option \<Rightarrow> pyval \<Rightarrow> pyval" where
  "set_str v old = (case v of None \<Rightarrow> old | Some x \<Rightarrow> PStr (str_or_empty x))"

definition patch_texts :: "patch \<Rightarrow> task \<Rightarrow> task" where
  "patch_texts p k = k\<lparr>t_goal := set_str (p_goal p) (t_goal k),
     t_status := (case p_status p of None \<Rightarrow> t_status k | Some v \<Rightarrow> str_or_empty v),
     t_next_step := set_str (p_next_step p) (t_next_step k),
     t_current_step := set_str (p_current_step p) (t_current_step k),
     t_model_tier := set_str (p_model_tier p) (t_model_tier k),
     t_wait_kind := set_str (p_wait_kind p) (t_wait_kind k),
     t_wait_key := set_str (p_wait_key p) (t_wait_key k)\<rparr>"

definition patch_wait_json :: "patch \<Rightarrow> task \<Rightarrow> task res" where
  "patch_wait_json p k = (case p_wait_json p of None \<Rightarrow> Inr k
     | Some v \<Rightarrow> bind_res (dict_or_empty v) (\<lambda>d. Inr (k\<lparr>t_wait_json := PDict d\<rparr>)))"

definition patch_result_json :: "patch \<Rightarrow> task \<Rightarrow> task res" where
  "patch_result_json p k = (case p_result_json p of None \<Rightarrow> Inr k
     | Some v \<Rightarrow> bind_res (dict_or_empty v) (\<lambda>incoming.
         if p_merge_result_json p
         then bind_res (dict_or_empty (t_result_json k)) (\<lambda>merged.
                Inr (k\<lparr>t_result_json := PDict (dict_update merged incoming)\<rparr>))
         else Inr (k\<lparr>t_result_json := PDict incoming\<rparr>)))"

definition patch_extras :: "patch \<Rightarrow> task \<Rightarrow> task" where
  "patch_extras p k = (if p_extras p \<noteq> [] then k\<lparr>t_extras := dict_update (t_extras k) (p_extras p)\<rparr> else k)"

text \<open>A new title is written at once, before the conversions that can raise.\<close>

definition patch_title :: "int \<Rightarrow> patch \<Rightarrow> task \<Rightarrow> tasks \<Rightarrow> task \<times> tasks" where
  "patch_title i p k t = (case p_title p of None \<Rightarrow> (k, t)
     | Some v \<Rightarrow> (let nt = strip (str_or_empty v) in
         if nt \<noteq> [] then (k\<lparr>t_title := nt\<rparr>, save_task_title i nt t) else (k, t)))"

definition patched :: "patch \<Rightarrow> task \<Rightarrow> task res" where
  "patched p k = bind_res (patch_wait_json p (patch_texts p k)) (\<lambda>k1.
     bind_res (patch_result_json p k1) (\<lambda>k2. Inr (patch_extras p k2)))"

definition patch_task :: "int \<Rightarrow> patch \<Rightarrow> tasks \<Rightarrow> bool res \<times> tasks" where
  "patch_task i p t = (case get_task_by_id t i of
      None \<Rightarrow> (Inr False, t)
    | Some k \<Rightarrow> (let (k1, t1) = patch_title i p k t in
        case patched p k1 of
          Inl e \<Rightarrow> (Inl e, t1)
        | Inr k2 \<Rightarrow> (Inr True, save_task k2 t1)))"

section \<open>Amending\<close>

definition amendments_of :: "dict \<Rightarrow> pyval list" where
  "amendments_of extras = (case as_list (py_or (dict_get extras ''amendments'') (PList [])) of
     None \<Rightarrow> [] | Some vs \<Rightarrow> vs)"

text \<open>\<open>ts\<close> is the formatted current time. The optional arguments are \<open>PNone\<close> when left out.\<close>

definition record_amendment :: "string \<Rightarrow> string \<Rightarrow> task \<Rightarrow> task \<Rightarrow> task" where
  "record_amendment ts reason old k = (if reason = [] then k
     else k\<lparr>t_extras := AList.update ''amendments'' (PList (amendments_of (t_extras k) @
       [PDict [(''ts'', PStr ts), (''reason'', PStr reason),
          (''prev_title'', PStr (t_title old)), (''prev_goal'', t_goal old)]])) (t_extras k)\<rparr>)"

definition amend_task ::
    "string \<Rightarrow> int \<Rightarrow> pyval \<Rightarrow> pyval \<Rightarrow> pyval \<Rightarrow> string \<Rightarrow> tasks \<Rightarrow> bool res \<times> tasks" where
  "amend_task ts i title goal priority reason t = (case get_task_by_id t i of
      None \<Rightarrow> (Inr False, t)
    | Some k0 \<Rightarrow>
       (case (if title = PNone then Inr [] else strip_attr title) of
          Inl e \<Rightarrow> (Inl e, t)
        | Inr nt \<Rightarrow>
           (let k1 = (if nt \<noteq> [] then k0\<lparr>t_title := nt\<rparr> else k0);
                t1 = (if nt \<noteq> [] then save_task_title i nt t else t);
                k2 = (if goal = PNone then k1 else k1\<lparr>t_goal := goal\<rparr>)
            in case (if priority = PNone then Inr [] else strip_attr priority) of
                 Inl e \<Rightarrow> (Inl e, t1)
               | Inr np \<Rightarrow>
                  (let k3 = (if np \<noteq> [] then k2\<lparr>t_priority := np\<rparr> else k2)
                   in (Inr True, save_task (record_amendment ts reason k0 k3) t1)))))"

section \<open>Lists\<close>

definition open_task_statuses :: "string list" where
  "open_task_statuses = [''pending'', ''ready'', ''in_progress'', ''resumed'', ''waiting'']"

definition runnable_task_statuses :: "string list" where
  "runnable_task_statuses = [''pending'', ''ready'', ''in_progress'', ''resumed'']"

definition runnable_status_rank :: "string \<Rightarrow> nat" where
  "runnable_status_rank s = (if s = ''in_progress'' then 0 else if s = ''resumed'' then 1
     else if s = ''ready'' then 2 else if s = ''pending'' then 3 else 4)"

definition priority_rank :: "string \<Rightarrow> nat" where
  "priority_rank p = (if p = ''critical'' then 0 else if p = ''high'' then 1
     else if p = ''normal'' then 2 else 3)"

definition runnable_key :: "int \<times> task_row \<Rightarrow> nat \<times> nat \<times> int" where
  "runnable_key ir = (runnable_status_rank (row_status (snd ir)),
     priority_rank (row_priority (snd ir)), fst ir)"

definition list_runnable_tasks :: "int \<Rightarrow> tasks \<Rightarrow> task list" where
  "list_runnable_tasks limit t = map task_from_row (sql_limit limit
     (sort_key runnable_key (tbl_select (\<lambda>i r. row_status r \<in> set runnable_task_statuses) t)))"

definition get_active :: "tasks \<Rightarrow> task option" where
  "get_active t = (case list_runnable_tasks 1 t of [] \<Rightarrow> None | k # _ \<Rightarrow> Some k)"

definition list_tasks :: "string option \<Rightarrow> int \<Rightarrow> tasks \<Rightarrow> task list" where
  "list_tasks status limit t = map task_from_row (sql_limit limit
     (tbl_select (\<lambda>i r. case status of None \<Rightarrow> True | Some s \<Rightarrow> s = [] \<or> row_status r = s) t))"

section \<open>Status changes\<close>

text \<open>These return nothing: whether the task was there is dropped.\<close>

definition discard :: "'a res \<times> 't \<Rightarrow> unit res \<times> 't" where
  "discard x = (case fst x of Inl e \<Rightarrow> Inl e | Inr a \<Rightarrow> Inr (), snd x)"

lemma snd_discard [simp]: "snd (discard x) = snd x"
  by (simp add: discard_def)

lemma discard_Inr: "discard x = (Inr u, t') \<longleftrightarrow> (\<exists>b. x = (Inr b, t'))"
  by (cases x) (auto simp: discard_def split: sum.split)

definition unset_if_none :: "pyval \<Rightarrow> pyval option" where
  "unset_if_none v = (if v = PNone then None else Some v)"

definition update_status ::
    "int \<Rightarrow> pyval \<Rightarrow> pyval \<Rightarrow> pyval \<Rightarrow> pyval \<Rightarrow> pyval \<Rightarrow> tasks \<Rightarrow> unit res \<times> tasks" where
  "update_status i status next_step current_step model_tier result_json t = discard (patch_task i
     (no_patch\<lparr>p_status := Some status, p_next_step := unset_if_none next_step,
       p_current_step := unset_if_none current_step, p_model_tier := unset_if_none model_tier,
       p_result_json := unset_if_none result_json, p_merge_result_json := True\<rparr>) t)"

definition mark_waiting ::
    "int \<Rightarrow> pyval \<Rightarrow> pyval \<Rightarrow> pyval \<Rightarrow> pyval \<Rightarrow> pyval \<Rightarrow> pyval \<Rightarrow> tasks \<Rightarrow> unit res \<times> tasks" where
  "mark_waiting i wait_kind wait_key wait_json current_step next_step result_json t = discard (patch_task i
     (no_patch\<lparr>p_status := Some (PStr ''waiting''), p_wait_kind := Some wait_kind,
       p_wait_key := Some wait_key, p_wait_json := Some (py_or wait_json (PDict [])),
       p_current_step := unset_if_none current_step, p_next_step := unset_if_none next_step,
       p_result_json := unset_if_none result_json, p_merge_result_json := True\<rparr>) t)"

definition resume_task ::
    "int \<Rightarrow> pyval \<Rightarrow> pyval \<Rightarrow> pyval \<Rightarrow> pyval \<Rightarrow> tasks \<Rightarrow> unit res \<times> tasks" where
  "resume_task i status current_step next_step result_json t = discard (patch_task i
     (no_patch\<lparr>p_status := Some status, p_wait_kind := Some (PStr []), p_wait_key := Some (PStr []),
       p_wait_json := Some (PDict []), p_current_step := unset_if_none current_step,
       p_next_step := unset_if_none next_step, p_result_json := unset_if_none result_json,
       p_merge_result_json := True\<rparr>) t)"

definition update_task_result :: "int \<Rightarrow> pyval \<Rightarrow> tasks \<Rightarrow> unit res \<times> tasks" where
  "update_task_result i result_json t =
     discard (patch_task i (no_patch\<lparr>p_result_json := Some result_json, p_merge_result_json := True\<rparr>) t)"

definition sync_task_progress :: "int \<Rightarrow> pyval \<Rightarrow> pyval \<Rightarrow> tasks \<Rightarrow> unit res \<times> tasks" where
  "sync_task_progress i current_step next_step t = discard (patch_task i
     (no_patch\<lparr>p_current_step := unset_if_none current_step, p_next_step := unset_if_none next_step\<rparr>) t)"

definition protected_task_keys :: "string list" where
  "protected_task_keys = [''goal'', ''source'', ''next_step'', ''result_json'']"

definition update_task_data :: "int \<Rightarrow> dict \<Rightarrow> tasks \<Rightarrow> unit res \<times> tasks" where
  "update_task_data i extra_dict t = discard (patch_task i
     (no_patch\<lparr>p_current_step := map_option (\<lambda>v. PStr (str_or_empty v)) (map_of extra_dict ''current_step''),
       p_model_tier := map_option (\<lambda>v. PStr (str_or_empty v)) (map_of extra_dict ''model_tier''),
       p_extras := dict_without (protected_task_keys @ [''current_step'', ''model_tier'']) extra_dict\<rparr>) t)"

section \<open>Inbox and queue\<close>

definition inbox_texts :: "pyval list \<Rightarrow> string list" where
  "inbox_texts vs = filter (\<lambda>s. s \<noteq> []) (map (\<lambda>v. strip (py_str v)) vs)"

definition clear_inbox :: patch where
  "clear_inbox = no_patch\<lparr>p_extras := [(''inbox_messages'', PList [])]\<rparr>"

definition pop_task_inbox :: "int \<Rightarrow> tasks \<Rightarrow> string list \<times> tasks" where
  "pop_task_inbox i t = (case get_task_by_id t i of
      None \<Rightarrow> ([], t)
    | Some k \<Rightarrow>
       (case as_list (dict_get (t_extras k) ''inbox_messages'') of
          None \<Rightarrow> ([], t)
        | Some raw \<Rightarrow>
           (if inbox_texts raw = []
            then (if raw \<noteq> [] then ([], snd (patch_task i clear_inbox t)) else ([], t))
            else (inbox_texts raw, snd (patch_task i clear_inbox t)))))"

definition title_is_open :: "string \<Rightarrow> tasks \<Rightarrow> bool" where
  "title_is_open title t = (tbl_select
     (\<lambda>i r. row_title r = title \<and> row_status r \<noteq> ''done'' \<and> row_status r \<noteq> ''failed'') t \<noteq> [])"

definition enqueue_if_absent ::
    "string \<Rightarrow> string \<Rightarrow> pyval \<Rightarrow> pyval \<Rightarrow> pyval \<Rightarrow> tasks \<Rightarrow> bool res \<times> tasks" where
  "enqueue_if_absent now title goal priority source t = (let s = strip title in
     if title_is_open s t then (Inr False, t)
     else (case add_task now ((task_args_default (PStr s))
               \<lparr>a_goal := goal, a_priority := priority, a_source := source\<rparr>) t of
             (Inl e, t') \<Rightarrow> (Inl e, t')
           | (Inr i, t') \<Rightarrow> (Inr True, t')))"

text \<open>\<open>reset_in_progress_tasks\<close> of \<open>store/task/impl.py\<close>: the number of rows changed.\<close>

definition reset_in_progress_tasks :: "tasks \<Rightarrow> nat \<times> tasks" where
  "reset_in_progress_tasks t =
     (tbl_count_where (\<lambda>i r. row_status r = ''in_progress'') t,
      tbl_update_where (\<lambda>i r. row_status r = ''in_progress'') (\<lambda>r. r\<lparr>row_status := ''pending''\<rparr>) t)"


section \<open>Well-formed tables\<close>

definition tasks_ok :: "tasks \<Rightarrow> bool" where
  "tasks_ok t \<longleftrightarrow> tbl_ok t \<and> (\<forall>i r. tbl_get t i = Some r \<longrightarrow> dict_ok (column_dict (row_data r)))"

lemma tasks_okD: "tasks_ok t \<Longrightarrow> tbl_ok t"
  by (simp add: tasks_ok_def)

lemma tasks_ok_update:
  "tasks_ok t \<Longrightarrow> (\<And>r. dict_ok (column_dict (row_data r)) \<Longrightarrow> dict_ok (column_dict (row_data (f r)))) \<Longrightarrow>
   tasks_ok (tbl_update i f t)"
  by (auto simp: tasks_ok_def tb.get_upd split: if_splits)

lemma dict_ok_task_to_data_json [simp]: "dict_ok (column_dict (task_to_data_json k))"
  by (simp add: task_to_data_json_def column_dict_def)

lemma tasks_ok_save_task [simp]: "tasks_ok t \<Longrightarrow> tasks_ok (save_task k t)"
  unfolding save_task_def by (rule tasks_ok_update) simp_all

lemma tasks_ok_save_task_title [simp]: "tasks_ok t \<Longrightarrow> tasks_ok (save_task_title i s t)"
  unfolding save_task_title_def by (rule tasks_ok_update) simp_all

lemma get_task_extras_ok:
  "tasks_ok t \<Longrightarrow> get_task_by_id t i = Some k \<Longrightarrow> dict_ok (t_extras k)"
  by (auto simp: get_task_by_id_def tasks_ok_def task_from_row_def Let_def)

lemma get_task_by_id_id: "get_task_by_id t i = Some k \<Longrightarrow> t_id k = i"
  by (auto simp: get_task_by_id_def task_from_row_def Let_def)

section \<open>What a patch does\<close>

lemma patch_title_cases:
  assumes "patch_title i p k t = (k1, t1)"
  shows "(\<exists>nt. k1 = k\<lparr>t_title := nt\<rparr>) \<and> (t1 = t \<or> (\<exists>nt. t1 = save_task_title i nt t))"
proof -
  have "k = k\<lparr>t_title := t_title k\<rparr>" by simp
  then show ?thesis
    using assms by (auto simp: patch_title_def Let_def split: option.splits if_splits intro: exI [of _ "t_title k"])
qed

text \<open>The patched task, field by field: what the patch does not name is kept.\<close>

lemma patched_fields:
  assumes "patched p k = Inr k'"
  shows "t_id k' = t_id k"
    "t_status k' = (case p_status p of None \<Rightarrow> t_status k | Some v \<Rightarrow> str_or_empty v)"
    "t_goal k' = set_str (p_goal p) (t_goal k)"
    "t_source k' = t_source k" "t_chain_id k' = t_chain_id k"
    "t_parent_task_id k' = t_parent_task_id k" "t_state_json k' = t_state_json k"
    "t_async_job_id k' = t_async_job_id k"
    "t_next_step k' = set_str (p_next_step p) (t_next_step k)"
    "t_current_step k' = set_str (p_current_step p) (t_current_step k)"
    "t_model_tier k' = set_str (p_model_tier p) (t_model_tier k)"
    "t_wait_kind k' = set_str (p_wait_kind p) (t_wait_kind k)"
    "t_wait_key k' = set_str (p_wait_key p) (t_wait_key k)"
    "p_wait_json p = None \<Longrightarrow> t_wait_json k' = t_wait_json k"
    "p_wait_json p = Some v \<Longrightarrow> \<exists>d. dict_or_empty v = Inr d \<and> t_wait_json k' = PDict d"
    "p_result_json p = None \<Longrightarrow> t_result_json k' = t_result_json k"
    "p_result_json p = Some v \<Longrightarrow> p_merge_result_json p \<Longrightarrow>
       \<exists>d e. dict_or_empty v = Inr e \<and> dict_or_empty (t_result_json k) = Inr d
         \<and> t_result_json k' = PDict (dict_update d e)"
    "t_extras k' = dict_update (t_extras k) (p_extras p)"
  using assms
  by (auto simp: patched_def patch_wait_json_def patch_result_json_def patch_extras_def
      patch_texts_def bind_res_def split: option.splits sum.splits if_splits)

lemma patched_extras_ok:
  "patched p k = Inr k' \<Longrightarrow> dict_ok (t_extras k) \<Longrightarrow> dict_ok (t_extras k')"
  by (simp add: patched_fields(18))

lemma patch_task_result:
  "patch_task i p t = (Inr b, t') \<Longrightarrow> b = (get_task_by_id t i \<noteq> None)"
  by (auto simp: patch_task_def split: option.splits prod.splits sum.splits)

text \<open>The table after a patch: the same keys, the same other rows, and in the patched row the
  columns no patch writes.\<close>

lemma patch_task_effect:
  obtains f where "snd (patch_task i p t) = tbl_update i f t"
    "\<And>r. row_priority (f r) = row_priority r" "\<And>r. row_created_at (f r) = row_created_at r"
    "\<And>r. dict_ok (column_dict (row_data r)) \<Longrightarrow> dict_ok (column_dict (row_data (f r)))"
proof -
  note idle = tbl_update_id [of i t, symmetric]
  let ?T = "\<lambda>nt r. r\<lparr>row_title := stored_title nt\<rparr>"
  let ?S = "\<lambda>k r. r\<lparr>row_status := t_status k, row_data := task_to_data_json k\<rparr>"
  consider "snd (patch_task i p t) = t"
    | nt where "snd (patch_task i p t) = tbl_update i (?T nt) t"
    | k where "snd (patch_task i p t) = tbl_update i (?S k) t"
    | k nt where "snd (patch_task i p t) = tbl_update i (?S k \<circ> ?T nt) t"
  proof (cases "get_task_by_id t i")
    case None
    then show ?thesis using that(1) by (simp add: patch_task_def)
  next
    case (Some k)
    obtain k1 t1 where pt: "patch_title i p k t = (k1, t1)" by fastforce
    from patch_title_cases [OF pt] have k1: "t_id k1 = i"
      and t1: "t1 = t \<or> (\<exists>nt. t1 = tbl_update i (?T nt) t)"
      using get_task_by_id_id [OF Some] by (auto simp: save_task_title_def)
    show ?thesis
    proof (cases "patched p k1")
      case (Inl e)
      then have "snd (patch_task i p t) = t1" by (simp add: patch_task_def Some pt)
      with t1 that(1,2) show ?thesis by auto
    next
      case (Inr k2)
      then have "snd (patch_task i p t) = tbl_update i (?S k2) t1"
        using patched_fields(1) [OF Inr] by (simp add: patch_task_def Some pt k1 save_task_def)
      with t1 that(3,4) show ?thesis by (metis tbl_update_update)
    qed
  qed
  then show ?thesis
  proof cases
    case 1
    with idle show ?thesis by (intro that [of id]) simp_all
  next
    case (2 nt)
    then show ?thesis by (intro that [of "?T nt"]) simp_all
  next
    case (3 k)
    then show ?thesis by (intro that [of "?S k"]) simp_all
  next
    case (4 k nt)
    then show ?thesis by (intro that [of "?S k \<circ> ?T nt"]) simp_all
  qed
qed

lemma tasks_ok_patch_task [simp]: "tasks_ok t \<Longrightarrow> tasks_ok (snd (patch_task i p t))"
  by (rule patch_task_effect [of i p t]) (simp add: tasks_ok_update)

lemma patch_task_other: "j \<noteq> i \<Longrightarrow> tbl_get (snd (patch_task i p t)) j = tbl_get t j"
  by (rule patch_task_effect [of i p t]) (simp add: tb.get_upd_other)

lemma patch_task_other_task:
  "j \<noteq> i \<Longrightarrow> get_task_by_id (snd (patch_task i p t)) j = get_task_by_id t j"
  by (simp add: get_task_by_id_def patch_task_other)

lemma patch_task_priority:
  "map_option row_priority (tbl_get (snd (patch_task i p t)) j) = map_option row_priority (tbl_get t j)"
  by (rule patch_task_effect [of i p t]) (simp add: tb.get_upd option.map_comp comp_def)

lemma patch_task_seq [simp]: "seq (snd (patch_task i p t)) = seq t"
  by (rule patch_task_effect [of i p t]) simp


section \<open>Reading what was saved\<close>

text \<open>The row a save leaves, read back: every field is the saved one after compaction.\<close>

lemma from_saved:
  assumes "dict_ok (t_extras k)"
  shows "t_status (task_from_row (i, r\<lparr>row_status := s, row_data := task_to_data_json k\<rparr>)) = s"
    "t_goal (task_from_row (i, r\<lparr>row_status := s, row_data := task_to_data_json k\<rparr>)) =
       compact_runtime_value 1 (t_goal k)"
    "t_next_step (task_from_row (i, r\<lparr>row_status := s, row_data := task_to_data_json k\<rparr>)) =
       compact_runtime_value 1 (t_next_step k)"
    "t_current_step (task_from_row (i, r\<lparr>row_status := s, row_data := task_to_data_json k\<rparr>)) =
       compact_runtime_value 1 (t_current_step k)"
    "t_wait_kind (task_from_row (i, r\<lparr>row_status := s, row_data := task_to_data_json k\<rparr>)) =
       compact_runtime_value 1 (t_wait_kind k)"
    "t_wait_key (task_from_row (i, r\<lparr>row_status := s, row_data := task_to_data_json k\<rparr>)) =
       compact_runtime_value 1 (t_wait_key k)"
    "t_wait_json (task_from_row (i, r\<lparr>row_status := s, row_data := task_to_data_json k\<rparr>)) =
       py_or (compact_runtime_value 1 (t_wait_json k)) (PDict [])"
    "t_result_json (task_from_row (i, r\<lparr>row_status := s, row_data := task_to_data_json k\<rparr>)) =
       py_or (compact_runtime_value 1 (t_result_json k)) (PDict [])"
    "t_extras (task_from_row (i, r\<lparr>row_status := s, row_data := task_to_data_json k\<rparr>)) =
       dict_without task_core_data_keys (column_dict (task_to_data_json k))"
  using dict_get_or_task_data_core [OF assms]
  by (simp_all add: task_from_row_def Let_def task_core_data_keys_def task_core_data_def)

lemma patch_task_Some:
  assumes "get_task_by_id t i = Some k" "patch_task i p t = (Inr b, t')" "tasks_ok t"
  obtains k1 k2 r where "patched p k1 = Inr k2" "\<exists>nt. k1 = k\<lparr>t_title := nt\<rparr>"
    "dict_ok (t_extras k2)"
    "tbl_get t' i = Some (r\<lparr>row_status := t_status k2, row_data := task_to_data_json k2\<rparr>)"
    "get_task_by_id t' i = Some (task_from_row
       (i, r\<lparr>row_status := t_status k2, row_data := task_to_data_json k2\<rparr>))"
proof -
  obtain k1 t1 where pt: "patch_title i p k t = (k1, t1)" by fastforce
  from patch_title_cases [OF pt] have k1: "\<exists>nt. k1 = k\<lparr>t_title := nt\<rparr>"
    and t1: "t1 = t \<or> (\<exists>nt. t1 = save_task_title i nt t)" by auto
  from assms(2) obtain k2 where k2: "patched p k1 = Inr k2" "t' = save_task k2 t1"
    by (auto simp: patch_task_def assms(1) pt split: sum.splits)
  have id: "t_id k2 = i" "dict_ok (t_extras k2)"
    using k1 k2(1) patched_fields(1) get_task_by_id_id [OF assms(1)]
      get_task_extras_ok [OF assms(3,1)] patched_extras_ok by auto
  obtain r where r: "tbl_get t1 i = Some r"
    using assms(1) t1 by (auto simp: get_task_by_id_def save_task_title_def tb.get_upd)
  show ?thesis
    by (rule that [OF k2(1) k1 id(2), of r])
      (simp_all add: k2(2) save_task_def id(1) get_task_by_id_def tb.get_upd r)
qed

section \<open>Steps\<close>

text \<open>Every operation of the store that can change the table.\<close>

inductive task_step :: "tasks \<Rightarrow> tasks \<Rightarrow> bool" where
  step_add: "task_step t (snd (add_task now a t))"
| step_patch: "task_step t (snd (patch_task i p t))"
| step_amend: "task_step t (snd (amend_task ts i title goal priority reason t))"
| step_status: "task_step t (snd (update_status i s ns cs mt rj t))"
| step_wait: "task_step t (snd (mark_waiting i wk wy wj cs ns rj t))"
| step_resume: "task_step t (snd (resume_task i s cs ns rj t))"
| step_result: "task_step t (snd (update_task_result i rj t))"
| step_progress: "task_step t (snd (sync_task_progress i cs ns t))"
| step_data: "task_step t (snd (update_task_data i d t))"
| step_inbox: "task_step t (snd (pop_task_inbox i t))"
| step_enqueue: "task_step t (snd (enqueue_if_absent now s g pr src t))"
| step_reset: "task_step t (snd (reset_in_progress_tasks t))"

text \<open>\<open>extends t t'\<close>: the columns that identify a task are kept, rows are only added.\<close>

definition extends :: "tasks \<Rightarrow> tasks \<Rightarrow> bool" where
  "extends t t' \<longleftrightarrow> (\<forall>i r. tbl_get t i = Some r \<longrightarrow> (\<exists>r'. tbl_get t' i = Some r' \<and>
     row_priority r' = row_priority r \<and> row_created_at r' = row_created_at r))"

lemma extends_refl [simp]: "extends t t"
  by (simp add: extends_def)

lemma extends_trans: "extends t u \<Longrightarrow> extends u v \<Longrightarrow> extends t v"
  unfolding extends_def by metis

lemma extends_update:
  "(\<And>r. row_priority (f r) = row_priority r) \<Longrightarrow> (\<And>r. row_created_at (f r) = row_created_at r) \<Longrightarrow>
   extends t (tbl_update i f t)"
  by (auto simp: extends_def tb.get_upd)

lemma extends_patch_task [simp]: "extends t (snd (patch_task i p t))"
  by (rule patch_task_effect [of i p t]) (simp add: extends_update)

lemma extends_save [simp]: "extends t (save_task k t)" "extends t (save_task_title i s t)"
  by (simp_all add: save_task_def save_task_title_def extends_update)

lemma build_task_data_ok: "build_task_data a = Inr d \<Longrightarrow> dict_ok d"
  by (auto simp: build_task_data_def bind_res_def Let_def dict_ok_def split: if_splits sum.splits
      intro!: dict_ok_dict_update [unfolded dict_ok_def])

lemma add_task_cases:
  "tasks_ok t \<Longrightarrow> tasks_ok (snd (add_task now a t)) \<and> extends t (snd (add_task now a t))"
proof (cases "bind_res (build_task_data a) (build_task_insert now (a_title a) (a_status a) (a_priority a))")
  case (Inl e)
  then show "tasks_ok t \<Longrightarrow> ?thesis" by (simp add: add_task_def)
next
  case (Inr row)
  then obtain d where d: "build_task_data a = Inr d"
    and row: "row_data row = Some (PDict (compact_runtime_mapping d))"
    by (auto simp: bind_res_def build_task_insert_def split: sum.splits)
  have ok: "dict_ok (column_dict (row_data row))"
    using build_task_data_ok [OF d] by (simp add: row column_dict_def)
  have eq: "snd (add_task now a t) = snd (tbl_insert row t)"
    by (simp add: add_task_def Inr split: prod.splits)
  show "tasks_ok t \<Longrightarrow> ?thesis"
    using ok tb.ins_fresh [of t row]
    by (auto simp: eq tasks_ok_def extends_def tb.get_ins tb.ok_ins split: if_splits)
qed

lemma amend_task_cases:
  "tasks_ok t \<Longrightarrow> tasks_ok (snd (amend_task ts i title goal priority reason t))"
  "extends t (snd (amend_task ts i title goal priority reason t))"
proof -
  have "extends t (save_task k (save_task_title i s t))" for k s
    using extends_trans by (metis extends_save)
  then show "tasks_ok t \<Longrightarrow> tasks_ok (snd (amend_task ts i title goal priority reason t))"
    "extends t (snd (amend_task ts i title goal priority reason t))"
    by (auto simp: amend_task_def Let_def split: option.splits sum.splits)
qed

lemma reset_cases:
  "tasks_ok t \<Longrightarrow> tasks_ok (snd (reset_in_progress_tasks t))"
  "extends t (snd (reset_in_progress_tasks t))"
  by (auto simp: reset_in_progress_tasks_def tasks_ok_def extends_def tbl_get_update_where split: if_splits)

lemma snd_enqueue_if_absent:
  "snd (enqueue_if_absent now s g pr src t) = (if title_is_open (strip s) t then t
     else snd (add_task now ((task_args_default (PStr (strip s)))
        \<lparr>a_goal := g, a_priority := pr, a_source := src\<rparr>) t))"
  by (auto simp: enqueue_if_absent_def Let_def split: prod.split sum.split)

lemma enqueue_cases:
  "tasks_ok t \<Longrightarrow> tasks_ok (snd (enqueue_if_absent now s g pr src t)) \<and>
     extends t (snd (enqueue_if_absent now s g pr src t))"
  using add_task_cases by (auto simp: snd_enqueue_if_absent)

lemmas task_op_defs = update_status_def mark_waiting_def resume_task_def update_task_result_def
  sync_task_progress_def update_task_data_def

lemma pop_task_inbox_cases:
  "snd (pop_task_inbox i t) = t \<or> snd (pop_task_inbox i t) = snd (patch_task i clear_inbox t)"
  by (auto simp: pop_task_inbox_def split: option.splits)

lemma task_step_ok: "task_step t t' \<Longrightarrow> tasks_ok t \<Longrightarrow> tasks_ok t' \<and> extends t t'"
proof (induction rule: task_step.induct)
  case (step_inbox t i)
  then show ?case using pop_task_inbox_cases [of i t] by (metis extends_patch_task extends_refl tasks_ok_patch_task)
qed (auto simp: task_op_defs add_task_cases amend_task_cases enqueue_cases reset_cases)

lemma task_steps_ok: "task_step\<^sup>*\<^sup>* t t' \<Longrightarrow> tasks_ok t \<Longrightarrow> tasks_ok t' \<and> extends t t'"
  by (induction rule: rtranclp_induct) (auto dest: task_step_ok intro: extends_trans)

end
