(* ===== verification/Task_Contract.thy ===== *)
theory Task_Contract
  imports Task_State
begin

text \<open>
  What the task store promises: waiting and resuming, the frame of every patch, merging of
  results, the order of the work list, the inbox, the queue and the columns no operation writes.
\<close>

section \<open>Shared lemmas\<close>

lemma str_or_empty_PStr [simp]: "str_or_empty (PStr s) = s"
  by (simp add: str_or_empty_def py_or_def)

lemma set_str_simps [simp]: "set_str None v = v" "set_str (Some x) v = PStr (str_or_empty x)"
  by (simp_all add: set_str_def)

lemma dict_or_empty_PDict [simp]: "dict_or_empty (PDict d) = Inr d"
  by (simp add: dict_or_empty_def py_or_def)

lemma no_patch_simps [simp]:
  "p_title no_patch = None" "p_goal no_patch = None" "p_status no_patch = None"
  "p_next_step no_patch = None" "p_current_step no_patch = None" "p_model_tier no_patch = None"
  "p_wait_kind no_patch = None" "p_wait_key no_patch = None" "p_wait_json no_patch = None"
  "p_result_json no_patch = None" "p_merge_result_json no_patch = False" "p_extras no_patch = []"
  by (simp_all add: no_patch_def)

lemma task_from_row_columns [simp]:
  "t_id (task_from_row (i, r)) = i" "t_title (task_from_row (i, r)) = row_title r"
  "t_status (task_from_row (i, r)) = row_status r"
  "t_priority (task_from_row (i, r)) = row_priority r"
  "t_created_at (task_from_row (i, r)) = row_created_at r"
  by (simp_all add: task_from_row_def Let_def)

lemma runnable_iff:
  assumes "tbl_ok t"
  shows "k \<in> set (list_runnable_tasks n t) \<Longrightarrow>
    get_task_by_id t (t_id k) = Some k \<and> t_status k \<in> set runnable_task_statuses"
    and "n < 0 \<Longrightarrow> get_task_by_id t i = Some k \<Longrightarrow> t_status k \<in> set runnable_task_statuses \<Longrightarrow>
    k \<in> set (list_runnable_tasks n t)"
proof -
  show "get_task_by_id t (t_id k) = Some k \<and> t_status k \<in> set runnable_task_statuses"
    if "k \<in> set (list_runnable_tasks n t)"
  proof -
    from that obtain i r where "(i, r) \<in> set (tbl_select (\<lambda>i r. row_status r \<in> set runnable_task_statuses) t)"
      "k = task_from_row (i, r)"
      using set_sql_limit by (fastforce simp: list_runnable_tasks_def)
    then show ?thesis
      using set_tbl_select [OF assms] by (auto simp: get_task_by_id_def task_from_row_def Let_def)
  qed
  show "k \<in> set (list_runnable_tasks n t)"
    if "n < 0" "get_task_by_id t i = Some k" "t_status k \<in> set runnable_task_statuses"
  proof -
    from that(2) obtain r where r: "tbl_get t i = Some r" "k = task_from_row (i, r)"
      by (auto simp: get_task_by_id_def)
    with that(3) have "(i, r) \<in> set (tbl_select (\<lambda>i r. row_status r \<in> set runnable_task_statuses) t)"
      using set_tbl_select [OF assms] by (auto simp: task_from_row_def Let_def)
    with r that(1) show ?thesis by (auto simp: list_runnable_tasks_def sql_limit_def)
  qed
qed

text \<open>What a patched task reads like afterwards.\<close>

definition patch_read :: "patch \<Rightarrow> task \<Rightarrow> task \<Rightarrow> bool" where
  "patch_read p k k' \<longleftrightarrow> t_id k' = t_id k \<and> t_priority k' = t_priority k \<and>
     t_created_at k' = t_created_at k \<and>
     t_status k' = (case p_status p of None \<Rightarrow> t_status k | Some v \<Rightarrow> str_or_empty v) \<and>
     t_goal k' = compact_runtime_value 1 (set_str (p_goal p) (t_goal k)) \<and>
     t_next_step k' = compact_runtime_value 1 (set_str (p_next_step p) (t_next_step k)) \<and>
     t_current_step k' = compact_runtime_value 1 (set_str (p_current_step p) (t_current_step k)) \<and>
     t_wait_kind k' = compact_runtime_value 1 (set_str (p_wait_kind p) (t_wait_kind k)) \<and>
     t_wait_key k' = compact_runtime_value 1 (set_str (p_wait_key p) (t_wait_key k)) \<and>
     (case p_wait_json p of
        None \<Rightarrow> t_wait_json k' = py_or (compact_runtime_value 1 (t_wait_json k)) (PDict [])
      | Some v \<Rightarrow> \<exists>d. dict_or_empty v = Inr d \<and>
          t_wait_json k' = py_or (compact_runtime_value 1 (PDict d)) (PDict [])) \<and>
     (case p_result_json p of
        None \<Rightarrow> t_result_json k' = py_or (compact_runtime_value 1 (t_result_json k)) (PDict [])
      | Some v \<Rightarrow> p_merge_result_json p \<longrightarrow> (\<exists>d e. dict_or_empty v = Inr e \<and>
          dict_or_empty (t_result_json k) = Inr d \<and>
          t_result_json k' = py_or (compact_runtime_value 1 (PDict (dict_update d e))) (PDict [])))"

lemma patch_task_read:
  assumes "get_task_by_id t i = Some k" "patch_task i p t = (Inr b, t')" "tasks_ok t"
  obtains k' where "b" "get_task_by_id t' i = Some k'" "tasks_ok t'" "patch_read p k k'"
proof -
  obtain k1 k2 r where k2: "patched p k1 = Inr k2" and k1: "\<exists>nt. k1 = k\<lparr>t_title := nt\<rparr>"
    and ok: "dict_ok (t_extras k2)"
    and row: "tbl_get t' i = Some (r\<lparr>row_status := t_status k2, row_data := task_to_data_json k2\<rparr>)"
    and get: "get_task_by_id t' i = Some (task_from_row
       (i, r\<lparr>row_status := t_status k2, row_data := task_to_data_json k2\<rparr>))"
    using patch_task_Some [OF assms] by metis
  have t': "t' = snd (patch_task i p t)" using assms(2) by simp
  obtain r0 where r0: "tbl_get t i = Some r0" "k = task_from_row (i, r0)"
    using assms(1) by (auto simp: get_task_by_id_def)
  have pc: "row_priority r = row_priority r0 \<and> row_created_at r = row_created_at r0"
    using extends_patch_task [of t i p] row r0(1) by (fastforce simp: extends_def t')
  from k1 obtain nt where k1: "k1 = k\<lparr>t_title := nt\<rparr>" by blast
  have prio: "t_priority k = row_priority r0 \<and> t_created_at k = row_created_at r0"
    by (simp add: r0(2))
  note pf = patched_fields [OF k2, unfolded k1, simplified]
  show ?thesis
  proof (rule that [OF _ get])
    show b using patch_task_result [OF assms(2)] assms(1) by simp
    show "tasks_ok t'" using assms(3) by (simp add: t')
    have wj: "case p_wait_json p of None \<Rightarrow> t_wait_json k2 = t_wait_json k
        | Some v \<Rightarrow> \<exists>d. dict_or_empty v = Inr d \<and> t_wait_json k2 = PDict d"
      using pf(14,15) by (cases "p_wait_json p") auto
    have rj: "case p_result_json p of None \<Rightarrow> t_result_json k2 = t_result_json k
        | Some v \<Rightarrow> p_merge_result_json p \<longrightarrow> (\<exists>d e. dict_or_empty v = Inr e \<and>
            dict_or_empty (t_result_json k) = Inr d \<and> t_result_json k2 = PDict (dict_update d e))"
      using pf(16,17) by (cases "p_result_json p") auto
    have st: "t_status k2 = (case p_status p of None \<Rightarrow> t_status k | Some v \<Rightarrow> str_or_empty v)"
      using pf(2) by (cases "p_status p") simp_all
    show "patch_read p k (task_from_row
        (i, r\<lparr>row_status := t_status k2, row_data := task_to_data_json k2\<rparr>))"
      unfolding patch_read_def
    proof (intro conjI)
      show "case p_wait_json p of
          None \<Rightarrow> t_wait_json (task_from_row (i, r\<lparr>row_status := t_status k2, row_data := task_to_data_json k2\<rparr>))
            = py_or (compact_runtime_value 1 (t_wait_json k)) (PDict [])
        | Some v \<Rightarrow> \<exists>d. dict_or_empty v = Inr d \<and>
            t_wait_json (task_from_row (i, r\<lparr>row_status := t_status k2, row_data := task_to_data_json k2\<rparr>))
            = py_or (compact_runtime_value 1 (PDict d)) (PDict [])"
        using wj by (auto simp: from_saved [OF ok] split: option.splits)
      show "case p_result_json p of
          None \<Rightarrow> t_result_json (task_from_row (i, r\<lparr>row_status := t_status k2, row_data := task_to_data_json k2\<rparr>))
            = py_or (compact_runtime_value 1 (t_result_json k)) (PDict [])
        | Some v \<Rightarrow> p_merge_result_json p \<longrightarrow> (\<exists>d e. dict_or_empty v = Inr e \<and>
            dict_or_empty (t_result_json k) = Inr d \<and>
            t_result_json (task_from_row (i, r\<lparr>row_status := t_status k2, row_data := task_to_data_json k2\<rparr>))
            = py_or (compact_runtime_value 1 (PDict (dict_update d e))) (PDict []))"
        using rj by (auto simp: from_saved [OF ok] split: option.splits)
    qed (simp_all add: from_saved [OF ok] pf(3,9-13) st prio pc get_task_by_id_id [OF assms(1)]
        del: compact_runtime_value_simps)
  qed
qed

section \<open>A table to try things on\<close>

definition demo_time :: string where
  "demo_time = ''2024-01-01 08:00:00''"

definition demo_tasks :: tasks where
  "demo_tasks = snd (add_task demo_time ((task_args_default (PStr ''second''))
       \<lparr>a_priority := PStr ''high'', a_result_json := PDict [(''pages'', PInt 1)],
        a_extras := PDict [(''inbox_messages'', PList [PStr '' hello '', PStr '' ''])]\<rparr>)
     (snd (add_task demo_time ((task_args_default (PStr ''first''))\<lparr>a_goal := PStr ''report''\<rparr>)
       empty_tbl)))"

lemma tasks_ok_empty [simp]: "tasks_ok empty_tbl"
  by (simp add: tasks_ok_def empty_tbl_def tbl_get_def tbl_ok_def)

lemma demo_tasks_ok [simp]: "tasks_ok demo_tasks"
  using add_task_cases by (simp add: demo_tasks_def)

text \<open>What evaluates the operations on a concrete table.\<close>

lemmas store_eval = task_args_default_def build_task_data_def py_or_def build_task_insert_def
  strip_def lstrip_def is_space_def task_title_limit_def dict_update_def compact_runtime_mapping_small
  dict_ok_def runtime_collection_max_items_def tbl_insert_def empty_tbl_def runtime_text_max_chars_def
  compact_runtime_value_list compact_runtime_value_dict runtime_max_depth_def Let_def
  get_task_by_id_def tbl_get_def task_from_row_def column_dict_def dict_get_or_def dict_without_def
  task_core_data_keys_def task_core_data_def task_to_data_json_def patch_task_def patch_title_def
  patched_def patch_texts_def patch_wait_json_def patch_result_json_def patch_extras_def
  no_patch_def unset_if_none_def save_task_def save_task_title_def tbl_update_def tbl_update_where_def
  set_str_def str_or_empty_def dict_or_empty_def stored_title_def

lemma demo_tasks_eq:
  "demo_tasks = \<lparr>seq = 2, rows =
    [(1, \<lparr>row_title = ''first'', row_status = ''pending'', row_priority = ''normal'',
          row_created_at = ''2024-01-01 08:00:00'', row_data = Some (PDict
      [(''goal'', PStr ''report''), (''source'', PStr ''external''), (''next_step'', PStr []),
       (''chain_id'', PStr []), (''parent_task_id'', PStr []), (''current_step'', PStr []),
       (''wait_kind'', PStr []), (''wait_key'', PStr []), (''state_json'', PDict []),
       (''wait_json'', PDict []), (''result_json'', PDict []), (''async_job_id'', PStr []),
       (''model_tier'', PStr [])])\<rparr>),
     (2, \<lparr>row_title = ''second'', row_status = ''pending'', row_priority = ''high'',
          row_created_at = ''2024-01-01 08:00:00'', row_data = Some (PDict
      [(''goal'', PStr []), (''source'', PStr ''external''), (''next_step'', PStr []),
       (''chain_id'', PStr []), (''parent_task_id'', PStr []), (''current_step'', PStr []),
       (''wait_kind'', PStr []), (''wait_key'', PStr []), (''state_json'', PDict []),
       (''wait_json'', PDict []), (''result_json'', PDict [(''pages'', PInt 1)]),
       (''async_job_id'', PStr []), (''model_tier'', PStr []),
       (''inbox_messages'', PList [PStr '' hello '', PStr '' ''])])\<rparr>)]\<rparr>"
  by (simp add: demo_tasks_def demo_time_def add_task_def store_eval)

lemma demo_tasks_get: "get_task_by_id demo_tasks 1 \<noteq> None" "get_task_by_id demo_tasks 2 \<noteq> None"
  by (simp_all add: demo_tasks_eq get_task_by_id_def tbl_get_def)

definition demo_task :: "int \<Rightarrow> task" where
  "demo_task i = the (get_task_by_id demo_tasks i)"

lemma demo_task_get [simp]:
  "get_task_by_id demo_tasks 1 = Some (demo_task 1)" "get_task_by_id demo_tasks 2 = Some (demo_task 2)"
  using demo_tasks_get by (simp_all add: demo_task_def)

definition demo_waiting :: "unit res \<times> tasks" where
  "demo_waiting = mark_waiting 2 (PStr ''timer'') (PStr ''t1'') PNone PNone PNone PNone demo_tasks"

section \<open>Waiting and resuming\<close>

lemma py_or_compact_empty [simp]: "py_or (compact_runtime_value 1 (PDict [])) (PDict []) = PDict []"
  by (simp add: runtime_max_depth_def py_or_def)

text \<open>Marking an existing task as waiting, when it does not raise, gives a task with status
  \<open>waiting\<close> that carries the (stored) wait kind and key, keeps its goal, priority and creation
  time, is in no runnable list and so is never the active task.\<close>

theorem mark_waiting_effect:
  assumes "tasks_ok t" "get_task_by_id t i = Some k"
    and "mark_waiting i wk wy wj cs ns rj t = (Inr u, t')"
  shows "(\<exists>k'. get_task_by_id t' i = Some k' \<and> t_status k' = ''waiting''
     \<and> t_wait_kind k' = PStr (stored_text (str_or_empty wk))
     \<and> t_wait_key k' = PStr (stored_text (str_or_empty wy))
     \<and> t_goal k' = compact_runtime_value 1 (t_goal k)
     \<and> t_priority k' = t_priority k \<and> t_created_at k' = t_created_at k
     \<and> (\<forall>n. k' \<notin> set (list_runnable_tasks n t')) \<and> get_active t' \<noteq> Some k')"
proof -
  obtain b where pt: "patch_task i (no_patch\<lparr>p_status := Some (PStr ''waiting''), p_wait_kind := Some wk,
       p_wait_key := Some wy, p_wait_json := Some (py_or wj (PDict [])),
       p_current_step := unset_if_none cs, p_next_step := unset_if_none ns,
       p_result_json := unset_if_none rj, p_merge_result_json := True\<rparr>) t = (Inr b, t')"
    using assms(3) unfolding mark_waiting_def discard_Inr by blast
  from patch_task_read [OF assms(2) pt assms(1)]
  obtain k' where k0: "get_task_by_id t' i = Some k'" "tasks_ok t'"
    and rd: "patch_read (no_patch\<lparr>p_status := Some (PStr ''waiting''), p_wait_kind := Some wk,
       p_wait_key := Some wy, p_wait_json := Some (py_or wj (PDict [])),
       p_current_step := unset_if_none cs, p_next_step := unset_if_none ns,
       p_result_json := unset_if_none rj, p_merge_result_json := True\<rparr>) k k'"
    by blast
  from k0 rd have k': "get_task_by_id t' i = Some k'" "tasks_ok t'" "t_status k' = ''waiting''"
    "t_wait_kind k' = PStr (stored_text (str_or_empty wk))"
    "t_wait_key k' = PStr (stored_text (str_or_empty wy))"
    "t_goal k' = compact_runtime_value 1 (t_goal k)"
    "t_priority k' = t_priority k" "t_created_at k' = t_created_at k"
    by (simp_all add: patch_read_def stored_text_def)
  have not: "k' \<notin> set (list_runnable_tasks n t')" for n
    using runnable_iff(1) [OF tasks_okD [OF k'(2)], of k' n] k'(3)
    by (auto simp: runnable_task_statuses_def)
  moreover have "get_active t' \<noteq> Some k'"
    using not [of 1] by (auto simp: get_active_def split: list.splits)
  ultimately show ?thesis using k' by blast
qed

theorem mark_waiting_effect_witness:
  "\<exists>k'. get_task_by_id (snd demo_waiting) 2 = Some k' \<and> t_status k' = ''waiting''
     \<and> t_wait_kind k' = PStr ''timer'' \<and> get_active (snd demo_waiting) \<noteq> Some k'"
proof -
  have "fst demo_waiting = Inr ()"
    by (simp add: demo_waiting_def mark_waiting_def discard_def demo_tasks_eq store_eval)
  then have "mark_waiting 2 (PStr ''timer'') (PStr ''t1'') PNone PNone PNone PNone demo_tasks =
      (Inr (), snd demo_waiting)"
    by (simp add: demo_waiting_def prod_eq_iff)
  from mark_waiting_effect [OF demo_tasks_ok demo_task_get(2) this]
  show ?thesis by (auto simp: stored_text_short runtime_text_max_chars_def)
qed

text \<open>Resuming a task clears its wait kind, key and payload, sets the requested status, and
  makes the task runnable again when that status is one of the runnable ones (the default is
  \<open>resumed\<close>).\<close>

theorem resume_task_effect:
  assumes "tasks_ok t" "get_task_by_id t i = Some k"
    and "resume_task i st cs ns rj t = (Inr u, t')"
  shows "(\<exists>k'. get_task_by_id t' i = Some k' \<and> t_status k' = str_or_empty st
     \<and> t_wait_kind k' = PStr [] \<and> t_wait_key k' = PStr [] \<and> t_wait_json k' = PDict []
     \<and> t_goal k' = compact_runtime_value 1 (t_goal k)
     \<and> (str_or_empty st \<in> set runnable_task_statuses \<longrightarrow> k' \<in> set (list_runnable_tasks (-1) t')))"
proof -
  obtain b where pt: "patch_task i (no_patch\<lparr>p_status := Some st, p_wait_kind := Some (PStr []),
       p_wait_key := Some (PStr []), p_wait_json := Some (PDict []),
       p_current_step := unset_if_none cs, p_next_step := unset_if_none ns,
       p_result_json := unset_if_none rj, p_merge_result_json := True\<rparr>) t = (Inr b, t')"
    using assms(3) unfolding resume_task_def discard_Inr by blast
  from patch_task_read [OF assms(2) pt assms(1)]
  obtain k' where k0: "get_task_by_id t' i = Some k'" "tasks_ok t'"
    and rd: "patch_read (no_patch\<lparr>p_status := Some st, p_wait_kind := Some (PStr []),
       p_wait_key := Some (PStr []), p_wait_json := Some (PDict []),
       p_current_step := unset_if_none cs, p_next_step := unset_if_none ns,
       p_result_json := unset_if_none rj, p_merge_result_json := True\<rparr>) k k'"
    by blast
  from k0 rd have k': "get_task_by_id t' i = Some k'" "tasks_ok t'" "t_status k' = str_or_empty st"
    "t_wait_kind k' = PStr []" "t_wait_key k' = PStr []" "t_wait_json k' = PDict []"
    "t_goal k' = compact_runtime_value 1 (t_goal k)"
    by (simp_all add: patch_read_def runtime_max_depth_def py_or_def)
  then show ?thesis using runnable_iff(2) [OF tasks_okD [OF k'(2)] _ k'(1), of "-1"] by auto
qed

theorem resume_task_effect_witness:
  "\<exists>k'. get_task_by_id (snd (resume_task 2 (PStr ''resumed'') PNone PNone PNone demo_tasks)) 2 = Some k'
     \<and> t_status k' = ''resumed'' \<and> t_wait_kind k' = PStr []"
proof -
  have "fst (resume_task 2 (PStr ''resumed'') PNone PNone PNone demo_tasks) = Inr ()"
    by (simp add: discard_def resume_task_def demo_tasks_eq store_eval)
  then have "resume_task 2 (PStr ''resumed'') PNone PNone PNone demo_tasks =
      (Inr (), snd (resume_task 2 (PStr ''resumed'') PNone PNone PNone demo_tasks))"
    by (simp add: prod_eq_iff)
  from resume_task_effect [OF demo_tasks_ok demo_task_get(2) this] show ?thesis by auto
qed

section \<open>Columns no operation writes\<close>

text \<open>C1: Whatever sequence of store operations runs (adding, patching, amending, waiting,
  resuming, the inbox, the queue, the reset at start-up), the table stays well-formed, no task
  disappears, and no task ever changes its priority or creation time: in particular the new
  priority that \<open>amend_task\<close> accepts is never stored.\<close>

theorem task_identity_frozen:
  assumes "task_step\<^sup>*\<^sup>* t t'" "tasks_ok t" "get_task_by_id t i = Some k"
  shows "tasks_ok t' \<and> (\<exists>k'. get_task_by_id t' i = Some k' \<and>
     t_priority k' = t_priority k \<and> t_created_at k' = t_created_at k)"
  using task_steps_ok [OF assms(1,2)] assms(3)
  by (fastforce simp: extends_def get_task_by_id_def)

theorem task_identity_frozen_witness:
  "\<exists>k'. get_task_by_id (snd (amend_task ''ts'' 1 PNone PNone (PStr ''critical'') [] demo_tasks)) 1 = Some k'
     \<and> t_priority k' = ''normal''"
proof -
  have "task_step demo_tasks (snd (amend_task ''ts'' 1 PNone PNone (PStr ''critical'') [] demo_tasks))"
    by (rule step_amend)
  from task_identity_frozen [OF r_into_rtranclp [of task_step, OF this] demo_tasks_ok demo_task_get(1)]
  have "\<exists>k'. get_task_by_id (snd (amend_task ''ts'' 1 PNone PNone (PStr ''critical'') [] demo_tasks)) 1 = Some k'
     \<and> t_priority k' = t_priority (demo_task 1)" by blast
  moreover have "t_priority (demo_task 1) = ''normal''"
    by (simp add: demo_task_def demo_tasks_eq get_task_by_id_def tbl_get_def)
  ultimately show ?thesis by simp
qed

section \<open>Merging results\<close>

text \<open>Updating the result of a task merges: after the update a key of the new result reads as
  its (compacted) new value and every other key keeps its old one, when both were dicts and the
  merged dict has at most 80 entries.\<close>

theorem update_task_result_merges:
  assumes "tasks_ok t" "get_task_by_id t i = Some k" "t_result_json k = PDict d" "dict_ok d" "dict_ok e"
    and "length (dict_update d e) \<le> runtime_collection_max_items"
    and "update_task_result i (PDict e) t = (Inr u, t')"
  shows "\<exists>k' d'. get_task_by_id t' i = Some k' \<and> t_result_json k' = PDict d' \<and>
     (\<forall>key. map_of d' key = map_option (compact_runtime_value 2)
        (case map_of e key of Some v \<Rightarrow> Some v | None \<Rightarrow> map_of d key)) \<and>
     t_status k' = t_status k \<and> t_goal k' = compact_runtime_value 1 (t_goal k)"
proof -
  obtain b where pt: "patch_task i (no_patch\<lparr>p_result_json := Some (PDict e), p_merge_result_json := True\<rparr>) t = (Inr b, t')"
    using assms(7) unfolding update_task_result_def discard_Inr by blast
  from patch_task_read [OF assms(2) pt assms(1)]
  obtain k' where get: "get_task_by_id t' i = Some k'"
    and rd: "patch_read (no_patch\<lparr>p_result_json := Some (PDict e), p_merge_result_json := True\<rparr>) k k'"
    by blast
  have dk: "dict_or_empty (t_result_json k) = Inr d" using assms(3) by simp
  let ?m = "map (\<lambda>kv. (fst kv, compact_runtime_value 2 (snd kv))) (dict_update d e)"
  have "compact_runtime_value 1 (PDict (dict_update d e)) = PDict ?m"
    using compact_runtime_value_dict [of 1 "dict_update d e"] assms(4,6)
    by (simp add: runtime_max_depth_def numeral_2_eq_2)
  moreover have "py_or (PDict ?m) (PDict []) = PDict ?m" by (simp add: py_or_def)
  ultimately have "t_result_json k' = PDict ?m" using rd dk
    by (auto simp: patch_read_def)
  moreover have "map_of ?m key = map_option (compact_runtime_value 2)
      (case map_of e key of Some v \<Rightarrow> Some v | None \<Rightarrow> map_of d key)" for key
    using assms(5) by (simp add: map_of_map_snd map_of_dict_update_ok map_add_def split: option.split)
  ultimately show ?thesis using get rd by (auto simp: patch_read_def)
qed

theorem update_task_result_merges_witness:
  "\<exists>k' d'. get_task_by_id (snd (update_task_result 2 (PDict [(''ok'', PBool True)]) demo_tasks)) 2 = Some k'
     \<and> t_result_json k' = PDict d' \<and> map_of d' ''pages'' = Some (PInt 1)
     \<and> map_of d' ''ok'' = Some (PBool True)"
proof -
  let ?u = "update_task_result 2 (PDict [(''ok'', PBool True)]) demo_tasks"
  have "fst ?u = Inr ()" by (simp add: discard_def update_task_result_def demo_tasks_eq store_eval)
  then have u: "?u = (Inr (), snd ?u)" by (simp add: prod_eq_iff)
  have r: "t_result_json (demo_task 2) = PDict [(''pages'', PInt 1)]"
    by (simp add: demo_task_def demo_tasks_eq store_eval)
  show ?thesis
    using update_task_result_merges [OF demo_tasks_ok demo_task_get(2) r _ _ _ u]
    by (fastforce simp: dict_ok_def dict_update_def runtime_collection_max_items_def)
qed

section \<open>The work list\<close>

text \<open>The intended order, stated apart from the code's ranks: the place in the list of statuses, then
  in the list of priorities (others last), then the age.\<close>

definition place_in :: "string list \<Rightarrow> string \<Rightarrow> nat" where
  "place_in xs s = length (takeWhile (\<lambda>x. x \<noteq> s) xs)"

definition runnable_order :: "task \<Rightarrow> nat \<times> nat \<times> int" where
  "runnable_order k =
     (place_in [''in_progress'', ''resumed'', ''ready'', ''pending''] (t_status k),
      place_in [''critical'', ''high'', ''normal''] (t_priority k), t_id k)"

lemma status_place: "place_in [''in_progress'', ''resumed'', ''ready'', ''pending''] s = runnable_status_rank s"
  by (simp add: place_in_def runnable_status_rank_def)

lemma priority_place: "place_in [''critical'', ''high'', ''normal''] p = priority_rank p"
  by (simp add: place_in_def priority_rank_def)

lemma runnable_order_key: "runnable_order (task_from_row ir) = runnable_key ir"
  by (cases ir) (simp add: runnable_order_def runnable_key_def status_place priority_place)

lemma map_runnable_order:
  "map runnable_order (list_runnable_tasks n t) = sql_limit n (map runnable_key
     (sort_key runnable_key (tbl_select (\<lambda>i r. row_status r \<in> set runnable_task_statuses) t)))"
  by (simp add: list_runnable_tasks_def sql_limit_def take_map comp_def runnable_order_key)

text \<open>The work list is ordered by status (in progress, resumed, ready, pending), then by
  priority, then by age; it holds only runnable tasks of the table, at most \<open>n\<close> of them, and a
  runnable task that did not make the list comes after every task that did.\<close>

theorem list_runnable_tasks_order:
  assumes "tasks_ok t" "0 \<le> n"
  shows "sorted (map runnable_order (list_runnable_tasks n t))
    \<and> length (list_runnable_tasks n t) \<le> nat n
    \<and> (\<forall>k \<in> set (list_runnable_tasks n t).
        get_task_by_id t (t_id k) = Some k \<and> t_status k \<in> set runnable_task_statuses)
    \<and> (\<forall>i k' k. get_task_by_id t i = Some k' \<and> t_status k' \<in> set runnable_task_statuses \<and>
        k' \<notin> set (list_runnable_tasks n t) \<and> k \<in> set (list_runnable_tasks n t) \<longrightarrow>
        runnable_order k \<le> runnable_order k')"
proof -
  let ?xs = "list_runnable_tasks (-1) t"
  have take: "list_runnable_tasks n t = take (nat n) ?xs"
    using assms(2) by (simp add: list_runnable_tasks_def sql_limit_def take_map)
  have srt: "sorted (map runnable_order ?xs)"
    by (simp add: map_runnable_order sql_limit_def)
  have le: "runnable_order k \<le> runnable_order k'"
    if "get_task_by_id t i = Some k'" "t_status k' \<in> set runnable_task_statuses"
      "k' \<notin> set (take (nat n) ?xs)" "k \<in> set (take (nat n) ?xs)" for i k k'
  proof -
    have "k' \<in> set ?xs" using runnable_iff(2) [OF tasks_okD [OF assms(1)] _ that(1,2)] by simp
    then have "k' \<in> set (drop (nat n) ?xs)"
      using that(3) append_take_drop_id [of "nat n" ?xs] by (metis Un_iff set_append)
    moreover have "sorted (map runnable_order (take (nat n) ?xs @ drop (nat n) ?xs))"
      using srt by simp
    ultimately show ?thesis using that(4) by (auto simp: sorted_append simp del: append_take_drop_id)
  qed
  show ?thesis
    using le runnable_iff(1) [OF tasks_okD [OF assms(1)], of _ n] sorted_wrt_take [OF srt, of "nat n"]
    by (auto simp: take take_map)
qed

theorem list_runnable_tasks_order_witness:
  "length (list_runnable_tasks 1 demo_tasks) \<le> 1 \<and> map t_id (list_runnable_tasks 1 demo_tasks) = [2]"
proof -
  have "length (list_runnable_tasks 1 demo_tasks) \<le> 1"
    using list_runnable_tasks_order [OF demo_tasks_ok, of 1] by simp
  moreover have "map t_id (list_runnable_tasks 1 demo_tasks) = [2]"
    by (simp add: demo_tasks_eq list_runnable_tasks_def tbl_select_def runnable_task_statuses_def
        runnable_key_def runnable_status_rank_def priority_rank_def sql_limit_def)
  ultimately show ?thesis by blast
qed

section \<open>The queue\<close>

lemma title_is_open_iff:
  assumes "tbl_ok t"
  shows "title_is_open s t \<longleftrightarrow> (\<exists>i r. tbl_get t i = Some r \<and> row_title r = s \<and>
     row_status r \<noteq> ''done'' \<and> row_status r \<noteq> ''failed'')"
proof -
  let ?P = "\<lambda>(i::int) r. row_title r = s \<and> row_status r \<noteq> ''done'' \<and> row_status r \<noteq> ''failed''"
  have "title_is_open s t \<longleftrightarrow> (\<exists>x. x \<in> set (tbl_select ?P t))"
    by (simp only: title_is_open_def ex_in_conv set_empty not_not)
  also have "\<dots> \<longleftrightarrow> (\<exists>i r. tbl_get t i = Some r \<and> ?P i r)"
    by (simp add: split_paired_Ex set_tbl_select [OF assms])
  finally show ?thesis .
qed

definition queued_args :: "string \<Rightarrow> pyval \<Rightarrow> pyval \<Rightarrow> pyval \<Rightarrow> task_args" where
  "queued_args s g pr src = (task_args_default (PStr (strip s)))
     \<lparr>a_goal := g, a_priority := pr, a_source := src\<rparr>"

lemma add_queued:
  "\<exists>row. add_task now (queued_args s g pr src) t = (let (i, t') = tbl_insert row t in (Inr i, t'))
     \<and> row_title row = stored_title s \<and> row_status row = ''pending''"
proof -
  obtain d where "build_task_data (queued_args s g pr src) = Inr d"
    by (simp add: build_task_data_def queued_args_def task_args_default_def)
  moreover obtain row where "build_task_insert now (a_title (queued_args s g pr src))
      (a_status (queued_args s g pr src)) (a_priority (queued_args s g pr src)) d = Inr row"
    "row_title row = stored_title s" "row_status row = ''pending''"
    by (simp add: build_task_insert_def queued_args_def task_args_default_def stored_title_def py_or_def)
  ultimately show ?thesis by (intro exI [of _ row]) (simp add: add_task_def)
qed

lemma enqueue_row:
  "\<exists>row. row_title row = stored_title s \<and> row_status row = ''pending'' \<and>
     enqueue_if_absent now s g pr src t =
       (if title_is_open (strip s) t then (Inr False, t) else (Inr True, snd (tbl_insert row t)))"
proof -
  obtain row where "add_task now (queued_args s g pr src) t = (let (i, t') = tbl_insert row t in (Inr i, t'))"
    "row_title row = stored_title s \<and> row_status row = ''pending''"
    using add_queued [of now s g pr src t] by blast
  then show ?thesis
    by (intro exI [of _ row])
      (simp add: enqueue_if_absent_def Let_def queued_args_def split: prod.split)
qed

text \<open>A title of at most 1000 characters is queued once: after any call of
  \<open>enqueue_if_absent\<close> the same title is refused (until its task is done or failed) and the table
  is left as it is.\<close>

theorem enqueue_once:
  assumes "tasks_ok t" "length (strip s) \<le> task_title_limit"
  shows "enqueue_if_absent now' s g' pr' src' (snd (enqueue_if_absent now s g pr src t)) =
    (Inr False, snd (enqueue_if_absent now s g pr src t))"
proof -
  let ?t = "snd (enqueue_if_absent now s g pr src t)"
  obtain row where row: "row_title row = strip s" "row_status row = ''pending''"
    and eq: "enqueue_if_absent now s g pr src t =
       (if title_is_open (strip s) t then (Inr False, t) else (Inr True, snd (tbl_insert row t)))"
    using enqueue_row [of s now g pr src t] assms(2) by (auto simp: stored_title_def)
  have "title_is_open (strip s) ?t"
  proof (cases "title_is_open (strip s) t")
    case False
    then have "tbl_get ?t (fst (tbl_insert row t)) = Some row" "tbl_ok ?t"
      using tb.get_ins_same tb.ok_ins tasks_okD [OF assms(1)] by (auto simp: eq)
    with row show ?thesis by (fastforce simp: title_is_open_iff)
  qed (simp add: eq)
  with enqueue_row [of s now' g' pr' src' ?t] show ?thesis by auto
qed

theorem enqueue_once_witness:
  "enqueue_if_absent demo_time '' third '' PNone PNone PNone
     (snd (enqueue_if_absent demo_time '' third '' PNone PNone PNone demo_tasks)) =
   (Inr False, snd (enqueue_if_absent demo_time '' third '' PNone PNone PNone demo_tasks))"
  by (rule enqueue_once [OF demo_tasks_ok]) (simp add: store_eval)

lemma length_stored_title: "length (stored_title s) \<le> task_title_limit + 1"
  using length_compact_runtime_text_le [of task_title_limit "''task title''" "strip s"]
  by (simp add: stored_title_def task_title_limit_def)

text \<open>A title longer than 1001 characters escapes the check: the table keeps a shortened title,
  the check compares the full one, so after a call that queued it the next call queues it again.\<close>

theorem enqueue_long_title_again:
  assumes "tasks_ok t" "task_title_limit + 1 < length (strip s)"
    and "enqueue_if_absent now s g pr src t = (Inr True, t')"
  shows "fst (enqueue_if_absent now' s g' pr' src' t') = Inr True
    \<and> length (rows (snd (enqueue_if_absent now' s g' pr' src' t'))) = length (rows t) + 2"
proof -
  obtain row where row: "row_title row = stored_title s"
    and eq: "enqueue_if_absent now s g pr src t =
       (if title_is_open (strip s) t then (Inr False, t) else (Inr True, snd (tbl_insert row t)))"
    using enqueue_row [of s now g pr src t] by blast
  with assms(3) have closed: "\<not> title_is_open (strip s) t" and t': "t' = snd (tbl_insert row t)"
    by (auto split: if_splits)
  have ok: "tbl_ok t" "tbl_ok t'" using tb.ok_ins tasks_okD [OF assms(1)] by (auto simp: t')
  have "stored_title s \<noteq> strip s" using assms(2) length_stored_title [of s] by auto
  with closed have "\<not> title_is_open (strip s) t'"
    using row unfolding title_is_open_iff [OF ok(1)] title_is_open_iff [OF ok(2)]
    by (auto simp: t' tb.get_ins [OF ok(1)])
  with enqueue_row [of s now' g' pr' src' t'] show ?thesis
    by (auto simp: t' tbl_insert_def)
qed

theorem enqueue_long_title_again_witness:
  "fst (enqueue_if_absent demo_time (replicate 2000 CHR ''x'') PNone PNone PNone
     (snd (enqueue_if_absent demo_time (replicate 2000 CHR ''x'') PNone PNone PNone empty_tbl))) = Inr True"
proof -
  have st: "strip (replicate 2000 CHR ''x'') = replicate 2000 CHR ''x''"
    by (simp add: strip_def lstrip_def is_space_def dropWhile_eq_Cons_conv)
  have len: "task_title_limit + 1 < length (strip (replicate 2000 CHR ''x''))"
    by (simp add: st task_title_limit_def)
  have open_empty: "\<not> title_is_open q empty_tbl" for q
    by (simp add: title_is_open_def tbl_select_def empty_tbl_def)
  have "enqueue_if_absent demo_time (replicate 2000 CHR ''x'') PNone PNone PNone empty_tbl = (Inr True,
      snd (enqueue_if_absent demo_time (replicate 2000 CHR ''x'') PNone PNone PNone empty_tbl))"
    using enqueue_row [of "replicate 2000 CHR ''x''" demo_time PNone PNone PNone empty_tbl] open_empty
    by auto
  from enqueue_long_title_again [OF tasks_ok_empty len this] show ?thesis by blast
qed

section \<open>The inbox\<close>

lemma map_of_take: "map_of (take n d) k = Some v \<Longrightarrow> map_of d k = Some v"
proof (induction d arbitrary: n)
  case (Cons a d)
  then show ?case by (cases n) (auto split: if_splits)
qed simp

lemma cleared_inbox:
  assumes "tasks_ok t" "get_task_by_id t i = Some k"
    and "get_task_by_id (snd (patch_task i clear_inbox t)) i = Some k'"
  shows "dict_get (t_extras k') ''inbox_messages'' \<in> {PNone, PList []}"
proof -
  let ?key = "''inbox_messages''"
  have id: "t_id k = i" "dict_ok (t_extras k)"
    using get_task_by_id_id [OF assms(2)] get_task_extras_ok [OF assms(1,2)] .
  define k2 where "k2 = k\<lparr>t_extras := AList.update ?key (PList []) (t_extras k)\<rparr>"
  have "patched clear_inbox k = Inr k2"
    by (simp add: patched_def patch_wait_json_def patch_result_json_def patch_texts_def
        patch_extras_def clear_inbox_def no_patch_def k2_def dict_update_def set_str_def)
  then have "snd (patch_task i clear_inbox t) = save_task k2 t"
    by (simp add: patch_task_def assms(2) patch_title_def) (simp add: clear_inbox_def no_patch_def)
  moreover obtain r where "tbl_get t i = Some r" using assms(2) by (auto simp: get_task_by_id_def)
  ultimately have k': "k' = task_from_row (i, r\<lparr>row_status := t_status k2, row_data := task_to_data_json k2\<rparr>)"
    using assms(3) id by (simp add: get_task_by_id_def save_task_def tb.get_upd k2_def)
  have ok: "dict_ok (t_extras k2)" using id by (simp add: k2_def)
  let ?all = "task_core_data k2 @ dict_without task_core_data_keys (t_extras k2)"
  have key: "?key \<notin> set task_core_data_keys" "?key \<noteq> omitted_key"
    by (simp_all add: task_core_data_keys_def omitted_key_def)
  have "map_of (task_core_data k2) ?key = None" by (simp add: task_core_data_def)
  then have all: "map_of ?all ?key = Some (PList [])"
    using key by (simp add: map_add_def map_of_dict_without k2_def update_conv')
  have "dict_get (t_extras k') ?key = dict_get (compact_runtime_mapping ?all) ?key"
    using key by (simp add: k' from_saved(9) [OF ok])
      (simp add: dict_get_def map_of_dict_without column_dict_def task_to_data_json_def task_all_data [OF ok])
  also have "\<dots> \<in> {PNone, PList []}"
  proof (cases "map_of (take runtime_collection_max_items ?all) ?key")
    case None
    then show ?thesis
      by (simp only: dict_get_def map_of_compact_runtime_mapping [OF dict_ok_task_all_data [OF ok] key(2)]
          option.map option.case) simp
  next
    case (Some v)
    then have "v = PList []" using map_of_take [OF Some] all by simp
    then show ?thesis
      using map_of_compact_runtime_mapping [OF dict_ok_task_all_data [OF ok] key(2)] Some
      by (simp only: dict_get_def option.map option.case) (simp add: runtime_max_depth_def)
  qed
  finally show ?thesis .
qed

text \<open>Inbox messages are delivered at most once: whatever a pop returned, the next pop of the
  same task returns nothing.\<close>

theorem pop_task_inbox_once:
  assumes "tasks_ok t"
  shows "fst (pop_task_inbox i (snd (pop_task_inbox i t))) = []"
proof (cases "get_task_by_id t i")
  case None
  then show ?thesis by (simp add: pop_task_inbox_def)
next
  case (Some k)
  show ?thesis
  proof (cases "snd (pop_task_inbox i t) = t")
    case True
    have "fst (pop_task_inbox i t) = []" if "snd (pop_task_inbox i t) = t"
    proof (rule ccontr)
      assume ne: "fst (pop_task_inbox i t) \<noteq> []"
      then obtain raw where raw: "as_list (dict_get (t_extras k) ''inbox_messages'') = Some raw"
        "inbox_texts raw \<noteq> []"
        by (auto simp: pop_task_inbox_def Some split: option.splits if_splits)
      then have "snd (patch_task i clear_inbox t) = t"
        using that by (simp add: pop_task_inbox_def Some)
      from cleared_inbox [OF assms Some, of k] this Some raw show False
        by (auto simp: inbox_texts_def)
    qed
    from this [OF True] show ?thesis by (simp only: True)
  next
    case False
    then have eq: "snd (pop_task_inbox i t) = snd (patch_task i clear_inbox t)"
      using pop_task_inbox_cases [of i t] by blast
    obtain k' where k': "get_task_by_id (snd (patch_task i clear_inbox t)) i = Some k'"
      using extends_patch_task [of t i clear_inbox] Some
      by (fastforce simp: extends_def get_task_by_id_def)
    from cleared_inbox [OF assms Some k'] show ?thesis unfolding eq
      by (auto simp: pop_task_inbox_def k' inbox_texts_def)
  qed
qed

theorem pop_task_inbox_once_witness:
  "fst (pop_task_inbox 2 demo_tasks) = [''hello''] \<and>
   fst (pop_task_inbox 2 (snd (pop_task_inbox 2 demo_tasks))) = []"
proof -
  have "fst (pop_task_inbox 2 demo_tasks) = [''hello'']"
    by (simp add: pop_task_inbox_def demo_tasks_eq store_eval dict_get_def inbox_texts_def)
  with pop_task_inbox_once [OF demo_tasks_ok, of 2] show ?thesis by blast
qed

section \<open>Task data\<close>

text \<open>\<open>update_task_data\<close> raises nothing for any dict, but an entry named like one of the
  task's own fields other than \<open>current_step\<close> and \<open>model_tier\<close> changes nothing: wait kind, wait
  key, goal, status and priority stay what they were (up to the compaction every save repeats).\<close>

theorem update_task_data_keeps_fields:
  assumes "tasks_ok t" "get_task_by_id t i = Some k"
  shows "fst (update_task_data i d t) = Inr () \<and>
    (\<exists>k'. get_task_by_id (snd (update_task_data i d t)) i = Some k' \<and>
     t_wait_kind k' = compact_runtime_value 1 (t_wait_kind k) \<and>
     t_wait_key k' = compact_runtime_value 1 (t_wait_key k) \<and>
     t_goal k' = compact_runtime_value 1 (t_goal k) \<and>
     t_status k' = t_status k \<and> t_priority k' = t_priority k)"
proof -
  let ?p = "no_patch\<lparr>p_current_step := map_option (\<lambda>v. PStr (str_or_empty v)) (map_of d ''current_step''),
       p_model_tier := map_option (\<lambda>v. PStr (str_or_empty v)) (map_of d ''model_tier''),
       p_extras := dict_without (protected_task_keys @ [''current_step'', ''model_tier'']) d\<rparr>"
  have "fst (patch_task i ?p t) = Inr True"
    by (simp add: patch_task_def assms(2) patch_title_def patched_def patch_wait_json_def
        patch_result_json_def)
  then have "patch_task i ?p t = (Inr True, snd (patch_task i ?p t))" by (simp add: prod_eq_iff)
  from patch_task_read [OF assms(2) this assms(1)] \<open>fst (patch_task i ?p t) = Inr True\<close>
  show ?thesis unfolding update_task_data_def
    by (auto simp: patch_read_def discard_def simp del: compact_runtime_value_simps)
qed

theorem update_task_data_keeps_fields_witness:
  "\<exists>k'. get_task_by_id (snd (update_task_data 1 [(''wait_kind'', PStr ''timer'')] demo_tasks)) 1 = Some k'
     \<and> t_wait_kind k' = PStr []"
proof -
  have "t_wait_kind (demo_task 1) = PStr []" by (simp add: demo_task_def demo_tasks_eq store_eval)
  then show ?thesis
    using update_task_data_keeps_fields [OF demo_tasks_ok demo_task_get(1), of "[(''wait_kind'', PStr ''timer'')]"]
    by auto
qed

end
