(* ===== verification/Run_Store.thy ===== *)
theory Run_Store
  imports Task_Models "HOL-Library.List_Lexorder"
begin

text \<open>
  \<open>store/task/run.py\<close>: runs are added, patched, listed and, after a crash, cancelled when they
  are stale. \<open>now\<close> is the ISO text of the current time, compared as text by the \<open>SELECT\<close>s.
\<close>

type_synonym runs = "run_row tbl"

definition rt :: "string \<Rightarrow> string \<Rightarrow> string" where
  "rt label s = compact_runtime_text runtime_text_max_chars label s"

section \<open>Adding\<close>

record run_args =
  ra_task_id :: int
  ra_run_type :: string
  ra_worker_type :: string
  ra_status :: string
  ra_input_json :: dict
  ra_output_json :: dict
  ra_log_text :: string
  ra_error_text :: string
  ra_tool_name :: string
  ra_session_id :: string
  ra_model_tier :: string
  ra_progress :: string
  ra_extras :: dict

definition run_args_default :: run_args where
  "run_args_default = \<lparr>ra_task_id = 0, ra_run_type = ''tool_chain'',
     ra_worker_type = ''tool-chain-worker'', ra_status = ''running'', ra_input_json = [],
     ra_output_json = [], ra_log_text = [], ra_error_text = [], ra_tool_name = [],
     ra_session_id = [], ra_model_tier = [], ra_progress = [], ra_extras = []\<rparr>"

definition run_insert_data :: "run_args \<Rightarrow> dict" where
  "run_insert_data a = (let data =
     [(''input_json'', PDict (compact_runtime_mapping (ra_input_json a))),
      (''output_json'', PDict (compact_runtime_mapping (ra_output_json a))),
      (''log_text'', PStr (rt ''run log'' (ra_log_text a))),
      (''error_text'', PStr (rt ''run error'' (ra_error_text a))),
      (''tool_name'', PStr (ra_tool_name a)), (''session_id'', PStr (ra_session_id a)),
      (''model_tier'', PStr (ra_model_tier a)),
      (''progress'', PStr (rt ''run progress'' (ra_progress a)))]
     in if ra_extras a \<noteq> [] then dict_update data (compact_runtime_mapping (ra_extras a)) else data)"

definition add_run :: "string \<Rightarrow> run_args \<Rightarrow> runs \<Rightarrow> int \<times> runs" where
  "add_run now a t = tbl_insert
     \<lparr>rrow_task_id = ra_task_id a, rrow_run_type = ra_run_type a, rrow_worker_type = ra_worker_type a,
      rrow_status = ra_status a, rrow_created_at = now, rrow_started_at = now,
      rrow_completed_at = [], rrow_data = Some (PDict (run_insert_data a))\<rparr> t"

section \<open>Reading\<close>

definition get_run_by_id :: "runs \<Rightarrow> int \<Rightarrow> run option" where
  "get_run_by_id t i = map_option (\<lambda>r. run_from_row (i, r)) (tbl_get t i)"

definition list_runs :: "int option \<Rightarrow> string option \<Rightarrow> int \<Rightarrow> runs \<Rightarrow> run list" where
  "list_runs task_id status limit t = map run_from_row (sql_limit limit (rev (tbl_select
     (\<lambda>i r. (case task_id of None \<Rightarrow> True | Some k \<Rightarrow> rrow_task_id r = k) \<and>
            (case status of None \<Rightarrow> True | Some s \<Rightarrow> s = [] \<or> rrow_status r = s)) t)))"

definition get_pending_runs :: "int \<Rightarrow> runs \<Rightarrow> run list" where
  "get_pending_runs limit t = map run_from_row (sql_limit limit
     (sort_key (\<lambda>ir. rrow_created_at (snd ir)) (tbl_select (\<lambda>i r. rrow_status r = ''pending'') t)))"

section \<open>Updating\<close>

record run_patch =
  rp_task_id :: "int option"
  rp_status :: "string option"
  rp_output_json :: "dict option"
  rp_log_text :: "string option"
  rp_error_text :: "string option"
  rp_session_id :: "string option"
  rp_model_tier :: "string option"
  rp_progress :: "string option"
  rp_extras :: dict

definition no_run_patch :: run_patch where
  "no_run_patch = \<lparr>rp_task_id = None, rp_status = None, rp_output_json = None, rp_log_text = None,
     rp_error_text = None, rp_session_id = None, rp_model_tier = None, rp_progress = None,
     rp_extras = []\<rparr>"

definition run_finished :: "string \<Rightarrow> bool" where
  "run_finished s \<longleftrightarrow> s \<in> {''succeeded'', ''failed'', ''cancelled''}"

definition opt_str :: "string option \<Rightarrow> pyval \<Rightarrow> pyval" where
  "opt_str v old = (case v of None \<Rightarrow> old | Some s \<Rightarrow> PStr s)"

definition patched_run :: "string \<Rightarrow> run_patch \<Rightarrow> run \<Rightarrow> run" where
  "patched_run now p r =
    (let r1 = r\<lparr>r_task_id := (case rp_task_id p of None \<Rightarrow> r_task_id r | Some k \<Rightarrow> k),
           r_status := (case rp_status p of None \<Rightarrow> r_status r | Some s \<Rightarrow> if s = [] then r_status r else s),
           r_output_json := (case rp_output_json p of None \<Rightarrow> r_output_json r
              | Some d \<Rightarrow> PDict (compact_runtime_mapping d)),
           r_log_text := opt_str (map_option (rt ''run log'') (rp_log_text p)) (r_log_text r),
           r_error_text := opt_str (map_option (rt ''run error'') (rp_error_text p)) (r_error_text r),
           r_session_id := opt_str (rp_session_id p) (r_session_id r),
           r_model_tier := opt_str (rp_model_tier p) (r_model_tier r),
           r_progress := opt_str (map_option (rt ''run progress'') (rp_progress p)) (r_progress r),
           r_extras := (if rp_extras p \<noteq> []
              then dict_update (r_extras r) (compact_runtime_mapping (rp_extras p)) else r_extras r)\<rparr>
     in if run_finished (r_status r1) \<and> r_completed_at r1 = []
        then r1\<lparr>r_completed_at := now\<rparr> else r1)"

definition save_run :: "run \<Rightarrow> run_row \<Rightarrow> run_row" where
  "save_run k row = row\<lparr>rrow_task_id := r_task_id k, rrow_status := r_status k,
     rrow_completed_at := r_completed_at k, rrow_data := run_to_data_json k\<rparr>"

definition update_run :: "string \<Rightarrow> int \<Rightarrow> run_patch \<Rightarrow> runs \<Rightarrow> runs" where
  "update_run now i p t = (case get_run_by_id t i of None \<Rightarrow> t
     | Some r \<Rightarrow> tbl_update i (save_run (patched_run now p r)) t)"

section \<open>Recovery after a crash\<close>

definition stale :: "string \<Rightarrow> run_row \<Rightarrow> bool" where
  "stale cutoff r \<longleftrightarrow> rrow_status r \<in> {''running'', ''pending''} \<and> rrow_started_at r < cutoff"

text \<open>The error text of the source is shown only; \<open>msg\<close> stands for it. No update of the model
  raises, so every selected run is counted.\<close>

definition cancel_stale_runs :: "string \<Rightarrow> string \<Rightarrow> string \<Rightarrow> runs \<Rightarrow> nat \<times> runs" where
  "cancel_stale_runs now cutoff msg t =
     (let ids = map fst (tbl_select (\<lambda>i r. stale cutoff r) t)
      in (length ids, fold (\<lambda>i. update_run now i
            (no_run_patch\<lparr>rp_status := Some ''cancelled'', rp_error_text := Some msg\<rparr>)) ids t))"

section \<open>What a task's result is patched with\<close>

definition build_task_run_result_patch ::
    "int \<Rightarrow> string \<Rightarrow> string \<Rightarrow> string \<Rightarrow> string \<Rightarrow> string \<Rightarrow> pyval \<Rightarrow> dict" where
  "build_task_run_result_patch run_id status worker tool session summary err =
     [(''last_run_id'', PInt run_id), (''last_run_status'', PStr status),
      (''worker_type'', PStr worker), (''tool_name'', PStr tool), (''session_id'', PStr session),
      (''summary'', PStr summary), (''error'', err)]"

section \<open>Lemmas\<close>

lemma run_from_row_columns [simp]:
  "r_id (run_from_row (i, r)) = i" "r_task_id (run_from_row (i, r)) = rrow_task_id r"
  "r_run_type (run_from_row (i, r)) = rrow_run_type r"
  "r_worker_type (run_from_row (i, r)) = rrow_worker_type r"
  "r_status (run_from_row (i, r)) = rrow_status r"
  "r_created_at (run_from_row (i, r)) = rrow_created_at r"
  "r_started_at (run_from_row (i, r)) = rrow_started_at r"
  "r_completed_at (run_from_row (i, r)) = rrow_completed_at r"
  by (simp_all add: run_from_row_def Let_def)

lemma save_run_columns [simp]:
  "rrow_created_at (save_run k r) = rrow_created_at r" "rrow_started_at (save_run k r) = rrow_started_at r"
  "rrow_run_type (save_run k r) = rrow_run_type r" "rrow_worker_type (save_run k r) = rrow_worker_type r"
  "rrow_status (save_run k r) = r_status k" "rrow_completed_at (save_run k r) = r_completed_at k"
  "rrow_task_id (save_run k r) = r_task_id k" "rrow_data (save_run k r) = run_to_data_json k"
  by (simp_all add: save_run_def)

lemma tbl_get_update_run:
  "tbl_get (update_run now i p t) j =
     (if j = i then map_option (\<lambda>r. save_run (patched_run now p (run_from_row (i, r))) r) (tbl_get t j)
      else tbl_get t j)"
  by (auto simp: update_run_def get_run_by_id_def tb.get_upd split: option.split)

lemma tbl_ok_update_run [simp]: "tbl_ok t \<Longrightarrow> tbl_ok (update_run now i p t)"
  by (simp add: update_run_def split: option.split)

lemma patched_run_status:
  "r_status (patched_run now p r) =
     (case rp_status p of None \<Rightarrow> r_status r | Some s \<Rightarrow> if s = [] then r_status r else s)"
  by (simp add: patched_run_def Let_def)

lemma patched_run_completed:
  "r_completed_at (patched_run now p r) =
     (if run_finished (r_status (patched_run now p r)) \<and> r_completed_at r = [] then now
      else r_completed_at r)"
  by (simp add: patched_run_def Let_def)

section \<open>Completion\<close>

inductive run_step :: "runs \<Rightarrow> runs \<Rightarrow> bool" where
  run_add: "run_step t (snd (add_run now a t))"
| run_update: "run_step t (update_run now i p t)"
| run_cancel: "run_step t (snd (cancel_stale_runs now cutoff msg t))"

text \<open>What no operation of the store changes in a run, and the completion time, which is written
  once.\<close>

definition run_kept :: "runs \<Rightarrow> runs \<Rightarrow> bool" where
  "run_kept t t' \<longleftrightarrow> (\<forall>i r. tbl_get t i = Some r \<longrightarrow> (\<exists>r'. tbl_get t' i = Some r' \<and>
     rrow_created_at r' = rrow_created_at r \<and> rrow_started_at r' = rrow_started_at r \<and>
     rrow_run_type r' = rrow_run_type r \<and> rrow_worker_type r' = rrow_worker_type r \<and>
     (rrow_completed_at r \<noteq> [] \<longrightarrow> rrow_completed_at r' = rrow_completed_at r)))"

lemma run_kept_refl [simp]: "run_kept t t"
  by (simp add: run_kept_def)

lemma run_kept_trans:
  assumes "run_kept t u" "run_kept u v"
  shows "run_kept t v"
  unfolding run_kept_def
proof (intro allI impI)
  fix i r assume "tbl_get t i = Some r"
  with assms(1) obtain r' where r': "tbl_get u i = Some r'" "rrow_created_at r' = rrow_created_at r"
    "rrow_started_at r' = rrow_started_at r" "rrow_run_type r' = rrow_run_type r"
    "rrow_worker_type r' = rrow_worker_type r"
    "rrow_completed_at r \<noteq> [] \<longrightarrow> rrow_completed_at r' = rrow_completed_at r"
    by (auto simp: run_kept_def)
  with assms(2) show "\<exists>r'. tbl_get v i = Some r' \<and> rrow_created_at r' = rrow_created_at r \<and>
     rrow_started_at r' = rrow_started_at r \<and> rrow_run_type r' = rrow_run_type r \<and>
     rrow_worker_type r' = rrow_worker_type r \<and>
     (rrow_completed_at r \<noteq> [] \<longrightarrow> rrow_completed_at r' = rrow_completed_at r)"
    by (fastforce simp: run_kept_def)
qed

lemma run_kept_update: "run_kept t (update_run now i p t)"
  by (auto simp: run_kept_def tbl_get_update_run patched_run_completed)

lemma run_kept_fold: "run_kept t (fold (\<lambda>i. update_run now i p) ids t)"
proof (induction ids arbitrary: t)
  case Nil
  then show ?case by simp
next
  case (Cons i ids)
  then show ?case using run_kept_trans [OF run_kept_update [of t now i p] Cons.IH] by simp
qed

lemma tbl_ok_fold [simp]: "tbl_ok t \<Longrightarrow> tbl_ok (fold (\<lambda>i. update_run now i p) ids t)"
  by (induction ids arbitrary: t) auto

lemma run_step_kept: "run_step t t' \<Longrightarrow> tbl_ok t \<Longrightarrow> tbl_ok t' \<and> run_kept t t'"
proof (induction rule: run_step.induct)
  case (run_add t now a)
  then show ?case using tb.get_ins_old tb.ok_ins unfolding add_run_def
    by (fastforce simp: run_kept_def)
qed (auto simp: run_kept_update run_kept_fold cancel_stale_runs_def Let_def)

text \<open>Over any sequence of additions, updates and stale-run cancellations, a run keeps its
  creation and start time and its type, and a completion time once set is never changed or
  cleared, not even by an update that sets the status back to \<open>running\<close>.\<close>

theorem run_history_kept:
  assumes "run_step\<^sup>*\<^sup>* t t'" "tbl_ok t" "get_run_by_id t i = Some k"
  shows "\<exists>k'. get_run_by_id t' i = Some k' \<and> r_created_at k' = r_created_at k \<and>
     r_started_at k' = r_started_at k \<and> r_run_type k' = r_run_type k \<and>
     (r_completed_at k \<noteq> [] \<longrightarrow> r_completed_at k' = r_completed_at k)"
proof -
  from assms(1,2) have "tbl_ok t' \<and> run_kept t t'"
    by (induction rule: rtranclp_induct)
      (auto dest: run_step_kept intro: run_kept_trans)
  with assms(3) show ?thesis by (fastforce simp: run_kept_def get_run_by_id_def)
qed

definition demo_runs :: runs where
  "demo_runs = snd (add_run ''2024-01-02'' (run_args_default\<lparr>ra_status := ''running''\<rparr>)
     (snd (add_run ''2024-01-01'' (run_args_default\<lparr>ra_tool_name := ''shell.run''\<rparr>) empty_tbl)))"

lemma tbl_ok_demo_runs [simp]: "tbl_ok demo_runs"
  by (simp add: demo_runs_def add_run_def tb.ok_ins)

lemma demo_runs_get:
  "\<exists>k. get_run_by_id demo_runs 1 = Some k \<and> r_status k = ''running'' \<and> r_completed_at k = []"
  by (simp add: demo_runs_def add_run_def get_run_by_id_def tbl_insert_def tbl_get_def empty_tbl_def
      run_args_default_def)

theorem run_history_kept_witness:
  "\<exists>k'. get_run_by_id (update_run ''2024-01-03'' 1 (no_run_patch\<lparr>rp_status := Some ''failed''\<rparr>) demo_runs) 1
     = Some k' \<and> r_run_type k' = ''tool_chain''"
proof -
  obtain k where k: "get_run_by_id demo_runs 1 = Some k" "r_run_type k = ''tool_chain''"
    by (simp add: demo_runs_def add_run_def get_run_by_id_def tbl_insert_def tbl_get_def empty_tbl_def
        run_args_default_def)
  from run_history_kept [OF r_into_rtranclp [of run_step, OF run_update] tbl_ok_demo_runs k(1)] k(2)
  show ?thesis by metis
qed

text \<open>An update that leaves a run finished gives it a completion time: the old one if there
  is one, else the current time; the status changes exactly when a non-empty one is given.\<close>

theorem update_run_completion:
  assumes "get_run_by_id t i = Some k"
  shows "\<exists>k'. get_run_by_id (update_run now i p t) i = Some k' \<and>
     r_status k' = (case rp_status p of None \<Rightarrow> r_status k | Some s \<Rightarrow> if s = [] then r_status k else s) \<and>
     r_completed_at k' = (if run_finished (r_status k') \<and> r_completed_at k = [] then now
        else r_completed_at k)"
  using assms
  by (auto simp: get_run_by_id_def tbl_get_update_run patched_run_status patched_run_completed
      split: option.split)

theorem update_run_completion_witness:
  "\<exists>k'. get_run_by_id (update_run ''2024-01-03'' 1 (no_run_patch\<lparr>rp_status := Some ''failed''\<rparr>) demo_runs) 1
     = Some k' \<and> r_status k' = ''failed'' \<and> r_completed_at k' = ''2024-01-03''"
proof -
  obtain k where k: "get_run_by_id demo_runs 1 = Some k" "r_completed_at k = []"
    using demo_runs_get by blast
  from update_run_completion [OF k(1), of "''2024-01-03''" "no_run_patch\<lparr>rp_status := Some ''failed''\<rparr>"]
  show ?thesis by (auto simp: k(2) run_finished_def)
qed

lemma AList_update_front:
  "\<exists>d' r. AList.update k v (d @ e) = d' @ r \<and> map fst d' = map fst d"
proof (induction d)
  case (Cons a d)
  then obtain d' r where "AList.update k v (d @ e) = d' @ r" "map fst d' = map fst d" by blast
  then show ?case
    by (cases a) (auto intro: exI [of _ "(fst a, v) # d"] exI [of _ "a # d'"])
qed simp

lemma dict_update_front:
  "\<exists>d' r. dict_update (d @ f) e = d' @ r \<and> map fst d' = map fst d"
proof (induction e arbitrary: d f)
  case (Cons a e)
  obtain k v where a: "a = (k, v)" by fastforce
  obtain d1 r1 where 1: "AList.update k v (d @ f) = d1 @ r1" "map fst d1 = map fst d"
    using AList_update_front [of k v d f] by blast
  obtain d' r where "dict_update (d1 @ r1) e = d' @ r" "map fst d' = map fst d1"
    using Cons.IH [of d1 r1] by blast
  with 1 show ?case by (auto simp: dict_update_def a)
qed auto

lemma map_of_take_update:
  assumes "key \<in> fst ` set d" "length d \<le> n"
  shows "map_of (take n (dict_update d e)) key = map_of (dict_update d e) key"
proof -
  obtain d' r where d': "dict_update d e = d' @ r" "map fst d' = map fst d"
    using dict_update_front [of d "[]" e] by auto
  then have "length d' \<le> n" using assms(2) by (metis length_map)
  moreover have "key \<in> set (map fst d')" using assms(1) by (simp only: d'(2) set_map)
  then have "map_of d' key \<noteq> None" by (simp only: map_of_eq_None_iff set_map not_not)
  ultimately show ?thesis by (auto simp: d'(1) map_add_def)
qed

text \<open>A field of a saved run reads as its compacted value, the extras' one if there is one.\<close>

lemma run_field_read:
  assumes "dict_ok (r_extras k)" "key \<in> set run_data_keys"
    and "(map_of (run_core_data k) ++ map_of (r_extras k)) key = Some v"
  shows "dict_get_or dflt (column_dict (run_to_data_json k)) key = compact_runtime_value 1 v"
proof -
  have keys: "map fst (run_core_data k) = run_data_keys"
    by (simp add: run_core_data_def run_data_keys_def)
  have ok: "dict_ok (dict_update (run_core_data k) (r_extras k))"
    by (rule dict_ok_dict_update) (simp add: dict_ok_def keys run_data_keys_def)
  have "key \<noteq> omitted_key" using assms(2) by (auto simp: omitted_key_def run_data_keys_def)
  moreover have "map_of (take runtime_collection_max_items (dict_update (run_core_data k) (r_extras k))) key
      = Some v"
  proof -
    have "key \<in> fst ` set (run_core_data k)" using assms(2) by (simp only: keys [symmetric] set_map)
    moreover have "length (run_core_data k) \<le> runtime_collection_max_items"
      by (simp add: run_core_data_def runtime_collection_max_items_def)
    ultimately show ?thesis
      using assms(3) by (simp only: map_of_take_update map_of_dict_update_ok [OF assms(1)])
  qed
  ultimately show ?thesis
    by (simp add: dict_get_or_def run_to_data_json_def column_dict_def map_of_compact_runtime_mapping [OF ok])
qed

text \<open>The extras of an update win over its fields: \<open>to_data_json\<close> merges them unfiltered, so
  with an extra named \<open>progress\<close> the progress given in the same call is lost.\<close>

theorem update_run_extras_override:
  assumes "get_run_by_id t i = Some k" "dict_ok (r_extras k)" "length s \<le> runtime_text_max_chars"
  shows "\<exists>k'. get_run_by_id (update_run now i
      (no_run_patch\<lparr>rp_progress := Some q, rp_extras := [(''progress'', PStr s)]\<rparr>) t) i = Some k' \<and>
    r_progress k' = PStr s"
proof -
  obtain row where row: "tbl_get t i = Some row" "k = run_from_row (i, row)"
    using assms(1) by (auto simp: get_run_by_id_def)
  let ?k = "patched_run now (no_run_patch\<lparr>rp_progress := Some q, rp_extras := [(''progress'', PStr s)]\<rparr>) k"
  have ext: "map_of (r_extras ?k) ''progress'' = Some (PStr s)"
    using assms(3)
    by (simp add: patched_run_def Let_def compact_runtime_mapping_small dict_ok_def
        runtime_collection_max_items_def dict_update_def update_conv')
  have ok: "dict_ok (r_extras ?k)" using assms(2) by (simp add: patched_run_def Let_def)
  have "dict_get_or (PStr []) (column_dict (run_to_data_json ?k)) ''progress'' =
      compact_runtime_value 1 (PStr s)"
    by (rule run_field_read [OF ok]) (simp_all add: run_data_keys_def ext)
  then have "r_progress (run_from_row (i, save_run ?k row)) = PStr s"
    using assms(3) by (simp add: run_from_row_def Let_def)
  then show ?thesis
    by (simp add: get_run_by_id_def tbl_get_update_run row)
qed

theorem update_run_extras_override_witness:
  "\<exists>k'. get_run_by_id (update_run ''now'' 1 (no_run_patch\<lparr>rp_progress := Some ''half done'',
      rp_extras := [(''progress'', PStr ''old'')]\<rparr>) demo_runs) 1 = Some k' \<and> r_progress k' = PStr ''old''"
proof -
  obtain k where "get_run_by_id demo_runs 1 = Some k" "r_extras k = []"
    by (simp add: demo_runs_def add_run_def get_run_by_id_def tbl_insert_def tbl_get_def empty_tbl_def
        run_from_row_def Let_def column_dict_def dict_without_def run_data_keys_def run_insert_data_def
        run_args_default_def)
  then show ?thesis
    using update_run_extras_override [of demo_runs 1 k "''old''" "''now''" "''half done''"]
    by (simp add: dict_ok_def runtime_text_max_chars_def)
qed

section \<open>Stale runs\<close>

lemma tbl_get_fold_update:
  "distinct ids \<Longrightarrow> tbl_get (fold (\<lambda>i. update_run now i p) ids t) j =
     (if j \<in> set ids then map_option (\<lambda>r. save_run (patched_run now p (run_from_row (j, r))) r) (tbl_get t j)
      else tbl_get t j)"
  by (induction ids arbitrary: t) (auto simp: tbl_get_update_run)

text \<open>After the start-up recovery no run is stale any more; the number returned is the number
  of runs that were; each of them is \<open>cancelled\<close> with a completion time; every other run is
  untouched.\<close>

theorem cancel_stale_runs_effect:
  assumes "tbl_ok t" "cancel_stale_runs now cutoff msg t = (n, t')" "now \<noteq> []"
  shows "n = tbl_count_where (\<lambda>i r. stale cutoff r) t
    \<and> (\<forall>i r. tbl_get t' i = Some r \<longrightarrow> \<not> stale cutoff r)
    \<and> (\<forall>i r. tbl_get t i = Some r \<longrightarrow> \<not> stale cutoff r \<longrightarrow> tbl_get t' i = Some r)
    \<and> (\<forall>i r. tbl_get t i = Some r \<longrightarrow> stale cutoff r \<longrightarrow> (\<exists>r'. tbl_get t' i = Some r' \<and>
         rrow_status r' = ''cancelled'' \<and> rrow_completed_at r' \<noteq> []))"
proof -
  let ?sel = "tbl_select (\<lambda>i r. stale cutoff r) t"
  let ?p = "no_run_patch\<lparr>rp_status := Some ''cancelled'', rp_error_text := Some msg\<rparr>"
  have n: "n = length ?sel" and t': "t' = fold (\<lambda>i. update_run now i ?p) (map fst ?sel) t"
    using assms(2) by (simp_all add: cancel_stale_runs_def Let_def)
  have mem: "i \<in> set (map fst ?sel) \<longleftrightarrow> (\<exists>r. tbl_get t i = Some r \<and> stale cutoff r)" for i
    using set_tbl_select [OF assms(1), of i _ "\<lambda>i r. stale cutoff r"] by force
  note get = tbl_get_fold_update [OF distinct_tbl_select [OF assms(1)], of now ?p "\<lambda>i r. stale cutoff r" t,
    folded t', unfolded mem]
  have st: "r_status (patched_run now ?p k) = ''cancelled''" for k
    by (simp add: patched_run_status)
  have co: "r_completed_at (patched_run now ?p k) \<noteq> []" for k
    using assms(3) by (simp add: patched_run_completed st run_finished_def)
  have count: "n = tbl_count_where (\<lambda>i r. stale cutoff r) t"
    by (simp add: n tbl_select_def tbl_count_where_def)
  have get1: "\<exists>r'. tbl_get t' i = Some r' \<and> rrow_status r' = ''cancelled'' \<and> rrow_completed_at r' \<noteq> []"
    if "tbl_get t i = Some r" "stale cutoff r" for i r
    using get [of i] that by (simp add: st co)
  have get2: "tbl_get t' i = Some r" if "tbl_get t i = Some r" "\<not> stale cutoff r" for i r
    using get [of i] that by simp
  have "\<not> stale cutoff r'" if t'i: "tbl_get t' i = Some r'" for i r'
  proof (cases "tbl_get t i")
    case None
    with get [of i] t'i show ?thesis by simp
  next
    case (Some r)
    show ?thesis
    proof (cases "stale cutoff r")
      case True
      with get1 [OF Some True] t'i show ?thesis by (auto simp: stale_def)
    next
      case False
      with get2 [OF Some False] t'i show ?thesis by simp
    qed
  qed
  with count get1 get2 show ?thesis by blast
qed

theorem cancel_stale_runs_effect_witness:
  "fst (cancel_stale_runs ''2024-01-03'' ''2024-01-02'' ''stale'' demo_runs) = 1"
proof -
  let ?c = "cancel_stale_runs ''2024-01-03'' ''2024-01-02'' ''stale'' demo_runs"
  have "''2024-01-01'' < (''2024-01-02'' :: string)" "\<not> ''2024-01-02'' < (''2024-01-02'' :: string)"
    by (simp_all add: less_char_def)
  then have "tbl_count_where (\<lambda>i r. stale ''2024-01-02'' r) demo_runs = 1"
    by (simp add: tbl_count_where_def demo_runs_def add_run_def tbl_insert_def empty_tbl_def stale_def
        run_args_default_def)
  with cancel_stale_runs_effect [OF tbl_ok_demo_runs, of "''2024-01-03''" "''2024-01-02''" "''stale''" "fst ?c" "snd ?c"]
  show ?thesis by simp
qed

end
