(* ===== verification/Signal_Store.thy ===== *)
theory Signal_Store
  imports Task_Models
begin

text \<open>
  \<open>store/task/signal.py\<close>: scheduled signals, and the time texts \<open>tools/schedule.py\<close> writes
  for them. \<open>now\<close> is SQLite's \<open>datetime('now')\<close>; \<open>shift\<close> stands for SQLite's
  \<open>datetime(run_at, 'n seconds')\<close>, which gives \<open>NULL\<close> (here \<open>None\<close>) for a text that is no
  time.
\<close>

record signal_row =
  srow_title :: string
  srow_run_at :: string
  srow_repeat :: int
  srow_status :: string
  srow_payload :: json_col

type_synonym signals = "signal_row tbl"

record signal =
  s_id :: int
  s_title :: string
  s_run_at :: string
  s_repeat :: int
  s_status :: string
  s_payload :: pyval

definition signal_of :: "int \<times> signal_row \<Rightarrow> signal" where
  "signal_of ir = \<lparr>s_id = fst ir, s_title = srow_title (snd ir), s_run_at = srow_run_at (snd ir),
     s_repeat = srow_repeat (snd ir), s_status = srow_status (snd ir),
     s_payload = (case srow_payload (snd ir) of None \<Rightarrow> PDict [] | Some v \<Rightarrow> v)\<rparr>"

definition add_signal :: "string \<Rightarrow> string \<Rightarrow> int \<Rightarrow> dict \<Rightarrow> signals \<Rightarrow> int \<times> signals" where
  "add_signal title run_at repeat_secs payload t = tbl_insert
     \<lparr>srow_title = compact_runtime_text 1000 ''signal title'' title, srow_run_at = run_at,
      srow_repeat = repeat_secs, srow_status = ''pending'',
      srow_payload = Some (PDict (compact_runtime_mapping payload))\<rparr> t"

definition signal_due :: "string \<Rightarrow> signal_row \<Rightarrow> bool" where
  "signal_due now r \<longleftrightarrow> srow_status r = ''pending'' \<and> srow_run_at r \<le> now"

definition due_signals :: "string \<Rightarrow> signals \<Rightarrow> signal list" where
  "due_signals now t = map signal_of
     (sort_key (\<lambda>ir. srow_run_at (snd ir)) (tbl_select (\<lambda>i r. signal_due now r) t))"

definition ack_signal :: "(string \<Rightarrow> int \<Rightarrow> string option) \<Rightarrow> int \<Rightarrow> signals \<Rightarrow> unit res \<times> signals" where
  "ack_signal shift i t = (case tbl_get t i of
      None \<Rightarrow> (Inr (), t)
    | Some r \<Rightarrow>
       (if srow_repeat r > 0
        then (case shift (srow_run_at r) (srow_repeat r) of
                None \<Rightarrow> (Inl (Exn ''IntegrityError'' ''NOT NULL constraint failed: signals.run_at''), t)
              | Some ra \<Rightarrow> (Inr (), tbl_update i (\<lambda>r. r\<lparr>srow_run_at := ra\<rparr>) t))
        else (Inr (), tbl_update i (\<lambda>r. r\<lparr>srow_status := ''done''\<rparr>) t)))"

definition list_signals :: "int \<Rightarrow> bool \<Rightarrow> signals \<Rightarrow> signal list" where
  "list_signals limit include_done t = map signal_of (sql_limit limit
     (sort_key (\<lambda>ir. srow_run_at (snd ir))
        (tbl_select (\<lambda>i r. include_done \<or> srow_status r = ''pending'') t)))"

definition get_signal :: "signals \<Rightarrow> int \<Rightarrow> signal option" where
  "get_signal t i = map_option (\<lambda>r. signal_of (i, r)) (tbl_get t i)"

definition cancel_signal :: "int \<Rightarrow> signals \<Rightarrow> signals" where
  "cancel_signal i t = tbl_update i (\<lambda>r. r\<lparr>srow_status := ''cancelled''\<rparr>) t"

section \<open>Time texts\<close>

record stamp =
  st_year :: nat
  st_month :: nat
  st_day :: nat
  st_hour :: nat
  st_minute :: nat
  st_second :: nat

definition pad2 :: "nat \<Rightarrow> string" where
  "pad2 n = [char_of (48 + n div 10), char_of (48 + n mod 10)]"

definition pad4 :: "nat \<Rightarrow> string" where
  "pad4 n = pad2 (n div 100) @ pad2 (n mod 100)"

definition date_text :: "stamp \<Rightarrow> string" where
  "date_text t = pad4 (st_year t) @ ''-'' @ pad2 (st_month t) @ ''-'' @ pad2 (st_day t)"

definition clock_text :: "stamp \<Rightarrow> string" where
  "clock_text t = pad2 (st_hour t) @ '':'' @ pad2 (st_minute t) @ '':'' @ pad2 (st_second t)"

text \<open>\<open>strftime("%Y-%m-%dT%H:%M:%SZ")\<close>, and the format of SQLite's \<open>datetime\<close>.\<close>

definition iso_z :: "stamp \<Rightarrow> string" where
  "iso_z t = date_text t @ ''T'' @ clock_text t @ ''Z''"

definition sqlite_text :: "stamp \<Rightarrow> string" where
  "sqlite_text t = date_text t @ '' '' @ clock_text t"

text \<open>The proleptic Gregorian calendar, from the seconds since 1970.\<close>

definition stamp_of :: "int \<Rightarrow> stamp" where
  "stamp_of s = (let days = s div 86400; sec = s mod 86400;
       z = days + 719468; era = z div 146097; doe = z mod 146097;
       yoe = (doe - doe div 1460 + doe div 36524 - doe div 146096) div 365;
       doy = doe - (365 * yoe + yoe div 4 - yoe div 100);
       mp = (5 * doy + 2) div 153;
       m = (if mp < 10 then mp + 3 else mp - 9)
     in \<lparr>st_year = nat (yoe + era * 400 + (if m \<le> 2 then 1 else 0)), st_month = nat m,
         st_day = nat (doy - (153 * mp + 2) div 5 + 1), st_hour = nat (sec div 3600),
         st_minute = nat (sec mod 3600 div 60), st_second = nat (sec mod 60)\<rparr>)"

text \<open>The relative times of \<open>_parse_run_at\<close>: \<open>+90\<close>, \<open>+15m\<close>, \<open>+2h\<close>, \<open>+1d\<close>.\<close>

definition offset_seconds :: "string \<Rightarrow> int res" where
  "offset_seconds s =
     (if endswith s ''d'' then bind_res (int_of_str (butlast s)) (\<lambda>n. Inr (n * 86400))
      else if endswith s ''h'' then bind_res (int_of_str (butlast s)) (\<lambda>n. Inr (n * 3600))
      else if endswith s ''m'' then bind_res (int_of_str (butlast s)) (\<lambda>n. Inr (n * 60))
      else int_of_str s)"

definition parse_run_at_offset :: "int \<Rightarrow> string \<Rightarrow> string res option" where
  "parse_run_at_offset now s = (let t = strip s in
     if s = [] then Some (Inr (iso_z (stamp_of now)))
     else if startswith t ''+''
     then Some (bind_res (offset_seconds (tl t)) (\<lambda>n. Inr (iso_z (stamp_of (now + n)))))
     else None)"

section \<open>Lemmas\<close>

lemma char_of_less: "n < 256 \<Longrightarrow> m < 256 \<Longrightarrow> (char_of (n::nat) < char_of m) = (n < m)"
  by (simp add: less_char_def)

lemma char_of_eq_digit: "n < 256 \<Longrightarrow> m < 256 \<Longrightarrow> (char_of (n::nat) = char_of m) = (n = m)"
  by (metis of_char_of mod_less)

lemma mixed_radix_less:
  fixes a b c d n :: nat
  assumes "c < n" "d < n"
  shows "(a * n + c < b * n + d) = (a < b \<or> a = b \<and> c < d)"
    and "(a * n + c = b * n + d) = (a = b \<and> c = d)"
proof -
  have lt: "x * n + u < y * n + v" if "x < y" "u < n" for x y u v :: nat
  proof -
    have "x * n + u < (x + 1) * n" using that by simp
    also have "\<dots> \<le> y * n" using that by (intro mult_le_mono1) simp
    finally show ?thesis by simp
  qed
  show "(a * n + c < b * n + d) = (a < b \<or> a = b \<and> c < d)"
    "(a * n + c = b * n + d) = (a = b \<and> c = d)"
    using lt [of a b c d] lt [of b a d c] assms by (cases a b rule: linorder_cases; auto)+
qed

lemma pad2_le:
  assumes "a < 100" "b < 100"
  shows "(pad2 a @ s \<le> pad2 b @ t) = (a < b \<or> a = b \<and> s \<le> t)"
proof -
  let ?p = "a div 10" and ?q = "b div 10" and ?r = "a mod 10" and ?u = "b mod 10"
  have bounds: "48 + ?p < 256" "48 + ?q < 256" "48 + ?r < 256" "48 + ?u < 256"
    using assms by linarith+
  have ten: "?r < 10" "?u < 10" by simp_all
  have "(pad2 a @ s \<le> pad2 b @ t) = (?p < ?q \<or> ?p = ?q \<and> (?r < ?u \<or> ?r = ?u \<and> s \<le> t))"
    unfolding pad2_def append_Cons append_Nil Cons_le_Cons
      char_of_less [OF bounds(1,2)] char_of_less [OF bounds(3,4)]
      char_of_eq_digit [OF bounds(1,2)] char_of_eq_digit [OF bounds(3,4)] add_less_cancel_left
      add_left_cancel ..
  also have "\<dots> = (?p * 10 + ?r < ?q * 10 + ?u \<or> ?p * 10 + ?r = ?q * 10 + ?u \<and> s \<le> t)"
    unfolding mixed_radix_less [OF ten] by blast
  also have "\<dots> = (a < b \<or> a = b \<and> s \<le> t)" unfolding div_mult_mod_eq ..
  finally show ?thesis .
qed

lemma pad4_le:
  assumes "a < 10000" "b < 10000"
  shows "(pad4 a @ s \<le> pad4 b @ t) = (a < b \<or> a = b \<and> s \<le> t)"
proof -
  let ?p = "a div 100" and ?q = "b div 100" and ?r = "a mod 100" and ?u = "b mod 100"
  have bounds: "?p < 100" "?q < 100" and hundred: "?r < 100" "?u < 100"
    using assms by (simp_all add: less_mult_imp_div_less)
  have "(pad4 a @ s \<le> pad4 b @ t) = (?p < ?q \<or> ?p = ?q \<and> (?r < ?u \<or> ?r = ?u \<and> s \<le> t))"
    by (simp add: pad4_def pad2_le [OF bounds] pad2_le [OF hundred])
  also have "\<dots> = (?p * 100 + ?r < ?q * 100 + ?u \<or> ?p * 100 + ?r = ?q * 100 + ?u \<and> s \<le> t)"
    unfolding mixed_radix_less [OF hundred] by blast
  also have "\<dots> = (a < b \<or> a = b \<and> s \<le> t)" unfolding div_mult_mod_eq ..
  finally show ?thesis .
qed

definition stamp_ok :: "stamp \<Rightarrow> bool" where
  "stamp_ok t \<longleftrightarrow> st_year t < 10000 \<and> 0 < st_month t \<and> st_month t \<le> 12 \<and> 0 < st_day t \<and>
     st_day t \<le> 31 \<and> st_hour t < 24 \<and> st_minute t < 60 \<and> st_second t < 60"

text \<open>Days and times of day as numbers in the order of the calendar and the clock.\<close>

definition date_num :: "stamp \<Rightarrow> nat" where
  "date_num t = (st_year t * 100 + st_month t) * 100 + st_day t"

definition clock_num :: "stamp \<Rightarrow> nat" where
  "clock_num t = (st_hour t * 60 + st_minute t) * 60 + st_second t"

lemma date_num_less:
  assumes "stamp_ok a" "stamp_ok b"
  shows "(date_num a < date_num b) = (st_year a < st_year b \<or> st_year a = st_year b \<and>
      (st_month a < st_month b \<or> st_month a = st_month b \<and> st_day a < st_day b))"
    and "(date_num a = date_num b) = (st_year a = st_year b \<and> st_month a = st_month b \<and> st_day a = st_day b)"
proof -
  have b: "st_month a < 100" "st_month b < 100" "st_day a < 100" "st_day b < 100"
    using assms by (auto simp: stamp_ok_def)
  show "(date_num a < date_num b) = (st_year a < st_year b \<or> st_year a = st_year b \<and>
      (st_month a < st_month b \<or> st_month a = st_month b \<and> st_day a < st_day b))"
    "(date_num a = date_num b) = (st_year a = st_year b \<and> st_month a = st_month b \<and> st_day a = st_day b)"
    unfolding date_num_def mixed_radix_less [OF b(3,4)] mixed_radix_less [OF b(1,2)] by blast+
qed

lemma clock_num_less:
  assumes "stamp_ok a" "stamp_ok b"
  shows "(clock_num a < clock_num b) = (st_hour a < st_hour b \<or> st_hour a = st_hour b \<and>
      (st_minute a < st_minute b \<or> st_minute a = st_minute b \<and> st_second a < st_second b))"
    and "(clock_num a = clock_num b) = (st_hour a = st_hour b \<and> st_minute a = st_minute b \<and> st_second a = st_second b)"
proof -
  have b: "st_minute a < 60" "st_minute b < 60" "st_second a < 60" "st_second b < 60"
    using assms by (auto simp: stamp_ok_def)
  show "(clock_num a < clock_num b) = (st_hour a < st_hour b \<or> st_hour a = st_hour b \<and>
      (st_minute a < st_minute b \<or> st_minute a = st_minute b \<and> st_second a < st_second b))"
    "(clock_num a = clock_num b) = (st_hour a = st_hour b \<and> st_minute a = st_minute b \<and> st_second a = st_second b)"
    unfolding clock_num_def mixed_radix_less [OF b(3,4)] mixed_radix_less [OF b(1,2)] by blast+
qed

lemma date_text_le:
  assumes "stamp_ok a" "stamp_ok b"
  shows "(date_text a @ s \<le> date_text b @ t) = (date_num a < date_num b \<or> date_num a = date_num b \<and> s \<le> t)"
proof -
  have b: "st_year a < 10000" "st_year b < 10000" "st_month a < 100" "st_month b < 100"
    "st_day a < 100" "st_day b < 100"
    using assms by (auto simp: stamp_ok_def)
  show ?thesis unfolding date_num_less [OF assms]
    by (simp add: date_text_def pad4_le [OF b(1,2)] pad2_le [OF b(3,4)] pad2_le [OF b(5,6)]) blast
qed

lemma clock_text_le:
  assumes "stamp_ok a" "stamp_ok b"
  shows "(clock_text a \<le> clock_text b) = (clock_num a \<le> clock_num b)"
proof -
  have b: "st_hour a < 100" "st_hour b < 100" "st_minute a < 100" "st_minute b < 100"
    "st_second a < 100" "st_second b < 100"
    using assms by (auto simp: stamp_ok_def)
  have "(clock_text a \<le> clock_text b) = (clock_num a < clock_num b \<or> clock_num a = clock_num b)"
    unfolding clock_num_less [OF assms]
    using pad2_le [OF b(5,6), of "[]" "[]"]
    by (simp add: clock_text_def pad2_le [OF b(1,2)] pad2_le [OF b(3,4)]) blast
  then show ?thesis by linarith
qed

text \<open>Between texts of SQLite's format the order is the order of time; between a text of the
  \<open>T...Z\<close> format and one of SQLite's it is the order of the days only, since \<open>T\<close> comes after the
  space.\<close>

lemma sqlite_text_le:
  "stamp_ok a \<Longrightarrow> stamp_ok b \<Longrightarrow> (sqlite_text a \<le> sqlite_text b) =
     (date_num a < date_num b \<or> date_num a = date_num b \<and> clock_num a \<le> clock_num b)"
  by (simp add: sqlite_text_def date_text_le clock_text_le)

lemma iso_z_le:
  "stamp_ok a \<Longrightarrow> stamp_ok b \<Longrightarrow> (iso_z a \<le> sqlite_text b) = (date_num a < date_num b)"
  by (simp add: sqlite_text_def iso_z_def date_text_le less_char_def)

section \<open>Due signals\<close>

lemma signal_of_simps [simp]:
  "s_id (signal_of (i, r)) = i" "s_run_at (signal_of (i, r)) = srow_run_at r"
  "s_status (signal_of (i, r)) = srow_status r" "s_repeat (signal_of (i, r)) = srow_repeat r"
  by (simp_all add: signal_of_def)

lemma due_signals_ids:
  "tbl_ok t \<Longrightarrow> i \<in> s_id ` set (due_signals now t) \<longleftrightarrow> (\<exists>r. tbl_get t i = Some r \<and> signal_due now r)"
  using set_tbl_select [of t _ _ "\<lambda>i r. signal_due now r"]
  by (force simp: due_signals_def image_iff)

text \<open>The due signals are exactly the pending ones whose time is not after \<open>now\<close> (as texts),
  in the order of their times.\<close>

theorem due_signals_exact:
  assumes "tbl_ok t"
  shows "sorted (map s_run_at (due_signals now t)) \<and> distinct (map s_id (due_signals now t)) \<and>
    (\<forall>i. i \<in> s_id ` set (due_signals now t) \<longleftrightarrow>
       (\<exists>s. get_signal t i = Some s \<and> s_status s = ''pending'' \<and> s_run_at s \<le> now))"
proof -
  let ?sel = "sort_key (\<lambda>ir. srow_run_at (snd ir)) (tbl_select (\<lambda>i r. signal_due now r) t)"
  have "map s_run_at (due_signals now t) = map (\<lambda>ir. srow_run_at (snd ir)) ?sel"
    by (simp add: due_signals_def signal_of_def)
  then have "sorted (map s_run_at (due_signals now t))" by simp
  moreover have "map s_id (due_signals now t) = map fst ?sel"
    by (simp add: due_signals_def signal_of_def)
  moreover have "distinct (map fst ?sel)"
    using distinct_tbl_select [OF assms, of "\<lambda>i r. signal_due now r"] by (simp add: distinct_map)
  ultimately show ?thesis
    using due_signals_ids [OF assms] by (auto simp: get_signal_def signal_due_def)
qed

text \<open>A signal whose time \<open>tools/schedule.py\<close> wrote (\<open>YYYY-MM-DDTHH:MM:SSZ\<close>) is due on a
  later calendar day only: the comparison with SQLite's \<open>datetime('now')\<close> ignores the time of
  day, so a reminder for this afternoon is not delivered this afternoon.\<close>

theorem scheduled_signal_due_next_day:
  assumes "tbl_ok t" "get_signal t i = Some s" "s_status s = ''pending''"
    and "s_run_at s = iso_z at" "stamp_ok at" "stamp_ok now"
  shows "i \<in> s_id ` set (due_signals (sqlite_text now) t) \<longleftrightarrow> date_num at < date_num now"
proof -
  obtain r where r: "tbl_get t i = Some r" "s = signal_of (i, r)"
    using assms(2) by (auto simp: get_signal_def)
  with assms(3,4) show ?thesis
    using iso_z_le [OF assms(5,6)] by (simp add: due_signals_ids [OF assms(1)] signal_due_def)
qed

text \<open>Acknowledging a one-shot signal retires it for good: it is \<open>done\<close> and never due again.
  Acknowledging a repeating signal leaves it pending at the shifted time, due exactly when that
  time has come. Other signals are untouched.\<close>

theorem ack_signal_effect:
  assumes "tbl_ok t" "get_signal t i = Some s" "ack_signal shift i t = (Inr u, t')"
  shows "(s_repeat s \<le> 0 \<longrightarrow> (\<exists>s'. get_signal t' i = Some s' \<and> s_status s' = ''done'') \<and>
       (\<forall>now. i \<notin> s_id ` set (due_signals now t')))
    \<and> (s_repeat s > 0 \<longrightarrow> (\<exists>ra s'. shift (s_run_at s) (s_repeat s) = Some ra \<and>
       get_signal t' i = Some s' \<and> s_run_at s' = ra \<and> s_status s' = s_status s \<and>
       (s_status s = ''pending'' \<longrightarrow> (\<forall>now. i \<in> s_id ` set (due_signals now t') \<longleftrightarrow> ra \<le> now))))
    \<and> (\<forall>j. j \<noteq> i \<longrightarrow> get_signal t' j = get_signal t j)"
proof -
  obtain r where r: "tbl_get t i = Some r" "s = signal_of (i, r)"
    using assms(2) by (auto simp: get_signal_def)
  show ?thesis
  proof (cases "s_repeat s > 0")
    case True
    then obtain ra where ra: "shift (srow_run_at r) (srow_repeat r) = Some ra"
      and t': "t' = tbl_update i (\<lambda>r. r\<lparr>srow_run_at := ra\<rparr>) t"
      using assms(3) by (auto simp: ack_signal_def r split: option.splits)
    have get: "tbl_get t' i = Some (r\<lparr>srow_run_at := ra\<rparr>)" by (simp add: t' tb.get_upd r)
    have ok: "tbl_ok t'" using assms(1) by (simp add: t')
    have "i \<in> s_id ` set (due_signals now t') \<longleftrightarrow> ra \<le> now" if "s_status s = ''pending''" for now
      using that by (simp add: due_signals_ids [OF ok] get signal_due_def r(2))
    moreover have "get_signal t' j = get_signal t j" if "j \<noteq> i" for j
      using that by (simp add: get_signal_def t' tb.get_upd)
    ultimately show ?thesis using True ra get by (simp add: get_signal_def r(2))
  next
    case False
    then have t': "t' = tbl_update i (\<lambda>r. r\<lparr>srow_status := ''done''\<rparr>) t"
      using assms(3) by (simp add: ack_signal_def r)
    have get: "tbl_get t' i = Some (r\<lparr>srow_status := ''done''\<rparr>)" by (simp add: t' tb.get_upd r)
    have ok: "tbl_ok t'" using assms(1) by (simp add: t')
    have "i \<notin> s_id ` set (due_signals now t')" for now
      by (simp add: due_signals_ids [OF ok] get signal_due_def)
    moreover have "get_signal t' j = get_signal t j" if "j \<noteq> i" for j
      using that by (simp add: get_signal_def t' tb.get_upd)
    ultimately show ?thesis using False get by (simp add: get_signal_def)
  qed
qed

section \<open>Instances\<close>

definition demo_stamp :: "nat \<Rightarrow> stamp" where
  "demo_stamp h = \<lparr>st_year = 2024, st_month = 5, st_day = 17, st_hour = h, st_minute = 30, st_second = 0\<rparr>"

definition demo_signals :: signals where
  "demo_signals = snd (add_signal ''water the plants'' (iso_z (demo_stamp 9)) 0 []
     (snd (add_signal ''stand up'' (sqlite_text (demo_stamp 8)) 3600 [] empty_tbl)))"

lemma demo_signals_ok [simp]: "tbl_ok demo_signals"
  by (simp add: demo_signals_def add_signal_def tb.ok_ins)

lemma demo_signals_get:
  "get_signal demo_signals 2 = Some \<lparr>s_id = 2, s_title = ''water the plants'',
     s_run_at = iso_z (demo_stamp 9), s_repeat = 0, s_status = ''pending'', s_payload = PDict []\<rparr>"
  "get_signal demo_signals 1 = Some \<lparr>s_id = 1, s_title = ''stand up'',
     s_run_at = sqlite_text (demo_stamp 8), s_repeat = 3600, s_status = ''pending'', s_payload = PDict []\<rparr>"
  by (simp_all add: demo_signals_def add_signal_def get_signal_def tbl_insert_def empty_tbl_def
      tbl_get_def signal_of_def compact_runtime_mapping_small dict_ok_def runtime_collection_max_items_def)

lemma demo_stamp_ok: "h < 24 \<Longrightarrow> stamp_ok (demo_stamp h)"
  by (simp add: stamp_ok_def demo_stamp_def)

theorem due_signals_exact_witness:
  "1 \<in> s_id ` set (due_signals (sqlite_text (demo_stamp 8)) demo_signals)"
  using due_signals_exact [OF demo_signals_ok, of "sqlite_text (demo_stamp 8)"] demo_signals_get(2)
  by simp

theorem scheduled_signal_due_next_day_witness:
  "2 \<notin> s_id ` set (due_signals (sqlite_text (demo_stamp 23)) demo_signals)"
  using scheduled_signal_due_next_day [OF demo_signals_ok demo_signals_get(1), of "demo_stamp 9" "demo_stamp 23"]
  by (simp add: demo_stamp_ok) (simp add: demo_stamp_def date_num_def)

theorem ack_signal_effect_witness:
  "\<exists>s'. get_signal (snd (ack_signal (\<lambda>ra n. Some (sqlite_text (demo_stamp 9))) 1 demo_signals)) 1 = Some s'
     \<and> s_run_at s' = sqlite_text (demo_stamp 9)"
proof -
  let ?a = "ack_signal (\<lambda>ra n. Some (sqlite_text (demo_stamp 9))) 1 demo_signals"
  obtain r where "tbl_get demo_signals 1 = Some r" using demo_signals_get(2) by (auto simp: get_signal_def)
  then have "fst ?a = Inr ()" by (simp add: ack_signal_def)
  then have "?a = (Inr (), snd ?a)" by (simp add: prod_eq_iff)
  from ack_signal_effect [OF demo_signals_ok demo_signals_get(2) this] show ?thesis by auto
qed

end
