(* ===== verification/Chat_Store.thy ===== *)
theory Chat_Store
  imports Table Compact
begin

text \<open>
  \<open>store/task/chat.py\<close>, the chat part of \<open>store/task/ingress.py\<close> and the recovery of
  \<open>TaskStore.open\<close>: messages between the channels and the loop. A user message goes
  \<open>pending\<close> \<open>\<rightarrow>\<close> \<open>processing\<close> \<open>\<rightarrow>\<close> \<open>processed\<close>; \<open>release\<close> and a restart take it back. \<open>pop\<close> and
  \<open>drain\<close> select and update in two statements outside the write lock, so each is modelled in two
  steps between which another connection can act.
\<close>

section \<open>Cleaning a text\<close>

definition esc :: char where
  "esc = char_of (27::nat)"

definition nl :: char where
  "nl = char_of (10::nat)"

definition cr :: char where
  "cr = char_of (13::nat)"

definition in_range :: "nat \<Rightarrow> nat \<Rightarrow> char \<Rightarrow> bool" where
  "in_range a b c \<longleftrightarrow> a \<le> of_char c \<and> of_char c \<le> b"

text \<open>One match of the escape-sequence pattern after the \<open>ESC\<close>: \<open>[\<close>, parameters \<open>0-?\<close>,
  intermediates (space to \<open>/\<close>), one final character \<open>@-~\<close>. The three classes are disjoint, so
  the greedy match is the only one.\<close>

definition ansi_rest :: "string \<Rightarrow> string option" where
  "ansi_rest s = (case s of [] \<Rightarrow> None | c # cs \<Rightarrow>
     if c \<noteq> CHR ''['' then None
     else (case dropWhile (in_range 32 47) (dropWhile (in_range 48 63) cs) of
             [] \<Rightarrow> None
           | f # rest \<Rightarrow> if in_range 64 126 f then Some rest else None))"

lemma ansi_rest_shorter: "ansi_rest s = Some r \<Longrightarrow> length r < length s"
  using length_dropWhile_le [of "in_range 32 47" "dropWhile (in_range 48 63) (tl s)"]
    length_dropWhile_le [of "in_range 48 63" "tl s"]
  by (auto simp: ansi_rest_def split: list.splits if_splits)

function (sequential) strip_ansi :: "string \<Rightarrow> string" where
  "strip_ansi [] = []"
| "strip_ansi (c # cs) = (if c = esc
     then (case ansi_rest cs of None \<Rightarrow> c # strip_ansi cs | Some r \<Rightarrow> strip_ansi r)
     else c # strip_ansi cs)"
  by pat_completeness auto
termination by (relation "measure length") (auto dest: ansi_rest_shorter)

fun unify_newlines :: "string \<Rightarrow> string" where
  "unify_newlines [] = []"
| "unify_newlines [c] = [if c = cr then nl else c]"
| "unify_newlines (c # d # cs) =
     (if c = cr then (if d = nl then nl # unify_newlines cs else nl # unify_newlines (d # cs))
      else c # unify_newlines (d # cs))"

definition chat_char_ok :: "char \<Rightarrow> bool" where
  "chat_char_ok c \<longleftrightarrow> 32 \<le> (of_char c :: nat) \<or> c = nl \<or> c = char_of (9::nat)"

text \<open>The zero-width characters and the CJK ranges of the source lie outside Latin-1.\<close>

definition sanitize_chat_content :: "string \<Rightarrow> string" where
  "sanitize_chat_content s = strip (filter chat_char_ok (unify_newlines (strip_ansi s)))"

definition chat_text :: "string \<Rightarrow> string" where
  "chat_text s = compact_runtime_text 32000 ''chat message'' (sanitize_chat_content s)"

section \<open>Rows\<close>

record chat_row =
  crow_role :: string
  crow_content :: string
  crow_session :: string
  crow_status :: string
  crow_created_at :: string

type_synonym chats = "chat_row tbl"

definition build_chat_message_insert ::
    "string \<Rightarrow> string \<Rightarrow> string \<Rightarrow> string \<Rightarrow> string \<Rightarrow> chat_row" where
  "build_chat_message_insert now role content chat_id status =
     \<lparr>crow_role = role, crow_content = chat_text content, crow_session = chat_id,
      crow_status = (if status = [] then ''pending'' else status), crow_created_at = now\<rparr>"

text \<open>\<open>now\<close> and \<open>cutoff\<close> are \<open>datetime('now')\<close> and \<open>datetime('now', '-30 seconds')\<close>. Of several
  equal recent messages SQLite may return any; the model takes the oldest.\<close>

definition recent_same :: "string \<Rightarrow> chat_row \<Rightarrow> chat_row \<Rightarrow> bool" where
  "recent_same cutoff m r \<longleftrightarrow> crow_role r = ''assistant'' \<and> crow_session r = crow_session m \<and>
     crow_content r = crow_content m \<and> cutoff \<le> crow_created_at r"

definition add_message :: "string \<Rightarrow> string \<Rightarrow> string \<Rightarrow> string \<Rightarrow> string \<Rightarrow> chats \<Rightarrow> int \<times> chats" where
  "add_message now cutoff role content chat_id t =
    (let m = build_chat_message_insert now role content chat_id ''pending'' in
     if role = ''assistant'' \<and> chat_id \<noteq> [] \<and> crow_content m \<noteq> []
     then (case tbl_select (\<lambda>i r. recent_same cutoff m r) t of
             (i, r) # _ \<Rightarrow> (i, t)
           | [] \<Rightarrow> tbl_insert m t)
     else tbl_insert m t)"

section \<open>Taking messages\<close>

definition user_pending :: "chat_row \<Rightarrow> bool" where
  "user_pending r \<longleftrightarrow> crow_role r = ''user'' \<and> crow_status r = ''pending''"

definition has_pending_message :: "chats \<Rightarrow> bool" where
  "has_pending_message t \<longleftrightarrow> tbl_select (\<lambda>i r. user_pending r) t \<noteq> []"

definition pop_select :: "chats \<Rightarrow> (int \<times> chat_row) option" where
  "pop_select t = (case tbl_select (\<lambda>i r. user_pending r) t of [] \<Rightarrow> None | x # _ \<Rightarrow> Some x)"

definition claim :: "int list \<Rightarrow> chats \<Rightarrow> nat \<times> chats" where
  "claim ids t =
     (tbl_count_where (\<lambda>i r. crow_status r = ''pending'' \<and> i \<in> set ids) t,
      tbl_update_where (\<lambda>i r. crow_status r = ''pending'' \<and> i \<in> set ids)
        (\<lambda>r. r\<lparr>crow_status := ''processing''\<rparr>) t)"

definition pop_claim ::
    "(int \<times> chat_row) option \<Rightarrow> chats \<Rightarrow> (int \<times> string \<times> string) option \<times> chats" where
  "pop_claim sel t = (case sel of None \<Rightarrow> (None, t)
     | Some (i, r) \<Rightarrow> (let (n, t') = claim [i] t in
         if n = 0 then (None, t) else (Some (i, crow_content r, crow_session r), t')))"

definition pop_pending_message :: "chats \<Rightarrow> (int \<times> string \<times> string) option \<times> chats" where
  "pop_pending_message t = pop_claim (pop_select t) t"

definition drain_select :: "string \<Rightarrow> int \<Rightarrow> chats \<Rightarrow> (int \<times> chat_row) list" where
  "drain_select chat_id after t =
     tbl_select (\<lambda>i r. user_pending r \<and> crow_session r = chat_id \<and> i > after) t"

definition drain_claim :: "(int \<times> chat_row) list \<Rightarrow> chats \<Rightarrow> (int \<times> string) list \<times> chats" where
  "drain_claim sel t = (if sel = [] then ([], t)
     else (let (n, t') = claim (map fst sel) t in
        if n = 0 then ([], t) else (map (\<lambda>(i, r). (i, crow_content r)) sel, t')))"

definition drain_pending_for_chat :: "string \<Rightarrow> int \<Rightarrow> chats \<Rightarrow> (int \<times> string) list \<times> chats" where
  "drain_pending_for_chat chat_id after t = drain_claim (drain_select chat_id after t) t"

definition from_processing :: "string \<Rightarrow> int list \<Rightarrow> chats \<Rightarrow> chats" where
  "from_processing st ids t = (let is = filter (\<lambda>i. 0 < i) ids in
     if is = [] then t
     else tbl_update_where (\<lambda>i r. crow_status r = ''processing'' \<and> i \<in> set is)
            (\<lambda>r. r\<lparr>crow_status := st\<rparr>) t)"

definition mark_messages_processed :: "int list \<Rightarrow> chats \<Rightarrow> chats" where
  "mark_messages_processed ids t = from_processing ''processed'' ids t"

definition release_messages :: "int list \<Rightarrow> chats \<Rightarrow> chats" where
  "release_messages ids t = from_processing ''pending'' ids t"

text \<open>The \<open>UPDATE\<close> of \<open>TaskStore.open\<close>, and the two writes of the ingress.\<close>

definition recover_processing :: "chats \<Rightarrow> chats" where
  "recover_processing t = tbl_update_where (\<lambda>i r. crow_role r = ''user'' \<and> crow_status r = ''processing'')
     (\<lambda>r. r\<lparr>crow_status := ''pending''\<rparr>) t"

definition ingest_message :: "string \<Rightarrow> string \<Rightarrow> string \<Rightarrow> string \<Rightarrow> string \<Rightarrow> chats \<Rightarrow> int \<times> chats" where
  "ingest_message now role content chat_id status t =
     tbl_insert (build_chat_message_insert now role content chat_id status) t"

definition mark_chat_message_delivered :: "int \<Rightarrow> chats \<Rightarrow> chats" where
  "mark_chat_message_delivered i t = tbl_update i (\<lambda>r. r\<lparr>crow_status := ''delivered''\<rparr>) t"

section \<open>Reading\<close>

record chat_message =
  msg_id :: int
  msg_role :: string
  msg_content :: string
  msg_created_at :: string

definition message_of :: "int \<times> chat_row \<Rightarrow> chat_message" where
  "message_of ir = \<lparr>msg_id = fst ir, msg_role = crow_role (snd ir), msg_content = crow_content (snd ir),
     msg_created_at = crow_created_at (snd ir)\<rparr>"

definition get_messages_since :: "int \<Rightarrow> string \<Rightarrow> chats \<Rightarrow> chat_message list" where
  "get_messages_since since chat_id t = map message_of
     (tbl_select (\<lambda>i r. i > since \<and> (chat_id = [] \<or> crow_session r = chat_id)) t)"

definition get_recent_messages :: "int \<Rightarrow> string \<Rightarrow> chats \<Rightarrow> chat_message list" where
  "get_recent_messages limit chat_id t = map message_of (rev (sql_limit limit (rev
     (tbl_select (\<lambda>i r. chat_id = [] \<or> crow_session r = chat_id) t))))"

definition list_pending_assistant_messages :: "string \<Rightarrow> int \<Rightarrow> chats \<Rightarrow> (int \<times> chat_row) list" where
  "list_pending_assistant_messages chat_prefix limit t = sql_limit limit
     (tbl_select (\<lambda>i r. crow_role r = ''assistant'' \<and>
        (chat_prefix = [] \<or> sql_like (chat_prefix @ ''%'') (crow_session r)) \<and>
        crow_status r \<in> {''pending'', ''processed''}) t)"

section \<open>Cleaned texts\<close>

lemma set_strip: "set (strip s) \<subseteq> set s"
  by (auto simp: strip_def lstrip_def dest!: set_dropWhileD)

lemma strip_ansi_id: "esc \<notin> set s \<Longrightarrow> strip_ansi s = s"
  by (induction s) auto

lemma unify_newlines_id: "cr \<notin> set s \<Longrightarrow> unify_newlines s = s"
  by (induction s rule: unify_newlines.induct) auto

lemma set_sanitize: "c \<in> set (sanitize_chat_content s) \<Longrightarrow> chat_char_ok c"
  using set_strip by (fastforce simp: sanitize_chat_content_def)

lemma cr_esc_not_ok [simp]: "\<not> chat_char_ok cr" "\<not> chat_char_ok esc"
  by (simp_all add: chat_char_ok_def cr_def esc_def nl_def)

text \<open>A cleaned chat text has no control character other than newline and tab, no space at
  its ends, and cleaning it again changes nothing.\<close>

theorem sanitize_chat_content_clean:
  "(\<forall>c \<in> set (sanitize_chat_content s). 32 \<le> (of_char c :: nat) \<or> of_char c \<in> {9, 10 :: nat}) \<and>
   strip (sanitize_chat_content s) = sanitize_chat_content s \<and>
   sanitize_chat_content (sanitize_chat_content s) = sanitize_chat_content s"
proof -
  let ?u = "sanitize_chat_content s"
  have ok: "\<forall>c \<in> set ?u. chat_char_ok c" using set_sanitize by blast
  then have "strip_ansi ?u = ?u" "unify_newlines ?u = ?u" "filter chat_char_ok ?u = ?u"
    using cr_esc_not_ok by (auto intro!: strip_ansi_id unify_newlines_id)
  moreover have st: "strip ?u = ?u" by (simp add: sanitize_chat_content_def)
  ultimately have "sanitize_chat_content ?u = ?u"
    by (simp add: sanitize_chat_content_def [of "sanitize_chat_content s"])
  with st ok show ?thesis by (auto simp: chat_char_ok_def nl_def)
qed

theorem sanitize_chat_content_clean_witness:
  "strip (sanitize_chat_content [esc, CHR ''['', CHR ''m'', cr, CHR ''a'']) =
   sanitize_chat_content [esc, CHR ''['', CHR ''m'', cr, CHR ''a'']"
  using sanitize_chat_content_clean [of "[esc, CHR ''['', CHR ''m'', cr, CHR ''a'']"] by blast

section \<open>Taking a message\<close>

lemma user_pending_status [simp]: "user_pending r \<Longrightarrow> crow_status r = ''pending''"
  by (simp add: user_pending_def)

lemma tbl_ok_claim [simp]: "tbl_ok t \<Longrightarrow> tbl_ok (snd (claim ids t))"
  by (simp add: claim_def)

lemma tbl_get_claim:
  "tbl_get (snd (claim ids t)) i = map_option (\<lambda>r. if crow_status r = ''pending'' \<and> i \<in> set ids
     then r\<lparr>crow_status := ''processing''\<rparr> else r) (tbl_get t i)"
  by (simp add: claim_def tbl_get_update_where)

lemma tbl_count_where_0:
  "tbl_ok t \<Longrightarrow> tbl_count_where P t = 0 \<longleftrightarrow> (\<forall>i r. tbl_get t i = Some r \<longrightarrow> \<not> P i r)"
  using set_tbl_select [of t _ _ P] by (fastforce simp: tbl_count_where_def tbl_select_eq filter_empty_conv)

lemma claim_none:
  "tbl_ok t \<Longrightarrow> fst (claim ids t) = 0 \<longleftrightarrow>
     (\<forall>i \<in> set ids. \<forall>r. tbl_get t i = Some r \<longrightarrow> crow_status r \<noteq> ''pending'')"
  by (auto simp: claim_def tbl_count_where_0)

lemma pop_select_Some:
  assumes "tbl_ok t" "pop_select t = Some (i, r)"
  shows "tbl_get t i = Some r" "user_pending r"
    "\<And>j r'. tbl_get t j = Some r' \<Longrightarrow> user_pending r' \<Longrightarrow> i \<le> j"
proof -
  obtain xs where sel: "tbl_select (\<lambda>i r. user_pending r) t = (i, r) # xs"
    using assms(2) by (auto simp: pop_select_def split: list.splits)
  have mem: "(j, r') \<in> set ((i, r) # xs) \<longleftrightarrow> tbl_get t j = Some r' \<and> user_pending r'" for j r'
    using set_tbl_select [OF assms(1), of j r' "\<lambda>i r. user_pending r"] by (simp only: sel)
  show "tbl_get t i = Some r" "user_pending r" using mem [of i r] by simp_all
  show "i \<le> j" if "tbl_get t j = Some r'" "user_pending r'" for j r'
  proof -
    have "(j, r') \<in> set ((i, r) # xs)" using mem [of j r'] that by blast
    moreover have "sorted (map fst ((i, r) # xs))"
      using sorted_tbl_select [of "\<lambda>i r. user_pending r" t] by (simp only: sel)
    ultimately show ?thesis by auto
  qed
qed

text \<open>\<open>pop\<close> hands out the oldest pending user message and marks exactly that one as being
  processed; it returns nothing exactly when no user message is pending, and then changes
  nothing.\<close>

theorem pop_pending_message_effect:
  assumes "tbl_ok t" "pop_pending_message t = (m, t')"
  shows "(m = None \<longleftrightarrow> \<not> has_pending_message t) \<and> (m = None \<longrightarrow> t' = t) \<and>
    (\<forall>i c s. m = Some (i, c, s) \<longrightarrow> (\<exists>r. tbl_get t i = Some r \<and> user_pending r \<and>
       c = crow_content r \<and> s = crow_session r \<and>
       (\<forall>j r'. tbl_get t j = Some r' \<and> user_pending r' \<longrightarrow> i \<le> j) \<and>
       tbl_get t' i = Some (r\<lparr>crow_status := ''processing''\<rparr>) \<and>
       (\<forall>j. j \<noteq> i \<longrightarrow> tbl_get t' j = tbl_get t j)))"
proof (cases "pop_select t")
  case None
  then show ?thesis using assms(2)
    by (auto simp: pop_pending_message_def pop_claim_def pop_select_def has_pending_message_def
        split: list.splits)
next
  case (Some ir)
  obtain i r where ir: "ir = (i, r)" by fastforce
  note sel = pop_select_Some [OF assms(1) Some [unfolded ir]]
  have pos: "fst (claim [i] t) \<noteq> 0" using sel(1,2) claim_none [OF assms(1), of "[i]"] by auto
  have m: "m = Some (i, crow_content r, crow_session r)" "t' = snd (claim [i] t)"
    using assms(2) pos
    by (auto simp: pop_pending_message_def pop_claim_def Some ir split: prod.splits)
  have "tbl_get t' i = Some (r\<lparr>crow_status := ''processing''\<rparr>)"
    "\<forall>j. j \<noteq> i \<longrightarrow> tbl_get t' j = tbl_get t j"
    using sel(1,2) by (simp_all add: m tbl_get_claim option.map_ident)
  moreover have "has_pending_message t"
    using Some by (simp add: has_pending_message_def pop_select_def split: list.splits)
  ultimately show ?thesis using m(1) sel by auto
qed

section \<open>Races\<close>

text \<open>Steps of anybody that can run between the two statements of a \<open>pop\<close> or a \<open>drain\<close>.\<close>

inductive chat_step :: "chats \<Rightarrow> chats \<Rightarrow> bool" where
  chat_add: "chat_step t (snd (add_message now cutoff role content chat t))"
| chat_ingest: "chat_step t (snd (ingest_message now role content chat st t))"
| chat_pop: "chat_step t (snd (pop_claim sel t))"
| chat_drain: "chat_step t (snd (drain_claim rs t))"
| chat_processed: "chat_step t (mark_messages_processed ids t)"
| chat_release: "chat_step t (release_messages ids t)"
| chat_recover: "chat_step t (recover_processing t)"
| chat_delivered: "chat_step t (mark_chat_message_delivered i t)"

text \<open>Two workers that have selected the same message cannot both take it: once one claim has
  succeeded, the other one, with nothing in between, gets nothing and changes nothing.\<close>

theorem pop_claim_exclusive:
  assumes "tbl_ok t" "pop_claim (Some (i, r)) t = (Some m, t')"
  shows "pop_claim (Some (i, r)) t' = (None, t')"
proof -
  have t': "t' = snd (claim [i] t)"
    using assms(2) by (auto simp: pop_claim_def split: prod.splits if_splits)
  have "fst (claim [i] t') = 0"
    unfolding claim_none [OF tbl_ok_claim [OF assms(1), of "[i]", folded t']]
  proof (intro ballI allI impI)
    fix j r' assume "j \<in> set [i]" "tbl_get t' j = Some r'"
    then obtain z where "r' = (if crow_status z = ''pending'' then z\<lparr>crow_status := ''processing''\<rparr> else z)"
      by (auto simp: t' tbl_get_claim)
    then show "crow_status r' \<noteq> ''pending''" by (simp split: if_splits)
  qed
  then show ?thesis by (simp add: pop_claim_def case_prod_beta)
qed

text \<open>\<open>drain\<close> is not safe in that way: if another worker takes one of the selected messages
  before the update, and another selected message is still pending, the drain returns the taken
  message too, and both workers handle it.\<close>

theorem drain_returns_taken_message:
  assumes "tbl_ok t" "(i, r) \<in> set sel" "pop_claim (Some (i, r)) t = (Some m, t')"
    and "(j, q) \<in> set sel" "j \<noteq> i" "tbl_get t j = Some q" "crow_status q = ''pending''"
  shows "m = (i, crow_content r, crow_session r) \<and>
    (i, crow_content r) \<in> set (fst (drain_claim sel t'))"
proof -
  have t': "t' = snd (claim [i] t)" and m: "m = (i, crow_content r, crow_session r)"
    using assms(3) by (auto simp: pop_claim_def split: prod.splits if_splits)
  have "tbl_get t' j = Some q" using assms(5,6) by (simp add: t' tbl_get_claim)
  moreover have "j \<in> set (map fst sel)" using assms(4) by force
  ultimately have "fst (claim (map fst sel) t') \<noteq> 0"
    using claim_none [of t' "map fst sel"] assms(1,7) by (auto simp: t')
  then have "fst (drain_claim sel t') = map (\<lambda>(i, r). (i, crow_content r)) sel"
    using assms(2) by (auto simp: drain_claim_def split: prod.split)
  with assms(2) m show ?thesis by force
qed

text \<open>Without interference a drain returns, in order, every pending user message of the chat
  after the given id, and leaves none of them pending; other messages are untouched.\<close>

theorem drain_pending_effect:
  assumes "tbl_ok t" "drain_pending_for_chat chat after t = (ms, t')"
  shows "sorted (map fst ms) \<and>
    (\<forall>i c. (i, c) \<in> set ms \<longleftrightarrow> (\<exists>r. tbl_get t i = Some r \<and> user_pending r \<and>
       crow_session r = chat \<and> i > after \<and> c = crow_content r)) \<and>
    (\<forall>i. tbl_get t' i = map_option (\<lambda>r. if user_pending r \<and> crow_session r = chat \<and> i > after
       then r\<lparr>crow_status := ''processing''\<rparr> else r) (tbl_get t i))"
proof -
  let ?P = "\<lambda>i r. user_pending r \<and> crow_session r = chat \<and> i > after"
  let ?sel = "tbl_select ?P t"
  have mem: "(i, r) \<in> set ?sel \<longleftrightarrow> tbl_get t i = Some r \<and> ?P i r" for i r
    by (rule set_tbl_select [OF assms(1)])
  have ids: "i \<in> set (map fst ?sel) \<longleftrightarrow> (\<exists>r. tbl_get t i = Some r \<and> ?P i r)" for i
    using mem [of i] by force
  show ?thesis
  proof (cases "?sel = []")
    case True
    then have "ms = []" "t' = t" using assms(2)
      by (simp_all add: drain_pending_for_chat_def drain_claim_def drain_select_def)
    moreover have "\<not> ?P i r" if "tbl_get t i = Some r" for i r using mem [of i r] that True by simp
    ultimately show ?thesis by (auto split: option.split intro!: option.map_ident_strong [symmetric])
  next
    case False
    then obtain i r where "(i, r) \<in> set ?sel" by (metis list.set_intros(1) neq_Nil_conv surj_pair)
    then have "fst (claim (map fst ?sel) t) \<noteq> 0"
      using claim_none [OF assms(1), of "map fst ?sel"] mem [of i r] ids [of i] by auto
    then have ms: "ms = map (\<lambda>(i, r). (i, crow_content r)) ?sel" "t' = snd (claim (map fst ?sel) t)"
      using assms(2) False
      by (auto simp: drain_pending_for_chat_def drain_claim_def drain_select_def split: prod.splits)
    have "tbl_get t' i = map_option (\<lambda>r. if ?P i r then r\<lparr>crow_status := ''processing''\<rparr> else r) (tbl_get t i)" for i
      using ids [of i] by (cases "tbl_get t i") (simp_all add: ms tbl_get_claim)
    moreover have "map fst ms = map fst ?sel" by (simp add: ms case_prod_beta comp_def)
    then have "sorted (map fst ms)" using sorted_tbl_select by simp
    moreover have "(i, c) \<in> set ms \<longleftrightarrow> (\<exists>r. tbl_get t i = Some r \<and> ?P i r \<and> c = crow_content r)" for i c
      using mem by (force simp: ms)
    ultimately show ?thesis by blast
  qed
qed

section \<open>Life of a message\<close>

definition chat_kept :: "chats \<Rightarrow> chats \<Rightarrow> bool" where
  "chat_kept t t' \<longleftrightarrow> (\<forall>i r. tbl_get t i = Some r \<longrightarrow> (\<exists>r'. tbl_get t' i = Some r' \<and>
     crow_content r' = crow_content r \<and> crow_role r' = crow_role r \<and> crow_session r' = crow_session r \<and>
     (crow_status r \<in> {''processed'', ''delivered''} \<longrightarrow> crow_status r' \<in> {''processed'', ''delivered''})))"

lemma chat_kept_refl [simp]: "chat_kept t t"
  by (simp add: chat_kept_def)

lemma chat_kept_trans:
  assumes "chat_kept t u" "chat_kept u v"
  shows "chat_kept t v"
  unfolding chat_kept_def
proof (intro allI impI)
  fix i r assume r: "tbl_get t i = Some r"
  obtain r' where r': "tbl_get u i = Some r'" "crow_content r' = crow_content r"
    "crow_role r' = crow_role r" "crow_session r' = crow_session r"
    "crow_status r \<in> {''processed'', ''delivered''} \<longrightarrow> crow_status r' \<in> {''processed'', ''delivered''}"
    using assms(1) r unfolding chat_kept_def by blast
  obtain r'' where r'': "tbl_get v i = Some r''" "crow_content r'' = crow_content r'"
    "crow_role r'' = crow_role r'" "crow_session r'' = crow_session r'"
    "crow_status r' \<in> {''processed'', ''delivered''} \<longrightarrow> crow_status r'' \<in> {''processed'', ''delivered''}"
    using assms(2) r'(1) unfolding chat_kept_def by blast
  show "\<exists>r'. tbl_get v i = Some r' \<and>
     crow_content r' = crow_content r \<and> crow_role r' = crow_role r \<and> crow_session r' = crow_session r \<and>
     (crow_status r \<in> {''processed'', ''delivered''} \<longrightarrow> crow_status r' \<in> {''processed'', ''delivered''})"
    by (rule exI [of _ r'']) (simp add: r'' r'(2-4), use r'(5) r''(5) in blast)
qed

lemma chat_kept_insert: "tbl_ok t \<Longrightarrow> chat_kept t (snd (tbl_insert m t))"
  using tb.get_ins_old [of t] by (fastforce simp: chat_kept_def)

lemma chat_kept_update_where:
  "(\<And>i r. P i r \<Longrightarrow> crow_status r \<in> {''processed'', ''delivered''} \<Longrightarrow> st \<in> {''processed'', ''delivered''}) \<Longrightarrow>
   chat_kept t (tbl_update_where P (\<lambda>r. r\<lparr>crow_status := st\<rparr>) t)"
  by (auto simp: chat_kept_def tbl_get_update_where)

lemma chat_kept_claim [simp]: "chat_kept t (snd (claim ids t))"
  unfolding claim_def snd_conv by (rule chat_kept_update_where) auto

lemma add_message_cases:
  "snd (add_message now cutoff role content chat t) \<in>
     {t, snd (tbl_insert (build_chat_message_insert now role content chat ''pending'') t)}"
  by (simp add: add_message_def Let_def split: list.split prod.split)

lemma from_processing_kept:
  assumes "tbl_ok t"
  shows "tbl_ok (from_processing st ids t)" "chat_kept t (from_processing st ids t)"
proof -
  show "tbl_ok (from_processing st ids t)" using assms by (simp add: from_processing_def Let_def)
  have "chat_kept t (tbl_update_where (\<lambda>i r. crow_status r = ''processing'' \<and> i \<in> A)
      (\<lambda>r. r\<lparr>crow_status := st\<rparr>) t)" for A
    by (rule chat_kept_update_where) auto
  from this [of "set (filter (\<lambda>i. 0 < i) ids)"] show "chat_kept t (from_processing st ids t)"
    by (simp only: from_processing_def Let_def if_split chat_kept_refl) simp
qed

lemma pop_claim_cases: "snd (pop_claim sel t) = t \<or> (\<exists>ids. snd (pop_claim sel t) = snd (claim ids t))"
  by (cases sel) (auto simp: pop_claim_def case_prod_beta Let_def)

lemma drain_claim_cases: "snd (drain_claim rs t) = t \<or> (\<exists>ids. snd (drain_claim rs t) = snd (claim ids t))"
  by (auto simp: drain_claim_def case_prod_beta Let_def)

lemma chat_step_kept: "chat_step t t' \<Longrightarrow> tbl_ok t \<Longrightarrow> tbl_ok t' \<and> chat_kept t t'"
proof (induction rule: chat_step.induct)
  case (chat_add t now cutoff role content chat)
  then show ?case using add_message_cases [of now cutoff role content chat t]
    by (auto simp: chat_kept_insert tb.ok_ins)
next
  case (chat_ingest t now role content chat st)
  then show ?case by (simp add: ingest_message_def chat_kept_insert tb.ok_ins)
next
  case (chat_pop t sel)
  then show ?case
    using pop_claim_cases [of sel t] by auto
next
  case (chat_drain t rs)
  then show ?case
    using drain_claim_cases [of rs t] by auto
next
  case (chat_delivered t i)
  then show ?case by (auto simp: mark_chat_message_delivered_def chat_kept_def tb.get_upd)
next
  case (chat_recover t)
  have "chat_kept t (recover_processing t)"
    unfolding recover_processing_def by (rule chat_kept_update_where) auto
  with chat_recover show ?case by (simp add: recover_processing_def)
qed (simp_all add: mark_messages_processed_def release_messages_def from_processing_kept)


section \<open>Duplicates and recovery\<close>

text \<open>The same answer of the assistant in the same chat within the thirty seconds is stored
  once: the second call changes nothing and returns the id of a message with that text.\<close>

theorem add_message_dedup:
  assumes "tbl_ok t" "chat \<noteq> []" "chat_text content \<noteq> []" "cutoff \<le> now"
    and "add_message now cutoff0 ''assistant'' content chat t = (i, t')"
    and "i = seq t + 1"
  shows "\<exists>j r. add_message now' cutoff ''assistant'' content chat t' = (j, t') \<and>
    tbl_get t' j = Some r \<and> crow_content r = chat_text content \<and> crow_session r = chat"
proof -
  let ?m = "build_chat_message_insert now ''assistant'' content chat ''pending''"
  let ?m' = "build_chat_message_insert now' ''assistant'' content chat ''pending''"
  have none: "tbl_get t i = None" using tbl_get_above [OF assms(1)] assms(6) by simp
  have ins: "(i, t') = tbl_insert ?m t"
  proof (cases "tbl_select (\<lambda>i r. recent_same cutoff0 ?m r) t")
    case Nil
    then show ?thesis using assms(5) by (simp add: add_message_def Let_def split: if_splits)
  next
    case (Cons x xs)
    then obtain j r where x: "x = (j, r)" "(j, r) \<in> set (tbl_select (\<lambda>i r. recent_same cutoff0 ?m r) t)"
      by (cases x) auto
    then have "tbl_get t j = Some r" using set_tbl_select [OF assms(1)] by blast
    moreover have "j = i"
      using assms(2,3,5) Cons x(1) by (simp add: add_message_def Let_def build_chat_message_insert_def)
    ultimately show ?thesis using none by simp
  qed
  then have ok: "tbl_ok t'" and get: "tbl_get t' i = Some ?m"
    using tb.ok_ins [OF assms(1)] tb.get_ins_same [OF assms(1)] by (metis fst_conv snd_conv)+
  let ?sel = "tbl_select (\<lambda>i r. recent_same cutoff ?m' r) t'"
  have "(i, ?m) \<in> set ?sel"
    using get assms(4) by (simp add: set_tbl_select [OF ok] recent_same_def build_chat_message_insert_def)
  then obtain x xs where sel: "?sel = x # xs" by (cases ?sel) auto
  obtain j r where x: "x = (j, r)" by fastforce
  have "(j, r) \<in> set ?sel" by (simp only: sel x) simp
  then have "tbl_get t' j = Some r" "recent_same cutoff ?m' r" by (simp_all only: set_tbl_select [OF ok])
  moreover have "add_message now' cutoff ''assistant'' content chat t' = (j, t')"
    using assms(2,3) sel x by (simp add: add_message_def Let_def build_chat_message_insert_def)
  ultimately show ?thesis by (auto simp: recent_same_def build_chat_message_insert_def)
qed

text \<open>After a restart no user message is left in processing: what was being processed is pending
  again and so will be handed out again; everything else is as before.\<close>

theorem recover_processing_effect:
  "tbl_get (recover_processing t) i = map_option (\<lambda>r.
     if crow_role r = ''user'' \<and> crow_status r = ''processing'' then r\<lparr>crow_status := ''pending''\<rparr> else r)
     (tbl_get t i) \<and>
   (\<exists>r. tbl_get t i = Some r \<and> crow_role r = ''user'' \<and> crow_status r \<in> {''processing'', ''pending''}) =
   (\<exists>r. tbl_get (recover_processing t) i = Some r \<and> user_pending r)"
  by (cases "tbl_get t i") (auto simp: recover_processing_def tbl_get_update_where user_pending_def)

section \<open>Instances\<close>

definition demo_chats :: chats where
  "demo_chats = snd (add_message ''08:00:02'' ''07:59:32'' ''user'' ''and a map'' ''c1''
     (snd (add_message ''08:00:01'' ''07:59:31'' ''user'' ''a report, please'' ''c1'' empty_tbl)))"

lemma demo_chats_ok [simp]: "tbl_ok demo_chats"
  using add_message_cases by (auto simp: demo_chats_def add_message_def Let_def tb.ok_ins)

lemma chat_text_plain:
  assumes "list_all chat_char_ok s" "strip s = s" "length s \<le> 32000"
  shows "chat_text s = s"
proof -
  have "strip_ansi s = s" "unify_newlines s = s"
    using assms(1) cr_esc_not_ok by (auto simp: list_all_iff intro!: strip_ansi_id unify_newlines_id)
  then show ?thesis
    using assms by (simp add: chat_text_def sanitize_chat_content_def list_all_iff)
qed

lemma demo_texts:
  "chat_text ''a report, please'' = ''a report, please''" "chat_text ''and a map'' = ''and a map''"
  "chat_text ''done'' = ''done''"
  by (rule chat_text_plain; simp add: chat_char_ok_def strip_def lstrip_def is_space_def)+

lemma demo_chats_eq:
  "demo_chats = \<lparr>seq = 2, rows =
     [(1, \<lparr>crow_role = ''user'', crow_content = ''a report, please'', crow_session = ''c1'',
           crow_status = ''pending'', crow_created_at = ''08:00:01''\<rparr>),
      (2, \<lparr>crow_role = ''user'', crow_content = ''and a map'', crow_session = ''c1'',
           crow_status = ''pending'', crow_created_at = ''08:00:02''\<rparr>)]\<rparr>"
  by (simp add: demo_chats_def add_message_def Let_def build_chat_message_insert_def demo_texts
      tbl_insert_def empty_tbl_def)

lemmas chat_eval = pop_claim_def claim_def tbl_count_where_def tbl_update_where_def
  pop_pending_message_def pop_select_def tbl_select_def user_pending_def

theorem pop_pending_message_effect_witness:
  "\<exists>r. tbl_get (snd (pop_pending_message demo_chats)) 1 = Some r \<and> crow_status r = ''processing''"
proof -
  have "fst (pop_pending_message demo_chats) = Some (1, ''a report, please'', ''c1'')"
    by (simp add: chat_eval demo_chats_eq)
  then have "pop_pending_message demo_chats =
      (Some (1, ''a report, please'', ''c1''), snd (pop_pending_message demo_chats))"
    by (simp add: prod_eq_iff)
  from pop_pending_message_effect [OF demo_chats_ok this] show ?thesis by auto
qed

theorem pop_claim_exclusive_witness:
  "fst (pop_claim (pop_select demo_chats) (snd (pop_claim (pop_select demo_chats) demo_chats))) = None"
proof -
  obtain i r where sel: "pop_select demo_chats = Some (i, r)"
    by (simp add: pop_select_def tbl_select_def demo_chats_eq user_pending_def)
  have "fst (pop_claim (pop_select demo_chats) demo_chats) \<noteq> None"
    by (simp add: chat_eval demo_chats_eq)
  then obtain m where "pop_claim (Some (i, r)) demo_chats = (Some m, snd (pop_claim (Some (i, r)) demo_chats))"
    unfolding sel by (metis option.exhaust prod.exhaust_sel)
  from pop_claim_exclusive [OF demo_chats_ok this] show ?thesis by (simp add: sel)
qed

theorem drain_returns_taken_message_witness:
  "(1, ''a report, please'') \<in> set (fst (drain_claim (drain_select ''c1'' 0 demo_chats)
     (snd (pop_pending_message demo_chats))))"
proof -
  let ?r = "\<lambda>c d. \<lparr>crow_role = ''user'', crow_content = c, crow_session = ''c1'',
     crow_status = ''pending'', crow_created_at = d\<rparr>"
  have sel: "drain_select ''c1'' 0 demo_chats =
      [(1, ?r ''a report, please'' ''08:00:01''), (2, ?r ''and a map'' ''08:00:02'')]"
    by (simp add: drain_select_def tbl_select_def demo_chats_eq user_pending_def)
  have pop: "pop_claim (Some (1, ?r ''a report, please'' ''08:00:01'')) demo_chats =
      (Some (1, ''a report, please'', ''c1''), snd (pop_pending_message demo_chats))"
    by (simp add: chat_eval demo_chats_eq)
  have "tbl_get demo_chats 2 = Some (?r ''and a map'' ''08:00:02'')"
    by (simp add: demo_chats_eq tbl_get_def)
  from drain_returns_taken_message [OF demo_chats_ok _ pop _ _ this, of "drain_select ''c1'' 0 demo_chats"]
  show ?thesis by (simp add: sel)
qed

theorem drain_pending_effect_witness:
  "map fst (fst (drain_pending_for_chat ''c1'' 1 demo_chats)) = [2] \<and>
   sorted (map fst (fst (drain_pending_for_chat ''c1'' 1 demo_chats)))"
proof -
  have "map fst (fst (drain_pending_for_chat ''c1'' 1 demo_chats)) = [2]"
    by (simp add: drain_pending_for_chat_def drain_claim_def drain_select_def chat_eval demo_chats_eq)
  moreover have "sorted (map fst (fst (drain_pending_for_chat ''c1'' 1 demo_chats)))"
    using drain_pending_effect [OF demo_chats_ok prod.collapse [symmetric]] by blast
  ultimately show ?thesis by blast
qed


theorem add_message_dedup_witness:
  "\<exists>j. add_message ''08:00:20'' ''07:59:50'' ''assistant'' ''done'' ''c1''
     (snd (add_message ''08:00:05'' ''07:59:35'' ''assistant'' ''done'' ''c1'' demo_chats)) =
   (j, snd (add_message ''08:00:05'' ''07:59:35'' ''assistant'' ''done'' ''c1'' demo_chats))"
proof -
  let ?a = "add_message ''08:00:05'' ''07:59:35'' ''assistant'' ''done'' ''c1'' demo_chats"
  have "fst ?a = seq demo_chats + 1"
    by (simp add: add_message_def build_chat_message_insert_def demo_texts Let_def tbl_select_def demo_chats_eq
        recent_same_def tbl_insert_def)
  moreover have "''07:59:50'' \<le> (''08:00:05'' :: string)" by (simp add: less_char_def)
  moreover have "?a = (fst ?a, snd ?a)" by simp
  ultimately show ?thesis
    using add_message_dedup [OF demo_chats_ok, of "''c1''" "''done''" "''07:59:50''" "''08:00:05''"
        "''07:59:35''" "fst ?a" "snd ?a" "''08:00:20''"]
    unfolding demo_texts by blast
qed

end
