(* ===== verification/Record_Stores.thy ===== *)
theory Record_Stores
  imports Task_Models
begin

text \<open>
  The stores that keep records: \<open>failure.py\<close> (dismissed, never deleted), \<open>fact.py\<close> (one value per
  key), \<open>reflection.py\<close> (replaced by id) and \<open>ledger.py\<close> (appended only). A table with a text as
  its primary key is an association list in row order. \<open>now\<close> is \<open>datetime('now')\<close>.
\<close>

definition short_text :: "string \<Rightarrow> string \<Rightarrow> string" where
  "short_text label s = compact_runtime_text runtime_text_max_chars label s"

section \<open>Failures\<close>

type_synonym failures = "failure_row tbl"

definition record_failure :: "string \<Rightarrow> string \<Rightarrow> string \<Rightarrow> string \<Rightarrow> string \<Rightarrow> failures \<Rightarrow> failures" where
  "record_failure now kind summary context_text task_id t = snd (tbl_insert
     \<lparr>frow_kind = kind, frow_dismissed = 0, frow_created_at = now,
      frow_data = Some (PDict
        [(''summary'', PStr (short_text ''failure summary'' summary)),
         (''context'', PStr (short_text ''failure context'' context_text)),
         (''task_id'', PStr task_id)])\<rparr> t)"

definition list_failures :: "int \<Rightarrow> failures \<Rightarrow> failure list" where
  "list_failures limit t = map failure_from_row
     (sql_limit limit (rev (tbl_select (\<lambda>i r. frow_dismissed r = 0) t)))"

text \<open>\<open>json_extract(data, '$.task_id')\<close> of a column the store wrote; equal to a text only when it is one.\<close>

definition failure_task :: "failure_row \<Rightarrow> pyval" where
  "failure_task r = dict_get (column_dict (frow_data r)) ''task_id''"

definition list_failures_for_task :: "string \<Rightarrow> int \<Rightarrow> failures \<Rightarrow> failure list" where
  "list_failures_for_task task_id limit t = map failure_from_row
     (sql_limit limit (rev (tbl_select (\<lambda>i r.
        (failure_task r = PStr task_id \<or> failure_task r = PStr []) \<and> frow_dismissed r = 0) t)))"

definition count_failures_by_kind :: "string \<Rightarrow> failures \<Rightarrow> nat" where
  "count_failures_by_kind kind t = tbl_count_where (\<lambda>i r. frow_kind r = kind \<and> frow_dismissed r = 0) t"

definition dismiss_failure :: "int \<Rightarrow> failures \<Rightarrow> failures" where
  "dismiss_failure i t = tbl_update i (\<lambda>r. r\<lparr>frow_dismissed := 1\<rparr>) t"

section \<open>Facts\<close>

record fact_row =
  fact_value :: string
  fact_scope :: string
  fact_updated_at :: string

type_synonym facts = "(string \<times> fact_row) list"

definition build_fact_upsert :: "string \<Rightarrow> string \<Rightarrow> string \<Rightarrow> fact_row" where
  "build_fact_upsert now value scope = \<lparr>fact_value = compact_runtime_json_text ''fact value'' value,
     fact_scope = (if scope = [] then ''general'' else scope), fact_updated_at = now\<rparr>"

text \<open>\<open>INSERT ... ON CONFLICT(key) DO UPDATE\<close>: a known key keeps its row.\<close>

definition set_fact :: "string \<Rightarrow> string \<Rightarrow> string \<Rightarrow> string \<Rightarrow> facts \<Rightarrow> facts" where
  "set_fact now key value scope f = AList.update key (build_fact_upsert now value scope) f"

definition get_fact :: "facts \<Rightarrow> string \<Rightarrow> string \<times> bool" where
  "get_fact f key = (case map_of f key of Some r \<Rightarrow> (fact_value r, True) | None \<Rightarrow> ([], False))"

text \<open>\<open>ORDER BY updated_at DESC\<close>; rows of the same time in row order.\<close>

definition newest_first :: "facts \<Rightarrow> facts" where
  "newest_first f = rev (sort_key (\<lambda>kr. fact_updated_at (snd kr)) (rev f))"

definition list_facts :: "string \<Rightarrow> int \<Rightarrow> facts \<Rightarrow> (string \<times> string) list" where
  "list_facts pre limit f = map (\<lambda>(k, r). (k, fact_value r)) (sql_limit limit (newest_first
     (filter (\<lambda>(k, r). pre = [] \<or> sql_like (pre @ ''%'') k) f)))"

definition delete_fact :: "string \<Rightarrow> facts \<Rightarrow> facts" where
  "delete_fact key f = filter (\<lambda>(k, r). k \<noteq> key) f"

definition facts_ok :: "facts \<Rightarrow> bool" where
  "facts_ok f \<longleftrightarrow> distinct (map fst f)"

section \<open>Meta reflections\<close>

type_synonym reflections = "(string \<times> meta_row) list"

record reflection_args =
  rf_id :: string
  rf_target_kind :: string
  rf_trigger :: string
  rf_loop_level :: string
  rf_diagnosis :: string
  rf_proposal :: string
  rf_verification_plan :: string
  rf_decision :: string
  rf_task_id :: int
  rf_run_id :: int
  rf_tool_name :: string
  rf_extras :: dict

text \<open>\<open>INSERT OR REPLACE\<close> deletes the old row and appends the new one.\<close>

definition add_meta_reflection :: "string \<Rightarrow> reflection_args \<Rightarrow> reflections \<Rightarrow> reflections" where
  "add_meta_reflection now a t =
    (let base = [(''task_id'', PInt (rf_task_id a)), (''run_id'', PInt (rf_run_id a)),
                 (''tool_name'', PStr (rf_tool_name a))];
         data = (if rf_extras a \<noteq> [] then dict_update base (compact_runtime_mapping (rf_extras a)) else base)
     in filter (\<lambda>(k, r). k \<noteq> rf_id a) t @
       [(rf_id a, \<lparr>mrow_target_kind = rf_target_kind a, mrow_trigger = rf_trigger a,
          mrow_loop_level = rf_loop_level a,
          mrow_diagnosis = short_text ''meta_reflection diagnosis'' (rf_diagnosis a),
          mrow_proposal = short_text ''meta_reflection proposal'' (rf_proposal a),
          mrow_verification_plan = short_text ''meta_reflection verification_plan'' (rf_verification_plan a),
          mrow_decision = short_text ''meta_reflection decision'' (rf_decision a),
          mrow_created_at = now, mrow_data = Some (PDict (compact_runtime_mapping data))\<rparr>)])"

fun all_inr :: "'a res list \<Rightarrow> 'a list res" where
  "all_inr [] = Inr []"
| "all_inr (Inl e # rs) = Inl e"
| "all_inr (Inr a # rs) = bind_res (all_inr rs) (\<lambda>as. Inr (a # as))"

text \<open>\<open>ORDER BY created_at ASC, id ASC\<close>; reading a row may raise.\<close>

definition list_meta_reflections :: "int \<Rightarrow> string option \<Rightarrow> reflections \<Rightarrow> meta_reflection list res" where
  "list_meta_reflections limit loop_level t = all_inr (map meta_from_row (sql_limit limit
     (sort_key (\<lambda>kr. mrow_created_at (snd kr)) (sort_key fst
        (filter (\<lambda>(k, r). case loop_level of None \<Rightarrow> True | Some l \<Rightarrow> l = [] \<or> mrow_loop_level r = l) t)))))"

section \<open>The ledger\<close>

record ledger_row =
  lg_ts :: string
  lg_op :: string
  lg_key :: string
  lg_value :: string
  lg_scope :: string
  lg_source :: string
  lg_accepted :: bool
  lg_run_id :: int
  lg_reason :: string
  lg_hash :: string
  lg_basis :: string

type_synonym ledger = "ledger_row tbl"

text \<open>\<open>append\<close>: the long texts are compacted.\<close>

definition ledger_append :: "ledger_row \<Rightarrow> ledger \<Rightarrow> ledger" where
  "ledger_append r t = snd (tbl_insert (r\<lparr>
     lg_value := short_text ''life_ledger value'' (lg_value r),
     lg_reason := short_text ''life_ledger reason'' (lg_reason r),
     lg_basis := short_text ''life_ledger decision_basis'' (lg_basis r)\<rparr>) t)"

definition ledger_recent :: "int \<Rightarrow> ledger \<Rightarrow> (int \<times> ledger_row) list" where
  "ledger_recent limit t = sql_limit limit (rev (tbl_select (\<lambda>i r. True) t))"

definition ledger_since :: "int \<Rightarrow> int \<Rightarrow> ledger \<Rightarrow> (int \<times> ledger_row) list" where
  "ledger_since after_id limit t = sql_limit limit (tbl_select (\<lambda>i r. i > after_id) t)"

section \<open>Facts: the interface\<close>

text \<open>What the clients of a fact store rely on: reading after writing and after deleting.\<close>

locale fact_view =
  fixes sf :: "string \<Rightarrow> string \<Rightarrow> 's \<Rightarrow> 's"
    and gf :: "'s \<Rightarrow> string \<Rightarrow> string \<times> bool"
    and df :: "string \<Rightarrow> 's \<Rightarrow> 's"
    and stored :: "string \<Rightarrow> string"
  assumes get_set: "gf (sf k v s) k' = (if k' = k then (stored v, True) else gf s k')"
    and get_del: "gf (df k s) k' = (if k' = k then ([], False) else gf s k')"
begin

lemma last_write_wins: "gf (sf k v' (sf k v s)) = gf (sf k v' s)"
  by (rule ext) (simp add: get_set)

lemma set_then_delete: "gf (df k (sf k v s)) = gf (df k s)"
  by (rule ext) (simp add: get_set get_del)

lemma writes_commute: "k \<noteq> l \<Longrightarrow> gf (sf k v (sf l w s)) = gf (sf l w (sf k v s))"
  by (rule ext) (simp add: get_set)

lemma present_iff: "snd (gf (sf k v s) k') \<longleftrightarrow> k' = k \<or> snd (gf s k')"
  by (simp add: get_set)

end

lemma map_of_delete_fact: "map_of (delete_fact k f) k' = (if k' = k then None else map_of f k')"
  by (induction f) (auto simp: delete_fact_def)

interpretation fs: fact_view "\<lambda>k v. set_fact now k v scope" get_fact delete_fact
  "compact_runtime_json_text ''fact value''" for now scope
  by unfold_locales
    (simp_all add: get_fact_def set_fact_def update_conv' map_of_delete_fact build_fact_upsert_def)

lemma facts_ok_set [simp]: "facts_ok f \<Longrightarrow> facts_ok (set_fact now k v s f)"
  by (simp add: facts_ok_def set_fact_def distinct_update)

lemma facts_ok_delete [simp]: "facts_ok f \<Longrightarrow> facts_ok (delete_fact k f)"
  by (simp add: facts_ok_def delete_fact_def distinct_map_filter)

lemma set_newest_first [simp]: "set (newest_first f) = set f"
  by (simp add: newest_first_def)

lemma sorted_newest_first: "sorted (rev (map (\<lambda>kr. fact_updated_at (snd kr)) (newest_first f)))"
  by (simp add: newest_first_def rev_map)

section \<open>The ledger: the interface\<close>

text \<open>An append-only log: an append adds one entry at the end and touches no other.\<close>

locale append_log =
  fixes app :: "'r \<Rightarrow> 't \<Rightarrow> 't"
    and entries :: "'t \<Rightarrow> 'r list"
    and norm :: "'r \<Rightarrow> 'r"
    and ok :: "'t \<Rightarrow> bool"
  assumes entries_app: "ok t \<Longrightarrow> entries (app r t) = entries t @ [norm r]"
    and ok_app: "ok t \<Longrightarrow> ok (app r t)"
begin

lemma entries_fold: "ok t \<Longrightarrow> entries (fold app rs t) = entries t @ map norm rs \<and> ok (fold app rs t)"
  by (induction rs arbitrary: t) (simp_all add: entries_app ok_app)

lemma history_is_prefix: "ok t \<Longrightarrow> prefix (entries t) (entries (fold app rs t))"
  by (simp add: entries_fold)

lemma count_app: "ok t \<Longrightarrow> length (entries (app r t)) = Suc (length (entries t))"
  by (simp add: entries_app)

end

definition ledger_entries :: "ledger \<Rightarrow> ledger_row list" where
  "ledger_entries t = map snd (rows t)"

definition ledger_norm :: "ledger_row \<Rightarrow> ledger_row" where
  "ledger_norm r = r\<lparr>lg_value := short_text ''life_ledger value'' (lg_value r),
     lg_reason := short_text ''life_ledger reason'' (lg_reason r),
     lg_basis := short_text ''life_ledger decision_basis'' (lg_basis r)\<rparr>"

interpretation lg: append_log ledger_append ledger_entries ledger_norm tbl_ok
  by unfold_locales
    (simp_all add: ledger_append_def ledger_entries_def ledger_norm_def tb.ok_ins, simp add: tbl_insert_def)

end
