(* ===== verification/Ingress.thy ===== *)
theory Ingress
  imports Chat_Store Record_Stores Task_State
begin

text \<open>
  \<open>store/task/ingress.py\<close>, the synchronous way into the database for channels and webhooks, and the
  retry loop around every write, here and in \<open>store/task/impl.py\<close>. An attempt either runs its
  function in one transaction or is hit by a fault of SQLite and leaves the database as it was; which
  attempts are hit is an argument.
\<close>

record ingress_db =
  ig_chats :: chats
  ig_facts :: facts
  ig_tasks :: tasks

section \<open>Retrying\<close>

definition db_locked :: "exn \<Rightarrow> bool" where
  "db_locked x \<longleftrightarrow> contains (lower (exn_msg x)) ''database is locked''"

definition max_attempts :: nat where
  "max_attempts = 6"

text \<open>The loop from attempt \<open>a\<close> on. \<open>attempt\<close> gives what an attempt returns or raises and the
  committed state; \<open>retried\<close> says which exceptions are caught.\<close>

function retry_from ::
    "(exn \<Rightarrow> bool) \<Rightarrow> (nat \<Rightarrow> 's \<Rightarrow> 'a res \<times> 's) \<Rightarrow> nat \<Rightarrow> 's \<Rightarrow> 'a res \<times> 's" where
  "retry_from caught attempt a s = (case attempt a s of
      (Inr x, s') \<Rightarrow> (Inr x, s')
    | (Inl e, s') \<Rightarrow> if caught e \<and> db_locked e \<and> a < 5 then retry_from caught attempt (Suc a) s'
                    else (Inl e, s'))"
  by pat_completeness auto
termination by (relation "measure (\<lambda>(c, f, a, s). 5 - a)") auto

declare retry_from.simps [simp del]

definition write_with_retry_async :: "(nat \<Rightarrow> 's \<Rightarrow> 'a res \<times> 's) \<Rightarrow> 's \<Rightarrow> 'a res \<times> 's" where
  "write_with_retry_async attempt s = retry_from (\<lambda>e. True) attempt 0 s"

definition write_with_retry :: "(nat \<Rightarrow> 's \<Rightarrow> 'a res \<times> 's) \<Rightarrow> 's \<Rightarrow> 'a res \<times> 's" where
  "write_with_retry attempt s = retry_from (\<lambda>e. exn_class e = ''OperationalError'') attempt 0 s"

text \<open>\<open>with conn:\<close> commits when the block returns, and rolls back when it raises.\<close>

definition transaction :: "(nat \<Rightarrow> exn option) \<Rightarrow> ('s \<Rightarrow> 'a res \<times> 's) \<Rightarrow> nat \<Rightarrow> 's \<Rightarrow> 'a res \<times> 's" where
  "transaction faults f a s = (case faults a of
      Some e \<Rightarrow> (Inl e, s)
    | None \<Rightarrow> (case f s of (Inl e, s') \<Rightarrow> (Inl e, s) | (Inr x, s') \<Rightarrow> (Inr x, s')))"

section \<open>The writes\<close>

definition ingress_add_chat_message ::
    "(nat \<Rightarrow> exn option) \<Rightarrow> string \<Rightarrow> string \<Rightarrow> string \<Rightarrow> string \<Rightarrow> string \<Rightarrow> ingress_db \<Rightarrow> int res \<times> ingress_db" where
  "ingress_add_chat_message faults now role content chat_id status =
     write_with_retry (transaction faults (\<lambda>db.
       let (i, t) = ingest_message now role content chat_id status (ig_chats db)
       in (Inr i, db\<lparr>ig_chats := t\<rparr>)))"

definition ingress_set_fact ::
    "(nat \<Rightarrow> exn option) \<Rightarrow> string \<Rightarrow> string \<Rightarrow> string \<Rightarrow> string \<Rightarrow> ingress_db \<Rightarrow> unit res \<times> ingress_db" where
  "ingress_set_fact faults now key value scope =
     write_with_retry (transaction faults (\<lambda>db.
       (Inr (), db\<lparr>ig_facts := set_fact now key value scope (ig_facts db)\<rparr>)))"

text \<open>A fact comes as a pair of value and scope, or as a plain value of scope \<open>general\<close>.\<close>

datatype fact_arg = Scoped string string | Plain pyval

fun fact_arg_value :: "fact_arg \<Rightarrow> string \<times> string" where
  "fact_arg_value (Scoped value scope) = (value, scope)"
| "fact_arg_value (Plain v) = (py_str v, ''general'')"

definition set_facts :: "string \<Rightarrow> (string \<times> fact_arg) list \<Rightarrow> facts \<Rightarrow> facts" where
  "set_facts now args f = fold (\<lambda>(key, a) f. let (value, scope) = fact_arg_value a in set_fact now key value scope f) args f"

definition ingest_user_message ::
    "(nat \<Rightarrow> exn option) \<Rightarrow> string \<Rightarrow> string \<Rightarrow> string \<Rightarrow> (string \<times> fact_arg) list \<Rightarrow> ingress_db \<Rightarrow>
     int res \<times> ingress_db" where
  "ingest_user_message faults now content chat_id fs =
     write_with_retry (transaction faults (\<lambda>db.
       let (i, t) = tbl_insert (build_chat_message_insert now ''user'' content chat_id ''pending'') (ig_chats db)
       in (Inr i, db\<lparr>ig_chats := t, ig_facts := set_facts now fs (ig_facts db)\<rparr>)))"

definition ingress_mark_delivered ::
    "(nat \<Rightarrow> exn option) \<Rightarrow> int \<Rightarrow> ingress_db \<Rightarrow> unit res \<times> ingress_db" where
  "ingress_mark_delivered faults i =
     write_with_retry (transaction faults (\<lambda>db.
       (Inr (), db\<lparr>ig_chats := mark_chat_message_delivered i (ig_chats db)\<rparr>)))"

text \<open>\<open>add_task\<close> builds its row before the loop: a value that cannot be converted raises at once.\<close>

definition ingress_task_args :: "pyval \<Rightarrow> pyval \<Rightarrow> pyval \<Rightarrow> pyval \<Rightarrow> pyval \<Rightarrow> pyval \<Rightarrow> pyval \<Rightarrow> task_args" where
  "ingress_task_args title goal priority source status next_step extras = (task_args_default title)
     \<lparr>a_goal := goal, a_priority := priority, a_source := source, a_status := status,
      a_next_step := next_step, a_extras := extras\<rparr>"

definition ingress_add_task ::
    "(nat \<Rightarrow> exn option) \<Rightarrow> string \<Rightarrow> task_args \<Rightarrow> ingress_db \<Rightarrow> int res \<times> ingress_db" where
  "ingress_add_task faults now a db =
    (case bind_res (build_task_data a) (build_task_insert now (a_title a) (a_status a) (a_priority a)) of
       Inl e \<Rightarrow> (Inl e, db)
     | Inr row \<Rightarrow> write_with_retry (transaction faults (\<lambda>db.
          let (i, t) = tbl_insert row (ig_tasks db) in (Inr i, db\<lparr>ig_tasks := t\<rparr>))) db)"

definition ingress_get_fact :: "string \<Rightarrow> ingress_db \<Rightarrow> string \<times> bool" where
  "ingress_get_fact key db = get_fact (ig_facts db) key"

section \<open>At most once\<close>

definition transient :: "exn \<Rightarrow> bool" where
  "transient e \<longleftrightarrow> exn_class e = ''OperationalError'' \<and> db_locked e"

lemma retry_from_unfold:
  "retry_from caught attempt a s = (case attempt a s of
      (Inr x, s') \<Rightarrow> (Inr x, s')
    | (Inl e, s') \<Rightarrow> if caught e \<and> db_locked e \<and> a < 5 then retry_from caught attempt (Suc a) s'
                    else (Inl e, s'))"
  by (rule retry_from.simps)

lemma transaction_cases:
  "transaction faults f a s = (r, s') \<Longrightarrow> (case r of Inl e \<Rightarrow> s' = s | Inr x \<Rightarrow> f s = (Inr x, s'))"
  by (auto simp: transaction_def split: option.splits sum.splits prod.splits)

lemma retry_from_transaction:
  "retry_from caught (transaction faults f) a s = (r, s') \<Longrightarrow>
   (case r of Inl e \<Rightarrow> s' = s | Inr x \<Rightarrow> f s = (Inr x, s'))"
proof (induction "5 - a" arbitrary: a)
  case 0
  then show ?case
    using transaction_cases [of faults f a s]
    by (subst (asm) retry_from_unfold) (auto split: prod.splits sum.splits if_splits)
next
  case (Suc n)
  obtain r1 s1 where t: "transaction faults f a s = (r1, s1)" by fastforce
  note c = transaction_cases [OF t]
  show ?case
  proof (cases "\<exists>e. r1 = Inl e \<and> caught e \<and> db_locked e \<and> a < 5")
    case True
    with c t have "retry_from caught (transaction faults f) a s = retry_from caught (transaction faults f) (Suc a) s"
      by (subst retry_from_unfold) auto
    with Suc.prems have "retry_from caught (transaction faults f) (Suc a) s = (r, s')" by simp
    then show ?thesis by (intro Suc.hyps(1)) (use Suc.hyps(2) in auto)
  next
    case False
    with t have "retry_from caught (transaction faults f) a s = (r1, s1)"
      by (subst retry_from_unfold) (auto split: sum.split)
    with Suc.prems have "r1 = r" "s1 = s'" by simp_all
    with c show ?thesis by (simp cong: sum.case_cong)
  qed
qed

lemma write_with_retry_transaction:
  "write_with_retry (transaction faults f) s = (r, s') \<Longrightarrow>
   (case r of Inl e \<Rightarrow> s' = s | Inr x \<Rightarrow> f s = (Inr x, s'))"
  unfolding write_with_retry_def by (rule retry_from_transaction)

lemma retry_skips:
  assumes "\<forall>m. a \<le> m \<and> m < k \<longrightarrow> (\<exists>e. faults m = Some e \<and> caught e \<and> db_locked e)" "a \<le> k" "k \<le> 5"
  shows "retry_from caught (transaction faults f) a s = retry_from caught (transaction faults f) k s"
  using assms(2,3,1)
proof (induction rule: inc_induct)
  case (step n)
  from step.prems(2) step.hyps obtain e where "faults n = Some e" "caught e" "db_locked e" by auto
  moreover have "n < 5" using step.hyps step.prems(1) by simp
  ultimately have "retry_from caught (transaction faults f) n s = retry_from caught (transaction faults f) (Suc n) s"
    by (subst retry_from_unfold) (simp add: transaction_def)
  moreover have "retry_from caught (transaction faults f) (Suc n) s = retry_from caught (transaction faults f) k s"
    by (rule step.IH) (use step.prems in auto)
  ultimately show ?case by simp
qed simp

text \<open>C40: A write is tried at most six times and takes effect at most once. If the first \<open>k\<close> attempts
  meet a locked database and attempt \<open>k\<close> is free, the write is carried out, once; any other fault at
  attempt \<open>k\<close> is raised at once, and so is a locked database at the sixth attempt, and then nothing has
  changed.\<close>

theorem write_with_retry_outcome:
  assumes "\<forall>m < k. \<exists>e. faults m = Some e \<and> transient e" "k \<le> 5"
  shows "(\<forall>x s'. faults k = None \<and> f s = (Inr x, s') \<longrightarrow>
            write_with_retry (transaction faults f) s = (Inr x, s')) \<and>
    (\<forall>e. faults k = Some e \<and> (\<not> transient e \<or> k = 5) \<longrightarrow>
            write_with_retry (transaction faults f) s = (Inl e, s))"
proof -
  have "write_with_retry (transaction faults f) s =
      retry_from (\<lambda>e. exn_class e = ''OperationalError'') (transaction faults f) k s"
    unfolding write_with_retry_def
    by (rule retry_skips) (use assms in \<open>auto simp: transient_def\<close>)
  also have "\<dots> = (case transaction faults f k s of
      (Inr x, s') \<Rightarrow> (Inr x, s')
    | (Inl e, s') \<Rightarrow> if transient e \<and> k < 5
        then retry_from (\<lambda>e. exn_class e = ''OperationalError'') (transaction faults f) (Suc k) s'
        else (Inl e, s'))"
    by (subst retry_from_unfold) (simp add: transient_def split: prod.split sum.split)
  finally show ?thesis by (auto simp: transaction_def)
qed

definition two_locks :: "nat \<Rightarrow> exn option" where
  "two_locks n = (if n < 2 then Some (Exn ''OperationalError'' ''database is locked'') else None)"

lemma two_locks_transient: "\<forall>m < 2. \<exists>e. two_locks m = Some e \<and> transient e"
  by (simp add: two_locks_def transient_def db_locked_def lower_def lower_char_def Let_def)

theorem write_with_retry_outcome_witness:
  "write_with_retry (transaction two_locks (\<lambda>s. (Inr (), s + 1))) (0::int) = (Inr (), 1)"
proof -
  have "two_locks 2 = None" by (simp add: two_locks_def)
  then show ?thesis
    using write_with_retry_outcome [OF two_locks_transient, of "\<lambda>s::int. (Inr (), s + 1)" "0::int"] by auto
qed

section \<open>Ingesting a message\<close>

lemma map_of_set_facts:
  "distinct (map fst fs) \<Longrightarrow> map_of (set_facts now fs f) key = (case map_of fs key of
      None \<Rightarrow> map_of f key
    | Some a \<Rightarrow> Some (build_fact_upsert now (fst (fact_arg_value a)) (snd (fact_arg_value a))))"
proof (induction fs arbitrary: f)
  case Nil
  show ?case by (simp add: set_facts_def)
next
  case (Cons ka fs)
  obtain k a where ka: "ka = (k, a)" by fastforce
  have "set_facts now (ka # fs) f =
      set_facts now fs (set_fact now k (fst (fact_arg_value a)) (snd (fact_arg_value a)) f)"
    by (simp add: set_facts_def ka case_prod_beta Let_def)
  moreover have "k \<notin> dom (map_of fs)" using Cons.prems by (simp add: ka dom_map_of_conv_image_fst)
  ultimately show ?case
    using Cons by (auto simp: ka set_fact_def update_conv' split: option.split)
qed

text \<open>C39: An incoming user message and its facts are stored together or not at all. When the call
  returns, the message is pending under the new id it returns, every other message is as before, the
  facts given read as their (shortened) values and no other fact has changed; when it raises, nothing
  has changed.\<close>

theorem ingest_user_message_atomic:
  assumes "tbl_ok (ig_chats db)" "distinct (map fst fs)"
    "ingest_user_message faults now content chat_id fs db = (r, db')"
  shows "(\<forall>e. r = Inl e \<longrightarrow> db' = db) \<and>
    (\<forall>i. r = Inr i \<longrightarrow> tbl_get (ig_chats db) i = None \<and>
       (\<exists>m. tbl_get (ig_chats db') i = Some m \<and> user_pending m \<and> crow_content m = chat_text content \<and>
            crow_session m = chat_id) \<and>
       (\<forall>j. j \<noteq> i \<longrightarrow> tbl_get (ig_chats db') j = tbl_get (ig_chats db) j) \<and>
       (\<forall>key. get_fact (ig_facts db') key = (case map_of fs key of
            None \<Rightarrow> get_fact (ig_facts db) key
          | Some a \<Rightarrow> (compact_runtime_json_text ''fact value'' (fst (fact_arg_value a)), True))) \<and>
       ig_tasks db' = ig_tasks db)"
proof -
  define m where "m = build_chat_message_insert now ''user'' content chat_id ''pending''"
  have m: "user_pending m" "crow_content m = chat_text content" "crow_session m = chat_id"
    by (simp_all add: m_def user_pending_def build_chat_message_insert_def)
  have fresh: "tbl_get (ig_chats db) (fst (tbl_insert m (ig_chats db))) = None"
    by (rule tb.ins_fresh [OF assms(1)])
  note ins = tb.get_ins [OF assms(1), of m]
  have read: "get_fact (set_facts now fs f) key = (case map_of fs key of
      None \<Rightarrow> get_fact f key
    | Some a \<Rightarrow> (compact_runtime_json_text ''fact value'' (fst (fact_arg_value a)), True))" for f key
    by (simp add: get_fact_def map_of_set_facts [OF assms(2)] build_fact_upsert_def split: option.split)
  note out = write_with_retry_transaction [OF assms(3) [unfolded ingest_user_message_def m_def [symmetric]]]
  show ?thesis
  proof (cases r)
    case (Inl e)
    with out show ?thesis by simp
  next
    case (Inr i)
    with out have i: "i = fst (tbl_insert m (ig_chats db))"
      and db': "db' = db\<lparr>ig_chats := snd (tbl_insert m (ig_chats db)), ig_facts := set_facts now fs (ig_facts db)\<rparr>"
      by (auto simp: case_prod_beta Let_def)
    show ?thesis
      using fresh m by (auto simp: Inr i db' ins read)
  qed
qed

definition empty_ingress :: ingress_db where
  "empty_ingress = \<lparr>ig_chats = empty_tbl, ig_facts = [], ig_tasks = empty_tbl\<rparr>"

lemma demo_ingest: "ingest_user_message two_locks ''now'' ''hi'' ''c1'' [(''k'', Plain (PInt 7))] empty_ingress =
    (Inr 1, snd (ingest_user_message two_locks ''now'' ''hi'' ''c1'' [(''k'', Plain (PInt 7))] empty_ingress))"
proof -
  let ?f = "\<lambda>db. let (i, t) = tbl_insert (build_chat_message_insert ''now'' ''user'' ''hi'' ''c1'' ''pending'') (ig_chats db)
       in (Inr i, db\<lparr>ig_chats := t, ig_facts := set_facts ''now'' [(''k'', Plain (PInt 7))] (ig_facts db)\<rparr>)"
  have "two_locks 2 = None" by (simp add: two_locks_def)
  then have "retry_from (\<lambda>e. exn_class e = ''OperationalError'') (transaction two_locks ?f) 2 empty_ingress = ?f empty_ingress"
    by (subst retry_from_unfold) (simp add: transaction_def tbl_insert_def Let_def)
  moreover have "retry_from (\<lambda>e. exn_class e = ''OperationalError'') (transaction two_locks ?f) 0 empty_ingress =
      retry_from (\<lambda>e. exn_class e = ''OperationalError'') (transaction two_locks ?f) 2 empty_ingress"
    by (rule retry_skips) (use two_locks_transient in \<open>auto simp: transient_def\<close>)
  ultimately show ?thesis
    by (simp add: ingest_user_message_def write_with_retry_def tbl_insert_def Let_def empty_ingress_def empty_tbl_def)
qed

theorem ingest_user_message_atomic_witness:
  "\<exists>m. tbl_get (ig_chats (snd (ingest_user_message two_locks ''now'' ''hi'' ''c1'' [(''k'', Plain (PInt 7))] empty_ingress))) 1
     = Some m \<and> user_pending m"
  using ingest_user_message_atomic [OF _ _ demo_ingest] by (simp add: empty_ingress_def) blast

end
