(* ===== verification/Task_Query.thy ===== *)
theory Task_Query
  imports Complex_Main Task_State
begin

text \<open>
  \<open>store/task/query.py\<close>, the similarity of \<open>store/task/schema.py\<close> and \<open>calculate_relevance\<close> of
  \<open>memory/quality_checker.py\<close>: the list of open tasks and the search for tasks like a new one.
  A score is a rational number; the quotients of small counts and the four decimal constants that
  occur are told apart by floats exactly when they differ.
\<close>

section \<open>Relevance\<close>

text \<open>The Jaccard similarity of the sets of characters, spaces aside.\<close>

definition char_set :: "string \<Rightarrow> char set" where
  "char_set s = set (lower s) - {CHR '' ''}"

definition calculate_relevance :: "string \<Rightarrow> string \<Rightarrow> rat" where
  "calculate_relevance q r =
     (if strip q = [] \<or> strip r = [] then 0
      else if char_set q = {} \<or> char_set r = {} then 0
      else of_nat (card (char_set q \<inter> char_set r)) / of_nat (card (char_set q \<union> char_set r)))"

section \<open>Open tasks\<close>

definition open_status_rank :: "string \<Rightarrow> nat" where
  "open_status_rank s = (if s = ''in_progress'' then 0 else if s = ''resumed'' then 1
     else if s = ''ready'' then 2 else if s = ''pending'' then 3 else if s = ''waiting'' then 4 else 5)"

definition open_key :: "int \<times> task_row \<Rightarrow> nat \<times> nat \<times> int" where
  "open_key ir = (open_status_rank (row_status (snd ir)), priority_rank (row_priority (snd ir)), fst ir)"

definition normalized_statuses :: "string list option \<Rightarrow> string list" where
  "normalized_statuses st = filter (\<lambda>s. s \<noteq> []) (map strip
     (case st of None \<Rightarrow> open_task_statuses | Some l \<Rightarrow> if l = [] then open_task_statuses else l))"

definition query_open_tasks :: "int \<Rightarrow> string list option \<Rightarrow> tasks \<Rightarrow> task list" where
  "query_open_tasks limit statuses t = (let st = normalized_statuses statuses in
     if limit \<le> 0 \<or> st = [] then []
     else map task_from_row (sql_limit limit
            (sort_key open_key (tbl_select (\<lambda>i r. row_status r \<in> set st) t))))"

section \<open>Similarity\<close>

fun similarity_parts :: "string list \<Rightarrow> pyval list \<Rightarrow> string list" where
  "similarity_parts seen [] = []"
| "similarity_parts seen (p # ps) = (let s = squeeze (str_or_empty p) in
     if s = [] \<or> s \<in> set seen then similarity_parts seen ps
     else s # similarity_parts (s # seen) ps)"

definition build_task_similarity_query :: "pyval list \<Rightarrow> string" where
  "build_task_similarity_query ps = join '' '' (similarity_parts [] ps)"

definition normalize_task_text :: "pyval \<Rightarrow> string" where
  "normalize_task_text v = squeeze (lower (str_or_empty v))"

definition task_search_text :: "task \<Rightarrow> string" where
  "task_search_text k = build_task_similarity_query [PStr (t_title k), t_goal k, t_next_step k]"

definition field_relevance :: "string \<Rightarrow> string \<Rightarrow> rat" where
  "field_relevance q f = (if f = [] then 0 else calculate_relevance q f)"

text \<open>A field that contains the query, or is contained in it, lifts the score.\<close>

definition lift_score :: "rat \<Rightarrow> nat \<Rightarrow> string \<Rightarrow> string \<Rightarrow> rat \<Rightarrow> rat" where
  "lift_score to len q f score =
     (if f \<noteq> [] \<and> len \<le> length f \<and> (contains f q \<or> contains q f) then max score to else score)"

definition task_similarity_score :: "string \<Rightarrow> task \<Rightarrow> rat" where
  "task_similarity_score query_text k =
    (let q = normalize_task_text (PStr query_text);
         cand = normalize_task_text (PStr (task_search_text k));
         title = normalize_task_text (PStr (t_title k));
         goal = normalize_task_text (t_goal k);
         next_step = normalize_task_text (t_next_step k)
     in if q = [] \<or> cand = [] then 0
        else if q = cand then 1
        else (let s0 = max (max (max (calculate_relevance q cand) (field_relevance q title))
                        (field_relevance q goal)) (field_relevance q next_step);
                  s1 = lift_score (9/10) 4 q title s0;
                  s2 = lift_score (17/20) 6 q goal s1;
                  s3 = lift_score (4/5) 6 q next_step s2
              in min s3 1))"

definition task_status_rank :: "string \<Rightarrow> nat" where
  "task_status_rank s = (if s = ''in_progress'' then 0 else if s = ''resumed'' then 1
     else if s = ''ready'' then 2 else if s = ''pending'' then 3 else if s = ''waiting'' then 4 else 99)"

definition task_priority_rank :: "string \<Rightarrow> nat" where
  "task_priority_rank p = (if p = ''critical'' then 0 else if p = ''high'' then 1
     else if p = ''normal'' then 2 else if p = ''low'' then 3 else 99)"

definition scored_key :: "task \<times> rat \<Rightarrow> rat \<times> nat \<times> nat \<times> int" where
  "scored_key ks = (- snd ks, task_status_rank (t_status (fst ks)),
     task_priority_rank (t_priority (fst ks)), t_id (fst ks))"

definition clean_names :: "string list \<Rightarrow> string list" where
  "clean_names ss = filter (\<lambda>s. s \<noteq> []) (map strip ss)"

definition source_allowed :: "string list \<Rightarrow> string list \<Rightarrow> task \<Rightarrow> bool" where
  "source_allowed allowed excluded k = (let s = strip (str_or_empty (t_source k)) in
     (clean_names allowed = [] \<or> s \<in> set (clean_names allowed)) \<and> s \<notin> set (clean_names excluded))"

definition scan_limit :: "int \<Rightarrow> int" where
  "scan_limit limit = min 200 (max (limit * 6) 24)"

definition find_similar_open_tasks ::
    "pyval \<Rightarrow> int \<Rightarrow> rat \<Rightarrow> int list \<Rightarrow> string list \<Rightarrow> string list \<Rightarrow> string list option \<Rightarrow>
     tasks \<Rightarrow> (task \<times> rat) list" where
  "find_similar_open_tasks query limit min_score exclude allowed excluded statuses t =
    (let q = build_task_similarity_query [query] in
     if limit \<le> 0 \<or> q = [] then []
     else take (nat limit) (sort_key scored_key
       (filter (\<lambda>ks. min_score \<le> snd ks)
         (map (\<lambda>k. (k, task_similarity_score q k))
           (filter (\<lambda>k. t_id k \<notin> set exclude \<and> source_allowed allowed excluded k)
             (query_open_tasks (scan_limit limit) statuses t))))))"

section \<open>Scores\<close>

lemma finite_char_set [simp]: "finite (char_set s)"
  by (simp add: char_set_def)

lemma calculate_relevance_bounds: "0 \<le> calculate_relevance q r \<and> calculate_relevance q r \<le> 1"
proof -
  have "card (char_set q \<inter> char_set r) \<le> card (char_set q \<union> char_set r)"
    by (intro card_mono) auto
  then show ?thesis by (auto simp: calculate_relevance_def divide_le_eq_1 card_gt_0_iff)
qed

lemma calculate_relevance_sym: "calculate_relevance q r = calculate_relevance r q"
  by (simp add: calculate_relevance_def Int_commute Un_commute disj_commute)

lemma field_relevance_bounds: "0 \<le> field_relevance q f \<and> field_relevance q f \<le> 1"
  using calculate_relevance_bounds by (simp add: field_relevance_def)

lemma lift_score_ge: "s \<le> lift_score to len q f s"
  by (simp add: lift_score_def)

lemma task_similarity_score_bounds: "0 \<le> task_similarity_score q k \<and> task_similarity_score q k \<le> 1"
proof -
  define a where "a = normalize_task_text (PStr q)"
  define b where "b = normalize_task_text (PStr (task_search_text k))"
  have "0 \<le> calculate_relevance a b" using calculate_relevance_bounds by blast
  also have "\<dots> \<le> max (max (max (calculate_relevance a b) (field_relevance a (normalize_task_text (PStr (t_title k)))))
      (field_relevance a (normalize_task_text (t_goal k)))) (field_relevance a (normalize_task_text (t_next_step k)))"
    by simp
  finally show ?thesis
    unfolding task_similarity_score_def Let_def a_def b_def
    by (auto intro: order_trans [OF _ lift_score_ge] split: if_splits)
qed

section \<open>Lists\<close>

lemma similarity_parts_strings: "set (similarity_parts seen ps) \<subseteq> {squeeze (str_or_empty p) | p. p \<in> set ps}"
  by (induction seen ps rule: similarity_parts.induct) (auto simp: Let_def)

lemma sorted_take_map: "sorted (map f xs) \<Longrightarrow> sorted (map f (take n xs))"
  by (simp add: sorted_wrt_take take_map [symmetric])

lemma sort_key_take_le:
  assumes "x \<in> set (take n (sort_key f xs))" "y \<in> set xs" "y \<notin> set (take n (sort_key f xs))"
  shows "f x \<le> f y"
proof -
  let ?s = "sort_key f xs"
  have "y \<in> set (take n ?s) \<union> set (drop n ?s)"
    using assms(2) by (metis append_take_drop_id set_append set_sort)
  with assms(3) have "y \<in> set (drop n ?s)" by blast
  moreover have "sorted (map f (take n ?s @ drop n ?s))" by simp
  then have "\<forall>a \<in> set (take n ?s). \<forall>b \<in> set (drop n ?s). f a \<le> f b"
    unfolding map_append sorted_append by auto
  ultimately show ?thesis using assms(1) by blast
qed

lemma insort_key_agree:
  "(\<And>y. y \<in> set (x # xs) \<Longrightarrow> f y = g y) \<Longrightarrow> insort_key f x xs = insort_key g x xs"
  by (induction xs) auto

lemma sort_key_agree: "(\<And>y. y \<in> set xs \<Longrightarrow> f y = g y) \<Longrightarrow> sort_key f xs = sort_key g xs"
proof (induction xs)
  case (Cons x xs)
  then have "sort_key f xs = sort_key g xs" by simp
  moreover have "insort_key f x (sort_key g xs) = insort_key g x (sort_key g xs)"
    by (rule insort_key_agree) (use Cons.prems in auto)
  ultimately show ?case by simp
qed simp

lemma query_open_tasks_runnable:
  assumes "0 < n"
  shows "query_open_tasks n (Some runnable_task_statuses) t = list_runnable_tasks n t"
proof -
  have st: "normalized_statuses (Some runnable_task_statuses) = runnable_task_statuses"
    by (simp add: normalized_statuses_def runnable_task_statuses_def strip_def lstrip_def is_space_def)
  have "sort_key open_key (tbl_select (\<lambda>i r. row_status r \<in> set runnable_task_statuses) t)
      = sort_key runnable_key (tbl_select (\<lambda>i r. row_status r \<in> set runnable_task_statuses) t)"
    by (rule sort_key_agree)
      (auto simp: tbl_select_def open_key_def runnable_key_def open_status_rank_def runnable_status_rank_def
        runnable_task_statuses_def)
  with assms show ?thesis
    by (simp add: query_open_tasks_def st list_runnable_tasks_def Let_def)
      (simp add: runnable_task_statuses_def)
qed

text \<open>The candidates of a search, with their scores.\<close>

definition candidates ::
    "pyval \<Rightarrow> int \<Rightarrow> rat \<Rightarrow> int list \<Rightarrow> string list \<Rightarrow> string list \<Rightarrow> string list option \<Rightarrow>
     tasks \<Rightarrow> (task \<times> rat) list" where
  "candidates query limit m exclude allowed excluded statuses t =
     filter (\<lambda>ks. m \<le> snd ks) (map (\<lambda>k. (k, task_similarity_score (build_task_similarity_query [query]) k))
       (filter (\<lambda>k. t_id k \<notin> set exclude \<and> source_allowed allowed excluded k)
         (query_open_tasks (scan_limit limit) statuses t)))"

lemma candidatesD:
  "(k, s) \<in> set (candidates query n m ex al exs st t) \<Longrightarrow>
   k \<in> set (query_open_tasks (scan_limit n) st t) \<and> t_id k \<notin> set ex \<and> source_allowed al exs k \<and>
   m \<le> s \<and> s \<le> 1 \<and> s = task_similarity_score (build_task_similarity_query [query]) k"
  using task_similarity_score_bounds by (auto simp: candidates_def)

lemma sort_key_head:
  assumes "sort_key f xs = y # ys" "x \<in> set xs"
  shows "f y \<le> f x" "y \<in> set xs"
proof -
  have "x \<in> set (y # ys)" using assms by (metis set_sort)
  moreover have "sorted (map f (y # ys))" using sorted_sort_key [of f xs] assms(1) by simp
  ultimately show "f y \<le> f x" by auto
  show "y \<in> set xs" using assms(1) by (metis list.set_intros(1) set_sort)
qed

lemma find_similar_candidates:
  "0 < n \<Longrightarrow> build_task_similarity_query [query] \<noteq> [] \<Longrightarrow>
   find_similar_open_tasks query n m ex al exs st t =
     take (nat n) (sort_key scored_key (candidates query n m ex al exs st t))"
  by (simp add: find_similar_open_tasks_def candidates_def Let_def)

lemma find_similar_none:
  "n \<le> 0 \<or> build_task_similarity_query [query] = [] \<Longrightarrow>
   find_similar_open_tasks query n m ex al exs st t = []"
  by (auto simp: find_similar_open_tasks_def Let_def)

lemma scored_key_score: "scored_key a \<le> scored_key b \<Longrightarrow> snd b \<le> snd a"
  by (auto simp: scored_key_def less_eq_prod_def less_prod_def)

lemma sorted_scores: "sorted (map scored_key xs) \<Longrightarrow> sorted_wrt (\<ge>) (map snd xs)"
  by (auto simp: sorted_wrt_map intro: sorted_wrt_mono_rel [rotated] dest: scored_key_score)

text \<open>The search for similar tasks returns at most as many as asked, by falling score; each is an
  open task within the scanned prefix of the work list, from an allowed source, with its score, which
  is at least the threshold and at most one; and a candidate that is left out scores no higher than
  any that is returned, unless there was nothing to search for.\<close>

theorem find_similar_ranked:
  fixes query n m ex al exs st t
  defines "found \<equiv> find_similar_open_tasks query n m ex al exs st t"
  shows "sorted_wrt (\<ge>) (map snd found) \<and> length found \<le> nat n \<and>
    (\<forall>(k, s) \<in> set found. k \<in> set (query_open_tasks (scan_limit n) st t) \<and> t_id k \<notin> set ex \<and>
       source_allowed al exs k \<and> m \<le> s \<and> s \<le> 1 \<and>
       s = task_similarity_score (build_task_similarity_query [query]) k) \<and>
    (\<forall>c \<in> set (candidates query n m ex al exs st t). 0 < n \<longrightarrow> build_task_similarity_query [query] \<noteq> [] \<longrightarrow>
       c \<notin> set found \<longrightarrow> (\<forall>f \<in> set found. snd c \<le> snd f))"
proof (cases "0 < n \<and> build_task_similarity_query [query] \<noteq> []")
  case True
  let ?c = "candidates query n m ex al exs st t"
  have f: "found = take (nat n) (sort_key scored_key ?c)"
    unfolding found_def by (rule find_similar_candidates) (use True in auto)
  have "sorted_wrt (\<ge>) (map snd found)"
    unfolding f by (rule sorted_scores) (rule sorted_take_map, simp)
  moreover have "length found \<le> nat n" by (simp add: f)
  moreover have sub: "set found \<subseteq> set ?c" using set_take_subset [of "nat n" "sort_key scored_key ?c"] by (simp add: f)
  moreover have "\<forall>c \<in> set ?c. c \<notin> set found \<longrightarrow> (\<forall>x \<in> set found. snd c \<le> snd x)"
  proof (intro ballI impI)
    fix c x
    assume "c \<in> set ?c" "c \<notin> set found" "x \<in> set found"
    then have "scored_key x \<le> scored_key c"
      unfolding f by (intro sort_key_take_le)
    then show "snd c \<le> snd x" by (rule scored_key_score)
  qed
  moreover have "\<forall>(k, s) \<in> set found. k \<in> set (query_open_tasks (scan_limit n) st t) \<and> t_id k \<notin> set ex \<and>
       source_allowed al exs k \<and> m \<le> s \<and> s \<le> 1 \<and>
       s = task_similarity_score (build_task_similarity_query [query]) k"
    (is "\<forall>(k, s) \<in> _. ?P k s")
  proof (rule ballI)
    fix p
    assume "p \<in> set found"
    then have "(fst p, snd p) \<in> set ?c" using sub by auto
    from candidatesD [OF this] show "case p of (k, s) \<Rightarrow> ?P k s" unfolding case_prod_beta .
  qed
  ultimately show ?thesis by blast
qed (auto simp: found_def find_similar_none)

text \<open>A task that says the same as the query is found: when it is among the scanned open tasks, not
  excluded and of an allowed source, the first task returned has score one.\<close>

theorem exact_duplicate_found:
  assumes "k \<in> set (query_open_tasks (scan_limit n) st t)" "0 < n" "m \<le> 1" "t_id k \<notin> set ex"
    "source_allowed al exs k" "normalize_task_text (PStr (task_search_text k)) \<noteq> []"
    "normalize_task_text (PStr (build_task_similarity_query [query])) = normalize_task_text (PStr (task_search_text k))"
  shows "\<exists>k' rest. find_similar_open_tasks query n m ex al exs st t = (k', 1) # rest"
proof -
  let ?c = "candidates query n m ex al exs st t"
  have ne: "build_task_similarity_query [query] \<noteq> []"
    using assms(6,7) by (auto simp: normalize_task_text_def squeeze_def split_ws_def lower_def str_or_empty_def py_or_def)
  have "task_similarity_score (build_task_similarity_query [query]) k = 1"
    using assms(6,7) by (simp add: task_similarity_score_def Let_def)
  then have in_c: "(k, 1) \<in> set ?c" using assms by (force simp: candidates_def)
  then obtain x xs where x: "sort_key scored_key ?c = x # xs"
    by (metis list.exhaust list.set_intros(1) set_sort empty_iff list.set(1))
  have "1 \<le> snd x" using scored_key_score [OF sort_key_head(1) [OF x in_c]] by simp
  moreover have "(fst x, snd x) \<in> set ?c" using sort_key_head(2) [OF x in_c] by simp
  then have "snd x \<le> 1" by (blast dest: candidatesD)
  ultimately have "x = (fst x, 1)" by (simp add: prod_eq_iff)
  moreover obtain m' where "nat n = Suc m'" using assms(2) by (cases "nat n") auto
  ultimately show ?thesis
    using find_similar_candidates [OF assms(2) ne] x by (metis take_Suc_Cons)
qed

definition demo_row :: task_row where
  "demo_row = \<lparr>row_title = ''fix bug'', row_status = ''pending'', row_priority = ''normal'',
     row_created_at = [], row_data = Some (PDict [])\<rparr>"

definition demo_open :: tasks where
  "demo_open = \<lparr>seq = 1, rows = [(1, demo_row)]\<rparr>"

lemma demo_open_query: "query_open_tasks (scan_limit 1) None demo_open = [task_from_row (1, demo_row)]"
  by (simp add: query_open_tasks_def normalized_statuses_def open_task_statuses_def strip_def lstrip_def
      is_space_def scan_limit_def sql_limit_def tbl_select_def demo_open_def demo_row_def Let_def)

lemmas demo_query_defs = demo_row_def task_from_row_def column_dict_def dict_get_or_def
  task_search_text_def build_task_similarity_query_def normalize_task_text_def str_or_empty_def py_or_def
  squeeze_def split_ws_def is_space_def lower_def lower_char_def Let_def source_allowed_def clean_names_def
  dict_without_def char_of_def bit_0

lemma demo_texts_equal:
  "normalize_task_text (PStr (task_search_text (task_from_row (1, demo_row)))) = ''fix bug''"
  "normalize_task_text (PStr (build_task_similarity_query [PStr '' Fix  Bug''])) = ''fix bug''"
  by (simp_all add: demo_query_defs)

theorem exact_duplicate_found_witness:
  "\<exists>k' rest. find_similar_open_tasks (PStr '' Fix  Bug'') 1 (2/3) [] [] [] None demo_open = (k', 1) # rest"
  by (rule exact_duplicate_found [where k = "task_from_row (1, demo_row)"])
    (simp_all add: demo_open_query demo_texts_equal source_allowed_def clean_names_def Let_def)

theorem find_similar_ranked_witness:
  "length (find_similar_open_tasks (PStr '' Fix  Bug'') 1 (2/3) [] [] [] None demo_open) \<le> 1"
  using find_similar_ranked [of "PStr '' Fix  Bug''" 1 "2/3" "[]" "[]" "[]" None demo_open] by simp

end
