(* ===== verification/Py_More.thy ===== *)
theory Py_More
  imports Py_Json Sha256
begin

text \<open>
  More of Python's built-ins: \<open>float()\<close>, \<open>str.splitlines\<close>, \<open>str.replace\<close> of a prefix and the
  keyed lookups of loosely typed dicts that several components share.
\<close>

section \<open>Floats\<close>

text \<open>A finite decimal \<open>m / 10 ^ k\<close>, an infinity (true for the negative one) or not a number.\<close>

datatype pyfloat = FNum int nat | FInf bool | FNan

definition digit_run :: "string \<Rightarrow> string \<times> string" where
  "digit_run s = (let p = (\<lambda>c. is_digit c \<or> c = CHR ''_'') in (takeWhile p s, dropWhile p s))"

definition run_ok :: "string \<Rightarrow> bool" where
  "run_ok s \<longleftrightarrow> s = [] \<or> digits_val 0 False s \<noteq> None"

definition plain_digits :: "string \<Rightarrow> string" where
  "plain_digits s = filter is_digit s"

text \<open>The exponent after an \<open>e\<close>: a sign and at least one digit, to the end of the text.\<close>

definition exponent_of :: "string \<Rightarrow> int option" where
  "exponent_of s = (case s of
      [] \<Rightarrow> None
    | c # cs \<Rightarrow> (let neg = (c = CHR ''-''); body = (if c = CHR ''-'' \<or> c = CHR ''+'' then cs else s)
        in case digits_val 0 False body of
             None \<Rightarrow> None | Some n \<Rightarrow> Some (if neg then - int n else int n)))"

definition unsigned_float :: "string \<Rightarrow> (nat \<times> int) option" where
  "unsigned_float s = (let (ip, r1) = digit_run s;
       (fp, r2) = (case r1 of c # cs \<Rightarrow> if c = CHR ''.'' then digit_run cs else ([], r1) | [] \<Rightarrow> ([], r1));
       m = digits_nat (plain_digits ip @ plain_digits fp); k = int (length (plain_digits fp))
     in if \<not> run_ok ip \<or> \<not> run_ok fp \<or> plain_digits ip @ plain_digits fp = [] then None
        else (case r2 of
                [] \<Rightarrow> Some (m, k)
              | c # cs \<Rightarrow> if c = CHR ''e'' \<or> c = CHR ''E''
                  then map_option (\<lambda>e. (m, k - e)) (exponent_of cs) else None))"

definition float_of_str :: "string \<Rightarrow> pyfloat res" where
  "float_of_str s = (let t = strip s;
       neg = (case t of c # _ \<Rightarrow> c = CHR ''-'' | [] \<Rightarrow> False);
       u = (case t of c # cs \<Rightarrow> if c = CHR ''-'' \<or> c = CHR ''+'' then cs else t | [] \<Rightarrow> t);
       w = lower u
     in if w = ''inf'' \<or> w = ''infinity'' then Inr (FInf neg)
        else if w = ''nan'' then Inr FNan
        else (case unsigned_float u of
                None \<Rightarrow> Inl (Exn ''ValueError'' (''could not convert string to float: '' @ str_repr s))
              | Some (m, k) \<Rightarrow> Inr (FNum ((if neg then - int m else int m) * 10 ^ nat (- k)) (nat k))))"

fun py_float :: "pyval \<Rightarrow> pyfloat res" where
  "py_float (PBool b) = Inr (FNum (if b then 1 else 0) 0)"
| "py_float (PInt i) = Inr (FNum i 0)"
| "py_float (PFloat m k) = Inr (FNum m k)"
| "py_float (PStr s) = float_of_str s"
| "py_float v = Inl (Exn ''TypeError''
     (''float() argument must be a string or a real number, not '' @ str_repr (type_name v)))"

text \<open>\<open>a \<le> b\<close>; a comparison with \<open>nan\<close> is false.\<close>

fun float_le :: "pyfloat \<Rightarrow> pyfloat \<Rightarrow> bool" where
  "float_le (FNum m k) (FNum n l) = (m * 10 ^ l \<le> n * 10 ^ k)"
| "float_le (FInf neg) (FNum n l) = neg"
| "float_le (FNum m k) (FInf neg) = (\<not> neg)"
| "float_le (FInf a) (FInf b) = (a \<or> \<not> b)"
| "float_le a b = False"

section \<open>Lines\<close>

definition is_line_break :: "char \<Rightarrow> bool" where
  "is_line_break c = (let n = (of_char c :: nat) in (10 \<le> n \<and> n \<le> 13) \<or> (28 \<le> n \<and> n \<le> 30) \<or> n = 133)"

fun split_lines_acc :: "string \<Rightarrow> string \<Rightarrow> string list" where
  "split_lines_acc acc [] = (if acc = [] then [] else [rev acc])"
| "split_lines_acc acc [c] = (if is_line_break c then [rev acc] else [rev (c # acc)])"
| "split_lines_acc acc (c # d # cs) =
     (if (of_char c :: nat) = 13 \<and> (of_char d :: nat) = 10 then rev acc # split_lines_acc [] cs
      else if is_line_break c then rev acc # split_lines_acc [] (d # cs)
      else split_lines_acc (c # acc) (d # cs))"

definition split_lines :: "string \<Rightarrow> string list" where
  "split_lines s = split_lines_acc [] s"

section \<open>Fields of loosely typed dicts\<close>

text \<open>The helpers of \<open>core/metabolic/state_writer.py\<close>.\<close>

definition dict_field :: "dict \<Rightarrow> string \<Rightarrow> dict option" where
  "dict_field d k = as_dict (dict_get d k)"

definition int_field :: "dict \<Rightarrow> string \<Rightarrow> int res" where
  "int_field d k = py_int (py_or (dict_get d k) (PInt 0))"

definition str_field :: "dict \<Rightarrow> string \<Rightarrow> string \<Rightarrow> string" where
  "str_field d k dflt = py_str (py_or (dict_get d k) (PStr dflt))"

definition optional_str_field :: "dict \<Rightarrow> string \<Rightarrow> string option" where
  "optional_str_field d k = (case dict_get d k of PNone \<Rightarrow> None | v \<Rightarrow> Some (py_str v))"

end
