(* ===== verification/Immune.thy ===== *)
theory Immune
  imports Py_More Record_Stores
begin

text \<open>
  \<open>core/immune/policy.py\<close> and \<open>core/immune/constitution.py\<close>: which tools, modules and model
  switches the immune organ blocks, and the cached constitution file. The messages of the source
  are Chinese; a reason is a constructor here.
\<close>

section \<open>Tools\<close>

definition default_blocked_tools :: "string list" where
  "default_blocked_tools = [''evolution.evolve'', ''evolution.synthesize'', ''soul.update'',
     ''ethos.evolve'', ''skill.evolve'', ''subagent.run'']"

definition readonly_blocked_tool_names :: "string list" where
  "readonly_blocked_tool_names = [''config.set'', ''memory.add_semantic'', ''memory.set_fact'',
     ''schedule.add'', ''schedule.cancel'', ''task.plan'']"

definition readonly_allowed_task_tools :: "string list" where
  "readonly_allowed_task_tools = [''task.ask'', ''task.list'']"

definition readonly_allowed_local_memory_tools :: "string list" where
  "readonly_allowed_local_memory_tools = [''memory.add_wm'', ''memory.drop_wm'']"

datatype block_reason = Empty_Tool_Name | Blacklisted string

definition check_tool_blocked :: "string \<Rightarrow> block_reason option" where
  "check_tool_blocked name = (if name = [] then Some Empty_Tool_Name
     else if name \<in> set default_blocked_tools then Some (Blacklisted name) else None)"

text \<open>\<open>category\<close> is the manifest's \<open>progress_category\<close>, \<open>None\<close> without a manifest.\<close>

definition is_readonly_blocked_tool :: "string \<Rightarrow> string option \<Rightarrow> bool" where
  "is_readonly_blocked_tool name category =
     (if name = [] then True
      else if name \<in> set readonly_allowed_local_memory_tools then False
      else if name \<in> set readonly_blocked_tool_names then True
      else (startswith name ''task.'' \<and> name \<notin> set readonly_allowed_task_tools)
        \<or> category = Some ''mutation'')"

section \<open>Modules\<close>

definition immune_protected_modules :: "string list" where
  "immune_protected_modules = [''core.immune.policy'', ''core.immune.constitution'', ''core.metabolic.engine'']"

datatype audit_reason = Protected_Module string

definition audit_evolution_target :: "string \<Rightarrow> audit_reason option" where
  "audit_evolution_target m =
     (if m \<in> set immune_protected_modules then Some (Protected_Module m) else None)"

section \<open>The constitution\<close>

text \<open>The module's cache. A file is its text, \<open>None\<close> when the path does not exist.\<close>

record constitution =
  c_text :: "string option"
  c_hash :: "string option"
  c_path :: "string option"

definition no_constitution :: constitution where
  "no_constitution = \<lparr>c_text = None, c_hash = None, c_path = None\<rparr>"

definition load_constitution :: "string \<Rightarrow> string option \<Rightarrow> constitution \<Rightarrow> string \<times> constitution" where
  "load_constitution path file st = (case c_text st of
      Some t \<Rightarrow> (t, st)
    | None \<Rightarrow>
       (let text = (case file of None \<Rightarrow> [] | Some f \<Rightarrow> strip f)
        in if text = [] then ([], st\<lparr>c_text := Some [], c_hash := Some [], c_path := Some path\<rparr>)
           else (text, st\<lparr>c_text := Some text, c_hash := Some (sha256_hex text), c_path := Some path\<rparr>)))"

definition get_constitution_text :: "constitution \<Rightarrow> string" where
  "get_constitution_text st = (case c_text st of None \<Rightarrow> [] | Some t \<Rightarrow> t)"

definition verify_constitution_unchanged :: "string \<Rightarrow> string option \<Rightarrow> constitution \<Rightarrow> bool \<times> constitution" where
  "verify_constitution_unchanged path file st =
     (let st' = (if c_hash st = None then snd (load_constitution path file st) else st)
      in case file of
           None \<Rightarrow> (False, st')
         | Some f \<Rightarrow> (Some (sha256_hex (strip f)) = c_hash st', st'))"

text \<open>\<open>file_at\<close> reads the path that was loaded.\<close>

definition verify_constitution_integrity :: "(string \<Rightarrow> string option) \<Rightarrow> constitution \<Rightarrow> string" where
  "verify_constitution_integrity file_at st = (case (c_path st, c_hash st) of
      (Some p, Some h) \<Rightarrow> if h = [] then ''uninitialized''
        else (case file_at p of
                None \<Rightarrow> ''missing''
              | Some f \<Rightarrow> if sha256_hex (strip f) \<noteq> h then ''tampered'' else ''ok'')
    | _ \<Rightarrow> ''uninitialized'')"

definition clean_boundary_line :: "string \<Rightarrow> string" where
  "clean_boundary_line line =
     (if line = [] \<or> startswith line ''#'' \<or> startswith line ''>'' \<or> startswith line ''---'' then []
      else strip (dropWhile (\<lambda>c. c \<in> set ''-0123456789.) '') line))"

text \<open>The section whose title \<open>is_title\<close> accepts (a Chinese title in the source); without such
  lines the first ten plain lines of the text.\<close>

fun boundary_section :: "(string \<Rightarrow> bool) \<Rightarrow> bool \<Rightarrow> string list \<Rightarrow> string list" where
  "boundary_section is_title inside [] = []"
| "boundary_section is_title inside (raw # rest) = (let line = strip raw in
     if line = [] then boundary_section is_title inside rest
     else if startswith line ''## ''
     then (if is_title (strip line) then boundary_section is_title True rest
           else if inside then []
           else boundary_section is_title inside rest)
     else if inside \<and> clean_boundary_line line \<noteq> []
     then clean_boundary_line line # boundary_section is_title inside rest
     else boundary_section is_title inside rest)"

definition extract_constitution_boundaries :: "(string \<Rightarrow> bool) \<Rightarrow> string \<Rightarrow> string list" where
  "extract_constitution_boundaries is_title text =
     (let found = boundary_section is_title False (split_lines text)
      in if found \<noteq> [] then found
         else take 10 (filter (\<lambda>s. s \<noteq> []) (map (\<lambda>l. clean_boundary_line (strip l)) (split_lines text))))"

section \<open>The preflight of a model switch\<close>

definition ethos_dimensions :: "string list" where
  "ethos_dimensions = [''truth'', ''caution'', ''continuity'', ''curiosity'', ''care'']"

text \<open>Whether \<open>EthosValues.from_dict\<close> of \<open>core/perception/ethos.py\<close> returns: a dict whose dimensions
  are missing, \<open>None\<close> or convertible to \<open>float\<close>.\<close>

definition ethos_from_dict_ok :: "pyval \<Rightarrow> bool" where
  "ethos_from_dict_ok v = (case v of
      PDict d \<Rightarrow> list_all (\<lambda>dim. dict_get d dim = PNone \<or>
        (case py_float (dict_get d dim) of Inr x \<Rightarrow> True | Inl e \<Rightarrow> False)) ethos_dimensions
    | _ \<Rightarrow> False)"

datatype preflight_failure = Born_At_Missing | Ethos_Unparsable | Constitution_Not_Loaded

definition three_organ_preflight :: "facts \<Rightarrow> constitution \<Rightarrow> preflight_failure list" where
  "three_organ_preflight f st =
     (let (born_val, born_found) = get_fact f ''soul:born_at'';
          (ethos_json, ethos_found) = get_fact f ''soul:ethos_baseline''
      in (if \<not> born_found \<or> born_val = [] then [Born_At_Missing] else [])
       @ (if ethos_found \<and> ethos_json \<noteq> []
          then (case json_loads ethos_json of
                  Some v \<Rightarrow> if ethos_from_dict_ok v then [] else [Ethos_Unparsable]
                | None \<Rightarrow> [Ethos_Unparsable])
          else [])
       @ (case c_hash st of
            Some h \<Rightarrow> if h = [] then [Constitution_Not_Loaded] else []
          | None \<Rightarrow> [Constitution_Not_Loaded]))"

section \<open>Properties\<close>

lemma tool_block_sets:
  "set default_blocked_tools \<inter> set readonly_allowed_local_memory_tools = {}"
  "set readonly_blocked_tool_names \<inter> set readonly_allowed_local_memory_tools = {}"
  by (simp_all add: default_blocked_tools_def readonly_allowed_local_memory_tools_def
      readonly_blocked_tool_names_def)

lemma readonly_local_memory_allowed:
  "name \<in> set readonly_allowed_local_memory_tools \<Longrightarrow>
   \<not> is_readonly_blocked_tool name category \<and> check_tool_blocked name = None"
  by (auto simp: is_readonly_blocked_tool_def check_tool_blocked_def readonly_allowed_local_memory_tools_def
      default_blocked_tools_def)

text \<open>A loaded text is never replaced, and its hash stays the hash of the text.\<close>

definition constitution_ok :: "constitution \<Rightarrow> bool" where
  "constitution_ok st \<longleftrightarrow> (case c_text st of
      None \<Rightarrow> c_hash st = None \<and> c_path st = None
    | Some t \<Rightarrow> c_path st \<noteq> None \<and> strip t = t \<and> c_hash st = Some (if t = [] then [] else sha256_hex t))"

lemma constitution_ok_load:
  "constitution_ok st \<Longrightarrow> constitution_ok (snd (load_constitution path file st))"
  by (auto simp: constitution_ok_def load_constitution_def Let_def split: option.splits if_splits)

text \<open>The constitution is read once: after any load, later loads and verifications leave the
  cache as it is, whatever the file then holds; the cached hash is the SHA-256 of the cached text,
  and the integrity check answers \<open>ok\<close> exactly when the file's stripped text still has it.\<close>

theorem constitution_cached:
  assumes "constitution_ok st" "load_constitution path file st = (text, st')" "text \<noteq> []"
  shows "c_text st' = Some text \<and> c_hash st' = Some (sha256_hex text) \<and>
    load_constitution p2 f2 st' = (text, st') \<and>
    verify_constitution_unchanged p2 f2 st' =
      (case f2 of None \<Rightarrow> False | Some f \<Rightarrow> sha256_hex (strip f) = sha256_hex text, st') \<and>
    (\<exists>p. c_path st' = Some p \<and> (verify_constitution_integrity file_at st' = ''ok'' \<longleftrightarrow>
      (\<exists>f. file_at p = Some f \<and> sha256_hex (strip f) = sha256_hex text)))"
proof -
  have ok: "constitution_ok st'" using constitution_ok_load [OF assms(1)] assms(2) by (metis snd_conv)
  have t: "c_text st' = Some text"
    using assms(2) by (auto simp: load_constitution_def Let_def split: option.splits if_splits)
  with ok assms(3) obtain p where h: "c_hash st' = Some (sha256_hex text)" and p: "c_path st' = Some p"
    by (auto simp: constitution_ok_def)
  have ne: "sha256_hex text \<noteq> []" using length_sha256_hex by (metis list.size(3) zero_neq_numeral)
  show ?thesis
    using t h p ne
    by (auto simp: load_constitution_def verify_constitution_unchanged_def
        verify_constitution_integrity_def split: option.split)
qed

theorem constitution_cached_witness:
  "c_text (snd (load_constitution ''C.md'' (Some '' obey '') no_constitution)) = Some ''obey''"
proof -
  have st: "strip '' obey '' = ''obey''" by (simp add: strip_def lstrip_def is_space_def)
  have "load_constitution ''C.md'' (Some '' obey '') no_constitution =
      (''obey'', snd (load_constitution ''C.md'' (Some '' obey '') no_constitution))"
    by (simp add: load_constitution_def no_constitution_def Let_def st)
  from constitution_cached [OF _ this] show ?thesis
    by (simp add: constitution_ok_def no_constitution_def)
qed

text \<open>The preflight lets a model switch pass exactly when the birth time is stored, the ethos
  baseline is absent, empty or readable, and a constitution is loaded; a cache that was filled
  while the file was missing keeps blocking it although the file has appeared since.\<close>

theorem three_organ_preflight_passes:
  "(three_organ_preflight f st = [] \<longleftrightarrow>
     (snd (get_fact f ''soul:born_at'') \<and> fst (get_fact f ''soul:born_at'') \<noteq> [] \<and>
      (snd (get_fact f ''soul:ethos_baseline'') \<and> fst (get_fact f ''soul:ethos_baseline'') \<noteq> [] \<longrightarrow>
        (\<exists>v. json_loads (fst (get_fact f ''soul:ethos_baseline'')) = Some v \<and> ethos_from_dict_ok v)) \<and>
      (\<exists>h. c_hash st = Some h \<and> h \<noteq> [])))
   \<and> three_organ_preflight f (snd (load_constitution p (Some text)
        (snd (load_constitution p None no_constitution)))) \<noteq> []"
proof -
  have "snd (load_constitution p (Some text) (snd (load_constitution p None no_constitution))) =
      \<lparr>c_text = Some [], c_hash = Some [], c_path = Some p\<rparr>"
    by (simp add: load_constitution_def no_constitution_def)
  then show ?thesis
    by (auto simp: three_organ_preflight_def split: prod.split option.splits if_splits)
qed

theorem three_organ_preflight_passes_witness:
  "three_organ_preflight [(''soul:born_at'', \<lparr>fact_value = ''2024'', fact_scope = [], fact_updated_at = []\<rparr>)]
     \<lparr>c_text = Some ''obey'', c_hash = Some ''ab'', c_path = Some ''C.md''\<rparr> = []"
  by (subst conjunct1 [OF three_organ_preflight_passes]) (simp add: get_fact_def)

end
