(* ===== verification/State_Writer.thy ===== *)
theory State_Writer
  imports Task_State Run_Store Immune
begin

text \<open>
  \<open>core/metabolic/proposal.py\<close>, \<open>lifecycle_utils.py\<close> and \<open>state_writer.py\<close>: a proposal to
  write state, and the handlers that carry an allowed proposal out on the stores. The stores and
  the ledger together are the \<open>world\<close>; of the semantic memory the model keeps the nodes that were
  handed to \<open>upsert\<close>, in order.
\<close>

section \<open>The world\<close>

record node =
  n_id :: string
  n_kind :: string
  n_title :: string
  n_body :: string
  n_activation :: pyfloat
  n_valence :: pyfloat
  n_importance :: pyfloat
  n_tags :: "string list"
  n_source :: string
  n_created_at :: string

text \<open>\<open>w_semantic\<close> is \<open>None\<close> when there is no semantic memory.\<close>

record world =
  w_tasks :: tasks
  w_runs :: runs
  w_facts :: facts
  w_ledger :: ledger
  w_semantic :: "node list option"

text \<open>What comes from outside: the two formats of the current time, the text of a blocking
  reason, and the judgement of \<open>memory/consolidation.py\<close> on a semantic note.\<close>

record env =
  e_now_sql :: string
  e_now_iso :: string
  e_block_text :: "block_reason \<Rightarrow> string"
  e_low_value :: "string \<Rightarrow> string \<Rightarrow> string \<Rightarrow> bool"

section \<open>Proposals\<close>

record proposal =
  pr_op :: string
  pr_key :: string
  pr_value :: pyval
  pr_scope :: string
  pr_source :: string
  pr_run_id :: int
  pr_extras :: dict

definition decision_extras :: "string \<Rightarrow> dict" where
  "decision_extras basis = (if basis \<noteq> [] then [(''decision_basis'', PStr basis)] else [])"

definition decision_basis_from_parts :: "pyval list \<Rightarrow> string \<Rightarrow> int \<Rightarrow> string" where
  "decision_basis_from_parts parts fallback limit =
    (let txt = join '' | '' (map (\<lambda>p. strip (py_str p)) (filter (\<lambda>p. strip (str_or_empty p) \<noteq> []) parts));
         t = (if txt = [] \<and> fallback \<noteq> [] then fallback else txt)
     in slice_to limit (squeeze t))"

definition build_proposal ::
    "string \<Rightarrow> string \<Rightarrow> pyval \<Rightarrow> string \<Rightarrow> string \<Rightarrow> int \<Rightarrow> string \<Rightarrow> proposal" where
  "build_proposal op key value scope source run_id basis =
     \<lparr>pr_op = op, pr_key = key, pr_value = value, pr_scope = scope, pr_source = source,
      pr_run_id = run_id, pr_extras = decision_extras basis\<rparr>"

section \<open>Clipping\<close>

definition clip_persistent_text :: "string \<Rightarrow> string" where
  "clip_persistent_text s = clip_text ''persistent storage'' 12000 s"

definition compact_persistent_value :: "nat \<Rightarrow> pyval \<Rightarrow> pyval" where
  "compact_persistent_value d v = compact_tree clip_persistent_text 5 d v"

definition compact_persistent_mapping :: "dict \<Rightarrow> dict" where
  "compact_persistent_mapping d =
     (case compact_persistent_value 0 (PDict d) of PDict e \<Rightarrow> e | _ \<Rightarrow> [])"

section \<open>Results\<close>

record write_result =
  wr_result :: pyval
  wr_key :: string
  wr_accepted :: bool
  wr_reason :: string

definition accepted_as :: "pyval \<Rightarrow> string \<Rightarrow> write_result" where
  "accepted_as r key = \<lparr>wr_result = r, wr_key = key, wr_accepted = True, wr_reason = []\<rparr>"

definition refused :: "string \<Rightarrow> string \<Rightarrow> write_result" where
  "refused key reason = \<lparr>wr_result = PNone, wr_key = key, wr_accepted = False, wr_reason = reason\<rparr>"

definition proposal_data :: "proposal \<Rightarrow> dict" where
  "proposal_data p = (case pr_value p of PDict d \<Rightarrow> d | _ \<Rightarrow> [])"

definition proposal_task_id :: "proposal \<Rightarrow> int res" where
  "proposal_task_id p = int_of_str (pr_key p)"

section \<open>Facts\<close>

definition apply_fact_write :: "env \<Rightarrow> proposal \<Rightarrow> world \<Rightarrow> write_result res \<times> world" where
  "apply_fact_write e p w =
     (if pr_op p = ''set_fact''
      then (Inr (accepted_as PNone (pr_key p)), w\<lparr>w_facts :=
              set_fact (e_now_sql e) (pr_key p) (text_of (pr_value p)) (pr_scope p) (w_facts w)\<rparr>)
      else (Inr (accepted_as PNone (pr_key p)), w\<lparr>w_facts := delete_fact (pr_key p) (w_facts w)\<rparr>))"

definition soul_reason :: string where
  "soul_reason = ''soul_change key must start with '' @ str_repr ''soul:''"

definition apply_soul_change :: "env \<Rightarrow> proposal \<Rightarrow> world \<Rightarrow> write_result res \<times> world" where
  "apply_soul_change e p w =
     (if \<not> startswith (pr_key p) ''soul:'' then (Inr (refused (pr_key p) soul_reason), w)
      else (Inr (accepted_as PNone (pr_key p)), w\<lparr>w_facts :=
              set_fact (e_now_sql e) (pr_key p) (text_of (pr_value p)) (pr_scope p) (w_facts w)\<rparr>))"

section \<open>Tasks\<close>

definition add_task_keywords :: "string list" where
  "add_task_keywords = [''title'', ''goal'', ''priority'', ''source'', ''status'', ''next_step'',
     ''chain_id'', ''parent_task_id'', ''current_step'', ''wait_kind'', ''wait_key'', ''state_json'',
     ''wait_json'', ''result_json'', ''async_job_id'', ''model_tier'', ''extras'']"

text \<open>The call \<open>add_task(**data)\<close>: an unknown keyword or a missing title raises.\<close>

definition add_task_kwargs :: "dict \<Rightarrow> task_args res" where
  "add_task_kwargs d =
     (if \<exists>kv \<in> set d. fst kv \<notin> set add_task_keywords
      then Inl (Exn ''TypeError'' ''add_task() got an unexpected keyword argument'')
      else (case map_of d ''title'' of
          None \<Rightarrow> Inl (Exn ''TypeError'' ''add_task() missing 1 required positional argument'')
        | Some title \<Rightarrow> (let g = (\<lambda>k dflt. dict_get_or dflt d k); s = (\<lambda>k. dict_get_or (PStr []) d k)
            in Inr \<lparr>a_title = title, a_goal = s ''goal'', a_priority = g ''priority'' (PStr ''normal''),
              a_source = g ''source'' (PStr ''external''), a_status = g ''status'' (PStr ''pending''),
              a_next_step = s ''next_step'', a_chain_id = s ''chain_id'',
              a_parent_task_id = s ''parent_task_id'', a_current_step = s ''current_step'',
              a_wait_kind = s ''wait_kind'', a_wait_key = s ''wait_key'',
              a_state_json = g ''state_json'' PNone, a_wait_json = g ''wait_json'' PNone,
              a_result_json = g ''result_json'' PNone, a_async_job_id = s ''async_job_id'',
              a_model_tier = s ''model_tier'', a_extras = g ''extras'' PNone\<rparr>)))"

text \<open>Running an operation of the task store on the world.\<close>

definition on_tasks :: "'a res \<times> tasks \<Rightarrow> ('a \<Rightarrow> write_result) \<Rightarrow> world \<Rightarrow> write_result res \<times> world" where
  "on_tasks x f w = (bind_res (fst x) (\<lambda>a. Inr (f a)), w\<lparr>w_tasks := snd x\<rparr>)"

definition with_task_id ::
    "proposal \<Rightarrow> (int \<Rightarrow> world \<Rightarrow> write_result res \<times> world) \<Rightarrow> world \<Rightarrow> write_result res \<times> world" where
  "with_task_id p f w = (case proposal_task_id p of Inl e \<Rightarrow> (Inl e, w) | Inr i \<Rightarrow> f i w)"

definition done_key :: "proposal \<Rightarrow> 'a \<Rightarrow> write_result" where
  "done_key p a = accepted_as PNone (pr_key p)"

definition apply_create_task :: "env \<Rightarrow> proposal \<Rightarrow> world \<Rightarrow> write_result res \<times> world" where
  "apply_create_task e p w = (case add_task_kwargs (proposal_data p) of
      Inl x \<Rightarrow> (Inl x, w)
    | Inr a \<Rightarrow> on_tasks (add_task (e_now_sql e) a (w_tasks w))
        (\<lambda>i. accepted_as (PInt i) (''task:'' @ dec_int i)) w)"

definition apply_update_task_status :: "proposal \<Rightarrow> world \<Rightarrow> write_result res \<times> world" where
  "apply_update_task_status p = with_task_id p (\<lambda>i w. (let d = proposal_data p in on_tasks
     (update_status i (PStr (str_field d ''status'' [])) (dict_get d ''next_step'')
        (dict_get d ''current_step'') (dict_get d ''model_tier'') (dict_get d ''result_json'') (w_tasks w))
     (done_key p) w))"

definition apply_mark_task_waiting :: "proposal \<Rightarrow> world \<Rightarrow> write_result res \<times> world" where
  "apply_mark_task_waiting p = with_task_id p (\<lambda>i w. (let d = proposal_data p in on_tasks
     (mark_waiting i (PStr (str_field d ''wait_kind'' [])) (PStr (str_field d ''wait_key'' []))
        (dict_get d ''wait_json'') (dict_get d ''current_step'') (dict_get d ''next_step'')
        (dict_get d ''result_json'') (w_tasks w))
     (done_key p) w))"

definition apply_resume_task :: "proposal \<Rightarrow> world \<Rightarrow> write_result res \<times> world" where
  "apply_resume_task p = with_task_id p (\<lambda>i w. (let d = proposal_data p in on_tasks
     (resume_task i (PStr (str_field d ''status'' ''resumed'')) (dict_get d ''current_step'')
        (dict_get d ''next_step'') (dict_get d ''result_json'') (w_tasks w))
     (done_key p) w))"

definition apply_update_task_data :: "proposal \<Rightarrow> world \<Rightarrow> write_result res \<times> world" where
  "apply_update_task_data p = with_task_id p (\<lambda>i w.
     on_tasks (update_task_data i (proposal_data p) (w_tasks w)) (done_key p) w)"

definition task_result_value :: "proposal \<Rightarrow> dict" where
  "task_result_value p = (case pr_value p of PDict d \<Rightarrow> d | v \<Rightarrow> [(''value'', v)])"

definition apply_update_task_result :: "proposal \<Rightarrow> world \<Rightarrow> write_result res \<times> world" where
  "apply_update_task_result p = with_task_id p (\<lambda>i w. on_tasks
     (update_task_result i (PDict (compact_persistent_mapping (task_result_value p))) (w_tasks w))
     (done_key p) w)"

definition apply_amend_task :: "env \<Rightarrow> proposal \<Rightarrow> world \<Rightarrow> write_result res \<times> world" where
  "apply_amend_task e p = with_task_id p (\<lambda>i w. (let d = proposal_data p in on_tasks
     (amend_task (e_now_iso e) i (dict_get d ''title'') (dict_get d ''goal'') (dict_get d ''priority'')
        (str_field d ''amendment_reason'' []) (w_tasks w))
     (\<lambda>b. accepted_as (PBool b) (pr_key p)) w))"

section \<open>Runs\<close>

definition run_fields :: "dict \<Rightarrow> int \<Rightarrow> run_args" where
  "run_fields d task_id =
    (let m = (\<lambda>k. compact_persistent_mapping (case dict_field d k of None \<Rightarrow> [] | Some x \<Rightarrow> x));
         c = (\<lambda>k. clip_persistent_text (str_field d k []))
     in \<lparr>ra_task_id = task_id, ra_run_type = str_field d ''run_type'' ''tool_chain'',
         ra_worker_type = str_field d ''worker_type'' ''tool-chain-worker'',
         ra_status = str_field d ''status'' ''running'', ra_input_json = m ''input_json'',
         ra_output_json = m ''output_json'', ra_log_text = c ''log_text'',
         ra_error_text = c ''error_text'', ra_tool_name = str_field d ''tool_name'' [],
         ra_session_id = str_field d ''session_id'' [], ra_model_tier = str_field d ''model_tier'' [],
         ra_progress = c ''progress'', ra_extras = m ''extras''\<rparr>)"

definition apply_add_run :: "env \<Rightarrow> proposal \<Rightarrow> world \<Rightarrow> write_result res \<times> world" where
  "apply_add_run e p w = (let d = proposal_data p in case int_field d ''task_id'' of
      Inl x \<Rightarrow> (Inl x, w)
    | Inr k \<Rightarrow> (let (i, rs) = add_run (e_now_iso e) (run_fields d k) (w_runs w)
        in (Inr (accepted_as (PInt i) (''run:'' @ dec_int i)), w\<lparr>w_runs := rs\<rparr>)))"

text \<open>A caller passes an \<open>int\<close> or \<open>None\<close> as the task id of a run.\<close>

fun task_id_field :: "pyval \<Rightarrow> int option" where
  "task_id_field (PInt i) = Some i"
| "task_id_field (PBool b) = Some (if b then 1 else 0)"
| "task_id_field v = None"

definition run_patch_fields :: "dict \<Rightarrow> run_patch" where
  "run_patch_fields d =
    (let c = (\<lambda>k. map_option clip_persistent_text (optional_str_field d k))
     in \<lparr>rp_task_id = task_id_field (dict_get d ''task_id''), rp_status = optional_str_field d ''status'',
         rp_output_json = map_option compact_persistent_mapping (dict_field d ''output_json''),
         rp_log_text = c ''log_text'', rp_error_text = c ''error_text'',
         rp_session_id = optional_str_field d ''session_id'',
         rp_model_tier = optional_str_field d ''model_tier'', rp_progress = c ''progress'',
         rp_extras = (case map_option compact_persistent_mapping (dict_field d ''extras'') of
            None \<Rightarrow> [] | Some x \<Rightarrow> x)\<rparr>)"

definition apply_update_run :: "env \<Rightarrow> proposal \<Rightarrow> world \<Rightarrow> write_result res \<times> world" where
  "apply_update_run e p = with_task_id p (\<lambda>i w.
     (Inr (accepted_as PNone (''run:'' @ pr_key p)),
      w\<lparr>w_runs := update_run (e_now_iso e) i (run_patch_fields (proposal_data p)) (w_runs w)\<rparr>))"

section \<open>Semantic memory\<close>

definition semantic_direct_blocked_kinds :: "string list" where
  "semantic_direct_blocked_kinds =
     [''run_result'', ''task_progress'', ''working_trace'', ''execute_result'', ''run_monitor'']"

definition direct_source :: "string \<Rightarrow> bool" where
  "direct_source source \<longleftrightarrow> source = ''tools/memory.add_semantic'' \<or> startswith source ''subagent:''"

definition semantic_write_is_operational_noise :: "string \<Rightarrow> string \<Rightarrow> bool" where
  "semantic_write_is_operational_noise kind source =
     (if kind \<notin> set semantic_direct_blocked_kinds then False
      else if direct_source source then True
      else source = ''loop/consolidation'' \<and> kind \<in> {''working_trace'', ''execute_result'', ''run_monitor''})"

text \<open>The marker with Chinese characters cannot occur in a text of the model.\<close>

definition raw_operational_markers :: "string list" where
  "raw_operational_markers = [''stdout'', ''stderr'', ''traceback'', ''process exited with code'',
     ''exit code'', ''wall time'', ''run_id'', ''tool='', ''status='', ''[execute_result]'', ''command:'']"

definition looks_like_raw_operational_text :: "string \<Rightarrow> string \<Rightarrow> bool" where
  "looks_like_raw_operational_text title body =
    (let t = lower (title @ [char_of (10::nat)] @ body);
         hits = length (filter (\<lambda>m. contains t m) raw_operational_markers);
         lines = filter (\<lambda>l. l \<noteq> []) (map strip (split_lines body));
         long_lines = length (filter (\<lambda>l. 240 < length l) lines);
         jsonish = length (filter (\<lambda>l. (startswith l ''{'' \<or> startswith l ''['') \<and>
                      (endswith l ''}'' \<or> endswith l '']'')) lines)
     in if hits = 0 then False
        else if 2 \<le> hits \<and> 200 < length body then True
        else if 1200 < length body \<and> (8 \<le> length lines \<or> 3 \<le> long_lines) then True
        else 40 \<le> length lines \<and> 8 \<le> jsonish)"

definition semantic_write_has_raw_operational_body :: "string \<Rightarrow> string \<Rightarrow> string \<Rightarrow> bool" where
  "semantic_write_has_raw_operational_body title body source =
     (direct_source source \<and> looks_like_raw_operational_text title body)"

text \<open>\<open>str(data.get(k) or x)\<close>, and \<open>float(data.get(k, dflt))\<close>.\<close>

definition str_or :: "dict \<Rightarrow> string \<Rightarrow> string \<Rightarrow> string" where
  "str_or d k x = py_str (py_or (dict_get d k) (PStr x))"

definition semantic_node :: "env \<Rightarrow> proposal \<Rightarrow> node res" where
  "semantic_node e p =
    (let d = proposal_data p in
     bind_res (py_float (dict_get_or (PFloat 5 1) d ''activation'')) (\<lambda>act.
     bind_res (py_float (dict_get_or (PFloat 5 1) d ''valence'')) (\<lambda>val.
     bind_res (py_float (dict_get_or (PFloat 0 1) d ''importance'')) (\<lambda>imp.
       Inr \<lparr>n_id = str_or d ''id'' (pr_key p), n_kind = str_or d ''kind'' ''observation'',
         n_title = str_or d ''title'' [], n_body = clip_persistent_text (str_or d ''body'' []),
         n_activation = act, n_valence = val, n_importance = imp,
         n_tags = (case dict_get d ''tags'' of PList vs \<Rightarrow> map py_str vs | _ \<Rightarrow> []),
         n_source = str_or d ''source'' (pr_source p),
         n_created_at = (let s = strip (str_or_empty (dict_get d ''created_at''))
            in if s = [] then e_now_iso e else s)\<rparr>))))"

definition apply_semantic_write :: "env \<Rightarrow> proposal \<Rightarrow> world \<Rightarrow> write_result res \<times> world" where
  "apply_semantic_write e p w = (case w_semantic w of
      None \<Rightarrow> (Inr (refused (pr_key p) ''semantic_memory_unavailable''), w)
    | Some nodes \<Rightarrow>
       (let d = proposal_data p; kind = str_or d ''kind'' ''observation'';
            source = str_or d ''source'' (pr_source p); title = str_or d ''title'' [];
            body = str_or d ''body'' []
        in if semantic_write_is_operational_noise kind source
           then (Inr (refused (pr_key p) (''semantic_operational_noise:'' @ kind)), w)
           else if semantic_write_has_raw_operational_body title body source
           then (Inr (refused (pr_key p) ''semantic_operational_body''), w)
           else if e_low_value e kind title body
           then (Inr (refused (pr_key p) ''semantic_low_value_process_note''), w)
           else (case semantic_node e p of
                   Inl x \<Rightarrow> (Inl x, w)
                 | Inr n \<Rightarrow> (Inr (accepted_as (PStr (n_id n)) (''semantic:'' @ n_id n)),
                     w\<lparr>w_semantic := Some (nodes @ [n])\<rparr>))))"

section \<open>Dispatch\<close>

definition task_write_ops :: "string list" where
  "task_write_ops = [''create_task'', ''update_task_status'', ''mark_task_waiting'', ''resume_task'',
     ''update_task_data'', ''update_task_result'', ''amend_task'', ''add_run'', ''update_run'']"

definition apply_task_write :: "env \<Rightarrow> proposal \<Rightarrow> world \<Rightarrow> write_result res \<times> world" where
  "apply_task_write e p =
     (if pr_op p = ''create_task'' then apply_create_task e p
      else if pr_op p = ''update_task_status'' then apply_update_task_status p
      else if pr_op p = ''mark_task_waiting'' then apply_mark_task_waiting p
      else if pr_op p = ''resume_task'' then apply_resume_task p
      else if pr_op p = ''update_task_data'' then apply_update_task_data p
      else if pr_op p = ''update_task_result'' then apply_update_task_result p
      else if pr_op p = ''add_run'' then apply_add_run e p
      else if pr_op p = ''update_run'' then apply_update_run e p
      else apply_amend_task e p)"

definition apply_state_write :: "env \<Rightarrow> proposal \<Rightarrow> world \<Rightarrow> write_result res \<times> world" where
  "apply_state_write e p w =
     (if pr_op p \<in> {''set_fact'', ''delete_fact''} then apply_fact_write e p w
      else if pr_op p = ''soul_change'' then apply_soul_change e p w
      else if pr_op p \<in> set task_write_ops then apply_task_write e p w
      else if pr_op p = ''add_semantic_memory'' then apply_semantic_write e p w
      else (Inr (refused (pr_key p) ''unknown_op''), w))"

end
