(* ===== verification/Metabolic.thy ===== *)
theory Metabolic
  imports State_Writer
begin

text \<open>
  \<open>core/metabolic/engine.py\<close> and the submitters of \<open>fact_lifecycle.py\<close>, \<open>soul_lifecycle.py\<close>,
  \<open>task_lifecycle.py\<close>, \<open>run_lifecycle.py\<close> and \<open>semantic_lifecycle.py\<close>: the only way state is
  written. A proposal is checked, carried out and always entered in the ledger.
\<close>

section \<open>Ledger texts and the hash of a proposal\<close>

definition ledger_value_max_chars :: nat where
  "ledger_value_max_chars = 16000"

definition clip_ledger_text :: "string \<Rightarrow> string" where
  "clip_ledger_text s = clip_text ''life_ledger value'' ledger_value_max_chars s"

definition ledger_value :: "pyval \<Rightarrow> string" where
  "ledger_value v = (case v of
      PNone \<Rightarrow> []
    | PDict d \<Rightarrow> clip_ledger_text (json_dumps False v)
    | PList vs \<Rightarrow> clip_ledger_text (json_dumps False v)
    | _ \<Rightarrow> clip_ledger_text (py_str v))"

fun proposal_hash_value :: "pyval \<Rightarrow> pyval" where
  "proposal_hash_value (PStr s) = (if ledger_value_max_chars < length s
     then PDict [(''storage'', PStr ''sha256''), (''chars'', PInt (int (length s))),
                 (''sha256'', PStr (sha256_hex s))]
     else PStr s)"
| "proposal_hash_value (PDict d) = PDict (map (\<lambda>kv. (fst kv, proposal_hash_value (snd kv))) d)"
| "proposal_hash_value (PList vs) = PList (map proposal_hash_value vs)"
| "proposal_hash_value v = v"

definition proposal_hash :: "proposal \<Rightarrow> string" where
  "proposal_hash p = sha256_hex (json_dumps True (PDict
     [(''op'', PStr (pr_op p)), (''key'', PStr (pr_key p)), (''value'', proposal_hash_value (pr_value p)),
      (''scope'', PStr (pr_scope p)), (''source'', PStr (pr_source p)), (''run_id'', PInt (pr_run_id p)),
      (''extras'', PDict (pr_extras p))]))"

definition write_error_reason :: "exn \<Rightarrow> string" where
  "write_error_reason x = decision_basis_from_parts
     [PStr ''write_error'', PStr (exn_class x), PStr (exn_msg x)] [] 500"

section \<open>The engine\<close>

definition pseudo_tool_name :: "proposal \<Rightarrow> string" where
  "pseudo_tool_name p =
     (if pr_op p \<in> {''set_fact'', ''delete_fact''} then ''fact:'' @ pr_key p else pr_op p)"

definition proposal_basis :: "proposal \<Rightarrow> string" where
  "proposal_basis p = decision_basis_from_parts
     [py_or (py_or (dict_get (pr_extras p) ''decision_basis'') (dict_get (pr_extras p) ''basis'')) (PStr [])]
     [] 1000"

definition ledger_entry :: "env \<Rightarrow> proposal \<Rightarrow> string \<Rightarrow> bool \<Rightarrow> string \<Rightarrow> ledger_row" where
  "ledger_entry e p key ok reason =
     \<lparr>lg_ts = e_now_sql e, lg_op = pr_op p, lg_key = key, lg_value = ledger_value (pr_value p),
      lg_scope = pr_scope p, lg_source = pr_source p, lg_accepted = ok, lg_run_id = pr_run_id p,
      lg_reason = reason, lg_hash = proposal_hash p, lg_basis = proposal_basis p\<rparr>"

definition append_lifecycle_ledger ::
    "env \<Rightarrow> proposal \<Rightarrow> string \<Rightarrow> bool \<Rightarrow> string \<Rightarrow> world \<Rightarrow> world" where
  "append_lifecycle_ledger e p key ok reason w =
     w\<lparr>w_ledger := ledger_append (ledger_entry e p key ok reason) (w_ledger w)\<rparr>"

definition submit :: "env \<Rightarrow> proposal \<Rightarrow> world \<Rightarrow> pyval res \<times> world" where
  "submit e p w = (case check_tool_blocked (pseudo_tool_name p) of
      Some b \<Rightarrow> (Inr PNone, append_lifecycle_ledger e p (pr_key p) False
         (if e_block_text e b = [] then ''immune_blocked'' else e_block_text e b) w)
    | None \<Rightarrow> (case apply_state_write e p w of
          (Inl x, w') \<Rightarrow>
            (Inl x, append_lifecycle_ledger e p (pr_key p) False (write_error_reason x) w')
        | (Inr r, w') \<Rightarrow>
            (Inr (wr_result r), append_lifecycle_ledger e p (wr_key r) (wr_accepted r) (wr_reason r) w')))"

section \<open>The submitters\<close>

text \<open>With a metabolic organ at hand (\<open>resolve_metabolic\<close> finds one).\<close>

definition submit_fact ::
    "env \<Rightarrow> string \<Rightarrow> pyval \<Rightarrow> string \<Rightarrow> string \<Rightarrow> int \<Rightarrow> string \<Rightarrow> world \<Rightarrow> bool res \<times> world" where
  "submit_fact e key value scope source run_id basis w =
    (let (r, w') = submit e (build_proposal ''set_fact'' key value scope source run_id basis) w
     in (bind_res r (\<lambda>v. Inr True), w'))"

definition submit_delete_fact ::
    "env \<Rightarrow> string \<Rightarrow> string \<Rightarrow> string \<Rightarrow> int \<Rightarrow> string \<Rightarrow> world \<Rightarrow> bool res \<times> world" where
  "submit_delete_fact e key scope source run_id basis w =
    (let (r, w') = submit e (build_proposal ''delete_fact'' key (PStr []) scope source run_id basis) w
     in (bind_res r (\<lambda>v. Inr True), w'))"

definition validate_soul_key :: "string \<Rightarrow> string res" where
  "validate_soul_key key = (let k = strip key in
     if k = [] then Inl (Exn ''ValueError'' ''soul fact key cannot be empty'')
     else if \<not> startswith k ''soul:''
     then Inl (Exn ''ValueError'' (''soul fact key must start with '' @ str_repr ''soul:'' @ '', got '' @ str_repr k))
     else Inr k)"

definition set_soul_fact ::
    "env \<Rightarrow> string \<Rightarrow> pyval \<Rightarrow> string \<Rightarrow> string \<Rightarrow> int \<Rightarrow> string \<Rightarrow> world \<Rightarrow> bool res \<times> world" where
  "set_soul_fact e key value scope source run_id basis w = (case validate_soul_key key of
      Inl x \<Rightarrow> (Inl x, w)
    | Inr k \<Rightarrow>
       (let (r, w') = submit e (build_proposal ''soul_change'' k value scope source run_id basis) w
        in (bind_res r (\<lambda>v. Inr True), w')))"

definition create_task :: "env \<Rightarrow> string \<Rightarrow> string \<Rightarrow> dict \<Rightarrow> world \<Rightarrow> int res \<times> world" where
  "create_task e source basis data w =
    (let (r, w') = submit e (build_proposal ''create_task'' ''task:new'' (PDict data) ''task'' source 0 basis) w
     in (bind_res r py_int, w'))"

text \<open>The submitters that return nothing: the operation, the task, and the value they build.\<close>

definition submit_task_op ::
    "string \<Rightarrow> env \<Rightarrow> int \<Rightarrow> pyval \<Rightarrow> string \<Rightarrow> string \<Rightarrow> world \<Rightarrow> unit res \<times> world" where
  "submit_task_op op e i value source basis w =
    (let (r, w') = submit e (build_proposal op (dec_int i) value ''task'' source 0 basis) w
     in (bind_res r (\<lambda>v. Inr ()), w'))"

definition submit_update_task_status where
  "submit_update_task_status e i status next_step current_step model_tier result_json =
     submit_task_op ''update_task_status'' e i (PDict [(''status'', status), (''next_step'', next_step),
       (''current_step'', current_step), (''model_tier'', model_tier), (''result_json'', result_json)])"

definition submit_mark_task_waiting where
  "submit_mark_task_waiting e i wait_kind wait_key wait_json current_step next_step result_json =
     submit_task_op ''mark_task_waiting'' e i (PDict [(''wait_kind'', wait_kind), (''wait_key'', wait_key),
       (''wait_json'', wait_json), (''current_step'', current_step), (''next_step'', next_step),
       (''result_json'', result_json)])"

definition submit_resume_task where
  "submit_resume_task e i status current_step next_step result_json =
     submit_task_op ''resume_task'' e i (PDict [(''status'', status), (''current_step'', current_step),
       (''next_step'', next_step), (''result_json'', result_json)])"

definition submit_update_task_data where
  "submit_update_task_data e i data = submit_task_op ''update_task_data'' e i (PDict data)"

definition submit_update_task_result where
  "submit_update_task_result e i v = submit_task_op ''update_task_result'' e i
     (case v of PDict d \<Rightarrow> v | _ \<Rightarrow> PDict [(''value'', v)])"

definition submit_amend_task ::
    "env \<Rightarrow> int \<Rightarrow> pyval \<Rightarrow> pyval \<Rightarrow> pyval \<Rightarrow> pyval \<Rightarrow> string \<Rightarrow> string \<Rightarrow> world \<Rightarrow> bool res \<times> world" where
  "submit_amend_task e i title goal priority reason source basis w =
    (let (r, w') = submit e (build_proposal ''amend_task'' (dec_int i) (PDict [(''title'', title),
           (''goal'', goal), (''priority'', priority), (''amendment_reason'', reason)]) ''task'' source 0 basis) w
     in (bind_res r (\<lambda>v. Inr (truthy v)), w'))"

definition int_or_zero :: "pyval \<Rightarrow> int" where
  "int_or_zero v = (case py_int (py_or v (PInt 0)) of Inl x \<Rightarrow> 0 | Inr i \<Rightarrow> i)"

definition run_value :: "run_args \<Rightarrow> pyval" where
  "run_value a = PDict [(''task_id'', PInt (ra_task_id a)), (''run_type'', PStr (ra_run_type a)),
     (''worker_type'', PStr (ra_worker_type a)), (''status'', PStr (ra_status a)),
     (''input_json'', PDict (ra_input_json a)), (''output_json'', PDict (ra_output_json a)),
     (''log_text'', PStr (ra_log_text a)), (''error_text'', PStr (ra_error_text a)),
     (''tool_name'', PStr (ra_tool_name a)), (''session_id'', PStr (ra_session_id a)),
     (''model_tier'', PStr (ra_model_tier a)), (''progress'', PStr (ra_progress a)),
     (''extras'', PDict (ra_extras a))]"

definition submit_add_run :: "env \<Rightarrow> run_args \<Rightarrow> string \<Rightarrow> int \<Rightarrow> string \<Rightarrow> world \<Rightarrow> int res \<times> world" where
  "submit_add_run e a source run_id basis w =
    (let (r, w') = submit e (build_proposal ''add_run'' ''run:new'' (run_value a) ''run'' source run_id basis) w
     in (bind_res r (\<lambda>v. Inr (int_or_zero v)), w'))"

definition opt_val :: "('a \<Rightarrow> pyval) \<Rightarrow> 'a option \<Rightarrow> pyval" where
  "opt_val f v = (case v of None \<Rightarrow> PNone | Some x \<Rightarrow> f x)"

definition run_patch_value :: "run_patch \<Rightarrow> pyval" where
  "run_patch_value p = PDict [(''task_id'', opt_val PInt (rp_task_id p)),
     (''status'', opt_val PStr (rp_status p)), (''output_json'', opt_val PDict (rp_output_json p)),
     (''log_text'', opt_val PStr (rp_log_text p)), (''error_text'', opt_val PStr (rp_error_text p)),
     (''session_id'', opt_val PStr (rp_session_id p)), (''model_tier'', opt_val PStr (rp_model_tier p)),
     (''progress'', opt_val PStr (rp_progress p)), (''extras'', PDict (rp_extras p))]"

definition submit_update_run ::
    "env \<Rightarrow> int \<Rightarrow> run_patch \<Rightarrow> string \<Rightarrow> int \<Rightarrow> string \<Rightarrow> world \<Rightarrow> unit res \<times> world" where
  "submit_update_run e i p source run_id basis w =
    (let (r, w') = submit e (build_proposal ''update_run'' (dec_int i) (run_patch_value p) ''run'' source run_id basis) w
     in (bind_res r (\<lambda>v. Inr ()), w'))"

definition semantic_memory_value ::
    "string \<Rightarrow> string \<Rightarrow> string \<Rightarrow> string \<Rightarrow> pyval \<Rightarrow> pyval \<Rightarrow> pyval \<Rightarrow> string list \<Rightarrow> string \<Rightarrow> string \<Rightarrow> pyval" where
  "semantic_memory_value node_id kind title body act val imp tags created source = PDict
     [(''id'', PStr node_id), (''kind'', PStr kind), (''title'', PStr title), (''body'', PStr body),
      (''activation'', act), (''valence'', val), (''importance'', imp),
      (''tags'', PList (map PStr tags)), (''created_at'', PStr created), (''source'', PStr source)]"

definition add_semantic_memory ::
    "env \<Rightarrow> string \<Rightarrow> pyval \<Rightarrow> string \<Rightarrow> int \<Rightarrow> string \<Rightarrow> world \<Rightarrow> string res \<times> world" where
  "add_semantic_memory e node_id value source run_id basis w =
    (let (r, w') = submit e (build_proposal ''add_semantic_memory'' node_id value ''semantic'' source run_id basis) w
     in (bind_res r (\<lambda>v. if \<not> truthy v
           then Inl (Exn ''RuntimeError'' (''semantic memory write rejected: '' @ node_id))
           else Inr (py_str v)), w'))"

section \<open>Lemmas\<close>

text \<open>The state proper: everything but the ledger.\<close>

definition same_state :: "world \<Rightarrow> world \<Rightarrow> bool" where
  "same_state w w' \<longleftrightarrow> w_tasks w' = w_tasks w \<and> w_runs w' = w_runs w \<and> w_facts w' = w_facts w \<and>
     w_semantic w' = w_semantic w"

definition world_ok :: "world \<Rightarrow> bool" where
  "world_ok w \<longleftrightarrow> tasks_ok (w_tasks w) \<and> tbl_ok (w_runs w) \<and> facts_ok (w_facts w) \<and> tbl_ok (w_ledger w)"

lemma same_state_refl [simp]: "same_state w w"
  by (simp add: same_state_def)

lemma same_state_ledger [simp]: "same_state w (append_lifecycle_ledger e p key ok reason w') = same_state w w'"
  by (simp add: same_state_def append_lifecycle_ledger_def)

lemma on_tasks_parts [simp]:
  "w_ledger (snd (on_tasks x f w)) = w_ledger w" "w_runs (snd (on_tasks x f w)) = w_runs w"
  "w_facts (snd (on_tasks x f w)) = w_facts w" "w_semantic (snd (on_tasks x f w)) = w_semantic w"
  "w_tasks (snd (on_tasks x f w)) = snd x"
  by (simp_all add: on_tasks_def)

lemmas apply_task_defs = apply_update_task_status_def apply_mark_task_waiting_def apply_resume_task_def
  apply_update_task_data_def apply_update_task_result_def apply_amend_task_def

text \<open>Every handler of the task operations runs at most one step of the task store or of the run
  store.\<close>

definition task_effect :: "world \<Rightarrow> world \<Rightarrow> bool" where
  "task_effect w w' \<longleftrightarrow> (\<exists>t r. w' = w\<lparr>w_tasks := t, w_runs := r\<rparr> \<and>
     (t = w_tasks w \<or> task_step (w_tasks w) t) \<and> (r = w_runs w \<or> run_step (w_runs w) r))"

lemma task_effect_refl [simp]: "task_effect w w"
  unfolding task_effect_def by (intro exI [of _ "w_tasks w"] exI [of _ "w_runs w"]) simp

lemma task_effect_tasks: "task_step (w_tasks w) (snd x) \<Longrightarrow> task_effect w (snd (on_tasks x f w))"
  unfolding task_effect_def on_tasks_def
  by (intro exI [of _ "snd x"] exI [of _ "w_runs w"]) simp

lemma task_effect_runs: "run_step (w_runs w) rs \<Longrightarrow> task_effect w (w\<lparr>w_runs := rs\<rparr>)"
  unfolding task_effect_def by (intro exI [of _ "w_tasks w"] exI [of _ rs]) simp

lemma task_effect_with:
  "(\<And>i. task_effect w (snd (f i w))) \<Longrightarrow> task_effect w (snd (with_task_id p f w))"
  by (simp add: with_task_id_def split: sum.split)

lemma task_effect_apply: "task_effect w (snd (apply_task_write e p w))"
proof -
  have "task_effect w (snd (apply_create_task e p w))"
    by (auto simp: apply_create_task_def split: sum.split intro: task_effect_tasks step_add)
  moreover have "task_effect w (snd (apply_update_task_status p w))"
    unfolding apply_update_task_status_def Let_def by (intro task_effect_with task_effect_tasks step_status)
  moreover have "task_effect w (snd (apply_mark_task_waiting p w))"
    unfolding apply_mark_task_waiting_def Let_def by (intro task_effect_with task_effect_tasks step_wait)
  moreover have "task_effect w (snd (apply_resume_task p w))"
    unfolding apply_resume_task_def Let_def by (intro task_effect_with task_effect_tasks step_resume)
  moreover have "task_effect w (snd (apply_update_task_data p w))"
    unfolding apply_update_task_data_def by (intro task_effect_with task_effect_tasks step_data)
  moreover have "task_effect w (snd (apply_update_task_result p w))"
    unfolding apply_update_task_result_def by (intro task_effect_with task_effect_tasks step_result)
  moreover have "task_effect w (snd (apply_amend_task e p w))"
    unfolding apply_amend_task_def Let_def by (intro task_effect_with task_effect_tasks step_amend)
  moreover have "task_effect w (snd (apply_update_run e p w))"
    unfolding apply_update_run_def
    by (rule task_effect_with) (simp add: task_effect_runs run_update)
  moreover have "task_effect w (snd (apply_add_run e p w))"
    using task_effect_runs [OF run_add]
    by (simp add: apply_add_run_def Let_def case_prod_beta split: sum.split)
  ultimately show ?thesis by (simp add: apply_task_write_def)
qed

lemma task_effect_world_ok: "task_effect w w' \<Longrightarrow> world_ok w \<Longrightarrow> world_ok w'"
  using task_step_ok run_step_kept by (fastforce simp: task_effect_def world_ok_def)

lemma apply_state_write_ledger [simp]: "w_ledger (snd (apply_state_write e p w)) = w_ledger w"
proof -
  have "w_ledger (snd (apply_task_write e p w)) = w_ledger w"
    using task_effect_apply [of w e p] by (auto simp: task_effect_def)
  then show ?thesis
    by (simp add: apply_state_write_def apply_fact_write_def apply_soul_change_def
        apply_semantic_write_def Let_def split: option.split sum.split)
qed

lemma world_ok_apply: "world_ok w \<Longrightarrow> world_ok (snd (apply_state_write e p w))"
  using task_effect_world_ok [OF task_effect_apply [of w e p]]
  by (auto simp: apply_state_write_def apply_fact_write_def apply_soul_change_def
      apply_semantic_write_def Let_def world_ok_def split: option.split sum.split)

lemma submit_world:
  "\<exists>key ok reason. snd (submit e p w) = append_lifecycle_ledger e p key ok reason
     (if check_tool_blocked (pseudo_tool_name p) = None then snd (apply_state_write e p w) else w)"
  by (auto simp: submit_def split: option.split prod.split sum.split)

lemma world_ok_submit: "world_ok w \<Longrightarrow> world_ok (snd (submit e p w))"
  using submit_world [of e p w] world_ok_apply [of w e p] lg.ok_app
  by (auto simp: world_ok_def append_lifecycle_ledger_def split: if_splits)

section \<open>Every proposal is entered\<close>

lemma refused_same_state:
  assumes "apply_state_write e p w = (Inr r, w')" "\<not> wr_accepted r"
  shows "w' = w \<and> wr_result r = PNone"
proof -
  have acc: "wr_accepted r'" if "apply_task_write e p w = (Inr r', w'')" for r' w''
    using that
    by (auto simp: apply_task_write_def apply_create_task_def apply_task_defs apply_add_run_def
        apply_update_run_def with_task_id_def on_tasks_def bind_res_def done_key_def accepted_as_def Let_def
        split: if_splits sum.splits prod.splits)
  show ?thesis
    using assms acc
    by (auto simp: apply_state_write_def apply_fact_write_def apply_soul_change_def
        apply_semantic_write_def refused_def accepted_as_def Let_def
        split: if_splits option.splits sum.splits)
qed

lemma ledger_after:
  assumes "world_ok w"
  shows "ledger_entries (w_ledger (append_lifecycle_ledger e p key ok reason w)) =
    ledger_entries (w_ledger w) @ [ledger_norm (ledger_entry e p key ok reason)]"
  using lg.entries_app assms by (simp add: append_lifecycle_ledger_def world_ok_def)

lemma ledger_norm_simps [simp]:
  "lg_op (ledger_norm r) = lg_op r" "lg_accepted (ledger_norm r) = lg_accepted r"
  "lg_hash (ledger_norm r) = lg_hash r" "lg_source (ledger_norm r) = lg_source r"
  "lg_run_id (ledger_norm r) = lg_run_id r" "lg_key (ledger_norm r) = lg_key r"
  "lg_reason (ledger_norm r) = short_text ''life_ledger reason'' (lg_reason r)"
  by (simp_all add: ledger_norm_def)


section \<open>The immune gate\<close>

lemma gate_iff:
  "check_tool_blocked (pseudo_tool_name p) \<noteq> None \<longleftrightarrow> pr_op p \<in> set ([] # default_blocked_tools)"
  by (auto simp: check_tool_blocked_def pseudo_tool_name_def default_blocked_tools_def)

lemma submit_same_state: "same_state (snd (apply_state_write e p w)) (snd (submit e p w))"
proof -
  have "snd (apply_state_write e p w) = w" if "pr_op p \<in> set ([] # default_blocked_tools)"
    using that by (auto simp: apply_state_write_def task_write_ops_def default_blocked_tools_def)
  with gate_iff [of p] submit_world [of e p w] show ?thesis
    by (cases "check_tool_blocked (pseudo_tool_name p) = None") auto
qed

text \<open>The immune check of the engine never prevents a write. What it blocks are the empty
  operation and the six blacklisted tool names, and none of them is an operation the writer knows;
  so tasks, runs, facts and semantic memory after a submission are those the bare writer leaves.\<close>

theorem immune_gate_vacuous:
  "(check_tool_blocked (pseudo_tool_name p) \<noteq> None \<longleftrightarrow> pr_op p \<in> set ([] # default_blocked_tools)) \<and>
   same_state (snd (apply_state_write e p w)) (snd (submit e p w))"
  using gate_iff submit_same_state by blast

section \<open>Writes to what is not there\<close>

text \<open>An update of a task that does not exist changes nothing and is still entered in the ledger
  as accepted, without a reason.\<close>

theorem update_missing_task_accepted:
  assumes "world_ok w" "proposal_task_id p = Inr i" "get_task_by_id (w_tasks w) i = None"
    and "pr_op p \<in> {''update_task_status'', ''mark_task_waiting'', ''resume_task'', ''update_task_data'',
       ''update_task_result'', ''amend_task''}"
  shows "same_state w (snd (submit e p w)) \<and> (\<exists>entry.
    ledger_entries (w_ledger (snd (submit e p w))) = ledger_entries (w_ledger w) @ [entry] \<and>
    lg_accepted entry \<and> lg_reason entry = [])"
proof -
  have none: "patch_task i q (w_tasks w) = (Inr False, w_tasks w)" for q
    by (simp add: patch_task_def assms(3))
  have same: "w\<lparr>w_tasks := w_tasks w\<rparr> = w" by simp
  have "\<exists>q. apply_task_write e p w = (Inr q, w) \<and> wr_accepted q \<and> wr_reason q = []"
    using assms(4)
    by (auto simp: apply_task_write_def apply_task_defs with_task_id_def assms(2) on_tasks_def
        task_op_defs discard_def none done_key_def accepted_as_def amend_task_def assms(3) Let_def)
  moreover have "apply_state_write e p w = apply_task_write e p w"
    using assms(4) by (auto simp: apply_state_write_def task_write_ops_def)
  ultimately obtain q where q: "apply_state_write e p w = (Inr q, w)" "wr_accepted q" "wr_reason q = []"
    by auto
  have "check_tool_blocked (pseudo_tool_name p) = None"
    using assms(4) by (auto simp: check_tool_blocked_def pseudo_tool_name_def default_blocked_tools_def)
  then have "snd (submit e p w) = append_lifecycle_ledger e p (wr_key q) True [] w"
    using q by (simp add: submit_def)
  then show ?thesis using ledger_after [OF assms(1)]
    by (auto simp: ledger_entry_def short_text_def)
qed

section \<open>The soul\<close>

text \<open>A \<open>soul_change\<close> can only touch facts under \<open>soul:\<close>; but the soul is not protected by
  it, since a plain \<open>set_fact\<close> on any \<open>soul:\<close> key is carried out and accepted as well, and
  leaves the same facts as the \<open>soul_change\<close> would.\<close>

theorem soul_change_scope:
  "(\<not> startswith k ''soul:'' \<longrightarrow> get_fact (w_facts (snd (submit e (build_proposal ''soul_change'' key v sc src r b) w))) k
      = get_fact (w_facts w) k) \<and>
   (startswith key ''soul:'' \<longrightarrow>
     fst (submit e (build_proposal ''set_fact'' key v sc src r b) w) = Inr PNone \<and>
     w_facts (snd (submit e (build_proposal ''set_fact'' key v sc src r b) w)) =
     w_facts (snd (submit e (build_proposal ''soul_change'' key v sc src r b) w)))"
proof -
  have state: "w_facts (snd (submit e p w)) = w_facts (snd (apply_state_write e p w))" for p
    using submit_same_state [of e p w] by (simp add: same_state_def)
  have soul: "w_facts (snd (apply_state_write e (build_proposal ''soul_change'' key v sc src r b) w)) =
      (if startswith key ''soul:'' then set_fact (e_now_sql e) key (text_of v) sc (w_facts w) else w_facts w)"
    by (simp add: apply_state_write_def build_proposal_def apply_soul_change_def)
  have fact: "apply_state_write e (build_proposal ''set_fact'' key v sc src r b) w =
      (Inr (accepted_as PNone key), w\<lparr>w_facts := set_fact (e_now_sql e) key (text_of v) sc (w_facts w)\<rparr>)"
    by (simp add: apply_state_write_def build_proposal_def apply_fact_write_def)
  have "check_tool_blocked (pseudo_tool_name (build_proposal ''set_fact'' key v sc src r b)) = None"
    by (simp add: check_tool_blocked_def pseudo_tool_name_def default_blocked_tools_def build_proposal_def)
  then have "fst (submit e (build_proposal ''set_fact'' key v sc src r b) w) = Inr PNone"
    by (simp add: submit_def fact accepted_as_def)
  then show ?thesis unfolding state by (auto simp: soul fact fs.get_set)
qed

section \<open>History\<close>

definition submits :: "env \<Rightarrow> proposal list \<Rightarrow> world \<Rightarrow> world" where
  "submits e ps w = fold (\<lambda>p w. snd (submit e p w)) ps w"

lemma apply_state_write_steps:
  "(w_tasks (snd (apply_state_write e p w)) = w_tasks w \<or>
      task_step (w_tasks w) (w_tasks (snd (apply_state_write e p w)))) \<and>
   (w_runs (snd (apply_state_write e p w)) = w_runs w \<or>
      run_step (w_runs w) (w_runs (snd (apply_state_write e p w))))"
proof (cases "apply_state_write e p w = apply_task_write e p w")
  case True
  then show ?thesis using task_effect_apply [of w e p] by (auto simp: task_effect_def)
next
  case False
  then show ?thesis
    by (auto simp: apply_state_write_def apply_fact_write_def apply_soul_change_def
        apply_semantic_write_def Let_def split: option.split sum.split)
qed

lemma submit_step:
  assumes "world_ok w"
  shows "world_ok (snd (submit e p w)) \<and> extends (w_tasks w) (w_tasks (snd (submit e p w))) \<and>
    run_kept (w_runs w) (w_runs (snd (submit e p w))) \<and>
    prefix (ledger_entries (w_ledger w)) (ledger_entries (w_ledger (snd (submit e p w)))) \<and>
    length (ledger_entries (w_ledger (snd (submit e p w)))) = length (ledger_entries (w_ledger w)) + 1"
proof -
  let ?u = "snd (apply_state_write e p w)" and ?w = "snd (submit e p w)"
  have same: "w_tasks ?w = w_tasks ?u" "w_runs ?w = w_runs ?u"
    using submit_same_state [of e p w] by (simp_all add: same_state_def)
  have "extends (w_tasks w) (w_tasks ?w)" "run_kept (w_runs w) (w_runs ?w)"
    using apply_state_write_steps [of e p w] task_step_ok [of "w_tasks w"] run_step_kept [of "w_runs w"] assms
    unfolding same world_ok_def by auto
  moreover obtain r where "w_ledger ?w = ledger_append r (w_ledger w)"
    using submit_world [of e p w] by (auto simp: append_lifecycle_ledger_def split: if_splits)
  ultimately show ?thesis
    using world_ok_submit [OF assms, of e p] lg.entries_app [of "w_ledger w" r] assms
    by (simp add: world_ok_def)
qed


section \<open>A write that fails half way\<close>

definition demo_env :: env where
  "demo_env = \<lparr>e_now_sql = ''2024-01-02 08:00:00'', e_now_iso = ''2024-01-02T08:00:00+00:00'',
     e_block_text = (\<lambda>b. ''blocked''), e_low_value = (\<lambda>k t b. False)\<rparr>"

definition empty_world :: world where
  "empty_world = \<lparr>w_tasks = empty_tbl, w_runs = empty_tbl, w_facts = [], w_ledger = empty_tbl,
     w_semantic = None\<rparr>"

lemma empty_world_ok [simp]: "world_ok empty_world"
  by (simp add: world_ok_def empty_world_def facts_ok_def tasks_ok_def tbl_get_def empty_tbl_def tbl_ok_def)

text \<open>A failing proposal is not undone: an amendment with a new title and a priority that is no
  text raises and is entered as not accepted, but the new title has been stored.\<close>

theorem failed_amend_keeps_title:
  assumes "get_task_by_id (w_tasks w) i = Some k" "proposal_task_id p = Inr i" "pr_op p = ''amend_task''"
    and "pr_value p = PDict [(''title'', PStr s), (''priority'', PInt n)]" "strip s \<noteq> []"
  shows "(\<exists>x. fst (submit e p w) = Inl x) \<and>
    (\<exists>k'. get_task_by_id (w_tasks (snd (submit e p w))) i = Some k' \<and> t_title k' = stored_title s)"
proof -
  let ?w = "snd (submit e p w)"
  have amend: "apply_state_write e p w = apply_amend_task e p w"
    using assms(3) by (simp add: apply_state_write_def task_write_ops_def apply_task_write_def)
  have "amend_task ts i (PStr s) PNone (PInt n) reason (w_tasks w) =
      (Inl (Exn ''AttributeError'' (str_repr ''int'' @ '' object has no attribute '' @ str_repr ''strip'')),
       save_task_title i (strip s) (w_tasks w))" for ts reason
    using assms(1,5) by (simp add: amend_task_def Let_def)
  then obtain x where x: "apply_state_write e p w = (Inl x, w\<lparr>w_tasks := save_task_title i (strip s) (w_tasks w)\<rparr>)"
    using assms(2,4) unfolding amend
    by (simp add: apply_amend_task_def with_task_id_def proposal_data_def on_tasks_def dict_get_def)
  have "check_tool_blocked (pseudo_tool_name p) = None"
    using assms(3) by (simp add: check_tool_blocked_def pseudo_tool_name_def default_blocked_tools_def)
  then have "fst (submit e p w) = Inl x" by (simp add: submit_def x)
  moreover have "w_tasks ?w = save_task_title i (strip s) (w_tasks w)"
    using submit_same_state [of e p w] by (simp add: same_state_def x)
  moreover have "stored_title (strip s) = stored_title s" by (simp add: stored_title_def)
  ultimately show ?thesis
    using assms(1) by (auto simp: get_task_by_id_def save_task_title_def tb.get_upd task_from_row_def Let_def)
qed

section \<open>Instances\<close>

definition demo_world :: world where
  "demo_world = snd (submit demo_env (build_proposal ''create_task'' ''task:new''
     (PDict [(''title'', PStr ''write report'')]) ''task'' ''loop'' 0 []) empty_world)"

lemma demo_world_ok [simp]: "world_ok demo_world"
  by (simp add: demo_world_def world_ok_submit)

lemma demo_world_task: "\<exists>k. get_task_by_id (w_tasks demo_world) 1 = Some k"
proof -
  let ?p = "build_proposal ''create_task'' ''task:new'' (PDict [(''title'', PStr ''write report'')]) ''task'' ''loop'' 0 []"
  have "w_tasks demo_world = w_tasks (snd (apply_state_write demo_env ?p empty_world))"
    using submit_same_state [of demo_env ?p empty_world] by (simp add: same_state_def demo_world_def)
  also have "\<exists>r. \<dots> = \<lparr>seq = 1, rows = [(1, r)]\<rparr>"
    by (simp add: build_proposal_def apply_state_write_def task_write_ops_def apply_task_write_def
        apply_create_task_def add_task_kwargs_def proposal_data_def add_task_keywords_def on_tasks_def
        add_task_def build_task_data_def build_task_insert_def py_or_def dict_get_or_def Let_def
        tbl_insert_def empty_world_def empty_tbl_def)
  finally show ?thesis by (auto simp: get_task_by_id_def tbl_get_def)
qed


theorem update_missing_task_accepted_witness:
  "same_state empty_world (snd (submit demo_env
     (build_proposal ''resume_task'' ''7'' (PDict []) ''task'' ''loop'' 0 []) empty_world))"
proof -
  have "proposal_task_id (build_proposal ''resume_task'' ''7'' (PDict []) ''task'' ''loop'' 0 []) = Inr 7"
    by (simp add: proposal_task_id_def build_proposal_def int_of_str_def strip_def lstrip_def is_space_def)
  from update_missing_task_accepted [OF empty_world_ok this, of demo_env] show ?thesis
    by (simp add: empty_world_def get_task_by_id_def tbl_get_def empty_tbl_def build_proposal_def)
qed

theorem soul_change_scope_witness:
  "w_facts (snd (submit demo_env (build_proposal ''set_fact'' ''soul:born_at'' (PStr ''never'') ''task'' ''x'' 0 []) empty_world))
   = w_facts (snd (submit demo_env (build_proposal ''soul_change'' ''soul:born_at'' (PStr ''never'') ''task'' ''x'' 0 []) empty_world))"
  using soul_change_scope [of "[]" demo_env "''soul:born_at''" "PStr ''never''" "''task''" "''x''" 0 "[]" empty_world]
  by (simp add: startswith_def)


theorem failed_amend_keeps_title_witness:
  "\<exists>k'. get_task_by_id (w_tasks (snd (submit demo_env (build_proposal ''amend_task'' ''1''
     (PDict [(''title'', PStr ''new''), (''priority'', PInt 5)]) ''task'' ''x'' 0 []) demo_world))) 1 = Some k'
     \<and> t_title k' = ''new''"
proof -
  obtain k where k: "get_task_by_id (w_tasks demo_world) 1 = Some k" using demo_world_task by blast
  let ?p = "build_proposal ''amend_task'' ''1'' (PDict [(''title'', PStr ''new''), (''priority'', PInt 5)]) ''task'' ''x'' 0 []"
  have st: "strip ''new'' = ''new''" by (simp add: strip_def lstrip_def is_space_def)
  have "proposal_task_id ?p = Inr 1"
    by (simp add: proposal_task_id_def build_proposal_def int_of_str_def strip_def lstrip_def is_space_def)
  from failed_amend_keeps_title [OF k this, of "''new''" 5 demo_env] show ?thesis
    by (simp add: build_proposal_def st stored_title_def task_title_limit_def)
qed

end
