(* ===== verification/Subagent_View.thy ===== *)
theory Subagent_View
  imports Task_State Run_Store Signal_Store Record_Stores
begin

text \<open>
  \<open>core/subagent/task_store_view.py\<close>: the view of the parent's store that a sub-agent works on.
  Reads go through to the parent, the sub-agent's own bookkeeping is kept locally, every other
  write is refused with \<open>_SubagentReadonlyViolation\<close>. No operation returns a parent: the parent
  cannot change through the view.
\<close>

section \<open>State\<close>

record parent =
  p_tasks :: tasks
  p_runs :: runs
  p_failures :: failures
  p_facts :: facts
  p_reflections :: reflections
  p_signals :: signals
  p_ledger :: ledger

record sub_local =
  l_facts :: "(string \<times> (string \<times> string)) list"
  l_failures :: "failure list"
  l_task_results :: "(int \<times> dict) list"
  l_runs :: "(int \<times> run) list"
  l_reflections :: "meta_reflection list"
  l_next_run_id :: int

definition no_local :: sub_local where
  "no_local = \<lparr>l_facts = [], l_failures = [], l_task_results = [], l_runs = [], l_reflections = [],
     l_next_run_id = - 1\<rparr>"

record view =
  v_parent :: parent
  v_active :: "task option"
  v_local :: sub_local

definition reject :: "string \<Rightarrow> exn" where
  "reject action = Exn ''_SubagentReadonlyViolation'' action"

definition is_locally_absorbable_fact :: "string \<Rightarrow> string \<Rightarrow> bool" where
  "is_locally_absorbable_fact key scope \<longleftrightarrow> scope = ''system'' \<or>
     key = ''control:durable_failure_policy'' \<or> startswith key ''durable_failure:''"

section \<open>Tasks\<close>

definition overlay_task :: "sub_local \<Rightarrow> task \<Rightarrow> task res" where
  "overlay_task l k = (case map_of (l_task_results l) (t_id k) of
      None \<Rightarrow> Inr k
    | Some r \<Rightarrow> if r = [] then Inr k
        else bind_res (dict_or_empty (t_result_json k)) (\<lambda>d.
               Inr (k\<lparr>t_result_json := PDict (dict_update d r)\<rparr>)))"

fun overlay_opt :: "sub_local \<Rightarrow> task option \<Rightarrow> task option res" where
  "overlay_opt l None = Inr None"
| "overlay_opt l (Some k) = bind_res (overlay_task l k) (\<lambda>k'. Inr (Some k'))"

definition view_get_active :: "view \<Rightarrow> task option res" where
  "view_get_active v = overlay_opt (v_local v) (v_active v)"

definition view_get_task_by_id :: "view \<Rightarrow> int \<Rightarrow> task option res" where
  "view_get_task_by_id v i = (case v_active v of
      Some k \<Rightarrow> if t_id k = i then overlay_opt (v_local v) (Some k) else Inr None
    | None \<Rightarrow> overlay_opt (v_local v) (get_task_by_id (p_tasks (v_parent v)) i))"

text \<open>Items are added until the list has \<open>n\<close> of them; the length is tested after adding.\<close>

fun merge_until :: "int \<Rightarrow> ('a \<Rightarrow> bool) \<Rightarrow> 'a list \<Rightarrow> 'a list \<Rightarrow> 'a list" where
  "merge_until n seen acc [] = acc"
| "merge_until n seen acc (x # xs) =
     (if seen x then merge_until n seen acc xs
      else if n \<le> int (length acc) + 1 then acc @ [x]
      else merge_until n seen (acc @ [x]) xs)"

definition view_list_tasks :: "view \<Rightarrow> string option \<Rightarrow> int option \<Rightarrow> task list res" where
  "view_list_tasks v status limit =
    (let n = (case limit of None \<Rightarrow> 50 | Some m \<Rightarrow> if m = 0 then 50 else m) in
     case v_active v of
       Some k \<Rightarrow>
         if status = Some ''waiting'' then Inr []
         else if (case status of None \<Rightarrow> True | Some s \<Rightarrow> t_status k = s) \<and> 0 < n
         then bind_res (overlay_task (v_local v) k) (\<lambda>k'. Inr [k'])
         else Inr []
     | None \<Rightarrow>
         if status = Some ''waiting'' then Inr []
         else bind_res (all_inr (map (overlay_task (v_local v)) (merge_until n (\<lambda>k. False) []
                (list_tasks status (case limit of None \<Rightarrow> 50 | Some m \<Rightarrow> m) (p_tasks (v_parent v))))))
              (\<lambda>ks. Inr (slice_to n ks)))"

definition view_list_runnable_tasks :: "view \<Rightarrow> int \<Rightarrow> task list res" where
  "view_list_runnable_tasks v limit = (case v_active v of
      Some k \<Rightarrow> if t_status k \<notin> set runnable_task_statuses \<or> limit \<le> 0 then Inr []
        else bind_res (overlay_task (v_local v) k) (\<lambda>k'. Inr [k'])
    | None \<Rightarrow> all_inr (map (overlay_task (v_local v))
        (slice_to limit (list_runnable_tasks limit (p_tasks (v_parent v))))))"

definition view_update_task_result :: "int \<Rightarrow> dict \<Rightarrow> sub_local \<Rightarrow> sub_local" where
  "view_update_task_result i r l =
     (let old = (case map_of (l_task_results l) i of None \<Rightarrow> [] | Some d \<Rightarrow> d)
      in l\<lparr>l_task_results := AList.update i (dict_update old r) (l_task_results l)\<rparr>)"

section \<open>Runs\<close>

definition local_runs :: "sub_local \<Rightarrow> int option \<Rightarrow> string option \<Rightarrow> run list" where
  "local_runs l task_id status = filter
     (\<lambda>r. (case task_id of None \<Rightarrow> True | Some i \<Rightarrow> r_task_id r = i) \<and>
          (case status of None \<Rightarrow> True | Some s \<Rightarrow> s = [] \<or> r_status r = s))
     (rev (sort_key r_id (map snd (l_runs l))))"

definition view_list_runs :: "view \<Rightarrow> int option \<Rightarrow> string option \<Rightarrow> int \<Rightarrow> run list" where
  "view_list_runs v task_id status limit = (case v_active v of
      Some k \<Rightarrow> if task_id \<noteq> None \<and> task_id \<noteq> Some (t_id k) then []
        else slice_to limit (local_runs (v_local v) task_id status)
    | None \<Rightarrow>
       (let mine = slice_to limit (local_runs (v_local v) task_id status)
        in merge_until limit (\<lambda>r. r_id r \<in> set (map r_id mine)) mine
             (list_runs task_id status limit (p_runs (v_parent v)))))"

definition view_add_run :: "string \<Rightarrow> run_args \<Rightarrow> sub_local \<Rightarrow> int \<times> sub_local" where
  "view_add_run now a l =
    (let i = l_next_run_id l; dflt = (\<lambda>s d. if s = [] then d else s) in
     (i, l\<lparr>l_next_run_id := i - 1, l_runs := AList.update i
        \<lparr>r_id = i, r_task_id = ra_task_id a, r_run_type = dflt (ra_run_type a) ''tool_chain'',
         r_worker_type = dflt (ra_worker_type a) ''tool-chain-worker'',
         r_status = dflt (ra_status a) ''running'', r_created_at = now, r_started_at = now,
         r_completed_at = [], r_input_json = PDict (ra_input_json a),
         r_output_json = PDict (ra_output_json a), r_log_text = PStr (ra_log_text a),
         r_error_text = PStr (ra_error_text a), r_tool_name = PStr (ra_tool_name a),
         r_session_id = PStr (ra_session_id a), r_model_tier = PStr (ra_model_tier a),
         r_progress = PStr (ra_progress a), r_extras = ra_extras a\<rparr> (l_runs l)\<rparr>))"

definition view_get_run_by_id :: "view \<Rightarrow> int \<Rightarrow> run option" where
  "view_get_run_by_id v i = (case map_of (l_runs (v_local v)) i of
      Some r \<Rightarrow> Some r
    | None \<Rightarrow> if v_active v \<noteq> None then None else get_run_by_id (p_runs (v_parent v)) i)"

text \<open>A task id in the patch is ignored; the completion time is written at every update of a
  finished run.\<close>

definition view_patched_run :: "string \<Rightarrow> run_patch \<Rightarrow> run \<Rightarrow> run" where
  "view_patched_run now p r =
    (let r1 = r\<lparr>r_status := (case rp_status p of None \<Rightarrow> r_status r | Some s \<Rightarrow> s),
           r_output_json := (case rp_output_json p of None \<Rightarrow> r_output_json r | Some d \<Rightarrow> PDict d),
           r_log_text := opt_str (rp_log_text p) (r_log_text r),
           r_error_text := opt_str (rp_error_text p) (r_error_text r),
           r_session_id := opt_str (rp_session_id p) (r_session_id r),
           r_model_tier := opt_str (rp_model_tier p) (r_model_tier r),
           r_progress := opt_str (rp_progress p) (r_progress r),
           r_extras := dict_update (r_extras r) (rp_extras p)\<rparr>
     in if run_finished (r_status r1) then r1\<lparr>r_completed_at := now\<rparr> else r1)"

definition view_update_run :: "string \<Rightarrow> int \<Rightarrow> run_patch \<Rightarrow> sub_local \<Rightarrow> sub_local" where
  "view_update_run now i p l = (case map_of (l_runs l) i of
      None \<Rightarrow> l
    | Some r \<Rightarrow> l\<lparr>l_runs := AList.update i (view_patched_run now p r) (l_runs l)\<rparr>)"

section \<open>Failures\<close>

definition view_record_failure :: "string \<Rightarrow> string \<Rightarrow> string \<Rightarrow> string \<Rightarrow> string \<Rightarrow> sub_local \<Rightarrow> sub_local" where
  "view_record_failure now kind summary context_text task_id l = l\<lparr>l_failures := l_failures l @
     [\<lparr>f_id = - (int (length (l_failures l)) + 1), f_kind = kind, f_dismissed = False,
       f_created_at = now, f_summary = PStr summary, f_context = PStr context_text,
       f_task_id = PStr task_id, f_extras = []\<rparr>]\<rparr>"

definition with_parent :: "int \<Rightarrow> 'a list \<Rightarrow> 'a list \<Rightarrow> 'a list" where
  "with_parent limit mine theirs = mine @ take (nat (limit - int (length mine))) theirs"

definition view_list_failures :: "view \<Rightarrow> int \<Rightarrow> failure list" where
  "view_list_failures v limit =
    (let mine = slice_last limit (l_failures (v_local v)) in
     if v_active v \<noteq> None then mine
     else with_parent limit mine (list_failures limit (p_failures (v_parent v))))"

definition view_list_failures_for_task :: "view \<Rightarrow> string \<Rightarrow> int \<Rightarrow> failure list" where
  "view_list_failures_for_task v task_id limit =
    (let mine = slice_last limit (filter (\<lambda>f. py_str (f_task_id f) = task_id) (l_failures (v_local v))) in
     case v_active v of
       Some k \<Rightarrow> if task_id \<noteq> dec_int (t_id k) then [] else mine
     | None \<Rightarrow> with_parent limit mine (list_failures_for_task task_id limit (p_failures (v_parent v))))"

definition view_count_failures_by_kind :: "view \<Rightarrow> string \<Rightarrow> nat" where
  "view_count_failures_by_kind v kind =
    (let mine = length (filter (\<lambda>f. f_kind f = kind \<and> \<not> f_dismissed f) (l_failures (v_local v)))
     in if v_active v \<noteq> None then mine else mine + count_failures_by_kind kind (p_failures (v_parent v)))"

fun dismiss_in :: "int \<Rightarrow> failure list \<Rightarrow> failure list option" where
  "dismiss_in i [] = None"
| "dismiss_in i (f # fs) = (if f_id f = i then Some (f\<lparr>f_dismissed := True\<rparr> # fs)
     else map_option (\<lambda>gs. f # gs) (dismiss_in i fs))"

definition view_dismiss_failure :: "int \<Rightarrow> sub_local \<Rightarrow> unit res \<times> sub_local" where
  "view_dismiss_failure i l = (case dismiss_in i (l_failures l) of
      Some fs \<Rightarrow> (Inr (), l\<lparr>l_failures := fs\<rparr>)
    | None \<Rightarrow> (Inl (reject ''dismiss_failure''), l))"

section \<open>Facts\<close>

definition view_set_fact :: "string \<Rightarrow> string \<Rightarrow> string \<Rightarrow> sub_local \<Rightarrow> unit res \<times> sub_local" where
  "view_set_fact key value scope l =
     (if \<not> is_locally_absorbable_fact key scope then (Inl (reject (''set_fact:'' @ key)), l)
      else (Inr (), l\<lparr>l_facts := AList.update key (value, scope) (l_facts l)\<rparr>))"

definition view_get_fact :: "view \<Rightarrow> string \<Rightarrow> string \<times> bool" where
  "view_get_fact v key = (case map_of (l_facts (v_local v)) key of
      Some (val, scope) \<Rightarrow> (val, True)
    | None \<Rightarrow> get_fact (p_facts (v_parent v)) key)"

definition view_list_facts :: "view \<Rightarrow> string \<Rightarrow> int \<Rightarrow> (string \<times> string) list" where
  "view_list_facts v pre limit =
    (let mine = slice_last limit (map (\<lambda>(k, val, scope). (k, val))
           (filter (\<lambda>(k, val, scope). pre = [] \<or> startswith k pre) (l_facts (v_local v))))
     in merge_until limit (\<lambda>kv. fst kv \<in> set (map fst mine)) mine
          (list_facts pre limit (p_facts (v_parent v))))"

definition view_delete_fact :: "string \<Rightarrow> sub_local \<Rightarrow> unit res \<times> sub_local" where
  "view_delete_fact key l = (if map_of (l_facts l) key \<noteq> None
     then (Inr (), l\<lparr>l_facts := filter (\<lambda>kv. fst kv \<noteq> key) (l_facts l)\<rparr>)
     else (Inl (reject (''delete_fact:'' @ key)), l))"

section \<open>Reflections\<close>

definition view_add_meta_reflection :: "string \<Rightarrow> reflection_args \<Rightarrow> sub_local \<Rightarrow> sub_local" where
  "view_add_meta_reflection now a l = l\<lparr>l_reflections := l_reflections l @
     [\<lparr>m_id = rf_id a, m_target_kind = rf_target_kind a, m_trigger = rf_trigger a,
       m_loop_level = rf_loop_level a, m_diagnosis = rf_diagnosis a, m_proposal = rf_proposal a,
       m_verification_plan = rf_verification_plan a,
       m_decision = (if rf_decision a = [] then ''defer'' else rf_decision a), m_created_at = now,
       m_task_id = rf_task_id a, m_run_id = rf_run_id a, m_tool_name = rf_tool_name a,
       m_extras = rf_extras a\<rparr>]\<rparr>"

definition view_list_meta_reflections :: "view \<Rightarrow> int \<Rightarrow> string option \<Rightarrow> meta_reflection list res" where
  "view_list_meta_reflections v limit loop_level =
    (let mine = slice_last limit (filter (\<lambda>m. loop_level = None \<or> loop_level = Some (m_loop_level m))
           (l_reflections (v_local v)))
     in if v_active v \<noteq> None then Inr mine
        else bind_res (list_meta_reflections limit loop_level (p_reflections (v_parent v)))
          (\<lambda>theirs. Inr (merge_until limit (\<lambda>m. m_id m \<in> set (map m_id mine)) mine theirs)))"

section \<open>Everything else\<close>

text \<open>The operations that only refuse, by their names; those that answer with nothing; and those
  that hand through to the parent.\<close>

definition rejected_ops :: "string list" where
  "rejected_ops = [''sync_task_progress'', ''enqueue_if_absent'', ''add_chat_message'',
     ''reset_in_progress_tasks'', ''add_task'', ''update_status'', ''update_task_data'', ''amend_task'',
     ''add_signal'', ''ack_signal'', ''cancel_signal'', ''mark_waiting'', ''resume_task'']"

definition view_rejected :: "string \<Rightarrow> sub_local \<Rightarrow> unit res \<times> sub_local" where
  "view_rejected op l = (Inl (reject op), l)"

definition view_pop_task_inbox :: "int \<Rightarrow> string list" where
  "view_pop_task_inbox i = []"

definition view_ledger_append :: "ledger_row \<Rightarrow> sub_local \<Rightarrow> sub_local" where
  "view_ledger_append r l = l"

definition view_due_signals :: "string \<Rightarrow> view \<Rightarrow> signal list" where
  "view_due_signals now v = due_signals now (p_signals (v_parent v))"

definition view_ledger_recent :: "int \<Rightarrow> view \<Rightarrow> (int \<times> ledger_row) list" where
  "view_ledger_recent limit v = ledger_recent limit (p_ledger (v_parent v))"

section \<open>Facts through the view\<close>

lemma view_get_fact_local:
  "view_get_fact (v\<lparr>v_local := l\<rparr>) k = (case map_of (l_facts l) k of
     Some (val, scope) \<Rightarrow> (val, True) | None \<Rightarrow> get_fact (p_facts (v_parent v)) k)"
  by (simp add: view_get_fact_def split: option.split)

text \<open>A sub-agent's fact is written locally when its scope is \<open>system\<close> or its key is one of the
  local ones, and refused otherwise, without a change; after a write the view reads the new value
  and every other key as before, and after deleting a local fact it reads the parent's value
  again; a key without a local fact cannot be deleted.\<close>

theorem view_facts_overlay:
  assumes "view_set_fact key value scope (v_local v) = (r, l)"
    and "view_delete_fact key (v_local v) = (r2, l2)"
  shows "(r = Inr () \<longleftrightarrow> is_locally_absorbable_fact key scope) \<and> (r \<noteq> Inr () \<longrightarrow> l = v_local v) \<and>
    (r = Inr () \<longrightarrow> (\<forall>k. view_get_fact (v\<lparr>v_local := l\<rparr>) k =
       (if k = key then (value, True) else view_get_fact v k))) \<and>
    (r2 = Inr () \<longleftrightarrow> map_of (l_facts (v_local v)) key \<noteq> None) \<and> (r2 \<noteq> Inr () \<longrightarrow> l2 = v_local v) \<and>
    (r2 = Inr () \<longrightarrow> (\<forall>k. view_get_fact (v\<lparr>v_local := l2\<rparr>) k =
       (if k = key then get_fact (p_facts (v_parent v)) k else view_get_fact v k)))"
proof -
  have del: "map_of (filter (\<lambda>kv. fst kv \<noteq> key) fs) k = (if k = key then None else map_of fs k)"
    for fs :: "(string \<times> (string \<times> string)) list" and k
    by (induction fs) auto
  show ?thesis
    using assms
    by (auto simp: view_set_fact_def view_delete_fact_def view_get_fact_local view_get_fact_def [of v]
        update_conv' del split: if_splits)
qed

section \<open>Merging with the parent\<close>

lemma length_merge_until:
  "int (length acc) < n \<Longrightarrow> int (length (merge_until n seen acc xs)) \<le> n"
  by (induction n seen acc xs rule: merge_until.induct) auto

lemma merge_until_full:
  assumes "n \<le> int (length acc)" "\<exists>x \<in> set xs. \<not> seen x"
  shows "length (merge_until n seen acc xs) = length acc + 1"
  using assms by (induction n seen acc xs rule: merge_until.induct) auto

lemma merge_until_all_seen: "\<forall>x \<in> set xs. seen x \<Longrightarrow> merge_until n seen acc xs = acc"
  by (induction n seen acc xs rule: merge_until.induct) auto

lemma length_merge_until_le: "0 \<le> n \<Longrightarrow> int (length acc) \<le> n \<Longrightarrow>
   int (length (merge_until n seen acc xs)) \<le> n + 1"
proof (cases "int (length acc) < n")
  case True
  with length_merge_until [OF this, of seen xs] show "0 \<le> n \<Longrightarrow> int (length acc) \<le> n \<Longrightarrow> ?thesis" by simp
next
  case False
  show "0 \<le> n \<Longrightarrow> int (length acc) \<le> n \<Longrightarrow> ?thesis"
    using merge_until_full [of n acc xs seen] merge_until_all_seen [of xs seen n acc] False by force
qed

definition local_fact_list :: "sub_local \<Rightarrow> string \<Rightarrow> (string \<times> string) list" where
  "local_fact_list l pre = map (\<lambda>(k, val, scope). (k, val))
     (filter (\<lambda>(k, val, scope). pre = [] \<or> startswith k pre) (l_facts l))"

text \<open>A list of facts through the view can be one longer than asked: with \<open>limit\<close> or more
  matching local facts and a matching fact of the parent that none of the kept local ones hides,
  \<open>limit + 1\<close> facts come back; it is never longer than that.\<close>

theorem view_list_facts_overflow:
  assumes "0 < limit" "nat limit \<le> length (local_fact_list (v_local v) pre)"
    and "kv \<in> set (list_facts pre limit (p_facts (v_parent v)))"
    and "fst kv \<notin> fst ` set (slice_last limit (local_fact_list (v_local v) pre))"
  shows "length (view_list_facts v pre limit) = nat limit + 1"
proof -
  let ?mine = "slice_last limit (local_fact_list (v_local v) pre)"
  have "length ?mine = nat limit" using assms(1,2) by (simp add: slice_last_def)
  moreover have "\<exists>x \<in> set (list_facts pre limit (p_facts (v_parent v))). \<not> fst x \<in> set (map fst ?mine)"
    using assms(3,4) by (intro bexI [of _ kv]) simp_all
  ultimately show ?thesis
    using merge_until_full [of limit ?mine "list_facts pre limit (p_facts (v_parent v))"
        "\<lambda>kv. fst kv \<in> set (map fst ?mine)"] assms(1)
    by (simp add: view_list_facts_def local_fact_list_def Let_def)
qed

section \<open>Local runs\<close>

text \<open>Local runs have negative ids, all above the next one: no id is used twice and none is the
  id of a run of the parent.\<close>

definition local_ok :: "sub_local \<Rightarrow> bool" where
  "local_ok l \<longleftrightarrow> l_next_run_id l < 0 \<and>
     (\<forall>i r. map_of (l_runs l) i = Some r \<longrightarrow> l_next_run_id l < i \<and> i < 0 \<and> r_id r = i)"

lemma local_ok_no_local [simp]: "local_ok no_local"
  by (simp add: local_ok_def no_local_def)

inductive local_step :: "sub_local \<Rightarrow> sub_local \<Rightarrow> bool" where
  "local_step l (snd (view_add_run now a l))"
| "local_step l (view_update_run now i p l)"
| "local_step l (view_record_failure now kind summary ctx tid l)"
| "local_step l (snd (view_dismiss_failure i l))"
| "local_step l (snd (view_set_fact key val scope l))"
| "local_step l (snd (view_delete_fact key l))"
| "local_step l (view_update_task_result i d l)"
| "local_step l (view_add_meta_reflection now ra l)"
| "local_step l (snd (view_rejected op l))"

lemma r_id_view_patched [simp]: "r_id (view_patched_run now p r) = r_id r"
  by (simp add: view_patched_run_def Let_def)

lemma local_step_ok: "local_step l l' \<Longrightarrow> local_ok l \<Longrightarrow> local_ok l' \<and> l_next_run_id l' \<le> l_next_run_id l"
proof (induction rule: local_step.induct)
  case (1 l now a)
  then show ?case by (auto simp: local_ok_def view_add_run_def Let_def update_conv' split: if_splits) (smt (verit))
next
  case (2 l now i p)
  then show ?case
    by (auto simp: local_ok_def view_update_run_def update_conv' split: option.splits if_splits)
qed (auto simp: local_ok_def view_record_failure_def view_dismiss_failure_def view_set_fact_def
      view_delete_fact_def view_update_task_result_def view_add_meta_reflection_def view_rejected_def
      Let_def split: option.splits if_splits)

text \<open>Whatever the sub-agent does, a run it adds gets a negative id that was never used before,
  and reading that id gives the run, never one of the parent's.\<close>

theorem view_run_ids_fresh:
  assumes "local_step\<^sup>*\<^sup>* no_local l" "view_add_run now a l = (i, l')"
  shows "i < 0 \<and> map_of (l_runs l) i = None \<and> (\<forall>j r. map_of (l_runs l) j = Some r \<longrightarrow> i < j) \<and>
    (\<exists>r. view_get_run_by_id \<lparr>v_parent = par, v_active = act, v_local = l'\<rparr> i = Some r \<and>
       r_id r = i \<and> r_task_id r = ra_task_id a \<and> r_completed_at r = [])"
proof -
  from assms(1) have ok: "local_ok l"
    by (induction rule: rtranclp_induct) (auto dest: local_step_ok)
  have i: "i = l_next_run_id l" using assms(2) by (simp add: view_add_run_def Let_def)
  have "map_of (l_runs l) i = None"
    using ok unfolding local_ok_def i by (metis less_irrefl not_None_eq)
  moreover have "map_of (l_runs l') i \<noteq> None"
    using assms(2) by (auto simp: view_add_run_def Let_def update_conv')
  ultimately show ?thesis
    using ok assms(2) by (auto simp: local_ok_def view_get_run_by_id_def view_add_run_def Let_def update_conv')
qed

section \<open>Instances\<close>

definition demo_parent :: parent where
  "demo_parent = \<lparr>p_tasks = empty_tbl, p_runs = empty_tbl, p_failures = empty_tbl,
     p_facts = [(''durable_failure:b'', \<lparr>fact_value = ''1'', fact_scope = ''system'', fact_updated_at = ''t''\<rparr>)],
     p_reflections = [], p_signals = empty_tbl, p_ledger = empty_tbl\<rparr>"

definition demo_view :: view where
  "demo_view = \<lparr>v_parent = demo_parent, v_active = None,
     v_local = no_local\<lparr>l_facts := [(''durable_failure:a'', (''2'', ''system''))]\<rparr>\<rparr>"

theorem view_facts_overlay_witness:
  "view_get_fact (demo_view\<lparr>v_local := snd (view_set_fact ''k'' ''v'' ''system'' (v_local demo_view))\<rparr>) ''k'' = (''v'', True)"
proof -
  have "fst (view_set_fact ''k'' ''v'' ''system'' (v_local demo_view)) = Inr ()"
    by (simp add: view_set_fact_def is_locally_absorbable_fact_def)
  with view_facts_overlay [OF prod.collapse [symmetric] prod.collapse [symmetric], of "''k''" "''v''" "''system''" demo_view]
  show ?thesis by auto
qed

theorem view_list_facts_overflow_witness:
  "length (view_list_facts demo_view ''durable_failure:'' 1) = 2"
proof -
  have "sql_like ''durable_failure:%'' ''durable_failure:b''"
    using sql_like_prefix [of "''durable_failure:''" "''b''"] by simp
  then have par: "list_facts ''durable_failure:'' 1 (p_facts (v_parent demo_view)) = [(''durable_failure:b'', ''1'')]"
    by (simp add: list_facts_def demo_view_def demo_parent_def newest_first_def sql_limit_def)
  have loc: "local_fact_list (v_local demo_view) ''durable_failure:'' = [(''durable_failure:a'', ''2'')]"
    by (simp add: local_fact_list_def demo_view_def startswith_def)
  have "length (view_list_facts demo_view ''durable_failure:'' 1) = nat 1 + 1"
    by (rule view_list_facts_overflow [where kv = "(''durable_failure:b'', ''1'')"])
      (simp_all add: par loc slice_last_def)
  then show ?thesis by simp
qed

theorem view_run_ids_fresh_witness:
  "fst (view_add_run ''t'' run_args_default no_local) < 0"
  using view_run_ids_fresh [OF rtranclp.rtrancl_refl prod.collapse [symmetric]] by blast

end
