(* ===== verification/Dispatcher.thy ===== *)
theory Dispatcher
  imports Py_More "HOL-Library.AList"
begin

text \<open>
  \<open>core/loop/cycle/dispatcher.py\<close>: tick jobs queued per chain, one worker per chain, a semaphore
  over all of them. asyncio runs one coroutine at a time; the atomic steps are the stretches of
  \<open>enqueue\<close> and \<open>_run_chain\<close> between two suspension points. A worker is at the top of its loop, has
  taken a job and waits for the semaphore, or runs a job.
\<close>

record tick_job =
  j_cycle :: int
  j_chain_key :: string
  j_user_message :: string
  j_chat_id :: "string option"
  j_chat_message_ids :: "int list"
  j_source :: string

datatype phase = Top | Waiting tick_job | Running tick_job

record disp =
  d_max_concurrent :: nat
  d_max_queue :: nat
  d_queues :: "(string \<times> tick_job list) list"
  d_workers :: "(string \<times> phase) list"
  d_pending :: nat
  d_running :: nat

text \<open>\<open>max(1, int(x or 1))\<close> for an integer setting.\<close>

definition at_least_one :: "int \<Rightarrow> nat" where
  "at_least_one n = (if n \<le> 0 then 1 else nat n)"

definition new_dispatcher :: "int \<Rightarrow> int \<Rightarrow> disp" where
  "new_dispatcher mc mq = \<lparr>d_max_concurrent = at_least_one mc, d_max_queue = at_least_one mq,
     d_queues = [], d_workers = [], d_pending = 0, d_running = 0\<rparr>"

definition can_accept :: "disp \<Rightarrow> bool" where
  "can_accept d \<longleftrightarrow> d_pending d < d_max_queue d"

definition queue_of :: "disp \<Rightarrow> string \<Rightarrow> tick_job list" where
  "queue_of d c = (case map_of (d_queues d) c of None \<Rightarrow> [] | Some q \<Rightarrow> q)"

definition worker_of :: "disp \<Rightarrow> string \<Rightarrow> phase option" where
  "worker_of d c = map_of (d_workers d) c"

definition enqueue :: "tick_job \<Rightarrow> disp \<Rightarrow> bool \<times> disp" where
  "enqueue j d = (if d_pending d \<ge> d_max_queue d then (False, d)
     else (let c = j_chain_key j in
       (True, d\<lparr>d_queues := AList.update c (queue_of d c @ [j]) (d_queues d),
          d_pending := d_pending d + 1,
          d_workers := (case worker_of d c of
             None \<Rightarrow> AList.update c Top (d_workers d) | Some w \<Rightarrow> d_workers d)\<rparr>)))"

text \<open>The top of the loop: the worker ends, or takes a job and asks for the semaphore.\<close>

definition worker_next :: "string \<Rightarrow> disp \<Rightarrow> disp" where
  "worker_next c d = (if worker_of d c \<noteq> Some Top then d
     else (case queue_of d c of
        [] \<Rightarrow> d\<lparr>d_workers := AList.delete c (d_workers d)\<rparr>
      | j # q \<Rightarrow> d\<lparr>d_queues := AList.update c q (d_queues d), d_pending := d_pending d - 1,
          d_workers := AList.update c (Waiting j) (d_workers d)\<rparr>))"

definition worker_acquire :: "string \<Rightarrow> disp \<Rightarrow> disp" where
  "worker_acquire c d = (case worker_of d c of
      Some (Waiting j) \<Rightarrow> if d_running d < d_max_concurrent d
        then d\<lparr>d_running := d_running d + 1, d_workers := AList.update c (Running j) (d_workers d)\<rparr>
        else d
    | _ \<Rightarrow> d)"

text \<open>The job returns, raises or is timed out: in each case the slot is given back.\<close>

definition worker_finish :: "string \<Rightarrow> disp \<Rightarrow> disp" where
  "worker_finish c d = (case worker_of d c of
      Some (Running j) \<Rightarrow>
        d\<lparr>d_running := d_running d - 1, d_workers := AList.update c Top (d_workers d)\<rparr>
    | _ \<Rightarrow> d)"

definition shutdown :: "disp \<Rightarrow> disp" where
  "shutdown d = d\<lparr>d_workers := [], d_queues := [], d_pending := 0, d_running := 0\<rparr>"

section \<open>The guard\<close>

definition positive_float_or_none :: "pyval \<Rightarrow> pyfloat option" where
  "positive_float_or_none v = (if v = PNone then None else (case py_float v of
      Inl e \<Rightarrow> None
    | Inr (FNum m k) \<Rightarrow> if m > 0 then Some (FNum m k) else None
    | Inr (FInf neg) \<Rightarrow> if neg then None else Some (FInf neg)
    | Inr FNan \<Rightarrow> None))"

definition tick_job_guard_seconds :: "pyval \<Rightarrow> pyfloat option" where
  "tick_job_guard_seconds explicit = (case positive_float_or_none explicit of
      Some x \<Rightarrow> Some x | None \<Rightarrow> Some (FNum 1800 1))"

section \<open>Steps\<close>

datatype event = Accepted tick_job | Refused tick_job | Finished tick_job | Other

definition finished_event :: "string \<Rightarrow> disp \<Rightarrow> event" where
  "finished_event c d = (case worker_of d c of Some (Running j) \<Rightarrow> Finished j | _ \<Rightarrow> Other)"

inductive disp_step :: "disp \<Rightarrow> event \<Rightarrow> disp \<Rightarrow> bool" where
  d_enqueue: "disp_step d (if fst (enqueue j d) then Accepted j else Refused j) (snd (enqueue j d))"
| d_next: "disp_step d Other (worker_next c d)"
| d_acquire: "disp_step d Other (worker_acquire c d)"
| d_finish: "disp_step d (finished_event c d) (worker_finish c d)"

inductive disp_reach :: "disp \<Rightarrow> event list \<Rightarrow> disp \<Rightarrow> bool" for d0 where
  reach_start: "disp_reach d0 [] d0"
| reach_step: "disp_reach d0 es d \<Longrightarrow> disp_step d e d' \<Longrightarrow> disp_reach d0 (es @ [e]) d'"

inductive_cases disp_stepE: "disp_step d e d'"

section \<open>Counting\<close>

definition weigh :: "('b \<Rightarrow> nat) \<Rightarrow> ('a \<times> 'b) list \<Rightarrow> nat" where
  "weigh f al = sum_list (map (f \<circ> snd) al)"

lemma weigh_Nil [simp]: "weigh f [] = 0"
  by (simp add: weigh_def)

lemma weigh_update_new: "map_of al k = None \<Longrightarrow> weigh f (AList.update k v al) = weigh f al + f v"
  by (induction al) (auto simp: weigh_def split: if_splits)

lemma weigh_update_old:
  "map_of al k = Some u \<Longrightarrow> weigh f (AList.update k v al) + f u = weigh f al + f v"
  by (induction al) (auto simp: weigh_def split: if_splits)

lemma delete_absent: "k \<notin> fst ` set al \<Longrightarrow> AList.delete k al = al"
  by (induction al) auto

lemma weigh_delete:
  "distinct (map fst al) \<Longrightarrow> map_of al k = Some u \<Longrightarrow> weigh f (AList.delete k al) + f u = weigh f al"
proof (induction al)
  case (Cons a al)
  show ?case
  proof (cases "fst a = k")
    case True
    with Cons.prems have "AList.delete k al = al" by (intro delete_absent) auto
    with True Cons.prems show ?thesis by (cases a) (simp add: weigh_def)
  next
    case False
    with Cons show ?thesis by (cases a) (auto simp: weigh_def)
  qed
qed simp

fun is_running :: "phase \<Rightarrow> nat" where
  "is_running (Running j) = 1"
| "is_running p = 0"

definition disp_ok :: "disp \<Rightarrow> bool" where
  "disp_ok d \<longleftrightarrow> distinct (map fst (d_queues d)) \<and> distinct (map fst (d_workers d)) \<and>
     d_pending d = weigh length (d_queues d) \<and> d_pending d \<le> d_max_queue d \<and>
     d_running d = weigh is_running (d_workers d) \<and> d_running d \<le> d_max_concurrent d \<and>
     (\<forall>c. worker_of d c = None \<longrightarrow> queue_of d c = [])"

lemma weigh_queue:
  "weigh length (AList.update c q (d_queues d)) + length (queue_of d c) =
   weigh length (d_queues d) + length q"
  by (cases "map_of (d_queues d) c")
    (auto simp: queue_of_def weigh_update_new weigh_update_old)

definition phase_weight :: "(phase \<Rightarrow> nat) \<Rightarrow> phase option \<Rightarrow> nat" where
  "phase_weight f w = (case w of None \<Rightarrow> 0 | Some u \<Rightarrow> f u)"

lemma phase_weight_simps [simp]:
  "phase_weight f None = 0" "phase_weight f (Some u) = f u"
  by (simp_all add: phase_weight_def)

lemma weigh_worker:
  "weigh f (AList.update c w (d_workers d)) + phase_weight f (worker_of d c) =
   weigh f (d_workers d) + f w"
  by (cases "worker_of d c") (auto simp: worker_of_def weigh_update_new weigh_update_old)

lemma weigh_worker_delete:
  "distinct (map fst (d_workers d)) \<Longrightarrow>
   weigh f (AList.delete c (d_workers d)) + phase_weight f (worker_of d c) = weigh f (d_workers d)"
proof (cases "worker_of d c")
  case None
  then have "c \<notin> fst ` set (d_workers d)" by (simp add: worker_of_def map_of_eq_None_iff)
  with None show ?thesis by (simp add: delete_absent)
qed (simp add: worker_of_def weigh_delete)

lemma queue_of_update:
  "queue_of (d\<lparr>d_queues := AList.update c q qs\<rparr>) x = (if x = c then q else queue_of (d\<lparr>d_queues := qs\<rparr>) x)"
  by (auto simp: queue_of_def update_conv' split: option.split)

lemma worker_of_update:
  "worker_of (d\<lparr>d_workers := AList.update c w ws\<rparr>) x = (if x = c then Some w else worker_of (d\<lparr>d_workers := ws\<rparr>) x)"
  "worker_of (d\<lparr>d_workers := AList.delete c ws\<rparr>) x = (if x = c then None else worker_of (d\<lparr>d_workers := ws\<rparr>) x)"
  by (auto simp: worker_of_def update_conv' delete_conv')

lemma of_frame [simp]:
  "queue_of (d\<lparr>d_workers := w\<rparr>) = queue_of d" "queue_of (d\<lparr>d_running := n\<rparr>) = queue_of d"
  "queue_of (d\<lparr>d_pending := n\<rparr>) = queue_of d" "queue_of (d\<lparr>d_queues := d_queues d\<rparr>) = queue_of d"
  "worker_of (d\<lparr>d_queues := q\<rparr>) = worker_of d" "worker_of (d\<lparr>d_running := n\<rparr>) = worker_of d"
  "worker_of (d\<lparr>d_pending := n\<rparr>) = worker_of d" "worker_of (d\<lparr>d_workers := d_workers d\<rparr>) = worker_of d"
  by (simp_all add: queue_of_def worker_of_def fun_eq_iff)

lemma queue_worker_frames [simp]:
  "queue_of (d\<lparr>d_queues := q, d_pending := n, d_workers := w\<rparr>) = queue_of (d\<lparr>d_queues := q\<rparr>)"
  "worker_of (d\<lparr>d_queues := q, d_pending := n, d_workers := w\<rparr>) = worker_of (d\<lparr>d_workers := w\<rparr>)"
  "worker_of (d\<lparr>d_workers := w, d_running := n\<rparr>) = worker_of (d\<lparr>d_workers := w\<rparr>)"
  "queue_of (d\<lparr>d_workers := w, d_running := n\<rparr>) = queue_of d"
  by (simp_all add: queue_of_def worker_of_def fun_eq_iff)

text \<open>What each step does to the queue and to the worker of a chain.\<close>

lemma enqueue_of:
  assumes "d_pending d < d_max_queue d"
  shows "queue_of (snd (enqueue j d)) x = (if x = j_chain_key j then queue_of d x @ [j] else queue_of d x)"
    and "worker_of (snd (enqueue j d)) x =
      (if x = j_chain_key j \<and> worker_of d x = None then Some Top else worker_of d x)"
  using assms by (auto simp: enqueue_def Let_def queue_of_update worker_of_update split: option.split)

lemma enqueue_full: "d_max_queue d \<le> d_pending d \<Longrightarrow> enqueue j d = (False, d)"
  by (simp add: enqueue_def)

lemma worker_next_of:
  assumes "worker_of d c = Some Top"
  shows "queue_of (worker_next c d) x = (if x = c then tl (queue_of d c) else queue_of d x)"
    and "worker_of (worker_next c d) x = (if x = c
      then (case queue_of d c of [] \<Rightarrow> None | j # q \<Rightarrow> Some (Waiting j)) else worker_of d x)"
  using assms by (auto simp: worker_next_def queue_of_update worker_of_update split: list.split)

lemma disp_ok_new [simp]: "disp_ok (new_dispatcher mc mq)"
  by (simp add: disp_ok_def new_dispatcher_def queue_of_def)

lemma disp_ok_enqueue:
  assumes ok: "disp_ok d"
  shows "disp_ok (snd (enqueue j d))"
proof (cases "d_pending d < d_max_queue d")
  case True
  show ?thesis
    unfolding disp_ok_def using ok True
    by (intro conjI; (simp add: enqueue_of)?)
      (use weigh_queue [of "j_chain_key j" "queue_of d (j_chain_key j) @ [j]" d]
        weigh_worker [of is_running "j_chain_key j" Top d]
       in \<open>auto simp: disp_ok_def enqueue_def Let_def distinct_update split: option.split\<close>)
qed (use ok in \<open>simp add: enqueue_full\<close>)

lemma disp_ok_next:
  assumes ok: "disp_ok d"
  shows "disp_ok (worker_next c d)"
proof (cases "worker_of d c = Some Top")
  case True
  show ?thesis
    unfolding disp_ok_def using ok True
    by (intro conjI; (simp add: worker_next_of)?)
      (use weigh_queue [of c "tl (queue_of d c)" d]
        weigh_worker [of is_running c "Waiting (hd (queue_of d c))" d]
        weigh_worker_delete [of d is_running c]
       in \<open>auto simp: disp_ok_def worker_next_def distinct_update distinct_delete split: list.split\<close>)
qed (use ok in \<open>simp add: worker_next_def\<close>)

lemma disp_ok_acquire:
  assumes ok: "disp_ok d"
  shows "disp_ok (worker_acquire c d)"
proof (cases "\<exists>j. worker_of d c = Some (Waiting j) \<and> d_running d < d_max_concurrent d")
  case True
  then obtain j where j: "worker_of d c = Some (Waiting j)" "d_running d < d_max_concurrent d" by blast
  show ?thesis
    using ok j weigh_worker [of is_running c "Running j" d]
    by (auto simp: disp_ok_def worker_acquire_def distinct_update worker_of_update)
qed (use ok in \<open>auto simp: worker_acquire_def split: option.split phase.split\<close>)

lemma disp_ok_finish:
  assumes ok: "disp_ok d"
  shows "disp_ok (worker_finish c d)"
proof (cases "\<exists>j. worker_of d c = Some (Running j)")
  case True
  then obtain j where j: "worker_of d c = Some (Running j)" by blast
  show ?thesis
    using ok j weigh_worker [of is_running c Top d]
    by (auto simp: disp_ok_def worker_finish_def distinct_update worker_of_update)
qed (use ok in \<open>auto simp: worker_finish_def split: option.split phase.split\<close>)

lemma disp_ok_step: "disp_step d e d' \<Longrightarrow> disp_ok d \<Longrightarrow> disp_ok d'"
  by (auto elim!: disp_stepE intro: disp_ok_enqueue disp_ok_next disp_ok_acquire disp_ok_finish)

lemma disp_ok_reach: "disp_reach d0 es d \<Longrightarrow> disp_ok d0 \<Longrightarrow> disp_ok d"
  by (induction rule: disp_reach.induct) (auto intro: disp_ok_step)

section \<open>First in, first out\<close>

definition in_hand :: "disp \<Rightarrow> string \<Rightarrow> tick_job list" where
  "in_hand d c = (case worker_of d c of
      Some (Waiting j) \<Rightarrow> [j] | Some (Running j) \<Rightarrow> [j] | _ \<Rightarrow> [])"

fun accepted_on :: "string \<Rightarrow> event \<Rightarrow> tick_job list" where
  "accepted_on c (Accepted j) = (if j_chain_key j = c then [j] else [])"
| "accepted_on c e = []"

fun finished_on :: "string \<Rightarrow> event \<Rightarrow> tick_job list" where
  "finished_on c (Finished j) = (if j_chain_key j = c then [j] else [])"
| "finished_on c e = []"

definition chain_log :: "(string \<Rightarrow> event \<Rightarrow> tick_job list) \<Rightarrow> string \<Rightarrow> event list \<Rightarrow> tick_job list" where
  "chain_log f c es = concat (map (f c) es)"

lemma chain_log_simps [simp]:
  "chain_log f c [] = []" "chain_log f c (e # es) = f c e @ chain_log f c es"
  "chain_log f c (es @ es') = chain_log f c es @ chain_log f c es'"
  by (simp_all add: chain_log_def)

text \<open>A chain's jobs carry its key, and what a chain holds is what came in and has not gone out.\<close>

definition chain_ok :: "event list \<Rightarrow> disp \<Rightarrow> bool" where
  "chain_ok es d \<longleftrightarrow> (\<forall>c. chain_log accepted_on c es = chain_log finished_on c es @ in_hand d c @ queue_of d c
     \<and> (\<forall>j \<in> set (in_hand d c @ queue_of d c). j_chain_key j = c))"

lemma chain_okD:
  assumes "chain_ok es d"
  shows "chain_log accepted_on c es = chain_log finished_on c es @ in_hand d c @ queue_of d c"
    and "j \<in> set (in_hand d c) \<Longrightarrow> j_chain_key j = c"
    and "j \<in> set (queue_of d c) \<Longrightarrow> j_chain_key j = c"
  using assms by (auto simp: chain_ok_def)

lemma chain_ok_step:
  assumes step: "disp_step d e d'" and ok: "chain_ok es d" "disp_ok d"
  shows "chain_ok (es @ [e]) d'"
  using step
proof cases
  case (d_enqueue j)
  show ?thesis
  proof (cases "d_pending d < d_max_queue d")
    case True
    have hand: "in_hand d' x = in_hand d x" for x
      by (cases "worker_of d x") (simp_all add: d_enqueue in_hand_def enqueue_of [OF True])
    have e: "e = Accepted j" using True d_enqueue by (simp add: enqueue_def Let_def)
    show ?thesis
      unfolding chain_ok_def hand using chain_okD [OF ok(1)]
      by (auto simp: e d_enqueue(2) enqueue_of [OF True])
  qed (use d_enqueue ok in \<open>simp add: enqueue_full chain_ok_def\<close>)
next
  case (d_next c)
  show ?thesis
  proof (cases "worker_of d c = Some Top")
    case True
    have "in_hand d' x @ queue_of d' x = in_hand d x @ queue_of d x" for x
      by (auto simp: d_next in_hand_def worker_next_of [OF True] True split: list.split)
    then show ?thesis using ok(1) by (simp add: chain_ok_def d_next(1))
  qed (use d_next ok in \<open>simp add: worker_next_def chain_ok_def\<close>)
next
  case (d_acquire c)
  have "in_hand d' x = in_hand d x" "queue_of d' x = queue_of d x" for x
    by (auto simp: d_acquire in_hand_def worker_acquire_def worker_of_update
        split: option.split phase.split)
  then show ?thesis using ok(1) by (simp add: chain_ok_def d_acquire(1))
next
  case (d_finish c)
  show ?thesis
  proof (cases "\<exists>j. worker_of d c = Some (Running j)")
    case True
    then obtain j where j: "worker_of d c = Some (Running j)" by blast
    have key: "j_chain_key j = c" by (rule chain_okD(2) [OF ok(1)]) (simp add: in_hand_def j)
    have e: "e = Finished j" by (simp add: d_finish finished_event_def j)
    have *: "in_hand d' x = (if x = c then [] else in_hand d x)" "queue_of d' x = queue_of d x" for x
      by (simp_all add: d_finish in_hand_def worker_finish_def j worker_of_update)
    have "in_hand d c = [j]" by (simp add: in_hand_def j)
    then show ?thesis
      unfolding chain_ok_def * using chain_okD [OF ok(1)] by (auto simp: e key)
  qed (use d_finish ok in \<open>auto simp: worker_finish_def finished_event_def chain_ok_def split: option.split phase.split\<close>)
qed

lemma chain_ok_new: "chain_ok [] (new_dispatcher mc mq)"
  by (simp add: chain_ok_def new_dispatcher_def in_hand_def queue_of_def worker_of_def)

lemma chain_ok_reach: "disp_reach (new_dispatcher mc mq) es d \<Longrightarrow> chain_ok es d"
proof (induction rule: disp_reach.induct)
  case reach_start
  show ?case by (rule chain_ok_new)
next
  case (reach_step es d e d')
  then show ?case using chain_ok_step disp_ok_reach disp_ok_new by blast
qed

lemma d_limits_step: "disp_step d e d' \<Longrightarrow>
  d_max_concurrent d' = d_max_concurrent d \<and> d_max_queue d' = d_max_queue d"
  by (auto elim!: disp_stepE simp: enqueue_def worker_next_def worker_acquire_def worker_finish_def Let_def
      split: option.split phase.split list.split)

lemma d_limits_reach: "disp_reach d0 es d \<Longrightarrow>
  d_max_concurrent d = d_max_concurrent d0 \<and> d_max_queue d = d_max_queue d0"
  by (induction rule: disp_reach.induct) (auto dest: d_limits_step)

section \<open>Draining\<close>

fun phase_cost :: "phase \<Rightarrow> nat" where
  "phase_cost Top = 1"
| "phase_cost (Running j) = 2"
| "phase_cost (Waiting j) = 3"

definition work_left :: "disp \<Rightarrow> nat" where
  "work_left d = 3 * d_pending d + weigh phase_cost (d_workers d)"

lemma phase_cost_pos [simp]: "0 < phase_cost p"
  by (cases p) simp_all

lemma weigh_zero: "(\<And>p. 0 < f p) \<Longrightarrow> weigh f al = 0 \<Longrightarrow> al = []"
  by (cases al) (simp_all add: weigh_def, metis not_gr0)

lemma weigh_member: "(k, v) \<in> set al \<Longrightarrow> f v \<le> weigh f al"
  by (induction al) (auto simp: weigh_def)

text \<open>Some step of a worker lessens the work that is left.\<close>

lemma next_lessens:
  assumes ok: "disp_ok d" and top: "worker_of d c = Some Top"
  shows "work_left (worker_next c d) < work_left d"
proof (cases "queue_of d c")
  case Nil
  then show ?thesis
    using ok top weigh_worker_delete [of d phase_cost c]
    by (simp add: work_left_def worker_next_def disp_ok_def)
next
  case (Cons j q)
  have "0 < d_pending d"
    using ok Cons weigh_queue [of c "[]" d] by (auto simp: disp_ok_def)
  then show ?thesis
    using Cons top weigh_worker [of phase_cost c "Waiting j" d]
    by (simp add: work_left_def worker_next_def)
qed

lemma acquire_lessens:
  assumes "worker_of d c = Some (Waiting j)" "d_running d < d_max_concurrent d"
  shows "work_left (worker_acquire c d) < work_left d"
  using assms weigh_worker [of phase_cost c "Running j" d]
  by (simp add: work_left_def worker_acquire_def)

lemma finish_lessens:
  assumes "worker_of d c = Some (Running j)"
  shows "work_left (worker_finish c d) < work_left d"
  using assms weigh_worker [of phase_cost c Top d]
  by (simp add: work_left_def worker_finish_def)

lemma some_runs: "0 < weigh is_running al \<Longrightarrow> \<exists>c j. (c, Running j) \<in> set al"
proof (induction al)
  case (Cons a al)
  then show ?case by (cases a; cases "snd a") (auto simp: weigh_def)
qed simp

lemma progress:
  assumes ok: "disp_ok d" and limit: "0 < d_max_concurrent d" and left: "d_workers d \<noteq> []"
  shows "\<exists>e d'. disp_step d e d' \<and> (\<forall>c. accepted_on c e = []) \<and> work_left d' < work_left d"
proof -
  have member: "worker_of d c = Some p" if "(c, p) \<in> set (d_workers d)" for c p
    using ok that by (simp add: disp_ok_def worker_of_def)
  have runs: ?thesis if "worker_of d c = Some (Running j)" for c j
    using finish_lessens [OF that] d_finish [of d c]
    by (auto simp: finished_event_def that intro!: exI [of _ "Finished j"])
  obtain c p where "(c, p) \<in> set (d_workers d)" using left by (cases "d_workers d") auto
  then have w: "worker_of d c = Some p" by (rule member)
  show ?thesis
  proof (cases p)
    case Top
    then show ?thesis using next_lessens [OF ok] w d_next [of d c] by fastforce
  next
    case (Running j)
    then show ?thesis using runs w by blast
  next
    case (Waiting j)
    show ?thesis
    proof (cases "d_running d < d_max_concurrent d")
      case True
      then show ?thesis using acquire_lessens w Waiting d_acquire [of d c] by fastforce
    next
      case False
      then have "0 < weigh is_running (d_workers d)" using ok limit by (simp add: disp_ok_def)
      then show ?thesis using some_runs member runs by blast
    qed
  qed
qed

lemma no_worker_no_work:
  assumes "disp_ok d" "d_workers d = []"
  shows "queue_of d c = []" "in_hand d c = []"
  using assms by (auto simp: disp_ok_def worker_of_def in_hand_def)

lemma drains:
  assumes "disp_reach d0 es d" "disp_ok d0" "0 < d_max_concurrent d0"
  shows "\<exists>es' d'. disp_reach d0 (es @ es') d' \<and> (\<forall>c. chain_log accepted_on c es' = []) \<and> d_workers d' = []"
  using assms(1)
proof (induction "work_left d" arbitrary: es d rule: less_induct)
  case less
  show ?case
  proof (cases "d_workers d = []")
    case True
    with less.prems show ?thesis by (intro exI [of _ "[]"] exI [of _ d]) simp
  next
    case False
    have "disp_ok d" "0 < d_max_concurrent d"
      using disp_ok_reach [OF less.prems] d_limits_reach [OF less.prems] assms by simp_all
    then obtain e d1 where e: "disp_step d e d1" "\<forall>c. accepted_on c e = []" "work_left d1 < work_left d"
      using progress False by blast
    from less.hyps [OF e(3) reach_step [OF less.prems e(1)]]
    obtain es' d' where "disp_reach d0 ((es @ [e]) @ es') d'"
      "\<forall>c. chain_log accepted_on c es' = []" "d_workers d' = []" by blast
    with e(2) show ?thesis by (intro exI [of _ "e # es'"] exI [of _ d']) simp
  qed
qed

section \<open>Jobs that wait for the semaphore\<close>

fun is_waiting :: "phase \<Rightarrow> nat" where
  "is_waiting (Waiting j) = 1"
| "is_waiting p = 0"

definition plain_job :: "string \<Rightarrow> tick_job" where
  "plain_job c = \<lparr>j_cycle = 0, j_chain_key = c, j_user_message = [], j_chat_id = None,
     j_chat_message_ids = [], j_source = ''auto''\<rparr>"

fun flood :: "nat \<Rightarrow> disp \<Rightarrow> disp" where
  "flood 0 d = d"
| "flood (Suc n) d = (let c = replicate n (CHR ''a'') in
     worker_next c (snd (enqueue (plain_job c) (flood n d))))"

lemma flood_reach: "\<exists>es. disp_reach d es (flood n d)"
proof (induction n)
  case 0
  then show ?case using reach_start by (auto intro: exI [of _ "[]"])
next
  case (Suc n)
  then obtain es where "disp_reach d es (flood n d)" by blast
  from reach_step [OF reach_step [OF this d_enqueue] d_next] show ?case
    unfolding flood.simps Let_def by blast
qed

lemma flood_state:
  "d_pending (flood n (new_dispatcher 1 1)) = 0 \<and> d_max_queue (flood n (new_dispatcher 1 1)) = 1 \<and>
   (\<forall>c. (n \<le> length c \<longrightarrow> worker_of (flood n (new_dispatcher 1 1)) c = None) \<and>
        queue_of (flood n (new_dispatcher 1 1)) c = []) \<and>
   weigh is_waiting (d_workers (flood n (new_dispatcher 1 1))) = n"
proof (induction n)
  case 0
  show ?case by (simp add: new_dispatcher_def at_least_one_def worker_of_def queue_of_def)
next
  case (Suc n)
  let ?d = "flood n (new_dispatcher 1 1)" and ?c = "replicate n (CHR ''a'')"
  let ?e = "snd (enqueue (plain_job ?c) ?d)"
  have can: "d_pending ?d < d_max_queue ?d" and none: "worker_of ?d ?c = None" using Suc by simp_all
  note of = enqueue_of [OF can, of "plain_job ?c"]
  have key: "j_chain_key (plain_job ?c) = ?c" by (simp add: plain_job_def)
  have top: "worker_of ?e ?c = Some Top" "queue_of ?e ?c = [plain_job ?c]"
    using Suc by (simp_all add: of key none)
  have w: "d_workers (worker_next ?c ?e) = AList.update ?c (Waiting (plain_job ?c)) (d_workers ?e)"
    by (simp add: worker_next_def top)
  have "weigh is_waiting (d_workers ?e) = n"
    using can none Suc weigh_worker [of is_waiting ?c Top ?d]
    by (simp add: enqueue_def key Let_def)
  then have "weigh is_waiting (d_workers (worker_next ?c ?e)) = Suc n"
    using weigh_worker [of is_waiting ?c "Waiting (plain_job ?c)" ?e] by (simp add: w top)
  moreover have "d_pending ?e = 1" "d_max_queue ?e = 1"
    using can Suc by (simp_all add: enqueue_def Let_def)
  then have "d_pending (worker_next ?c ?e) = 0" "d_max_queue (worker_next ?c ?e) = 1"
    using top by (simp_all add: worker_next_def del: flood.simps)
  moreover have "queue_of (worker_next ?c ?e) x = []" for x
    using Suc by (simp add: worker_next_of [OF top(1)] of key top)
  moreover have "Suc n \<le> length x \<Longrightarrow> worker_of (worker_next ?c ?e) x = None" for x
    using Suc by (auto simp: worker_next_of [OF top(1)] of key)
  ultimately show ?case by (simp add: Let_def)
qed

section \<open>Properties\<close>

text \<open>There is always a guard, and it is positive.\<close>

lemma tick_job_guard_positive: "\<exists>x. tick_job_guard_seconds v = Some x \<and> \<not> float_le x (FNum 0 0)"
  by (auto simp: tick_job_guard_seconds_def positive_float_or_none_def
      split: option.split sum.split pyfloat.split if_splits)

text \<open>C6: in every state the dispatcher can reach, the number of jobs that run is counted exactly
  and is at most the configured concurrency, the number of queued jobs is counted exactly and is at
  most the configured queue size, and no chain has queued jobs without a worker to run them.\<close>

theorem dispatcher_bounds:
  assumes "disp_reach (new_dispatcher mc mq) es d"
  shows "d_running d = weigh is_running (d_workers d) \<and> d_running d \<le> at_least_one mc \<and>
    d_pending d = weigh length (d_queues d) \<and> d_pending d \<le> at_least_one mq \<and>
    (\<forall>c. worker_of d c = None \<longrightarrow> queue_of d c = [])"
  using disp_ok_reach [OF assms disp_ok_new] d_limits_reach [OF assms]
  by (simp add: disp_ok_def new_dispatcher_def)

theorem dispatcher_bounds_witness:
  "d_pending (snd (enqueue (plain_job ''a'') (new_dispatcher 1 1))) \<le> at_least_one 1"
proof -
  have "disp_reach (new_dispatcher 1 1) ([] @ [if fst (enqueue (plain_job ''a'') (new_dispatcher 1 1))
      then Accepted (plain_job ''a'') else Refused (plain_job ''a'')])
    (snd (enqueue (plain_job ''a'') (new_dispatcher 1 1)))"
    by (rule reach_step [OF reach_start d_enqueue])
  from dispatcher_bounds [OF this] show ?thesis by blast
qed

text \<open>C5: per chain, the jobs that were accepted are, in the order they came, those that have
  finished, then the one its worker holds, then those still queued: nothing is lost, doubled or
  overtaken, and a chain runs one job at a time.\<close>

theorem chain_fifo:
  assumes "disp_reach (new_dispatcher mc mq) es d"
  shows "chain_log accepted_on c es = chain_log finished_on c es @ in_hand d c @ queue_of d c"
  by (rule chain_okD(1) [OF chain_ok_reach [OF assms]])

theorem chain_fifo_witness:
  "chain_log accepted_on ''a'' ([] @ [if fst (enqueue (plain_job ''a'') (new_dispatcher 1 1))
      then Accepted (plain_job ''a'') else Refused (plain_job ''a'')]) =
    chain_log finished_on ''a'' ([] @ [if fst (enqueue (plain_job ''a'') (new_dispatcher 1 1))
      then Accepted (plain_job ''a'') else Refused (plain_job ''a'')]) @
    in_hand (snd (enqueue (plain_job ''a'') (new_dispatcher 1 1))) ''a'' @
    queue_of (snd (enqueue (plain_job ''a'') (new_dispatcher 1 1))) ''a''"
  by (rule chain_fifo [OF reach_step [OF reach_start d_enqueue]])

text \<open>C7: from every reachable state, the workers alone (without a further job coming in) can reach
  a state in which every job ever accepted has finished, per chain in the order of acceptance: no
  deadlock on the semaphore, and no job that stays queued for want of a worker.\<close>

theorem dispatcher_drains:
  assumes "disp_reach (new_dispatcher mc mq) es d"
  shows "\<exists>es' d'. disp_reach (new_dispatcher mc mq) (es @ es') d' \<and>
    (\<forall>c. chain_log accepted_on c es' = [] \<and> chain_log finished_on c (es @ es') = chain_log accepted_on c es)"
proof -
  have limit: "0 < d_max_concurrent (new_dispatcher mc mq)"
    by (simp add: new_dispatcher_def at_least_one_def)
  obtain es' d' where r: "disp_reach (new_dispatcher mc mq) (es @ es') d'"
    and none: "\<forall>c. chain_log accepted_on c es' = []" and idle: "d_workers d' = []"
    using drains [OF assms disp_ok_new limit] by blast
  have "chain_log finished_on c (es @ es') = chain_log accepted_on c es" for c
    using chain_okD(1) [OF chain_ok_reach [OF r], of c] none
      no_worker_no_work [OF disp_ok_reach [OF r disp_ok_new] idle, of c]
    by simp
  with r none show ?thesis by blast
qed

theorem dispatcher_drains_witness:
  "\<exists>es' d'. disp_reach (new_dispatcher 2 5) ([] @ es') d' \<and>
    (\<forall>c. chain_log accepted_on c es' = [] \<and> chain_log finished_on c ([] @ es') = chain_log accepted_on c [])"
  by (rule dispatcher_drains [OF reach_start])

text \<open>a job leaves the count of pending jobs when its worker takes it, before it holds the
  semaphore, so the queue size does not bound the jobs that wait: with one slot and a queue of one,
  any number of accepted jobs can be waiting (each on its own chain).\<close>

theorem waiting_unbounded:
  "\<exists>es d. disp_reach (new_dispatcher 1 1) es d \<and> weigh is_waiting (d_workers d) = n"
  using flood_reach [of "new_dispatcher 1 1" n] flood_state [of n] by blast

end
