(* ===== verification/Heapq.thy ===== *)
theory Heapq
  imports Main "HOL-Library.Multiset"
begin

text \<open>
  Python's \<open>heapq\<close> on a list, by a key: \<open>heappush\<close>, \<open>heappop\<close> and \<open>heapify\<close> with the same
  exchanges as CPython's, and their correctness. The loops that carry an item along are written with
  exchanges of neighbours, which leaves the same list.
\<close>

definition hswap :: "nat \<Rightarrow> nat \<Rightarrow> 'a list \<Rightarrow> 'a list" where
  "hswap i j h = h[i := h ! j, j := h ! i]"

definition hparent :: "nat \<Rightarrow> nat" where
  "hparent i = (i - 1) div 2"

lemma hparent_less [termination_simp]: "0 < i \<Longrightarrow> hparent i < i"
  by (simp add: hparent_def)

text \<open>\<open>_siftdown\<close>: towards the root, not past \<open>start\<close>.\<close>

function siftdown :: "('a \<Rightarrow> 'k::linorder) \<Rightarrow> nat \<Rightarrow> nat \<Rightarrow> 'a list \<Rightarrow> 'a list" where
  "siftdown key start pos h =
     (if start < pos \<and> key (h ! pos) < key (h ! hparent pos)
      then siftdown key start (hparent pos) (hswap pos (hparent pos) h) else h)"
  by pat_completeness auto
termination by (relation "measure (\<lambda>(k, s, p, h). p)") (auto simp: hparent_def)

text \<open>The smaller child of an inner position; of equal ones the right.\<close>

definition small_child :: "('a \<Rightarrow> 'k::linorder) \<Rightarrow> nat \<Rightarrow> 'a list \<Rightarrow> nat" where
  "small_child key pos h = (let c = 2 * pos + 1 in
     if c + 1 < length h \<and> \<not> key (h ! c) < key (h ! (c + 1)) then c + 1 else c)"

text \<open>\<open>_siftup\<close>: down to a leaf along the smaller children, then back up as far as needed.\<close>

function sift_to_leaf :: "('a \<Rightarrow> 'k::linorder) \<Rightarrow> nat \<Rightarrow> 'a list \<Rightarrow> nat \<times> 'a list" where
  "sift_to_leaf key pos h =
     (if 2 * pos + 1 < length h
      then sift_to_leaf key (small_child key pos h) (hswap pos (small_child key pos h) h)
      else (pos, h))"
  by pat_completeness auto
termination
  by (relation "measure (\<lambda>(k, p, h). length h - p)")
    (auto simp: hswap_def small_child_def Let_def)

definition siftup :: "('a \<Rightarrow> 'k::linorder) \<Rightarrow> nat \<Rightarrow> 'a list \<Rightarrow> 'a list" where
  "siftup key pos h = (let (p, h') = sift_to_leaf key pos h in siftdown key pos p h')"

definition heappush :: "('a \<Rightarrow> 'k::linorder) \<Rightarrow> 'a list \<Rightarrow> 'a \<Rightarrow> 'a list" where
  "heappush key h x = siftdown key 0 (length h) (h @ [x])"

text \<open>\<open>None\<close> when the list is empty (an \<open>IndexError\<close>).\<close>

definition heappop :: "('a \<Rightarrow> 'k::linorder) \<Rightarrow> 'a list \<Rightarrow> ('a \<times> 'a list) option" where
  "heappop key h = (if h = [] then None
     else (let l = last h; r = butlast h in
       if r = [] then Some (l, []) else Some (hd r, siftup key 0 (r[0 := l]))))"

fun heapify_from :: "('a \<Rightarrow> 'k::linorder) \<Rightarrow> nat \<Rightarrow> 'a list \<Rightarrow> 'a list" where
  "heapify_from key 0 h = h"
| "heapify_from key (Suc i) h = heapify_from key i (siftup key i h)"

definition heapify :: "('a \<Rightarrow> 'k::linorder) \<Rightarrow> 'a list \<Rightarrow> 'a list" where
  "heapify key h = heapify_from key (length h div 2) h"

declare siftdown.simps [simp del] sift_to_leaf.simps [simp del]

section \<open>Exchanges\<close>

lemma length_hswap [simp]: "length (hswap i j h) = length h"
  by (simp add: hswap_def)

lemma mset_hswap [simp]: "i < length h \<Longrightarrow> j < length h \<Longrightarrow> mset (hswap i j h) = mset h"
  by (simp add: hswap_def mset_swap)

lemma nth_hswap: "i < length h \<Longrightarrow> j < length h \<Longrightarrow> k < length h \<Longrightarrow>
    hswap i j h ! k = (if k = i then h ! j else if k = j then h ! i else h ! k)"
  by (auto simp: hswap_def nth_list_update)

section \<open>The invariant\<close>

text \<open>\<open>desc s i\<close>: position \<open>i\<close> lies in the subtree of \<open>s\<close>.\<close>

inductive desc :: "nat \<Rightarrow> nat \<Rightarrow> bool" for s where
  desc_refl: "desc s s"
| desc_left: "desc s i \<Longrightarrow> desc s (2 * i + 1)"
| desc_right: "desc s i \<Longrightarrow> desc s (2 * i + 2)"

lemma desc_ge: "desc s i \<Longrightarrow> s \<le> i"
  by (induction rule: desc.induct) auto

lemma desc_parent: "desc s i \<Longrightarrow> s < i \<Longrightarrow> desc s (hparent i)"
  by (erule desc.cases) (auto simp: hparent_def)

lemma desc_zero: "desc 0 i"
proof (induction i rule: less_induct)
  case (less i)
  show ?case
  proof (cases "i = 0")
    case False
    then have "desc 0 (hparent i)" using less by (simp add: hparent_less)
    moreover have "i = 2 * hparent i + 1 \<or> i = 2 * hparent i + 2" using False by (auto simp: hparent_def)
    ultimately show ?thesis using desc_left desc_right by metis
  qed (simp add: desc_refl)
qed

text \<open>Every edge below \<open>s\<close> is in order; all but the one above \<open>p\<close> are, and the parent of \<open>p\<close> is in
  order with the children of \<open>p\<close>.\<close>

definition heap_from :: "('a \<Rightarrow> 'k::linorder) \<Rightarrow> nat \<Rightarrow> 'a list \<Rightarrow> bool" where
  "heap_from key s h \<longleftrightarrow> (\<forall>i < length h. 0 < i \<and> s \<le> hparent i \<longrightarrow> key (h ! hparent i) \<le> key (h ! i))"

definition heap_but :: "('a \<Rightarrow> 'k::linorder) \<Rightarrow> nat \<Rightarrow> nat \<Rightarrow> 'a list \<Rightarrow> bool" where
  "heap_but key s p h \<longleftrightarrow>
     (\<forall>i < length h. 0 < i \<and> s \<le> hparent i \<and> i \<noteq> p \<longrightarrow> key (h ! hparent i) \<le> key (h ! i)) \<and>
     (\<forall>i < length h. 0 < i \<and> hparent i = p \<and> s < p \<longrightarrow> key (h ! hparent p) \<le> key (h ! i))"

lemma siftdown_heap:
  assumes "heap_but key s p h" "desc s p" "p < length h"
  shows "heap_from key s (siftdown key s p h) \<and> mset (siftdown key s p h) = mset h"
  using assms
proof (induction key s p h rule: siftdown.induct)
  case (1 key s p h)
  show ?case
  proof (cases "s < p \<and> key (h ! p) < key (h ! hparent p)")
    case True
    let ?q = "hparent p" and ?h = "hswap p (hparent p) h"
    have q: "?q < p" "?q < length h" "s \<le> ?q" "desc s ?q"
      using True 1(3,4) desc_parent [OF 1(3)] desc_ge by (auto simp: hparent_def dest: desc_ge)
    have nth: "?h ! i = (if i = p then h ! ?q else if i = ?q then h ! p else h ! i)" if "i < length h" for i
      by (rule nth_hswap) (use that q 1(4) in auto)
    have edge: "key (h ! hparent i) \<le> key (h ! i)" if "i < length h" "0 < i" "s \<le> hparent i" "i \<noteq> p" for i
      using 1(2) that by (simp add: heap_but_def)
    have grand: "key (h ! ?q) \<le> key (h ! i)" if "i < length h" "0 < i" "hparent i = p" for i
      using 1(2) True that by (simp add: heap_but_def)
    have "heap_but key s ?q ?h"
      unfolding heap_but_def
    proof (intro conjI allI impI)
      fix i
      assume i: "i < length ?h" "0 < i \<and> s \<le> hparent i \<and> i \<noteq> ?q"
      then have il: "i < length h" by simp
      then have pl: "hparent i < length h" using hparent_less i by (metis less_trans)
      show "key (?h ! hparent i) \<le> key (?h ! i)"
        unfolding nth [OF il] nth [OF pl]
        using edge [OF il] grand [OF il] i True q by (cases "i = p"; cases "hparent i = p"; cases "hparent i = ?q") force+
    next
      fix i
      assume i: "i < length ?h" "0 < i \<and> hparent i = ?q \<and> s < ?q"
      then have il: "i < length h" by simp
      have "0 < ?q" using i by simp
      then have ql: "hparent ?q < length h" "hparent ?q \<noteq> p" "hparent ?q \<noteq> ?q"
        using hparent_less [of ?q] q by auto
      have sq: "s \<le> hparent ?q" using desc_parent [OF q(4)] i desc_ge by blast
      have up: "key (h ! hparent ?q) \<le> key (h ! ?q)" using edge [of ?q] q sq i by simp
      have "key (h ! ?q) \<le> key (h ! i)" if "i \<noteq> p" using edge [OF il] i that q by simp
      then show "key (?h ! hparent ?q) \<le> key (?h ! i)"
        unfolding nth [OF il] nth [OF ql(1)] using up ql i hparent_less [of i] by (cases "i = p") auto
    qed
    then show ?thesis
      using 1(1) [OF True] q 1(4) True by (subst (1 2) siftdown.simps) simp
  next
    case False
    have "heap_from key s h"
      unfolding heap_from_def
    proof (intro allI impI)
      fix i
      assume i: "i < length h" "0 < i \<and> s \<le> hparent i"
      show "key (h ! hparent i) \<le> key (h ! i)"
      proof (cases "i = p")
        case True
        have "s < p" using i True hparent_less [of p] by simp
        then show ?thesis using False True by simp
      qed (use 1(2) i in \<open>simp add: heap_but_def\<close>)
    qed
    moreover have "siftdown key s p h = h" using False by (subst siftdown.simps) auto
    ultimately show ?thesis by simp
  qed
qed

text \<open>On the way down the edges at \<open>p\<close> may be out of order.\<close>

definition heap_hole :: "('a \<Rightarrow> 'k::linorder) \<Rightarrow> nat \<Rightarrow> nat \<Rightarrow> 'a list \<Rightarrow> bool" where
  "heap_hole key s p h \<longleftrightarrow>
     (\<forall>i < length h. 0 < i \<and> s \<le> hparent i \<and> i \<noteq> p \<and> hparent i \<noteq> p \<longrightarrow> key (h ! hparent i) \<le> key (h ! i)) \<and>
     (\<forall>i < length h. 0 < i \<and> hparent i = p \<and> s < p \<longrightarrow> key (h ! hparent p) \<le> key (h ! i))"

lemma small_child_facts:
  assumes "2 * p + 1 < length h"
  shows "small_child key p h < length h" "0 < small_child key p h" "hparent (small_child key p h) = p"
    "p < small_child key p h"
    "small_child key p h = 2 * p + 1 \<or> small_child key p h = 2 * p + 2"
    "\<lbrakk>i < length h; 0 < i; hparent i = p\<rbrakk> \<Longrightarrow> key (h ! small_child key p h) \<le> key (h ! i)"
proof -
  show "small_child key p h < length h" "0 < small_child key p h" "hparent (small_child key p h) = p"
    "p < small_child key p h" "small_child key p h = 2 * p + 1 \<or> small_child key p h = 2 * p + 2"
    using assms by (auto simp: small_child_def hparent_def Let_def)
  assume i: "i < length h" "0 < i" "hparent i = p"
  then have "i = 2 * p + 1 \<or> i = 2 * p + 2" by (auto simp: hparent_def)
  then show "key (h ! small_child key p h) \<le> key (h ! i)"
    using i by (auto simp: small_child_def Let_def not_less)
qed

lemma heap_hole_step:
  assumes hole: "heap_hole key s p h" and child: "2 * p + 1 < length h" and sp: "s \<le> p"
  shows "heap_hole key s (small_child key p h) (hswap p (small_child key p h) h)"
proof -
  let ?c = "small_child key p h" and ?h = "hswap p (small_child key p h) h"
  note c = small_child_facts [OF child, where key = key]
  have pl: "p < length h" using child by simp
  have nth: "?h ! i = (if i = p then h ! ?c else if i = ?c then h ! p else h ! i)" if "i < length h" for i
    by (rule nth_hswap) (use that pl c(1) in auto)
  have edge: "key (h ! hparent i) \<le> key (h ! i)"
    if "i < length h" "0 < i" "s \<le> hparent i" "i \<noteq> p" "hparent i \<noteq> p" for i
    using hole that by (simp add: heap_hole_def)
  have grand: "key (h ! hparent p) \<le> key (h ! ?c)" if "s < p"
    using hole that c by (simp add: heap_hole_def)
  show ?thesis
    unfolding heap_hole_def
  proof (intro conjI allI impI)
    fix i
    assume i: "i < length ?h" "0 < i \<and> s \<le> hparent i \<and> i \<noteq> ?c \<and> hparent i \<noteq> ?c"
    then have il: "i < length h" by simp
    then have il2: "hparent i < length h" using hparent_less i by (metis less_trans)
    have ip: "hparent i \<noteq> i" using hparent_less [of i] i by simp
    show "key (?h ! hparent i) \<le> key (?h ! i)"
    proof (cases "i = p")
      case True
      then have "s < p" using i hparent_less [of p] by simp
      then show ?thesis using grand True ip i by (simp add: nth [OF pl] nth [OF il2 [unfolded True]])
    next
      case False
      then show ?thesis
        using i edge [OF il] c(6) [OF il] by (cases "hparent i = p") (simp_all add: nth [OF il] nth [OF il2] nth [OF pl])
    qed
  next
    fix i
    assume i: "i < length ?h" "0 < i \<and> hparent i = ?c \<and> s < ?c"
    then have il: "i < length h" by simp
    have "i \<noteq> p" "i \<noteq> ?c" using i c(3,4) hparent_less [of i] by auto
    moreover have "key (h ! ?c) \<le> key (h ! i)" using edge [OF il] i c(4) sp \<open>i \<noteq> p\<close> by simp
    ultimately show "key (?h ! hparent ?c) \<le> key (?h ! i)" by (simp add: nth [OF il] nth [OF pl] c(3))
  qed
qed

lemma sift_to_leaf_hole:
  assumes "heap_hole key s p h" "desc s p" "p < length h"
  shows "heap_but key s (fst (sift_to_leaf key p h)) (snd (sift_to_leaf key p h)) \<and>
    desc s (fst (sift_to_leaf key p h)) \<and> fst (sift_to_leaf key p h) < length h \<and>
    mset (snd (sift_to_leaf key p h)) = mset h"
  using assms
proof (induction key p h rule: sift_to_leaf.induct)
  case (1 key p h)
  show ?case
  proof (cases "2 * p + 1 < length h")
    case True
    note c = small_child_facts [OF True, where key = key]
    have "desc s (small_child key p h)" using c(5) 1(3) desc_left desc_right by metis
    moreover have "heap_hole key s (small_child key p h) (hswap p (small_child key p h) h)"
      by (rule heap_hole_step [OF 1(2) True desc_ge [OF 1(3)]])
    moreover have "sift_to_leaf key p h =
        sift_to_leaf key (small_child key p h) (hswap p (small_child key p h) h)"
      using True by (subst sift_to_leaf.simps) simp
    ultimately show ?thesis
      using 1(1) [OF True] c(1) 1(4) by simp
  next
    case False
    have "hparent i \<noteq> p" if "i < length h" "0 < i" for i using that False by (auto simp: hparent_def)
    then have "heap_but key s p h" using 1(2) by (simp add: heap_but_def heap_hole_def)
    moreover have "sift_to_leaf key p h = (p, h)" using False by (subst sift_to_leaf.simps) simp
    ultimately show ?thesis using 1(3,4) by simp
  qed
qed

lemma siftup_heap:
  assumes "heap_hole key s s h" "s < length h"
  shows "heap_from key s (siftup key s h) \<and> mset (siftup key s h) = mset h"
proof -
  obtain p h' where l: "sift_to_leaf key s h = (p, h')" by fastforce
  from sift_to_leaf_hole [OF assms(1) desc_refl assms(2)] l
  have p: "heap_but key s p h'" "desc s p" "p < length h" "mset h' = mset h" by simp_all
  then have "p < length h'" using mset_eq_length by metis
  from siftdown_heap [OF p(1,2) this] p(4) show ?thesis by (simp add: siftup_def l)
qed

section \<open>Correctness\<close>

lemma heap_from_Nil [simp]: "heap_from key s []"
  by (simp add: heap_from_def)

lemma heappush_heap:
  assumes "heap_from key 0 h"
  shows "heap_from key 0 (heappush key h x)" "mset (heappush key h x) = add_mset x (mset h)"
proof -
  have "heap_but key 0 (length h) (h @ [x])"
    unfolding heap_but_def
  proof (intro conjI allI impI)
    fix i
    assume i: "i < length (h @ [x])" "0 < i \<and> 0 \<le> hparent i \<and> i \<noteq> length h"
    then show "key ((h @ [x]) ! hparent i) \<le> key ((h @ [x]) ! i)"
      using assms hparent_less [of i] by (auto simp: nth_append heap_from_def)
  next
    fix i
    assume "i < length (h @ [x])" "0 < i \<and> hparent i = length h \<and> 0 < length h"
    then show "key ((h @ [x]) ! hparent (length h)) \<le> key ((h @ [x]) ! i)"
      using hparent_less [of i] by auto
  qed
  from siftdown_heap [OF this desc_zero] show "heap_from key 0 (heappush key h x)"
    "mset (heappush key h x) = add_mset x (mset h)"
    by (simp_all add: heappush_def)
qed

lemma heap_root: "heap_from key 0 h \<Longrightarrow> i < length h \<Longrightarrow> key (h ! 0) \<le> key (h ! i)"
proof (induction i rule: less_induct)
  case (less i)
  show ?case
  proof (cases "i = 0")
    case False
    then have "key (h ! 0) \<le> key (h ! hparent i)"
      using less by (intro less.IH) (auto simp: hparent_less intro: less_trans [OF hparent_less])
    also have "\<dots> \<le> key (h ! i)" using less False by (simp add: heap_from_def)
    finally show ?thesis .
  qed simp
qed

lemma heap_from_butlast: "heap_from key s h \<Longrightarrow> heap_from key s (butlast h)"
proof -
  assume h: "heap_from key s h"
  show ?thesis
    unfolding heap_from_def
  proof (intro allI impI)
    fix i
    assume i: "i < length (butlast h)" "0 < i \<and> s \<le> hparent i"
    then have "hparent i < length (butlast h)" using hparent_less by (metis less_trans)
    with i h show "key (butlast h ! hparent i) \<le> key (butlast h ! i)"
      by (simp add: heap_from_def nth_butlast)
  qed
qed

lemma heappop_heap:
  assumes "heap_from key 0 h" "heappop key h = Some (x, h')"
  shows "heap_from key 0 h'" "mset h = add_mset x (mset h')" "\<forall>y \<in> set h. key x \<le> key y"
proof -
  have ne: "h \<noteq> []" using assms(2) by (auto simp: heappop_def)
  then have split: "h = butlast h @ [last h]" by simp
  show "heap_from key 0 h'" "mset h = add_mset x (mset h')" "\<forall>y \<in> set h. key x \<le> key y"
  proof -
    show "\<forall>y \<in> set h. key x \<le> key y"
    proof
      fix y
      assume "y \<in> set h"
      then obtain i where i: "i < length h" "y = h ! i" by (auto simp: in_set_conv_nth)
      have "x = h ! 0"
      proof (cases "butlast h = []")
        case True
        then have "h = [last h]" using split by simp
        moreover have "x = last h" using assms(2) ne True by (simp add: heappop_def Let_def)
        ultimately show ?thesis by (metis nth_Cons_0)
      next
        case False
        then have "x = hd (butlast h)" using assms(2) ne by (simp add: heappop_def Let_def)
        also have "\<dots> = h ! 0" using False using nth_butlast [of 0 h] length_greater_0_conv [of "butlast h"]
          by (simp only: hd_conv_nth not_False_eq_True)
        finally show ?thesis .
      qed
      with heap_root [OF assms(1) i(1)] i(2) show "key x \<le> key y" by simp
    qed
  next
    have "heap_from key 0 h' \<and> mset h = add_mset x (mset h')"
    proof (cases "butlast h = []")
      case True
      then have h': "h' = []" "x = last h" "h = [last h]" using assms(2) ne split by (auto simp: heappop_def Let_def)
      have "mset h = add_mset x (mset h')" by (subst h'(3)) (simp add: h'(1,2))
      then show ?thesis by (simp add: h'(1))
    next
      case False
      let ?r = "(butlast h)[0 := last h]"
      have x: "x = hd (butlast h)" "h' = siftup key 0 ?r" using assms(2) ne False by (simp_all add: heappop_def Let_def)
      have pos: "0 < length ?r" using False by (simp only: length_list_update length_greater_0_conv not_False_eq_True)
      have "heap_hole key 0 0 ?r"
        using heap_from_butlast [OF assms(1)] by (auto simp: heap_hole_def heap_from_def nth_list_update)
      from siftup_heap [OF this pos]
      have r: "heap_from key 0 h'" "mset h' = mset ?r" by (simp_all add: x)
      obtain a as where "butlast h = a # as" using False by (cases "butlast h") auto
      then have "mset h = add_mset x (mset ?r)" by (subst split) (simp add: x)
      with r show ?thesis by simp
    qed
    then show "heap_from key 0 h'" "mset h = add_mset x (mset h')" by simp_all
  qed
qed

lemma heapify_from_heap:
  assumes "heap_from key i h" "i \<le> length h"
  shows "heap_from key 0 (heapify_from key i h) \<and> mset (heapify_from key i h) = mset h"
  using assms
proof (induction key i h rule: heapify_from.induct)
  case (2 key i h)
  have "heap_hole key i i h"
    using 2(2) by (auto simp: heap_hole_def heap_from_def)
  from siftup_heap [OF this] 2(3)
  have s: "heap_from key i (siftup key i h)" "mset (siftup key i h) = mset h" by simp_all
  have "length (siftup key i h) = length h" using s(2) by (rule mset_eq_length)
  with 2(1) s 2(3) show ?case by simp
qed simp

lemma heapify_heap: "heap_from key 0 (heapify key h)" "mset (heapify key h) = mset h"
proof -
  have "heap_from key (length h div 2) h"
    by (auto simp: heap_from_def hparent_def)
  from heapify_from_heap [OF this] show "heap_from key 0 (heapify key h)" "mset (heapify key h) = mset h"
    by (simp_all add: heapify_def)
qed

section \<open>Lengths\<close>

lemma length_siftdown [simp]: "length (siftdown key s p h) = length h"
proof (induction key s p h rule: siftdown.induct)
  case (1 key s p h)
  then show ?case by (subst siftdown.simps) simp
qed

lemma length_sift_to_leaf [simp]: "length (snd (sift_to_leaf key p h)) = length h"
proof (induction key p h rule: sift_to_leaf.induct)
  case (1 key p h)
  then show ?case by (subst sift_to_leaf.simps) simp
qed

lemma length_heappop: "heappop key h = Some (x, h') \<Longrightarrow> length h = Suc (length h')"
proof (cases "butlast h = []")
  case True
  assume "heappop key h = Some (x, h')"
  with True have "h \<noteq> []" "h' = []" by (auto simp: heappop_def Let_def split: if_splits)
  moreover have "length h - 1 = 0" using True by (metis length_butlast list.size(3))
  ultimately show ?thesis by (cases h) auto
next
  case False
  assume "heappop key h = Some (x, h')"
  with False show ?thesis
    by (cases h) (auto simp: heappop_def siftup_def Let_def case_prod_beta split: if_splits)
qed

lemma heappop_None: "heappop key h = None \<longleftrightarrow> h = []"
  by (simp add: heappop_def Let_def)

section \<open>The interface\<close>

text \<open>\<open>pops\<close>: the queue is reached by taking items out.\<close>

inductive pops :: "('q \<Rightarrow> ('a \<times> 'q) option) \<Rightarrow> 'q \<Rightarrow> 'q \<Rightarrow> bool" for pop where
  pops_refl: "pops pop q q"
| pops_step: "pops pop q q' \<Longrightarrow> pop q' = Some (x, q'') \<Longrightarrow> pops pop q q''"

locale priority_queue =
  fixes push :: "'q \<Rightarrow> 'a \<Rightarrow> 'q"
    and pop :: "'q \<Rightarrow> ('a \<times> 'q) option"
    and bag :: "'q \<Rightarrow> 'a multiset"
    and rank :: "'a \<Rightarrow> 'k::linorder"
    and ok :: "'q \<Rightarrow> bool"
  assumes ok_push: "ok q \<Longrightarrow> ok (push q x)"
    and bag_push: "ok q \<Longrightarrow> bag (push q x) = add_mset x (bag q)"
    and ok_pop: "ok q \<Longrightarrow> pop q = Some (x, q') \<Longrightarrow> ok q'"
    and bag_pop: "ok q \<Longrightarrow> pop q = Some (x, q') \<Longrightarrow> bag q = add_mset x (bag q')"
    and pop_least: "ok q \<Longrightarrow> pop q = Some (x, q') \<Longrightarrow> y \<in># bag q \<Longrightarrow> rank x \<le> rank y"
begin

lemma pops_lowest:
  assumes "pops pop q q'" "ok q"
  shows "ok q' \<and> (\<exists>out. bag q = out + bag q' \<and> (\<forall>x \<in># out. \<forall>y \<in># bag q'. rank x \<le> rank y))"
  using assms
proof (induction rule: pops.induct)
  case (pops_refl q)
  show ?case using pops_refl by (intro conjI exI [of _ "{#}"]) simp_all
next
  case (pops_step q q' x q'')
  then obtain out where out: "ok q'" "bag q = out + bag q'" "\<forall>x \<in># out. \<forall>y \<in># bag q'. rank x \<le> rank y"
    by blast
  have b: "bag q' = add_mset x (bag q'')" by (rule bag_pop [OF out(1) pops_step(2)])
  have "\<forall>y \<in># bag q''. rank x \<le> rank y" using pop_least [OF out(1) pops_step(2)] b by simp
  with out b ok_pop [OF out(1) pops_step(2)] show ?case
    by (intro conjI exI [of _ "add_mset x out"]) auto
qed

end

interpretation hq: priority_queue "heappush key" "heappop key" mset key "heap_from key 0"
  for key :: "'a \<Rightarrow> 'k::linorder"
proof
  fix h h' :: "'a list" and x y
  assume "heap_from key 0 h" "heappop key h = Some (x, h')" "y \<in># mset h"
  then show "key x \<le> key y" using heappop_heap(3) by fastforce
qed (auto simp: heappush_heap dest: heappop_heap)

end
