(* ===== verification/Working_Memory.thy ===== *)
theory Working_Memory
  imports Complex_Main Py Heapq
begin

text \<open>
  \<open>memory/working.py\<close>: the working memory, a list of items kept as a \<open>heapq\<close> by priority, bounded by
  a number of items and a budget of estimated tokens. Priorities are rational numbers. Of the
  keywords of a text the ASCII words are modelled, the CJK ones cannot occur in a Latin-1 text.
\<close>

section \<open>Texts\<close>

definition estimate_tokens :: "string \<Rightarrow> int" where
  "estimate_tokens s = (if s = [] then 0
     else (let ascii = length (filter (\<lambda>c. of_char c < (128 :: nat) \<and> \<not> is_space c) s);
               other = length (filter (\<lambda>c. of_char c \<ge> (128 :: nat)) s)
           in max 1 (int (ascii div 4)) + max 1 (int (other div 2))))"

definition is_letter :: "char \<Rightarrow> bool" where
  "is_letter c = (let n = (of_char c :: nat) in (65 \<le> n \<and> n \<le> 90) \<or> (97 \<le> n \<and> n \<le> 122))"

definition is_word_char :: "char \<Rightarrow> bool" where
  "is_word_char c = (let n = (of_char c :: nat) in is_letter c \<or> (48 \<le> n \<and> n \<le> 57) \<or> n = 95 \<or> n = 45)"

text \<open>\<open>re.findall("[a-zA-Z][a-zA-Z0-9_-]*", text)\<close>.\<close>

lemma length_dropWhile_Suc [termination_simp]: "length (dropWhile P xs) < Suc (length xs)"
  by (simp add: le_imp_less_Suc length_dropWhile_le)

fun ascii_words :: "string \<Rightarrow> string list" where
  "ascii_words [] = []"
| "ascii_words (c # cs) = (if is_letter c
     then (c # takeWhile is_word_char cs) # ascii_words (dropWhile is_word_char cs)
     else ascii_words cs)"

definition ascii_stop :: "string list" where
  "ascii_stop = [''the'', ''and'', ''is'', ''in'', ''it'', ''of'', ''to'', ''a'', ''an'', ''are'', ''for'',
     ''on'', ''at'', ''by'', ''or'', ''as'', ''be'', ''was'', ''has'', ''not'', ''with'']"

definition wm_keywords :: "string \<Rightarrow> string list" where
  "wm_keywords s = filter (\<lambda>w. 3 \<le> length w \<and> w \<notin> set ascii_stop) (map lower (ascii_words s))"

definition has_wm_overlap :: "string \<Rightarrow> string list \<Rightarrow> bool" where
  "has_wm_overlap content kws = (if kws = [] \<or> content = [] then False
     else list_ex (contains (lower content)) kws)"

section \<open>State\<close>

record wm_item =
  wi_kind :: string
  wi_content :: string
  wi_priority :: rat
  wi_created_at :: string

record wm =
  wm_capacity :: int
  wm_token_budget :: int
  wm_item_max_tokens :: int
  wm_items :: "wm_item list"

definition new_wm :: "int \<Rightarrow> int \<Rightarrow> int \<Rightarrow> wm" where
  "new_wm capacity token_budget item_max_tokens = \<lparr>wm_capacity = capacity, wm_token_budget = token_budget,
     wm_item_max_tokens = item_max_tokens, wm_items = []\<rparr>"

definition task_switch_preserve_kinds :: "string list" where
  "task_switch_preserve_kinds = [''bootstrap_identity'', ''self_awareness'', ''task_anchor'', ''task_reflection'',
     ''task_result'', ''task_replan'', ''routing_guard'', ''progress_crystal'']"

definition multi_item_kinds :: "string list" where
  "multi_item_kinds = [''meta_reflection'']"

section \<open>Operations\<close>

definition replace_items :: "wm_item list \<Rightarrow> wm \<Rightarrow> wm" where
  "replace_items items m = m\<lparr>wm_items := heapify wi_priority items\<rparr>"

definition items_tokens :: "wm_item list \<Rightarrow> int" where
  "items_tokens items = sum_list (map (\<lambda>i. estimate_tokens (wi_content i)) items)"

definition total_tokens :: "wm \<Rightarrow> int" where
  "total_tokens m = items_tokens (wm_items m)"

definition pressure :: "wm \<Rightarrow> rat" where
  "pressure m = (if 0 < wm_token_budget m then min 1 (of_int (total_tokens m) / of_int (wm_token_budget m))
     else if 0 < wm_capacity m then of_nat (length (wm_items m)) / of_int (wm_capacity m) else 0)"

text \<open>The two loops of \<open>add\<close>. With a negative capacity the first pops the empty heap.\<close>

function evict_count :: "int \<Rightarrow> wm_item list \<Rightarrow> wm_item list option" where
  "evict_count cap h = (if int (length h) > cap
     then (case heappop wi_priority h of None \<Rightarrow> None | Some (x, h') \<Rightarrow> evict_count cap h') else Some h)"
  by pat_completeness auto
termination by (relation "measure (\<lambda>(c, h). length h)") (auto dest!: length_heappop)

function evict_tokens :: "int \<Rightarrow> wm_item list \<Rightarrow> wm_item list" where
  "evict_tokens budget h = (if length h > 1 \<and> items_tokens h > budget
     then (case heappop wi_priority h of None \<Rightarrow> h | Some (x, h') \<Rightarrow> evict_tokens budget h') else h)"
  by pat_completeness auto
termination by (relation "measure (\<lambda>(c, h). length h)") (auto dest!: length_heappop)

declare evict_count.simps [simp del] evict_tokens.simps [simp del]

definition other_kinds :: "string \<Rightarrow> wm_item list \<Rightarrow> wm_item list" where
  "other_kinds kind items = filter (\<lambda>i. wi_kind i \<noteq> kind) items"

definition wm_before_push :: "wm_item \<Rightarrow> wm \<Rightarrow> wm" where
  "wm_before_push x m = (if wi_kind x \<noteq> [] \<and> wi_kind x \<notin> set multi_item_kinds
     then replace_items (other_kinds (wi_kind x) (wm_items m)) m else m)"

definition wm_add :: "wm_item \<Rightarrow> wm \<Rightarrow> unit res \<times> wm" where
  "wm_add x m = (let m1 = wm_before_push x m; h = heappush wi_priority (wm_items m1) x in
     case evict_count (wm_capacity m) h of
       None \<Rightarrow> (Inl (Exn ''IndexError'' ''index out of range''), m1\<lparr>wm_items := []\<rparr>)
     | Some h1 \<Rightarrow> (Inr (), m1\<lparr>wm_items :=
         (if 0 < wm_token_budget m then evict_tokens (wm_token_budget m) h1 else h1)\<rparr>))"

text \<open>\<open>sorted(items, key=priority, reverse=True)[:n]\<close>; equal priorities stay in list order.\<close>

definition get_top :: "int option \<Rightarrow> wm \<Rightarrow> wm_item list" where
  "get_top n m = (let s = sort_key (\<lambda>i. - wi_priority i) (wm_items m) in
     case n of None \<Rightarrow> s | Some k \<Rightarrow> slice_to k s)"

definition wm_clear :: "string list \<Rightarrow> string list \<Rightarrow> wm \<Rightarrow> wm" where
  "wm_clear preserve kinds m =
     (if preserve \<noteq> [] then replace_items (filter (\<lambda>i. wi_kind i \<in> set preserve) (wm_items m)) m
      else if kinds \<noteq> [] then replace_items (filter (\<lambda>i. wi_kind i \<notin> set kinds) (wm_items m)) m
      else m\<lparr>wm_items := []\<rparr>)"

text \<open>What the gate does with one item: keep it, keep it with a higher priority, or drop it.\<close>

datatype verdict = Keep | Boost | Drop

definition gate_verdict :: "string list \<Rightarrow> rat \<Rightarrow> string list \<Rightarrow> wm_item \<Rightarrow> verdict" where
  "gate_verdict preserve floor_priority kws i =
     (if wi_kind i \<in> set preserve then Keep
      else if floor_priority \<le> wi_priority i then Keep
      else if kws \<noteq> [] \<and> has_wm_overlap (wi_content i) kws then Boost else Drop)"

definition gate_keywords :: "string \<Rightarrow> string list" where
  "gate_keywords user_message = (if strip user_message \<noteq> [] then wm_keywords user_message else [])"

definition gate_item :: "string list \<Rightarrow> rat \<Rightarrow> rat \<Rightarrow> string list \<Rightarrow> wm_item \<Rightarrow> wm_item list" where
  "gate_item preserve floor_priority boost kws i = (case gate_verdict preserve floor_priority kws i of
      Keep \<Rightarrow> [i] | Boost \<Rightarrow> [i\<lparr>wi_priority := min 1 (wi_priority i + boost)\<rparr>] | Drop \<Rightarrow> [])"

definition salience_gate :: "string \<Rightarrow> string list \<Rightarrow> rat \<Rightarrow> rat \<Rightarrow> wm \<Rightarrow> nat \<times> wm" where
  "salience_gate user_message preserve floor_priority boost m =
    (let kws = gate_keywords user_message; v = gate_verdict preserve floor_priority kws;
         kept = concat (map (gate_item preserve floor_priority boost kws) (wm_items m));
         dropped = length (filter (\<lambda>i. v i = Drop) (wm_items m));
         boosted_any = list_ex (\<lambda>i. v i = Boost) (wm_items m)
     in (dropped, if dropped \<noteq> 0 \<or> boosted_any then replace_items kept m else m))"

section \<open>What fits\<close>

text \<open>The bounds depend on the kinds and the contents only.\<close>

definition shape :: "wm_item \<Rightarrow> string \<times> string" where
  "shape i = (wi_kind i, wi_content i)"

definition shapes :: "wm_item list \<Rightarrow> (string \<times> string) multiset" where
  "shapes items = image_mset shape (mset items)"

definition fits :: "int \<Rightarrow> int \<Rightarrow> (string \<times> string) multiset \<Rightarrow> bool" where
  "fits cap budget S \<longleftrightarrow> int (size S) \<le> cap \<and>
     (0 < budget \<longrightarrow> size S \<le> 1 \<or> (\<Sum>s\<in>#S. estimate_tokens (snd s)) \<le> budget) \<and>
     (\<forall>k. k \<noteq> [] \<and> k \<notin> set multi_item_kinds \<longrightarrow> size (filter_mset (\<lambda>s. fst s = k) S) \<le> 1)"

definition wm_ok :: "wm \<Rightarrow> bool" where
  "wm_ok m \<longleftrightarrow> heap_from wi_priority 0 (wm_items m) \<and> fits (wm_capacity m) (wm_token_budget m) (shapes (wm_items m))"

lemma estimate_tokens_nonneg [simp]: "0 \<le> estimate_tokens s"
  by (simp add: estimate_tokens_def Let_def)

lemma size_shapes [simp]: "size (shapes items) = length items"
  by (simp add: shapes_def)

lemma shapes_tokens: "(\<Sum>s\<in>#shapes items. estimate_tokens (snd s)) = items_tokens items"
proof -
  have "(\<Sum>s\<in>#shapes items. estimate_tokens (snd s)) = (\<Sum>i\<in>#mset items. estimate_tokens (wi_content i))"
    by (simp add: shapes_def shape_def image_mset.compositionality comp_def)
  also have "\<dots> = items_tokens items"
    by (simp add: items_tokens_def mset_map [symmetric] sum_mset_sum_list del: mset_map)
  finally show ?thesis .
qed

lemma sum_mset_sub:
  fixes f :: "'a \<Rightarrow> int"
  assumes "A \<subseteq># B" "\<And>x. 0 \<le> f x"
  shows "(\<Sum>x\<in>#A. f x) \<le> (\<Sum>x\<in>#B. f x)"
proof -
  obtain C where "B = A + C" using assms(1) by (metis subset_mset.le_iff_add)
  moreover have "0 \<le> (\<Sum>x\<in>#C. f x)" by (induction C) (auto simp: assms(2))
  ultimately show ?thesis by simp
qed

lemma fits_sub:
  assumes "fits cap budget S" "S' \<subseteq># S"
  shows "fits cap budget S'"
proof -
  have "size S' \<le> size S" using assms(2) by (rule size_mset_mono)
  moreover have "size (filter_mset (\<lambda>s. fst s = k) S') \<le> size (filter_mset (\<lambda>s. fst s = k) S)" for k
    using assms(2) by (intro size_mset_mono multiset_filter_mono)
  moreover have "(\<Sum>s\<in>#S'. estimate_tokens (snd s)) \<le> (\<Sum>s\<in>#S. estimate_tokens (snd s))"
    using assms(2) by (rule sum_mset_sub) simp
  ultimately show ?thesis
    using assms(1) unfolding fits_def by (meson order_trans of_nat_mono)
qed

lemma fits_Nil: "0 \<le> cap \<Longrightarrow> fits cap budget (shapes [])"
  by (simp add: fits_def shapes_def)

section \<open>Eviction\<close>

lemma pops_front: "pop q = Some (x, q') \<Longrightarrow> pops pop q' q'' \<Longrightarrow> pops pop q q''"
proof (rotate_tac, induction rule: pops.induct)
  case (pops_refl q')
  then show ?case using pops.pops_refl pops.pops_step by metis
next
  case (pops_step q' q1 y q2)
  then show ?case using pops.pops_step by metis
qed

lemma evict_count_pops:
  "evict_count cap h = Some h' \<Longrightarrow> pops (heappop wi_priority) h h' \<and> int (length h') \<le> cap"
proof (induction cap h rule: evict_count.induct)
  case (1 cap h)
  from 1(2) show ?case
    by (subst (asm) evict_count.simps)
      (auto split: if_splits option.splits intro: pops_refl pops_front dest: 1(1))
qed

lemma evict_count_total: "0 \<le> cap \<Longrightarrow> evict_count cap h \<noteq> None"
proof (induction cap h rule: evict_count.induct)
  case (1 cap h)
  show ?case
  proof (cases "int (length h) > cap")
    case True
    then have "h \<noteq> []" using 1(2) by auto
    then obtain x h' where "heappop wi_priority h = Some (x, h')"
      using heappop_None [of wi_priority h] by (cases "heappop wi_priority h") auto
    with 1(1) [OF True this refl 1(2)] True show ?thesis by (subst evict_count.simps) simp
  qed (subst evict_count.simps, simp)
qed

lemma evict_tokens_pops:
  "pops (heappop wi_priority) h (evict_tokens b h) \<and>
   (length (evict_tokens b h) \<le> 1 \<or> items_tokens (evict_tokens b h) \<le> b)"
proof (induction b h rule: evict_tokens.induct)
  case (1 b h)
  show ?case
  proof (cases "length h > 1 \<and> items_tokens h > b")
    case True
    then have "h \<noteq> []" by auto
    then obtain x h' where p: "heappop wi_priority h = Some (x, h')"
      using heappop_None [of wi_priority h] by (cases "heappop wi_priority h") auto
    have "evict_tokens b h = evict_tokens b h'" using True p by (subst evict_tokens.simps) simp
    with 1 [OF True p refl] pops_front [of "heappop wi_priority", OF p] show ?thesis by simp
  next
    case False
    then have "evict_tokens b h = h" by (subst evict_tokens.simps) auto
    with False show ?thesis by (auto intro: pops_refl)
  qed
qed

lemma pops_trans: "pops pop q q' \<Longrightarrow> pops pop q' q'' \<Longrightarrow> pops pop q q''"
proof (rotate_tac, induction rule: pops.induct)
  case (pops_step q' q1 y q2)
  then show ?case using pops.pops_step by metis
qed

text \<open>What \<open>add\<close> leaves, in one lemma.\<close>

lemma wm_add_effect:
  assumes ok: "wm_ok m" and add: "wm_add x m = (r, m')"
  shows "r = Inr () \<and> m' = m\<lparr>wm_items := wm_items m'\<rparr> \<and> heap_from wi_priority 0 (wm_items m') \<and>
    int (length (wm_items m')) \<le> wm_capacity m \<and>
    (0 < wm_token_budget m \<longrightarrow> length (wm_items m') \<le> 1 \<or> items_tokens (wm_items m') \<le> wm_token_budget m) \<and>
    (\<exists>out. add_mset x (mset (wm_items (wm_before_push x m))) = out + mset (wm_items m') \<and>
       (\<forall>a \<in># out. \<forall>b \<in># mset (wm_items m'). wi_priority a \<le> wi_priority b))"
proof -
  let ?m1 = "wm_before_push x m"
  let ?h = "heappush wi_priority (wm_items ?m1) x"
  have m1: "heap_from wi_priority 0 (wm_items ?m1)" "?m1 = m\<lparr>wm_items := wm_items ?m1\<rparr>"
    using ok by (auto simp: wm_ok_def wm_before_push_def replace_items_def heapify_heap)
  have cap: "0 \<le> wm_capacity m" using ok by (auto simp: wm_ok_def fits_def intro: order_trans [rotated])
  obtain h1 where h1: "evict_count (wm_capacity m) ?h = Some h1" using evict_count_total [OF cap, of ?h] by blast
  note c = evict_count_pops [OF h1]
  let ?h2 = "if 0 < wm_token_budget m then evict_tokens (wm_token_budget m) h1 else h1"
  have p: "pops (heappop wi_priority) ?h ?h2"
    using c evict_tokens_pops [of h1 "wm_token_budget m"] by (auto intro: pops_trans)
  have h: "heap_from wi_priority 0 ?h" "mset ?h = add_mset x (mset (wm_items ?m1))"
    using heappush_heap [OF m1(1)] by simp_all
  note q = hq.pops_lowest [OF p h(1), unfolded h(2)]
  have r: "r = Inr ()" "m' = ?m1\<lparr>wm_items := ?h2\<rparr>"
    using add h1 by (simp_all add: wm_add_def Let_def split: if_splits)
  then have items: "wm_items m' = ?h2" by simp
  have "length ?h2 \<le> length h1"
  proof (cases "0 < wm_token_budget m")
    case True
    have "heap_from wi_priority 0 h1" using c hq.pops_lowest [OF _ h(1)] by blast
    from hq.pops_lowest [OF conjunct1 [OF evict_tokens_pops] this, of "wm_token_budget m"]
    obtain out where "mset h1 = out + mset (evict_tokens (wm_token_budget m) h1)" by blast
    then have "size (mset (evict_tokens (wm_token_budget m) h1)) \<le> size (mset h1)" by simp
    with True show ?thesis by simp
  qed simp
  then have "int (length ?h2) \<le> wm_capacity m" using c by linarith
  moreover have "0 < wm_token_budget m \<longrightarrow> length ?h2 \<le> 1 \<or> items_tokens ?h2 \<le> wm_token_budget m"
    using evict_tokens_pops [of h1 "wm_token_budget m"] by simp
  moreover have "m' = m\<lparr>wm_items := ?h2\<rparr>" using r(2) m1(2) by (metis wm.surjective wm.update_convs(4))
  ultimately show ?thesis using q r(1) unfolding items by blast
qed

lemma shapes_before_push:
  "shapes (wm_items (wm_before_push x m)) \<subseteq># shapes (wm_items m)"
  "wi_kind x \<noteq> [] \<and> wi_kind x \<notin> set multi_item_kinds \<Longrightarrow>
     filter_mset (\<lambda>s. fst s = wi_kind x) (shapes (wm_items (wm_before_push x m))) = {#}"
proof -
  have "mset (other_kinds (wi_kind x) (wm_items m)) \<subseteq># mset (wm_items m)"
    by (simp add: other_kinds_def mset_filter multiset_filter_subset)
  then show "shapes (wm_items (wm_before_push x m)) \<subseteq># shapes (wm_items m)"
    by (auto simp: wm_before_push_def replace_items_def shapes_def heapify_heap intro: image_mset_subseteq_mono)
  show "filter_mset (\<lambda>s. fst s = wi_kind x) (shapes (wm_items (wm_before_push x m))) = {#}"
    if "wi_kind x \<noteq> [] \<and> wi_kind x \<notin> set multi_item_kinds"
    using that by (simp add: wm_before_push_def replace_items_def shapes_def heapify_heap shape_def other_kinds_def
        filter_mset_image_mset mset_filter filter_filter_mset)
qed

lemma wm_ok_add:
  assumes ok: "wm_ok m"
  shows "wm_ok (snd (wm_add x m))"
proof -
  obtain r m' where add: "wm_add x m = (r, m')" by fastforce
  note e = wm_add_effect [OF ok add]
  from e have caps: "wm_capacity m' = wm_capacity m" "wm_token_budget m' = wm_token_budget m"
    by (metis wm.select_convs wm.surjective wm.update_convs(4))+
  from e obtain out where "add_mset x (mset (wm_items (wm_before_push x m))) = out + mset (wm_items m')" by blast
  then have "image_mset shape (mset (wm_items m')) \<subseteq>#
      image_mset shape (add_mset x (mset (wm_items (wm_before_push x m))))"
    by (intro image_mset_subseteq_mono) simp
  then have sub: "shapes (wm_items m') \<subseteq># add_mset (shape x) (shapes (wm_items (wm_before_push x m)))"
    by (simp add: shapes_def)
  have uniq: "size (filter_mset (\<lambda>s. fst s = k) (shapes (wm_items m'))) \<le> 1"
    if k: "k \<noteq> []" "k \<notin> set multi_item_kinds" for k
  proof -
    have "size (filter_mset (\<lambda>s. fst s = k) (shapes (wm_items m'))) \<le>
        size (filter_mset (\<lambda>s. fst s = k) (add_mset (shape x) (shapes (wm_items (wm_before_push x m)))))"
      using sub by (intro size_mset_mono multiset_filter_mono)
    also have "\<dots> \<le> 1"
    proof (cases "k = wi_kind x")
      case True
      then show ?thesis using shapes_before_push(2) [of x m] k by (simp add: shape_def)
    next
      case False
      have "fits (wm_capacity m) (wm_token_budget m) (shapes (wm_items (wm_before_push x m)))"
        using ok shapes_before_push(1) fits_sub by (auto simp: wm_ok_def)
      with k False show ?thesis by (simp add: fits_def shape_def)
    qed
    finally show ?thesis .
  qed
  show ?thesis
    using e uniq by (simp add: add wm_ok_def caps fits_def shapes_tokens)
qed

lemma wm_ok_replace:
  assumes "wm_ok m" "shapes items \<subseteq># shapes (wm_items m)"
  shows "wm_ok (replace_items items m)"
  using assms fits_sub [of _ _ "shapes (wm_items m)" "shapes items"]
  by (simp add: wm_ok_def replace_items_def heapify_heap shapes_def)

lemma shapes_filter: "shapes (filter P items) \<subseteq># shapes items"
  by (simp add: shapes_def mset_filter image_mset_subseteq_mono multiset_filter_subset)

lemma wm_ok_clear: "wm_ok m \<Longrightarrow> wm_ok (wm_clear preserve kinds m)"
  using fits_sub [of _ _ "shapes (wm_items m)" "shapes []"]
  by (auto simp: wm_clear_def intro: wm_ok_replace [OF _ shapes_filter])
    (simp add: wm_ok_def shapes_def)

lemma gate_shapes:
  "shapes (concat (map (gate_item preserve fl boost kws) items)) =
   shapes (filter (\<lambda>i. gate_verdict preserve fl kws i \<noteq> Drop) items)"
  by (induction items) (auto simp: shapes_def gate_item_def shape_def split: verdict.split)

lemma wm_ok_gate: "wm_ok m \<Longrightarrow> wm_ok (snd (salience_gate msg preserve fl boost m))"
  by (auto simp: salience_gate_def Let_def intro!: wm_ok_replace simp: gate_shapes shapes_filter)

inductive wm_step :: "wm \<Rightarrow> wm \<Rightarrow> bool" where
  step_wm_add: "wm_step m (snd (wm_add x m))"
| step_wm_clear: "wm_step m (wm_clear preserve kinds m)"
| step_wm_gate: "wm_step m (snd (salience_gate msg preserve fl boost m))"

lemma wm_ok_step: "wm_step m m' \<Longrightarrow> wm_ok m \<Longrightarrow> wm_ok m'"
  by (auto elim!: wm_step.cases intro: wm_ok_add wm_ok_clear wm_ok_gate)

lemma wm_ok_steps: "wm_step\<^sup>*\<^sup>* m m' \<Longrightarrow> wm_ok m \<Longrightarrow> wm_ok m'"
  by (induction rule: rtranclp_induct) (auto intro: wm_ok_step)

lemma wm_params_step: "wm_step m m' \<Longrightarrow>
    wm_capacity m' = wm_capacity m \<and> wm_token_budget m' = wm_token_budget m"
  by (auto elim!: wm_step.cases simp: wm_add_def wm_before_push_def wm_clear_def salience_gate_def replace_items_def
      Let_def split: option.split)

lemma wm_params_steps: "wm_step\<^sup>*\<^sup>* m m' \<Longrightarrow>
    wm_capacity m' = wm_capacity m \<and> wm_token_budget m' = wm_token_budget m"
  by (induction rule: rtranclp_induct) (auto dest: wm_params_step)

lemma wm_ok_new: "0 \<le> cap \<Longrightarrow> wm_ok (new_wm cap budget n)"
  by (simp add: wm_ok_def new_wm_def fits_Nil)

section \<open>Properties\<close>

lemma length_other_kinds: "length (filter (\<lambda>i. wi_kind i = k) items) =
    size (filter_mset (\<lambda>s. fst s = k) (shapes items))"
  by (simp add: shapes_def filter_mset_image_mset shape_def mset_filter [symmetric] del: mset_filter)


definition demo_item :: "string \<Rightarrow> rat \<Rightarrow> wm_item" where
  "demo_item kind p = \<lparr>wi_kind = kind, wi_content = ''fix the parser'', wi_priority = p, wi_created_at = []\<rparr>"


text \<open>Adding an item replaces the one of its kind (if the kind is named and not \<open>meta_reflection\<close>)
  and then evicts items of the lowest priority only: what is thrown out, the new item itself perhaps,
  never outranks what stays; and something is thrown out only when the memory would be too full.\<close>

theorem wm_add_evicts_lowest:
  assumes "wm_ok m" "wm_add x m = (r, m')"
  defines "before \<equiv> (if wi_kind x \<noteq> [] \<and> wi_kind x \<noteq> ''meta_reflection''
      then filter (\<lambda>i. wi_kind i \<noteq> wi_kind x) (wm_items m) else wm_items m)"
  shows "r = Inr () \<and>
    (\<exists>out. add_mset x (mset before) = out + mset (wm_items m') \<and>
      (\<forall>a \<in># out. \<forall>b \<in> set (wm_items m'). wi_priority a \<le> wi_priority b) \<and>
      (int (Suc (length before)) \<le> wm_capacity m \<and>
       (0 < wm_token_budget m \<longrightarrow> items_tokens (x # before) \<le> wm_token_budget m) \<longrightarrow> out = {#}))"
proof -
  have b: "mset (wm_items (wm_before_push x m)) = mset before"
    by (simp add: before_def wm_before_push_def replace_items_def other_kinds_def heapify_heap multi_item_kinds_def)
  obtain out where out: "r = Inr ()" "add_mset x (mset before) = out + mset (wm_items m')"
    "\<forall>a \<in># out. \<forall>b \<in> set (wm_items m'). wi_priority a \<le> wi_priority b"
    using wm_add_effect [OF assms(1,2)] unfolding b by auto
  have "out = {#}" if fit: "int (Suc (length before)) \<le> wm_capacity m"
    "0 < wm_token_budget m \<longrightarrow> items_tokens (x # before) \<le> wm_token_budget m"
  proof -
    let ?h = "heappush wi_priority (wm_items (wm_before_push x m)) x"
    have "heap_from wi_priority 0 (wm_items (wm_before_push x m))"
      using assms(1) by (auto simp: wm_ok_def wm_before_push_def replace_items_def heapify_heap)
    then have h: "mset ?h = add_mset x (mset before)" by (simp add: heappush_heap b)
    then have "length ?h = Suc (length before)" by (metis size_add_mset size_mset)
    then have c: "evict_count (wm_capacity m) ?h = Some ?h" using fit(1) by (subst evict_count.simps) simp
    have "shapes ?h = shapes (x # before)" by (simp add: shapes_def h)
    then have "items_tokens ?h = items_tokens (x # before)" by (metis shapes_tokens)
    then have "0 < wm_token_budget m \<Longrightarrow> evict_tokens (wm_token_budget m) ?h = ?h"
      using fit(2) by (subst evict_tokens.simps) simp
    then have "wm_items m' = ?h" using assms(2) c by (auto simp: wm_add_def Let_def split: if_splits)
    then show ?thesis using out(2) h by simp
  qed
  with out show ?thesis by blast
qed

theorem wm_add_evicts_lowest_witness:
  "fst (wm_add (demo_item ''task_anchor'' (4/5)) (new_wm 3 100 0)) = Inr ()"
proof -
  have "wm_ok (new_wm 3 100 0)" by (rule wm_ok_new) simp
  from wm_add_evicts_lowest [OF this surjective_pairing] show ?thesis by blast
qed

text \<open>The salience gate keeps unchanged every item of a preserved kind or at or above the floor, keeps
  the rest only when they share a keyword with the message (with a higher priority, at most one), drops
  the others, and reports how many it dropped.\<close>

theorem salience_gate_effect:
  fixes msg preserve fl boost m
  defines "after \<equiv> wm_items (snd (salience_gate msg preserve fl boost m))"
    and "plain \<equiv> \<lambda>i. wi_kind i \<in> set preserve \<or> fl \<le> wi_priority i"
    and "related \<equiv> \<lambda>i. has_wm_overlap (wi_content i) (gate_keywords msg)"
  shows "mset after = mset (filter plain (wm_items m)) +
      image_mset (\<lambda>i. i\<lparr>wi_priority := min 1 (wi_priority i + boost)\<rparr>)
        (mset (filter (\<lambda>i. \<not> plain i \<and> related i) (wm_items m))) \<and>
    fst (salience_gate msg preserve fl boost m) + length after = length (wm_items m)"
proof -
  let ?v = "gate_verdict preserve fl (gate_keywords msg)"
  let ?kept = "\<lambda>items. concat (map (gate_item preserve fl boost (gate_keywords msg)) items)"
  have v: "?v i = (if plain i then Keep else if related i then Boost else Drop)" for i
    by (auto simp: gate_verdict_def plain_def related_def has_wm_overlap_def)
  have kept: "mset (?kept items) = mset (filter plain items) +
      image_mset (\<lambda>i. i\<lparr>wi_priority := min 1 (wi_priority i + boost)\<rparr>) (mset (filter (\<lambda>i. \<not> plain i \<and> related i) items)) \<and>
     length (filter (\<lambda>i. ?v i = Drop) items) + length (?kept items) = length items" for items
    by (induction items) (auto simp: gate_item_def v)
  show ?thesis
  proof (cases "length (filter (\<lambda>i. ?v i = Drop) (wm_items m)) \<noteq> 0 \<or> list_ex (\<lambda>i. ?v i = Boost) (wm_items m)")
    case True
    then have "mset after = mset (?kept (wm_items m))"
      by (simp add: after_def salience_gate_def Let_def replace_items_def heapify_heap)
    moreover from this have "length after = length (?kept (wm_items m))" by (rule mset_eq_length)
    ultimately show ?thesis using kept [of "wm_items m"] by (simp add: salience_gate_def Let_def)
  next
    case False
    then have "\<forall>i \<in> set (wm_items m). plain i"
      using v by (auto simp: list_ex_iff filter_empty_conv split: if_splits)
    then have "filter plain (wm_items m) = wm_items m" "filter (\<lambda>i. \<not> plain i \<and> related i) (wm_items m) = []"
      by (auto simp: filter_empty_conv)
    then show ?thesis using False by (simp add: after_def salience_gate_def Let_def)
  qed
qed

theorem salience_gate_effect_witness:
  "fst (salience_gate ''the parser'' [] (7/10) (15/100) ((new_wm 3 100 0)\<lparr>wm_items := [demo_item ''note'' (1/2)]\<rparr>)) +
   length (wm_items (snd (salience_gate ''the parser'' [] (7/10) (15/100)
     ((new_wm 3 100 0)\<lparr>wm_items := [demo_item ''note'' (1/2)]\<rparr>)))) = 1"
  using salience_gate_effect [of "''the parser''" "[]" "7/10" "15/100"
    "(new_wm 3 100 0)\<lparr>wm_items := [demo_item ''note'' (1/2)]\<rparr>"] by simp

text \<open>The limit on the size of one item is kept and never used.\<close>

lemma item_max_tokens_unused:
  "wm_items (snd (wm_add x (m\<lparr>wm_item_max_tokens := n\<rparr>))) = wm_items (snd (wm_add x m))"
  by (simp add: wm_add_def wm_before_push_def replace_items_def Let_def split: option.split)

end
