(* ===== verification/Intent.thy ===== *)
theory Intent
  imports Py_More Task_Models
begin

text \<open>
  \<open>core/cortex/intent.py\<close>: the classifiers of free text that decide whether a task waits for
  something and whether a planned verification is still open. Of the marker lists the ASCII entries
  are modelled; the Chinese ones cannot occur in a Latin-1 text.
\<close>

datatype verification_intent = Actionable | Non_Actionable | Unknown

definition evidence_markers :: "string list" where
  "evidence_markers = [''schema'', ''read'', ''query'', ''check'', ''verify'', ''diagnose'', ''inspect'',
     ''list'', ''analyze'', ''run'', ''execute'', ''fix'', ''implement'', ''test'', ''debug'', ''log'']"

definition completion_prefixes :: "string list" where
  "completion_prefixes = [''none'', ''completed'', ''already done'', ''resolved'', ''satisfied'']"

definition completion_hints :: "string list" where
  "completion_hints = [''none'', ''done'', ''no need'', ''not needed'']"

definition wait_markers :: "string list" where
  "wait_markers = [''wait '', ''external'', ''signal'', ''inbox'']"

definition non_actionable_markers :: "string list" where
  "non_actionable_markers = [''no need'', ''not needed'', ''wait for user'']"

definition semantic_memory_markers :: "string list" where
  "semantic_memory_markers = [''memory.add_semantic'', ''add_semantic'', ''semantic memory'']"

definition actionable_markers :: "string list" where
  "actionable_markers = evidence_markers @ semantic_memory_markers @
     [''rerun'', ''fetch'', ''search'', ''open'', ''pytest'', ''git '', ''curl'']"

definition non_verification_tools :: "string list" where
  "non_verification_tools = [''memory.add_semantic'', ''memory.add_wm'', ''memory.drop_wm'',
     ''task.workbench'', ''task.advance'', ''task.complete'', ''task.add'', ''task.update'', ''task.amend'']"

definition verification_tool_prefixes :: "string list" where
  "verification_tool_prefixes = [''file.'', ''shell.'', ''exec.'', ''process.'', ''probe.'', ''config.'',
     ''browser.'', ''web.'', ''memory.search'', ''memory.embed_backfill'', ''subagent.run'']"

definition resolved_statuses :: "string list" where
  "resolved_statuses = [''resolved'', ''satisfied'', ''complete'', ''completed'', ''skipped'', ''suppressed'']"

section \<open>Texts\<close>

definition punct_char :: "char \<Rightarrow> char" where
  "punct_char c = (if of_char c \<in> {9, 10 :: nat} \<or> c \<in> set ''()[],.;:'' then CHR '' '' else c)"

definition normalize_intent_text :: "pyval \<Rightarrow> string" where
  "normalize_intent_text v = lower (squeeze (map punct_char (str_or_empty v)))"

definition control_prefix :: string where
  "control_prefix = ''[[control-next-verification]]''"

definition strip_control_prefix :: "string \<Rightarrow> string" where
  "strip_control_prefix value = (let s = strip value in
     if startswith s control_prefix then strip (drop (length control_prefix) s) else s)"

definition clean_next_verification_text :: "pyval \<Rightarrow> string" where
  "clean_next_verification_text v = strip_control_prefix (strip (str_or_empty v))"

definition control_next_verification :: "string \<Rightarrow> string" where
  "control_next_verification value = (let s = strip_control_prefix (strip value) in
     if s = [] then [] else control_prefix @ '' '' @ s)"

definition is_control_next_verification :: "string \<Rightarrow> bool" where
  "is_control_next_verification s = startswith (strip s) control_prefix"

definition contains_marker :: "string \<Rightarrow> string \<Rightarrow> string list \<Rightarrow> bool" where
  "contains_marker s lowered ms = list_ex (\<lambda>m. contains s m \<or> contains lowered m) ms"

definition contains_evidence_intent :: "string \<Rightarrow> bool" where
  "contains_evidence_intent s = list_ex (contains (normalize_intent_text (PStr s))) evidence_markers"

definition contains_wait_dependency :: "string \<Rightarrow> bool" where
  "contains_wait_dependency s = list_ex (contains (normalize_intent_text (PStr s))) wait_markers"

definition is_completion_preface :: "string \<Rightarrow> bool" where
  "is_completion_preface s = list_ex (startswith (lower s)) completion_prefixes"

definition is_resolved_completion :: "string \<Rightarrow> string \<Rightarrow> bool" where
  "is_resolved_completion s lowered =
     (if startswith lowered ''none'' then True
      else if \<not> is_completion_preface s then False
      else if list_ex (contains lowered) completion_hints then True
      else \<not> contains_marker s lowered actionable_markers)"

definition classify_verification_intent :: "string \<Rightarrow> verification_intent" where
  "classify_verification_intent s = (let raw = strip s in
     if raw = [] then Non_Actionable
     else if is_control_next_verification raw then Non_Actionable
     else (let v = strip_control_prefix raw; l = normalize_intent_text (PStr v) in
       if is_resolved_completion v l then Non_Actionable
       else if list_ex (contains l) non_actionable_markers then Non_Actionable
       else if contains_marker v l actionable_markers then Actionable else Unknown))"

definition has_actionable_next_verification :: "string \<Rightarrow> bool" where
  "has_actionable_next_verification s \<longleftrightarrow> classify_verification_intent s = Actionable"

section \<open>The verification state of a task\<close>

definition vkey :: string where
  "vkey = ''verification_state''"

definition or3 :: "dict \<Rightarrow> string \<Rightarrow> string \<Rightarrow> string \<Rightarrow> pyval" where
  "or3 d a b c = py_or (dict_get d a) (py_or (dict_get d b) (dict_get d c))"

text \<open>What \<open>next_verification\<close> alone says, for a workspace without a state.\<close>

definition bare_verification :: "dict \<Rightarrow> string \<times> string" where
  "bare_verification cortex = (let raw = strip (str_or_empty (dict_get cortex ''next_verification'')) in
     if is_control_next_verification raw then (''resolved'', clean_next_verification_text (PStr raw))
     else (let goal = clean_next_verification_text (PStr raw) in
       if goal = [] then (''none'', [])
       else (if has_actionable_next_verification goal then ''pending'' else ''resolved'', goal)))"

definition verification_state_from_cortex :: "pyval \<Rightarrow> string \<times> string" where
  "verification_state_from_cortex c = (case as_dict c of
      None \<Rightarrow> (''none'', [])
    | Some cortex \<Rightarrow> (let state = dict_get cortex vkey;
         fallthrough = (if \<not> truthy state then bare_verification cortex else (''resolved'', []))
       in case as_dict state of
            None \<Rightarrow> fallthrough
          | Some st \<Rightarrow>
             (let status = lower (strip (str_or_empty (dict_get st ''status'')));
                  raw = strip (str_or_empty (or3 st ''goal'' ''next_verification'' ''text''))
              in if is_control_next_verification raw then (''resolved'', clean_next_verification_text (PStr raw))
                 else (let goal = clean_next_verification_text (PStr raw) in
                   if status = ''pending''
                   then (let g = (if goal = []
                             then clean_next_verification_text (dict_get cortex ''next_verification'') else goal)
                         in if g \<noteq> [] \<and> has_actionable_next_verification g then (''pending'', g)
                            else (''resolved'', g))
                   else if status \<noteq> [] then (''resolved'', goal) else fallthrough))))"

definition build_verification_state :: "dict \<Rightarrow> string \<Rightarrow> dict option" where
  "build_verification_state p source = (case map_of p vkey of
      Some raw_state \<Rightarrow> (case as_dict raw_state of
          None \<Rightarrow> None
        | Some st \<Rightarrow>
           (let status = lower (strip (str_or_empty (dict_get st ''status'')));
                goal = clean_next_verification_text (py_or (dict_get st ''goal'') (dict_get st ''next_verification''))
            in Some (dict_update [(''status'', PStr (if status = [] then ''resolved'' else status)),
                 (''goal'', PStr goal), (''source'', PStr source)] (dict_without [''status'', ''goal''] st))))
    | None \<Rightarrow> (case map_of p ''next_verification'' of
          None \<Rightarrow> None
        | Some v \<Rightarrow>
           (let raw = strip (str_or_empty v); nv = clean_next_verification_text (PStr raw) in
            Some [(''status'', PStr (if is_control_next_verification raw then ''resolved''
                     else if has_actionable_next_verification nv then ''pending'' else ''resolved'')),
                  (''goal'', PStr nv), (''source'', PStr source)])))"

section \<open>Tools\<close>

definition requests_semantic_memory :: "string \<Rightarrow> bool" where
  "requests_semantic_memory s = contains_marker s (lower s) semantic_memory_markers"

definition is_verification_tool :: "string \<Rightarrow> string \<Rightarrow> bool" where
  "is_verification_tool tool_name next_verification = (let name = strip tool_name in
     if name = [] then False
     else if name = ''memory.add_semantic'' \<and> requests_semantic_memory next_verification then True
     else if name \<in> set non_verification_tools \<or> startswith name ''task.'' then False
     else list_ex (startswith name) verification_tool_prefixes)"

definition is_successful_verification_run :: "run \<Rightarrow> string \<Rightarrow> bool" where
  "is_successful_verification_run r next_verification \<longleftrightarrow>
     strip (r_status r) = ''succeeded'' \<and>
     is_verification_tool (str_or_empty (r_tool_name r)) next_verification"

section \<open>Lemmas\<close>

lemma strip_str_or_empty_PStr [simp]: "str_or_empty (PStr s) = s"
  by (cases s) (simp_all add: str_or_empty_def py_or_def)

lemma strip_control_prefix_stripped [simp]: "strip (strip_control_prefix s) = strip_control_prefix s"
  by (simp add: strip_control_prefix_def Let_def)

lemma strip_control_prefix_strip [simp]: "strip_control_prefix (strip s) = strip_control_prefix s"
  by (simp add: strip_control_prefix_def)

lemma clean_stripped [simp]: "strip (clean_next_verification_text v) = clean_next_verification_text v"
  by (simp add: clean_next_verification_text_def)

lemma is_control_strip [simp]: "is_control_next_verification (strip s) = is_control_next_verification s"
  by (simp add: is_control_next_verification_def)

lemma clean_not_control: "\<not> is_control_next_verification s \<Longrightarrow> clean_next_verification_text (PStr s) = strip s"
  by (simp add: clean_next_verification_text_def strip_control_prefix_def is_control_next_verification_def)

lemma actionable_not_control: "has_actionable_next_verification s \<Longrightarrow> \<not> is_control_next_verification s"
  by (auto simp: has_actionable_next_verification_def classify_verification_intent_def Let_def split: if_splits)

lemma actionable_nonempty: "has_actionable_next_verification s \<Longrightarrow> strip s \<noteq> []"
  by (auto simp: has_actionable_next_verification_def classify_verification_intent_def Let_def split: if_splits)

text \<open>The state of a verification is one of \<open>none\<close>, \<open>pending\<close> and \<open>resolved\<close>; it is pending only with
  a goal that is actionable, and never for a goal that was set aside with the control prefix.\<close>

theorem verification_state_sound:
  "fst (verification_state_from_cortex c) \<in> {''none'', ''pending'', ''resolved''} \<and>
   (fst (verification_state_from_cortex c) = ''pending'' \<longrightarrow>
      has_actionable_next_verification (snd (verification_state_from_cortex c)) \<and>
      \<not> is_control_next_verification (snd (verification_state_from_cortex c)))"
proof -
  have bare: "fst (bare_verification d) \<in> {''none'', ''pending'', ''resolved''} \<and>
    (fst (bare_verification d) = ''pending'' \<longrightarrow> has_actionable_next_verification (snd (bare_verification d)))" for d
    by (auto simp: bare_verification_def Let_def)
  show ?thesis
    using bare by (auto simp: verification_state_from_cortex_def Let_def actionable_not_control split: option.split)
qed

theorem verification_state_sound_witness:
  "fst (verification_state_from_cortex (PDict [(''next_verification'', PStr ''run the tests'')]))
     \<in> {''none'', ''pending'', ''resolved''}"
  using verification_state_sound by blast

text \<open>The state that a workbench patch with a new \<open>next_verification\<close> writes reads back as it was
  written: with the same status, and with the same goal unless that still carries a control prefix
  (one that was doubled), which reading strips once more.\<close>

theorem verification_state_roundtrip:
  assumes "map_of p vkey = None" "build_verification_state p source = Some st"
  shows "fst (verification_state_from_cortex (PDict [(vkey, PDict st)])) = py_str (dict_get st ''status'') \<and>
    (let goal = py_str (dict_get st ''goal'') in
     snd (verification_state_from_cortex (PDict [(vkey, PDict st)])) =
       (if is_control_next_verification goal then strip_control_prefix goal else goal))"
proof -
  from assms obtain v where v: "map_of p ''next_verification'' = Some v"
    by (auto simp: build_verification_state_def split: option.splits)
  define raw where "raw = strip (str_or_empty v)"
  define nv where "nv = clean_next_verification_text (PStr raw)"
  define stat where "stat = (if is_control_next_verification raw then ''resolved''
                     else if has_actionable_next_verification nv then ''pending'' else ''resolved'')"
  have st: "st = [(''status'', PStr stat), (''goal'', PStr nv), (''source'', PStr source)]"
    using assms v by (auto simp: build_verification_state_def raw_def nv_def stat_def Let_def)
  have nv_strip: "strip nv = nv" by (simp add: nv_def)
  have low: "lower (strip stat) = stat"
    by (simp add: stat_def lower_def lower_char_def strip_def lstrip_def is_space_def Let_def)
  have get: "dict_get st ''status'' = PStr stat" "dict_get st ''goal'' = PStr nv"
    "dict_get st ''next_verification'' = PNone" "dict_get st ''text'' = PNone"
    by (simp_all add: st dict_get_def)
  have goal: "str_or_empty (or3 st ''goal'' ''next_verification'' ''text'') = nv"
    by (cases nv) (simp_all add: or3_def get str_or_empty_def py_or_def)
  have pend: "stat = ''pending'' \<Longrightarrow> nv \<noteq> [] \<and> has_actionable_next_verification nv \<and> \<not> is_control_next_verification nv"
    using actionable_nonempty [of nv] actionable_not_control [of nv] nv_strip by (auto simp: stat_def split: if_splits)
  have stat: "stat \<in> {''pending'', ''resolved''}" by (simp add: stat_def)
  have read: "verification_state_from_cortex (PDict [(vkey, PDict st)]) =
     (if is_control_next_verification nv then (''resolved'', clean_next_verification_text (PStr nv)) else (stat, nv))"
    using pend stat nv_strip
    by (auto simp: verification_state_from_cortex_def dict_get_def [of "[(vkey, PDict st)]"] get goal low
        clean_not_control Let_def)
  show ?thesis
    using pend stat by (auto simp: read get Let_def clean_next_verification_text_def)
qed

theorem verification_state_roundtrip_witness:
  "fst (verification_state_from_cortex (PDict [(vkey, PDict
      (the (build_verification_state [(''next_verification'', PStr ''run the tests'')] ''workbench'')))])) =
    py_str (dict_get (the (build_verification_state [(''next_verification'', PStr ''run the tests'')] ''workbench'')) ''status'')"
  using verification_state_roundtrip [of "[(''next_verification'', PStr ''run the tests'')]" "''workbench''"]
  by (simp add: build_verification_state_def vkey_def Let_def)

end
