(* ===== verification/Py_Num.thy ===== *)
theory Py_Num
  imports Compact
begin

text \<open>
  Decimal texts read back: \<open>int(str(i)) = i\<close>, and a key stored as text in a fact comes back as it was.
\<close>

lemma of_char_digit: "n < 10 \<Longrightarrow> (of_char (char_of (48 + n)) :: nat) = 48 + n"
  by (simp add: of_char_of)

lemma digits_val_append_digit:
  assumes "digits_val a p s = Some m" "n < 10" "s \<noteq> []"
  shows "digits_val a p (s @ [char_of (48 + n)]) = Some (10 * m + n)"
  using assms
proof (induction a p s rule: digits_val.induct)
  case (1 acc p)
  then show ?case by simp
next
  case (2 acc p c cs)
  let ?n = "of_char c :: nat"
  show ?case
  proof (cases "cs = []")
    case True
    then show ?thesis using 2 by (auto simp: of_char_digit Let_def split: if_splits)
  next
    case False
    then show ?thesis using 2 by (auto simp: Let_def split: if_splits)
  qed
qed

lemma dec_nat_nonempty [simp]: "dec_nat n \<noteq> []"
  by (simp add: dec_nat.simps [of n])

lemma digits_val_dec_nat: "digits_val 0 p (dec_nat n) = Some n"
proof (induction n rule: less_induct)
  case (less n)
  show ?case
  proof (cases "n < 10")
    case True
    then show ?thesis by (simp add: dec_nat.simps [of n] of_char_digit)
  next
    case False
    then have "digits_val 0 p (dec_nat (n div 10)) = Some (n div 10)" by (intro less.IH) simp
    from digits_val_append_digit [OF this, of "n mod 10"] False show ?thesis
      by (simp add: dec_nat.simps [of n])
  qed
qed

lemma set_dec_nat: "c \<in> set (dec_nat n) \<Longrightarrow> \<exists>d < (10::nat). c = char_of (48 + d)"
proof (induction n rule: less_induct)
  case (less n)
  show ?case
  proof (cases "n < 10")
    case True
    then show ?thesis using less.prems by (auto simp: dec_nat.simps [of n])
  next
    case False
    then show ?thesis using less.prems less.IH [of "n div 10"]
      by (auto simp: dec_nat.simps [of n] intro: exI [of _ "n mod 10"])
  qed
qed

lemma set_dec_nat_code: "c \<in> set (dec_nat n) \<Longrightarrow> 48 \<le> (of_char c :: nat) \<and> (of_char c :: nat) \<le> 57"
proof -
  assume "c \<in> set (dec_nat n)"
  from set_dec_nat [OF this] obtain d :: nat where d: "d < 10" "c = char_of (48 + d)" by blast
  then show ?thesis by (simp add: of_char_digit)
qed

lemma length_dec_nat: "n < 10 ^ Suc k \<Longrightarrow> length (dec_nat n) \<le> Suc k"
proof (induction k arbitrary: n)
  case 0
  then show ?case by (simp add: dec_nat.simps [of n])
next
  case (Suc k)
  then show ?case by (simp add: dec_nat.simps [of n] less_mult_imp_div_less)
qed

lemma strip_no_space: "\<forall>c \<in> set s. \<not> is_space c \<Longrightarrow> strip s = s"
proof -
  assume a: "\<forall>c \<in> set s. \<not> is_space c"
  have keep: "dropWhile is_space t = t" if "\<forall>c \<in> set t. \<not> is_space c" for t
    using that by (cases t) simp_all
  from a have "dropWhile is_space s = s" "dropWhile is_space (rev s) = rev s"
    by (simp_all add: keep)
  then show ?thesis by (simp add: strip_def lstrip_def)
qed

lemma set_dec_int: "c \<in> set (dec_int i) \<Longrightarrow>
   (of_char c :: nat) = 45 \<or> 48 \<le> (of_char c :: nat) \<and> (of_char c :: nat) \<le> 57"
  by (auto simp: dec_int_def dest: set_dec_nat_code split: if_splits)

lemma strip_dec_int [simp]: "strip (dec_int i) = dec_int i"
proof (rule strip_no_space, rule ballI)
  fix c
  assume "c \<in> set (dec_int i)"
  from set_dec_int [OF this] show "\<not> is_space c" by (auto simp: is_space_def)
qed

lemma dec_nat_head: "\<exists>c cs. dec_nat n = c # cs \<and> 48 \<le> (of_char c :: nat) \<and> (of_char c :: nat) \<le> 57"
  using set_dec_nat_code [of "hd (dec_nat n)" n] by (cases "dec_nat n") auto

lemma int_of_str_dec_int [simp]: "int_of_str (dec_int i) = Inr i"
proof (cases "i < 0")
  case True
  then show ?thesis
    by (simp add: int_of_str_def Let_def) (simp add: dec_int_def digits_val_dec_nat)
next
  case False
  obtain c cs where c: "dec_nat (nat i) = c # cs" "48 \<le> (of_char c :: nat)"
    using dec_nat_head by blast
  then have "c \<noteq> CHR ''-''" "c \<noteq> CHR ''+''" by auto
  then show ?thesis using False c(1) digits_val_dec_nat [of False "nat i"]
    by (simp add: int_of_str_def Let_def) (simp add: dec_int_def)
qed

lemma dec_int_inject [simp]: "dec_int i = dec_int j \<longleftrightarrow> i = j"
  by (metis int_of_str_dec_int Inr_inject)

lemma dec_int_nonempty [simp]: "dec_int i \<noteq> []"
  by (simp add: dec_int_def)

lemma parse_val_other:
  assumes "s = c # cs" "\<not> json_ws c" "c \<notin> {CHR ''n'', CHR ''t'', CHR ''f'', char_of (34::nat), CHR ''['', CHR ''{''}"
  shows "parse_val (2 * length s + 2) s = parse_num s"
proof -
  have ws: "skip_ws s = s" using assms(1,2) by (simp add: skip_ws_def)
  have c: "c \<noteq> CHR ''n''" "c \<noteq> CHR ''t''" "c \<noteq> CHR ''f''" "c \<noteq> char_of (34::nat)" "c \<noteq> CHR ''[''" "c \<noteq> CHR ''{''"
    using assms(3) by auto
  have "2 * length s + 2 = Suc (2 * length s + 1)" by simp
  then have "parse_val (2 * length s + 2) s = parse_val (Suc (2 * length s + 1)) s" by (rule arg_cong)
  also have "\<dots> = parse_num s"
    using c by (simp only: parse_val.simps(2) ws Let_def) (simp add: assms(1) del: parse_num.simps)
  finally show ?thesis .
qed

text \<open>A text that starts like no JSON value is none.\<close>

lemma json_loads_other:
  assumes "s = c # cs" "\<not> json_ws c" "c \<notin> {CHR ''n'', CHR ''t'', CHR ''f'', char_of (34::nat), CHR ''['', CHR ''{''}"
    and "\<not> is_digit c" "c \<noteq> CHR ''-''"
  shows "json_loads s = None"
  unfolding json_loads_def parse_val_other [OF assms(1-3)] using assms(1,4,5) by (simp add: Let_def)

lemma json_loads_number:
  assumes "s = c # cs" "48 \<le> (of_char c :: nat) \<and> (of_char c :: nat) \<le> 57"
  shows "json_loads s \<noteq> Some (PDict d)" "json_loads s \<noteq> Some (PList vs)"
proof -
  have "\<not> json_ws c" "c \<notin> {CHR ''n'', CHR ''t'', CHR ''f'', char_of (34::nat), CHR ''['', CHR ''{''}"
    using assms(2) by (auto simp: json_ws_def Let_def)
  then have "parse_val (2 * length s + 2) s = parse_num s" by (rule parse_val_other [OF assms(1)])
  then have "parse_val (2 * length s + 2) s \<noteq> Some (PDict d, r)"
    "parse_val (2 * length s + 2) s \<noteq> Some (PList vs, r)" for r
    by (auto simp: Let_def split: if_splits)
  then show "json_loads s \<noteq> Some (PDict d)" "json_loads s \<noteq> Some (PList vs)"
    by (auto simp: json_loads_def split: option.splits prod.splits if_splits)
qed

text \<open>A key below $10^{19}$, as every SQLite key is, survives being stored in a fact.\<close>

lemma stored_key:
  assumes "0 \<le> i" "i < 10 ^ 19"
  shows "compact_runtime_json_text label (dec_int i) = dec_int i"
proof -
  obtain c cs where c: "dec_int i = c # cs" "48 \<le> (of_char c :: nat) \<and> (of_char c :: nat) \<le> 57"
    using dec_nat_head [of "nat i"] assms(1) by (auto simp: dec_int_def)
  have "nat i < 10 ^ Suc 18" using assms by (simp add: nat_less_iff)
  from length_dec_nat [OF this] assms(1) have "length (dec_int i) \<le> runtime_text_max_chars"
    by (simp add: dec_int_def runtime_text_max_chars_def)
  with json_loads_number [OF c] show ?thesis
    by (auto simp: compact_runtime_json_text_def split: option.split pyval.split)
qed

end
