(* ===== verification/Focus.thy ===== *)
theory Focus
  imports Metabolic Task_Contract Task_Query Intent Working_Memory Dispatcher Py_Num
begin

text \<open>
  \<open>core/loop/cycle/focus.py\<close>: which task the loop thinks about. The focus is kept in facts
  (\<open>focus:current_task_id\<close>, \<open>focus:chat:<id>\<close>); a chat message finds the task of its chat, a task that
  needs the user is parked as waiting, and the next message of its chat resumes it. State is the world
  of \<open>Metabolic\<close>, the working memory and the dispatcher. The code's guards against a missing method of
  the store are left out: the store is a \<open>TaskStore\<close> and has them all. The extra hints for an external
  wait are all Chinese and cannot occur in a Latin-1 text.
\<close>

section \<open>Small predicates\<close>

definition focus_current_key :: string where
  "focus_current_key = ''focus:current_task_id''"

definition focus_chat_key :: "string \<Rightarrow> string" where
  "focus_chat_key chat = ''focus:chat:'' @ chat"

definition normalize_chat_id :: "string option \<Rightarrow> string" where
  "normalize_chat_id c = (case c of None \<Rightarrow> [] | Some s \<Rightarrow> strip s)"

definition task_status :: "task \<Rightarrow> string" where
  "task_status k = strip (t_status k)"

definition task_is_runnable :: "task \<Rightarrow> bool" where
  "task_is_runnable k \<longleftrightarrow> task_status k \<in> set runnable_task_statuses"

definition task_is_waiting :: "task \<Rightarrow> bool" where
  "task_is_waiting k \<longleftrightarrow> task_status k = ''waiting''"

definition task_is_open :: "task \<Rightarrow> bool" where
  "task_is_open k \<longleftrightarrow> task_status k \<in> set open_task_statuses"

definition text_requests_external_wait :: "pyval list \<Rightarrow> bool" where
  "text_requests_external_wait vs = (let s = join '' '' (filter (\<lambda>t. t \<noteq> []) (map (\<lambda>v. strip (str_or_empty v)) vs))
     in s \<noteq> [] \<and> contains_wait_dependency s)"

record focus_action =
  fa_decision :: string
  fa_next_step :: string
  fa_reply_to_user :: string
  fa_rationale :: string
  fa_chosen_action_id :: string

definition pause_requests_waiting :: "focus_action \<Rightarrow> task \<Rightarrow> string \<Rightarrow> bool" where
  "pause_requests_waiting a k planned =
     (if fa_decision a \<noteq> ''pause'' then False
      else if text_requests_external_wait [PStr planned, PStr (fa_reply_to_user a), PStr (fa_rationale a)] then True
      else if planned \<noteq> [] \<or> strip (fa_reply_to_user a) \<noteq> [] \<or> strip (fa_rationale a) \<noteq> [] then False
      else text_requests_external_wait [t_next_step k, t_goal k])"

definition terminal_kinds :: "task \<Rightarrow> string list" where
  "terminal_kinds k = (if str_or_empty (t_source k) = ''self_drive''
     then [''task_anchor'', ''self_drive''] else [''task_anchor''])"

definition clear_terminal_task_attention :: "task \<Rightarrow> wm \<Rightarrow> wm" where
  "clear_terminal_task_attention k m = wm_clear [] (terminal_kinds k) m"

section \<open>Facts and tasks through the engine\<close>

type_synonym 'a io = "world \<Rightarrow> 'a res \<times> world"

definition io_then :: "'a io \<Rightarrow> 'b io \<Rightarrow> 'b io" where
  "io_then f g w = (case f w of (Inl x, w') \<Rightarrow> (Inl x, w') | (Inr a, w') \<Rightarrow> g w')"

definition submit_focus_fact :: "env \<Rightarrow> string \<Rightarrow> string \<Rightarrow> unit io" where
  "submit_focus_fact e key value w =
    (case submit_fact e key (PStr value) ''system'' ''loop/focus'' 0 [] w of
       (Inl x, w') \<Rightarrow> (Inl x, w')
     | (Inr b, w') \<Rightarrow> (Inr (), if b then w'
          else w'\<lparr>w_facts := set_fact (e_now_sql e) key value ''system'' (w_facts w')\<rparr>))"

definition delete_focus_fact :: "env \<Rightarrow> string \<Rightarrow> unit io" where
  "delete_focus_fact e key w =
    (case submit_delete_fact e key ''system'' ''loop/focus'' 0 [] w of
       (Inl x, w') \<Rightarrow> (Inl x, w')
     | (Inr b, w') \<Rightarrow> (Inr (), if b then w' else w'\<lparr>w_facts := delete_fact key (w_facts w')\<rparr>))"

text \<open>A failed submission is followed by the same operation on the store itself; errors are dropped.\<close>

definition safe_resume_task :: "env \<Rightarrow> int \<Rightarrow> pyval \<Rightarrow> pyval \<Rightarrow> pyval \<Rightarrow> pyval \<Rightarrow> world \<Rightarrow> world" where
  "safe_resume_task e i status current_step next_step result_json w =
    (case submit_resume_task e i status current_step next_step result_json ''loop/focus''
            ''focus resume via chat or user signal'' w of
       (Inr u, w') \<Rightarrow> w'
     | (Inl x, w') \<Rightarrow>
         w'\<lparr>w_tasks := snd (resume_task i status current_step next_step result_json (w_tasks w'))\<rparr>)"

definition safe_mark_waiting ::
    "env \<Rightarrow> int \<Rightarrow> pyval \<Rightarrow> pyval \<Rightarrow> pyval \<Rightarrow> pyval \<Rightarrow> pyval \<Rightarrow> pyval \<Rightarrow> world \<Rightarrow> world" where
  "safe_mark_waiting e i wait_kind wait_key wait_json current_step next_step result_json w =
    (case submit_mark_task_waiting e i wait_kind wait_key wait_json current_step next_step result_json
            ''loop/focus'' ''focus wait parking for user/chat signal'' w of
       (Inr u, w') \<Rightarrow> w'
     | (Inl x, w') \<Rightarrow> w'\<lparr>w_tasks := snd (mark_waiting i wait_kind wait_key wait_json current_step next_step
          result_json (w_tasks w'))\<rparr>)"

definition step_or_none :: "pyval \<Rightarrow> pyval" where
  "step_or_none v = (let s = strip (str_or_empty v) in if s = [] then PNone else PStr s)"

section \<open>Which task belongs to a chat\<close>

definition task_chat_key :: "task \<Rightarrow> string" where
  "task_chat_key k = ''task:'' @ dec_int (t_id k) @ '':chat_id''"

definition wait_json_chat :: "pyval \<Rightarrow> string" where
  "wait_json_chat v = (case as_dict (py_or v (PDict [])) of
      None \<Rightarrow> []
    | Some d \<Rightarrow> (let c = strip (str_or_empty (dict_get d ''chat_id'')) in
        if c \<noteq> [] then c else strip (str_or_empty (dict_get d ''wait_key''))))"

definition resolve_task_chat_id :: "world \<Rightarrow> task \<Rightarrow> string" where
  "resolve_task_chat_id w k =
    (let source = strip (str_or_empty (t_source k)); (value, found) = get_fact (w_facts w) (task_chat_key k);
         wait_kind = strip (str_or_empty (t_wait_kind k)); wait_key = strip (str_or_empty (t_wait_key k))
     in if startswith source ''wechat:'' \<or> startswith source ''chat:'' then source
        else if found \<and> strip value \<noteq> [] then strip value
        else if wait_kind = ''external'' \<and> wait_key \<noteq> [] then wait_key
        else wait_json_chat (t_wait_json k))"

definition task_matches_chat :: "world \<Rightarrow> task \<Rightarrow> string option \<Rightarrow> bool" where
  "task_matches_chat w k chat \<longleftrightarrow> normalize_chat_id chat \<noteq> [] \<and> resolve_task_chat_id w k = normalize_chat_id chat"

definition load_focus_task :: "world \<Rightarrow> string \<Rightarrow> bool \<Rightarrow> task option" where
  "load_focus_task w key include_waiting = (let (raw, found) = get_fact (w_facts w) key in
     if \<not> found then None
     else (case int_of_str raw of
        Inl x \<Rightarrow> None
      | Inr i \<Rightarrow> (case get_task_by_id (w_tasks w) i of
            None \<Rightarrow> None
          | Some k \<Rightarrow> if task_is_runnable k then Some k
              else if include_waiting \<and> task_is_waiting k then Some k else None)))"

definition focus_open_tasks :: "world \<Rightarrow> bool \<Rightarrow> task list" where
  "focus_open_tasks w include_waiting = query_open_tasks 50
     (Some (if include_waiting then open_task_statuses else runnable_task_statuses)) (w_tasks w)"

definition resolve_focus_task :: "world \<Rightarrow> string option \<Rightarrow> bool \<Rightarrow> bool \<Rightarrow> task option" where
  "resolve_focus_task w chat include_waiting fallback_active =
    (let c = normalize_chat_id chat;
         by_chat = (if c = [] then None
           else (case load_focus_task w (focus_chat_key c) include_waiting of
               Some k \<Rightarrow> if task_matches_chat w k (Some c) then Some k
                 else find (\<lambda>k. task_matches_chat w k (Some c)) (focus_open_tasks w include_waiting)
             | None \<Rightarrow> find (\<lambda>k. task_matches_chat w k (Some c)) (focus_open_tasks w include_waiting)));
         by_focus = (case load_focus_task w focus_current_key include_waiting of
             Some k \<Rightarrow> if c = [] \<or> task_matches_chat w k (Some c) then Some k
               else if fallback_active then Some k else None
           | None \<Rightarrow> (case get_active (w_tasks w) of
                 None \<Rightarrow> None
               | Some k \<Rightarrow> if c = [] \<or> task_matches_chat w k (Some c) then Some k else None))
     in case by_chat of Some k \<Rightarrow> Some k
        | None \<Rightarrow> if c \<noteq> [] \<and> \<not> fallback_active then None else by_focus)"

section \<open>Dispatching a tick\<close>

record dispatcher_state =
  ds_enabled :: bool
  ds_can_accept :: bool
  ds_running :: nat
  ds_pending :: nat

definition dispatcher_enabled :: "disp \<Rightarrow> bool" where
  "dispatcher_enabled d \<longleftrightarrow> 1 < d_max_concurrent d"

definition tick_dispatcher_state :: "disp option \<Rightarrow> dispatcher_state" where
  "tick_dispatcher_state od = (case od of
      Some d \<Rightarrow> if dispatcher_enabled d
        then \<lparr>ds_enabled = True, ds_can_accept = can_accept d, ds_running = d_running d, ds_pending = d_pending d\<rparr>
        else \<lparr>ds_enabled = False, ds_can_accept = True, ds_running = 0, ds_pending = 0\<rparr>
    | None \<Rightarrow> \<lparr>ds_enabled = False, ds_can_accept = True, ds_running = 0, ds_pending = 0\<rparr>)"

definition dispatcher_has_work :: "dispatcher_state \<Rightarrow> bool" where
  "dispatcher_has_work s \<longleftrightarrow> 0 < ds_running s \<or> 0 < ds_pending s"

text \<open>\<open>_resolve_tick_chain_key\<close> of \<open>core/loop/runtime/main.py\<close>.\<close>

definition resolve_tick_chain_key :: "task option \<Rightarrow> string option \<Rightarrow> string \<Rightarrow> string" where
  "resolve_tick_chain_key active chat source = (let c = normalize_chat_id chat in
     if c \<noteq> [] then ''chat:'' @ c
     else (case active of
        None \<Rightarrow> ''global:'' @ source
      | Some k \<Rightarrow> (let chain = strip (str_or_empty (t_chain_id k)) in
          if chain \<noteq> [] then ''task-chain:'' @ chain else ''task:'' @ dec_int (t_id k))))"

record dispatch_context =
  dc_cycle :: int
  dc_chain_key :: string
  dc_active_task :: "task option"

text \<open>\<open>n\<close> is the loop's counter of dispatch cycles; the context takes the next one.\<close>

definition resolve_tick_dispatch_context ::
    "world \<Rightarrow> int \<Rightarrow> string \<Rightarrow> string option \<Rightarrow> bool \<Rightarrow> bool \<Rightarrow> dispatch_context" where
  "resolve_tick_dispatch_context w n source chat include_waiting fallback_active =
    (let c = normalize_chat_id chat;
         active = resolve_focus_task w (if c = [] then None else Some c) include_waiting fallback_active
     in \<lparr>dc_cycle = n + 1,
         dc_chain_key = resolve_tick_chain_key active (if active = None then Some c else None) source,
         dc_active_task = active\<rparr>)"

definition build_tick_job ::
    "dispatch_context \<Rightarrow> string \<Rightarrow> string \<Rightarrow> string option \<Rightarrow> int list \<Rightarrow> tick_job" where
  "build_tick_job c source user_message chat ids =
     \<lparr>j_cycle = dc_cycle c, j_chain_key = dc_chain_key c, j_user_message = user_message, j_chat_id = chat,
      j_chat_message_ids = ids, j_source = source\<rparr>"

record dispatch_result =
  dr_context :: dispatch_context
  dr_accepted :: bool
  dr_can_retry :: bool

definition try_dispatch_tick_job ::
    "world \<Rightarrow> int \<Rightarrow> string \<Rightarrow> string \<Rightarrow> string option \<Rightarrow> int list \<Rightarrow> bool \<Rightarrow> bool \<Rightarrow> disp option \<Rightarrow>
     dispatch_result \<times> disp option" where
  "try_dispatch_tick_job w n source user_message chat ids include_waiting fallback_active od =
    (let c = resolve_tick_dispatch_context w n source chat include_waiting fallback_active;
         refused = \<lparr>dr_context = c, dr_accepted = False, dr_can_retry = False\<rparr>
     in case od of
          None \<Rightarrow> (refused, None)
        | Some d \<Rightarrow> if \<not> dispatcher_enabled d then (refused, od)
            else (let (ok, d') = enqueue (build_tick_job c source user_message chat ids) d
                  in (\<lparr>dr_context = c, dr_accepted = ok, dr_can_retry = \<not> ok\<rparr>, Some d')))"

section \<open>Claiming, preparing, adopting, finishing\<close>

definition io_skip :: "unit io" where
  "io_skip w = (Inr (), w)"

definition claim_focus_task :: "env \<Rightarrow> task option \<Rightarrow> string option \<Rightarrow> bool \<Rightarrow> unit io" where
  "claim_focus_task e k chat clear_current w =
    (let c0 = normalize_chat_id chat;
         c = (if c0 = [] then (case k of None \<Rightarrow> [] | Some k \<Rightarrow> resolve_task_chat_id w k) else c0);
         is_open = (case k of None \<Rightarrow> False | Some k \<Rightarrow> task_is_open k);
         ident = (case k of None \<Rightarrow> [] | Some k \<Rightarrow> dec_int (t_id k))
     in io_then
          (if is_open then submit_focus_fact e focus_current_key ident
           else if clear_current then delete_focus_fact e focus_current_key else io_skip)
          (if c = [] then io_skip
           else if is_open then submit_focus_fact e (focus_chat_key c) ident
           else delete_focus_fact e (focus_chat_key c)) w)"

definition prepare_focus_task :: "env \<Rightarrow> string \<Rightarrow> string option \<Rightarrow> world \<Rightarrow> task option \<times> world" where
  "prepare_focus_task e user_message chat w =
    (let c = normalize_chat_id chat; has_message = strip user_message \<noteq> []
     in case resolve_focus_task w (if c = [] then None else Some c) has_message (c = []) of
          None \<Rightarrow> (None, w)
        | Some k \<Rightarrow>
            if \<not> task_is_waiting k \<or> \<not> has_message then (Some k, w)
            else (let w' = safe_resume_task e (t_id k) (PStr ''resumed'') (step_or_none (t_current_step k))
                    (step_or_none (t_next_step k))
                    (PDict [(''resumed_via'', PStr (if c \<noteq> [] then ''focus.chat'' else ''focus.user'')),
                            (''chat_id'', PStr c)]) w
                  in case get_task_by_id (w_tasks w') (t_id k) of
                       Some r \<Rightarrow> (Some r, w') | None \<Rightarrow> (Some k, w')))"

record tool_outcome =
  to_metadata :: pyval
  to_state_delta :: pyval
  to_resource_key :: pyval

definition dict_part :: "pyval \<Rightarrow> dict" where
  "dict_part v = (case as_dict v of None \<Rightarrow> [] | Some d \<Rightarrow> d)"

definition adopt_result_task :: "world \<Rightarrow> task option \<Rightarrow> focus_action \<Rightarrow> tool_outcome \<Rightarrow> task option" where
  "adopt_result_task w active a r = (if fa_decision a \<noteq> ''act'' then active
     else (let raw0 = py_or (dict_get (dict_part (to_metadata r)) ''task_id'')
                 (dict_get (dict_part (to_state_delta r)) ''task_id'');
               none = (\<lambda>v. v = PNone \<or> v = PStr []);
               raw = (if none raw0 \<and> startswith (fa_chosen_action_id a) ''task.''
                      then py_or (to_resource_key r) (PStr []) else raw0)
           in if none raw then active
              else (case py_int raw of
                 Inl x \<Rightarrow> active
               | Inr i \<Rightarrow> (case get_task_by_id (w_tasks w) i of Some k \<Rightarrow> Some k | None \<Rightarrow> active))))"

definition should_wait_for_user :: "focus_action \<Rightarrow> task \<Rightarrow> string \<Rightarrow> string \<Rightarrow> bool" where
  "should_wait_for_user a k c user_message = (let planned = strip (fa_next_step a) in
     task_is_runnable k \<and>
     (c \<noteq> [] \<or> strip user_message \<noteq> [] \<or> strip (fa_reply_to_user a) \<noteq> []) \<and>
     (pause_requests_waiting a k planned \<or> (fa_decision a = ''wait'' \<and> planned = [])))"

definition park_task :: "env \<Rightarrow> focus_action \<Rightarrow> task \<Rightarrow> string \<Rightarrow> world \<Rightarrow> task \<times> world" where
  "park_task e a k c w =
    (let w' = safe_mark_waiting e (t_id k) (PStr ''external'') (PStr c)
          (PDict [(''wait_kind'', PStr ''external''), (''wait_key'', PStr c),
                  (''terminal_decision'', PStr (fa_decision a)), (''chat_id'', PStr c)])
          (step_or_none (t_current_step k))
          (step_or_none (if fa_next_step a \<noteq> [] then PStr (fa_next_step a) else t_next_step k))
          (PDict [(''terminal_decision'', PStr (fa_decision a)), (''paused_for_user'', PBool True)]) w
     in (case get_task_by_id (w_tasks w') (t_id k) of Some r \<Rightarrow> r | None \<Rightarrow> k, w'))"

definition finalize_focus_task ::
    "env \<Rightarrow> focus_action \<Rightarrow> task option \<Rightarrow> string option \<Rightarrow> string \<Rightarrow> world \<times> wm \<Rightarrow>
     task option res \<times> world \<times> wm" where
  "finalize_focus_task e a active chat user_message s = (let (w, m) = s in case active of
      None \<Rightarrow> (if normalize_chat_id chat = []
         then (let (r, w') = claim_focus_task e None None True w in (bind_res r (\<lambda>u. Inr None), w', m))
         else (Inr None, w, m))
    | Some k0 \<Rightarrow>
       (let c0 = normalize_chat_id chat; c = (if c0 \<noteq> [] then c0 else resolve_task_chat_id w k0);
            (k, w1) = (if should_wait_for_user a k0 c user_message then park_task e a k0 c w else (k0, w));
            m1 = (if task_is_open k then m else clear_terminal_task_attention k m);
            (r, w2) = claim_focus_task e (if task_is_open k then Some k else None)
              (if c = [] then None else Some c) True w1
        in (bind_res r (\<lambda>u. Inr (Some k)), w2, m1)))"

end
