(* ===== verification/Focus_Contract.thy ===== *)
theory Focus_Contract
  imports Focus
begin

text \<open>
  What the focus promises: a chat only ever gets a task of its own, and a task parked for a chat is
  the one its next message resumes.
\<close>

section \<open>The steps of the engine that the focus takes\<close>

lemma task_op_not_blocked [simp]:
  "check_tool_blocked (pseudo_tool_name (build_proposal ''mark_task_waiting'' key v sc src r b)) = None"
  "check_tool_blocked (pseudo_tool_name (build_proposal ''resume_task'' key v sc src r b)) = None"
  "check_tool_blocked (pseudo_tool_name (build_proposal ''set_fact'' key v sc src r b)) = None"
  "check_tool_blocked (pseudo_tool_name (build_proposal ''delete_fact'' key v sc src r b)) = None"
  by (simp_all add: check_tool_blocked_def pseudo_tool_name_def default_blocked_tools_def build_proposal_def)

lemma patch_task_raises: "p_title p = None \<Longrightarrow> fst (patch_task i p t) = Inl x \<Longrightarrow> snd (patch_task i p t) = t"
  by (auto simp: patch_task_def patch_title_def split: option.splits sum.splits)

lemma mark_waiting_raises:
  "fst (mark_waiting i wk wy wj cs ns rj t) = Inl x \<Longrightarrow> snd (mark_waiting i wk wy wj cs ns rj t) = t"
  unfolding mark_waiting_def
  by (auto simp: discard_def no_patch_def intro!: patch_task_raises split: sum.splits)

lemma resume_task_raises:
  "fst (resume_task i st cs ns rj t) = Inl x \<Longrightarrow> snd (resume_task i st cs ns rj t) = t"
  unfolding resume_task_def
  by (auto simp: discard_def no_patch_def intro!: patch_task_raises split: sum.splits)

lemma str_field_str [simp]: "dict_get d k = PStr s \<Longrightarrow> s \<noteq> [] \<Longrightarrow> str_field d k dflt = s"
  by (simp add: str_field_def py_or_def)

lemma append_ledger_parts [simp]:
  "w_tasks (append_lifecycle_ledger e p key ok reason w) = w_tasks w"
  "w_facts (append_lifecycle_ledger e p key ok reason w) = w_facts w"
  by (simp_all add: append_lifecycle_ledger_def)

lemma safe_mark_waiting_effect:
  assumes "wk \<noteq> []"
  shows "w_tasks (safe_mark_waiting e i (PStr wk) (PStr wy) wj cs ns rj w) =
      snd (mark_waiting i (PStr wk) (PStr wy) wj cs ns rj (w_tasks w))"
    and "w_facts (safe_mark_waiting e i (PStr wk) (PStr wy) wj cs ns rj w) = w_facts w"
proof -
  let ?d = "[(''wait_kind'', PStr wk), (''wait_key'', PStr wy), (''wait_json'', wj),
    (''current_step'', cs), (''next_step'', ns), (''result_json'', rj)]"
  let ?p = "build_proposal ''mark_task_waiting'' (dec_int i) (PDict ?d) ''task'' ''loop/focus'' 0
    ''focus wait parking for user/chat signal''"
  let ?m = "mark_waiting i (PStr wk) (PStr wy) wj cs ns rj (w_tasks w)"
  have wy: "str_field ?d ''wait_key'' [] = wy"
    by (simp add: str_field_def dict_get_def py_or_def)
  have "apply_state_write e ?p w = apply_mark_task_waiting ?p w"
    by (simp add: apply_state_write_def task_write_ops_def apply_task_write_def build_proposal_def)
  also have "\<dots> = on_tasks ?m (done_key ?p) w"
    using assms wy by (simp add: apply_mark_task_waiting_def with_task_id_def proposal_task_id_def
        proposal_data_def build_proposal_def dict_get_def)
  finally have ap: "apply_state_write e ?p w = on_tasks ?m (done_key ?p) w" .
  have res: "safe_mark_waiting e i (PStr wk) (PStr wy) wj cs ns rj w =
     (let (r, w') = submit e ?p w in case r of
        Inr v \<Rightarrow> w' | Inl x \<Rightarrow> w'\<lparr>w_tasks := snd (mark_waiting i (PStr wk) (PStr wy) wj cs ns rj (w_tasks w'))\<rparr>)"
    by (simp add: safe_mark_waiting_def submit_mark_task_waiting_def submit_task_op_def bind_res_def
        split: prod.split sum.split)
  show "w_tasks (safe_mark_waiting e i (PStr wk) (PStr wy) wj cs ns rj w) = snd ?m"
    "w_facts (safe_mark_waiting e i (PStr wk) (PStr wy) wj cs ns rj w) = w_facts w"
    unfolding res using mark_waiting_raises [of i "PStr wk" "PStr wy" wj cs ns rj "w_tasks w"]
    by (cases "fst ?m"; simp add: submit_def ap on_tasks_def bind_res_def)+
qed

lemma safe_resume_task_effect:
  assumes "st \<noteq> []"
  shows "w_tasks (safe_resume_task e i (PStr st) cs ns rj w) = snd (resume_task i (PStr st) cs ns rj (w_tasks w))"
    and "w_facts (safe_resume_task e i (PStr st) cs ns rj w) = w_facts w"
proof -
  let ?d = "[(''status'', PStr st), (''current_step'', cs), (''next_step'', ns), (''result_json'', rj)]"
  let ?p = "build_proposal ''resume_task'' (dec_int i) (PDict ?d) ''task'' ''loop/focus'' 0
    ''focus resume via chat or user signal''"
  let ?m = "resume_task i (PStr st) cs ns rj (w_tasks w)"
  have "apply_state_write e ?p w = apply_resume_task ?p w"
    by (simp add: apply_state_write_def task_write_ops_def apply_task_write_def build_proposal_def)
  also have "\<dots> = on_tasks ?m (done_key ?p) w"
    using assms by (simp add: apply_resume_task_def with_task_id_def proposal_task_id_def
        proposal_data_def build_proposal_def dict_get_def)
  finally have ap: "apply_state_write e ?p w = on_tasks ?m (done_key ?p) w" .
  have res: "safe_resume_task e i (PStr st) cs ns rj w =
     (let (r, w') = submit e ?p w in case r of
        Inr v \<Rightarrow> w' | Inl x \<Rightarrow> w'\<lparr>w_tasks := snd (resume_task i (PStr st) cs ns rj (w_tasks w'))\<rparr>)"
    by (simp add: safe_resume_task_def submit_resume_task_def submit_task_op_def bind_res_def
        split: prod.split sum.split)
  show "w_tasks (safe_resume_task e i (PStr st) cs ns rj w) = snd ?m"
    "w_facts (safe_resume_task e i (PStr st) cs ns rj w) = w_facts w"
    unfolding res using resume_task_raises [of i "PStr st" cs ns rj "w_tasks w"]
    by (cases "fst ?m"; simp add: submit_def ap on_tasks_def bind_res_def)+
qed

lemma submit_focus_fact_effect:
  "\<exists>l. submit_focus_fact e key v w =
     (Inr (), w\<lparr>w_facts := set_fact (e_now_sql e) key v ''system'' (w_facts w), w_ledger := l\<rparr>)"
  by (simp add: submit_focus_fact_def submit_fact_def submit_def apply_state_write_def apply_fact_write_def
      bind_res_def append_lifecycle_ledger_def)
    (simp add: build_proposal_def; blast)

lemma claim_open_task:
  assumes "task_is_open k" "normalize_chat_id chat = c" "c \<noteq> []"
  obtains l where "claim_focus_task e (Some k) chat clear w =
     (Inr (), w\<lparr>w_facts := set_fact (e_now_sql e) (focus_chat_key c) (dec_int (t_id k)) ''system''
        (set_fact (e_now_sql e) focus_current_key (dec_int (t_id k)) ''system'' (w_facts w)), w_ledger := l\<rparr>)"
proof -
  obtain l1 where l1: "submit_focus_fact e focus_current_key (dec_int (t_id k)) w =
     (Inr (), w\<lparr>w_facts := set_fact (e_now_sql e) focus_current_key (dec_int (t_id k)) ''system'' (w_facts w),
        w_ledger := l1\<rparr>)" (is "_ = (_, ?w1)")
    using submit_focus_fact_effect by blast
  obtain l2 where "submit_focus_fact e (focus_chat_key c) (dec_int (t_id k)) ?w1 =
     (Inr (), ?w1\<lparr>w_facts := set_fact (e_now_sql e) (focus_chat_key c) (dec_int (t_id k)) ''system'' (w_facts ?w1),
        w_ledger := l2\<rparr>)"
    using submit_focus_fact_effect by blast
  with l1 assms show ?thesis by (intro that [of l2]) (simp add: claim_focus_task_def io_then_def Let_def)
qed

section \<open>A chat gets its own tasks\<close>

lemma query_open_tasksD:
  assumes "tbl_ok t" "k \<in> set (query_open_tasks n st t)"
  shows "get_task_by_id t (t_id k) = Some k" "t_status k \<in> set (normalized_statuses st)"
proof -
  obtain i r where "(i, r) \<in> set (tbl_select (\<lambda>i r. row_status r \<in> set (normalized_statuses st)) t)"
    "k = task_from_row (i, r)"
    using assms(2) set_sql_limit by (fastforce simp: query_open_tasks_def Let_def split: if_splits)
  then show "get_task_by_id t (t_id k) = Some k" "t_status k \<in> set (normalized_statuses st)"
    using set_tbl_select [OF assms(1)] by (auto simp: get_task_by_id_def task_from_row_def Let_def)
qed

lemma strip_status [simp]: "s \<in> set open_task_statuses \<Longrightarrow> strip s = s"
  by (auto simp: open_task_statuses_def strip_def lstrip_def is_space_def)

lemma runnable_open: "s \<in> set runnable_task_statuses \<Longrightarrow> s \<in> set open_task_statuses"
  by (auto simp: runnable_task_statuses_def open_task_statuses_def)

text \<open>The statuses a task may have to be focused.\<close>

definition focus_statuses :: "bool \<Rightarrow> string list" where
  "focus_statuses include_waiting = (if include_waiting then open_task_statuses else runnable_task_statuses)"

lemma focus_open_tasksD:
  assumes "tbl_ok (w_tasks w)" "k \<in> set (focus_open_tasks w inc)"
  shows "get_task_by_id (w_tasks w) (t_id k) = Some k" "task_status k \<in> set (focus_statuses inc)"
proof -
  note q = query_open_tasksD [OF assms(1) assms(2) [unfolded focus_open_tasks_def]]
  have "t_status k \<in> set (focus_statuses inc)"
    using q(2) runnable_open
    by (auto simp: normalized_statuses_def focus_statuses_def open_task_statuses_def runnable_task_statuses_def
        strip_def lstrip_def is_space_def split: if_splits)
  then show "task_status k \<in> set (focus_statuses inc)"
    using runnable_open by (auto simp: task_status_def focus_statuses_def split: if_splits)
qed (use query_open_tasksD [OF assms(1) assms(2) [unfolded focus_open_tasks_def]] in simp)

lemma load_focus_taskD:
  assumes "load_focus_task w key inc = Some k"
  shows "get_task_by_id (w_tasks w) (t_id k) = Some k" "task_status k \<in> set (focus_statuses inc)"
  using assms get_task_by_id_id
  by (auto simp: load_focus_task_def focus_statuses_def task_is_runnable_def task_is_waiting_def
      runnable_task_statuses_def open_task_statuses_def split: prod.splits if_splits sum.splits option.splits)

lemma matches_normalized [simp]: "task_matches_chat w k (Some (normalize_chat_id chat)) = task_matches_chat w k chat"
  by (simp add: task_matches_chat_def normalize_chat_id_def split: option.split)

lemma resolve_focus_by_chat:
  assumes "normalize_chat_id chat \<noteq> []"
  shows "resolve_focus_task w chat inc False =
    (case load_focus_task w (focus_chat_key (normalize_chat_id chat)) inc of
       Some k \<Rightarrow> if task_matches_chat w k chat then Some k
         else find (\<lambda>k. task_matches_chat w k chat) (focus_open_tasks w inc)
     | None \<Rightarrow> find (\<lambda>k. task_matches_chat w k chat) (focus_open_tasks w inc))"
  using assms by (auto simp: resolve_focus_task_def Let_def split: option.split)

lemma resolve_focus_Some:
  assumes "tbl_ok (w_tasks w)" "normalize_chat_id chat \<noteq> []" "resolve_focus_task w chat inc False = Some k"
  shows "get_task_by_id (w_tasks w) (t_id k) = Some k" "task_matches_chat w k chat"
    "task_status k \<in> set (focus_statuses inc)"
  using assms focus_open_tasksD [OF assms(1), of k inc]
    load_focus_taskD [of w "focus_chat_key (normalize_chat_id chat)" inc k]
  by (auto simp: resolve_focus_by_chat find_Some_iff split: option.splits if_splits)

text \<open>A message of a chat is only ever given to a task of that chat: without the fallback the task
  that is resolved is stored, has a status that allows it and belongs to the chat; and when none is
  resolved, none of the open tasks that are looked at belongs to it.\<close>

theorem chat_gets_its_own_task:
  assumes "world_ok w" "normalize_chat_id chat \<noteq> []"
  shows "case resolve_focus_task w chat inc False of
      Some k \<Rightarrow> get_task_by_id (w_tasks w) (t_id k) = Some k \<and> task_matches_chat w k chat \<and>
        task_status k \<in> set (focus_statuses inc)
    | None \<Rightarrow> \<forall>k \<in> set (focus_open_tasks w inc). \<not> task_matches_chat w k chat"
proof (cases "resolve_focus_task w chat inc False")
  case None
  then show ?thesis using assms(2)
    by (auto simp: resolve_focus_by_chat find_None_iff split: option.splits if_splits)
next
  case (Some k)
  have "tbl_ok (w_tasks w)" using assms(1) by (simp add: world_ok_def tasks_ok_def)
  from resolve_focus_Some [OF this assms(2) Some] Some show ?thesis by simp
qed

section \<open>Parking and resuming\<close>

lemma patch_task_source:
  assumes "get_task_by_id t i = Some k" "patch_task i p t = (Inr b, t')" "tasks_ok t"
    and "get_task_by_id t' i = Some k'"
  shows "t_source k' = compact_runtime_value 1 (t_source k)"
proof -
  obtain k1 k2 r where k2: "patched p k1 = Inr k2" "\<exists>nt. k1 = k\<lparr>t_title := nt\<rparr>" "dict_ok (t_extras k2)"
    "get_task_by_id t' i = Some (task_from_row (i, r\<lparr>row_status := t_status k2, row_data := task_to_data_json k2\<rparr>))"
    using patch_task_Some [OF assms(1-3)] by metis
  have "t_source k2 = t_source k" using patched_fields(4) [OF k2(1)] k2(2) by auto
  with k2(4) assms(4) dict_get_or_task_data_core [OF k2(3)] show ?thesis
    by (simp add: task_from_row_def Let_def task_core_data_keys_def task_core_data_def)
qed

lemma patch_task_succeeds:
  assumes "get_task_by_id t i = Some k" "p_title p = None" "p_merge_result_json p"
    and "p_wait_json p = Some (PDict d)" "p_result_json p = Some (PDict r)" "dict_or_empty (t_result_json k) = Inr q"
  shows "fst (patch_task i p t) = Inr True"
  using assms
  by (simp add: patch_task_def patch_title_def patched_def patch_wait_json_def patch_result_json_def
      patch_texts_def bind_res_def)

lemma discard_succeeds: "fst (patch_task i p t) = Inr b \<Longrightarrow> patch_task i p t = (Inr b, snd (patch_task i p t))"
  by (simp add: prod_eq_iff)

lemma parked_task:
  assumes "tasks_ok t" "get_task_by_id t i = Some k" "dict_or_empty (t_result_json k) = Inr q"
    and "t' = snd (mark_waiting i (PStr ''external'') (PStr c) (PDict wj) cs ns (PDict rj) t)" "wj \<noteq> []"
  obtains k' where "get_task_by_id t' i = Some k'" "tasks_ok t'" "t_status k' = ''waiting''"
    "t_wait_kind k' = PStr (stored_text ''external'')" "t_wait_key k' = PStr (stored_text c)"
    "t_source k' = compact_runtime_value 1 (t_source k)"
    "\<exists>q. dict_or_empty (t_result_json k') = Inr q"
    "t_next_step k' = compact_runtime_value 1 (set_str (unset_if_none ns) (t_next_step k))"
proof -
  let ?p = "no_patch\<lparr>p_status := Some (PStr ''waiting''), p_wait_kind := Some (PStr ''external''),
       p_wait_key := Some (PStr c), p_wait_json := Some (PDict wj), p_current_step := unset_if_none cs,
       p_next_step := unset_if_none ns, p_result_json := Some (PDict rj), p_merge_result_json := True\<rparr>"
  have t': "t' = snd (patch_task i ?p t)"
    using assms(4,5) by (simp add: mark_waiting_def py_or_def unset_if_none_def)
  have "fst (patch_task i ?p t) = Inr True"
    by (rule patch_task_succeeds [OF assms(2)]) (simp_all add: assms(3))
  then have pt: "patch_task i ?p t = (Inr True, t')" by (simp add: prod_eq_iff t')
  from patch_task_read [OF assms(2) pt assms(1)] obtain k' where
    k': "get_task_by_id t' i = Some k'" "tasks_ok t'" "patch_read ?p k k'" by blast
  obtain d where "t_result_json k' = py_or (compact_runtime_value 1 (PDict d)) (PDict [])"
    using k'(3) by (auto simp: patch_read_def)
  then have "\<exists>q. dict_or_empty (t_result_json k') = Inr q"
    by (auto simp: py_or_def compact_runtime_value_def runtime_max_depth_def)
  with k' patch_task_source [OF assms(2) pt assms(1) k'(1)] show ?thesis
    by (intro that [of k']) (simp_all add: patch_read_def stored_text_def)
qed

lemma resumed_task:
  assumes "tasks_ok t" "get_task_by_id t i = Some k" "dict_or_empty (t_result_json k) = Inr q"
    and "t' = snd (resume_task i (PStr ''resumed'') cs ns (PDict rj) t)"
  obtains k' where "get_task_by_id t' i = Some k'" "t_status k' = ''resumed''"
    "t_wait_kind k' = PStr []" "t_wait_key k' = PStr []"
    "t_next_step k' = compact_runtime_value 1 (set_str (unset_if_none ns) (t_next_step k))"
proof -
  let ?p = "no_patch\<lparr>p_status := Some (PStr ''resumed''), p_wait_kind := Some (PStr []),
       p_wait_key := Some (PStr []), p_wait_json := Some (PDict []), p_current_step := unset_if_none cs,
       p_next_step := unset_if_none ns, p_result_json := Some (PDict rj), p_merge_result_json := True\<rparr>"
  have t': "t' = snd (patch_task i ?p t)"
    using assms(4) by (simp add: resume_task_def unset_if_none_def)
  have "fst (patch_task i ?p t) = Inr True"
    by (rule patch_task_succeeds [OF assms(2)]) (simp_all add: assms(3))
  then have pt: "patch_task i ?p t = (Inr True, t')" by (simp add: prod_eq_iff t')
  from patch_task_read [OF assms(2) pt assms(1)] obtain k' where
    k': "get_task_by_id t' i = Some k'" "tasks_ok t'" "patch_read ?p k k'" by blast
  then show ?thesis by (intro that [of k']) (simp_all add: patch_read_def)
qed

lemma focus_keys_differ [simp]:
  "focus_chat_key c \<noteq> focus_current_key" "focus_current_key \<noteq> focus_chat_key c"
  "focus_chat_key c \<noteq> task_chat_key k" "focus_current_key \<noteq> task_chat_key k"
  by (simp_all add: focus_chat_key_def focus_current_key_def task_chat_key_def)

lemma waiting_not_runnable: "t_status k = ''waiting'' \<Longrightarrow> task_is_waiting k \<and> task_is_open k \<and> \<not> task_is_runnable k"
  by (simp add: task_is_waiting_def task_is_open_def task_is_runnable_def task_status_def
      open_task_statuses_def runnable_task_statuses_def strip_def lstrip_def is_space_def)

text \<open>The state after a task has been parked for chat \<open>c\<close>.\<close>

lemma finalize_parks:
  assumes "world_ok w" "get_task_by_id (w_tasks w) i = Some k" "normalize_chat_id chat = c" "c \<noteq> []"
    and "should_wait_for_user a k c msg" "dict_or_empty (t_result_json k) = Inr q"
    and "finalize_focus_task e a (Some k) chat msg (w, m) = (res, w1, m1)"
  obtains k1 where "res = Inr (Some k1)" "get_task_by_id (w_tasks w1) i = Some k1" "tasks_ok (w_tasks w1)"
    "t_status k1 = ''waiting''" "t_wait_kind k1 = PStr ''external''" "t_wait_key k1 = PStr (stored_text c)"
    "t_source k1 = compact_runtime_value 1 (t_source k)" "\<exists>q. dict_or_empty (t_result_json k1) = Inr q"
    "strip (fa_next_step a) \<noteq> [] \<Longrightarrow> t_next_step k1 = PStr (stored_text (strip (fa_next_step a)))"
    "get_fact (w_facts w1) (focus_chat_key c) = (compact_runtime_json_text ''fact value'' (dec_int i), True)"
    "\<And>key. key \<noteq> focus_chat_key c \<Longrightarrow> key \<noteq> focus_current_key \<Longrightarrow>
       get_fact (w_facts w1) key = get_fact (w_facts w) key"
proof -
  let ?wj = "[(''wait_kind'', PStr ''external''), (''wait_key'', PStr c),
     (''terminal_decision'', PStr (fa_decision a)), (''chat_id'', PStr c)]"
  let ?cs = "step_or_none (t_current_step k)"
  let ?ns = "step_or_none (if fa_next_step a \<noteq> [] then PStr (fa_next_step a) else t_next_step k)"
  let ?rj = "[(''terminal_decision'', PStr (fa_decision a)), (''paused_for_user'', PBool True)]"
  have id: "t_id k = i" using get_task_by_id_id [OF assms(2)] .
  define w0 where "w0 = safe_mark_waiting e i (PStr ''external'') (PStr c) (PDict ?wj) ?cs ?ns (PDict ?rj) w"
  have tasks: "w_tasks w0 = snd (mark_waiting i (PStr ''external'') (PStr c) (PDict ?wj) ?cs ?ns (PDict ?rj) (w_tasks w))"
    and facts: "w_facts w0 = w_facts w"
    unfolding w0_def by (rule safe_mark_waiting_effect; simp)+
  have ok: "tasks_ok (w_tasks w)" using assms(1) by (simp add: world_ok_def)
  obtain k1 where k1: "get_task_by_id (w_tasks w0) i = Some k1" "tasks_ok (w_tasks w0)" "t_status k1 = ''waiting''"
    "t_wait_kind k1 = PStr (stored_text ''external'')" "t_wait_key k1 = PStr (stored_text c)"
    "t_source k1 = compact_runtime_value 1 (t_source k)" "\<exists>q. dict_or_empty (t_result_json k1) = Inr q"
    "t_next_step k1 = compact_runtime_value 1 (set_str (unset_if_none ?ns) (t_next_step k))"
    by (rule parked_task [OF ok assms(2,6) tasks]) simp_all
  have park: "park_task e a k c w = (k1, w0)"
    using k1(1) by (simp add: park_task_def id w0_def)
  have idk1: "t_id k1 = i" using get_task_by_id_id [OF k1(1)] .
  have open1: "task_is_open k1" using waiting_not_runnable [OF k1(3)] by simp
  have norm: "normalize_chat_id (Some c) = c" using assms(3) by (auto simp: normalize_chat_id_def split: option.splits)
  obtain l where l: "claim_focus_task e (Some k1) (Some c) True w0 =
     (Inr (), w0\<lparr>w_facts := set_fact (e_now_sql e) (focus_chat_key c) (dec_int i) ''system''
        (set_fact (e_now_sql e) focus_current_key (dec_int i) ''system'' (w_facts w0)), w_ledger := l\<rparr>)"
    using claim_open_task [OF open1 norm assms(4)] unfolding idk1 by blast
  have fin: "res = Inr (Some k1)" "w1 = w0\<lparr>w_facts := set_fact (e_now_sql e) (focus_chat_key c) (dec_int i) ''system''
        (set_fact (e_now_sql e) focus_current_key (dec_int i) ''system'' (w_facts w0)), w_ledger := l\<rparr>"
    using assms(3-5,7) park l open1
    by (simp_all add: finalize_focus_task_def Let_def bind_res_def)
  have ext: "stored_text ''external'' = ''external''"
    by (rule stored_text_short) (simp add: runtime_text_max_chars_def)
  have ns: "strip (fa_next_step a) \<noteq> [] \<Longrightarrow> fa_next_step a \<noteq> []" by auto
  show ?thesis
    using k1 fin ext ns
    by (intro that [of k1])
      (simp_all add: facts fs.get_set step_or_none_def str_or_empty_PStr unset_if_none_def stored_text_def)
qed


lemma prepare_result:
  assumes "prepare_focus_task e msg chat w = (r, w')" "normalize_chat_id chat \<noteq> []"
  shows "case r of None \<Rightarrow> w' = w
    | Some k' \<Rightarrow> \<exists>k. resolve_focus_task w (Some (normalize_chat_id chat)) (strip msg \<noteq> []) False = Some k \<and> t_id k' = t_id k"
proof (cases "resolve_focus_task w (Some (normalize_chat_id chat)) (strip msg \<noteq> []) False")
  case None
  then show ?thesis using assms by (simp add: prepare_focus_task_def Let_def split: option.splits)
next
  case (Some k)
  then show ?thesis using assms get_task_by_id_id
    by (fastforce simp: prepare_focus_task_def Let_def split: option.splits if_splits)
qed

text \<open>The chat a task waits for is not enough: a task that was created from one chat and parked to
  wait for the user of another carries the other chat as its wait key, but no message of that other
  chat resumes it, because the source is looked at first.\<close>

theorem other_chat_never_resumes:
  assumes "world_ok w" "get_task_by_id (w_tasks w) i = Some k"
    and "normalize_chat_id chat = c" "c \<noteq> []" "length c \<le> runtime_text_max_chars"
    and "t_source k = PStr src" "length src \<le> runtime_text_max_chars"
    and "startswith (strip src) ''wechat:'' \<or> startswith (strip src) ''chat:''" "strip src \<noteq> c"
    and "should_wait_for_user a k c msg" "dict_or_empty (t_result_json k) = Inr q"
    and "finalize_focus_task e a (Some k) chat msg (w, m) = (res, w1, m1)"
  shows "\<exists>k1. get_task_by_id (w_tasks w1) i = Some k1 \<and> t_status k1 = ''waiting'' \<and> t_wait_key k1 = PStr c \<and>
     (case prepare_focus_task e' msg' chat w1 of
        (None, w2) \<Rightarrow> w2 = w1 | (Some k2, w2) \<Rightarrow> t_id k2 \<noteq> i)"
proof -
  obtain k1 where k1: "get_task_by_id (w_tasks w1) i = Some k1" "tasks_ok (w_tasks w1)"
    "t_status k1 = ''waiting''" "t_wait_key k1 = PStr (stored_text c)"
    "t_source k1 = compact_runtime_value 1 (t_source k)"
    using finalize_parks [OF assms(1-4,10-12)] by metis
  have ok: "tbl_ok (w_tasks w1)" using k1(2) by (simp add: tasks_ok_def)
  have sc: "strip c = c" using assms(3) by (auto simp: normalize_chat_id_def split: option.splits)
  have norm: "normalize_chat_id (Some c) = c" by (simp add: normalize_chat_id_def sc)
  have "t_source k1 = PStr src" using k1(5) assms(6,7) stored_text_short by (simp add: stored_text_def)
  then have "resolve_task_chat_id w1 k1 = strip src"
    using assms(8) by (simp add: resolve_task_chat_id_def Let_def split: prod.split)
  then have other: "\<not> task_matches_chat w1 k1 (Some c)"
    using assms(9) by (simp add: task_matches_chat_def norm)
  have not_i: "t_id k2 \<noteq> i" if "resolve_focus_task w1 (Some c) inc False = Some k2" for k2 inc
    using resolve_focus_Some [OF ok _ that] other k1(1) assms(4) norm by auto
  have "case prepare_focus_task e' msg' chat w1 of (None, w2) \<Rightarrow> w2 = w1 | (Some k2, w2) \<Rightarrow> t_id k2 \<noteq> i"
    using prepare_result [where e = e' and msg = msg' and chat = chat and w = w1, OF prod.collapse [symmetric]]
      assms(3,4) not_i
    by (force split: prod.split option.split)
  with k1(1,3,4) stored_text_short [OF assms(5)] show ?thesis by auto
qed

section \<open>Instances\<close>

definition focus_row :: "string \<Rightarrow> task_row" where
  "focus_row src = \<lparr>row_title = ''report'', row_status = ''in_progress'', row_priority = ''normal'',
     row_created_at = ''2024-01-01 08:00:00'', row_data = Some (PDict [(''source'', PStr src)])\<rparr>"

definition chat_world :: "string \<Rightarrow> world" where
  "chat_world src = empty_world\<lparr>w_tasks := \<lparr>seq = 1, rows = [(1, focus_row src)]\<rparr>\<rparr>"

definition chat_task :: "string \<Rightarrow> task" where
  "chat_task src = task_from_row (1, focus_row src)"

definition wait_action :: focus_action where
  "wait_action = \<lparr>fa_decision = ''wait'', fa_next_step = [], fa_reply_to_user = [], fa_rationale = [],
     fa_chosen_action_id = []\<rparr>"

lemma chat_world_ok: "world_ok (chat_world src)"
  by (simp add: world_ok_def chat_world_def empty_world_def tasks_ok_def tbl_ok_def facts_ok_def empty_tbl_def
      tbl_get_def focus_row_def column_dict_def dict_ok_def)

lemma chat_task_stored: "get_task_by_id (w_tasks (chat_world src)) 1 = Some (chat_task src)"
  by (simp add: chat_world_def get_task_by_id_def tbl_get_def chat_task_def)

lemma chat_task_fields:
  "t_source (chat_task src) = PStr src" "t_result_json (chat_task src) = PDict []"
  "t_status (chat_task src) = ''in_progress''" "t_id (chat_task src) = 1" "t_wait_kind (chat_task src) = PStr []"
  by (simp_all add: chat_task_def focus_row_def task_from_row_def column_dict_def dict_get_or_def py_or_def)

lemma wait_action_waits: "c \<noteq> [] \<Longrightarrow> should_wait_for_user wait_action (chat_task src) c []"
  by (simp add: should_wait_for_user_def wait_action_def task_is_runnable_def task_status_def chat_task_fields
      runnable_task_statuses_def strip_def lstrip_def is_space_def)

lemmas focus_eval = normalize_chat_id_def startswith_def strip_def lstrip_def is_space_def

definition after_wait :: "string \<Rightarrow> world" where
  "after_wait src = fst (snd (finalize_focus_task demo_env wait_action (Some (chat_task src)) (Some ''u1'') []
     (chat_world src, new_wm 5 0 0)))"

lemma after_wait_eq: "finalize_focus_task demo_env wait_action (Some (chat_task src)) (Some ''u1'') []
    (chat_world src, new_wm 5 0 0) = (fst (finalize_focus_task demo_env wait_action (Some (chat_task src))
    (Some ''u1'') [] (chat_world src, new_wm 5 0 0)), after_wait src, snd (snd (finalize_focus_task demo_env
    wait_action (Some (chat_task src)) (Some ''u1'') [] (chat_world src, new_wm 5 0 0))))"
  by (simp add: after_wait_def)


theorem other_chat_never_resumes_witness:
  "\<exists>k1. get_task_by_id (w_tasks (after_wait ''chat:u2'')) 1 = Some k1 \<and> t_wait_key k1 = PStr ''u1'' \<and>
     (case prepare_focus_task demo_env ''go on'' (Some ''u1'') (after_wait ''chat:u2'') of
        (None, w2) \<Rightarrow> w2 = after_wait ''chat:u2'' | (Some k2, w2) \<Rightarrow> t_id k2 \<noteq> 1)"
proof -
  have "normalize_chat_id (Some ''u1'') = ''u1''" "strip ''chat:u2'' \<noteq> ''u1''"
    "startswith (strip ''chat:u2'') ''wechat:'' \<or> startswith (strip ''chat:u2'') ''chat:''"
    by (simp_all add: focus_eval)
  then show ?thesis
    using other_chat_never_resumes [where w = "chat_world ''chat:u2''" and i = 1 and k = "chat_task ''chat:u2''"
        and chat = "Some ''u1''" and c = "''u1''" and src = "''chat:u2''" and a = wait_action and msg = "[]"
        and q = "[]" and msg' = "''go on''" and e' = demo_env and e = demo_env and m = "new_wm 5 0 0"
        and ?w1.0 = "after_wait ''chat:u2''",
        OF chat_world_ok chat_task_stored, OF _ _ _ chat_task_fields(1) _ _ _ wait_action_waits _ after_wait_eq]
    by (auto simp: chat_task_fields runtime_text_max_chars_def)
qed

lemma chat_world_open: "focus_open_tasks (chat_world src) True = [chat_task src]"
  by (simp add: focus_open_tasks_def query_open_tasks_def normalized_statuses_def open_task_statuses_def
      focus_eval chat_world_def tbl_select_def sql_limit_def focus_row_def chat_task_def Let_def)

theorem chat_gets_its_own_task_witness:
  "resolve_focus_task (chat_world ''chat:u2'') (Some ''chat:u2'') True False = Some (chat_task ''chat:u2'')"
proof -
  have "task_matches_chat (chat_world ''chat:u2'') (chat_task ''chat:u2'') (Some ''chat:u2'')"
    by (simp add: task_matches_chat_def resolve_task_chat_id_def chat_task_fields focus_eval Let_def split: prod.split)
  moreover have "k = chat_task ''chat:u2''" if "get_task_by_id (w_tasks (chat_world ''chat:u2'')) j = Some k" for j k
    using that by (auto simp: chat_world_def get_task_by_id_def tbl_get_def chat_task_def split: if_splits)
  ultimately show ?thesis
    using chat_gets_its_own_task [OF chat_world_ok [of "''chat:u2''"], of "Some ''chat:u2''" True]
    by (auto simp: chat_world_open focus_eval split: option.splits)
qed

end
