(* ===== verification/Scrubber.thy ===== *)
theory Scrubber
  imports Py
begin

text \<open>
  The text helpers of \<open>core/loop/shared/logging.py\<close>: removing \<open><memory-context>\<close> blocks from a whole
  text with a regular expression and from a stream with \<open>MemoryContextScrubber\<close>, and clipping.
\<close>

definition open_tag :: string where
  "open_tag = ''<memory-context>''"

definition close_tag :: string where
  "close_tag = ''</memory-context>''"

definition boundary :: nat where
  "boundary = length open_tag + 1"

text \<open>\<open>s.find(needle)\<close>, \<open>None\<close> for \<open>-1\<close>.\<close>

fun str_find :: "string \<Rightarrow> string \<Rightarrow> nat option" where
  "str_find needle [] = (if needle = [] then Some 0 else None)"
| "str_find needle (c # cs) = (if prefix needle (c # cs) then Some 0
     else map_option Suc (str_find needle cs))"

section \<open>The stream\<close>

record scrubber =
  sc_buf :: string
  sc_inside :: bool

definition new_scrubber :: scrubber where
  "new_scrubber = \<lparr>sc_buf = [], sc_inside = False\<rparr>"

lemma tag_lengths [simp]: "length open_tag = 16" "length close_tag = 17" "boundary = 17"
  by (simp_all add: open_tag_def close_tag_def boundary_def)

lemma str_find_bound: "str_find needle s = Some i \<Longrightarrow> i + length needle \<le> length s"
  by (induction s arbitrary: i) (auto dest: prefix_length_le split: if_splits)

text \<open>The loop of \<open>feed\<close>: what is emitted, and the buffer and flag at the end.\<close>

function feed_loop :: "bool \<Rightarrow> string \<Rightarrow> string \<times> scrubber" where
  "feed_loop True buf = (case str_find close_tag buf of
      None \<Rightarrow> ([], \<lparr>sc_buf = buf, sc_inside = True\<rparr>)
    | Some i \<Rightarrow> feed_loop False (drop (i + length close_tag) buf))"
| "feed_loop False buf = (case str_find open_tag buf of
      None \<Rightarrow> (take (length buf - boundary) buf,
               \<lparr>sc_buf = drop (length buf - boundary) buf, sc_inside = False\<rparr>)
    | Some i \<Rightarrow> (let (out, sc) = feed_loop True (drop (i + length open_tag) buf)
                in (take i buf @ out, sc)))"
  by pat_completeness auto
termination
  by (relation "measure (\<lambda>(b, s). length s)") (auto dest!: str_find_bound)

definition feed :: "string \<Rightarrow> scrubber \<Rightarrow> string \<times> scrubber" where
  "feed chunk sc = feed_loop (sc_inside sc) (sc_buf sc @ chunk)"

definition flush :: "scrubber \<Rightarrow> string \<times> scrubber" where
  "flush sc = (if sc_inside sc then [] else sc_buf sc, new_scrubber)"

fun feed_all :: "string list \<Rightarrow> scrubber \<Rightarrow> string" where
  "feed_all [] sc = fst (flush sc)"
| "feed_all (chunk # chunks) sc = (let (out, sc') = feed chunk sc in out @ feed_all chunks sc')"

section \<open>The whole text\<close>

text \<open>\<open>re.sub("<memory-context>.*?</memory-context>", "", text, flags=DOTALL)\<close>: at an opening tag with
  a closing tag after it, everything up to the first such closing tag goes.\<close>

function sub_memory_context :: "string \<Rightarrow> string" where
  "sub_memory_context [] = []"
| "sub_memory_context (c # cs) =
     (if prefix open_tag (c # cs)
      then (case str_find close_tag (drop 15 cs) of
              Some i \<Rightarrow> sub_memory_context (drop (i + 32) cs)
            | None \<Rightarrow> c # sub_memory_context cs)
      else c # sub_memory_context cs)"
  by pat_completeness auto
termination by (relation "measure length") auto

definition strip_memory_context :: "string \<Rightarrow> string" where
  "strip_memory_context s = (let t = strip (sub_memory_context s) in if t \<noteq> [] then t else strip s)"

section \<open>Clipping\<close>

definition rstrip :: "string \<Rightarrow> string" where
  "rstrip s = rev (lstrip (rev s))"

definition clip_line :: "int \<Rightarrow> string \<Rightarrow> string" where
  "clip_line limit s = (let n = nat (max 1 (if limit = 0 then 1 else limit)) in
     if length s \<le> n then s
     else if n \<le> 3 then take n s
     else rstrip (take (n - 3) s) @ ''...'')"

definition escape_newlines :: "string \<Rightarrow> string" where
  "escape_newlines s = concat (map (\<lambda>c. if of_char c = (10::nat) then [char_of (92::nat), CHR ''n''] else [c]) s)"

definition clip_reply_for_log :: "int \<Rightarrow> string \<Rightarrow> string" where
  "clip_reply_for_log limit s = clip_line limit (strip (escape_newlines (strip_memory_context s)))"

definition clip_signal_text :: "int \<Rightarrow> string \<Rightarrow> string" where
  "clip_signal_text limit s = clip_line limit (squeeze s)"

definition internal_reply_markers :: "string list" where
  "internal_reply_markers = [''Action-first'', ''fallback'', ''list index out of range'', ''not defined'']"

definition safe_reply_basis :: "string \<Rightarrow> string \<Rightarrow> string" where
  "safe_reply_basis s dflt = (let b = strip s;
       basis = (if list_ex (contains b) internal_reply_markers then [] else b)
     in clip_signal_text 120 (if basis \<noteq> [] then basis else dflt))"

section \<open>The reference\<close>

text \<open>Character by character: outside a block everything is kept, inside nothing is.\<close>

function scrub :: "bool \<Rightarrow> string \<Rightarrow> string" where
  "scrub False s = (if prefix open_tag s then scrub True (drop 16 s)
     else (case s of [] \<Rightarrow> [] | c # cs \<Rightarrow> c # scrub False cs))"
| "scrub True s = (if prefix close_tag s then scrub False (drop 17 s)
     else (case s of [] \<Rightarrow> [] | c # cs \<Rightarrow> scrub True cs))"
  by pat_completeness auto
termination by (relation "measure (\<lambda>(b, s). length s)") (auto simp: open_tag_def close_tag_def prefix_def)

declare scrub.simps [simp del] feed_loop.simps [simp del]

lemma scrub_step:
  "prefix open_tag s \<Longrightarrow> scrub False s = scrub True (drop 16 s)"
  "\<not> prefix open_tag (c # s) \<Longrightarrow> scrub False (c # s) = c # scrub False s"
  "prefix close_tag s \<Longrightarrow> scrub True s = scrub False (drop 17 s)"
  "\<not> prefix close_tag (c # s) \<Longrightarrow> scrub True (c # s) = scrub True s"
  by (subst scrub.simps, simp)+

lemma scrub_Nil [simp]: "scrub b [] = []"
  by (cases b) (simp_all add: scrub.simps open_tag_def close_tag_def)

text \<open>Searching and scanning.\<close>

lemma scrub_outside_find:
  "str_find open_tag s = Some i \<Longrightarrow> scrub False (s @ r) = take i s @ scrub True (drop (i + 16) s @ r)"
proof (induction s arbitrary: i)
  case Nil
  then show ?case by (simp add: open_tag_def)
next
  case (Cons c s)
  show ?case
  proof (cases "prefix open_tag (c # s)")
    case True
    with Cons.prems have "i = 0" by simp
    moreover have "prefix open_tag ((c # s) @ r)" using True by (rule prefix_prefix)
    moreover have "16 \<le> length (c # s)" using True prefix_length_le by fastforce
    ultimately show ?thesis by (simp add: scrub_step(1))
  next
    case False
    with Cons.prems obtain j where j: "i = Suc j" "str_find open_tag s = Some j"
      by (auto split: if_splits)
    have "\<not> prefix open_tag ((c # s) @ r)"
    proof
      assume "prefix open_tag ((c # s) @ r)"
      moreover have "length open_tag \<le> length (c # s)" using str_find_bound [OF j(2)] by simp
      ultimately have "prefix open_tag (c # s)" by (metis prefix_length_prefix prefixI)
      with False show False by simp
    qed
    moreover have "take i (c # s) = c # take j s" "drop (i + 16) (c # s) = drop (j + 16) s"
      by (simp_all only: j(1) add_Suc drop_Suc_Cons take_Suc_Cons)
    ultimately show ?thesis using Cons.IH [OF j(2)] by (simp add: scrub_step(2))
  qed
qed

lemma scrub_inside_find:
  "str_find close_tag s = Some i \<Longrightarrow> scrub True (s @ r) = scrub False (drop (i + 17) s @ r)"
proof (induction s arbitrary: i)
  case Nil
  then show ?case by (simp add: close_tag_def)
next
  case (Cons c s)
  show ?case
  proof (cases "prefix close_tag (c # s)")
    case True
    with Cons.prems have "i = 0" by simp
    moreover have "prefix close_tag ((c # s) @ r)" using True by (rule prefix_prefix)
    moreover have "17 \<le> length (c # s)" using True prefix_length_le by fastforce
    ultimately show ?thesis by (simp add: scrub_step(3))
  next
    case False
    with Cons.prems obtain j where j: "i = Suc j" "str_find close_tag s = Some j"
      by (auto split: if_splits)
    have "\<not> prefix close_tag ((c # s) @ r)"
    proof
      assume "prefix close_tag ((c # s) @ r)"
      moreover have "length close_tag \<le> length (c # s)" using str_find_bound [OF j(2)] by simp
      ultimately have "prefix close_tag (c # s)" by (metis prefix_length_prefix prefixI)
      with False show False by simp
    qed
    moreover have "drop (i + 17) (c # s) = drop (j + 17) s"
      by (simp only: j(1) add_Suc drop_Suc_Cons)
    ultimately show ?thesis using Cons.IH [OF j(2)] by (simp add: scrub_step(4))
  qed
qed

lemma find_none_prefix:
  "str_find needle s = None \<Longrightarrow> \<not> prefix needle (drop i s)"
proof (induction s arbitrary: i)
  case (Cons c s)
  then show ?case by (cases i) (auto split: if_splits)
qed (simp split: if_splits)

text \<open>A text without an opening tag is kept up to the last sixteen characters, whatever follows.\<close>

lemma scrub_outside_none:
  assumes "str_find open_tag s = None" "n + 16 \<le> Suc (length s) \<or> n = 0"
  shows "scrub False (s @ r) = take n s @ scrub False (drop n s @ r)"
  using assms
proof (induction n arbitrary: s)
  case (Suc n)
  then obtain c s' where s: "s = c # s'" by (cases s) auto
  have "\<not> prefix open_tag (s @ r)"
  proof
    assume "prefix open_tag (s @ r)"
    moreover have "length open_tag \<le> length s" using Suc.prems(2) by simp
    ultimately have "prefix open_tag s" by (metis prefix_length_prefix prefixI)
    then show False using find_none_prefix [OF Suc.prems(1), of 0] by simp
  qed
  moreover have "str_find open_tag s' = None" using Suc.prems(1) s by (auto split: if_splits)
  ultimately show ?case using Suc.IH [of s'] Suc.prems(2) s by (simp add: scrub_step(2))
qed simp

lemma feed_loop_scrub:
  "feed_loop b buf = (out, sc) \<Longrightarrow> scrub b (buf @ r) = out @ scrub (sc_inside sc) (sc_buf sc @ r)"
proof (induction b buf arbitrary: out sc rule: feed_loop.induct)
  case (1 buf)
  show ?case
  proof (cases "str_find close_tag buf")
    case None
    with 1(2) show ?thesis by (auto simp: feed_loop.simps(1))
  next
    case (Some i)
    with 1(2) have "feed_loop False (drop (i + 17) buf) = (out, sc)" by (simp add: feed_loop.simps(1))
    with 1(1) [OF Some] scrub_inside_find [OF Some] show ?thesis by simp
  qed
next
  case (2 buf)
  show ?case
  proof (cases "str_find open_tag buf")
    case None
    with 2(2) have "out = take (length buf - 17) buf"
      "sc = \<lparr>sc_buf = drop (length buf - 17) buf, sc_inside = False\<rparr>"
      by (auto simp: feed_loop.simps(2))
    moreover have "length buf - 17 + 16 \<le> Suc (length buf) \<or> length buf - 17 = 0" by linarith
    ultimately show ?thesis using scrub_outside_none [OF None, of "length buf - 17" r] by simp
  next
    case (Some i)
    obtain o1 sc1 where f: "feed_loop True (drop (i + 16) buf) = (o1, sc1)" by fastforce
    with 2(2) Some have "out = take i buf @ o1" "sc = sc1" by (auto simp: feed_loop.simps(2))
    with 2(1) [OF Some] f scrub_outside_find [OF Some, of r] show ?thesis by simp
  qed
qed

text \<open>Between two chunks no complete tag waits in the buffer.\<close>

definition settled :: "scrubber \<Rightarrow> bool" where
  "settled sc \<longleftrightarrow> str_find (if sc_inside sc then close_tag else open_tag) (sc_buf sc) = None"

lemma find_none_drop: "str_find needle s = None \<Longrightarrow> str_find needle (drop n s) = None"
proof (induction s arbitrary: n)
  case (Cons c s)
  then show ?case by (cases n) (auto split: if_splits)
qed simp

lemma feed_loop_settled: "feed_loop b buf = (out, sc) \<Longrightarrow> settled sc"
proof (induction b buf arbitrary: out sc rule: feed_loop.induct)
  case (1 buf)
  show ?case
  proof (cases "str_find close_tag buf")
    case None
    with 1(2) show ?thesis by (auto simp: feed_loop.simps(1) settled_def)
  next
    case (Some i)
    with 1(2) have "feed_loop False (drop (i + 17) buf) = (out, sc)" by (simp add: feed_loop.simps(1))
    with 1(1) [OF Some] show ?thesis by simp
  qed
next
  case (2 buf)
  show ?case
  proof (cases "str_find open_tag buf")
    case None
    with 2(2) show ?thesis by (auto simp: feed_loop.simps(2) settled_def find_none_drop)
  next
    case (Some i)
    obtain o1 sc1 where f: "feed_loop True (drop (i + 16) buf) = (o1, sc1)" by fastforce
    with 2(2) Some have "sc = sc1" by (simp add: feed_loop.simps(2))
    with 2(1) [OF Some] f show ?thesis by simp
  qed
qed

lemma scrub_settled:
  assumes "settled sc"
  shows "scrub (sc_inside sc) (sc_buf sc) = fst (flush sc)"
proof (cases "sc_inside sc")
  case True
  have "str_find close_tag s = None \<Longrightarrow> scrub True s = []" for s
    by (induction s) (auto simp: scrub_step(4) split: if_splits)
  then show ?thesis using True assms by (simp add: settled_def flush_def)
next
  case False
  have "str_find open_tag s = None \<Longrightarrow> scrub False s = s" for s
    by (induction s) (auto simp: scrub_step(2) split: if_splits)
  then show ?thesis using False assms by (simp add: settled_def flush_def)
qed

lemma feed_all_scrub: "settled sc \<Longrightarrow> feed_all chunks sc = scrub (sc_inside sc) (sc_buf sc @ concat chunks)"
proof (induction chunks arbitrary: sc)
  case Nil
  then show ?case by (simp add: scrub_settled)
next
  case (Cons chunk chunks)
  obtain out sc' where f: "feed_loop (sc_inside sc) (sc_buf sc @ chunk) = (out, sc')" by fastforce
  from Cons.IH [OF feed_loop_settled [OF f]] feed_loop_scrub [OF f, of "concat chunks"]
  show ?case by (simp add: feed_def f)
qed

section \<open>Stream and whole text agree\<close>

text \<open>Whether the text ends within a block.\<close>

function ends_inside :: "bool \<Rightarrow> string \<Rightarrow> bool" where
  "ends_inside False s = (if prefix open_tag s then ends_inside True (drop 16 s)
     else (case s of [] \<Rightarrow> False | c # cs \<Rightarrow> ends_inside False cs))"
| "ends_inside True s = (if prefix close_tag s then ends_inside False (drop 17 s)
     else (case s of [] \<Rightarrow> True | c # cs \<Rightarrow> ends_inside True cs))"
  by pat_completeness auto
termination by (relation "measure (\<lambda>(b, s). length s)") (auto simp: open_tag_def close_tag_def prefix_def)

declare ends_inside.simps [simp del]

lemma ends_inside_none: "str_find close_tag s = None \<Longrightarrow> ends_inside True s"
  by (induction s) (auto simp: ends_inside.simps(2) close_tag_def split: if_splits)

lemma ends_inside_find: "str_find close_tag s = Some i \<Longrightarrow> ends_inside True s = ends_inside False (drop (i + 17) s)"
proof (induction s arbitrary: i)
  case Nil
  then show ?case by (simp add: close_tag_def)
next
  case (Cons c s)
  show ?case
  proof (cases "prefix close_tag (c # s)")
    case True
    with Cons.prems show ?thesis by (simp add: ends_inside.simps(2))
  next
    case False
    with Cons.prems obtain j where j: "i = Suc j" "str_find close_tag s = Some j" by (auto split: if_splits)
    moreover have "drop (i + 17) (c # s) = drop (j + 17) s"
      by (simp only: j(1) add_Suc drop_Suc_Cons)
    ultimately show ?thesis using Cons.IH [OF j(2)] False by (simp add: ends_inside.simps(2))
  qed
qed

lemma sub_scrub: "\<not> ends_inside False s \<Longrightarrow> sub_memory_context s = scrub False s"
proof (induction "length s" arbitrary: s rule: less_induct)
  case less
  show ?case
  proof (cases s)
    case (Cons c cs)
    show ?thesis
    proof (cases "prefix open_tag s")
      case True
      have t: "drop 16 s = drop 15 cs" by (simp add: Cons)
      have inside: "\<not> ends_inside True (drop 15 cs)"
        using less.prems True t by (simp add: ends_inside.simps(1))
      then obtain i where i: "str_find close_tag (drop 15 cs) = Some i"
        using ends_inside_none by (cases "str_find close_tag (drop 15 cs)") auto
      have d: "drop (i + 17) (drop 15 cs) = drop (i + 32) cs" by (simp add: add.commute)
      have "\<not> ends_inside False (drop (i + 32) cs)" using inside ends_inside_find [OF i] d by simp
      then have "sub_memory_context (drop (i + 32) cs) = scrub False (drop (i + 32) cs)"
        by (intro less.hyps) (simp_all add: Cons)
      moreover have "scrub True (drop 15 cs) = scrub False (drop (i + 32) cs)"
        using scrub_inside_find [OF i, of "[]"] d by simp
      ultimately show ?thesis using True i scrub_step(1) [OF True] t by (simp add: Cons)
    next
      case False
      then have "\<not> ends_inside False cs" using less.prems by (simp add: Cons ends_inside.simps(1))
      then have "sub_memory_context cs = scrub False cs" by (intro less.hyps) (simp_all add: Cons)
      then show ?thesis using False scrub_step(2) [of c cs] by (simp add: Cons)
    qed
  qed simp
qed

text \<open>The streaming scrubber removes exactly the blocks the scan of the whole text removes, however
  the text is cut into chunks, tags cut in two included.\<close>

theorem scrubber_any_chunks:
  "feed_all chunks new_scrubber = scrub False (concat chunks)"
  using feed_all_scrub [of new_scrubber chunks] by (simp add: settled_def new_scrubber_def open_tag_def)


lemma demo_closed: "\<not> ends_inside False (concat [''a<mem'', ''ory-context>x</memory-con'', ''text>b''])"
  by (simp add: ends_inside.simps open_tag_def close_tag_def)


text \<open>What is left of a block within a tag is a tag again.\<close>

lemma scrub_leaves_tag: "scrub False (take 8 open_tag @ open_tag @ close_tag @ drop 8 open_tag) = open_tag"
  by (simp add: scrub.simps open_tag_def close_tag_def)

end
