(* ===== verification/Chat_Turn.thy ===== *)
theory Chat_Turn
  imports Focus_Contract Chat_Store Scrubber
begin

text \<open>
  \<open>core/loop/cycle/chat.py\<close>: the driver takes a pending user message, merges what the same chat sent
  after it, and hands the turn to the dispatcher, or runs the tick itself when there is none. A turn
  is a sequence of stages; each stage is what runs between two suspension points of the coroutine.
  The tick is an argument. The delay before a merge and the log lines are left out.
\<close>

section \<open>Binding a chat and answering in it\<close>

definition last_chat_key :: string where
  "last_chat_key = ''chat:last_chat_id''"

definition bind_fact :: "env \<Rightarrow> string \<Rightarrow> string \<Rightarrow> string \<Rightarrow> unit io" where
  "bind_fact e key value scope w = (let (r, w') = submit_fact e key (PStr value) scope ''loop/chat/bind'' 0 [] w
     in (bind_res r (\<lambda>b. Inr ()), w'))"

definition bind_chat_id :: "env \<Rightarrow> task option \<Rightarrow> string option \<Rightarrow> unit io" where
  "bind_chat_id e k chat w = (let c = normalize_chat_id chat in
     if c = [] then (Inr (), w)
     else io_then (bind_fact e last_chat_key c ''system'')
       (case k of None \<Rightarrow> io_skip | Some k \<Rightarrow> bind_fact e (task_chat_key k) c ''task'') w)"

definition resolve_reply_chat_id :: "world \<Rightarrow> task option \<Rightarrow> string option \<Rightarrow> string option" where
  "resolve_reply_chat_id w k chat = (case chat of
      Some c \<Rightarrow> Some (strip c)
    | None \<Rightarrow> (let mine = (case k of None \<Rightarrow> [] | Some k \<Rightarrow> resolve_task_chat_id w k);
                  (last, found) = get_fact (w_facts w) last_chat_key
              in if mine \<noteq> [] then Some mine
                 else if found \<and> strip last \<noteq> [] then Some (strip last) else None))"

section \<open>The stages of a turn\<close>

datatype stage = Idle | Selected int chat_row | Popped int string string
  | Drained int string string "(int \<times> chat_row) list" | Ready "int list" string string
  | Direct "int list" string string

definition turn_select :: "chats \<Rightarrow> stage" where
  "turn_select t = (case pop_select t of None \<Rightarrow> Idle | Some (i, r) \<Rightarrow> Selected i r)"

text \<open>\<open>[msg_id] if msg_id else []\<close>.\<close>

definition reserved :: "int \<Rightarrow> int list" where
  "reserved i = (if i \<noteq> 0 then [i] else [])"

definition turn_claim :: "int \<Rightarrow> chat_row \<Rightarrow> chats \<Rightarrow> stage \<times> chats" where
  "turn_claim i r t = (case pop_claim (Some (i, r)) t of
      (None, t') \<Rightarrow> (Idle, t')
    | (Some (j, content, chat), t') \<Rightarrow>
        (if chat \<noteq> [] then Popped j content chat else Ready (reserved j) content chat, t'))"

definition merge_message :: "string \<Rightarrow> (int \<times> string) list \<Rightarrow> string" where
  "merge_message m later = (if later = [] then m else strip (m @ [nl] @ join [nl] (map snd later)))"

definition turn_drain :: "int \<Rightarrow> string \<Rightarrow> string \<Rightarrow> (int \<times> chat_row) list \<Rightarrow> chats \<Rightarrow> stage \<times> chats" where
  "turn_drain i m chat sel t = (let (later, t') = drain_claim sel t in
     (Ready (reserved i @ filter (\<lambda>j. 0 < j) (map fst later)) (merge_message m later) chat, t'))"

text \<open>Handing the turn over: the stage, the messages and the dispatcher after it, and the cycle to
  return when it was accepted. \<open>n\<close> counts the dispatch cycles.\<close>

definition turn_dispatch ::
    "world \<Rightarrow> int \<Rightarrow> int list \<Rightarrow> string \<Rightarrow> string \<Rightarrow> chats \<Rightarrow> disp option \<Rightarrow>
     stage \<times> chats \<times> disp option \<times> int option" where
  "turn_dispatch w n ids m chat t od =
    (if \<not> ds_enabled (tick_dispatcher_state od) then (Direct ids m chat, t, od, None)
     else (let (r, od') = try_dispatch_tick_job w n ''chat'' m (Some chat) ids True False od
           in if dr_accepted r then (Idle, t, od', Some (dc_cycle (dr_context r)))
              else if dr_can_retry r then (Idle, release_messages ids t, od', None)
              else (Direct ids m chat, t, od', None)))"

text \<open>The tick run by the driver itself: the messages are released when it raises. A turn without a
  reply gets the placeholder text.\<close>

definition turn_direct ::
    "string \<Rightarrow> string \<Rightarrow> string \<Rightarrow> int list \<Rightarrow> string \<Rightarrow> string res \<Rightarrow> chats \<Rightarrow> unit res \<times> chats" where
  "turn_direct now cutoff placeholder ids chat reply t = (case reply of
      Inl x \<Rightarrow> (Inl x, release_messages ids t)
    | Inr text \<Rightarrow> (let t' = mark_messages_processed ids t; shown = (if text \<noteq> [] then strip_memory_context text else [])
        in (Inr (), if shown = [] then snd (add_message now cutoff ''assistant'' placeholder chat t') else t')))"

section \<open>The whole turn\<close>

record turn_state =
  ts_world :: world
  ts_chats :: chats
  ts_disp :: "disp option"
  ts_cycles :: int

text \<open>The next cycle and whether a message was handled. \<open>tick\<close> runs the tick of the direct path.\<close>

definition finish_turn ::
    "(int \<Rightarrow> string \<Rightarrow> string \<Rightarrow> turn_state \<Rightarrow> string res \<times> turn_state) \<Rightarrow> string \<Rightarrow> string \<Rightarrow> string \<Rightarrow> int \<Rightarrow>
     stage \<Rightarrow> turn_state \<Rightarrow> (int \<times> bool) res \<times> turn_state" where
  "finish_turn tick now cutoff placeholder cycle st s = (case st of
      Ready ids m chat \<Rightarrow>
       (case turn_dispatch (ts_world s) (ts_cycles s) ids m chat (ts_chats s) (ts_disp s) of
          (Direct ids m chat, t, od, c) \<Rightarrow>
            (let (reply, s') = tick (cycle + 1) m chat (s\<lparr>ts_chats := t, ts_disp := od\<rparr>);
                 (r, t') = turn_direct now cutoff placeholder ids chat reply (ts_chats s')
             in (bind_res r (\<lambda>u. Inr (cycle + 1, True)), s'\<lparr>ts_chats := t'\<rparr>))
        | (st', t, od, c) \<Rightarrow>
            (Inr (case c of Some n \<Rightarrow> n | None \<Rightarrow> cycle, True),
             s\<lparr>ts_chats := t, ts_disp := od, ts_cycles := ts_cycles s + 1\<rparr>))
    | _ \<Rightarrow> (Inr (cycle, False), s))"

definition process_pending_chat_turn ::
    "(int \<Rightarrow> string \<Rightarrow> string \<Rightarrow> turn_state \<Rightarrow> string res \<times> turn_state) \<Rightarrow> string \<Rightarrow> string \<Rightarrow> string \<Rightarrow> int \<Rightarrow>
     turn_state \<Rightarrow> (int \<times> bool) res \<times> turn_state" where
  "process_pending_chat_turn tick now cutoff placeholder cycle s =
    (if \<not> ds_can_accept (tick_dispatcher_state (ts_disp s)) then (Inr (cycle, False), s)
     else (case turn_select (ts_chats s) of
        Selected i r \<Rightarrow>
         (let (st, t) = turn_claim i r (ts_chats s);
              (st', t') = (case st of
                 Popped j m chat \<Rightarrow> turn_drain j m chat (drain_select chat j t) t
               | _ \<Rightarrow> (st, t))
          in finish_turn tick now cutoff placeholder cycle st' (s\<lparr>ts_chats := t'\<rparr>))
      | _ \<Rightarrow> (Inr (cycle, False), s)))"

lemma turn_drain_ready: "\<exists>ids m' t'. turn_drain j m c sel t = (Ready ids m' c, t')"
  by (cases "drain_claim sel t") (simp add: turn_drain_def)

lemma process_turn_selected:
  assumes "ds_can_accept (tick_dispatcher_state (ts_disp s))" "turn_select (ts_chats s) = Selected i q"
    and "turn_claim i q (ts_chats s) = (st, t)"
  shows "process_pending_chat_turn tick now cutoff ph cycle s =
    (let x = (case st of Popped j m chat \<Rightarrow> turn_drain j m chat (drain_select chat j t) t | _ \<Rightarrow> (st, t))
     in finish_turn tick now cutoff ph cycle (fst x) (s\<lparr>ts_chats := snd x\<rparr>))"
  unfolding process_pending_chat_turn_def assms(2)
  by (simp only: assms not_True_eq_False if_False stage.case Let_def prod.case) (simp add: case_prod_beta)

section \<open>The reply goes where the chat was bound\<close>

lemma bind_fact_effect:
  "\<exists>l. bind_fact e key v sc w = (Inr (), w\<lparr>w_facts := set_fact (e_now_sql e) key v sc (w_facts w), w_ledger := l\<rparr>)"
  by (simp add: bind_fact_def submit_fact_def submit_def apply_state_write_def apply_fact_write_def
      bind_res_def append_lifecycle_ledger_def)
    (simp add: build_proposal_def; blast)

lemma last_chat_key_differs [simp]: "last_chat_key \<noteq> task_chat_key k" "task_chat_key k \<noteq> last_chat_key"
  by (simp_all add: last_chat_key_def task_chat_key_def)

lemma plain_fact_text:
  assumes "json_loads c = None" "length c \<le> runtime_text_max_chars"
  shows "compact_runtime_json_text label c = c"
  using assms by (simp add: compact_runtime_json_text_def)



end
