(* ===== verification/Chain_Run.thy ===== *)
theory Chain_Run
  imports Chat_Turn
begin

text \<open>
  \<open>core/loop/runtime/chain.py\<close>: a dispatched tick runs on the state of its chain. Working memory,
  emotion, organs and the two deques are objects that the chain and the view of the running tick
  share, so what a tick does to them lasts even when it raises; the plain fields are written back only
  when it returns. The loop then mirrors the fields of the chain that finished last, and its deques
  are that chain's deques (\<open>ls_deques_of\<close>), while its emotion is a copy.
\<close>

section \<open>State\<close>

text \<open>The plain fields of \<open>ChainState\<close>, in its order. \<open>float | None\<close> gaps are rational numbers.\<close>

record chain_vars =
  cv_last_next_step :: string
  cv_last_decision :: string
  cv_last_act_progressful :: bool
  cv_last_act_progress_reason :: string
  cv_last_action_tool :: string
  cv_last_action_key :: string
  cv_last_action_status :: string
  cv_last_action_summary :: string
  cv_last_action_error :: string
  cv_last_action_state_delta :: string
  cv_success_stall_task_id :: "string option"
  cv_success_stall_streak :: int
  cv_last_action_sig :: string
  cv_last_result_fp :: string
  cv_idle_cycles :: int
  cv_last_curiosity_signal_idle_cycle :: int
  cv_ticks_since_judge :: int
  cv_pending_tier :: "string option"
  cv_pending_idle_gap :: "rat option"
  cv_pending_routing_overrides :: "dict option"
  cv_pending_thinking_override :: "string option"

definition initial_vars :: chain_vars where
  "initial_vars = \<lparr>cv_last_next_step = [], cv_last_decision = ''wait'', cv_last_act_progressful = False,
     cv_last_act_progress_reason = [], cv_last_action_tool = [], cv_last_action_key = [],
     cv_last_action_status = [], cv_last_action_summary = [], cv_last_action_error = [],
     cv_last_action_state_delta = [], cv_success_stall_task_id = None, cv_success_stall_streak = 0,
     cv_last_action_sig = [], cv_last_result_fp = [], cv_idle_cycles = 0,
     cv_last_curiosity_signal_idle_cycle = 0, cv_ticks_since_judge = 0, cv_pending_tier = None,
     cv_pending_idle_gap = None, cv_pending_routing_overrides = None, cv_pending_thinking_override = None\<rparr>"

text \<open>\<open>'e\<close> is the emotion, \<open>'o\<close> the perception, behaviour and judgment organs of a chain.\<close>

record ('e, 'o) chain =
  ch_wm :: wm
  ch_emotion :: 'e
  ch_organs :: 'o
  ch_feedback :: "string list"
  ch_conv :: "(string \<times> string) list"
  ch_vars :: chain_vars

record ('e, 'o) loop_state =
  ls_chains :: "(string \<times> ('e, 'o) chain) list"
  ls_emotion :: 'e
  ls_vars :: chain_vars
  ls_feedback :: "string list"
  ls_deques_of :: "string option"

section \<open>Creating, mounting, writing back\<close>

text \<open>The recent feedback the loop sees: its own deque, or the one of the chain it mirrors.\<close>

definition loop_feedback :: "('e, 'o) loop_state \<Rightarrow> string list" where
  "loop_feedback l = (case ls_deques_of l of
      None \<Rightarrow> ls_feedback l
    | Some key \<Rightarrow> (case map_of (ls_chains l) key of None \<Rightarrow> ls_feedback l | Some c \<Rightarrow> ch_feedback c))"

definition new_chain_runtime_state :: "wm \<Rightarrow> 'o \<Rightarrow> ('e, 'o) loop_state \<Rightarrow> ('e, 'o) chain" where
  "new_chain_runtime_state empty_wm organs l = \<lparr>ch_wm = empty_wm, ch_emotion = ls_emotion l,
     ch_organs = organs, ch_feedback = loop_feedback l, ch_conv = [], ch_vars = ls_vars l\<rparr>"

definition sync_chain_state :: "string \<Rightarrow> ('e, 'o) chain \<Rightarrow> ('e, 'o) loop_state \<Rightarrow> ('e, 'o) loop_state" where
  "sync_chain_state key v l = l\<lparr>ls_chains := AList.update key v (ls_chains l), ls_vars := ch_vars v,
     ls_deques_of := Some key, ls_emotion := ch_emotion v\<rparr>"

text \<open>What a raised tick leaves: the shared objects as it left them, the plain fields as they were.\<close>

definition keep_vars :: "('e, 'o) chain \<Rightarrow> ('e, 'o) chain \<Rightarrow> ('e, 'o) chain" where
  "keep_vars before after = after\<lparr>ch_vars := ch_vars before\<rparr>"

datatype outcome = Returned | Raised | Cancelled

definition chain_of :: "wm \<Rightarrow> 'o \<Rightarrow> string \<Rightarrow> ('e, 'o) loop_state \<Rightarrow> ('e, 'o) chain" where
  "chain_of empty_wm organs key l = (case map_of (ls_chains l) key of
      Some c \<Rightarrow> c | None \<Rightarrow> new_chain_runtime_state empty_wm organs l)"

text \<open>The chat messages of the job: processed when the tick returned, released when it raised. When the
  guard cancels the job, \<open>CancelledError\<close> is no \<open>Exception\<close> and neither happens.\<close>

definition settle_messages :: "outcome \<Rightarrow> int list \<Rightarrow> chats \<Rightarrow> chats" where
  "settle_messages out ids t = (if ids = [] then t
     else (case out of Returned \<Rightarrow> mark_messages_processed ids t
       | Raised \<Rightarrow> release_messages ids t | Cancelled \<Rightarrow> t))"

text \<open>\<open>tick\<close> maps the mounted chain to its outcome and the chain as the tick leaves it.\<close>

definition run_dispatched_tick ::
    "(tick_job \<Rightarrow> ('e, 'o) chain \<Rightarrow> outcome \<times> ('e, 'o) chain) \<Rightarrow> wm \<Rightarrow> 'o \<Rightarrow> tick_job \<Rightarrow>
     ('e, 'o) loop_state \<times> chats \<Rightarrow> outcome \<times> ('e, 'o) loop_state \<times> chats" where
  "run_dispatched_tick tick empty_wm organs j s = (let (l, t) = s; key = j_chain_key j;
       c = chain_of empty_wm organs key l; (out, v) = tick j c
     in (out, (case out of
          Returned \<Rightarrow> sync_chain_state key v l
        | _ \<Rightarrow> l\<lparr>ls_chains := AList.update key (keep_vars c v) (ls_chains l)\<rparr>),
        settle_messages out (j_chat_message_ids j) t))"

section \<open>What a chain keeps to itself\<close>

lemma chain_after_run:
  "run_dispatched_tick tick empty_wm organs j (l, t) = (out, l', t') \<Longrightarrow>
   map_of (ls_chains l') key = (if key = j_chain_key j
     then Some (let c = chain_of empty_wm organs key l; v = snd (tick j c)
                in if out = Returned then v else keep_vars c v)
     else map_of (ls_chains l) key)"
  by (auto simp: run_dispatched_tick_def sync_chain_state_def update_conv' Let_def
      split: prod.splits outcome.splits)


definition demo_loop :: "(nat, unit) loop_state" where
  "demo_loop = \<lparr>ls_chains = [], ls_emotion = 0, ls_vars = initial_vars, ls_feedback = [],
     ls_deques_of = None\<rparr>"

definition demo_tick :: "tick_job \<Rightarrow> (nat, unit) chain \<Rightarrow> outcome \<times> (nat, unit) chain" where
  "demo_tick j c = (Returned, c\<lparr>ch_emotion := 7, ch_conv := [(''hi'', ''hello'')],
     ch_feedback := [''done''], ch_vars := (ch_vars c)\<lparr>cv_idle_cycles := 3\<rparr>\<rparr>)"


end
