(* ===== verification/Message_Life.thy ===== *)
theory Message_Life
  imports Chain_Run
begin

text \<open>
  The life of a user message through the components: the ingress stores it as pending, the driver
  (\<open>cycle/chat.py\<close>) takes it and hands it to the dispatcher as part of a job, a worker runs the job
  (\<open>runtime/chain.py\<close>) and settles its messages. The steps of the driver, of the workers and of everyone
  who writes messages interleave freely between their suspension points. A turn may also fail with an
  exception of the store in the middle, and the guard may cancel a job; the messages this leaves
  behind are recorded in the ghost field \<open>lf_lost\<close>, which no step reads.
\<close>

record life =
  lf_chats :: chats
  lf_disp :: disp
  lf_stage :: stage
  lf_lost :: "int list"

fun stage_ids :: "stage \<Rightarrow> int list" where
  "stage_ids (Popped i m c) = reserved i"
| "stage_ids (Drained i m c sel) = reserved i"
| "stage_ids (Ready ids m c) = ids"
| "stage_ids (Direct ids m c) = ids"
| "stage_ids st = []"

text \<open>A process that starts: messages left in processing are pending again, nobody holds one.\<close>

definition start_life :: "int \<Rightarrow> int \<Rightarrow> chats \<Rightarrow> life" where
  "start_life mc mq t = \<lparr>lf_chats = recover_processing t, lf_disp = new_dispatcher mc mq, lf_stage = Idle, lf_lost = []\<rparr>"

definition settled_job :: "outcome \<Rightarrow> tick_job \<Rightarrow> string \<Rightarrow> life \<Rightarrow> life" where
  "settled_job out j c l = l\<lparr>lf_chats := settle_messages out (j_chat_message_ids j) (lf_chats l),
     lf_disp := worker_finish c (lf_disp l),
     lf_lost := (if out = Cancelled then j_chat_message_ids j @ lf_lost l else lf_lost l)\<rparr>"

inductive life_step :: "life \<Rightarrow> life \<Rightarrow> bool" where
  life_ingest: "life_step l (l\<lparr>lf_chats := snd (ingest_message now role content chat ''pending'' (lf_chats l))\<rparr>)"
| life_answer: "life_step l (l\<lparr>lf_chats := snd (add_message now cutoff role content chat (lf_chats l))\<rparr>)"
| life_delivered: "\<forall>r. tbl_get (lf_chats l) i = Some r \<longrightarrow> crow_role r \<noteq> ''user'' \<Longrightarrow>
    life_step l (l\<lparr>lf_chats := mark_chat_message_delivered i (lf_chats l)\<rparr>)"
| life_select: "lf_stage l = Idle \<Longrightarrow> can_accept (lf_disp l) \<Longrightarrow>
    life_step l (l\<lparr>lf_stage := turn_select (lf_chats l)\<rparr>)"
| life_claim: "lf_stage l = Selected i r \<Longrightarrow> turn_claim i r (lf_chats l) = (st, t) \<Longrightarrow>
    life_step l (l\<lparr>lf_stage := st, lf_chats := t\<rparr>)"
| life_followups: "lf_stage l = Popped i m c \<Longrightarrow>
    life_step l (l\<lparr>lf_stage := Drained i m c (drain_select c i (lf_chats l))\<rparr>)"
| life_drain: "lf_stage l = Drained i m c sel \<Longrightarrow> turn_drain i m c sel (lf_chats l) = (st, t) \<Longrightarrow>
    life_step l (l\<lparr>lf_stage := st, lf_chats := t\<rparr>)"
| life_dispatch: "lf_stage l = Ready ids m c \<Longrightarrow>
    turn_dispatch w n ids m c (lf_chats l) (Some (lf_disp l)) = (st, t, Some d, r) \<Longrightarrow>
    life_step l (l\<lparr>lf_stage := st, lf_chats := t, lf_disp := d\<rparr>)"
| life_direct: "lf_stage l = Direct ids m c \<Longrightarrow>
    life_step l (l\<lparr>lf_stage := Idle, lf_chats := snd (turn_direct now cutoff ph ids c reply (lf_chats l))\<rparr>)"
| life_fail: "life_step l (l\<lparr>lf_stage := Idle, lf_lost := stage_ids (lf_stage l) @ lf_lost l\<rparr>)"
| life_auto: "j_chat_message_ids j = [] \<Longrightarrow> life_step l (l\<lparr>lf_disp := snd (enqueue j (lf_disp l))\<rparr>)"
| life_next: "life_step l (l\<lparr>lf_disp := worker_next c (lf_disp l)\<rparr>)"
| life_acquire: "life_step l (l\<lparr>lf_disp := worker_acquire c (lf_disp l)\<rparr>)"
| life_finish: "worker_of (lf_disp l) c = Some (Running j) \<Longrightarrow> life_step l (settled_job out j c l)"

inductive_cases life_stepE: "life_step l l'"

section \<open>Who holds a message\<close>

text \<open>\<open>None\<close> is the driver, \<open>Some c\<close> the jobs of chain \<open>c\<close>, queued or in the hand of its worker.\<close>

definition job_ids :: "disp \<Rightarrow> string \<Rightarrow> int list" where
  "job_ids d c = concat (map j_chat_message_ids (in_hand d c @ queue_of d c))"

definition holds :: "life \<Rightarrow> string option \<Rightarrow> int list" where
  "holds l h = (case h of None \<Rightarrow> stage_ids (lf_stage l) | Some c \<Rightarrow> job_ids (lf_disp l) c)"

text \<open>Every message at one place, once.\<close>

definition owned :: "('h \<Rightarrow> int list) \<Rightarrow> bool" where
  "owned f \<longleftrightarrow> (\<forall>h. distinct (f h)) \<and> (\<forall>h h' i. i \<in> set (f h) \<longrightarrow> i \<in> set (f h') \<longrightarrow> h = h')"

lemma owned_distinct: "owned f \<Longrightarrow> distinct (f h)"
  by (simp add: owned_def)

lemma owned_unique: "owned f \<Longrightarrow> i \<in> set (f h) \<Longrightarrow> i \<in> set (f h') \<Longrightarrow> h = h'"
  unfolding owned_def by blast

lemma ownedI:
  "(\<And>h. distinct (f h)) \<Longrightarrow> (\<And>h h' i. i \<in> set (f h) \<Longrightarrow> i \<in> set (f h') \<Longrightarrow> h = h') \<Longrightarrow> owned f"
  unfolding owned_def by blast

lemma owned_shrink:
  assumes "owned f" "\<And>h. distinct (g h)" "\<And>h. set (g h) \<subseteq> set (f h)"
  shows "owned g"
proof (rule ownedI [OF assms(2)])
  fix h h' i assume "i \<in> set (g h)" "i \<in> set (g h')"
  then show "h = h'" using assms(3) by (intro owned_unique [OF assms(1)]) blast+
qed

lemma owned_grow:
  assumes "owned f" "distinct xs" "\<And>h. set xs \<inter> set (f h) = {}"
  shows "owned (f(h := f h @ xs))"
proof (rule ownedI)
  show "distinct ((f(h := f h @ xs)) h')" for h'
    using owned_distinct [OF assms(1)] assms(2) assms(3) [of h] by auto
  fix h1 h2 i
  assume "i \<in> set ((f(h := f h @ xs)) h1)" "i \<in> set ((f(h := f h @ xs)) h2)"
  then consider "i \<in> set (f h1)" "i \<in> set (f h2)" | "h1 = h" "h2 = h"
    | "i \<in> set xs" "i \<in> set (f h1)" | "i \<in> set xs" "i \<in> set (f h2)"
    by (auto split: if_splits)
  then show "h1 = h2"
  proof cases
    case 1
    then show ?thesis by (rule owned_unique [OF assms(1)])
  next
    case 3
    then show ?thesis using assms(3) [of h1] by blast
  next
    case 4
    then show ?thesis using assms(3) [of h2] by blast
  qed simp
qed

lemma owned_move:
  assumes "owned f" "a \<noteq> b"
  shows "owned (f(a := [], b := f b @ f a))"
proof -
  have "owned (f(a := []))"
    by (rule owned_shrink [OF assms(1)]) (auto simp: owned_distinct [OF assms(1)])
  moreover have "set (f a) \<inter> set ((f(a := [])) h) = {}" for h
    using owned_unique [OF assms(1), of _ a h] by auto
  ultimately have "owned ((f(a := []))(b := (f(a := [])) b @ f a))"
    by (rule owned_grow [OF _ owned_distinct [OF assms(1)]])
  with assms(2) show ?thesis by simp
qed

definition user_row :: "string \<Rightarrow> chats \<Rightarrow> int \<Rightarrow> bool" where
  "user_row st t i \<longleftrightarrow> (\<exists>r. tbl_get t i = Some r \<and> crow_role r = ''user'' \<and> crow_status r = st)"

fun stage_ok :: "chats \<Rightarrow> stage \<Rightarrow> bool" where
  "stage_ok t (Selected i r) = user_row ''pending'' t i"
| "stage_ok t (Popped i m c) = (0 < i)"
| "stage_ok t (Drained i m c sel) = (0 < i \<and> distinct (map fst sel) \<and> (\<forall>j \<in> fst ` set sel. user_row ''pending'' t j))"
| "stage_ok t st = True"

definition life_ok :: "life \<Rightarrow> bool" where
  "life_ok l \<longleftrightarrow> tbl_ok (lf_chats l) \<and> owned (holds l) \<and> stage_ok (lf_chats l) (lf_stage l) \<and>
     (\<forall>i. user_row ''processing'' (lf_chats l) i \<longleftrightarrow> (\<exists>h. i \<in> set (holds l h)) \<or> i \<in> set (lf_lost l)) \<and>
     (\<forall>h. set (holds l h) \<inter> set (lf_lost l) = {})"

section \<open>What the operations do to user messages\<close>

text \<open>Operations that take no user message and give none back.\<close>

definition leaves_users :: "chats \<Rightarrow> chats \<Rightarrow> bool" where
  "leaves_users t t' \<longleftrightarrow> (tbl_ok t \<longrightarrow> tbl_ok t') \<and>
     (\<forall>i. user_row ''processing'' t' i = user_row ''processing'' t i) \<and>
     (\<forall>i. user_row ''pending'' t i \<longrightarrow> user_row ''pending'' t' i)"

lemma leaves_users_refl [simp]: "leaves_users t t"
  by (simp add: leaves_users_def)

lemma user_row_positive: "tbl_ok t \<Longrightarrow> user_row st t i \<Longrightarrow> 0 < i"
  using tbl_get_bounds [of t i] by (auto simp: user_row_def)

lemma leaves_users_insert:
  assumes "tbl_ok t" "crow_status r \<noteq> ''processing''"
  shows "leaves_users t (snd (tbl_insert r t))"
  using assms tb.get_ins [OF assms(1), of r] tb.ins_fresh [OF assms(1), of r] tb.ok_ins [OF assms(1), of r]
  by (auto simp: leaves_users_def user_row_def)

lemma leaves_users_add:
  "tbl_ok t \<Longrightarrow> leaves_users t (snd (add_message now cutoff role content chat t))"
  using leaves_users_insert
  by (simp add: add_message_def build_chat_message_insert_def Let_def split: list.split)

lemma leaves_users_delivered:
  "\<forall>r. tbl_get t i = Some r \<longrightarrow> crow_role r \<noteq> ''user'' \<Longrightarrow> leaves_users t (mark_chat_message_delivered i t)"
  by (auto simp: leaves_users_def user_row_def mark_chat_message_delivered_def tb.get_upd)

lemma user_row_claim:
  "user_row ''processing'' (snd (claim ids t)) i \<longleftrightarrow>
     user_row ''processing'' t i \<or> i \<in> set ids \<and> user_row ''pending'' t i"
  "user_row ''pending'' (snd (claim ids t)) i \<longleftrightarrow> user_row ''pending'' t i \<and> i \<notin> set ids"
  by (cases "tbl_get t i"; force simp: user_row_def tbl_get_claim)+

lemma tbl_get_from_processing:
  "tbl_get (from_processing st ids t) i = map_option (\<lambda>r. if crow_status r = ''processing'' \<and> i \<in> set ids \<and> 0 < i
     then r\<lparr>crow_status := st\<rparr> else r) (tbl_get t i)"
  by (cases "tbl_get t i")
    (auto simp: from_processing_def tbl_get_update_where Let_def filter_empty_conv)

lemma user_row_from_processing:
  assumes "tbl_ok t" "st \<noteq> ''processing''"
  shows "user_row ''processing'' (from_processing st ids t) i \<longleftrightarrow> user_row ''processing'' t i \<and> i \<notin> set ids"
    and "user_row ''pending'' t i \<Longrightarrow> user_row ''pending'' (from_processing st ids t) i"
    and "tbl_ok (from_processing st ids t)"
proof -
  show "user_row ''processing'' (from_processing st ids t) i \<longleftrightarrow> user_row ''processing'' t i \<and> i \<notin> set ids"
    using assms(2) tbl_get_bounds [OF assms(1), of i]
    by (cases "tbl_get t i") (auto simp: user_row_def tbl_get_from_processing)
  show "user_row ''pending'' (from_processing st ids t) i" if "user_row ''pending'' t i"
  proof -
    from that obtain r where r: "tbl_get t i = Some r" "crow_role r = ''user''" "crow_status r = ''pending''"
      by (auto simp: user_row_def)
    then have "tbl_get (from_processing st ids t) i = Some r" by (simp add: tbl_get_from_processing)
    with r show ?thesis by (auto simp: user_row_def)
  qed
  show "tbl_ok (from_processing st ids t)" using assms(1) by (simp add: from_processing_def Let_def)
qed

lemma leaves_stage: "leaves_users t t' \<Longrightarrow> stage_ok t st \<Longrightarrow> stage_ok t' st"
  by (cases st) (auto simp: leaves_users_def)

section \<open>What the dispatcher does to jobs\<close>

lemma job_ids_enqueue:
  assumes "fst (enqueue j d)"
  shows "job_ids (snd (enqueue j d)) = (job_ids d)(j_chain_key j := job_ids d (j_chain_key j) @ j_chat_message_ids j)"
proof
  fix x
  have room: "d_pending d < d_max_queue d" using assms by (auto simp: enqueue_def split: if_splits)
  have "in_hand (snd (enqueue j d)) x = in_hand d x"
    by (cases "worker_of d x") (simp_all add: in_hand_def enqueue_of [OF room])
  then show "job_ids (snd (enqueue j d)) x =
      ((job_ids d)(j_chain_key j := job_ids d (j_chain_key j) @ j_chat_message_ids j)) x"
    by (simp add: job_ids_def enqueue_of [OF room])
qed

lemma enqueue_refused: "\<not> fst (enqueue j d) \<Longrightarrow> snd (enqueue j d) = d"
  by (simp add: enqueue_def Let_def split: if_splits)

lemma job_ids_enqueue_plain: "j_chat_message_ids j = [] \<Longrightarrow> job_ids (snd (enqueue j d)) = job_ids d"
  using job_ids_enqueue [of j d] enqueue_refused [of j d] by (cases "fst (enqueue j d)") auto

lemma job_ids_next: "job_ids (worker_next c d) = job_ids d"
proof (cases "worker_of d c = Some Top")
  case True
  show ?thesis
    by (rule ext) (auto simp: job_ids_def in_hand_def worker_next_of [OF True] True split: list.split)
qed (simp add: worker_next_def)

lemma job_ids_acquire: "job_ids (worker_acquire c d) = job_ids d"
proof -
  have "in_hand (worker_acquire c d) x = in_hand d x" "queue_of (worker_acquire c d) x = queue_of d x" for x
    by (auto simp: in_hand_def worker_acquire_def worker_of_update split: option.split phase.split)
  then show ?thesis by (simp add: job_ids_def fun_eq_iff)
qed

lemma job_ids_finish:
  assumes "worker_of d c = Some (Running j)"
  obtains rest where "job_ids d c = j_chat_message_ids j @ rest" "job_ids (worker_finish c d) = (job_ids d)(c := rest)"
proof
  show "job_ids d c = j_chat_message_ids j @ concat (map j_chat_message_ids (queue_of d c))"
    by (simp add: job_ids_def in_hand_def assms)
  show "job_ids (worker_finish c d) = (job_ids d)(c := concat (map j_chat_message_ids (queue_of d c)))"
    by (rule ext) (simp add: job_ids_def in_hand_def worker_finish_def assms worker_of_update)
qed

text \<open>The three ends of a hand-over.\<close>

lemma turn_dispatch_cases:
  assumes "turn_dispatch w n ids m c t (Some d) = (st, t', Some d', r)"
  obtains (direct) "st = Direct ids m c" "t' = t" "d' = d"
  | (accepted) j where "st = Idle" "t' = t" "j_chat_message_ids j = ids" "fst (enqueue j d)" "d' = snd (enqueue j d)"
  | (refused) "st = Idle" "t' = release_messages ids t" "d' = d"
proof (cases "dispatcher_enabled d")
  case False
  with assms direct show ?thesis by (simp add: turn_dispatch_def tick_dispatcher_state_def)
next
  case True
  define j where "j = build_tick_job (resolve_tick_dispatch_context w n ''chat'' (Some c) True False) ''chat'' m (Some c) ids"
  have ids: "j_chat_message_ids j = ids" by (simp add: j_def build_tick_job_def)
  have "turn_dispatch w n ids m c t (Some d) = (Idle, if fst (enqueue j d) then t else release_messages ids t,
      Some (snd (enqueue j d)), if fst (enqueue j d)
        then Some (dc_cycle (resolve_tick_dispatch_context w n ''chat'' (Some c) True False)) else None)"
    using True
    by (simp add: turn_dispatch_def tick_dispatcher_state_def try_dispatch_tick_job_def j_def Let_def case_prod_beta)
  with assms have r: "st = Idle" "t' = (if fst (enqueue j d) then t else release_messages ids t)" "d' = snd (enqueue j d)"
    by simp_all
  show ?thesis
  proof (cases "fst (enqueue j d)")
    case True
    with accepted [of j] r ids show ?thesis by simp
  next
    case False
    with refused r enqueue_refused [of j d] show ?thesis by simp
  qed
qed

section \<open>The invariant is kept\<close>

lemma holds_parts:
  "holds (l\<lparr>lf_stage := st\<rparr>) = (holds l)(None := stage_ids st)"
  "holds (l\<lparr>lf_chats := t\<rparr>) = holds l" "holds (l\<lparr>lf_lost := x\<rparr>) = holds l"
  "holds (l\<lparr>lf_disp := d\<rparr>) h = (case h of None \<Rightarrow> stage_ids (lf_stage l) | Some c \<Rightarrow> job_ids d c)"
  by (auto simp: holds_def fun_eq_iff split: option.split)

lemma holds_simps [simp]:
  "holds l None = stage_ids (lf_stage l)" "holds l (Some c) = job_ids (lf_disp l) c"
  by (simp_all add: holds_def)

text \<open>Messages of nobody, pending ones, are free to be taken.\<close>

lemma pending_free:
  assumes "life_ok l" "user_row ''pending'' (lf_chats l) i"
  shows "i \<notin> set (holds l h)" "i \<notin> set (lf_lost l)"
proof -
  have "\<not> user_row ''processing'' (lf_chats l) i" using assms(2) by (auto simp: user_row_def)
  then show "i \<notin> set (holds l h)" "i \<notin> set (lf_lost l)" using assms(1) unfolding life_ok_def by blast+
qed

lemma life_okI:
  assumes "tbl_ok (lf_chats l)" "owned (holds l)" "stage_ok (lf_chats l) (lf_stage l)"
    and "\<And>i. user_row ''processing'' (lf_chats l) i \<longleftrightarrow> (\<exists>h. i \<in> set (holds l h)) \<or> i \<in> set (lf_lost l)"
    and "\<And>h i. i \<in> set (holds l h) \<Longrightarrow> i \<notin> set (lf_lost l)"
  shows "life_ok l"
  using assms unfolding life_ok_def by blast

text \<open>Steps that leave holders and user messages alone.\<close>

lemma life_ok_frame:
  assumes "life_ok l" "leaves_users (lf_chats l) t" "stage_ids st = stage_ids (lf_stage l)" "stage_ok t st"
    and "job_ids d = job_ids (lf_disp l)"
  shows "life_ok (l\<lparr>lf_chats := t, lf_stage := st, lf_disp := d\<rparr>)"
proof -
  have "holds (l\<lparr>lf_chats := t, lf_stage := st, lf_disp := d\<rparr>) = holds l"
    using assms(3,5) by (auto simp: holds_def fun_eq_iff split: option.split)
  with assms show ?thesis by (simp add: life_ok_def leaves_users_def)
qed

text \<open>Holder \<open>h\<close> gives up \<open>ids\<close>, its first messages; they leave \<open>processing\<close> or are lost.\<close>

lemma life_ok_give:
  assumes "life_ok l" "holds l h = ids @ keep" "holds l' = (holds l)(h := keep)" "tbl_ok (lf_chats l')"
    and "stage_ok (lf_chats l') (lf_stage l')"
    and "\<And>i. user_row ''processing'' (lf_chats l') i \<longleftrightarrow> user_row ''processing'' (lf_chats l) i \<and> (i \<in> set ids \<longrightarrow> lost)"
    and "lf_lost l' = (if lost then ids else []) @ lf_lost l"
  shows "life_ok l'"
proof (rule life_okI [OF assms(4) _ assms(5)])
  have ow: "owned (holds l)" using assms(1) by (simp add: life_ok_def)
  have dist: "set ids \<inter> set keep = {}" "distinct keep"
    using owned_distinct [OF ow, of h] by (auto simp: assms(2))
  show "owned (holds l')"
    by (rule owned_shrink [OF ow]) (auto simp: assms(2,3) dist(2) owned_distinct [OF ow])
  have held: "(\<exists>h'. i \<in> set (holds l' h')) \<longleftrightarrow> (\<exists>h'. i \<in> set (holds l h')) \<and> i \<notin> set ids" for i
  proof
    assume "\<exists>h'. i \<in> set (holds l' h')"
    then obtain h' where "i \<in> set (holds l' h')" by blast
    then show "(\<exists>h'. i \<in> set (holds l h')) \<and> i \<notin> set ids"
      using owned_unique [OF ow, of i h h'] dist(1) assms(2)
      by (cases "h' = h") (auto simp: assms(3) intro: exI [of _ h])
  next
    assume "(\<exists>h'. i \<in> set (holds l h')) \<and> i \<notin> set ids"
    then obtain h' where "i \<in> set (holds l h')" "i \<notin> set ids" by blast
    then have "i \<in> set (holds l' h')" using assms(2) by (cases "h' = h") (auto simp: assms(3))
    then show "\<exists>h'. i \<in> set (holds l' h')" by blast
  qed
  have all: "user_row ''processing'' (lf_chats l) i \<longleftrightarrow> (\<exists>h. i \<in> set (holds l h)) \<or> i \<in> set (lf_lost l)" for i
    using assms(1) by (simp add: life_ok_def)
  have dis: "i \<notin> set (lf_lost l)" if "i \<in> set (holds l h')" for i h'
    using assms(1) that by (auto simp: life_ok_def)
  have ids: "i \<in> set ids \<Longrightarrow> i \<in> set (holds l h)" for i by (simp add: assms(2))
  show "user_row ''processing'' (lf_chats l') i \<longleftrightarrow> (\<exists>h. i \<in> set (holds l' h)) \<or> i \<in> set (lf_lost l')" for i
    unfolding assms(6) all held using ids [of i] dis [of i h] by (auto simp: assms(7))
  show "i \<notin> set (lf_lost l')" if "i \<in> set (holds l' h')" for h' i
  proof -
    have "(\<exists>h'. i \<in> set (holds l h')) \<and> i \<notin> set ids" using held that by blast
    then show ?thesis using dis by (auto simp: assms(7))
  qed
qed

text \<open>The driver takes pending messages.\<close>

lemma life_ok_take:
  assumes "life_ok l" "\<forall>i \<in> set ids. user_row ''pending'' (lf_chats l) i" "distinct ids"
    and "stage_ids st = stage_ids (lf_stage l) @ ids" "stage_ok t st"
    and "t = snd (claim ids (lf_chats l))"
  shows "life_ok (l\<lparr>lf_stage := st, lf_chats := t\<rparr>)"
proof (rule life_okI)
  have ow: "owned (holds l)" and ok: "tbl_ok (lf_chats l)" using assms(1) by (simp_all add: life_ok_def)
  have h: "holds (l\<lparr>lf_stage := st, lf_chats := t\<rparr>) = (holds l)(None := holds l None @ ids)"
    using assms(4) by (auto simp: holds_def fun_eq_iff split: option.split)
  have free: "set ids \<inter> set (holds l h) = {}" "set ids \<inter> set (lf_lost l) = {}" for h
    using pending_free [OF assms(1)] assms(2) by blast+
  show "owned (holds (l\<lparr>lf_stage := st, lf_chats := t\<rparr>))"
    unfolding h by (rule owned_grow [OF ow assms(3) free(1)])
  show "tbl_ok (lf_chats (l\<lparr>lf_stage := st, lf_chats := t\<rparr>))" using ok by (simp add: assms(6))
  show "stage_ok (lf_chats (l\<lparr>lf_stage := st, lf_chats := t\<rparr>)) (lf_stage (l\<lparr>lf_stage := st, lf_chats := t\<rparr>))"
    using assms(5) by simp
  have held: "(\<exists>h'. i \<in> set (((holds l)(None := holds l None @ ids)) h')) \<longleftrightarrow> (\<exists>h'. i \<in> set (holds l h')) \<or> i \<in> set ids" for i
  proof -
    have "i \<in> set (((holds l)(None := holds l None @ ids)) h') \<longleftrightarrow> i \<in> set (holds l h') \<or> h' = None \<and> i \<in> set ids" for h'
      by (cases h') (simp_all del: holds_simps)
    then show ?thesis by blast
  qed
  have all: "user_row ''processing'' (lf_chats l) i \<longleftrightarrow> (\<exists>h. i \<in> set (holds l h)) \<or> i \<in> set (lf_lost l)" for i
    using assms(1) by (simp add: life_ok_def)
  show "user_row ''processing'' (lf_chats (l\<lparr>lf_stage := st, lf_chats := t\<rparr>)) i \<longleftrightarrow>
      (\<exists>h'. i \<in> set (holds (l\<lparr>lf_stage := st, lf_chats := t\<rparr>) h')) \<or> i \<in> set (lf_lost (l\<lparr>lf_stage := st, lf_chats := t\<rparr>))" for i
    unfolding h held using assms(2) all [of i] by (auto simp: assms(6) user_row_claim)
  show "i \<notin> set (lf_lost (l\<lparr>lf_stage := st, lf_chats := t\<rparr>))" if "i \<in> set (holds (l\<lparr>lf_stage := st, lf_chats := t\<rparr>) h')" for h' i
    using that assms(1) free(2) unfolding h by (auto simp: life_ok_def simp del: holds_simps split: if_splits)
qed

lemma user_pending_row: "user_pending r \<Longrightarrow> tbl_get t i = Some r \<Longrightarrow> user_row ''pending'' t i"
  by (auto simp: user_row_def user_pending_def)

lemma life_ok_claim:
  assumes "life_ok l" "lf_stage l = Selected i r" "turn_claim i r (lf_chats l) = (st, t)"
  shows "life_ok (l\<lparr>lf_stage := st, lf_chats := t\<rparr>)"
proof -
  have p: "user_row ''pending'' (lf_chats l) i" and ok: "tbl_ok (lf_chats l)"
    using assms(1,2) by (simp_all add: life_ok_def)
  have pos: "0 < i" by (rule user_row_positive [OF ok p])
  have "fst (claim [i] (lf_chats l)) \<noteq> 0" using claim_none [OF ok, of "[i]"] p by (auto simp: user_row_def)
  then have r: "t = snd (claim [i] (lf_chats l))" "stage_ids st = [i]" "stage_ok t st"
    using assms(3) pos by (auto simp: turn_claim_def pop_claim_def reserved_def split: prod.splits if_splits)
  show ?thesis by (rule life_ok_take [OF assms(1), of "[i]"]) (use r p assms(2) in simp_all)
qed

lemma life_ok_drain:
  assumes "life_ok l" "lf_stage l = Drained i m c sel" "turn_drain i m c sel (lf_chats l) = (st, t)"
  shows "life_ok (l\<lparr>lf_stage := st, lf_chats := t\<rparr>)"
proof -
  have p: "\<forall>j \<in> set (map fst sel). user_row ''pending'' (lf_chats l) j" and ok: "tbl_ok (lf_chats l)"
    and d: "distinct (map fst sel)"
    using assms(1,2) by (simp_all add: life_ok_def)
  show ?thesis
  proof (cases "sel = []")
    case True
    then have st: "stage_ids st = reserved i" "t = lf_chats l" "stage_ok t st"
      using assms(3) by (auto simp: turn_drain_def drain_claim_def)
    from life_ok_frame [OF assms(1) _ _ st(3) refl] show ?thesis by (simp add: st(1,2) assms(2))
  next
    case False
    then obtain j where j: "j \<in> set (map fst sel)" by (cases sel) auto
    then have n: "fst (claim (map fst sel) (lf_chats l)) \<noteq> 0"
      using claim_none [OF ok, of "map fst sel"] p by (auto simp: user_row_def)
    have "filter (\<lambda>j. 0 < j) (map fst sel) = map fst sel"
      using p user_row_positive [OF ok] by (intro filter_True) blast
    then have st: "stage_ids st = reserved i @ map fst sel" "t = snd (claim (map fst sel) (lf_chats l))" "stage_ok t st"
      using assms(3) n False
      by (auto simp: turn_drain_def drain_claim_def case_prod_beta comp_def Let_def split: prod.splits if_splits)
    show ?thesis by (rule life_ok_take [OF assms(1) p d]) (use st assms(2) in simp_all)
  qed
qed

lemma life_ok_hand_over:
  assumes "life_ok l" "lf_stage l = Ready ids m c" "j_chat_message_ids j = ids" "fst (enqueue j (lf_disp l))"
  shows "life_ok (l\<lparr>lf_stage := Idle, lf_disp := snd (enqueue j (lf_disp l))\<rparr>)" (is "life_ok ?l")
proof -
  let ?k = "Some (j_chain_key j)"
  have ow: "owned (holds l)" using assms(1) by (simp add: life_ok_def)
  have h: "holds ?l = (holds l)(None := [], ?k := holds l ?k @ holds l None)"
    using assms(2,3) job_ids_enqueue [OF assms(4)] by (auto simp: holds_def fun_eq_iff split: option.split)
  have held: "(\<exists>h. i \<in> set (holds ?l h)) \<longleftrightarrow> (\<exists>h. i \<in> set (holds l h))" for i
  proof
    assume "\<exists>h. i \<in> set (holds ?l h)"
    then show "\<exists>h. i \<in> set (holds l h)" unfolding h by (metis Un_iff empty_iff fun_upd_apply list.set(1) set_append)
  next
    assume "\<exists>h. i \<in> set (holds l h)"
    then obtain h' where "i \<in> set (holds l h')" by blast
    then have "i \<in> set (holds ?l (if h' = None then ?k else h'))"
      unfolding h by (cases h') (auto simp del: holds_simps)
    then show "\<exists>h. i \<in> set (holds ?l h)" by blast
  qed
  show ?thesis
  proof (rule life_okI)
    show "owned (holds ?l)" unfolding h by (rule owned_move [OF ow]) simp
    show "user_row ''processing'' (lf_chats ?l) i \<longleftrightarrow> (\<exists>h. i \<in> set (holds ?l h)) \<or> i \<in> set (lf_lost ?l)" for i
      unfolding held using assms(1) by (simp add: life_ok_def del: holds_simps)
    show "i \<notin> set (lf_lost ?l)" if "i \<in> set (holds ?l h')" for h' i
    proof -
      have "\<exists>h. i \<in> set (holds l h)" using held that by blast
      with assms(1) show ?thesis by (auto simp: life_ok_def simp del: holds_simps)
    qed
  qed (use assms(1) in \<open>simp_all add: life_ok_def\<close>)
qed

lemma settle_user_rows:
  assumes "tbl_ok t"
  shows "tbl_ok (settle_messages out ids t)"
    and "user_row ''processing'' (settle_messages out ids t) i \<longleftrightarrow>
      user_row ''processing'' t i \<and> (i \<in> set ids \<longrightarrow> out = Cancelled)"
    and "user_row ''pending'' t i \<Longrightarrow> user_row ''pending'' (settle_messages out ids t) i"
  using user_row_from_processing [where st = "''processed''" and ids = ids, OF assms] user_row_from_processing [where st = "''pending''" and ids = ids, OF assms]
    assms
  by (cases out; auto simp: settle_messages_def mark_messages_processed_def release_messages_def)+

lemma direct_user_rows:
  fixes now cutoff ph ids c reply
  assumes "tbl_ok t"
  defines "t' \<equiv> snd (turn_direct now cutoff ph ids c reply t)"
  shows "tbl_ok t'" "user_row ''processing'' t' i \<longleftrightarrow> user_row ''processing'' t i \<and> i \<notin> set ids"
proof -
  note marked = user_row_from_processing [where st = "''processed''" and ids = ids, OF assms(1), folded mark_messages_processed_def]
  note freed = user_row_from_processing [where st = "''pending''" and ids = ids, OF assms(1), folded release_messages_def]
  note add = leaves_users_add [OF marked(3), of now cutoff "''assistant''" ph c]
  show "tbl_ok t'" "user_row ''processing'' t' i \<longleftrightarrow> user_row ''processing'' t i \<and> i \<notin> set ids"
    using marked freed add
    by (cases reply; simp add: t'_def turn_direct_def Let_def leaves_users_def)+
qed

lemma life_ok_step: "life_step l l' \<Longrightarrow> life_ok l \<Longrightarrow> life_ok l'"
proof (induction rule: life_step.induct)
  case (life_ingest l now role content chat)
  then have "leaves_users (lf_chats l) (snd (ingest_message now role content chat ''pending'' (lf_chats l)))"
    unfolding ingest_message_def by (intro leaves_users_insert) (simp_all add: life_ok_def build_chat_message_insert_def)
  from life_ok_frame [OF life_ingest this, of "lf_stage l" "lf_disp l"] leaves_stage [OF this] life_ingest
  show ?case by (simp add: life_ok_def)
next
  case (life_answer l now cutoff role content chat)
  then have "leaves_users (lf_chats l) (snd (add_message now cutoff role content chat (lf_chats l)))"
    by (intro leaves_users_add) (simp add: life_ok_def)
  from life_ok_frame [OF life_answer this, of "lf_stage l" "lf_disp l"] leaves_stage [OF this] life_answer
  show ?case by (simp add: life_ok_def)
next
  case (life_delivered l i)
  then have "leaves_users (lf_chats l) (mark_chat_message_delivered i (lf_chats l))"
    by (intro leaves_users_delivered)
  from life_ok_frame [OF life_delivered(2) this, of "lf_stage l" "lf_disp l"] leaves_stage [OF this] life_delivered
  show ?case by (simp add: life_ok_def)
next
  case (life_select l)
  have "stage_ids (turn_select (lf_chats l)) = []" "stage_ok (lf_chats l) (turn_select (lf_chats l))"
    using pop_select_Some [of "lf_chats l"] user_pending_row life_select(3)
    by (auto simp: turn_select_def life_ok_def split: option.split)
  from life_ok_frame [OF life_select(3) leaves_users_refl _ this(2) refl] this(1) life_select(1)
  show ?case by simp
next
  case (life_claim l i r st t)
  then show ?case by (intro life_ok_claim)
next
  case (life_followups l i m c)
  have ok: "tbl_ok (lf_chats l)" "0 < i" using life_followups by (simp_all add: life_ok_def)
  have "stage_ok (lf_chats l) (Drained i m c (drain_select c i (lf_chats l)))"
    using distinct_tbl_select [OF ok(1)] set_tbl_select [OF ok(1)] ok(2) user_pending_row
    by (fastforce simp: drain_select_def)
  from life_ok_frame [OF life_followups(2) leaves_users_refl _ this refl] life_followups(1)
  show ?case by simp
next
  case (life_drain l i m c sel st t)
  then show ?case by (intro life_ok_drain)
next
  case (life_dispatch l ids m c w n st t d r)
  from life_dispatch(2) show ?case
  proof (cases rule: turn_dispatch_cases)
    case direct
    from life_ok_frame [OF life_dispatch(3) leaves_users_refl, of "Direct ids m c" "lf_disp l"] life_dispatch(1)
    show ?thesis by (simp add: direct)
  next
    case (accepted j)
    from life_ok_hand_over [OF life_dispatch(3,1) accepted(3,4)] show ?thesis by (simp add: accepted(1,2,5))
  next
    case refused
    have ok: "tbl_ok (lf_chats l)" using life_dispatch(3) by (simp add: life_ok_def)
    note freed = user_row_from_processing [where st = "''pending''" and ids = ids, OF ok, folded release_messages_def]
    show ?thesis
      by (rule life_ok_give [OF life_dispatch(3), of None ids "[]" _ False])
        (use freed life_dispatch(1) in \<open>auto simp: refused holds_def fun_eq_iff split: option.split\<close>)
  qed
next
  case (life_direct l ids m c now cutoff ph reply)
  have ok: "tbl_ok (lf_chats l)" using life_direct(2) by (simp add: life_ok_def)
  show ?case
    by (rule life_ok_give [OF life_direct(2), of None ids "[]" _ False])
      (use direct_user_rows [OF ok] life_direct(1) in \<open>auto simp: holds_def fun_eq_iff split: option.split\<close>)
next
  case (life_fail l)
  show ?case
    by (rule life_ok_give [OF life_fail, of None "stage_ids (lf_stage l)" "[]" _ True])
      (use life_fail in \<open>auto simp: life_ok_def holds_def fun_eq_iff split: option.split\<close>)
next
  case (life_auto j l)
  from life_ok_frame [OF life_auto(2) leaves_users_refl, of "lf_stage l" "snd (enqueue j (lf_disp l))"] life_auto(2)
    job_ids_enqueue_plain [OF life_auto(1), of "lf_disp l"]
  show ?case by (simp add: life_ok_def)
next
  case (life_next l c)
  from life_ok_frame [OF life_next leaves_users_refl, of "lf_stage l" "worker_next c (lf_disp l)"] life_next
  show ?case by (simp add: life_ok_def job_ids_next)
next
  case (life_acquire l c)
  from life_ok_frame [OF life_acquire leaves_users_refl, of "lf_stage l" "worker_acquire c (lf_disp l)"] life_acquire
  show ?case by (simp add: life_ok_def job_ids_acquire)
next
  case (life_finish l c j out)
  have ok: "tbl_ok (lf_chats l)" "stage_ok (lf_chats l) (lf_stage l)"
    using life_finish(2) by (simp_all add: life_ok_def)
  obtain rest where rest: "job_ids (lf_disp l) c = j_chat_message_ids j @ rest"
    "job_ids (worker_finish c (lf_disp l)) = (job_ids (lf_disp l))(c := rest)"
    by (rule job_ids_finish [OF life_finish(1)])
  have "stage_ok (settle_messages out (j_chat_message_ids j) (lf_chats l)) (lf_stage l)"
    using ok(2) settle_user_rows(3) [OF ok(1)] by (cases "lf_stage l") auto
  then show ?case
    by (intro life_ok_give [OF life_finish(2), of "Some c" "j_chat_message_ids j" rest _ "out = Cancelled"])
      (use rest settle_user_rows [OF ok(1)] in
        \<open>auto simp: settled_job_def holds_def fun_eq_iff split: option.split\<close>)
qed

end
