(* ===== verification/Message_Fate.thy ===== *)
theory Message_Fate
  imports Message_Life
begin

text \<open>
  What becomes of user messages in the runs of \<open>Message_Life\<close>: each is held once, a lost one stays in
  processing, and all others can be brought to an end.
\<close>

section \<open>Reachable states\<close>

lemma tbl_get_recover:
  "tbl_get (recover_processing t) i = map_option (\<lambda>r. if crow_role r = ''user'' \<and> crow_status r = ''processing''
     then r\<lparr>crow_status := ''pending''\<rparr> else r) (tbl_get t i)"
  by (simp add: recover_processing_def tbl_get_update_where)

lemma life_ok_start: "tbl_ok t \<Longrightarrow> life_ok (start_life mc mq t)"
proof (rule life_okI)
  have none: "holds (start_life mc mq t) h = []" for h
    by (cases h) (simp_all add: start_life_def job_ids_def in_hand_def worker_of_def queue_of_def new_dispatcher_def)
  then show "owned (holds (start_life mc mq t))" by (intro ownedI) simp_all
  show "user_row ''processing'' (lf_chats (start_life mc mq t)) i \<longleftrightarrow>
      (\<exists>h. i \<in> set (holds (start_life mc mq t) h)) \<or> i \<in> set (lf_lost (start_life mc mq t))" for i
    unfolding none by (auto simp: start_life_def user_row_def tbl_get_recover split: if_splits)
qed (simp_all add: start_life_def recover_processing_def)

lemma life_ok_steps: "life_step\<^sup>*\<^sup>* l l' \<Longrightarrow> life_ok l \<Longrightarrow> life_ok l'"
  by (induction rule: rtranclp_induct) (auto intro: life_ok_step)

lemma lost_grows_step: "life_step l l' \<Longrightarrow> set (lf_lost l) \<subseteq> set (lf_lost l')"
  by (induction rule: life_step.induct) (auto simp: settled_job_def)

lemma lost_grows: "life_step\<^sup>*\<^sup>* l l' \<Longrightarrow> set (lf_lost l) \<subseteq> set (lf_lost l')"
  by (induction rule: rtranclp_induct) (use lost_grows_step in auto)

lemma count_list_distinct: "distinct xs \<Longrightarrow> x \<in> set xs \<Longrightarrow> count_list xs x = 1"
  by (induction xs) (auto simp: count_list_0_iff)

text \<open>C8: A user message that is in processing is held by exactly one holder, the driver or one chain of
  the dispatcher, and by that one exactly once, unless a failed turn or a cancelled job has lost it;
  and whoever holds a message holds one that is in processing. So no message is run twice, and none
  that has been settled is still waiting to be run.\<close>

theorem message_held_once:
  assumes "tbl_ok t" "life_step\<^sup>*\<^sup>* (start_life mc mq t) l"
  shows "(user_row ''processing'' (lf_chats l) i \<longrightarrow>
        i \<in> set (lf_lost l) \<or> (\<exists>!h. i \<in> set (holds l h))) \<and>
    (\<forall>h. i \<in> set (holds l h) \<longrightarrow>
        user_row ''processing'' (lf_chats l) i \<and> i \<notin> set (lf_lost l) \<and> count_list (holds l h) i = 1)"
proof -
  have ok: "life_ok l" by (rule life_ok_steps [OF assms(2) life_ok_start [OF assms(1)]])
  then have ow: "owned (holds l)" by (simp add: life_ok_def)
  have "count_list (holds l h) i = 1" if "i \<in> set (holds l h)" for h
    using owned_distinct [OF ow, of h] that by (simp add: count_list_distinct)
  moreover have "\<exists>!h. i \<in> set (holds l h)" if "i \<in> set (holds l h)" for h
    using owned_unique [OF ow] that by blast
  ultimately show ?thesis using ok unfolding life_ok_def by blast
qed

text \<open>What is lost stays lost: a message whose turn failed in the store or whose job the guard
  cancelled stays in processing through any further steps, and nobody holds it; only the recovery of
  the next start makes it pending again.\<close>

theorem lost_message_stays:
  assumes "tbl_ok t" "life_step\<^sup>*\<^sup>* (start_life mc mq t) l" "i \<in> set (lf_lost l)" "life_step\<^sup>*\<^sup>* l l'"
  shows "user_row ''processing'' (lf_chats l') i \<and> (\<forall>h. i \<notin> set (holds l' h)) \<and>
    user_row ''pending'' (lf_chats (start_life mc' mq' (lf_chats l'))) i"
proof -
  have "life_ok l'"
    using life_ok_steps [OF rtranclp_trans [OF assms(2,4)] life_ok_start [OF assms(1)]] .
  moreover have "i \<in> set (lf_lost l')" using lost_grows [OF assms(4)] assms(3) by blast
  ultimately have "user_row ''processing'' (lf_chats l') i" "\<forall>h. i \<notin> set (holds l' h)"
    unfolding life_ok_def by blast+
  moreover then have "user_row ''pending'' (lf_chats (start_life mc' mq' (lf_chats l'))) i"
    by (auto simp: user_row_def start_life_def tbl_get_recover)
  ultimately show ?thesis by blast
qed

section \<open>Everything can be brought to an end\<close>

definition pend :: "life \<Rightarrow> int set" where
  "pend l = {i. user_row ''pending'' (lf_chats l) i}"

text \<open>Runs in which nobody fails and nobody writes a new message.\<close>

definition calm :: "life \<Rightarrow> life \<Rightarrow> bool" where
  "calm l l' \<longleftrightarrow> life_step\<^sup>*\<^sup>* l l' \<and> pend l' \<subseteq> pend l \<and> lf_lost l' = lf_lost l"

lemma calm_refl: "calm l l"
  by (simp add: calm_def)

lemma calm_trans: "calm l l' \<Longrightarrow> calm l' l'' \<Longrightarrow> calm l l''"
  using rtranclp_trans [of life_step l l' l''] by (auto simp: calm_def)

lemma calmI: "life_step l l' \<Longrightarrow> pend l' \<subseteq> pend l \<Longrightarrow> lf_lost l' = lf_lost l \<Longrightarrow> calm l l'"
  by (simp add: calm_def)

lemma pend_frames [simp]:
  "pend (l\<lparr>lf_stage := st\<rparr>) = pend l" "pend (l\<lparr>lf_disp := d\<rparr>) = pend l" "pend (l\<lparr>lf_lost := x\<rparr>) = pend l"
  by (simp_all add: pend_def)

lemma pending_from_processing:
  "st \<noteq> ''pending'' \<Longrightarrow> user_row ''pending'' (from_processing st ids t) i \<Longrightarrow> user_row ''pending'' t i"
  by (auto simp: user_row_def tbl_get_from_processing split: if_splits)

lemma pending_marked: "user_row ''pending'' (mark_messages_processed ids t) i \<Longrightarrow> user_row ''pending'' t i"
  using pending_from_processing [of "''processed''" ids t i] by (simp add: mark_messages_processed_def)

text \<open>The dispatcher of a run is one of its reachable states.\<close>

definition disp_good :: "disp \<Rightarrow> bool" where
  "disp_good d \<longleftrightarrow> disp_ok d \<and> 0 < d_max_concurrent d \<and> 0 < d_max_queue d"

lemma disp_good_step: "disp_step d e d' \<Longrightarrow> disp_good d \<Longrightarrow> disp_good d'"
  using disp_ok_step d_limits_step by (auto simp: disp_good_def)

lemma disp_good_life: "life_step l l' \<Longrightarrow> disp_good (lf_disp l) \<Longrightarrow> disp_good (lf_disp l')"
proof (induction rule: life_step.induct)
  case (life_dispatch l ids m c w n st t d r)
  from life_dispatch(2) show ?case
    by (cases rule: turn_dispatch_cases) (use life_dispatch(3) disp_good_step [OF d_enqueue] in auto)
next
  case (life_finish l c j out)
  then show ?case using disp_good_step [OF d_finish] by (simp add: settled_job_def)
qed (auto intro: disp_good_step [OF d_enqueue] disp_good_step [OF d_next] disp_good_step [OF d_acquire])

lemma disp_good_steps: "life_step\<^sup>*\<^sup>* l l' \<Longrightarrow> disp_good (lf_disp l) \<Longrightarrow> disp_good (lf_disp l')"
  by (induction rule: rtranclp_induct) (auto intro: disp_good_life)

lemma disp_good_new: "disp_good (new_dispatcher mc mq)"
  unfolding disp_good_def by (intro conjI disp_ok_new) (simp_all add: new_dispatcher_def at_least_one_def)

text \<open>The workers can finish what they have.\<close>

lemma workers_finish:
  assumes "disp_good (lf_disp l)"
  shows "\<exists>l'. calm l l' \<and> d_workers (lf_disp l') = [] \<and> lf_stage l' = lf_stage l"
  using assms
proof (induction "work_left (lf_disp l)" arbitrary: l rule: less_induct)
  case less
  show ?case
  proof (cases "d_workers (lf_disp l) = []")
    case True
    then show ?thesis using calm_refl by blast
  next
    case False
    then have "\<exists>e d'. disp_step (lf_disp l) e d' \<and> (\<forall>c. accepted_on c e = []) \<and> work_left d' < work_left (lf_disp l)"
      by (intro progress) (use less.prems in \<open>simp_all add: disp_good_def\<close>)
    then obtain e d' where e: "disp_step (lf_disp l) e d'" "\<forall>c. accepted_on c e = []" "work_left d' < work_left (lf_disp l)"
      by (elim exE conjE)
    have "\<exists>l1. calm l l1 \<and> lf_disp l1 = d' \<and> lf_stage l1 = lf_stage l"
      using e(1)
    proof cases
      case (d_enqueue j)
      have False
      proof (cases "fst (enqueue j (lf_disp l))")
        case True
        then have "accepted_on (j_chain_key j) e = [j]" by (simp add: d_enqueue(1))
        with e(2) show False by simp
      next
        case False
        with enqueue_refused [OF False] e(3) d_enqueue(2) show False by simp
      qed
      then show ?thesis ..
    next
      case (d_next c)
      show ?thesis using calmI [OF life_step.life_next [of l c]] d_next(2)
        by (intro exI [of _ "l\<lparr>lf_disp := worker_next c (lf_disp l)\<rparr>"]) simp
    next
      case (d_acquire c)
      show ?thesis using calmI [OF life_step.life_acquire [of l c]] d_acquire(2)
        by (intro exI [of _ "l\<lparr>lf_disp := worker_acquire c (lf_disp l)\<rparr>"]) simp
    next
      case (d_finish c)
      then obtain j where j: "worker_of (lf_disp l) c = Some (Running j)"
        using e(3) by (auto simp: worker_finish_def split: option.splits phase.splits)
      have "pend (settled_job Returned j c l) \<subseteq> pend l"
        by (auto simp: settled_job_def pend_def settle_messages_def dest: pending_marked split: if_splits)
      then show ?thesis using calmI [OF life_step.life_finish [OF j, of Returned]] d_finish(2)
        by (intro exI [of _ "settled_job Returned j c l"]) (simp add: settled_job_def)
    qed
    then obtain l1 where l1: "calm l l1" "lf_disp l1 = d'" "lf_stage l1 = lf_stage l" by blast
    have "disp_good (lf_disp l1)" using disp_good_step [OF e(1) less.prems] by (simp add: l1(2))
    with less.hyps [of l1] e(3) l1 calm_trans [OF l1(1)] show ?thesis by fastforce
  qed
qed

lemma no_workers_accept:
  assumes "disp_good d" "d_workers d = []"
  shows "can_accept d" "fst (enqueue j d)"
proof -
  have "weigh length (d_queues d) = 0"
  proof -
    have "q = []" if "(c, q) \<in> set (d_queues d)" for c q
      using no_worker_no_work(1) [of d c] assms that by (simp add: disp_good_def queue_of_def disp_ok_def)
    then have "\<forall>x \<in> set (d_queues d). (length \<circ> snd) x = 0" by auto
    then show ?thesis by (simp add: weigh_def sum_list_eq_0_iff)
  qed
  then have "d_pending d < d_max_queue d" using assms(1) by (simp add: disp_good_def disp_ok_def)
  then show "can_accept d" "fst (enqueue j d)" by (simp_all add: can_accept_def enqueue_def Let_def)
qed

text \<open>With idle workers the driver can finish its turn.\<close>

text \<open>The driver's own tick.\<close>

lemma direct_finishes:
  assumes "lf_stage l = Direct ids m c"
  shows "\<exists>l'. calm l l' \<and> lf_stage l' = Idle"
proof -
  define l' where "l' = l\<lparr>lf_stage := Idle, lf_chats := snd (turn_direct [] [] [] ids c (Inr ''ok'') (lf_chats l))\<rparr>"
  have "strip_memory_context ''ok'' \<noteq> []"
    by (simp add: strip_memory_context_def open_tag_def strip_def lstrip_def is_space_def)
  then have "pend l' \<subseteq> pend l" by (auto simp: l'_def pend_def turn_direct_def dest: pending_marked)
  then have "calm l l'" unfolding l'_def by (intro calmI [OF life_step.life_direct [OF assms]]) simp_all
  then show ?thesis by (intro exI [of _ l']) (simp add: l'_def)
qed

lemma ready_finishes:
  assumes "disp_good (lf_disp l)" "d_workers (lf_disp l) = []" "lf_stage l = Ready ids m c"
  shows "\<exists>l'. calm l l' \<and> lf_stage l' = Idle"
proof -
  define ctx where "ctx = resolve_tick_dispatch_context empty_world 0 ''chat'' (Some c) True False"
  define j where "j = build_tick_job ctx ''chat'' m (Some c) ids"
  define l1 where "l1 = (if dispatcher_enabled (lf_disp l)
    then l\<lparr>lf_stage := Idle, lf_chats := lf_chats l, lf_disp := snd (enqueue j (lf_disp l))\<rparr>
    else l\<lparr>lf_stage := Direct ids m c, lf_chats := lf_chats l, lf_disp := lf_disp l\<rparr>)"
  have "life_step l l1"
  proof (cases "dispatcher_enabled (lf_disp l)")
    case True
    have "turn_dispatch empty_world 0 ids m c (lf_chats l) (Some (lf_disp l)) =
        (Idle, lf_chats l, Some (snd (enqueue j (lf_disp l))), Some (dc_cycle ctx))"
      using True no_workers_accept(2) [OF assms(1,2), of j]
      by (simp add: turn_dispatch_def tick_dispatcher_state_def try_dispatch_tick_job_def Let_def case_prod_beta
          j_def [symmetric] ctx_def [symmetric])
    from life_step.life_dispatch [OF assms(3) this] True show ?thesis by (simp add: l1_def)
  next
    case False
    then have "turn_dispatch empty_world 0 ids m c (lf_chats l) (Some (lf_disp l)) =
        (Direct ids m c, lf_chats l, Some (lf_disp l), None)"
      by (simp add: turn_dispatch_def tick_dispatcher_state_def)
    from life_step.life_dispatch [OF assms(3) this] False show ?thesis by (simp add: l1_def)
  qed
  then have l1: "calm l l1" by (intro calmI) (simp_all add: l1_def pend_def)
  have "\<exists>l'. calm l1 l' \<and> lf_stage l' = Idle"
  proof (cases "dispatcher_enabled (lf_disp l)")
    case True
    then show ?thesis using calm_refl by (intro exI [of _ l1]) (simp add: l1_def)
  next
    case False
    then show ?thesis by (intro direct_finishes) (simp add: l1_def)
  qed
  with calm_trans [OF l1] show ?thesis by blast
qed

lemma pend_claim: "pend (l\<lparr>lf_stage := st, lf_chats := snd (claim ids (lf_chats l))\<rparr>) \<subseteq> pend l - set ids"
  by (auto simp: pend_def user_row_claim)

lemma drained_finishes:
  assumes "disp_good (lf_disp l)" "d_workers (lf_disp l) = []" "lf_stage l = Drained i m c sel"
  shows "\<exists>l'. calm l l' \<and> lf_stage l' = Idle"
proof -
  obtain st t where st: "turn_drain i m c sel (lf_chats l) = (st, t)" by fastforce
  define l1 where "l1 = l\<lparr>lf_stage := st, lf_chats := t\<rparr>"
  have "t = lf_chats l \<or> t = snd (claim (map fst sel) (lf_chats l))"
    using st by (auto simp: turn_drain_def drain_claim_def Let_def split: prod.splits if_splits)
  then have "pend l1 \<subseteq> pend l" using pend_claim [where l = l and st = st and ids = "map fst sel"] by (auto simp: l1_def pend_def)
  then have l1: "calm l l1" unfolding l1_def by (intro calmI [OF life_step.life_drain [OF assms(3) st]]) simp_all
  have "lf_stage l1 = Ready (reserved i @ filter (\<lambda>j. 0 < j) (map fst (fst (drain_claim sel (lf_chats l)))))
      (merge_message m (fst (drain_claim sel (lf_chats l)))) c"
    using st by (simp add: l1_def turn_drain_def case_prod_beta)
  from ready_finishes [OF _ _ this] assms(1,2) calm_trans [OF l1] show ?thesis by (auto simp: l1_def)
qed

lemma popped_finishes:
  assumes "disp_good (lf_disp l)" "d_workers (lf_disp l) = []" "lf_stage l = Popped i m c"
  shows "\<exists>l'. calm l l' \<and> lf_stage l' = Idle"
proof -
  define l1 where "l1 = l\<lparr>lf_stage := Drained i m c (drain_select c i (lf_chats l))\<rparr>"
  have l1: "calm l l1" unfolding l1_def by (intro calmI [OF life_step.life_followups [OF assms(3)]]) simp_all
  from drained_finishes [of l1] assms(1,2) calm_trans [OF l1] show ?thesis by (auto simp: l1_def)
qed

lemma turn_claim_stages:
  "fst (turn_claim i r t) = Idle \<or> (\<exists>j m c. fst (turn_claim i r t) = Popped j m c) \<or>
   (\<exists>ids m c. fst (turn_claim i r t) = Ready ids m c)"
  by (auto simp: turn_claim_def split: prod.split option.split)

text \<open>A claimed message is no longer pending.\<close>

lemma selected_finishes:
  assumes "disp_good (lf_disp l)" "d_workers (lf_disp l) = []" "lf_stage l = Selected i r"
  shows "\<exists>l'. calm l l' \<and> lf_stage l' = Idle \<and> (tbl_ok (lf_chats l) \<longrightarrow> i \<notin> pend l')"
proof -
  obtain st t where st: "turn_claim i r (lf_chats l) = (st, t)" by fastforce
  define l1 where "l1 = l\<lparr>lf_stage := st, lf_chats := t\<rparr>"
  have t: "t = lf_chats l \<and> fst (claim [i] (lf_chats l)) = 0 \<or> t = snd (claim [i] (lf_chats l))"
    using st by (auto simp: turn_claim_def pop_claim_def Let_def split: prod.splits if_splits)
  then have p: "pend l1 \<subseteq> pend l" "tbl_ok (lf_chats l) \<longrightarrow> i \<notin> pend l1"
    using pend_claim [where l = l and st = st and ids = "[i]"] claim_none [of "lf_chats l" "[i]"]
    by (auto simp: l1_def pend_def user_row_def)
  have l1: "calm l l1"
    using p(1) unfolding l1_def by (intro calmI [OF life_step.life_claim [OF assms(3) st]]) simp_all
  have d1: "disp_good (lf_disp l1)" "d_workers (lf_disp l1) = []" using assms(1,2) by (simp_all add: l1_def)
  have "\<exists>l'. calm l1 l' \<and> lf_stage l' = Idle"
    using turn_claim_stages [of i r "lf_chats l"] ready_finishes [OF d1] popped_finishes [OF d1] calm_refl [of l1]
    by (auto simp: st l1_def)
  then obtain l' where "calm l1 l'" "lf_stage l' = Idle" by blast
  with p(2) calm_trans [OF l1] show ?thesis by (intro exI [of _ l']) (auto simp: calm_def)
qed

lemma stage_finishes:
  assumes "disp_good (lf_disp l)"
  shows "\<exists>l'. calm l l' \<and> lf_stage l' = Idle \<and> d_workers (lf_disp l') = []"
proof -
  obtain l1 where l1: "calm l l1" "d_workers (lf_disp l1) = []" "lf_stage l1 = lf_stage l"
    using workers_finish [OF assms] by blast
  have d1: "disp_good (lf_disp l1)" using l1(1) disp_good_steps [OF _ assms] by (auto simp: calm_def)
  have "\<exists>l2. calm l1 l2 \<and> lf_stage l2 = Idle"
  proof (cases "lf_stage l1")
    case (Direct ids m c)
    then show ?thesis by (rule direct_finishes)
  qed (use calm_refl selected_finishes [OF d1 l1(2)] popped_finishes [OF d1 l1(2)] drained_finishes [OF d1 l1(2)]
      ready_finishes [OF d1 l1(2)] in blast)+
  then obtain l2 where l2: "calm l1 l2" "lf_stage l2 = Idle" by blast
  have "disp_good (lf_disp l2)" using l2(1) disp_good_steps [OF _ d1] by (auto simp: calm_def)
  from workers_finish [OF this] obtain l3 where "calm l2 l3" "d_workers (lf_disp l3) = []" "lf_stage l3 = Idle"
    using l2(2) by auto
  with calm_trans [OF calm_trans [OF l1(1) l2(1)]] show ?thesis by blast
qed

lemma finite_pend: "finite (pend l)"
proof -
  have "pend l \<subseteq> dom (tbl_get (lf_chats l))" by (auto simp: pend_def user_row_def)
  moreover have "finite (dom (tbl_get (lf_chats l)))"
    using finite_dom_map_of [of "rows (lf_chats l)"] by (simp add: tbl_get_def [abs_def])
  ultimately show ?thesis by (rule finite_subset)
qed

lemma select_finds:
  assumes "tbl_ok t" "user_row ''pending'' t i"
  obtains j r where "pop_select t = Some (j, r)" "user_row ''pending'' t j"
proof -
  from assms(2) obtain r where "tbl_get t i = Some r" "user_pending r" by (auto simp: user_row_def user_pending_def)
  then have "tbl_select (\<lambda>i r. user_pending r) t \<noteq> []"
    using set_tbl_select [OF assms(1), of i r "\<lambda>i r. user_pending r"] by (metis empty_iff list.set(1))
  then have "pop_select t \<noteq> None" by (auto simp: pop_select_def split: list.split)
  then obtain j q where j: "pop_select t = Some (j, q)" by (metis option.exhaust surj_pair)
  from that [OF j] pop_select_Some(1,2) [OF assms(1) j] user_pending_row show ?thesis by blast
qed

lemma rounds:
  assumes "life_ok l" "disp_good (lf_disp l)"
  shows "\<exists>l'. calm l l' \<and> lf_stage l' = Idle \<and> d_workers (lf_disp l') = [] \<and> pend l' = {}"
  using assms
proof (induction "card (pend l)" arbitrary: l rule: less_induct)
  case less
  obtain l1 where l1: "calm l l1" "lf_stage l1 = Idle" "d_workers (lf_disp l1) = []"
    using stage_finishes [OF less.prems(2)] by blast
  have good1: "life_ok l1" "disp_good (lf_disp l1)"
    using l1(1) life_ok_steps less.prems(1) disp_good_steps less.prems(2) unfolding calm_def by blast+
  show ?case
  proof (cases "pend l1 = {}")
    case True
    with l1 show ?thesis by blast
  next
    case False
    then obtain i where i: "user_row ''pending'' (lf_chats l1) i" by (auto simp: pend_def)
    have ok1: "tbl_ok (lf_chats l1)" using good1(1) by (simp add: life_ok_def)
    obtain j r where j: "pop_select (lf_chats l1) = Some (j, r)" "user_row ''pending'' (lf_chats l1) j"
      by (rule select_finds [OF ok1 i])
    define l2 where "l2 = l1\<lparr>lf_stage := turn_select (lf_chats l1)\<rparr>"
    have l2: "calm l1 l2" unfolding l2_def
      by (intro calmI [OF life_step.life_select [OF l1(2) no_workers_accept(1) [OF good1(2) l1(3)]]]) simp_all
    have st2: "lf_stage l2 = Selected j r" by (simp add: l2_def turn_select_def j(1))
    have d2: "disp_good (lf_disp l2)" "d_workers (lf_disp l2) = []" using good1(2) l1(3) by (simp_all add: l2_def)
    obtain l3 where l3: "calm l2 l3" "j \<notin> pend l3"
      using selected_finishes [OF d2 st2] ok1 by (auto simp: l2_def)
    note c3 = calm_trans [OF l1(1) calm_trans [OF l2 l3(1)]]
    have "j \<in> pend l1" using j(2) by (simp add: pend_def)
    moreover have "pend l1 \<subseteq> pend l" using l1(1) by (simp add: calm_def)
    ultimately have "pend l3 \<subset> pend l" using c3 l3(2) unfolding calm_def by blast
    then have small: "card (pend l3) < card (pend l)" by (rule psubset_card_mono [OF finite_pend])
    have good3: "life_ok l3" "disp_good (lf_disp l3)"
      using c3 life_ok_steps less.prems(1) disp_good_steps less.prems(2) unfolding calm_def by blast+
    from less.hyps [OF small good3] calm_trans [OF c3] show ?thesis by blast
  qed
qed

text \<open>C9: No message is stuck as long as nothing fails: from every reachable state the driver and the
  workers can go on, without any new message or failure, until no user message is pending and none is
  in processing but those that had been lost before.\<close>

theorem all_messages_can_be_handled:
  assumes "tbl_ok t" "life_step\<^sup>*\<^sup>* (start_life mc mq t) l"
  shows "\<exists>l'. life_step\<^sup>*\<^sup>* l l' \<and> lf_lost l' = lf_lost l \<and>
    (\<forall>i. \<not> user_row ''pending'' (lf_chats l') i) \<and>
    (\<forall>i. user_row ''processing'' (lf_chats l') i \<longleftrightarrow> i \<in> set (lf_lost l))"
proof -
  have ok: "life_ok l" by (rule life_ok_steps [OF assms(2) life_ok_start [OF assms(1)]])
  have good: "disp_good (lf_disp l)"
    by (rule disp_good_steps [OF assms(2)]) (simp add: start_life_def disp_good_new)
  obtain l' where l': "calm l l'" "lf_stage l' = Idle" "d_workers (lf_disp l') = []" "pend l' = {}"
    using rounds [OF ok good] by blast
  have ok': "life_ok l'" "disp_good (lf_disp l')"
    using l'(1) ok good life_ok_steps disp_good_steps unfolding calm_def by blast+
  have "holds l' h = []" for h
    using no_worker_no_work [of "lf_disp l'"] ok'(2) l'(2,3)
    by (cases h) (simp_all add: job_ids_def disp_good_def)
  with ok'(1) have "user_row ''processing'' (lf_chats l') i \<longleftrightarrow> i \<in> set (lf_lost l')" for i
    by (simp add: life_ok_def)
  with l' show ?thesis by (intro exI [of _ l']) (auto simp: calm_def pend_def)
qed

section \<open>The turn as it is written\<close>

text \<open>A state of the driver function and the state of the run it stands for.\<close>

definition stands_for :: "turn_state \<Rightarrow> life \<Rightarrow> bool" where
  "stands_for s l \<longleftrightarrow> lf_chats l = ts_chats s \<and> ts_disp s = Some (lf_disp l) \<and> lf_stage l = Idle"

lemma finish_turn_steps:
  assumes "dispatcher_enabled (lf_disp l)" "lf_stage l = Ready ids m c"
    and "finish_turn tick now cutoff ph cycle (Ready ids m c) s = (r, s')"
    and "lf_chats l = ts_chats s" "ts_disp s = Some (lf_disp l)"
  shows "\<exists>l'. life_step\<^sup>*\<^sup>* l l' \<and> stands_for s' l' \<and> lf_lost l' = lf_lost l"
proof -
  obtain st t od cyc where td: "turn_dispatch (ts_world s) (ts_cycles s) ids m c (ts_chats s) (ts_disp s) = (st, t, od, cyc)"
    by (metis prod_cases4)
  have "st = Idle \<and> (\<exists>d. od = Some d)"
    using td assms(1,5)
    by (auto simp: turn_dispatch_def tick_dispatcher_state_def try_dispatch_tick_job_def Let_def
        split: if_splits prod.splits)
  then obtain d where d: "st = Idle" "od = Some d" by blast
  have s': "s' = s\<lparr>ts_chats := t, ts_disp := Some d, ts_cycles := ts_cycles s + 1\<rparr>"
    using assms(3) td by (simp add: finish_turn_def d)
  have "turn_dispatch (ts_world s) (ts_cycles s) ids m c (lf_chats l) (Some (lf_disp l)) = (Idle, t, Some d, cyc)"
    using td assms(4,5) by (simp add: d)
  from life_step.life_dispatch [OF assms(2) this] show ?thesis
    by (intro exI [of _ "l\<lparr>lf_stage := Idle, lf_chats := t, lf_disp := d\<rparr>"]) (simp add: stands_for_def s')
qed

lemma turn_prefix_runs:
  assumes "lf_stage l = Idle" "can_accept (lf_disp l)" "turn_select (lf_chats l) = Selected i q"
    and "turn_claim i q (lf_chats l) = (st, t)"
    and "x = (case st of Popped j m c \<Rightarrow> turn_drain j m c (drain_select c j t) t | _ \<Rightarrow> (st, t))"
  shows "life_step\<^sup>*\<^sup>* l (l\<lparr>lf_stage := fst x, lf_chats := snd x\<rparr>)"
proof -
  define l1 where "l1 = l\<lparr>lf_stage := Selected i q\<rparr>"
  define l2 where "l2 = l1\<lparr>lf_stage := st, lf_chats := t\<rparr>"
  have "life_step l l1" using life_step.life_select [OF assms(1,2)] by (simp add: l1_def assms(3))
  moreover have "life_step l1 l2" unfolding l2_def
    by (rule life_step.life_claim [of l1 i q]) (simp_all add: l1_def assms(4))
  ultimately have run: "life_step\<^sup>*\<^sup>* l l2" by simp
  consider j m c where "st = Popped j m c" | "x = (st, t)"
    using turn_claim_stages [of i q "lf_chats l"] assms(5) by (auto simp: assms(4))
  then show ?thesis
  proof cases
    case (1 j m c)
    define l3 where "l3 = l2\<lparr>lf_stage := Drained j m c (drain_select c j t)\<rparr>"
    have "life_step l2 l3"
      using life_step.life_followups [of l2 j m c] by (simp add: l3_def l2_def 1)
    moreover have "life_step l3 (l3\<lparr>lf_stage := fst x, lf_chats := snd x\<rparr>)"
      by (rule life_step.life_drain [of l3 j m c "drain_select c j t"]) (simp_all add: l3_def l2_def assms(5) 1)
    ultimately show ?thesis using run by (simp add: l3_def l2_def l1_def)
  next
    case 2
    with run show ?thesis by (simp add: l2_def l1_def)
  qed
qed

text \<open>The driver's function is a run of the model: with the dispatcher on, a whole turn of
  \<open>_process_pending_chat_turn\<close> does to the messages and to the dispatcher what a sequence of its
  stages does when nothing comes in between, and leaves the driver idle and no message lost.\<close>

theorem turn_is_a_run:
  assumes "dispatcher_enabled (lf_disp l)" "stands_for s l"
    and "process_pending_chat_turn tick now cutoff ph cycle s = (r, s')"
  shows "\<exists>l'. life_step\<^sup>*\<^sup>* l l' \<and> stands_for s' l' \<and> lf_lost l' = lf_lost l"
proof -
  have same: "lf_chats l = ts_chats s" "ts_disp s = Some (lf_disp l)" "lf_stage l = Idle"
    using assms(2) by (simp_all add: stands_for_def)
  show ?thesis
  proof (cases "can_accept (lf_disp l) \<and> turn_select (ts_chats s) \<noteq> Idle")
    case False
    then have "s' = s"
      using assms(1,3) same(2)
      by (auto simp: process_pending_chat_turn_def tick_dispatcher_state_def split: if_splits)
    then show ?thesis using assms(2) by blast
  next
    case True
    then obtain i q where sel: "turn_select (ts_chats s) = Selected i q"
      by (auto simp: turn_select_def split: option.splits)
    obtain st t where cl: "turn_claim i q (ts_chats s) = (st, t)" by fastforce
    define x where "x = (case st of Popped j m c \<Rightarrow> turn_drain j m c (drain_select c j t) t | _ \<Rightarrow> (st, t))"
    define l1 where "l1 = l\<lparr>lf_stage := fst x, lf_chats := snd x\<rparr>"
    have run: "life_step\<^sup>*\<^sup>* l l1"
      unfolding l1_def by (rule turn_prefix_runs) (use True sel cl same x_def in simp_all)
    have fin: "finish_turn tick now cutoff ph cycle (fst x) (s\<lparr>ts_chats := snd x\<rparr>) = (r, s')"
      using assms(3) process_turn_selected [OF _ sel cl, of tick now cutoff ph cycle] True same(2) assms(1)
      by (simp add: x_def tick_dispatcher_state_def Let_def)
    consider "fst x = Idle" | ids m c where "fst x = Ready ids m c"
      using turn_claim_stages [of i q "ts_chats s"] turn_drain_ready
      by (auto simp: cl x_def) (metis fst_conv)+
    then show ?thesis
    proof cases
      case 1
      then have "s' = s\<lparr>ts_chats := snd x\<rparr>" using fin by (simp add: finish_turn_def)
      with run same 1 show ?thesis by (intro exI [of _ l1]) (simp add: stands_for_def l1_def)
    next
      case (2 ids m c)
      with finish_turn_steps [of l1, OF _ _ fin [unfolded 2]] assms(1) same(2) rtranclp_trans [OF run] show ?thesis
        by (fastforce simp: l1_def)
    qed
  qed
qed

section \<open>A job that the guard cancels\<close>

definition hi_row :: chat_row where
  "hi_row = \<lparr>crow_role = ''user'', crow_content = ''hi'', crow_session = [], crow_status = ''pending'', crow_created_at = []\<rparr>"

definition one_message :: chats where
  "one_message = \<lparr>seq = 1, rows = [(1, hi_row)]\<rparr>"

lemma one_message_ok: "tbl_ok one_message"
  by (simp add: one_message_def tbl_ok_def)

definition chat_job :: tick_job where
  "chat_job = build_tick_job (resolve_tick_dispatch_context empty_world 0 ''chat'' (Some []) True False) ''chat'' ''hi'' (Some []) [1]"

definition taken_message :: chats where
  "taken_message = snd (claim [1] one_message)"

lemma one_message_steps:
  "turn_select one_message = Selected 1 hi_row"
  "turn_claim 1 hi_row one_message = (Ready [1] ''hi'' [], taken_message)"
  "user_row ''processing'' taken_message 1" "recover_processing one_message = one_message"
  by (simp_all add: turn_select_def pop_select_def tbl_select_def one_message_def user_pending_def hi_row_def
      turn_claim_def pop_claim_def claim_def tbl_count_where_def tbl_update_where_def reserved_def taken_message_def
      user_row_def tbl_get_def recover_processing_def)

text \<open>The message is taken, handed over, run and cancelled.\<close>

lemma cancelled_run:
  "\<exists>l. life_step\<^sup>*\<^sup>* (start_life 2 8 one_message) l \<and> lf_lost l = [1]"
proof -
  define d0 d1 k where "d0 = new_dispatcher 2 8" and "d1 = snd (enqueue chat_job d0)" and "k = j_chain_key chat_job"
  have d0: "worker_of d0 x = None" "queue_of d0 x = []" "d_pending d0 < d_max_queue d0" "dispatcher_enabled d0"
    "d_running d0 = 0" "d_max_concurrent d0 = 2" for x
    by (simp_all add: d0_def worker_of_def queue_of_def new_dispatcher_def at_least_one_def dispatcher_enabled_def)
  have d1: "queue_of d1 k = [chat_job]" "worker_of d1 k = Some Top" "fst (enqueue chat_job d0)"
    "d_running d1 = 0" "d_max_concurrent d1 = 2"
    using d0 by (simp_all add: d1_def k_def enqueue_of) (simp_all add: enqueue_def Let_def)
  define d2 where "d2 = worker_next k d1"
  have d2: "worker_of d2 k = Some (Waiting chat_job)" "d_running d2 = 0" "d_max_concurrent d2 = 2"
    using worker_next_of [OF d1(2)] d1 by (simp_all add: d2_def worker_next_def)
  define d3 where "d3 = worker_acquire k d2"
  have d3: "worker_of d3 k = Some (Running chat_job)"
    by (simp add: d3_def worker_acquire_def d2 worker_of_update)
  define l0 where "l0 = start_life 2 8 one_message"
  define l1 where "l1 = l0\<lparr>lf_stage := turn_select (lf_chats l0)\<rparr>"
  define l2 where "l2 = l1\<lparr>lf_stage := Ready [1] ''hi'' [], lf_chats := taken_message\<rparr>"
  define l3 where "l3 = l2\<lparr>lf_stage := Idle, lf_chats := taken_message, lf_disp := d1\<rparr>"
  define l4 where "l4 = l3\<lparr>lf_disp := d2\<rparr>"
  define l5 where "l5 = l4\<lparr>lf_disp := d3\<rparr>"
  define l6 where "l6 = settled_job Cancelled chat_job k l5"
  have l0: "lf_disp l0 = d0" "lf_chats l0 = one_message" "lf_stage l0 = Idle" "lf_lost l0 = []"
    by (simp_all add: l0_def start_life_def d0_def one_message_steps)
  have l1: "lf_stage l1 = Selected 1 hi_row" "lf_chats l1 = one_message" "lf_disp l1 = d0"
    by (simp_all add: l1_def l0 one_message_steps)
  have "life_step l0 l1"
    unfolding l1_def by (rule life_step.life_select) (simp_all add: l0 can_accept_def d0)
  moreover have "life_step l1 l2"
    unfolding l2_def by (rule life_step.life_claim [OF l1(1)]) (simp add: l1 one_message_steps)
  moreover have "turn_dispatch empty_world 0 [1] ''hi'' [] taken_message (Some d0) = (Idle, taken_message, Some d1,
      Some (dc_cycle (resolve_tick_dispatch_context empty_world 0 ''chat'' (Some []) True False)))"
    using d0(4) d1(3)
    by (simp add: turn_dispatch_def tick_dispatcher_state_def try_dispatch_tick_job_def chat_job_def [symmetric]
        d1_def Let_def case_prod_beta)
  then have "life_step l2 l3"
    unfolding l3_def by (intro life_step.life_dispatch) (simp_all add: l2_def l1(3))
  moreover have "life_step l3 l4" unfolding l4_def d2_def using life_step.life_next [of l3 k] by (simp add: l3_def)
  moreover have "life_step l4 l5" unfolding l5_def d3_def using life_step.life_acquire [of l4 k] by (simp add: l4_def)
  moreover have "life_step l5 l6" unfolding l6_def by (rule life_step.life_finish) (simp add: l5_def d3)
  ultimately have "life_step\<^sup>*\<^sup>* l0 l6" by (meson converse_rtranclp_into_rtranclp rtranclp.rtrancl_refl)
  moreover have "lf_lost l6 = [1]"
    by (simp add: l6_def settled_job_def l5_def l4_def l3_def l2_def l1_def l0 chat_job_def build_tick_job_def)
  ultimately show ?thesis unfolding l0_def by blast
qed

theorem lost_message_stays_witness:
  "\<exists>l. life_step\<^sup>*\<^sup>* (start_life 2 8 one_message) l \<and> user_row ''processing'' (lf_chats l) 1 \<and>
     (\<forall>h. 1 \<notin> set (holds l h))"
proof -
  obtain l where l: "life_step\<^sup>*\<^sup>* (start_life 2 8 one_message) l" "lf_lost l = [1]" using cancelled_run by blast
  have "1 \<in> set (lf_lost l)" by (simp add: l(2))
  from lost_message_stays [OF one_message_ok l(1) this rtranclp.rtrancl_refl] l(1) show ?thesis by blast
qed

theorem message_held_once_witness:
  "\<not> user_row ''processing'' (lf_chats (start_life 2 8 one_message)) 1"
  using message_held_once [OF one_message_ok rtranclp.rtrancl_refl, of 2 8 1]
  by (auto simp: start_life_def job_ids_def in_hand_def worker_of_def queue_of_def new_dispatcher_def holds_def
      split: option.splits)

theorem all_messages_can_be_handled_witness:
  "\<exists>l. life_step\<^sup>*\<^sup>* (start_life 2 8 one_message) l \<and> \<not> user_row ''pending'' (lf_chats l) 1 \<and>
     \<not> user_row ''processing'' (lf_chats l) 1"
  using all_messages_can_be_handled [OF one_message_ok rtranclp.rtrancl_refl, of 2 8]
  by (auto simp: start_life_def)

definition demo_turn :: turn_state where
  "demo_turn = \<lparr>ts_world = empty_world, ts_chats = one_message, ts_disp = Some (new_dispatcher 2 8), ts_cycles = 0\<rparr>"

theorem turn_is_a_run_witness:
  "\<exists>l'. life_step\<^sup>*\<^sup>* (start_life 2 8 one_message) l' \<and>
     lf_chats l' = ts_chats (snd (process_pending_chat_turn (\<lambda>n m c s. (Inr m, s)) [] [] [] 0 demo_turn)) \<and> lf_stage l' = Idle"
proof -
  have "dispatcher_enabled (lf_disp (start_life 2 8 one_message))"
    by (simp add: start_life_def dispatcher_enabled_def new_dispatcher_def at_least_one_def)
  moreover have "stands_for demo_turn (start_life 2 8 one_message)"
    by (simp add: stands_for_def demo_turn_def start_life_def one_message_steps)
  ultimately show ?thesis
    using turn_is_a_run [OF _ _ prod.collapse [symmetric], of "start_life 2 8 one_message" demo_turn
        "\<lambda>n m c s. (Inr m, s)" "[]" "[]" "[]" 0]
    by (auto simp: stands_for_def)
qed

end
