(* ===== verification/Run_Profile.thy ===== *)
theory Run_Profile
  imports Py_More
begin

text \<open>
  The tables behind a run: the model tiers of \<open>core/judgment/tiers.py\<close>, the run types and workers of
  \<open>core/execution/run_profile.py\<close>, the routing of \<open>routing.py\<close> and the choice of \<open>task_tier.py\<close>. The
  routing the model catalog delivers and the capabilities of the tool registry are arguments.
\<close>

section \<open>Tiers\<close>

definition judgment_tiers :: "string list" where
  "judgment_tiers = [''reader'', ''reasoner'', ''repair'']"

definition normalize_tier_text :: "string \<Rightarrow> string" where
  "normalize_tier_text s = lower (strip s)"

definition is_judgment_tier :: "string \<Rightarrow> bool" where
  "is_judgment_tier s \<longleftrightarrow> normalize_tier_text s \<in> set judgment_tiers"

definition normalize_tier :: "string \<Rightarrow> string \<Rightarrow> string" where
  "normalize_tier fallback s = (if is_judgment_tier s then normalize_tier_text s else fallback)"

definition default_tier :: string where
  "default_tier = ''reasoner''"

definition fallback_tiers :: "string \<Rightarrow> bool \<Rightarrow> string list" where
  "fallback_tiers primary exclude_reader =
    (if \<not> is_judgment_tier primary
     then (if exclude_reader then [''repair'', ''reasoner''] else [''repair'', ''reasoner'', ''reader''])
     else filter (\<lambda>t. t \<noteq> normalize_tier default_tier primary \<and> (exclude_reader \<longrightarrow> t \<noteq> ''reader'')) judgment_tiers)"

definition is_reasoner_only_phase :: "string \<Rightarrow> bool" where
  "is_reasoner_only_phase phase \<longleftrightarrow> lower (strip phase) \<in> {''initial'', ''continue'', ''reply'', ''final''}"

text \<open>\<open>None\<close> and the empty text are no tier alike.\<close>

definition select_tier_for_phase :: "string \<Rightarrow> string \<Rightarrow> string" where
  "select_tier_for_phase phase prefer =
    (if is_judgment_tier prefer then normalize_tier default_tier prefer
     else if lower (strip phase) = ''repair'' then ''repair'' else ''reasoner'')"

definition should_exclude_reader_for_phase :: "string \<Rightarrow> string \<Rightarrow> bool" where
  "should_exclude_reader_for_phase phase prefer \<longleftrightarrow> \<not> is_judgment_tier prefer \<and> is_reasoner_only_phase phase"

definition retry_fallback_tier :: "string \<Rightarrow> string \<Rightarrow> string \<Rightarrow> string" where
  "retry_fallback_tier current phase fallback_prefer =
    (if fallback_prefer \<noteq> [] then normalize_tier default_tier fallback_prefer
     else (case fallback_tiers current (should_exclude_reader_for_phase phase []) of
        t # _ \<Rightarrow> t | [] \<Rightarrow> normalize_tier default_tier current))"

section \<open>Run types\<close>

record run_type_profile =
  rt_run_type :: string
  rt_worker_type :: string
  rt_default_tier :: string

definition task_default_tier :: string where
  "task_default_tier = ''task_default''"

definition profile_of :: "string \<Rightarrow> string \<Rightarrow> string \<Rightarrow> run_type_profile" where
  "profile_of t w tier = \<lparr>rt_run_type = t, rt_worker_type = w, rt_default_tier = tier\<rparr>"

definition run_type_profiles :: "run_type_profile list" where
  "run_type_profiles =
    [profile_of ''judge'' ''tool-chain-worker'' ''reader'',
     profile_of ''tool_chain'' ''tool-chain-worker'' task_default_tier,
     profile_of ''chat_reply'' ''tool-chain-worker'' ''reader'',
     profile_of ''evolve'' ''evolve-worker'' ''reasoner'',
     profile_of ''subagent'' ''subagent-worker'' task_default_tier,
     profile_of ''llm'' ''llm-worker'' ''reader'',
     profile_of ''exec'' ''exec-worker'' task_default_tier,
     profile_of ''multimodal'' ''multimodal-worker'' task_default_tier,
     profile_of ''probe'' ''tool-chain-worker'' ''reader'']"

definition run_type_profile_map :: "(string \<times> run_type_profile) list" where
  "run_type_profile_map = map (\<lambda>p. (rt_run_type p, p)) run_type_profiles"

definition run_type_default_tier :: "(string \<times> string) list" where
  "run_type_default_tier = map (\<lambda>p. (rt_run_type p, rt_default_tier p)) run_type_profiles"

definition normalize_run_type :: "string \<Rightarrow> string" where
  "normalize_run_type s = lower (strip s)"

definition run_type_profile_for :: "string \<Rightarrow> run_type_profile" where
  "run_type_profile_for s = (case map_of run_type_profile_map (normalize_run_type s) of
      Some p \<Rightarrow> p | None \<Rightarrow> profile_of ''tool_chain'' ''tool-chain-worker'' task_default_tier)"

definition resolve_default_tier_for_run_type :: "string \<Rightarrow> (string \<times> string) list \<Rightarrow> string" where
  "resolve_default_tier_for_run_type s routing = (let t = normalize_run_type s;
       mapped = (if t = [] then [] else case map_of routing t of Some v \<Rightarrow> strip v | None \<Rightarrow> [])
     in if mapped \<noteq> [] then mapped else rt_default_tier (run_type_profile_for t))"

definition worker_type_for_run_type :: "string \<Rightarrow> string" where
  "worker_type_for_run_type s = rt_worker_type (run_type_profile_for s)"

definition worker_limit_config_key :: "string \<Rightarrow> string" where
  "worker_limit_config_key w =
    (if w = ''exec-worker'' then ''max_exec_workers''
     else if w = ''multimodal-worker'' then ''max_multimodal_workers''
     else if w = ''llm-worker'' then ''max_llm_workers'' else ''max_tool_chain_workers'')"

section \<open>Which profile a tool runs under\<close>

definition has_monitor_signal :: "dict \<Rightarrow> bool" where
  "has_monitor_signal params \<longleftrightarrow>
     truthy (dict_get params ''monitor_fact_key'') \<or> truthy (dict_get params ''status_fact_key'')"

definition infer_by_name :: "string \<Rightarrow> (string \<times> string) option" where
  "infer_by_name tool = map_of [(''subagent.run'', (''subagent'', ''subagent-worker'')),
     (''evolution.evolve'', (''evolve'', ''evolve-worker'')),
     (''evolution.synthesize'', (''evolve'', ''evolve-worker''))] tool"

text \<open>\<open>caps\<close> are the capabilities of the tools of the registry; without a registry there are none.\<close>

definition infer_by_capability :: "string \<Rightarrow> (string \<Rightarrow> string list) option \<Rightarrow> (string \<times> string) option" where
  "infer_by_capability tool caps = (case caps of None \<Rightarrow> None
    | Some c \<Rightarrow> if tool = [] then None
        else if ''run_spawn'' \<in> set (c tool) then Some (''exec'', ''exec-worker'')
        else if ''multimodal'' \<in> set (c tool) then Some (''multimodal'', ''multimodal-worker'') else None)"

definition infer_run_profile :: "string \<Rightarrow> dict \<Rightarrow> (string \<Rightarrow> string list) option \<Rightarrow> string \<times> string" where
  "infer_run_profile tool params caps = (case infer_by_name tool of
      Some p \<Rightarrow> p
    | None \<Rightarrow> if has_monitor_signal params then (''llm'', ''llm-worker'')
        else (case infer_by_capability tool caps of Some p \<Rightarrow> p | None \<Rightarrow> (''tool_chain'', ''tool-chain-worker'')))"

section \<open>Routing\<close>

text \<open>Keys and values that are texts, trimmed and in lower case; \<open>None\<close> when nothing is left.\<close>

definition coerce_entry :: "pyval \<times> pyval \<Rightarrow> (string \<times> string) option" where
  "coerce_entry kv = (case kv of
      (PStr k, PStr v) \<Rightarrow> (let k' = lower (strip k); v' = lower (strip v)
         in if k' \<noteq> [] \<and> v' \<noteq> [] then Some (k', v') else None)
    | _ \<Rightarrow> None)"

definition coerce_run_type_override :: "(pyval \<times> pyval) list option \<Rightarrow> (string \<times> string) list option" where
  "coerce_run_type_override c = (case c of None \<Rightarrow> None
    | Some d \<Rightarrow> (let s = fold (\<lambda>kv acc. case coerce_entry kv of None \<Rightarrow> acc | Some (k, v) \<Rightarrow> AList.update k v acc) d []
        in if s = [] then None else Some s))"

definition overridden :: "(string \<times> string) list \<Rightarrow> (string \<times> string) list \<Rightarrow> (string \<times> string) list" where
  "overridden base new = fold (\<lambda>(k, v). AList.update k v) new base"

text \<open>\<open>catalog\<close> is what the model catalog delivers, \<open>None\<close> when reading it raises.\<close>

definition resolve_run_type_routing ::
    "(pyval \<times> pyval) list option \<Rightarrow> (pyval \<times> pyval) list option \<Rightarrow> (string \<times> string) list" where
  "resolve_run_type_routing catalog cfg =
    (let base = overridden run_type_default_tier
           (case coerce_run_type_override catalog of None \<Rightarrow> [] | Some c \<Rightarrow> c)
     in case coerce_run_type_override cfg of None \<Rightarrow> base | Some c \<Rightarrow> overridden base c)"

section \<open>The tier of a run\<close>

definition resolve_task_model_tier :: "string \<Rightarrow> string \<Rightarrow> (string \<times> string) list \<Rightarrow> string" where
  "resolve_task_model_tier task_tier run_type routing =
    (let explicit = normalize_tier [] task_tier
     in if explicit \<noteq> [] \<and> explicit \<noteq> task_default_tier then explicit
        else normalize_tier task_default_tier (resolve_default_tier_for_run_type run_type routing))"

record execution_profile =
  ep_run_type :: string
  ep_worker_type :: string
  ep_model_tier :: string

definition resolve_execution_dispatch ::
    "string \<Rightarrow> string \<Rightarrow> (string \<times> string) list \<Rightarrow> dict \<Rightarrow> (string \<Rightarrow> string list) option \<Rightarrow> execution_profile" where
  "resolve_execution_dispatch task_tier tool routing params caps =
    (let (t, w) = infer_run_profile tool params caps
     in \<lparr>ep_run_type = t, ep_worker_type = w, ep_model_tier = resolve_task_model_tier task_tier t routing\<rparr>)"

section \<open>Lemmas\<close>

lemma map_of_overridden: "map_of (overridden base new) k =
    (case map_of (rev new) k of None \<Rightarrow> map_of base k | Some v \<Rightarrow> Some v)"
proof (induction new arbitrary: base)
  case (Cons kv new)
  show ?case
    by (cases kv) (auto simp: overridden_def Cons.IH [unfolded overridden_def] update_conv' map_add_def
        split: option.split)
qed (simp add: overridden_def)

lemma normalize_judgment: "is_judgment_tier s \<Longrightarrow> normalize_tier f s \<in> set judgment_tiers"
  by (simp add: normalize_tier_def is_judgment_tier_def)

lemma judgment_tier_facts:
  "t \<in> set judgment_tiers \<Longrightarrow> t \<noteq> [] \<and> t \<noteq> task_default_tier"
  by (auto simp: judgment_tiers_def task_default_tier_def)

text \<open>The tier a tool runs at: an explicit tier of the task wins; otherwise the tier the routing gives
  the run type of the tool, and the built-in tier of that run type when the routing has none. A routing
  that names no judgment tier gives the default tier of tasks, whatever the built-in tier is; so the
  result is always one of the three judgment tiers or that default.\<close>

theorem run_tier_precedence:
  fixes task_tier tool :: string and routing :: "(string \<times> string) list" and params :: dict and caps
  defines "t \<equiv> normalize_run_type (fst (infer_run_profile tool params caps))"
    and "tier \<equiv> ep_model_tier (resolve_execution_dispatch task_tier tool routing params caps)"
  shows "tier \<in> insert task_default_tier (set judgment_tiers) \<and>
    tier = (if is_judgment_tier task_tier then normalize_tier_text task_tier
      else normalize_tier task_default_tier (case map_of routing t of
        Some v \<Rightarrow> if strip v = [] then rt_default_tier (run_type_profile_for t) else strip v
      | None \<Rightarrow> rt_default_tier (run_type_profile_for t)))"
proof -
  have t: "t \<noteq> []"
    by (auto simp: t_def infer_run_profile_def infer_by_name_def infer_by_capability_def normalize_run_type_def
        strip_def lstrip_def is_space_def lower_def split: option.split if_splits)
  have tier: "tier = resolve_task_model_tier task_tier (fst (infer_run_profile tool params caps)) routing"
    by (simp add: tier_def resolve_execution_dispatch_def case_prod_beta)
  have eq: "tier = (if is_judgment_tier task_tier then normalize_tier_text task_tier
      else normalize_tier task_default_tier (case map_of routing t of
        Some v \<Rightarrow> if strip v = [] then rt_default_tier (run_type_profile_for t) else strip v
      | None \<Rightarrow> rt_default_tier (run_type_profile_for t)))"
    using judgment_tier_facts [of "normalize_tier_text task_tier"] t
    by (auto simp: tier resolve_task_model_tier_def Let_def resolve_default_tier_for_run_type_def t_def [symmetric]
        normalize_tier_def [of "[]"] is_judgment_tier_def split: option.split)
  moreover have "normalize_tier task_default_tier s \<in> insert task_default_tier (set judgment_tiers)" for s
    by (simp add: normalize_tier_def is_judgment_tier_def)
  ultimately show ?thesis by (auto simp: is_judgment_tier_def)
qed

lemma coerced_distinct: "coerce_run_type_override c = Some m \<Longrightarrow> distinct (map fst m)"
proof -
  have "distinct (map fst acc) \<Longrightarrow> distinct (map fst (fold (\<lambda>kv acc. case coerce_entry kv of
      None \<Rightarrow> acc | Some (k, v) \<Rightarrow> AList.update k v acc) d acc))" for d :: "(pyval \<times> pyval) list" and acc
    by (induction d arbitrary: acc) (auto split: option.split simp: distinct_update)
  then show "coerce_run_type_override c = Some m \<Longrightarrow> distinct (map fst m)"
    by (auto simp: coerce_run_type_override_def Let_def split: option.splits if_splits)
qed

lemma map_of_rev_same: "distinct (map fst m) \<Longrightarrow> map_of (rev m) = map_of m"
  by (rule map_of_inject_rev)

lemma map_of_overridden_coerced:
  assumes "coerce_run_type_override c = Some m"
  shows "map_of (overridden base m) t = (case map_of m t of None \<Rightarrow> map_of base t | Some v \<Rightarrow> Some v)"
  using map_of_rev_same [OF coerced_distinct [OF assms]] by (simp add: map_of_overridden)

text \<open>The routing of run types: a tier in the configuration overrides the catalog, which overrides the
  built-in table, entry by entry.\<close>

theorem routing_precedence:
  "map_of (resolve_run_type_routing catalog cfg) t =
    (let entry = (\<lambda>c. case coerce_run_type_override c of None \<Rightarrow> None | Some m \<Rightarrow> map_of m t)
     in case entry cfg of Some v \<Rightarrow> Some v
        | None \<Rightarrow> (case entry catalog of Some v \<Rightarrow> Some v | None \<Rightarrow> map_of run_type_default_tier t))"
proof -
  define base where "base = overridden run_type_default_tier
      (case coerce_run_type_override catalog of None \<Rightarrow> [] | Some c \<Rightarrow> c)"
  have "overridden run_type_default_tier [] = run_type_default_tier" by (simp add: overridden_def)
  then have "map_of base t = (case (case coerce_run_type_override catalog of None \<Rightarrow> None | Some m \<Rightarrow> map_of m t) of
      Some v \<Rightarrow> Some v | None \<Rightarrow> map_of run_type_default_tier t)"
    by (cases "coerce_run_type_override catalog")
      (auto simp: base_def map_of_overridden_coerced split: option.split)
  moreover have "map_of (resolve_run_type_routing catalog cfg) t =
      (case (case coerce_run_type_override cfg of None \<Rightarrow> None | Some m \<Rightarrow> map_of m t) of
        Some v \<Rightarrow> Some v | None \<Rightarrow> map_of base t)"
    by (cases "coerce_run_type_override cfg")
      (auto simp: resolve_run_type_routing_def base_def map_of_overridden_coerced split: option.split)
  ultimately show ?thesis by (auto simp: Let_def split: option.split)
qed

text \<open>A judgment that is retried without a preferred tier moves to another tier, and in a phase reserved
  to the reasoner never to the reader.\<close>

theorem retry_moves_on:
  "retry_fallback_tier current phase [] \<in> set judgment_tiers \<and>
   retry_fallback_tier current phase [] \<noteq> normalize_tier_text current \<and>
   \<not> (is_reasoner_only_phase phase \<and> retry_fallback_tier current phase [] = ''reader'')"
proof -
  have none: "\<not> is_judgment_tier []"
    by (simp add: is_judgment_tier_def normalize_tier_text_def lower_def judgment_tiers_def)
  show ?thesis
  proof (cases "is_judgment_tier current")
    case True
    then consider "normalize_tier_text current = ''reader''" | "normalize_tier_text current = ''reasoner''"
      | "normalize_tier_text current = ''repair''"
      by (auto simp: is_judgment_tier_def judgment_tiers_def)
    then show ?thesis
      by cases (use True none in \<open>simp_all add: retry_fallback_tier_def fallback_tiers_def normalize_tier_def
        should_exclude_reader_for_phase_def judgment_tiers_def\<close>)
  next
    case False
    then show ?thesis
      by (auto simp: retry_fallback_tier_def fallback_tiers_def judgment_tiers_def is_judgment_tier_def)
  qed
qed

end
