(* ===== verification/Run_Poll.thy ===== *)
theory Run_Poll
  imports Chat_Turn Run_Profile
begin

text \<open>
  \<open>core/loop/runs/driver.py\<close>: the driver polls the oldest pending run. A run of type \<open>judge\<close> is claimed
  and becomes a tick job; the run is finished as soon as the job is queued, or pending again when the
  queue is full. Executing a tool is not modelled.
\<close>

section \<open>Polling\<close>

definition update_bootstrap_run :: "env \<Rightarrow> int \<Rightarrow> string \<Rightarrow> string \<Rightarrow> string \<Rightarrow> unit io" where
  "update_bootstrap_run e i status source_key message =
     submit_update_run e i (no_run_patch\<lparr>rp_status := Some status, rp_log_text := Some message\<rparr>)
       (if source_key = ''claim'' then ''loop/runs/driver/poll_pending_runs''
        else if source_key = ''requeue'' then ''loop/runs/driver/poll_pending_runs_requeue''
        else if source_key = ''enqueued'' then ''loop/runs/driver/poll_pending_runs_enqueued''
        else if source_key = ''tick'' then ''loop/runs/driver/poll_pending_runs_tick'' else source_key) i []"

type_synonym tick = "int \<Rightarrow> string \<Rightarrow> string option \<Rightarrow> turn_state \<Rightarrow> string res \<times> turn_state"

text \<open>An update whose failure is suppressed.\<close>

definition bootstrap_quietly :: "env \<Rightarrow> int \<Rightarrow> string \<Rightarrow> string \<Rightarrow> string \<Rightarrow> turn_state \<Rightarrow> turn_state" where
  "bootstrap_quietly e i status source_key message s =
     s\<lparr>ts_world := snd (update_bootstrap_run e i status source_key message (ts_world s))\<rparr>"

definition poll_dispatch :: "env \<Rightarrow> tick \<Rightarrow> int \<Rightarrow> int \<Rightarrow> turn_state \<Rightarrow> int option \<times> turn_state" where
  "poll_dispatch e tick i cycle s =
    (let (r, od) = try_dispatch_tick_job (ts_world s) (ts_cycles s) ''poll'' [] None [] False False (ts_disp s);
         s1 = s\<lparr>ts_disp := od, ts_cycles := ts_cycles s + 1\<rparr>
     in if dr_accepted r
        then (Some (dc_cycle (dr_context r)), bootstrap_quietly e i ''succeeded'' ''enqueued''
          ''[poll] TickJob enqueued, bootstrap Run completed'' s1)
        else if dr_can_retry r
        then (None, bootstrap_quietly e i ''pending'' ''requeue'' ''[poll] queue full, requeue'' s1)
        else (Some (cycle + 1), bootstrap_quietly e i ''succeeded'' ''tick''
          ''[poll] direct tick completed, bootstrap Run completed'' (snd (tick (cycle + 1) [] None s1))))"

definition poll_pending_runs :: "env \<Rightarrow> tick \<Rightarrow> int \<Rightarrow> turn_state \<Rightarrow> int option \<times> turn_state" where
  "poll_pending_runs e tick cycle s = (case get_pending_runs 1 (w_runs (ts_world s)) of
      [] \<Rightarrow> (None, s)
    | k # _ \<Rightarrow> if r_run_type k \<noteq> ''judge'' then (None, s)
        else (case update_bootstrap_run e (r_id k) ''running'' ''claim'' ''[poll] claimed by run_driver'' (ts_world s) of
            (Inl x, w) \<Rightarrow> (None, s\<lparr>ts_world := w\<rparr>)
          | (Inr u, w) \<Rightarrow> poll_dispatch e tick (r_id k) cycle (s\<lparr>ts_world := w\<rparr>)))"

section \<open>What a poll does\<close>

lemma update_bootstrap_run_effect:
  "\<exists>l. update_bootstrap_run e i status source_key message w =
    (Inr (), w\<lparr>w_runs := update_run (e_now_iso e) i
       (no_run_patch\<lparr>rp_status := Some status, rp_log_text := Some (clip_persistent_text message)\<rparr>) (w_runs w),
       w_ledger := l\<rparr>)"
proof -
  obtain src where src: "update_bootstrap_run e i status source_key message w =
      submit_update_run e i (no_run_patch\<lparr>rp_status := Some status, rp_log_text := Some message\<rparr>) src i [] w"
    by (simp add: update_bootstrap_run_def)
  let ?v = "run_patch_value (no_run_patch\<lparr>rp_status := Some status, rp_log_text := Some message\<rparr>)"
  let ?p = "build_proposal ''update_run'' (dec_int i) ?v ''run'' src i []"
  have patch: "run_patch_fields (proposal_data ?p) =
      no_run_patch\<lparr>rp_status := Some status, rp_log_text := Some (clip_persistent_text message)\<rparr>"
    by (simp add: run_patch_fields_def proposal_data_def build_proposal_def run_patch_value_def no_run_patch_def
        opt_val_def dict_get_def dict_field_def optional_str_field_def compact_persistent_mapping_def
        compact_persistent_value_def note_omitted_def)
  have "apply_state_write e ?p w = apply_update_run e ?p w"
    by (simp add: apply_state_write_def task_write_ops_def apply_task_write_def build_proposal_def)
  then have "apply_state_write e ?p w = (Inr (accepted_as PNone (''run:'' @ dec_int i)),
      w\<lparr>w_runs := update_run (e_now_iso e) i (run_patch_fields (proposal_data ?p)) (w_runs w)\<rparr>)"
    by (simp add: apply_update_run_def with_task_id_def proposal_task_id_def) (simp add: build_proposal_def)
  moreover have "check_tool_blocked (pseudo_tool_name ?p) = None"
    by (simp add: check_tool_blocked_def pseudo_tool_name_def default_blocked_tools_def build_proposal_def)
  ultimately show ?thesis
    by (auto simp: src submit_update_run_def submit_def bind_res_def append_lifecycle_ledger_def patch)
qed

lemma dispatch_enabled:
  assumes "dispatcher_enabled d"
  shows "try_dispatch_tick_job w n source m chat ids iw fb (Some d) =
    (let c = resolve_tick_dispatch_context w n source chat iw fb; ok = can_accept d
     in (\<lparr>dr_context = c, dr_accepted = ok, dr_can_retry = \<not> ok\<rparr>,
         Some (if ok then snd (enqueue (build_tick_job c source m chat ids) d) else d)))"
  using assms by (simp add: try_dispatch_tick_job_def can_accept_def enqueue_def Let_def)

definition run_status :: "runs \<Rightarrow> int \<Rightarrow> string option" where
  "run_status t i = map_option rrow_status (tbl_get t i)"

lemma run_status_update:
  "run_status (update_run now i (no_run_patch\<lparr>rp_status := Some st, rp_log_text := Some l\<rparr>) t) j =
    (if j = i \<and> st \<noteq> [] then map_option (\<lambda>s. st) (run_status t j) else run_status t j)"
  by (auto simp: run_status_def tbl_get_update_run patched_run_status option.map_comp comp_def)

lemma pending_head:
  assumes "tbl_ok t" "get_pending_runs 1 t = k # ks"
  shows "\<exists>r. tbl_get t (r_id k) = Some r \<and> rrow_status r = ''pending'' \<and> r_run_type k = rrow_run_type r"
proof -
  let ?sel = "sort_key (\<lambda>ir. rrow_created_at (snd ir)) (tbl_select (\<lambda>i r. rrow_status r = ''pending'') t)"
  obtain ir irs where ir: "sql_limit 1 ?sel = ir # irs" "k = run_from_row ir"
    using assms(2) by (auto simp: get_pending_runs_def map_eq_Cons_conv)
  then have "ir \<in> set ?sel" using set_sql_limit [of 1 ?sel] by auto
  moreover obtain i r where "ir = (i, r)" by fastforce
  ultimately show ?thesis using ir set_tbl_select [OF assms(1), of i r "\<lambda>i r. rrow_status r = ''pending''"] by simp
qed

text \<open>C13: Polling, with the dispatcher on. When the oldest pending run is a judge run it is finished with a
  tick job of the next cycle queued, or, when the queue is full, pending again with nothing queued; no
  other run changes its status, and tasks, facts and messages stay. Any other oldest run makes the poll
  do nothing, also when judge runs wait behind it.\<close>

theorem poll_outcome:
  assumes "tbl_ok (w_runs (ts_world s))" "ts_disp s = Some d" "dispatcher_enabled d"
    and "poll_pending_runs e tick cycle s = (c, s')"
  shows "(case get_pending_runs 1 (w_runs (ts_world s)) of
      [] \<Rightarrow> c = None \<and> s' = s
    | k # _ \<Rightarrow> if r_run_type k \<noteq> ''judge'' then c = None \<and> s' = s
        else (\<forall>i. run_status (w_runs (ts_world s')) i = (if i = r_id k
              then Some (if can_accept d then ''succeeded'' else ''pending'') else run_status (w_runs (ts_world s)) i)) \<and>
          c = (if can_accept d then Some (ts_cycles s + 1) else None) \<and>
          (\<exists>j. j_cycle j = ts_cycles s + 1 \<and> j_source j = ''poll'' \<and> j_chat_message_ids j = [] \<and>
             ts_disp s' = Some (if can_accept d then snd (enqueue j d) else d)) \<and>
          w_tasks (ts_world s') = w_tasks (ts_world s) \<and> w_facts (ts_world s') = w_facts (ts_world s) \<and>
          ts_chats s' = ts_chats s)"
proof (cases "get_pending_runs 1 (w_runs (ts_world s))")
  case Nil
  with assms(4) show ?thesis by (simp add: poll_pending_runs_def)
next
  case (Cons k ks)
  show ?thesis
  proof (cases "r_run_type k = ''judge''")
    case False
    with Cons assms(4) show ?thesis by (simp add: poll_pending_runs_def)
  next
    case True
    obtain r where r: "tbl_get (w_runs (ts_world s)) (r_id k) = Some r" "rrow_status r = ''pending''"
      using pending_head [OF assms(1) Cons] by blast
    obtain l where l: "update_bootstrap_run e (r_id k) ''running'' ''claim'' ''[poll] claimed by run_driver'' (ts_world s) =
        (Inr (), (ts_world s)\<lparr>w_runs := update_run (e_now_iso e) (r_id k) (no_run_patch\<lparr>rp_status := Some ''running'',
           rp_log_text := Some (clip_persistent_text ''[poll] claimed by run_driver'')\<rparr>) (w_runs (ts_world s)), w_ledger := l\<rparr>)"
      using update_bootstrap_run_effect by blast
    define s1 where "s1 = s\<lparr>ts_world := snd (update_bootstrap_run e (r_id k) ''running'' ''claim''
      ''[poll] claimed by run_driver'' (ts_world s))\<rparr>"
    have w1: "run_status (w_runs (ts_world s1)) i = (if i = r_id k then Some ''running'' else run_status (w_runs (ts_world s)) i)"
      "w_tasks (ts_world s1) = w_tasks (ts_world s)" "w_facts (ts_world s1) = w_facts (ts_world s)"
      "ts_disp s1 = Some d" "ts_cycles s1 = ts_cycles s" "ts_chats s1 = ts_chats s" for i
      using r assms(2) by (simp_all add: s1_def l run_status_update) (simp_all add: run_status_def)
    have quiet: "run_status (w_runs (ts_world (bootstrap_quietly e (r_id k) st sk m x))) i =
        (if i = r_id k \<and> st \<noteq> [] then map_option (\<lambda>s. st) (run_status (w_runs (ts_world x)) i) else run_status (w_runs (ts_world x)) i)"
      "w_tasks (ts_world (bootstrap_quietly e (r_id k) st sk m x)) = w_tasks (ts_world x)"
      "w_facts (ts_world (bootstrap_quietly e (r_id k) st sk m x)) = w_facts (ts_world x)"
      "ts_disp (bootstrap_quietly e (r_id k) st sk m x) = ts_disp x"
      "ts_chats (bootstrap_quietly e (r_id k) st sk m x) = ts_chats x" for st sk m x i
      using update_bootstrap_run_effect [of e "r_id k" st sk m "ts_world x"]
      by (auto simp: bootstrap_quietly_def run_status_update)
    define ctx where "ctx = resolve_tick_dispatch_context (ts_world s1) (ts_cycles s) ''poll'' None False False"
    have ctx: "dc_cycle ctx = ts_cycles s + 1" by (simp add: ctx_def resolve_tick_dispatch_context_def Let_def)
    have "poll_dispatch e tick (r_id k) cycle s1 = (c, s')"
      using assms(4) Cons True by (simp add: poll_pending_runs_def l s1_def)
    then have res: "c = (if can_accept d then Some (ts_cycles s + 1) else None)"
      "s' = bootstrap_quietly e (r_id k) (if can_accept d then ''succeeded'' else ''pending'')
         (if can_accept d then ''enqueued'' else ''requeue'')
         (if can_accept d then ''[poll] TickJob enqueued, bootstrap Run completed'' else ''[poll] queue full, requeue'')
         (s1\<lparr>ts_disp := Some (if can_accept d then snd (enqueue (build_tick_job ctx ''poll'' [] None []) d) else d),
            ts_cycles := ts_cycles s + 1\<rparr>)"
      by (auto simp: poll_dispatch_def w1 dispatch_enabled [OF assms(3)] ctx_def [symmetric] ctx Let_def split: if_splits)
    have job: "j_cycle (build_tick_job ctx ''poll'' [] None []) = ts_cycles s + 1"
      "j_source (build_tick_job ctx ''poll'' [] None []) = ''poll''"
      "j_chat_message_ids (build_tick_job ctx ''poll'' [] None []) = []"
      by (simp_all add: build_tick_job_def ctx)
    show ?thesis
      unfolding Cons using True job
      by (auto simp: res quiet w1 intro!: exI [of _ "build_tick_job ctx ''poll'' [] None []"])
  qed
qed

section \<open>A pending judge run\<close>

definition judge_row :: run_row where
  "judge_row = \<lparr>rrow_task_id = 0, rrow_run_type = ''judge'', rrow_worker_type = ''tool-chain-worker'',
     rrow_status = ''pending'', rrow_created_at = [], rrow_started_at = [], rrow_completed_at = [], rrow_data = None\<rparr>"

definition judge_turn :: turn_state where
  "judge_turn = \<lparr>ts_world = empty_world\<lparr>w_runs := \<lparr>seq = 1, rows = [(1, judge_row)]\<rparr>\<rparr>, ts_chats = empty_tbl,
     ts_disp = Some (new_dispatcher 2 8), ts_cycles = 4\<rparr>"

lemma judge_pending: "get_pending_runs 1 (w_runs (ts_world judge_turn)) = [run_from_row (1, judge_row)]"
  by (simp add: get_pending_runs_def judge_turn_def sql_limit_def tbl_select_def judge_row_def)

theorem poll_outcome_witness:
  "fst (poll_pending_runs demo_env (\<lambda>n m c s. (Inr [], s)) 0 judge_turn) = Some 5"
proof -
  let ?p = "poll_pending_runs demo_env (\<lambda>n m c s. (Inr [], s)) 0 judge_turn"
  have d: "tbl_ok (w_runs (ts_world judge_turn))" "ts_disp judge_turn = Some (new_dispatcher 2 8)"
    "dispatcher_enabled (new_dispatcher 2 8)" "can_accept (new_dispatcher 2 8)" "ts_cycles judge_turn = 4"
    "rrow_run_type judge_row = ''judge''"
    by (simp_all add: judge_turn_def tbl_ok_def dispatcher_enabled_def can_accept_def new_dispatcher_def at_least_one_def judge_row_def)
  show ?thesis
    using poll_outcome [OF d(1-3) prod.collapse [symmetric], of demo_env "\<lambda>n m c s. (Inr [], s)" 0] d(4-6)
    by (simp add: judge_pending)
qed

end
