(* ===== verification/Cycle_Driver.thy ===== *)
theory Cycle_Driver
  imports Run_Poll
begin

text \<open>
  \<open>core/loop/cycle/driver.py\<close> and the main loop of \<open>core/loop/runtime/lifecycle.py\<close>: what one cycle of the
  driver does (a chat turn, a pending run, an automatic tick), how long it waits afterwards and what
  wakes it, and when the loop gives up. The clock and what a poll of the wait sees are arguments. The
  loop has a run driver; its provider is not reloaded.
\<close>

section \<open>One cycle\<close>

record driver =
  dv_turn :: turn_state
  dv_auto_due :: bool

definition waiting_task :: "world \<Rightarrow> task option" where
  "waiting_task w = (let listed = find (\<lambda>k. t_status k = ''waiting'') (list_tasks (Some ''waiting'') 1 (w_tasks w))
     in case resolve_focus_task w None True False of
          Some k \<Rightarrow> if t_status k = ''waiting'' then Some k else listed
        | None \<Rightarrow> listed)"

text \<open>The automatic tick. The context is resolved once to decide and once more to dispatch, and each time
  takes a cycle number.\<close>

definition auto_tick :: "tick \<Rightarrow> int \<Rightarrow> driver \<Rightarrow> int res \<times> driver" where
  "auto_tick tick cycle d = (let s = dv_turn d; st = tick_dispatcher_state (ts_disp s) in
     if ds_enabled st then
       (if dispatcher_has_work st then (Inr cycle, d)
        else (let active = dc_active_task (resolve_tick_dispatch_context (ts_world s) (ts_cycles s) ''auto'' None False False);
                  s1 = s\<lparr>ts_cycles := ts_cycles s + 1\<rparr>
              in if active = None \<and> waiting_task (ts_world s) \<noteq> None
                 then (Inr cycle, d\<lparr>dv_turn := s1, dv_auto_due := False\<rparr>)
                 else if active = None \<and> \<not> dv_auto_due d then (Inr cycle, d\<lparr>dv_turn := s1\<rparr>)
                 else (let (r, od) = try_dispatch_tick_job (ts_world s1) (ts_cycles s1) ''auto'' [] None [] False False (ts_disp s1);
                           s2 = s1\<lparr>ts_disp := od, ts_cycles := ts_cycles s1 + 1\<rparr>
                       in if dr_accepted r
                          then (Inr (dc_cycle (dr_context r)),
                            d\<lparr>dv_turn := s2, dv_auto_due := (if active = None then False else dv_auto_due d)\<rparr>)
                          else (Inr cycle, d\<lparr>dv_turn := s2\<rparr>))))
     else if waiting_task (ts_world s) \<noteq> None then (Inr cycle, d)
     else (let (r, s') = tick (cycle + 1) [] None s in (bind_res r (\<lambda>reply. Inr (cycle + 1)), d\<lparr>dv_turn := s'\<rparr>)))"

definition run_cycle ::
    "env \<Rightarrow> tick \<Rightarrow> string \<Rightarrow> string \<Rightarrow> string \<Rightarrow> int \<Rightarrow> driver \<Rightarrow> int res \<times> driver" where
  "run_cycle e tick now cutoff placeholder cycle d =
    (case process_pending_chat_turn (\<lambda>n m c. tick n m (Some c)) now cutoff placeholder cycle (dv_turn d) of
       (Inl x, s) \<Rightarrow> (Inl x, d\<lparr>dv_turn := s\<rparr>)
     | (Inr (cycle', handled), s) \<Rightarrow>
         if handled then (Inr cycle', d\<lparr>dv_turn := s\<rparr>)
         else (case poll_pending_runs e tick cycle' s of
             (Some n, s') \<Rightarrow> (Inr n, d\<lparr>dv_turn := s'\<rparr>)
           | (None, s') \<Rightarrow> auto_tick tick cycle' (d\<lparr>dv_turn := s'\<rparr>)))"

section \<open>Waiting\<close>

text \<open>The settings of the loop that the driver reads; gaps in milliseconds.\<close>

record loop_config =
  lc_min_act_gap :: rat
  lc_active_idle_gap :: rat
  lc_max_idle_gap :: rat
  lc_idle_with_task_bounds :: "rat list"
  lc_wake_poll_interval :: rat
  lc_arousal_min_factor :: rat
  lc_arousal_sensitivity :: rat
  lc_arousal_neutral :: rat
  lc_wake_on_task_change :: bool
  lc_max_consecutive_errors :: int

definition arousal_idle_factor :: "loop_config \<Rightarrow> rat \<Rightarrow> rat" where
  "arousal_idle_factor c arousal =
     max (lc_arousal_min_factor c) (1 - lc_arousal_sensitivity c * (arousal - lc_arousal_neutral c))"

definition task_signature :: "task option \<Rightarrow> (int \<times> string) option" where
  "task_signature k = map_option (\<lambda>k. (t_id k, t_status k)) k"

definition task_change_signature :: "world \<Rightarrow> (int \<times> string) option \<Rightarrow> (int \<times> string) option" where
  "task_change_signature w before =
    (let now = task_signature (resolve_focus_task w None False False)
     in if now \<noteq> None then now
        else (case before of None \<Rightarrow> None
          | Some (i, st) \<Rightarrow> (case task_signature (resolve_focus_task w None True False) of
                Some (j, st') \<Rightarrow> if j = i \<and> st' = ''waiting'' then before else None
              | None \<Rightarrow> None)))"

definition resolve_wait_gap_seconds ::
    "loop_config \<Rightarrow> rat option \<Rightarrow> bool \<Rightarrow> task option \<Rightarrow> rat \<Rightarrow> bool \<Rightarrow> rat" where
  "resolve_wait_gap_seconds c pending_gap bootstrap_full after_task factor has_work =
    (if has_work then max (lc_min_act_gap c / 1000) (2 / 10)
     else (case pending_gap of Some g \<Rightarrow> g
       | None \<Rightarrow> if after_task \<noteq> None \<or> bootstrap_full then lc_active_idle_gap c / 1000 * factor
           else lc_max_idle_gap c / 1000 * factor))"

text \<open>How long the driver waits after a cycle, and for which task. \<open>arousal\<close>, \<open>pending_gap\<close> and
  \<open>last_decision\<close> are the mirrored state of the chain that finished last.\<close>

definition wait_plan ::
    "loop_config \<Rightarrow> rat \<Rightarrow> rat option \<Rightarrow> bool \<Rightarrow> string \<Rightarrow> turn_state \<Rightarrow> rat \<times> task option" where
  "wait_plan c arousal pending_gap bootstrap_full last_decision s =
    (let st = tick_dispatcher_state (ts_disp s); after = resolve_focus_task (ts_world s) None False False;
         factor = arousal_idle_factor c arousal
     in (if ds_enabled st
         then resolve_wait_gap_seconds c pending_gap bootstrap_full after factor (dispatcher_has_work st)
         else if last_decision = ''act'' \<and> after \<noteq> None
         then max (case lc_idle_with_task_bounds c of b # _ \<Rightarrow> b / 1000 | [] \<Rightarrow> lc_min_act_gap c / 1000)
                (lc_min_act_gap c / 1000)
         else resolve_wait_gap_seconds c pending_gap bootstrap_full after factor False, after))"

text \<open>After the wait an idle dispatcher makes the next automatic tick due.\<close>

definition after_wait_due :: "turn_state \<Rightarrow> driver \<Rightarrow> driver" where
  "after_wait_due s d = (let st = tick_dispatcher_state (ts_disp s) in
     if ds_enabled st \<and> \<not> dispatcher_has_work st \<and> resolve_focus_task (ts_world s) None False False = None
     then d\<lparr>dv_auto_due := True\<rparr> else d)"

datatype wake = Probe_Alert | Chat_Pending | Task_Change | Timeout

text \<open>What the loop sees when a sleep is over.\<close>

record seen =
  sn_alert :: bool
  sn_chats :: chats
  sn_disp :: "disp option"
  sn_world :: world

definition wakes_by :: "loop_config \<Rightarrow> (int \<times> string) option \<Rightarrow> seen \<Rightarrow> wake option" where
  "wakes_by c before s =
    (if sn_alert s then Some Probe_Alert
     else if has_pending_message (sn_chats s) \<and> ds_can_accept (tick_dispatcher_state (sn_disp s)) then Some Chat_Pending
     else if lc_wake_on_task_change c \<and> task_change_signature (sn_world s) before \<noteq> before then Some Task_Change
     else None)"

definition poll_seconds :: "loop_config \<Rightarrow> rat" where
  "poll_seconds c = max (lc_wake_poll_interval c / 1000) (5 / 100)"

text \<open>\<open>clock n\<close> is the time the loop reads at the start of round \<open>n\<close>, \<open>see n\<close> what it sees after the sleep of
  that round, and \<open>sleep_secs\<close> how long it asks to sleep.\<close>

definition sleep_secs :: "loop_config \<Rightarrow> rat \<Rightarrow> rat" where
  "sleep_secs c remaining = min (poll_seconds c) remaining"

partial_function (option) wait_from ::
    "loop_config \<Rightarrow> (int \<times> string) option \<Rightarrow> rat \<Rightarrow> (nat \<Rightarrow> rat) \<Rightarrow> (nat \<Rightarrow> seen) \<Rightarrow> nat \<Rightarrow> (wake \<times> nat) option" where
  "wait_from c before deadline clock see n =
    (if deadline - clock n \<le> 0 then Some (Timeout, n)
     else (case wakes_by c before (see n) of Some w \<Rightarrow> Some (w, n)
       | None \<Rightarrow> wait_from c before deadline clock see (Suc n)))"

definition wait_for_event ::
    "loop_config \<Rightarrow> rat \<Rightarrow> task option \<Rightarrow> (nat \<Rightarrow> rat) \<Rightarrow> (nat \<Rightarrow> seen) \<Rightarrow> (wake \<times> nat) option" where
  "wait_for_event c max_wait before_task clock see =
     wait_from c (task_signature before_task) (clock 0 + max_wait) clock see 0"

section \<open>The main loop\<close>

text \<open>\<open>cyc\<close> runs a cycle, \<open>wait\<close> the wait after it, \<open>limit\<close> reads the configuration in force.\<close>

partial_function (option) run_from ::
    "(int \<Rightarrow> 's \<Rightarrow> int res \<times> 's) \<Rightarrow> ('s \<Rightarrow> 's) \<Rightarrow> ('s \<Rightarrow> int) \<Rightarrow> int \<Rightarrow> int \<Rightarrow> int \<Rightarrow> 's \<Rightarrow> (int \<times> 's) option" where
  "run_from cyc wait limit most cycle errors s =
    (case cyc cycle s of
       (Inr n, s') \<Rightarrow> (let s'' = wait s' in run_from cyc wait limit (limit s'') n 0 s'')
     | (Inl x, s') \<Rightarrow> if most \<le> errors + 1 then Some (errors + 1, s')
         else (let s'' = wait s' in run_from cyc wait limit (limit s'') cycle (errors + 1) s''))"

definition run_runtime_forever ::
    "(int \<Rightarrow> 's \<Rightarrow> int res \<times> 's) \<Rightarrow> ('s \<Rightarrow> 's) \<Rightarrow> ('s \<Rightarrow> int) \<Rightarrow> 's \<Rightarrow> (int \<times> 's) option" where
  "run_runtime_forever cyc wait limit s = run_from cyc wait limit (limit s) 0 0 s"

section \<open>What a cycle does\<close>

lemma tick_state_enabled [simp]:
  "dispatcher_enabled p \<Longrightarrow> tick_dispatcher_state (Some p) =
     \<lparr>ds_enabled = True, ds_can_accept = can_accept p, ds_running = d_running p, ds_pending = d_pending p\<rparr>"
  by (simp add: tick_dispatcher_state_def)

lemma context_parts [simp]:
  "dc_cycle (resolve_tick_dispatch_context w n source chat iw fb) = n + 1"
  by (simp add: resolve_tick_dispatch_context_def Let_def)

lemma auto_context [simp]:
  "dc_active_task (resolve_tick_dispatch_context w n source None iw fb) = resolve_focus_task w None iw fb"
  by (simp add: resolve_tick_dispatch_context_def normalize_chat_id_def Let_def)

lemma built_job_parts [simp]:
  "j_cycle (build_tick_job c source m chat ids) = dc_cycle c" "j_source (build_tick_job c source m chat ids) = source"
  "j_chain_key (build_tick_job c source m chat ids) = dc_chain_key c"
  "j_chat_message_ids (build_tick_job c source m chat ids) = ids"
  by (simp_all add: build_tick_job_def)

text \<open>C12: With the dispatcher on, the driver queues an automatic tick exactly when no job runs or waits,
  the queue has room, and either there is a runnable task in focus or none is, no task waits and the
  idle gap is over. Such an idle tick uses the gap up. Nothing else changes.\<close>

theorem auto_tick_exact:
  fixes d :: driver
  defines "s \<equiv> dv_turn d"
  defines "active \<equiv> resolve_focus_task (ts_world s) None False False"
  assumes "ts_disp s = Some p" "dispatcher_enabled p" "auto_tick tick cycle d = (r, d')"
    and "go \<longleftrightarrow> d_running p = 0 \<and> d_pending p = 0 \<and> can_accept p \<and>
      (active \<noteq> None \<or> waiting_task (ts_world s) = None \<and> dv_auto_due d)"
  shows "(\<exists>j. j_source j = ''auto'' \<and> j_cycle j = ts_cycles s + 2 \<and> j_chat_message_ids j = [] \<and>
      ts_disp (dv_turn d') = Some (if go then snd (enqueue j p) else p)) \<and>
    r = Inr (if go then ts_cycles s + 2 else cycle) \<and> (go \<and> active = None \<longrightarrow> \<not> dv_auto_due d') \<and>
    ts_world (dv_turn d') = ts_world s \<and> ts_chats (dv_turn d') = ts_chats s"
proof -
  define j where "j = build_tick_job (resolve_tick_dispatch_context (ts_world s) (ts_cycles s + 1) ''auto'' None False False)
    ''auto'' [] None []"
  have "ts_disp (dv_turn d') = Some (if go then snd (enqueue j p) else p) \<and>
    r = Inr (if go then ts_cycles s + 2 else cycle) \<and> (go \<and> active = None \<longrightarrow> \<not> dv_auto_due d') \<and>
    ts_world (dv_turn d') = ts_world s \<and> ts_chats (dv_turn d') = ts_chats s"
    using assms(3-6) unfolding s_def active_def j_def
    by (auto simp: auto_tick_def Let_def dispatcher_has_work_def dispatch_enabled split: if_splits)
  then show ?thesis by (intro conjI exI [of _ j]) (simp_all add: j_def)
qed

lemma listed_waiting:
  assumes "tbl_ok (w_tasks w)" "tbl_get (w_tasks w) i = Some r" "row_status r = ''waiting''"
  shows "waiting_task w \<noteq> None"
proof -
  let ?sel = "tbl_select (\<lambda>i r. row_status r = ''waiting'') (w_tasks w)"
  have "(i, r) \<in> set ?sel" using assms by (simp add: set_tbl_select)
  then obtain jr rest where sel: "?sel = jr # rest" by (cases ?sel) auto
  then have "jr \<in> set ?sel" by simp
  then have "row_status (snd jr) = ''waiting''"
    using set_tbl_select [OF assms(1), of "fst jr" "snd jr"] by simp
  then have "t_status (task_from_row jr) = ''waiting''" by (cases jr) simp
  then have "find (\<lambda>k. t_status k = ''waiting'') (list_tasks (Some ''waiting'') 1 (w_tasks w)) \<noteq> None"
    using sel by (simp add: list_tasks_def sql_limit_def)
  then show ?thesis by (auto simp: waiting_task_def Let_def split: option.split)
qed

text \<open>Without the dispatcher one waiting task stops the whole loop: as long as there is one, a cycle
  without messages and pending runs changes nothing and runs no tick, however many runnable tasks the
  store holds. (With the dispatcher a runnable task in focus is worked on all the same.)\<close>

theorem waiting_task_blocks_direct_ticks:
  assumes "ds_enabled (tick_dispatcher_state (ts_disp (dv_turn d))) = False" "tbl_ok (w_tasks (ts_world (dv_turn d)))"
    and "\<not> has_pending_message (ts_chats (dv_turn d))" "get_pending_runs 1 (w_runs (ts_world (dv_turn d))) = []"
    and "tbl_get (w_tasks (ts_world (dv_turn d))) i = Some r" "row_status r = ''waiting''"
  shows "run_cycle e tick now cutoff placeholder cycle d = (Inr cycle, d)"
proof -
  have "turn_select (ts_chats (dv_turn d)) = Idle"
    using assms(3) by (auto simp: turn_select_def pop_select_def has_pending_message_def split: list.split)
  then have "process_pending_chat_turn t now cutoff placeholder cycle (dv_turn d) = (Inr (cycle, False), dv_turn d)" for t
    by (simp add: process_pending_chat_turn_def)
  moreover have "d\<lparr>dv_turn := dv_turn d\<rparr> = d" by simp
  ultimately show ?thesis
    using assms(1,4) listed_waiting [OF assms(2,5,6)]
    by (simp add: run_cycle_def poll_pending_runs_def auto_tick_def Let_def)
qed

lemma turn_dispatch_cycle:
  assumes "turn_dispatch w n ids m c t od = (st, t', od', r)"
  shows "(case st of Direct ids m c \<Rightarrow> \<not> ds_enabled (tick_dispatcher_state od) | _ \<Rightarrow> r = None \<or> r = Some (n + 1))"
proof (cases "ds_enabled (tick_dispatcher_state od)")
  case False
  then show ?thesis using assms by (auto simp: turn_dispatch_def)
next
  case True
  then obtain p where p: "od = Some p" "dispatcher_enabled p"
    by (auto simp: tick_dispatcher_state_def split: option.splits if_splits)
  then show ?thesis
    using assms by (auto simp: turn_dispatch_def dispatch_enabled Let_def split: if_splits)
qed

lemma turn_cycle:
  assumes "process_pending_chat_turn tick now cutoff ph cycle s = (Inr (c, h), s')"
    and "ds_enabled (tick_dispatcher_state (ts_disp s))"
  shows "(h \<and> (c = cycle \<or> c = ts_cycles s + 1) \<and> ts_cycles s' = ts_cycles s + 1 \<or>
      c = cycle \<and> \<not> h \<and> ts_cycles s' = ts_cycles s \<and> ts_disp s' = ts_disp s)"
proof (cases "ds_can_accept (tick_dispatcher_state (ts_disp s)) \<and> turn_select (ts_chats s) \<noteq> Idle")
  case False
  then show ?thesis using assms(1) by (auto simp: process_pending_chat_turn_def split: if_splits)
next
  case True
  then obtain i q where sel: "turn_select (ts_chats s) = Selected i q"
    by (auto simp: turn_select_def split: option.splits)
  obtain st t where cl: "turn_claim i q (ts_chats s) = (st, t)" by fastforce
  define x where "x = (case st of Popped j m chat \<Rightarrow> turn_drain j m chat (drain_select chat j t) t | _ \<Rightarrow> (st, t))"
  have "process_pending_chat_turn tick now cutoff ph cycle s =
      finish_turn tick now cutoff ph cycle (fst x) (s\<lparr>ts_chats := snd x\<rparr>)"
    using process_turn_selected [of s, OF _ sel cl] True by (simp add: x_def Let_def)
  then have fin: "finish_turn tick now cutoff ph cycle (fst x) (s\<lparr>ts_chats := snd x\<rparr>) = (Inr (c, h), s')"
    using assms(1) by simp
  show ?thesis
  proof (cases "fst x")
    case (Ready ids m ch)
    obtain st' t' od' r where td: "turn_dispatch (ts_world s) (ts_cycles s) ids m ch (snd x) (ts_disp s) = (st', t', od', r)"
      by (metis prod_cases4)
    with turn_dispatch_cycle [OF td] fin Ready assms(2) show ?thesis
      by (auto simp: finish_turn_def split: stage.splits option.splits)
  qed (use fin in \<open>auto simp: finish_turn_def\<close>)
qed

lemma poll_cycle:
  assumes "poll_pending_runs e tick cycle s = (c, s')" "ts_disp s = Some p" "dispatcher_enabled p"
  shows "ts_cycles s \<le> ts_cycles s' \<and> ts_cycles s' \<le> ts_cycles s + 1 \<and> (c = None \<or> c = Some (ts_cycles s + 1) \<and> ts_cycles s' = ts_cycles s + 1) \<and>
    (\<exists>p'. ts_disp s' = Some p' \<and> d_max_concurrent p' = d_max_concurrent p)"
proof (cases "get_pending_runs 1 (w_runs (ts_world s))")
  case (Cons k ks)
  obtain l where "update_bootstrap_run e (r_id k) ''running'' ''claim'' ''[poll] claimed by run_driver'' (ts_world s) =
      (Inr (), l)" using update_bootstrap_run_effect by blast
  then show ?thesis
    using assms Cons
    by (auto simp: poll_pending_runs_def poll_dispatch_def bootstrap_quietly_def dispatch_enabled enqueue_def Let_def
        split: if_splits)
qed (use assms in \<open>simp add: poll_pending_runs_def\<close>)

text \<open>The number of a cycle. With the dispatcher on, the cycle a driver returns is the old one or one
  the counter has just handed out, so no number is used twice and cycles never run backwards.\<close>

theorem cycle_numbers_fresh:
  assumes "ts_disp (dv_turn d) = Some p" "dispatcher_enabled p" "cycle \<le> ts_cycles (dv_turn d)"
    and "run_cycle e tick now cutoff placeholder cycle d = (Inr c, d')"
  shows "(c = cycle \<or> ts_cycles (dv_turn d) < c) \<and> c \<le> ts_cycles (dv_turn d')"
proof -
  obtain r1 s1 where turn: "process_pending_chat_turn (\<lambda>n m c. tick n m (Some c)) now cutoff placeholder cycle (dv_turn d) = (r1, s1)"
    by fastforce
  with assms(4) obtain c1 h where r1: "r1 = Inr (c1, h)"
    by (auto simp: run_cycle_def split: sum.splits)
  note c1 = turn_cycle [OF turn [unfolded r1]]
  show ?thesis
  proof (cases h)
    case True
    with c1 assms turn r1 show ?thesis by (auto simp: run_cycle_def)
  next
    case False
    with c1 assms have same: "c1 = cycle" "ts_cycles s1 = ts_cycles (dv_turn d)" "ts_disp s1 = Some p" by auto
    obtain c2 s2 where poll: "poll_pending_runs e tick cycle s1 = (c2, s2)" by fastforce
    note c2 = poll_cycle [OF poll same(3) assms(2)]
    then obtain p' where p': "ts_disp s2 = Some p'" "dispatcher_enabled p'"
      using assms(2) by (auto simp: dispatcher_enabled_def)
    have run: "run_cycle e tick now cutoff placeholder cycle d = (case c2 of Some n \<Rightarrow> (Inr n, d\<lparr>dv_turn := s2\<rparr>)
        | None \<Rightarrow> auto_tick tick cycle (d\<lparr>dv_turn := s2\<rparr>))"
      using turn r1 False same poll by (simp add: run_cycle_def)
    show ?thesis
    proof (cases c2)
      case (Some n)
      with run c2 same assms show ?thesis by auto
    next
      case None
      have "auto_tick tick cycle (d\<lparr>dv_turn := s2\<rparr>) = (Inr c, d')" using run None assms(4) by simp
      then have "ts_cycles s2 \<le> ts_cycles (dv_turn d') \<and> (c = cycle \<or> c = ts_cycles s2 + 2 \<and> ts_cycles (dv_turn d') = c)"
        using p' by (auto simp: auto_tick_def dispatch_enabled Let_def split: if_splits)
      with c2 same assms(3) show ?thesis by auto
    qed
  qed
qed

section \<open>The wait ends\<close>

lemma poll_seconds_pos: "0 < poll_seconds c"
  by (simp add: poll_seconds_def less_max_iff_disj)

lemma wait_from_run:
  assumes "n \<le> m" "\<And>k. n \<le> k \<Longrightarrow> k < m \<Longrightarrow> 0 < deadline - clock k \<and> wakes_by c b (see k) = None"
  shows "wait_from c b deadline clock see n = wait_from c b deadline clock see m"
  using assms
proof (induction m)
  case (Suc m)
  show ?case
  proof (cases "n = Suc m")
    case False
    then have "n \<le> m" using Suc.prems(1) by simp
    then have "wait_from c b deadline clock see n = wait_from c b deadline clock see m"
      using Suc.IH Suc.prems(2) by simp
    also have "\<dots> = wait_from c b deadline clock see (Suc m)"
      using Suc.prems(2) [of m] \<open>n \<le> m\<close> by (subst wait_from.simps) simp
    finally show ?thesis .
  qed simp
qed simp

lemma clock_advances:
  assumes "\<And>n. clock n < deadline \<Longrightarrow> clock n + sleep_secs c (deadline - clock n) \<le> clock (Suc n)"
    and "\<And>n. clock n \<le> clock (Suc n)"
  shows "deadline \<le> clock n \<or> clock 0 + of_nat n * poll_seconds c \<le> clock n"
proof (induction n)
  case (Suc n)
  show ?case
  proof (cases "deadline \<le> clock n")
    case True
    then show ?thesis using assms(2) [of n] by linarith
  next
    case False
    then have "clock 0 + of_nat n * poll_seconds c \<le> clock n" using Suc by simp
    moreover have "clock n + sleep_secs c (deadline - clock n) \<le> clock (Suc n)" using assms(1) False by simp
    ultimately show ?thesis
      by (auto simp: sleep_secs_def min_def algebra_simps split: if_splits)
  qed
qed simp

text \<open>C14: The wait ends: when every sleep lasts as long as asked, the loop returns after at most as many
  rounds as polls fit into the wait. It returns with the first round in which something wakes it, or on
  its deadline; nothing that happened in an earlier round was missed.\<close>

theorem wait_ends:
  fixes clock :: "nat \<Rightarrow> rat" and max_wait :: rat
  assumes "\<And>n. clock n \<le> clock (Suc n)"
    and "\<And>n. clock n < clock 0 + max_wait \<Longrightarrow>
      clock n + sleep_secs c (clock 0 + max_wait - clock n) \<le> clock (Suc n)"
  shows "\<exists>w n. wait_for_event c max_wait k clock see = Some (w, n) \<and> n \<le> nat \<lceil>max_wait / poll_seconds c\<rceil> \<and>
    (\<forall>m<n. wakes_by c (task_signature k) (see m) = None) \<and>
    (if w = Timeout then clock 0 + max_wait \<le> clock n
     else wakes_by c (task_signature k) (see n) = Some w \<and> clock n < clock 0 + max_wait)"
proof -
  let ?dl = "clock 0 + max_wait" and ?b = "task_signature k"
  let ?stop = "\<lambda>n. ?dl \<le> clock n \<or> wakes_by c ?b (see n) \<noteq> None"
  let ?N = "nat \<lceil>max_wait / poll_seconds c\<rceil>"
  have "max_wait / poll_seconds c \<le> of_nat ?N" by (simp add: of_nat_ceiling)
  then have "max_wait \<le> of_nat ?N * poll_seconds c"
    using poll_seconds_pos [of c] by (simp add: divide_le_eq)
  then have "?dl \<le> clock ?N"
    using clock_advances [of clock ?dl c ?N, OF assms(2,1)] by (simp add: algebra_simps) linarith
  then have ex: "?stop ?N" by simp
  define n where "n = (LEAST n. ?stop n)"
  have stop: "?stop n" unfolding n_def by (rule LeastI [of ?stop, OF ex])
  have "n \<le> ?N" unfolding n_def by (rule Least_le [of ?stop, OF ex])
  have before: "\<not> ?stop m" if "m < n" for m using that not_less_Least [of m ?stop] by (simp add: n_def)
  have "wait_for_event c max_wait k clock see = wait_from c ?b ?dl clock see n"
    unfolding wait_for_event_def by (rule wait_from_run) (use before in \<open>force simp: not_le\<close>)+
  also have "\<dots> = (if ?dl \<le> clock n then Some (Timeout, n) else Some (the (wakes_by c ?b (see n)), n))"
    using stop by (subst wait_from.simps) auto
  finally have res: "wait_for_event c max_wait k clock see = \<dots>" .
  have "wakes_by c ?b (see n) \<noteq> Some Timeout" by (simp add: wakes_by_def)
  with res stop before \<open>n \<le> ?N\<close> show ?thesis by (cases "?dl \<le> clock n") auto
qed

section \<open>When the loop gives up\<close>

text \<open>The cycle number and the state before round \<open>n\<close> of a loop that never gives up, which rounds fail, and
  how many have failed in a row.\<close>

primrec rounds_of :: "(int \<Rightarrow> 's \<Rightarrow> int res \<times> 's) \<Rightarrow> ('s \<Rightarrow> 's) \<Rightarrow> 's \<Rightarrow> nat \<Rightarrow> int \<times> 's" where
  "rounds_of cyc wait s 0 = (0, s)"
| "rounds_of cyc wait s (Suc n) = (let (c, s1) = rounds_of cyc wait s n; (r, s2) = cyc c s1
     in (case r of Inr c' \<Rightarrow> c' | Inl x \<Rightarrow> c, wait s2))"

definition round_fails :: "(int \<Rightarrow> 's \<Rightarrow> int res \<times> 's) \<Rightarrow> ('s \<Rightarrow> 's) \<Rightarrow> 's \<Rightarrow> nat \<Rightarrow> bool" where
  "round_fails cyc wait s n \<longleftrightarrow> isl (fst (case rounds_of cyc wait s n of (c, s1) \<Rightarrow> cyc c s1))"

primrec streak :: "(nat \<Rightarrow> bool) \<Rightarrow> nat \<Rightarrow> nat" where
  "streak f 0 = 0"
| "streak f (Suc n) = (if f n then streak f n + 1 else 0)"

lemma streak_back: "i < streak f n \<Longrightarrow> i < n \<and> f (n - Suc i)"
proof (induction n arbitrary: i)
  case (Suc n)
  then show ?case by (cases i) (auto split: if_splits)
qed simp

lemma streak_forward: "(\<And>i. i < k \<Longrightarrow> f (n + i)) \<Longrightarrow> k \<le> streak f (n + k)"
  by (induction k) auto

lemma streak_iff: "(\<exists>n. f n \<and> Suc k \<le> streak f n + 1) \<longleftrightarrow> (\<exists>n. \<forall>i<Suc k. f (n + i))"
proof
  assume "\<exists>n. f n \<and> Suc k \<le> streak f n + 1"
  then obtain n where n: "f n" "k \<le> streak f n" by auto
  have kn: "k \<le> n" using streak_back [of "k - 1" f n] n(2) by (cases k) auto
  have "f (n - k + i)" if "i < Suc k" for i
  proof (cases "i = k")
    case False
    with that have "n - Suc (k - Suc i) = n - k + i" using kn by simp
    with streak_back [of "k - Suc i" f n] that False n(2) show ?thesis by simp
  next
    case True
    with n kn show ?thesis by simp
  qed
  then show "\<exists>n. \<forall>i<Suc k. f (n + i)" by blast
next
  assume "\<exists>n. \<forall>i<Suc k. f (n + i)"
  then obtain n where n: "\<And>i. i < Suc k \<Longrightarrow> f (n + i)" by blast
  then have "k \<le> streak f (n + k)" by (intro streak_forward) simp
  with n [of k] show "\<exists>n. f n \<and> Suc k \<le> streak f n + 1" by (intro exI [of _ "n + k"]) simp
qed

lemma run_from_round:
  assumes "rounds_of cyc wait s n = (c, s1)"
  shows "run_from cyc wait (\<lambda>s. m) m c (int (streak (round_fails cyc wait s) n)) s1 =
    (if round_fails cyc wait s n \<and> m \<le> int (streak (round_fails cyc wait s) n) + 1
     then Some (int (streak (round_fails cyc wait s) n) + 1, snd (cyc c s1))
     else (case rounds_of cyc wait s (Suc n) of (c', s2) \<Rightarrow>
       run_from cyc wait (\<lambda>s. m) m c' (int (streak (round_fails cyc wait s) (Suc n))) s2))"
  using assms
  by (subst run_from.simps)
    (auto simp: round_fails_def Let_def add.commute split: prod.splits sum.splits)

lemma run_from_stops:
  fixes s s1 :: 's
  assumes "run_from cyc wait limit most c e s1 = Some r"
  shows "limit = (\<lambda>s. m) \<longrightarrow> most = m \<longrightarrow> (\<forall>n. e = int (streak (round_fails cyc wait s) n) \<longrightarrow>
    rounds_of cyc wait s n = (c, s1) \<longrightarrow>
    (\<exists>n. round_fails cyc wait s n \<and> m \<le> int (streak (round_fails cyc wait s) n) + 1))"
    (is "?P cyc wait limit most c e s1 r")
proof (rule run_from.raw_induct [of ?P, OF _ assms])
  fix rec and cyc :: "int \<Rightarrow> 's \<Rightarrow> int res \<times> 's" and wait limit most c e s1 r
  assume ih: "\<And>cyc wait limit most c e s1 r. rec cyc wait limit most c e s1 = Some r \<Longrightarrow> ?P cyc wait limit most c e s1 r"
    and body: "(case cyc c s1 of
       (Inl x, s') \<Rightarrow> if most \<le> e + 1 then Some (e + 1, s')
         else let s'' = wait s' in rec cyc wait limit (limit s'') c (e + 1) s''
     | (Inr n, s') \<Rightarrow> let s'' = wait s' in rec cyc wait limit (limit s'') n 0 s'') = Some r"
  show "?P cyc wait limit most c e s1 r"
  proof (intro impI allI)
    fix n assume lim: "limit = (\<lambda>s. m)" "most = m" and e: "e = int (streak (round_fails cyc wait s) n)"
      and here: "rounds_of cyc wait s n = (c, s1)"
    obtain q s2 where cyc: "cyc c s1 = (q, s2)" by fastforce
    have fails: "round_fails cyc wait s n \<longleftrightarrow> isl q" by (simp add: round_fails_def here cyc)
    have nxt: "rounds_of cyc wait s (Suc n) = (case q of Inr c' \<Rightarrow> c' | Inl x \<Rightarrow> c, wait s2)"
      by (simp add: here cyc)
    show "\<exists>n. round_fails cyc wait s n \<and> m \<le> int (streak (round_fails cyc wait s) n) + 1"
    proof (cases "isl q \<and> m \<le> e + 1")
      case True
      with fails e show ?thesis by blast
    next
      case False
      have "rec cyc wait limit m (fst (rounds_of cyc wait s (Suc n))) (int (streak (round_fails cyc wait s) (Suc n))) (wait s2) = Some r"
        using body False fails lim e by (cases q) (auto simp: cyc here add.commute)
      from ih [OF this, rule_format, of "Suc n"] lim show ?thesis by (simp add: here cyc)
    qed
  qed
qed

text \<open>C15: The loop gives up exactly when as many cycles in a row raise as the configuration allows, and
  runs forever otherwise: a cycle that succeeds starts the count anew. (The limit is one that does not
  change; the configuration lets it be one or more.)\<close>

theorem loop_gives_up:
  assumes "0 < m"
  shows "(\<exists>r. run_runtime_forever cyc wait (\<lambda>s. m) s = Some r) \<longleftrightarrow>
    (\<exists>n. \<forall>i<nat m. round_fails cyc wait s (n + i))"
proof -
  let ?f = "round_fails cyc wait s"
  let ?st = "\<lambda>n. ?f n \<and> m \<le> int (streak ?f n) + 1"
  let ?run = "\<lambda>n. case rounds_of cyc wait s n of (c, s1) \<Rightarrow> run_from cyc wait (\<lambda>s. m) m c (int (streak ?f n)) s1"
  obtain k where k: "nat m = Suc k" using assms gr0_implies_Suc [of "nat m"] by auto
  have step: "?run n = (if ?st n then Some (int (streak ?f n) + 1,
      snd (case rounds_of cyc wait s n of (c, s1) \<Rightarrow> cyc c s1)) else ?run (Suc n))" for n
    using run_from_round [of cyc wait s n _ _ m] by (auto split: prod.split)
  have start: "run_runtime_forever cyc wait (\<lambda>s. m) s = ?run 0" by (simp add: run_runtime_forever_def)
  have ends: "\<exists>r. ?run j = Some r" if "?st n" "j \<le> n" for n j
    using that(2)
  proof (induction j rule: inc_induct)
    case base
    show ?case using step [of n] that(1) by simp
  next
    case (step j)
    then show ?case using \<open>\<And>n. ?run n = _ n\<close> [of j] by auto
  qed
  have "\<exists>n. ?st n" if "run_runtime_forever cyc wait (\<lambda>s. m) s = Some r" for r
    using run_from_stops [OF that [unfolded run_runtime_forever_def], of m s] by (auto dest: spec [of _ 0])
  with ends start have "(\<exists>r. run_runtime_forever cyc wait (\<lambda>s. m) s = Some r) \<longleftrightarrow> (\<exists>n. ?st n)"
    by (metis le0)
  also have "\<dots> \<longleftrightarrow> (\<exists>n. ?f n \<and> Suc k \<le> streak ?f n + 1)" using k by (intro iff_exI) auto
  also have "\<dots> \<longleftrightarrow> (\<exists>n. \<forall>i<nat m. ?f (n + i))" unfolding k by (rule streak_iff)
  finally show ?thesis .
qed

section \<open>A loop to look at\<close>

definition idle_turn :: turn_state where
  "idle_turn = \<lparr>ts_world = empty_world, ts_chats = empty_tbl, ts_disp = Some (new_dispatcher 2 8), ts_cycles = 0\<rparr>"

definition idle_driver :: driver where
  "idle_driver = \<lparr>dv_turn = idle_turn, dv_auto_due = True\<rparr>"

lemma empty_world_tasks: "resolve_focus_task empty_world None iw False = None" "waiting_task empty_world = None"
proof -
  show res: "resolve_focus_task empty_world None iw False = None" for iw
    by (simp add: resolve_focus_task_def normalize_chat_id_def load_focus_task_def get_fact_def empty_world_def
        get_active_def list_runnable_tasks_def runnable_order_def empty_tbl_def tbl_select_def sql_limit_def Let_def)
  show "waiting_task empty_world = None"
    by (simp add: waiting_task_def res) (simp add: list_tasks_def empty_world_def empty_tbl_def tbl_select_def sql_limit_def)
qed

lemma idle_dispatcher:
  "dispatcher_enabled (new_dispatcher 2 8)" "can_accept (new_dispatcher 2 8)" "d_running (new_dispatcher 2 8) = 0"
  "d_pending (new_dispatcher 2 8) = 0"
  by (simp_all add: dispatcher_enabled_def can_accept_def new_dispatcher_def at_least_one_def)

theorem auto_tick_exact_witness:
  "fst (auto_tick (\<lambda>n m c s. (Inr [], s)) 0 idle_driver) = Inr 2"
  using auto_tick_exact [where d = idle_driver and p = "new_dispatcher 2 8" and go = True and cycle = 0
      and tick = "\<lambda>n m c s. (Inr [], s)", OF _ _ prod.collapse [symmetric]]
  by (simp add: idle_driver_def idle_turn_def idle_dispatcher empty_world_tasks)

definition parked_row :: task_row where
  "parked_row = \<lparr>row_title = ''ask'', row_status = ''waiting'', row_priority = ''normal'', row_created_at = [],
     row_data = None\<rparr>"

definition stuck_driver :: driver where
  "stuck_driver = idle_driver\<lparr>dv_turn := idle_turn\<lparr>ts_disp := None, ts_world :=
     empty_world\<lparr>w_tasks := \<lparr>seq = 2, rows = [(1, parked_row), (2, demo_row)]\<rparr>\<rparr>\<rparr>\<rparr>"

theorem waiting_task_blocks_direct_ticks_witness:
  "run_cycle demo_env (\<lambda>n m c s. (Inr [], s)) [] [] [] 0 stuck_driver = (Inr 0, stuck_driver) \<and>
   list_runnable_tasks 1 (w_tasks (ts_world (dv_turn stuck_driver))) = [task_from_row (2, demo_row)]"
proof
  show "run_cycle demo_env (\<lambda>n m c s. (Inr [], s)) [] [] [] 0 stuck_driver = (Inr 0, stuck_driver)"
    by (rule waiting_task_blocks_direct_ticks [where i = 1 and r = parked_row])
      (simp_all add: stuck_driver_def idle_driver_def idle_turn_def tick_dispatcher_state_def tbl_ok_def
        has_pending_message_def empty_tbl_def tbl_select_def get_pending_runs_def empty_world_def sql_limit_def
        tbl_get_def parked_row_def)
  show "list_runnable_tasks 1 (w_tasks (ts_world (dv_turn stuck_driver))) = [task_from_row (2, demo_row)]"
    by (simp add: list_runnable_tasks_def stuck_driver_def idle_driver_def idle_turn_def sql_limit_def tbl_select_def
        parked_row_def demo_row_def runnable_task_statuses_def)
qed

theorem cycle_numbers_fresh_witness:
  "\<exists>c d'. run_cycle demo_env (\<lambda>n m c s. (Inr [], s)) [] [] [] 0 idle_driver = (Inr c, d') \<and> c \<le> ts_cycles (dv_turn d')"
proof -
  have "turn_select empty_tbl = Idle"
    by (simp add: turn_select_def pop_select_def empty_tbl_def tbl_select_def)
  moreover have "get_pending_runs 1 (w_runs empty_world) = []"
    by (simp add: get_pending_runs_def empty_world_def empty_tbl_def tbl_select_def sql_limit_def)
  ultimately have "isl (fst (run_cycle demo_env (\<lambda>n m c s. (Inr [], s)) [] [] [] 0 idle_driver)) = False"
    by (simp add: run_cycle_def process_pending_chat_turn_def idle_driver_def idle_turn_def idle_dispatcher
        poll_pending_runs_def auto_tick_def dispatcher_has_work_def empty_world_tasks dispatch_enabled Let_def)
  then obtain c d' where r: "run_cycle demo_env (\<lambda>n m c s. (Inr [], s)) [] [] [] 0 idle_driver = (Inr c, d')"
    by (metis isl_def prod.collapse sum.collapse(2))
  from cycle_numbers_fresh [OF _ idle_dispatcher(1) _ r] show ?thesis
    using r by (simp add: idle_driver_def idle_turn_def)
qed

definition demo_config :: loop_config where
  "demo_config = \<lparr>lc_min_act_gap = 200, lc_active_idle_gap = 2000, lc_max_idle_gap = 30000,
     lc_idle_with_task_bounds = [1000, 60000], lc_wake_poll_interval = 200, lc_arousal_min_factor = 8 / 10,
     lc_arousal_sensitivity = 4 / 10, lc_arousal_neutral = 1 / 2, lc_wake_on_task_change = True,
     lc_max_consecutive_errors = 5\<rparr>"

theorem wait_ends_witness:
  "\<forall>see. \<exists>w n. wait_for_event demo_config 10 None of_nat see = Some (w, n) \<and> n \<le> 50"
proof
  fix see
  have poll: "poll_seconds demo_config = 1 / 5" by (simp add: poll_seconds_def demo_config_def)
  have "sleep_secs demo_config x \<le> 1" for x by (simp add: sleep_secs_def poll min_def)
  then show "\<exists>w n. wait_for_event demo_config 10 None of_nat see = Some (w, n) \<and> n \<le> 50"
    using wait_ends [of of_nat 10 demo_config None see] by (force simp: poll)
qed

theorem loop_gives_up_witness:
  "\<exists>r. run_runtime_forever (\<lambda>c s. (Inl (Exn ''OperationalError'' []), s)) (\<lambda>s. s) (\<lambda>s. 5) () = Some r"
  using loop_gives_up [of 5 "\<lambda>c s. (Inl (Exn ''OperationalError'' []), s)" "\<lambda>s. s" "()"]
  by (simp add: round_fails_def case_prod_beta)

end
