(* ===== verification/Model_Health.thy ===== *)
theory Model_Health
  imports Run_Profile Complex_Main
begin

text \<open>
  \<open>core/judgment/decision/health_mixin.py\<close>, \<open>routing_mixin.py\<close> and the choice of a model in
  \<open>helpers.py\<close>: the health of each model, the cooldown after a failure, the candidates of a tier and
  the model a call goes to. A provider is identified with the model it serves; whether one can be
  built is an argument, as are the time and what a model answers when it is asked to classify an
  error. An entry that a lookup creates is the default entry and is not stored. The Chinese markers of
  the source cannot occur in a text of the model.
\<close>

section \<open>Health of a model\<close>

record health =
  hl_cooldown_until :: rat
  hl_failure_streak :: int
  hl_last_error :: string
  hl_last_code :: string

definition fresh_health :: health where
  "fresh_health = \<lparr>hl_cooldown_until = 0, hl_failure_streak = 0, hl_last_error = [], hl_last_code = []\<rparr>"

text \<open>The table of the executor, the errors shown per model, and the models that are being classified.\<close>

record models =
  md_health :: "(string \<times> health) list"
  md_errors :: "(string \<times> string) list"
  md_classifying :: "string list"

definition get_health :: "models \<Rightarrow> string \<Rightarrow> health" where
  "get_health t m = (case map_of (md_health t) m of Some h \<Rightarrow> h | None \<Rightarrow> fresh_health)"

definition set_health :: "string \<Rightarrow> health \<Rightarrow> models \<Rightarrow> models" where
  "set_health m h t = t\<lparr>md_health := AList.update m h (md_health t)\<rparr>"

definition is_codex_token_revoked :: "string \<Rightarrow> bool" where
  "is_codex_token_revoked text = list_ex (contains text) [''token revoked'', ''token invalidated'',
     ''authentication token invalidated'', ''oauth token revoked'', ''oauth token invalidated'',
     ''token has been revoked'', ''lingzhou auth login-codex'']"

definition contains_status_code :: "string \<Rightarrow> string \<Rightarrow> bool" where
  "contains_status_code text code = contains ('' '' @ text @ '' '') ('' '' @ code @ '' '')"

definition classify_error_code :: "string \<Rightarrow> string" where
  "classify_error_code err = (let text = lower err; has = contains text in
     if has ''unsupported'' \<and> has ''model'' \<and> has ''not supported'' then ''unsupported_model''
     else if has ''model '' \<and> has [CHR 0x60] \<and> has '' not supported'' then ''unsupported_model''
     else if has ''model not found'' \<or> has ''unknown model'' then ''unsupported_model''
     else if has ''quota'' \<and> list_ex has [''exceeded'', ''exhausted'', ''limit'', ''insufficient''] then ''quota''
     else if is_codex_token_revoked text then ''401''
     else if contains_status_code text ''429'' \<or> has ''too many requests'' then ''429''
     else if contains_status_code text ''402'' \<or> has ''payment required'' \<or> has ''insufficient balance'' then ''402''
     else if contains_status_code text ''401'' \<or> has ''unauthorized'' then ''401''
     else if contains_status_code text ''403'' \<or> has ''forbidden'' then ''403''
     else if contains_status_code text ''400'' \<or> has ''bad request'' then ''400''
     else if has ''readtimeout'' \<or> has ''timeout'' then ''timeout''
     else ''other'')"

definition fixed_cooldown :: "string \<Rightarrow> rat option" where
  "fixed_cooldown code = map_of [(''config'', 3600), (''quota'', 3600), (''402'', 86400), (''unsupported_model'', 86400)] code"

definition cooldown_seconds :: "string \<Rightarrow> int \<Rightarrow> rat" where
  "cooldown_seconds code failure_streak = (let streak = rat_of_int (max 1 failure_streak) in
     case fixed_cooldown code of Some s \<Rightarrow> s
     | None \<Rightarrow>
         if code = ''429'' then min 180 (30 * streak)
         else if code \<in> {''401'', ''403''} then min 300 (120 + 30 * (streak - 1))
         else if code = ''400'' then min 180 (45 * streak)
         else if code = ''timeout'' then min 120 (30 * streak)
         else min 90 (15 * streak))"

definition is_blocked_candidate_after_failure :: "string \<Rightarrow> string \<Rightarrow> bool" where
  "is_blocked_candidate_after_failure code err \<longleftrightarrow>
     code \<in> {''config'', ''quota'', ''401'', ''403'', ''402'', ''unsupported_model''} \<or>
     code = ''400'' \<and> list_ex (contains (lower err)) [''unsupported model'', ''model is not supported'',
       ''model not supported'', ''invalid model'', ''unknown model'']"

definition is_provider_blocked_after_failure :: "string \<Rightarrow> bool" where
  "is_provider_blocked_after_failure code \<longleftrightarrow> code \<in> {''401'', ''403''}"

text \<open>An error of no known kind also starts a classification by a model, one per model at a time.\<close>

definition mark_model_failure :: "rat \<Rightarrow> string \<Rightarrow> string \<Rightarrow> models \<Rightarrow> string \<times> models" where
  "mark_model_failure now m err t = (let code = classify_error_code err; h = get_health t m;
       streak = hl_failure_streak h + 1;
       h' = \<lparr>hl_cooldown_until = now + cooldown_seconds code streak, hl_failure_streak = streak,
             hl_last_error = err, hl_last_code = code\<rparr>;
       t' = (set_health m h' t)\<lparr>md_errors := AList.update m err (md_errors t)\<rparr>
     in (code, if code = ''other'' \<and> m \<notin> set (md_classifying t)
         then t'\<lparr>md_classifying := m # md_classifying t\<rparr> else t'))"

definition mark_model_success :: "string \<Rightarrow> models \<Rightarrow> models" where
  "mark_model_success m t = (set_health m fresh_health t)\<lparr>md_errors := AList.delete m (md_errors t)\<rparr>"

definition is_model_available :: "rat \<Rightarrow> models \<Rightarrow> string \<Rightarrow> bool" where
  "is_model_available now t m \<longleftrightarrow> hl_cooldown_until (get_health t m) \<le> now"

text \<open>The end of a classification; \<open>None\<close> when no provider answered. The first word of the answer counts.\<close>

definition classified_code :: "string \<Rightarrow> string" where
  "classified_code reply = (case split_ws (lower (strip reply)) of
      [] \<Rightarrow> ''other''
    | c # _ \<Rightarrow> if c \<in> {''config'', ''quota'', ''429'', ''402'', ''401'', ''403'', ''unsupported_model'', ''400'', ''timeout''}
        then c else ''other'')"

definition llm_classify_and_rewrite :: "rat \<Rightarrow> string \<Rightarrow> string option \<Rightarrow> models \<Rightarrow> models" where
  "llm_classify_and_rewrite now m reply t =
    (let t' = (case reply of None \<Rightarrow> t
         | Some r \<Rightarrow> (let code = classified_code r; h = get_health t m in
             if code \<noteq> ''other'' \<and> now < hl_cooldown_until h
             then set_health m (h\<lparr>hl_last_code := code,
               hl_cooldown_until := now + cooldown_seconds code (hl_failure_streak h)\<rparr>) t
             else t))
     in t'\<lparr>md_classifying := removeAll m (md_classifying t')\<rparr>)"

section \<open>Candidates\<close>

record routing_config =
  rc_model :: string
  rc_routing :: "(string \<times> string) list"
  rc_fallbacks :: "(string \<times> string list) list"

definition resolve_tier_model :: "routing_config \<Rightarrow> string \<Rightarrow> string \<times> string" where
  "resolve_tier_model c tier = (case map_of (rc_routing c) tier of
      Some m \<Rightarrow> if m \<noteq> [] then (tier, m) else (''default'', rc_model c)
    | None \<Rightarrow> (''default'', rc_model c))"

definition tier_fallback_models :: "routing_config \<Rightarrow> string \<Rightarrow> string list" where
  "tier_fallback_models c tier = fold (\<lambda>m out. if m \<noteq> [] \<and> m \<notin> set out then out @ [m] else out)
     (case map_of (rc_fallbacks c) tier of None \<Rightarrow> [] | Some ms \<Rightarrow> ms) []"

definition provider_of_model :: "string \<Rightarrow> string" where
  "provider_of_model m = takeWhile (\<lambda>c. c \<noteq> CHR ''/'') m"

text \<open>What a call must avoid: models, and providers as a whole.\<close>

record excluded =
  ex_models :: "string list"
  ex_providers :: "string list"

definition is_excluded :: "excluded \<Rightarrow> string \<Rightarrow> bool" where
  "is_excluded x m \<longleftrightarrow> m \<in> set (ex_models x) \<or> provider_of_model m \<in> set (ex_providers x)"

definition tier_model_candidates ::
    "routing_config \<Rightarrow> (string \<times> string) list \<Rightarrow> excluded \<Rightarrow> string \<Rightarrow> string list" where
  "tier_model_candidates c overrides x tier =
    fold (\<lambda>m out. if m = [] \<or> m \<in> set out \<or> is_excluded x m then out else out @ [m])
      ((case map_of overrides tier of None \<Rightarrow> [] | Some m \<Rightarrow> m) # snd (resolve_tier_model c tier) #
        tier_fallback_models c tier @ [rc_model c]) []"

definition least_bad :: "models \<Rightarrow> string list \<Rightarrow> string option" where
  "least_bad t ms = map_option fst (fold (\<lambda>m best. let u = hl_cooldown_until (get_health t m) in
     case best of None \<Rightarrow> Some (m, u) | Some (b, bu) \<Rightarrow> if u < bu then Some (m, u) else best) ms None)"

definition all_candidates ::
    "routing_config \<Rightarrow> (string \<times> string) list \<Rightarrow> excluded \<Rightarrow> string \<Rightarrow> bool \<Rightarrow> (string \<times> string) list" where
  "all_candidates c overrides x tier exclude_reader =
     concat (map (\<lambda>t. map (\<lambda>m. (t, m)) (tier_model_candidates c overrides x t)) (tier # fallback_tiers tier exclude_reader))"

definition least_bad_model ::
    "routing_config \<Rightarrow> models \<Rightarrow> string \<Rightarrow> (string \<times> string) list \<Rightarrow> bool \<Rightarrow> excluded \<Rightarrow> string option" where
  "least_bad_model c t tier overrides exclude_reader x =
     least_bad t (map snd (all_candidates c overrides x tier exclude_reader))"

section \<open>Choosing a model\<close>

record selection =
  sel_tier :: string
  sel_model :: string

text \<open>\<open>build m\<close> is the error that building the provider of \<open>m\<close> raises, if it does. The provider of the
  main model is there already.\<close>

definition build_error :: "routing_config \<Rightarrow> (string \<Rightarrow> string option) \<Rightarrow> string \<Rightarrow> string option" where
  "build_error c build m = (if m = rc_model c then None else build m)"

fun try_candidates ::
    "routing_config \<Rightarrow> (string \<Rightarrow> string option) \<Rightarrow> rat \<Rightarrow> (string \<times> string) list \<Rightarrow> models \<Rightarrow> selection option \<times> models" where
  "try_candidates c build now [] t = (None, t)"
| "try_candidates c build now ((tier, m) # cs) t =
    (if \<not> is_model_available now t m then try_candidates c build now cs t
     else (case build_error c build m of
         None \<Rightarrow> (Some \<lparr>sel_tier = tier, sel_model = m\<rparr>, t)
       | Some err \<Rightarrow> try_candidates c build now cs (snd (mark_model_failure now m err t))))"

text \<open>\<open>prefer\<close> is the empty text when no tier is preferred. A candidate of two tiers is listed twice, which
  the code's set of pairs does not prevent.\<close>

definition select_provider ::
    "routing_config \<Rightarrow> (string \<Rightarrow> string option) \<Rightarrow> rat \<Rightarrow> string \<Rightarrow> string \<Rightarrow> (string \<times> string) list \<Rightarrow> excluded \<Rightarrow>
     models \<Rightarrow> selection \<times> models" where
  "select_provider c build now phase prefer overrides x t =
    (let tier = select_tier_for_phase phase prefer;
         exclude_reader = should_exclude_reader_for_phase phase prefer;
         (chosen, t') = try_candidates c build now (all_candidates c overrides x tier exclude_reader) t
     in case chosen of
          Some s \<Rightarrow> (s, t')
        | None \<Rightarrow> (\<lparr>sel_tier = tier, sel_model =
            (case least_bad_model c t' tier overrides exclude_reader x of
               Some m \<Rightarrow> if build_error c build m = None then m else rc_model c
             | None \<Rightarrow> rc_model c)\<rparr>, t'))"

definition pick_retry_provider ::
    "routing_config \<Rightarrow> (string \<Rightarrow> string option) \<Rightarrow> rat \<Rightarrow> selection \<Rightarrow> string \<Rightarrow> string \<Rightarrow> (string \<times> string) list \<Rightarrow> excluded \<Rightarrow>
     models \<Rightarrow> selection \<times> models" where
  "pick_retry_provider c build now s phase fallback_prefer overrides x t =
     select_provider c build now phase (retry_fallback_tier (sel_tier s) phase fallback_prefer) overrides x t"

section \<open>Health: lemmas\<close>

lemma fixed_cooldown_cases: "fixed_cooldown code = Some s \<Longrightarrow> s = 3600 \<or> s = 86400"
  by (auto simp: fixed_cooldown_def split: if_splits)

lemma get_set_health [simp]: "get_health (set_health m h t) m' = (if m' = m then h else get_health t m')"
  by (simp add: get_health_def set_health_def update_conv')

lemma get_health_frame [simp]:
  "get_health (t\<lparr>md_errors := e\<rparr>) m = get_health t m" "get_health (t\<lparr>md_classifying := l\<rparr>) m = get_health t m"
  by (simp_all add: get_health_def)

lemma get_health_failure:
  "get_health (snd (mark_model_failure now m err t)) m' = (if m' = m
     then \<lparr>hl_cooldown_until = now + cooldown_seconds (classify_error_code err) (hl_failure_streak (get_health t m) + 1),
       hl_failure_streak = hl_failure_streak (get_health t m) + 1, hl_last_error = err,
       hl_last_code = classify_error_code err\<rparr>
     else get_health t m')"
  by (auto simp: mark_model_failure_def Let_def)

lemma get_health_success: "get_health (mark_model_success m t) m' = (if m' = m then fresh_health else get_health t m')"
  by (simp add: mark_model_success_def)

text \<open>The cooldown after a failure is positive, at most a day, and does not shrink when a model keeps
  failing in the same way.\<close>

theorem cooldown_bounds:
  "0 < cooldown_seconds code n \<and> cooldown_seconds code n \<le> 86400 \<and>
   cooldown_seconds code n \<le> cooldown_seconds code (n + int k)"
proof -
  have streak: "1 \<le> rat_of_int (max 1 n)" "rat_of_int (max 1 n) \<le> rat_of_int (max 1 (n + int k))" by simp_all
  show ?thesis
  proof (cases "fixed_cooldown code")
    case None
    then show ?thesis using streak by (auto simp: cooldown_seconds_def Let_def min_def)
  next
    case (Some s)
    then show ?thesis using fixed_cooldown_cases [OF Some] by (auto simp: cooldown_seconds_def Let_def)
  qed
qed

lemma failure_then_success:
  "is_model_available later (snd (mark_model_failure now m err t)) m \<longleftrightarrow>
     now + cooldown_seconds (classify_error_code err) (hl_failure_streak (get_health t m) + 1) \<le> later"
  "0 \<le> later \<Longrightarrow> is_model_available later (mark_model_success m t) m"
  "m' \<noteq> m \<Longrightarrow> is_model_available later (snd (mark_model_failure now m err t)) m' = is_model_available later t m'"
  "m' \<noteq> m \<Longrightarrow> is_model_available later (mark_model_success m t) m' = is_model_available later t m'"
  by (simp_all add: is_model_available_def get_health_failure get_health_success fresh_health_def)

text \<open>A classification that comes late is applied to another failure. The model failed with an error of
  no known kind, recovered, and failed again with an error whose kind is known; when the answer about
  the first error arrives it replaces the kind and the cooldown of the second.\<close>

theorem stale_classification:
  fixes t :: models and m err0 err1 reply :: string and n0 n1 n2 :: rat
  defines "t1 \<equiv> mark_model_success m (snd (mark_model_failure n0 m err0 t))"
  defines "t2 \<equiv> snd (mark_model_failure n1 m err1 t1)"
  defines "t3 \<equiv> llm_classify_and_rewrite n2 m (Some reply) t2"
  assumes "classified_code reply \<noteq> ''other''" "n2 < n1 + cooldown_seconds (classify_error_code err1) 1"
  shows "hl_last_error (get_health t3 m) = err1 \<and> hl_last_code (get_health t3 m) = classified_code reply \<and>
    hl_cooldown_until (get_health t3 m) = n2 + cooldown_seconds (classified_code reply) 1"
  using assms(4,5)
  by (simp add: t1_def t2_def t3_def llm_classify_and_rewrite_def Let_def get_health_failure get_health_success
      fresh_health_def)

section \<open>Candidates: lemmas\<close>

lemma fold_keep:
  "set (fold (\<lambda>m out. if P m \<or> m \<in> set out then out else out @ [m]) ms acc) = set acc \<union> {m \<in> set ms. \<not> P m}"
  by (induction ms arbitrary: acc) (auto split: if_splits)

lemma set_tier_model_candidates:
  "set (tier_model_candidates c ov x tier) = {m. m \<noteq> [] \<and> \<not> is_excluded x m \<and>
     (map_of ov tier = Some m \<or> m = snd (resolve_tier_model c tier) \<or> m \<in> set (tier_fallback_models c tier) \<or>
      m = rc_model c)}"
proof -
  have step: "(\<lambda>m out. if m = [] \<or> m \<in> set out \<or> is_excluded x m then out else out @ [m]) =
      (\<lambda>m out. if (m = [] \<or> is_excluded x m) \<or> m \<in> set out then out else out @ [m])"
    by (intro ext if_cong) blast+
  have "set (tier_model_candidates c ov x tier) = {m \<in> set ((case map_of ov tier of None \<Rightarrow> [] | Some m \<Rightarrow> m) #
      snd (resolve_tier_model c tier) # tier_fallback_models c tier @ [rc_model c]). \<not> (m = [] \<or> is_excluded x m)}"
    unfolding tier_model_candidates_def step fold_keep by simp
  then show ?thesis by (cases "map_of ov tier") auto
qed

lemma candidates_allowed: "(tier', m) \<in> set (all_candidates c ov x tier ex) \<Longrightarrow> m \<noteq> [] \<and> \<not> is_excluded x m"
  by (auto simp: all_candidates_def set_tier_model_candidates)

definition least_step :: "models \<Rightarrow> string \<Rightarrow> (string \<times> rat) option \<Rightarrow> (string \<times> rat) option" where
  "least_step t m best = (let u = hl_cooldown_until (get_health t m) in
     case best of None \<Rightarrow> Some (m, u) | Some (b, bu) \<Rightarrow> if u < bu then Some (m, u) else best)"

lemma least_step_simps [simp]:
  "least_step t m None = Some (m, hl_cooldown_until (get_health t m))"
  "least_step t m (Some (b, bu)) = (if hl_cooldown_until (get_health t m) < bu
     then Some (m, hl_cooldown_until (get_health t m)) else Some (b, bu))"
  by (simp_all add: least_step_def Let_def)

lemma least_fold:
  "fold (least_step t) ms (Some (b, bu)) = Some r \<Longrightarrow> bu = hl_cooldown_until (get_health t b) \<Longrightarrow>
   (fst r = b \<or> fst r \<in> set ms) \<and> snd r = hl_cooldown_until (get_health t (fst r)) \<and> snd r \<le> bu \<and>
   (\<forall>m \<in> set ms. snd r \<le> hl_cooldown_until (get_health t m))"
proof (induction ms arbitrary: b bu)
  case (Cons m ms)
  show ?case
  proof (cases "hl_cooldown_until (get_health t m) < bu")
    case True
    with Cons.prems have "fold (least_step t) ms (Some (m, hl_cooldown_until (get_health t m))) = Some r"
      by simp
    from Cons.IH [OF this refl] True show ?thesis by auto
  next
    case False
    with Cons.prems have "fold (least_step t) ms (Some (b, bu)) = Some r" by simp
    from Cons.IH [OF this Cons.prems(2)] False show ?thesis by auto
  qed
qed auto

lemma least_fold_Some: "\<exists>r. fold (least_step t) ms (Some q) = Some r"
  by (induction ms arbitrary: q) auto

lemma least_bad_least:
  "least_bad t ms = None \<longleftrightarrow> ms = []"
  "least_bad t ms = Some m \<Longrightarrow> m \<in> set ms \<and>
     (\<forall>m' \<in> set ms. hl_cooldown_until (get_health t m) \<le> hl_cooldown_until (get_health t m'))"
proof -
  have eq: "least_bad t ms = map_option fst (fold (least_step t) ms None)"
    by (simp add: least_bad_def least_step_def [abs_def])
  show "least_bad t ms = None \<longleftrightarrow> ms = []"
    using least_fold_Some [of t "tl ms"] unfolding eq
    by (cases ms) auto
  show "m \<in> set ms \<and> (\<forall>m' \<in> set ms. hl_cooldown_until (get_health t m) \<le> hl_cooldown_until (get_health t m'))"
    if "least_bad t ms = Some m"
  proof (cases ms)
    case (Cons m0 rest)
    with that obtain r where r: "fold (least_step t) rest (Some (m0, hl_cooldown_until (get_health t m0))) = Some r"
      "m = fst r" unfolding eq by auto
    from least_fold [OF r(1) refl] r(2) Cons show ?thesis by auto
  qed (use that in \<open>simp add: least_bad_def\<close>)
qed

section \<open>Choosing: lemmas\<close>

definition usable :: "routing_config \<Rightarrow> (string \<Rightarrow> string option) \<Rightarrow> rat \<Rightarrow> models \<Rightarrow> string \<Rightarrow> bool" where
  "usable c build now t m \<longleftrightarrow> is_model_available now t m \<and> build_error c build m = None"

lemma try_candidates_find:
  "fst (try_candidates c build now cs t) = map_option (\<lambda>(tier, m). \<lparr>sel_tier = tier, sel_model = m\<rparr>)
     (find (\<lambda>(tier, m). usable c build now t m) cs)"
proof (induction c build now cs t rule: try_candidates.induct)
  case (2 c build now tier m cs t)
  show ?case
  proof (cases "is_model_available now t m")
    case False
    with 2(1) show ?thesis by (simp add: usable_def)
  next
    case True
    show ?thesis
    proof (cases "build_error c build m")
      case None
      with True show ?thesis by (simp add: usable_def)
    next
      case (Some err)
      have "usable c build now (snd (mark_model_failure now m err t)) = usable c build now t"
        using Some by (auto simp: fun_eq_iff usable_def is_model_available_def get_health_failure)
      with 2(2) True Some show ?thesis by (simp add: usable_def [of c build now t m])
    qed
  qed
qed simp

lemma select_provider_cases:
  assumes "select_provider c build now phase wished ov x t = (s, t')"
    and "cs = all_candidates c ov x (select_tier_for_phase phase wished) (should_exclude_reader_for_phase phase wished)"
  shows "(case find (\<lambda>(tier, m). usable c build now t m) cs of
      Some (tier, m) \<Rightarrow> sel_tier s = tier \<and> sel_model s = m \<and> \<not> is_excluded x m
    | None \<Rightarrow> sel_model s = rc_model c \<or>
        sel_model s \<in> snd ` set cs \<and> \<not> is_excluded x (sel_model s) \<and>
        (\<forall>m \<in> snd ` set cs. hl_cooldown_until (get_health t' (sel_model s)) \<le> hl_cooldown_until (get_health t' m)))"
proof -
  obtain q t1 where q: "try_candidates c build now cs t = (q, t1)" by fastforce
  have found: "q = map_option (\<lambda>(tier, m). \<lparr>sel_tier = tier, sel_model = m\<rparr>) (find (\<lambda>(tier, m). usable c build now t m) cs)"
    using try_candidates_find [of c build now cs t] q by simp
  show ?thesis
  proof (cases "find (\<lambda>(tier, m). usable c build now t m) cs")
    case (Some tm)
    obtain tier m where tm: "tm = (tier, m)" by fastforce
    have "tm \<in> set cs" using Some by (metis find_Some_iff nth_mem)
    then have "\<not> is_excluded x m" using candidates_allowed unfolding tm assms(2) by blast
    with assms q found Some tm show ?thesis by (auto simp: select_provider_def Let_def)
  next
    case None
    let ?lb = "least_bad t1 (map snd cs)"
    have s: "t' = t1" "sel_model s = (case ?lb of Some m \<Rightarrow> if build_error c build m = None then m else rc_model c
        | None \<Rightarrow> rc_model c)"
      using assms q found None by (auto simp: select_provider_def Let_def least_bad_model_def)
    show ?thesis
    proof (cases "sel_model s = rc_model c")
      case False
      with s obtain m where m: "?lb = Some m" "sel_model s = m" by (auto split: option.splits if_splits)
      have "m \<in> snd ` set cs \<and> (\<forall>m' \<in> snd ` set cs. hl_cooldown_until (get_health t1 m) \<le> hl_cooldown_until (get_health t1 m'))"
        using least_bad_least(2) [OF m(1)] by simp
      moreover from this have "\<not> is_excluded x m" using candidates_allowed unfolding assms(2) by fastforce
      ultimately show ?thesis using None s(1) m(2) by simp
    qed (use None in simp)
  qed
qed

text \<open>C23: Which model a call goes to: the first candidate, tier by tier, that is not cooling down and whose
  provider can be built. When there is none it is a candidate whose cooldown ends first, or the main
  model. A model or provider that is to be avoided is taken only when it is the main model and no
  candidate can be used.\<close>

theorem select_provider_sound:
  assumes "select_provider c build now phase wished ov x t = (s, t')"
    and "cs = all_candidates c ov x (select_tier_for_phase phase wished) (should_exclude_reader_for_phase phase wished)"
  shows "(case find (\<lambda>(tier, m). usable c build now t m) cs of
      Some (tier, m) \<Rightarrow> sel_tier s = tier \<and> sel_model s = m \<and> \<not> is_excluded x m
    | None \<Rightarrow> sel_model s = rc_model c \<or>
        sel_model s \<in> snd ` set cs \<and> \<not> is_excluded x (sel_model s) \<and>
        (\<forall>m \<in> snd ` set cs. hl_cooldown_until (get_health t' (sel_model s)) \<le> hl_cooldown_until (get_health t' m)))"
  using select_provider_cases [OF assms] .

lemma select_provider_allowed:
  assumes "select_provider c build now phase wished ov x t = (s, t')" "sel_model s \<noteq> rc_model c"
  shows "\<not> is_excluded x (sel_model s)"
  using select_provider_cases [OF assms(1) refl] assms(2) by (auto split: option.splits)

text \<open>The reader is kept out of the phases of the reasoner only at the first call. There it is no
  candidate, but a retry prefers the tier it falls back to, and with a preferred tier every tier is a
  candidate again; so a retry in such a phase may end up at a model of the reader.\<close>

theorem retry_readmits_reader:
  fixes c :: routing_config and phase current fp :: string
  defines "tier \<equiv> retry_fallback_tier current phase fp"
  assumes "is_reasoner_only_phase phase" "m \<in> set (tier_model_candidates c ov x ''reader'')"
  shows "(''reader'', m) \<notin> set (all_candidates c ov x (select_tier_for_phase phase [])
      (should_exclude_reader_for_phase phase [])) \<and>
    (''reader'', m) \<in> set (all_candidates c ov x (select_tier_for_phase phase tier)
      (should_exclude_reader_for_phase phase tier))"
proof -
  have none: "\<not> is_judgment_tier []"
    by (simp add: is_judgment_tier_def normalize_tier_text_def lower_def judgment_tiers_def)
  have known: "is_judgment_tier t" if "t \<in> set judgment_tiers" for t
    using that by (auto simp: is_judgment_tier_def judgment_tiers_def normalize_tier_text_def strip_def lstrip_def
        is_space_def lower_def lower_char_def)
  have dflt: "default_tier \<in> set judgment_tiers" by (simp add: default_tier_def judgment_tiers_def)
  have tier: "tier \<in> set judgment_tiers"
  proof (cases "fp = []")
    case True
    then show ?thesis using retry_moves_on [of current phase] by (simp add: tier_def)
  next
    case False
    then show ?thesis
      using dflt normalize_judgment [of fp default_tier]
      by (simp add: tier_def retry_fallback_tier_def normalize_tier_def)
  qed
  have same: "normalize_tier_text t = t" if "t \<in> set judgment_tiers" for t
    using that by (auto simp: judgment_tiers_def normalize_tier_text_def strip_def lstrip_def is_space_def
        lower_def lower_char_def)
  have "''reader'' \<notin> set (fallback_tiers (select_tier_for_phase phase []) True)"
    "select_tier_for_phase phase [] \<noteq> ''reader''"
    using none by (auto simp: fallback_tiers_def select_tier_for_phase_def)
  moreover have "should_exclude_reader_for_phase phase []"
    using none assms(2) by (simp add: should_exclude_reader_for_phase_def)
  ultimately have first: "(''reader'', m) \<notin> set (all_candidates c ov x (select_tier_for_phase phase [])
      (should_exclude_reader_for_phase phase []))"
    by (auto simp: all_candidates_def)
  have "select_tier_for_phase phase tier = tier" "\<not> should_exclude_reader_for_phase phase tier"
    using known [OF tier] same [OF tier]
    by (simp_all add: select_tier_for_phase_def normalize_tier_def should_exclude_reader_for_phase_def)
  moreover have "''reader'' \<in> set (tier # fallback_tiers tier False)"
    using known [OF tier] same [OF tier] by (auto simp: fallback_tiers_def normalize_tier_def judgment_tiers_def)
  ultimately have "(''reader'', m) \<in> set (all_candidates c ov x (select_tier_for_phase phase tier)
      (should_exclude_reader_for_phase phase tier))"
    using assms(3) by (auto simp: all_candidates_def)
  with first show ?thesis by simp
qed

section \<open>Two models\<close>

definition two_models :: routing_config where
  "two_models = \<lparr>rc_model = ''a/main'', rc_routing = [(''reader'', ''b/small'')], rc_fallbacks = []\<rparr>"

definition no_failures :: models where
  "no_failures = \<lparr>md_health = [], md_errors = [], md_classifying = []\<rparr>"

definition nothing_excluded :: excluded where
  "nothing_excluded = \<lparr>ex_models = [], ex_providers = []\<rparr>"

lemmas text_eval = lower_def lower_char_def strip_def lstrip_def is_space_def char_of_def bit_0

lemma classify_demo: "classify_error_code ''odd'' = ''other''" "classify_error_code ''timeout'' = ''timeout''"
  by (simp_all add: classify_error_code_def is_codex_token_revoked_def contains_status_code_def Let_def text_eval)

theorem stale_classification_witness:
  "hl_last_code (get_health (llm_classify_and_rewrite 10 ''a/main'' (Some ''402'')
     (snd (mark_model_failure 5 ''a/main'' ''timeout'' (mark_model_success ''a/main''
       (snd (mark_model_failure 0 ''a/main'' ''odd'' no_failures)))))) ''a/main'') = ''402''"
proof -
  have "classified_code ''402'' = ''402''"
    by (simp add: classified_code_def split_ws_def text_eval)
  moreover have "(10::rat) < 5 + cooldown_seconds ''timeout'' 1"
    by (simp add: cooldown_seconds_def fixed_cooldown_def)
  ultimately show ?thesis
    using stale_classification [where reply = "''402''" and ?n2.0 = 10 and ?n1.0 = 5 and ?err1.0 = "''timeout''"
        and m = "''a/main''" and ?n0.0 = 0 and ?err0.0 = "''odd''" and t = no_failures]
    by (simp add: classify_demo)
qed

lemma two_model_candidates:
  "''b/small'' \<in> set (tier_model_candidates two_models [] nothing_excluded ''reader'')"
  by (simp add: set_tier_model_candidates two_models_def nothing_excluded_def is_excluded_def resolve_tier_model_def)

theorem retry_readmits_reader_witness:
  "(''reader'', ''b/small'') \<in> set (all_candidates two_models [] nothing_excluded
     (select_tier_for_phase ''initial'' (retry_fallback_tier ''reasoner'' ''initial'' []))
     (should_exclude_reader_for_phase ''initial'' (retry_fallback_tier ''reasoner'' ''initial'' [])))"
proof -
  have "is_reasoner_only_phase ''initial''" by (simp add: is_reasoner_only_phase_def text_eval)
  from retry_readmits_reader [OF this two_model_candidates, of "''reasoner''" "[]"] show ?thesis by blast
qed

theorem select_provider_sound_witness:
  "sel_model (fst (select_provider two_models (\<lambda>m. None) 100 ''initial'' [] [] nothing_excluded no_failures)) = ''a/main''"
proof -
  let ?r = "select_provider two_models (\<lambda>m. None) 100 ''initial'' [] [] nothing_excluded no_failures"
  let ?cs = "all_candidates two_models [] nothing_excluded (select_tier_for_phase ''initial'' [])
    (should_exclude_reader_for_phase ''initial'' [])"
  have tier: "select_tier_for_phase ''initial'' [] = ''reasoner''"
    by (simp add: select_tier_for_phase_def is_judgment_tier_def normalize_tier_text_def judgment_tiers_def text_eval)
  have first: "tier_model_candidates two_models [] nothing_excluded ''reasoner'' = [''a/main'']"
    by (simp add: tier_model_candidates_def two_models_def nothing_excluded_def is_excluded_def resolve_tier_model_def
        tier_fallback_models_def)
  have "usable two_models (\<lambda>m. None) 100 no_failures m" for m
    by (simp add: usable_def is_model_available_def get_health_def no_failures_def fresh_health_def build_error_def)
  then have found: "find (\<lambda>(tier, m). usable two_models (\<lambda>m. None) 100 no_failures m) ?cs = Some (''reasoner'', ''a/main'')"
    by (simp add: all_candidates_def tier first)
  from select_provider_sound [OF prod.collapse [symmetric] refl, where c = two_models and build = "\<lambda>m. None"
      and now = 100 and phase = "''initial''" and wished = "[]" and ov = "[]" and x = nothing_excluded and t = no_failures]
  show ?thesis by (simp add: found)
qed

end
