(* ===== verification/Model_Call.thy ===== *)
theory Model_Call
  imports Model_Health "HOL-Library.Product_Lexorder"
begin

text \<open>
  The call of a model in \<open>core/judgment/decision/helpers.py\<close> and \<open>prompt_mixin.py\<close>: up to three attempts,
  each with messages trimmed to the budget of its model, each failure entered in the health table
  and answered by a failover or by a pause. What a model answers, its budget, the limits that regular
  expressions read out of an error text, and the capsule that replaces the last user message (it is
  cut out by Chinese headings) are arguments; so are the texts of the stubs.
\<close>

section \<open>Trimming messages\<close>

text \<open>A content that is no text (an image) is \<open>None\<close>.\<close>

record message =
  mg_role :: string
  mg_content :: "string option"

record stubs =
  sb_omit :: string
  sb_tight :: string
  sb_capsule :: "bool \<Rightarrow> string \<Rightarrow> string"

text \<open>No character of the model is a Chinese one; \<open>0.3\<close> per ASCII character, one per other.\<close>

definition estimate_text_tokens :: "string \<Rightarrow> int" where
  "estimate_text_tokens s = (let a = length (filter (\<lambda>c. of_char c < (128 :: nat)) s); other = length s - a
     in max 1 (int ((3 * a + 10 * other) div 10)))"

definition messages_total :: "message list \<Rightarrow> int" where
  "messages_total ms = sum_list (map (\<lambda>m. case mg_content m of None \<Rightarrow> 0 | Some s \<Rightarrow> estimate_text_tokens s) ms)"

definition target_prompt_budget :: "int \<Rightarrow> int" where
  "target_prompt_budget limit = (if limit \<le> 0 then 0 else max 1024 (limit * 9 div 10))"

definition role_drop_priority :: "string \<Rightarrow> bool \<Rightarrow> nat" where
  "role_drop_priority role is_last =
    (if role = ''tool'' then 0 else if role = ''assistant'' then 1
     else if role = ''user'' then (if is_last then 3 else 2) else if role = ''system'' then 4 else 50)"

text \<open>A message that may still go: its number and role, in the original list.\<close>

definition droppable :: "stubs \<Rightarrow> message list \<Rightarrow> nat list \<Rightarrow> nat \<Rightarrow> bool" where
  "droppable sb ms omitted i \<longleftrightarrow> i < length ms \<and> i \<notin> set omitted \<and>
     (case mg_content (ms ! i) of None \<Rightarrow> False | Some s \<Rightarrow> s \<noteq> [] \<and> strip s \<noteq> sb_omit sb \<and> strip s \<noteq> sb_tight sb)"

definition drop_key :: "message list \<Rightarrow> nat \<Rightarrow> nat \<times> nat" where
  "drop_key ms i = (role_drop_priority (mg_role (ms ! i)) (Suc i = length ms), i)"

definition next_drop :: "stubs \<Rightarrow> message list \<Rightarrow> nat list \<Rightarrow> nat option" where
  "next_drop sb ms omitted = (case sort_key (drop_key ms) (filter (droppable sb ms omitted) [0..<length ms]) of
     [] \<Rightarrow> None | i # _ \<Rightarrow> Some i)"

definition replaced :: "stubs \<Rightarrow> bool \<Rightarrow> bool \<Rightarrow> message \<Rightarrow> message" where
  "replaced sb tight is_last m = (let role = (if mg_role m = [] then ''user'' else mg_role m) in
     \<lparr>mg_role = role, mg_content = Some (case mg_content m of
        Some s \<Rightarrow> if role = ''user'' \<and> is_last then sb_capsule sb tight s
          else if tight then sb_tight sb else sb_omit sb
      | None \<Rightarrow> if tight then sb_tight sb else sb_omit sb)\<rparr>)"

lemma next_drop_Some:
  assumes "next_drop sb ms omitted = Some i"
  shows "droppable sb ms omitted i \<and> (\<forall>j. droppable sb ms omitted j \<longrightarrow> drop_key ms i \<le> drop_key ms j)"
proof -
  let ?xs = "filter (droppable sb ms omitted) [0..<length ms]"
  obtain rest where sorted: "sort_key (drop_key ms) ?xs = i # rest"
    using assms by (auto simp: next_drop_def split: list.splits)
  then have "i \<in> set ?xs" by (metis list.set_intros(1) set_sort)
  moreover have "drop_key ms i \<le> drop_key ms j" if "droppable sb ms omitted j" for j
  proof -
    have "j \<in> set (i # rest)" using that by (simp flip: sorted add: droppable_def)
    moreover have "sorted (map (drop_key ms) (i # rest))" by (simp flip: sorted)
    ultimately show ?thesis by auto
  qed
  ultimately show ?thesis by simp
qed

lemma next_drop_None: "next_drop sb ms omitted = None \<longleftrightarrow> (\<forall>j. \<not> droppable sb ms omitted j)"
proof -
  let ?xs = "filter (droppable sb ms omitted) [0..<length ms]"
  have "next_drop sb ms omitted = None \<longleftrightarrow> sort_key (drop_key ms) ?xs = []"
    by (auto simp: next_drop_def split: list.split)
  also have "\<dots> \<longleftrightarrow> ?xs = []" by (metis length_0_conv length_sort)
  also have "\<dots> \<longleftrightarrow> (\<forall>j. \<not> droppable sb ms omitted j)" by (auto simp: filter_empty_conv droppable_def)
  finally show ?thesis .
qed

text \<open>The loop: \<open>orig\<close> are the messages it looks at, \<open>new\<close> those it changes.\<close>

function trim_loop :: "stubs \<Rightarrow> bool \<Rightarrow> int \<Rightarrow> message list \<Rightarrow> nat list \<Rightarrow> message list \<Rightarrow> message list \<times> nat list" where
  "trim_loop sb tight target orig omitted new =
    (if messages_total new \<le> target then (new, omitted)
     else (case next_drop sb orig omitted of
         None \<Rightarrow> (new, omitted)
       | Some i \<Rightarrow> trim_loop sb tight target orig (i # omitted)
           (new[i := replaced sb tight (Suc i = length orig) (new ! i)])))"
  by pat_completeness auto
termination
proof (relation "measure (\<lambda>(sb, tight, target, orig, omitted, new). card {i. droppable sb orig omitted i})", goal_cases)
  case (2 sb tight target orig omitted new i)
  have "{j. droppable sb orig (i # omitted) j} \<subset> {j. droppable sb orig omitted j}"
    using next_drop_Some [OF 2(2)] by (auto simp: droppable_def)
  moreover have "finite {j. droppable sb orig omitted j}"
    by (rule finite_subset [of _ "{..<length orig}"]) (auto simp: droppable_def)
  ultimately show ?case by (simp add: psubset_card_mono)
qed simp

declare trim_loop.simps [simp del]

definition is_text :: "message \<Rightarrow> bool" where
  "is_text m \<longleftrightarrow> mg_content m \<noteq> None"

text \<open>In a tight trim the long stubs of an earlier trim become short ones first.\<close>

definition shorten_stub :: "stubs \<Rightarrow> message \<Rightarrow> message" where
  "shorten_stub sb m = (case mg_content m of
      Some s \<Rightarrow> if strip s = sb_omit sb
        then \<lparr>mg_role = (if mg_role m = [] then ''user'' else mg_role m), mg_content = Some (sb_tight sb)\<rparr> else m
    | None \<Rightarrow> m)"

definition is_long_stub :: "stubs \<Rightarrow> message \<Rightarrow> bool" where
  "is_long_stub sb m \<longleftrightarrow> (case mg_content m of Some s \<Rightarrow> strip s = sb_omit sb | None \<Rightarrow> False)"

text \<open>\<open>None\<close> when the messages stay as they are.\<close>

definition trim_messages :: "stubs \<Rightarrow> int \<Rightarrow> int option \<Rightarrow> bool \<Rightarrow> message list \<Rightarrow> message list option" where
  "trim_messages sb limit prompt_count tight ms =
    (if limit \<le> 0 \<or> list_all (\<lambda>m. \<not> is_text m) ms then None
     else (let target = target_prompt_budget limit; approx = messages_total ms;
               current = (case prompt_count of Some n \<Rightarrow> if 0 < n then n else approx | None \<Rightarrow> approx)
           in if current \<le> target \<and> approx \<le> target then None
              else (let start = (if tight then map (shorten_stub sb) ms else ms);
                        (new, omitted) = trim_loop sb tight target ms [] start
                    in if omitted \<noteq> [] \<or> tight \<and> list_ex (is_long_stub sb) ms then Some new else None)))"

section \<open>What an error asks for\<close>

definition is_output_overflow_error :: "string \<Rightarrow> bool" where
  "is_output_overflow_error err = (let has = contains (lower err) in
     has ''max_tokens'' \<and> (has ''available_tokens'' \<or> has ''context_window'' \<and> has ''input_tokens''))"

definition entity_too_large :: "string \<Rightarrow> bool" where
  "entity_too_large err = (let has = contains (lower err) in
     has ''413'' \<or> has ''request entity too large'' \<or> has ''payload too large'')"

text \<open>The pause before a retry; \<open>jitter\<close> between 0 and 1 stands for the random number.\<close>

definition retry_delay_seconds :: "nat \<Rightarrow> rat option \<Rightarrow> rat \<Rightarrow> rat" where
  "retry_delay_seconds attempt retry_after jitter = (let d = min 30 (12 / 10 * 2 ^ (attempt - 1)) in
     case retry_after of
       Some r \<Rightarrow> (let d' = max d r in min 30 (d' + jitter * min (2 / 10 * d') (15 / 10)))
     | None \<Rightarrow> max (1 / 10) (min 30 (d + (2 * jitter - 1) * (2 / 10 * d))))"

section \<open>The call\<close>

datatype reply = Replied string | Timed_Out | Failed string

record call_env =
  ce_config :: routing_config
  ce_build :: "string \<Rightarrow> string option"
  ce_now :: "nat \<Rightarrow> rat"
  ce_reply :: "nat \<Rightarrow> string \<Rightarrow> message list \<Rightarrow> reply"
  ce_budget :: "nat \<Rightarrow> string \<Rightarrow> int"
  ce_limits :: "string \<Rightarrow> int option \<times> int option"
  ce_max_input :: int
  ce_timeout_text :: string
  ce_stubs :: stubs
  ce_phase :: string
  ce_overrides :: "(string \<times> string) list"
  ce_fallback_prefer :: string

record call_state =
  cl_sel :: selection
  cl_messages :: "message list"
  cl_models :: models
  cl_excluded :: excluded
  cl_error :: "string option"

text \<open>Another model when there is one, else the same again after a pause.\<close>

definition apply_retry_plan :: "call_env \<Rightarrow> nat \<Rightarrow> call_state \<Rightarrow> call_state" where
  "apply_retry_plan e n s = (let (sel, t) = pick_retry_provider (ce_config e) (ce_build e) (ce_now e n) (cl_sel s)
       (ce_phase e) (ce_fallback_prefer e) (ce_overrides e) (cl_excluded s) (cl_models s)
     in s\<lparr>cl_models := t, cl_sel := (if sel_model sel \<noteq> sel_model (cl_sel s) then sel else cl_sel s)\<rparr>)"

definition proactive_trim :: "call_env \<Rightarrow> nat \<Rightarrow> call_state \<Rightarrow> call_state" where
  "proactive_trim e n s = (let est = messages_total (cl_messages s); budget = ce_budget e n (sel_model (cl_sel s)) in
     if budget < est
     then (case trim_messages (ce_stubs e) budget (Some est) False (cl_messages s) of
         Some ms \<Rightarrow> s\<lparr>cl_messages := ms\<rparr> | None \<Rightarrow> s)
     else s)"

definition after_timeout :: "call_env \<Rightarrow> nat \<Rightarrow> call_state \<Rightarrow> call_state" where
  "after_timeout e n s = (let t = snd (mark_model_failure (ce_now e n) (sel_model (cl_sel s)) (ce_timeout_text e) (cl_models s));
       s1 = s\<lparr>cl_models := t, cl_error := Some (ce_timeout_text e)\<rparr>
     in if n < 2 then apply_retry_plan e n s1 else s1)"

definition block_failed :: "string \<Rightarrow> string \<Rightarrow> string \<Rightarrow> excluded \<Rightarrow> excluded" where
  "block_failed m code err x =
     \<lparr>ex_models = (if is_blocked_candidate_after_failure code err then m # ex_models x else ex_models x),
      ex_providers = (if is_provider_blocked_after_failure code then provider_of_model m # ex_providers x
        else ex_providers x)\<rparr>"

definition error_limit :: "call_env \<Rightarrow> string \<Rightarrow> int" where
  "error_limit e err = (let limit = (case snd (ce_limits e err) of None \<Rightarrow> 0 | Some l \<Rightarrow> l) in
     if limit = 0 \<and> \<not> is_output_overflow_error err \<and> entity_too_large err
     then (if 0 < ce_max_input e then ce_max_input e else 8000) else limit)"

definition after_failure :: "call_env \<Rightarrow> nat \<Rightarrow> string \<Rightarrow> call_state \<Rightarrow> call_state" where
  "after_failure e n err s =
    (let m = sel_model (cl_sel s); (code, t) = mark_model_failure (ce_now e n) m err (cl_models s);
         s1 = s\<lparr>cl_models := t, cl_error := Some err, cl_excluded := block_failed m code err (cl_excluded s)\<rparr>;
         limit = error_limit e err;
         trimmed = (if limit \<noteq> 0 \<and> \<not> is_output_overflow_error err
           then trim_messages (ce_stubs e) limit (fst (ce_limits e err)) True (cl_messages s1) else None)
     in case trimmed of
          Some ms \<Rightarrow> s1\<lparr>cl_messages := ms\<rparr>
        | None \<Rightarrow> if n < 2 then apply_retry_plan e n s1 else s1)"

text \<open>One attempt: \<open>Inl\<close> the answer, or \<open>Inr\<close> the state for the next attempt.\<close>

definition attempt :: "call_env \<Rightarrow> nat \<Rightarrow> call_state \<Rightarrow> (string \<times> call_state) + call_state" where
  "attempt e n s = (let s1 = proactive_trim e n s; m = sel_model (cl_sel s1) in
     case ce_reply e n m (cl_messages s1) of
       Replied raw \<Rightarrow> Inl (raw, s1\<lparr>cl_models := mark_model_success m (cl_models s1)\<rparr>)
     | Timed_Out \<Rightarrow> Inr (after_timeout e n s1)
     | Failed err \<Rightarrow> Inr (after_failure e n err s1))"

fun attempts :: "call_env \<Rightarrow> nat \<Rightarrow> nat \<Rightarrow> call_state \<Rightarrow> string option \<times> call_state" where
  "attempts e 0 n s = (None, s)"
| "attempts e (Suc k) n s = (case attempt e n s of
      Inl (raw, s') \<Rightarrow> (Some raw, s'\<lparr>cl_error := None\<rparr>)
    | Inr s' \<Rightarrow> attempts e k (Suc n) s')"

definition chat_with_retry :: "call_env \<Rightarrow> selection \<Rightarrow> message list \<Rightarrow> models \<Rightarrow> string option \<times> call_state" where
  "chat_with_retry e sel ms t = attempts e 3 0 \<lparr>cl_sel = sel, cl_messages = ms, cl_models = t,
     cl_excluded = \<lparr>ex_models = [], ex_providers = []\<rparr>, cl_error = None\<rparr>"

section \<open>What trimming keeps\<close>

lemma droppable_omitted: "droppable sb ms omitted j \<longleftrightarrow> droppable sb ms [] j \<and> j \<notin> set omitted"
  by (auto simp: droppable_def)

definition trimmed_to ::
    "stubs \<Rightarrow> bool \<Rightarrow> message list \<Rightarrow> message list \<Rightarrow> nat list \<Rightarrow> message list \<Rightarrow> bool" where
  "trimmed_to sb tight orig start omitted new \<longleftrightarrow> length new = length orig \<and>
     (\<forall>i < length orig. new ! i = (if i \<in> set omitted then replaced sb tight (Suc i = length orig) (start ! i) else start ! i)) \<and>
     (\<forall>i \<in> set omitted. droppable sb orig [] i) \<and>
     (\<forall>i \<in> set omitted. \<forall>j. droppable sb orig [] j \<and> drop_key orig j < drop_key orig i \<longrightarrow> j \<in> set omitted)"

lemma trimmed_toD:
  assumes "trimmed_to sb tight orig start omitted new"
  shows "length new = length orig"
    and "i < length orig \<Longrightarrow> new ! i = (if i \<in> set omitted then replaced sb tight (Suc i = length orig) (start ! i) else start ! i)"
    and "i \<in> set omitted \<Longrightarrow> droppable sb orig [] i"
    and "i \<in> set omitted \<Longrightarrow> droppable sb orig [] j \<Longrightarrow> drop_key orig j < drop_key orig i \<Longrightarrow> j \<in> set omitted"
  using assms unfolding trimmed_to_def by blast+

lemma trimmed_to_start: "length start = length orig \<Longrightarrow> trimmed_to sb tight orig start [] start"
  by (simp add: trimmed_to_def)

lemma trimmed_to_step:
  assumes "trimmed_to sb tight orig start omitted new" "next_drop sb orig omitted = Some i"
  shows "trimmed_to sb tight orig start (i # omitted) (new[i := replaced sb tight (Suc i = length orig) (new ! i)])"
proof -
  note i = next_drop_Some [OF assms(2)]
  then have d: "droppable sb orig [] i" "i \<notin> set omitted" "i < length orig"
    using droppable_omitted [of sb orig omitted i] by (auto simp: droppable_def)
  have closed: "j \<in> set (i # omitted)" if "droppable sb orig [] j" "drop_key orig j < drop_key orig i" for j
    using that i droppable_omitted [of sb orig omitted j] by (meson list.set_intros(2) not_le)
  note old = trimmed_toD [OF assms(1)]
  show ?thesis unfolding trimmed_to_def
  proof (intro conjI ballI allI impI)
    show "length (new[i := replaced sb tight (Suc i = length orig) (new ! i)]) = length orig" using old(1) by simp
    show "new[i := replaced sb tight (Suc i = length orig) (new ! i)] ! k =
        (if k \<in> set (i # omitted) then replaced sb tight (Suc k = length orig) (start ! k) else start ! k)"
      if "k < length orig" for k
      using old(1) old(2) [OF that] d that by (cases "k = i") simp_all
    show "droppable sb orig [] k" if "k \<in> set (i # omitted)" for k
      using old(3) [of k] d(1) that by (cases "k = i") simp_all
    show "j \<in> set (i # omitted)" if "k \<in> set (i # omitted)" "droppable sb orig [] j \<and> drop_key orig j < drop_key orig k" for k j
    proof (cases "k = i")
      case True
      with that(2) closed show ?thesis by blast
    next
      case False
      with that have "j \<in> set omitted" by (intro old(4) [of k j]) simp_all
      then show ?thesis by simp
    qed
  qed
qed

lemma trim_loop_result:
  "trim_loop sb tight target orig omitted new = (new', omitted') \<Longrightarrow> trimmed_to sb tight orig start omitted new \<Longrightarrow>
   trimmed_to sb tight orig start omitted' new' \<and>
   (messages_total new' \<le> target \<or> (\<forall>j. droppable sb orig [] j \<longrightarrow> j \<in> set omitted'))"
proof (induction sb tight target orig omitted new rule: trim_loop.induct)
  case (1 sb tight target orig omitted new)
  show ?case
  proof (cases "messages_total new \<le> target")
    case False
    show ?thesis
    proof (cases "next_drop sb orig omitted")
      case None
      with next_drop_None [of sb orig omitted] 1(2,3) False show ?thesis
        by (auto simp: trim_loop.simps [of sb tight target orig omitted new] droppable_omitted [of sb orig omitted])
    next
      case (Some i)
      with 1(2) False have "trim_loop sb tight target orig (i # omitted)
          (new[i := replaced sb tight (Suc i = length orig) (new ! i)]) = (new', omitted')"
        by (simp add: trim_loop.simps [of sb tight target orig omitted new])
      from 1(1) [OF False Some this trimmed_to_step [OF 1(3) Some]] show ?thesis .
    qed
  qed (use 1 in \<open>simp add: trim_loop.simps [of sb tight target orig omitted new]\<close>)
qed

definition trim_start :: "stubs \<Rightarrow> bool \<Rightarrow> message list \<Rightarrow> message list" where
  "trim_start sb tight ms = (if tight then map (shorten_stub sb) ms else ms)"

lemma trim_messages_result:
  assumes "trim_messages sb limit pc tight ms = Some new"
  shows "\<exists>omitted. trimmed_to sb tight ms (trim_start sb tight ms) omitted new \<and>
    (messages_total new \<le> target_prompt_budget limit \<or> (\<forall>j. droppable sb ms [] j \<longrightarrow> j \<in> set omitted))"
proof -
  obtain new' omitted where r: "trim_loop sb tight (target_prompt_budget limit) ms [] (trim_start sb tight ms) = (new', omitted)"
    by fastforce
  moreover have "new' = new"
    using assms r by (auto simp: trim_messages_def trim_start_def Let_def split: if_splits prod.splits option.splits)
  moreover have "length (trim_start sb tight ms) = length ms" by (simp add: trim_start_def)
  ultimately show ?thesis using trim_loop_result [OF r trimmed_to_start] by blast
qed

text \<open>Trimming replaces whole messages by stubs and leaves the others alone. It takes tool results first,
  then answers of the model, then older user messages, then the last one, and the system messages last,
  older ones first; and it stops when the estimate fits the budget or nothing can be replaced any more.\<close>

theorem trim_effect:
  assumes "trim_messages sb limit pc tight ms = Some new"
  shows "length new = length ms \<and> (\<exists>out.
    (\<forall>i < length ms. new ! i = (let m = trim_start sb tight ms ! i in
        if i \<in> out then replaced sb tight (Suc i = length ms) m else m)) \<and>
    (\<forall>i \<in> out. \<forall>j. droppable sb ms [] j \<and> drop_key ms j < drop_key ms i \<longrightarrow> j \<in> out) \<and>
    (messages_total new \<le> target_prompt_budget limit \<or> out = {j. droppable sb ms [] j}))"
proof -
  from trim_messages_result [OF assms] obtain omitted where
    o: "trimmed_to sb tight ms (trim_start sb tight ms) omitted new"
    "messages_total new \<le> target_prompt_budget limit \<or> (\<forall>j. droppable sb ms [] j \<longrightarrow> j \<in> set omitted)" by blast
  note to = trimmed_toD [OF o(1)]
  have "set omitted \<subseteq> {j. droppable sb ms [] j}" using to(3) by blast
  with o(2) have "messages_total new \<le> target_prompt_budget limit \<or> set omitted = {j. droppable sb ms [] j}" by blast
  moreover have "\<forall>i < length ms. new ! i = (let m = trim_start sb tight ms ! i in
      if i \<in> set omitted then replaced sb tight (Suc i = length ms) m else m)"
    using to(2) by (simp add: Let_def)
  moreover have "\<forall>i \<in> set omitted. \<forall>j. droppable sb ms [] j \<and> drop_key ms j < drop_key ms i \<longrightarrow> j \<in> set omitted"
    using to(4) by blast
  ultimately show ?thesis using to(1) by (intro conjI exI [of _ "set omitted"])
qed

section \<open>What a call returns\<close>

text \<open>The state before attempt \<open>n\<close>, had all the earlier ones failed.\<close>

primrec call_trace :: "call_env \<Rightarrow> call_state \<Rightarrow> nat \<Rightarrow> call_state" where
  "call_trace e s 0 = s"
| "call_trace e s (Suc n) = (case attempt e n (call_trace e s n) of Inl (raw, s') \<Rightarrow> s' | Inr s' \<Rightarrow> s')"

lemma attempts_trace:
  assumes "attempts e k n (call_trace e s n) = (r, s')"
  shows "case r of
      Some raw \<Rightarrow> \<exists>m s1. n \<le> m \<and> m < n + k \<and> (\<forall>i. n \<le> i \<and> i < m \<longrightarrow> \<not> isl (attempt e i (call_trace e s i))) \<and>
        attempt e m (call_trace e s m) = Inl (raw, s1) \<and> s' = s1\<lparr>cl_error := None\<rparr>
    | None \<Rightarrow> (\<forall>i. n \<le> i \<and> i < n + k \<longrightarrow> \<not> isl (attempt e i (call_trace e s i))) \<and> s' = call_trace e s (n + k)"
  using assms
proof (induction k arbitrary: n)
  case (Suc k)
  show ?case
  proof (cases "attempt e n (call_trace e s n)")
    case (Inl rs)
    with Suc.prems show ?thesis by (cases rs) (auto intro!: exI [of _ n])
  next
    case (Inr s1)
    then have next_state: "call_trace e s (Suc n) = s1" by simp
    have "attempts e k (Suc n) (call_trace e s (Suc n)) = (r, s')"
      using Suc.prems Inr by (simp add: next_state)
    note ih = Suc.IH [OF this]
    have n: "\<not> isl (attempt e n (call_trace e s n))" by (simp add: Inr)
    show ?thesis
    proof (cases r)
      case None
      have "\<not> isl (attempt e i (call_trace e s i))" if "n \<le> i" "i < n + Suc k" for i
        using that ih n None by (cases "i = n") auto
      with ih None show ?thesis by simp
    next
      case (Some raw)
      with ih obtain m s2 where m: "Suc n \<le> m" "m < Suc n + k"
        "\<forall>i. Suc n \<le> i \<and> i < m \<longrightarrow> \<not> isl (attempt e i (call_trace e s i))"
        "attempt e m (call_trace e s m) = Inl (raw, s2)" "s' = s2\<lparr>cl_error := None\<rparr>" by auto
      have "\<not> isl (attempt e i (call_trace e s i))" if "n \<le> i" "i < m" for i
        using that m(3) n by (cases "i = n") auto
      with m Some show ?thesis by (auto intro!: exI [of _ m])
    qed
  qed
qed (auto split: option.split)

lemma retry_plan_error [simp]: "cl_error (apply_retry_plan e n s) = cl_error s"
  by (simp add: apply_retry_plan_def split: prod.split)

lemma failed_attempt_error: "attempt e n s = Inr s' \<Longrightarrow> cl_error s' \<noteq> None"
  by (auto simp: attempt_def after_timeout_def after_failure_def Let_def split: reply.splits prod.splits option.splits if_splits)

lemma answered_attempt:
  "attempt e n s = Inl (raw, s') \<Longrightarrow> ce_reply e n (sel_model (cl_sel s')) (cl_messages s') = Replied raw \<and>
     get_health (cl_models s') (sel_model (cl_sel s')) = fresh_health"
  by (auto simp: attempt_def Let_def get_health_success split: reply.splits)

definition start_call :: "selection \<Rightarrow> message list \<Rightarrow> models \<Rightarrow> call_state" where
  "start_call sel ms t = \<lparr>cl_sel = sel, cl_messages = ms, cl_models = t,
     cl_excluded = \<lparr>ex_models = [], ex_providers = []\<rparr>, cl_error = None\<rparr>"


section \<open>Failing over\<close>

definition asked :: "call_env \<Rightarrow> call_state \<Rightarrow> nat \<Rightarrow> string" where
  "asked e s n = sel_model (cl_sel (call_trace e s n))"

text \<open>What attempt \<open>n\<close> is answered.\<close>

definition answer :: "call_env \<Rightarrow> call_state \<Rightarrow> nat \<Rightarrow> reply" where
  "answer e s n = ce_reply e n (asked e s n) (cl_messages (proactive_trim e n (call_trace e s n)))"

lemma proactive_trim_parts [simp]:
  "cl_sel (proactive_trim e n s) = cl_sel s" "cl_excluded (proactive_trim e n s) = cl_excluded s"
  "cl_models (proactive_trim e n s) = cl_models s"
  by (simp_all add: proactive_trim_def Let_def split: option.split)

definition choice_ok :: "call_env \<Rightarrow> call_state \<Rightarrow> bool" where
  "choice_ok e s \<longleftrightarrow> sel_model (cl_sel s) = rc_model (ce_config e) \<or> \<not> is_excluded (cl_excluded s) (sel_model (cl_sel s))"

lemma retry_plan_ok: "choice_ok e (apply_retry_plan e n s) \<and> cl_excluded (apply_retry_plan e n s) = cl_excluded s"
proof -
  obtain sel t where r: "pick_retry_provider (ce_config e) (ce_build e) (ce_now e n) (cl_sel s) (ce_phase e)
      (ce_fallback_prefer e) (ce_overrides e) (cl_excluded s) (cl_models s) = (sel, t)" by fastforce
  with select_provider_allowed [OF r [unfolded pick_retry_provider_def]] show ?thesis
    by (auto simp: apply_retry_plan_def choice_ok_def)
qed

lemma attempt_step:
  assumes "n < 2" "attempt e n s = Inr s1"
    and "\<forall>err. ce_reply e n (sel_model (cl_sel s)) (cl_messages (proactive_trim e n s)) = Failed err \<longrightarrow> error_limit e err = 0"
  shows "choice_ok e s1 \<and> set (ex_models (cl_excluded s)) \<subseteq> set (ex_models (cl_excluded s1)) \<and>
    (\<forall>err. ce_reply e n (sel_model (cl_sel s)) (cl_messages (proactive_trim e n s)) = Failed err \<and>
       is_blocked_candidate_after_failure (classify_error_code err) err \<longrightarrow>
       sel_model (cl_sel s) \<in> set (ex_models (cl_excluded s1)))"
proof (cases "ce_reply e n (sel_model (cl_sel s)) (cl_messages (proactive_trim e n s))")
  case (Replied raw)
  with assms(2) show ?thesis by (simp add: attempt_def Let_def)
next
  case Timed_Out
  with assms(1,2) retry_plan_ok show ?thesis by (auto simp: attempt_def after_timeout_def Let_def)
next
  case (Failed err)
  obtain t where t: "mark_model_failure (ce_now e n) (sel_model (cl_sel s)) err (cl_models s) = (classify_error_code err, t)"
    by (simp add: mark_model_failure_def Let_def)
  from Failed assms t have "s1 = apply_retry_plan e n ((proactive_trim e n s)\<lparr>cl_models := t, cl_error := Some err,
      cl_excluded := block_failed (sel_model (cl_sel s)) (classify_error_code err) err (cl_excluded s)\<rparr>)"
    by (simp add: attempt_def after_failure_def Let_def)
  then show ?thesis using retry_plan_ok Failed by (auto simp: block_failed_def)
qed

text \<open>A model that failed for good (its key, its quota, the model itself) is not asked again in the same
  call, unless it is the main model: when every candidate is to be avoided the main model is asked all
  the same. (No limit is read out of an error: a call whose messages are trimmed keeps its model.)\<close>

theorem failover_avoids_blocked:
  assumes "\<forall>k < j. \<forall>err. answer e s k = Failed err \<longrightarrow> error_limit e err = 0"
    and "i < j" "j \<le> 2" "\<forall>k < j. \<not> isl (attempt e k (call_trace e s k))"
    and "answer e s i = Failed err" "is_blocked_candidate_after_failure (classify_error_code err) err"
    and "asked e s j = asked e s i"
  shows "asked e s i = rc_model (ce_config e)"
proof -
  have step: "choice_ok e (call_trace e s (Suc k)) \<and>
      set (ex_models (cl_excluded (call_trace e s k))) \<subseteq> set (ex_models (cl_excluded (call_trace e s (Suc k)))) \<and>
      (\<forall>err. answer e s k = Failed err \<and> is_blocked_candidate_after_failure (classify_error_code err) err \<longrightarrow>
        asked e s k \<in> set (ex_models (cl_excluded (call_trace e s (Suc k)))))" if kj: "k < j" for k
  proof -
    obtain s1 where s1: "attempt e k (call_trace e s k) = Inr s1"
      using assms(4) [rule_format, OF kj] by (cases "attempt e k (call_trace e s k)") simp_all
    from attempt_step [OF _ s1] assms(1) [rule_format, OF kj] kj assms(3) s1 show ?thesis by (simp add: answer_def asked_def)
  qed
  have "asked e s i \<in> set (ex_models (cl_excluded (call_trace e s (Suc i))))"
    using step [OF assms(2)] assms(5,6) by blast
  moreover have "set (ex_models (cl_excluded (call_trace e s (Suc i)))) \<subseteq> set (ex_models (cl_excluded (call_trace e s j)))"
  proof (cases "Suc i = j")
    case False
    then have "j = Suc (Suc i)" using assms(2,3) by simp
    then show ?thesis using step [of "Suc i"] by simp
  qed simp
  moreover have "choice_ok e (call_trace e s j)" using step [of "j - 1"] assms(2) by (cases j) simp_all
  ultimately show ?thesis
    using assms(7) by (auto simp: choice_ok_def is_excluded_def asked_def)
qed

section \<open>Stubs that are longer than what they replace\<close>

lemma trim_proceeds:
  assumes "0 < limit" "target_prompt_budget limit < messages_total ms" "droppable sb ms [] i"
  shows "\<exists>new. trim_messages sb limit pc False ms = Some new"
proof -
  obtain new omitted where r: "trim_loop sb False (target_prompt_budget limit) ms [] ms = (new, omitted)" by fastforce
  from trim_loop_result [OF r trimmed_to_start] have
    o: "trimmed_to sb False ms ms omitted new"
    "messages_total new \<le> target_prompt_budget limit \<or> (\<forall>j. droppable sb ms [] j \<longrightarrow> j \<in> set omitted)" by simp_all
  have "omitted \<noteq> []"
  proof
    assume none: "omitted = []"
    with trimmed_toD(1,2) [OF o(1)] have "new = ms" by (intro nth_equalityI) simp_all
    with o(2) none assms(2,3) show False by auto
  qed
  moreover have "\<not> list_all (\<lambda>m. \<not> is_text m) ms"
    using assms(3) by (auto simp: droppable_def is_text_def list_all_length split: option.splits)
  ultimately show ?thesis
    using assms(1,2) r by (auto simp: trim_messages_def Let_def split: option.split)
qed

text \<open>Trimming can make a request longer. When every message is estimated shorter than the stub and the
  messages are over the budget, every one of them is replaced, and the result is longer than before.\<close>

theorem trim_can_grow:
  assumes "trim_messages sb limit pc False ms = Some new" "target_prompt_budget limit < messages_total ms"
    and "\<forall>m \<in> set ms. mg_role m = ''tool'' \<and> (\<exists>s. mg_content m = Some s \<and> s \<noteq> [] \<and> strip s \<noteq> sb_omit sb \<and>
      strip s \<noteq> sb_tight sb \<and> estimate_text_tokens s < estimate_text_tokens (sb_omit sb))"
  shows "messages_total new = int (length ms) * estimate_text_tokens (sb_omit sb) \<and> messages_total ms < messages_total new"
proof -
  let ?c = "\<lambda>m. case mg_content m of None \<Rightarrow> 0 | Some s \<Rightarrow> estimate_text_tokens s" and ?b = "estimate_text_tokens (sb_omit sb)"
  from trim_messages_result [OF assms(1)] obtain omitted where o: "trimmed_to sb False ms ms omitted new"
    "messages_total new \<le> target_prompt_budget limit \<or> (\<forall>j. droppable sb ms [] j \<longrightarrow> j \<in> set omitted)"
    by (auto simp: trim_start_def)
  note to = trimmed_toD [OF o(1)]
  have short: "?c (ms ! i) < ?b" "droppable sb ms [] i" "mg_role (ms ! i) = ''tool''" "mg_content (ms ! i) \<noteq> None" if "i < length ms" for i
    using bspec [OF assms(3) nth_mem [OF that]] that by (auto simp: droppable_def)
  have stub: "?c (replaced sb False b (ms ! i)) = ?b" if "i < length ms" for i b
    using short(3,4) [OF that] by (auto simp: replaced_def Let_def)
  have new: "?c (new ! i) = (if i \<in> set omitted then ?b else ?c (ms ! i))" if "i < length ms" for i
    using to(2) [OF that] stub [OF that] by simp
  have "messages_total ms \<le> messages_total new"
    unfolding messages_total_def by (rule sum_list_mono2) (use to(1) new short(1) in \<open>force simp: less_imp_le\<close>)+
  with o(2) assms(2) have all: "\<forall>j. droppable sb ms [] j \<longrightarrow> j \<in> set omitted" by (meson dual_order.strict_trans1 leD)
  have "map ?c new = replicate (length ms) ?b"
    by (intro nth_equalityI) (use to(1) new all short(2) in auto)
  then have total: "messages_total new = int (length ms) * ?b" by (simp add: messages_total_def sum_list_replicate)
  have "sum_list (map (\<lambda>m. ?c m + 1) ms) \<le> sum_list (map (\<lambda>m. ?b) ms)"
    by (rule sum_list_mono2) (use short(1) in \<open>force simp: zless_imp_add1_zle\<close>)+
  then have "messages_total ms + int (length ms) \<le> int (length ms) * ?b"
    by (simp add: messages_total_def sum_list_addf sum_list_triv)
  moreover have "0 < length ms" using assms(1) by (auto simp: trim_messages_def)
  ultimately show ?thesis using total by linarith
qed

section \<open>Examples\<close>

definition demo_stubs :: stubs where
  "demo_stubs = \<lparr>sb_omit = ''[omitted]'', sb_tight = ''[-]'', sb_capsule = (\<lambda>tight s. ''[capsule]'')\<rparr>"

definition short_messages :: "message list" where
  "short_messages = replicate 1100 \<lparr>mg_role = ''tool'', mg_content = Some ''ok''\<rparr>"

lemma short_text: "estimate_text_tokens ''ok'' = 1" "estimate_text_tokens ''[omitted]'' = 2" "strip ''ok'' = ''ok''"
  by (simp_all add: estimate_text_tokens_def text_eval)

lemma short_messages_facts:
  "messages_total short_messages = 1100" "length short_messages = 1100" "target_prompt_budget 1000 = 1024"
  "droppable demo_stubs short_messages [] 0"
  by (simp_all add: short_messages_def messages_total_def sum_list_replicate short_text target_prompt_budget_def
      droppable_def demo_stubs_def)

lemma short_messages_trimmed: "\<exists>new. trim_messages demo_stubs 1000 None False short_messages = Some new"
  by (rule trim_proceeds [OF _ _ short_messages_facts(4)]) (simp_all add: short_messages_facts)

theorem trim_can_grow_witness:
  "\<exists>new. trim_messages demo_stubs 1000 None False short_messages = Some new \<and> messages_total new = 2200"
proof -
  obtain new where new: "trim_messages demo_stubs 1000 None False short_messages = Some new"
    using short_messages_trimmed by blast
  have "\<forall>m \<in> set short_messages. mg_role m = ''tool'' \<and> (\<exists>s. mg_content m = Some s \<and> s \<noteq> [] \<and>
      strip s \<noteq> sb_omit demo_stubs \<and> strip s \<noteq> sb_tight demo_stubs \<and>
      estimate_text_tokens s < estimate_text_tokens (sb_omit demo_stubs))"
    by (simp add: short_messages_def demo_stubs_def short_text)
  from trim_can_grow [OF new _ this] new show ?thesis
    by (simp add: short_messages_facts) (simp add: demo_stubs_def short_text)
qed

theorem trim_effect_witness:
  "\<exists>new. trim_messages demo_stubs 1000 None False short_messages = Some new \<and> length new = 1100"
proof -
  obtain new where new: "trim_messages demo_stubs 1000 None False short_messages = Some new"
    using short_messages_trimmed by blast
  from trim_effect [OF this] new show ?thesis by (simp add: short_messages_facts)
qed

definition main_only :: routing_config where
  "main_only = \<lparr>rc_model = ''a/main'', rc_routing = [], rc_fallbacks = []\<rparr>"

definition demo_call :: "(nat \<Rightarrow> string \<Rightarrow> message list \<Rightarrow> reply) \<Rightarrow> call_env" where
  "demo_call f = \<lparr>ce_config = main_only, ce_build = (\<lambda>m. None), ce_now = of_nat, ce_reply = f, ce_budget = (\<lambda>n m. 8000),
     ce_limits = (\<lambda>err. (None, None)), ce_max_input = 0, ce_timeout_text = ''llm call timeout'',
     ce_stubs = demo_stubs, ce_phase = ''initial'', ce_overrides = [], ce_fallback_prefer = []\<rparr>"

definition main_sel :: selection where
  "main_sel = \<lparr>sel_tier = ''reasoner'', sel_model = ''a/main''\<rparr>"


lemma main_only_asked:
  assumes "sel_model (cl_sel s) = ''a/main''" "ce_config e = main_only" "ce_overrides e = []" "attempt e n s = Inr s'"
  shows "sel_model (cl_sel s') = ''a/main''"
proof -
  have cand: "m = ''a/main''" if "(t, m) \<in> set (all_candidates main_only [] x t' b)" for t m x t' b
    using that by (auto simp: all_candidates_def set_tier_model_candidates main_only_def resolve_tier_model_def
        tier_fallback_models_def)
  have "sel_model q = ''a/main''" if sel: "select_provider main_only b now ph w [] x t = (q, t1)" for b now ph w x t q t1
  proof -
    note cases = select_provider_cases [OF sel refl]
    show ?thesis
    proof (cases "find (\<lambda>(tier, m). usable main_only b now t m) (all_candidates main_only [] x
        (select_tier_for_phase ph w) (should_exclude_reader_for_phase ph w))")
      case None
      with cases cand show ?thesis by (auto simp: main_only_def)
    next
      case (Some tm)
      then have "tm \<in> set (all_candidates main_only [] x (select_tier_for_phase ph w) (should_exclude_reader_for_phase ph w))"
        by (metis find_Some_iff nth_mem)
      with cases Some cand show ?thesis by (cases tm) auto
    qed
  qed
  then have "sel_model (cl_sel (apply_retry_plan e n s1)) = ''a/main''" if "sel_model (cl_sel s1) = ''a/main''" for s1
    using that assms(2,3) by (auto simp: apply_retry_plan_def pick_retry_provider_def split: prod.split)
  with assms show ?thesis
    by (auto simp: attempt_def after_timeout_def after_failure_def Let_def split: reply.splits prod.splits option.splits if_splits)
qed

theorem failover_avoids_blocked_witness:
  "asked (demo_call (\<lambda>n m ms. Failed ''forbidden'')) (start_call main_sel [] no_failures) 0 = rc_model main_only"
proof -
  let ?e = "demo_call (\<lambda>n m ms. Failed ''forbidden'')" and ?s = "start_call main_sel [] no_failures"
  have code: "classify_error_code ''forbidden'' = ''403''" "\<not> entity_too_large ''forbidden''"
    by (simp_all add: classify_error_code_def is_codex_token_revoked_def contains_status_code_def entity_too_large_def
        Let_def text_eval)
  have blocked: "is_blocked_candidate_after_failure ''403'' ''forbidden''"
    by (simp add: is_blocked_candidate_after_failure_def)
  have limits: "error_limit ?e ''forbidden'' = 0" using code by (simp add: error_limit_def demo_call_def)
  have answers: "answer ?e ?s k = Failed ''forbidden''" for k by (simp add: answer_def demo_call_def)
  have fails: "\<not> isl (attempt ?e k s)" for k s by (simp add: attempt_def demo_call_def Let_def)
  have "asked ?e ?s 1 = ''a/main''"
    using main_only_asked [of ?s ?e 0] fails [of 0 ?s]
    by (cases "attempt ?e 0 ?s") (simp_all add: asked_def start_call_def main_sel_def, simp_all add: demo_call_def)
  moreover have "asked ?e ?s 0 = ''a/main''" by (simp add: asked_def start_call_def main_sel_def)
  ultimately show ?thesis
    using failover_avoids_blocked [of 1 ?e ?s 0 "''forbidden''"] answers fails limits code(1) blocked
    by (simp add: demo_call_def)
qed

end
