(* ===== verification/Md5.thy ===== *)
theory Md5
  imports Sha256
begin

text \<open>
  MD5 over 32-bit words, for \<open>hashlib.md5(text.encode("utf-8")).hexdigest()\<close>: the loop compares
  long texts by a prefix of it. Texts are Latin-1, so every text can be encoded. The lemmas need only
  that it is a function into texts of 32 digits; the definition is executable all the same.
\<close>

unbundle bit_operations_syntax

definition md5_k :: "u32 list" where
  "md5_k = [3614090360, 3905402710, 606105819, 3250441966, 4118548399, 1200080426, 2821735955,
     4249261313, 1770035416, 2336552879, 4294925233, 2304563134, 1804603682, 4254626195,
     2792965006, 1236535329, 4129170786, 3225465664, 643717713, 3921069994, 3593408605,
     38016083, 3634488961, 3889429448, 568446438, 3275163606, 4107603335, 1163531501,
     2850285829, 4243563512, 1735328473, 2368359562, 4294588738, 2272392833, 1839030562,
     4259657740, 2763975236, 1272893353, 4139469664, 3200236656, 681279174, 3936430074,
     3572445317, 76029189, 3654602809, 3873151461, 530742520, 3299628645, 4096336452,
     1126891415, 2878612391, 4237533241, 1700485571, 2399980690, 4293915773, 2240044497,
     1873313359, 4264355552, 2734768916, 1309151649, 4149444226, 3174756917, 718787259,
     3951481745]"

definition md5_shift :: "nat \<Rightarrow> nat" where
  "md5_shift i = (if i < 16 then [7, 12, 17, 22] else if i < 32 then [5, 9, 14, 20]
     else if i < 48 then [4, 11, 16, 23] else [6, 10, 15, 21]) ! (i mod 4)"

definition le_bytes :: "nat \<Rightarrow> int \<Rightarrow> int list" where
  "le_bytes k n = rev (be_bytes k n)"

definition md5_pad :: "int list \<Rightarrow> int list" where
  "md5_pad bs = (let n = length bs; z = (119 - n mod 64) mod 64
                 in bs @ [128] @ replicate z 0 @ le_bytes 8 (8 * int n))"

fun le_words :: "int list \<Rightarrow> u32 list" where
  "le_words (a # b # c # d # bs) = of_int (((d * 256 + c) * 256 + b) * 256 + a) # le_words bs"
| "le_words bs = []"

type_synonym md5_state = "u32 \<times> u32 \<times> u32 \<times> u32"

definition md5_init :: md5_state where
  "md5_init = (1732584193, 4023233417, 2562383102, 271733878)"

fun md5_round :: "u32 list \<Rightarrow> nat \<Rightarrow> md5_state \<Rightarrow> md5_state" where
  "md5_round ms i (a, b, c, d) = (let
       (f, g) = (if i < 16 then ((b AND c) OR (NOT b AND d), i)
         else if i < 32 then ((d AND b) OR (NOT d AND c), (5 * i + 1) mod 16)
         else if i < 48 then (b XOR c XOR d, (3 * i + 5) mod 16)
         else (c XOR (b OR NOT d), (7 * i) mod 16))
     in (d, b + word_rotl (md5_shift i) (f + a + md5_k ! i + ms ! g), b, c))"

fun md5_add :: "md5_state \<Rightarrow> md5_state \<Rightarrow> md5_state" where
  "md5_add (a, b, c, d) (a', b', c', d') = (a + a', b + b', c + c', d + d')"

definition md5_block :: "md5_state \<Rightarrow> u32 list \<Rightarrow> md5_state" where
  "md5_block st ms = md5_add st (fold (md5_round ms) [0..<64] st)"

fun md5_blocks :: "nat \<Rightarrow> md5_state \<Rightarrow> u32 list \<Rightarrow> md5_state" where
  "md5_blocks 0 st ws = st"
| "md5_blocks (Suc n) st ws =
     (if ws = [] then st else md5_blocks n (md5_block st (take 16 ws)) (drop 16 ws))"

fun md5_hex_state :: "md5_state \<Rightarrow> string" where
  "md5_hex_state (a, b, c, d) =
     concat (map (\<lambda>w. concat (map (hex_nat 2) (le_bytes 4 (uint w)))) [a, b, c, d])"

definition md5_hex :: "string \<Rightarrow> string" where
  "md5_hex s = (let ws = le_words (md5_pad (utf8 s)) in md5_hex_state (md5_blocks (length ws) md5_init ws))"

lemma length_le_bytes [simp]: "length (le_bytes k n) = k"
  by (simp add: le_bytes_def be_bytes_def)

lemma length_md5_hex [simp]: "length (md5_hex s) = 32"
proof -
  have "length (md5_hex_state st) = 32" for st
    by (cases st rule: md5_hex_state.cases) (simp add: length_concat comp_def sum_list_triv)
  then show ?thesis by (simp add: md5_hex_def Let_def)
qed

end
