(* ===== verification/Judgment.thy ===== *)
theory Judgment
  imports Run_Profile Md5 Py_More Intent Complex_Main
begin

text \<open>
  What the judgment layer hands to the execution layer and gets back: the decision of a model
  (\<open>core/judgment/output.py\<close>), the result of a tool and the manifests of the registry
  (\<open>tools/registry.py\<close>), the key under which two actions count as the same
  (\<open>core/contracts/execution.py\<close>), and the helpers of \<open>core/loop/shared/common.py\<close> and \<open>progress.py\<close>
  that read them. A registry is the function its \<open>get\<close> is. Texts in Chinese are arguments.
\<close>

section \<open>Decisions, results and manifests\<close>

record judgment_output =
  jd_decision :: string
  jd_chosen_action_id :: string
  jd_params :: dict
  jd_rationale :: string
  jd_reflection :: string
  jd_speech_intent :: string
  jd_reply_to_user :: string
  jd_next_step :: string
  jd_model_strategy :: dict
  jd_applied_skills :: "string list"
  jd_parallel_actions :: "dict list"
  jd_delegate_tasks :: "dict list"

definition blank_judgment :: judgment_output where
  "blank_judgment = \<lparr>jd_decision = ''wait'', jd_chosen_action_id = [], jd_params = [], jd_rationale = [],
     jd_reflection = [], jd_speech_intent = [], jd_reply_to_user = [], jd_next_step = [],
     jd_model_strategy = [], jd_applied_skills = [], jd_parallel_actions = [], jd_delegate_tasks = []\<rparr>"

definition judgment_wait :: "string \<Rightarrow> judgment_output" where
  "judgment_wait reason = blank_judgment\<lparr>jd_rationale := reason\<rparr>"

record tool_result =
  tr_summary :: string
  tr_evidence :: string
  tr_skipped :: bool
  tr_error :: "string option"
  tr_kind :: string
  tr_priority :: rat
  tr_resource_key :: string
  tr_fingerprint :: string
  tr_artifact_paths :: "string list"
  tr_state_delta :: dict
  tr_metadata :: dict

definition plain_result :: "string \<Rightarrow> tool_result" where
  "plain_result s = \<lparr>tr_summary = s, tr_evidence = [], tr_skipped = False, tr_error = None,
     tr_kind = ''execute_result'', tr_priority = 9 / 10, tr_resource_key = [], tr_fingerprint = [],
     tr_artifact_paths = [], tr_state_delta = [], tr_metadata = []\<rparr>"

text \<open>\<open>result.error or ""\<close>.\<close>

definition error_text :: "tool_result \<Rightarrow> string" where
  "error_text r = (case tr_error r of None \<Rightarrow> [] | Some e \<Rightarrow> e)"

record tool_param =
  tp_name :: string
  tp_type :: string
  tp_description :: string
  tp_required :: bool

record tool_manifest =
  tm_name :: string
  tm_params :: "tool_param list"
  tm_prefer_tier :: string
  tm_progress_category :: string
  tm_capabilities :: "string list"

type_synonym registry = "string \<Rightarrow> tool_manifest option"

definition tool_has_capability :: "registry \<Rightarrow> string \<Rightarrow> string \<Rightarrow> bool" where
  "tool_has_capability reg tool cap \<longleftrightarrow> tool \<noteq> [] \<and> cap \<noteq> [] \<and>
     (case reg tool of None \<Rightarrow> False | Some m \<Rightarrow> cap \<in> set (tm_capabilities m))"

definition registry_has_tool :: "registry \<Rightarrow> string \<Rightarrow> bool" where
  "registry_has_tool reg tool \<longleftrightarrow> tool \<noteq> [] \<and> reg tool \<noteq> None"

section \<open>The tier of a tool\<close>

definition tier_for_manifest_fields :: "string \<Rightarrow> string \<Rightarrow> string list \<Rightarrow> string" where
  "tier_for_manifest_fields prefer_tier progress_category caps =
    (if is_judgment_tier prefer_tier then normalize_tier default_tier prefer_tier
     else if ''completion_mutation'' \<in> set caps \<or> ''completion_verify'' \<in> set caps \<or> ''multimodal'' \<in> set caps
       then ''reasoner''
     else if ''completion_info_only'' \<in> set caps then ''reader''
     else if progress_category \<in> {''mutation'', ''io''} then ''reasoner''
     else if progress_category = ''info'' then ''reader'' else ''reasoner'')"

definition tier_for_manifest :: "tool_manifest \<Rightarrow> string" where
  "tier_for_manifest m = tier_for_manifest_fields (tm_prefer_tier m) (tm_progress_category m) (tm_capabilities m)"

definition tool_tier :: "string \<Rightarrow> registry \<Rightarrow> string" where
  "tool_tier tool reg = (case if tool = [] then None else reg tool of
     Some m \<Rightarrow> tier_for_manifest m | None \<Rightarrow> default_tier)"

definition is_reader_tool :: "string \<Rightarrow> registry \<Rightarrow> bool" where
  "is_reader_tool tool reg = (case if tool = [] then None else reg tool of
     Some m \<Rightarrow> tier_for_manifest m = ''reader'' | None \<Rightarrow> False)"

section \<open>When two actions count as the same\<close>

definition action_key_primary_fields :: "string list" where
  "action_key_primary_fields = [''path'', ''url'', ''name'', ''title'', ''key'', ''id'', ''task_id'', ''process_id'',
     ''query'', ''command'', ''status'']"

definition action_key_excluded_fields :: "string list" where
  "action_key_excluded_fields = [''content'', ''old_text'', ''oldText'', ''new_text'', ''newText'', ''workbench'',
     ''edits'', ''nodes'', ''messages'', ''headers'', ''api_key'', ''token'', ''password'', ''secret'']"

definition action_key_modifier_order :: "string list" where
  "action_key_modifier_order = [''offset'', ''limit'', ''start'', ''end'', ''max_chars'', ''top_k'', ''recursive'',
     ''include_hidden'', ''timeout'']"

text \<open>At most 120 characters; a longer text keeps them, with ten digits of its fingerprint.\<close>

definition stable_text :: "string \<Rightarrow> string" where
  "stable_text t = (if length t \<le> 120 then t else take 120 t @ ''...#'' @ take 10 (md5_hex t))"

fun stable_param_value :: "pyval \<Rightarrow> string" where
  "stable_param_value PNone = []"
| "stable_param_value (PBool b) = (if b then ''true'' else ''false'')"
| "stable_param_value (PInt i) = py_str (PInt i)"
| "stable_param_value (PFloat m k) = py_str (PFloat m k)"
| "stable_param_value (PStr s) = stable_text (strip s)"
| "stable_param_value v = stable_text (json_dumps True v)"

definition ordered_keys :: "dict \<Rightarrow> string list" where
  "ordered_keys p = filter (\<lambda>k. k \<in> set (map fst p)) action_key_modifier_order @
     filter (\<lambda>k. k \<notin> set action_key_modifier_order) (sort (map fst p))"

definition stable_modifier_parts :: "dict \<Rightarrow> string \<Rightarrow> string list" where
  "stable_modifier_parts p primary_field = take 6
    (map (\<lambda>k. k @ ''='' @ stable_param_value (dict_get p k))
      (filter (\<lambda>k. k \<noteq> primary_field \<and> k \<notin> set action_key_excluded_fields \<and>
          stable_param_value (dict_get p k) \<noteq> []) (ordered_keys p)))"

definition action_key_param :: "dict \<Rightarrow> string" where
  "action_key_param p = (case find (\<lambda>f. truthy (dict_get p f)) action_key_primary_fields of
      Some f \<Rightarrow> join '' '' (stable_param_value (dict_get p f) # stable_modifier_parts p f)
    | None \<Rightarrow> join '' '' (stable_modifier_parts p []))"

section \<open>Text for the context of a model\<close>

definition clip_for_context :: "string \<Rightarrow> int \<Rightarrow> string" where
  "clip_for_context text limit = (let v = squeeze text in
     if limit \<le> 0 \<or> int (length v) \<le> limit then v
     else (let half = max 16 ((limit - 9) div 2); left_out = max 0 (int (length v) - half * 2)
       in slice_to half v @ '' ...('' @ dec_int left_out @ '' chars omitted)... '' @ slice_last half v))"

section \<open>The entry of an action in the tool history\<close>

definition error_category :: "string \<Rightarrow> string" where
  "error_category e = (if e = [] then [] else
     if list_ex (contains (lower e)) [''timeout'', ''connect'', ''reset'', ''unavailable'', ''rate'', ''429'', ''503'']
     then ''transient'' else ''fatal'')"

definition tool_history_entry :: "judgment_output \<Rightarrow> tool_result \<Rightarrow> dict" where
  "tool_history_entry a r = (let e = error_text r; cat = error_category e in
    [(''tool'', PStr (jd_chosen_action_id a)), (''params'', PDict (jd_params a)),
     (''result'', PStr (if e \<noteq> [] then ''ERROR['' @ cat @ '']: '' @ tr_summary r else tr_summary r)),
     (''summary'', PStr (tr_summary r)), (''error'', PStr e), (''error_category'', PStr cat),
     (''skipped'', PBool (tr_skipped r)),
     (''status'', PStr (if e = [] \<and> \<not> tr_skipped r then ''ok'' else if tr_skipped r then ''skipped'' else ''error'')),
     (''resource_key'', PStr (tr_resource_key r)), (''fingerprint'', PStr (tr_fingerprint r)),
     (''artifact_paths'', PList (map PStr (tr_artifact_paths r))),
     (''metadata'', PDict (tr_metadata r)), (''state_delta'', PDict (tr_state_delta r))])"

section \<open>Going on within a tick\<close>

definition recoverable_task_complete_errors :: "string list" where
  "recoverable_task_complete_errors = [''SelfDriveGrowthIncomplete'', ''WorkbenchVerificationPending'',
     ''ActionFirstCompletionBlocked'', ''InsufficientEvidence'', ''MutationWithoutVerification'', ''UserInboxPending'']"

definition should_continue_within_tick ::
    "judgment_output \<Rightarrow> string \<Rightarrow> bool \<Rightarrow> registry \<Rightarrow> tool_result option \<Rightarrow> bool" where
  "should_continue_within_tick a user_message has_active_task reg result =
    (if jd_decision a \<noteq> ''act'' then False
     else if user_message = [] \<and> \<not> has_active_task then False
     else (let tool = jd_chosen_action_id a in
       if (case result of None \<Rightarrow> False | Some r \<Rightarrow> tr_skipped r \<and>
             (error_text r = ''ToolInputInvalid'' \<or> truthy (dict_get (tr_state_delta r) ''tool_input_invalid'')))
         then True
       else if tool = ''task.workbench'' then False
       else if tool = ''task.complete'' then (case result of None \<Rightarrow> False
         | Some r \<Rightarrow> tr_skipped r \<and> error_text r \<in> set recoverable_task_complete_errors)
       else if tool = ''task.fail'' then False
       else \<not> (user_message \<noteq> [] \<and> has_active_task \<and> tool_tier tool reg \<noteq> ''reader'')))"

section \<open>Tiers and thinking\<close>

definition next_initial_tier_hint :: "judgment_output \<Rightarrow> string option" where
  "next_initial_tier_hint a =
     (let t = normalize_tier [] (str_or_empty (dict_get (jd_model_strategy a) ''next_phase_tier''))
      in if t \<in> set judgment_tiers then Some t else None)"

definition thinking_levels :: "string list" where
  "thinking_levels = [''off'', ''minimal'', ''low'', ''medium'', ''high'']"

definition next_thinking_override :: "dict \<Rightarrow> string option" where
  "next_thinking_override strategy =
     (let n = lower (strip (str_or_empty (dict_get strategy ''thinking_override'')))
      in if n \<in> set thinking_levels then Some n else None)"

definition thinking_rank :: "string \<Rightarrow> int" where
  "thinking_rank v = (if v = ''off'' then 0 else if v = ''minimal'' then 1 else if v = ''low'' then 2
     else if v = ''medium'' then 3 else if v = ''high'' then 4 else - 1)"

definition thinking_floor :: "string option \<Rightarrow> string option \<Rightarrow> string option" where
  "thinking_floor v fl = (case fl of None \<Rightarrow> v | Some f \<Rightarrow>
     (case v of None \<Rightarrow> fl | Some w \<Rightarrow> if thinking_rank f \<le> thinking_rank w then v else fl))"

text \<open>The configured levels: \<open>cfg.thinking\<close>, and those of a chat and of autonomous work.\<close>

definition resolve_thinking_override ::
    "string \<Rightarrow> string \<Rightarrow> string \<Rightarrow> string \<Rightarrow> string option \<Rightarrow> dict \<Rightarrow> string option" where
  "resolve_thinking_override thinking chat_thinking autonomous_thinking user_message pending strategy =
    (case pending of Some p \<Rightarrow> Some p
     | None \<Rightarrow> (case next_thinking_override strategy of Some n \<Rightarrow> Some n
        | None \<Rightarrow> (let t = (if user_message \<noteq> [] then chat_thinking else autonomous_thinking)
            in if t \<noteq> thinking then Some t else None)))"

end
