(* ===== verification/Behavior.thy ===== *)
theory Behavior
  imports Judgment Working_Memory
begin

text \<open>
  \<open>core/loop/drive/behavior.py\<close> and \<open>core/cortex/actions.py\<close>: the tracker that notices when the agent
  repeats itself, and the gate that replaces a repeated action by a note on the workbench of the task.
  Texts shown to a model come from a catalogue, \<open>vc_say\<close>, under a name and the values the code puts
  into them; the creation time of a memory item is an argument too.
\<close>

record voice =
  vc_say :: "string \<Rightarrow> string list \<Rightarrow> string"
  vc_now :: string

definition new_item :: "voice \<Rightarrow> string \<Rightarrow> string \<Rightarrow> rat \<Rightarrow> wm_item" where
  "new_item v kind content pri = \<lparr>wi_kind = kind, wi_content = content, wi_priority = pri, wi_created_at = vc_now v\<rparr>"

section \<open>State\<close>

text \<open>The sequences are deques with a largest length; the newest element is the last.\<close>

record tracker =
  bt_wait_notify :: "int list"
  bt_threshold :: int
  bt_recent_actions :: "(string \<times> string) list"
  bt_recent_reads :: "(string \<times> int \<times> string) list"
  bt_recent_lists :: "(string \<times> string) list"
  bt_action_sig :: "(string \<times> string) option"
  bt_action_count :: int
  bt_read_fp :: "(string \<times> int \<times> string) option"
  bt_read_count :: int
  bt_list_fp :: "(string \<times> string) option"
  bt_list_count :: int
  bt_probe_version :: int
  bt_seq_warn_at :: int
  bt_seq_gap_ratio :: rat
  bt_seq_path :: "string option"
  bt_seq_count :: int
  bt_seq_last_end :: int
  bt_seq_warned :: bool
  bt_wait_streak :: int
  bt_wait_warned :: "int list"
  bt_belief_threshold :: int
  bt_belief_window :: int
  bt_rationale_hashes :: "string list"
  bt_belief_hash :: "string option"
  bt_belief_count :: int
  bt_belief_warned :: bool
  bt_last_result_fp :: string
  bt_edit_fail_count :: int
  bt_pri_behavior_loop :: rat
  bt_pri_edit_caution :: rat
  bt_pri_belief_stale :: rat

definition new_tracker :: "int list \<Rightarrow> int \<Rightarrow> tracker" where
  "new_tracker wait_notify threshold = \<lparr>
     bt_wait_notify = (if wait_notify = [] then [3, 6] else sort wait_notify),
     bt_threshold = max 1 threshold, bt_recent_actions = [], bt_recent_reads = [], bt_recent_lists = [],
     bt_action_sig = None, bt_action_count = 0, bt_read_fp = None, bt_read_count = 0, bt_list_fp = None,
     bt_list_count = 0, bt_probe_version = 0, bt_seq_warn_at = 3, bt_seq_gap_ratio = 1 / 4, bt_seq_path = None,
     bt_seq_count = 0, bt_seq_last_end = 0, bt_seq_warned = False, bt_wait_streak = 0, bt_wait_warned = [],
     bt_belief_threshold = 4, bt_belief_window = 8, bt_rationale_hashes = [], bt_belief_hash = None,
     bt_belief_count = 0, bt_belief_warned = False, bt_last_result_fp = [], bt_edit_fail_count = 0,
     bt_pri_behavior_loop = 95 / 100, bt_pri_edit_caution = 93 / 100, bt_pri_belief_stale = 96 / 100\<rparr>"

definition push_bounded :: "int \<Rightarrow> 'a \<Rightarrow> 'a list \<Rightarrow> 'a list" where
  "push_bounded n x xs = slice_last n (xs @ [x])"

definition all_same :: "int \<Rightarrow> 'a list \<Rightarrow> bool" where
  "all_same n xs \<longleftrightarrow> int (length xs) = n \<and> card (set xs) = 1"

definition bt_fingerprint :: "string \<Rightarrow> string" where
  "bt_fingerprint s = take 12 (md5_hex s)"

section \<open>What an action is counted under\<close>

definition content_sig :: "dict \<Rightarrow> string" where
  "content_sig p = take 80 (py_str (py_or (py_or (dict_get p ''old_text'') (dict_get p ''content'')) (PStr [])))"

text \<open>The key of an action that changes a file carries the first digits of the fingerprint of the text.\<close>

definition effective_key :: "registry \<Rightarrow> string \<Rightarrow> string \<Rightarrow> dict \<Rightarrow> string" where
  "effective_key reg tool key p =
    (if tool_has_capability reg tool ''completion_mutation'' \<and> p \<noteq> [] \<and> content_sig p \<noteq> []
     then key @ ''#'' @ take 8 (md5_hex (content_sig p)) else key)"

definition on_act :: "registry \<Rightarrow> voice \<Rightarrow> string \<Rightarrow> string \<Rightarrow> string option \<Rightarrow> dict \<Rightarrow> tracker \<Rightarrow> wm_item list \<times> tracker" where
  "on_act reg v tool key task_id p t =
    (if tool_has_capability reg tool ''result_streak_only'' \<or> task_id = None \<or> task_id = Some [] then ([], t)
     else (let sig = (tool, effective_key reg tool key p);
         t1 = t\<lparr>bt_recent_actions := push_bounded (bt_threshold t) sig (bt_recent_actions t),
           bt_action_count := (if bt_action_sig t = Some sig then bt_action_count t + 1 else 1),
           bt_action_sig := Some sig, bt_probe_version := bt_probe_version t + 1\<rparr>
       in (if all_same (bt_threshold t) (bt_recent_actions t1) \<and> tool \<noteq> []
           then [new_item v ''self_awareness'' (vc_say v ''same_action'' [dec_int (bt_threshold t), tool, key])
                   (bt_pri_behavior_loop t)] else [], t1)))"

definition on_act_result :: "registry \<Rightarrow> string \<Rightarrow> string \<Rightarrow> tracker \<Rightarrow> tracker" where
  "on_act_result reg tool summary t =
    (if tool_has_capability reg tool ''result_streak_only'' then t
     else (let fp = bt_fingerprint summary
       in t\<lparr>bt_action_count := (if fp \<noteq> [] \<and> fp \<noteq> bt_last_result_fp t then 1 else bt_action_count t),
            bt_last_result_fp := fp\<rparr>))"

section \<open>Reading and listing\<close>

definition read_body :: "string \<Rightarrow> string" where
  "read_body s = (if CHR 0x0A \<in> set s then tl (dropWhile (\<lambda>c. c \<noteq> CHR 0x0A) s) else s)"

text \<open>A window of the file: it follows the last one, lies elsewhere, or is of another file.\<close>

definition seq_window :: "string \<Rightarrow> int \<Rightarrow> int \<Rightarrow> tracker \<Rightarrow> tracker" where
  "seq_window path st en t = (let size = en - st; gap = \<bar>st - bt_seq_last_end t\<bar>;
     t1 = (if bt_seq_path t = Some path
       then t\<lparr>bt_seq_count := (if of_int gap / of_int (max size 1) \<le> bt_seq_gap_ratio t \<or> gap \<le> max size 100
                then bt_seq_count t + 1 else 1)\<rparr>
       else t\<lparr>bt_seq_path := Some path, bt_seq_count := 1, bt_seq_warned := False\<rparr>)
     in t1\<lparr>bt_seq_last_end := en\<rparr>)"

definition on_read :: "voice \<Rightarrow> string \<Rightarrow> int \<Rightarrow> string \<Rightarrow> int \<Rightarrow> int \<Rightarrow> tracker \<Rightarrow> wm_item list \<times> tracker" where
  "on_read v path max_chars summary st en t =
    (let fp = (path, max_chars, bt_fingerprint (read_body summary)); n = bt_threshold t;
       t1 = t\<lparr>bt_recent_reads := push_bounded n fp (bt_recent_reads t),
         bt_read_count := (if bt_read_fp t = Some fp then bt_read_count t + 1 else 1),
         bt_read_fp := Some fp, bt_probe_version := bt_probe_version t + 1\<rparr>;
       rs = bt_recent_reads t1;
       same = (if all_same n rs
         then [new_item v ''self_awareness'' (vc_say v ''same_read'' [dec_int n, path]) (bt_pri_behavior_loop t)] else []);
       parts = (if int (length rs) = n \<and> (\<forall>f \<in> set rs. fst f = path) \<and> card (snd ` snd ` set rs) > 1
         then [new_item v ''self_awareness'' (vc_say v ''same_file'' [dec_int n, path]) (bt_pri_behavior_loop t)] else []);
       t2 = (if 0 \<le> st \<and> st < en then seq_window path st en t1 else t1);
       warn = (0 \<le> st \<and> st < en \<and> bt_seq_warn_at t \<le> bt_seq_count t2 \<and> \<not> bt_seq_warned t2)
     in (same @ parts @ (if warn then [new_item v ''self_awareness''
            (vc_say v ''window_scan'' [dec_int (bt_seq_count t2), path]) (bt_pri_edit_caution t)] else []),
         if warn then t2\<lparr>bt_seq_warned := True\<rparr> else t2))"

definition on_list :: "voice \<Rightarrow> string \<Rightarrow> string \<Rightarrow> tracker \<Rightarrow> wm_item list \<times> tracker" where
  "on_list v path summary t = (let fp = (path, bt_fingerprint summary); n = bt_threshold t;
       t1 = t\<lparr>bt_recent_lists := push_bounded n fp (bt_recent_lists t),
         bt_list_count := (if bt_list_fp t = Some fp then bt_list_count t + 1 else 1),
         bt_list_fp := Some fp, bt_probe_version := bt_probe_version t + 1\<rparr>
     in (if all_same n (bt_recent_lists t1)
         then [new_item v ''self_awareness'' (vc_say v ''same_list'' [dec_int n, path]) (bt_pri_behavior_loop t)] else [], t1))"

section \<open>Waiting, repeating a conclusion, failing to edit\<close>

definition round3 :: "rat \<Rightarrow> rat" where
  "round3 x = of_int (round (x * 1000)) / 1000"

fun index_of :: "'a \<Rightarrow> 'a list \<Rightarrow> nat" where
  "index_of x [] = 0"
| "index_of x (y # ys) = (if x = y then 0 else Suc (index_of x ys))"

definition on_wait :: "voice \<Rightarrow> string \<Rightarrow> bool \<Rightarrow> tracker \<Rightarrow> wm_item list \<times> tracker" where
  "on_wait v decision has_active_task t =
    (if decision \<notin> {''wait'', ''pause''} then ([], t\<lparr>bt_wait_streak := 0, bt_wait_warned := []\<rparr>)
     else (let k = bt_wait_streak t + 1; t1 = t\<lparr>bt_wait_streak := k\<rparr> in
       case find (\<lambda>n. n \<le> k \<and> n \<notin> set (bt_wait_warned t)) (bt_wait_notify t) of
         None \<Rightarrow> ([], t1)
       | Some n \<Rightarrow> (let stage = int (index_of n (bt_wait_notify t)); total = int (length (bt_wait_notify t));
             pri = round3 (85 / 100 + 1 / 10 * (of_int stage / of_int (max (total - 1) 1)))
           in ([new_item v ''self_awareness'' (vc_say v ''waiting'' [dec_int k, decision,
                  py_str (PBool has_active_task), dec_int (stage + 1), dec_int total]) pri],
               t1\<lparr>bt_wait_warned := n # bt_wait_warned t\<rparr>))))"

definition on_judgment :: "voice \<Rightarrow> string \<Rightarrow> tracker \<Rightarrow> wm_item list \<times> tracker" where
  "on_judgment v rationale t =
    (if strip rationale = [] then ([], t)
     else (let fp = bt_fingerprint (lower (squeeze rationale)); same = (bt_belief_hash t = Some fp);
         k = (if same then bt_belief_count t + 1 else 1);
         warned = (same \<and> bt_belief_warned t);
         warn = (bt_belief_threshold t \<le> k \<and> \<not> warned)
       in (if warn then [new_item v ''self_awareness'' (vc_say v ''stale_belief'' [dec_int k, fp]) (bt_pri_belief_stale t)]
           else [],
           t\<lparr>bt_rationale_hashes := push_bounded (max 1 (bt_belief_window t)) fp (bt_rationale_hashes t),
             bt_belief_hash := Some fp, bt_belief_count := k, bt_belief_warned := warn \<or> warned\<rparr>)))"

definition on_edit_failure :: "voice \<Rightarrow> string \<Rightarrow> tracker \<Rightarrow> wm_item list \<times> tracker" where
  "on_edit_failure v err t =
    (if contains err ''OldTextNotFound'' then (let k = bt_edit_fail_count t + 1; t1 = t\<lparr>bt_edit_fail_count := k\<rparr>
       in (if 2 \<le> k then [new_item v ''behavior_sense'' (vc_say v ''edit_failures'' [dec_int k]) (bt_pri_edit_caution t)]
           else [], t1))
     else ([], t\<lparr>bt_edit_fail_count := 0\<rparr>))"

section \<open>The signals the gate reads\<close>

record cog_signals =
  sg_repeat_action_count :: int
  sg_repeat_action_tool :: string
  sg_repeat_action_key :: string
  sg_repeat_read_count :: int
  sg_repeat_read_path :: string
  sg_repeat_list_count :: int
  sg_repeat_list_path :: string
  sg_loop_probe_version :: int
  sg_last_action_tool :: string
  sg_last_action_key :: string
  sg_last_action_status :: string
  sg_last_action_progressful :: "bool option"
  sg_last_action_reason :: string
  sg_active_task_id :: string
  sg_active_task_source :: string
  sg_active_task_status :: string
  sg_active_task_next_step :: string
  sg_wait_streak :: int

definition apply_cognitive_probe :: "tracker \<Rightarrow> cog_signals \<Rightarrow> cog_signals" where
  "apply_cognitive_probe t s = s\<lparr>sg_repeat_action_count := bt_action_count t,
     sg_repeat_action_tool := (case bt_action_sig t of None \<Rightarrow> [] | Some g \<Rightarrow> fst g),
     sg_repeat_action_key := (case bt_action_sig t of None \<Rightarrow> [] | Some g \<Rightarrow> snd g),
     sg_repeat_read_count := bt_read_count t,
     sg_repeat_read_path := (case bt_read_fp t of None \<Rightarrow> [] | Some g \<Rightarrow> fst g),
     sg_repeat_list_count := bt_list_count t,
     sg_repeat_list_path := (case bt_list_fp t of None \<Rightarrow> [] | Some g \<Rightarrow> fst g),
     sg_loop_probe_version := bt_probe_version t\<rparr>"

end
