(* ===== verification/Behavior_Gate.thy ===== *)
theory Behavior_Gate
  imports Behavior
begin

text \<open>
  The execution gate of \<open>core/loop/drive/behavior.py\<close>: an action that the signals report as repeated is
  replaced by a note on the workbench of the task, or by a wait when there is no such tool. The theorems
  say what the gate lets through, and which repetitions it cannot see.
\<close>

section \<open>Notes on the workbench\<close>

definition build_workbench_action :: "dict \<Rightarrow> string \<Rightarrow> judgment_output option \<Rightarrow> string option \<Rightarrow> judgment_output" where
  "build_workbench_action wb rationale source next_step = blank_judgment\<lparr>
     jd_decision := ''act'', jd_chosen_action_id := ''task.workbench'',
     jd_params := [(''workbench'', PDict wb)], jd_rationale := rationale,
     jd_reflection := (case source of None \<Rightarrow> [] | Some a \<Rightarrow> jd_reflection a),
     jd_next_step := (case next_step of Some s \<Rightarrow> s | None \<Rightarrow> str_or_empty (dict_get wb ''next_verification'')),
     jd_model_strategy := (case source of None \<Rightarrow> [] | Some a \<Rightarrow> jd_model_strategy a),
     jd_applied_skills := (case source of None \<Rightarrow> [] | Some a \<Rightarrow> jd_applied_skills a)\<rparr>"

definition say_list :: "voice \<Rightarrow> string \<Rightarrow> string list \<Rightarrow> nat \<Rightarrow> pyval" where
  "say_list v name args n = PList (map (\<lambda>i. PStr (vc_say v (name @ dec_nat i) args)) [0..<n])"

text \<open>\<open>ne\<close> and \<open>nc\<close> are the numbers of lines of evidence and of checks.\<close>

definition workbench_note ::
    "voice \<Rightarrow> string \<Rightarrow> string \<Rightarrow> nat \<Rightarrow> nat \<Rightarrow> string list \<Rightarrow> string \<Rightarrow> string option \<Rightarrow> dict" where
  "workbench_note v name domain ne nc args next_verification recovery =
    [(''domain'', PStr domain), (''intent'', PStr (vc_say v (name @ ''.intent'') args)),
     (''evidence'', say_list v (name @ ''.evidence'') args ne),
     (''hypothesis'', PStr (vc_say v (name @ ''.hypothesis'') args)),
     (''next_verification'', PStr next_verification),
     (''completion_checks'', say_list v (name @ ''.check'') args nc)] @
    (case recovery of None \<Rightarrow> [] | Some r \<Rightarrow> [(''recovery_state'', PStr r)])"

definition workbench_gate ::
    "voice \<Rightarrow> string \<Rightarrow> string \<Rightarrow> nat \<Rightarrow> nat \<Rightarrow> string list \<Rightarrow> string \<Rightarrow> string option \<Rightarrow> string \<Rightarrow>
      judgment_output \<Rightarrow> judgment_output" where
  "workbench_gate v name domain ne nc args next_verification recovery next_step a =
     build_workbench_action (workbench_note v name domain ne nc args next_verification recovery)
       (vc_say v (name @ ''.rationale'') args) (Some a) (Some next_step)"

definition wait_fallback :: "voice \<Rightarrow> string \<Rightarrow> string list \<Rightarrow> judgment_output \<Rightarrow> judgment_output" where
  "wait_fallback v name args a = (judgment_wait (vc_say v (name @ ''.wait'') args))\<lparr>
     jd_reflection := jd_reflection a, jd_next_step := jd_next_step a,
     jd_model_strategy := jd_model_strategy a, jd_applied_skills := jd_applied_skills a\<rparr>"

definition control_gate :: "voice \<Rightarrow> string \<Rightarrow> nat \<Rightarrow> string list \<Rightarrow> judgment_output \<Rightarrow> judgment_output" where
  "control_gate v name ne args a = workbench_gate v name ''runtime-loop'' ne 2 args
     (control_next_verification (vc_say v (name @ ''.verification'') args)) None (vc_say v (name @ ''.next'') args) a"

section \<open>The gate\<close>

definition low_increment_exploration_tools :: "string list" where
  "low_increment_exploration_tools = [''file.list'', ''memory.search'', ''task.list'', ''probe.list'', ''config.list_keys'']"

definition low_increment_group :: "string \<Rightarrow> string" where
  "low_increment_group tool = (if tool = ''memory.search'' then tool else ''inventory'')"

definition gate_after_unprogressful_probe :: "registry \<Rightarrow> judgment_output \<Rightarrow> cog_signals \<Rightarrow> bool" where
  "gate_after_unprogressful_probe reg a s \<longleftrightarrow> (let new = strip (jd_chosen_action_id a); old = strip (sg_last_action_tool s) in
     jd_decision a = ''act'' \<and> new \<noteq> [] \<and> new \<noteq> ''task.workbench'' \<and>
     sg_last_action_progressful s = Some False \<and> sg_last_action_status s \<in> {''ok'', ''skipped''} \<and> old \<noteq> [] \<and>
     (new = old \<and> (new \<in> set low_increment_exploration_tools \<or>
        tool_has_capability reg new ''completion_info_only'' \<or> tool_has_capability reg new ''ask_evidence'') \<or>
      old \<in> set low_increment_exploration_tools \<and> new \<in> set low_increment_exploration_tools \<and>
        low_increment_group old = low_increment_group new))"

definition gate_evidence_task_wait :: "registry \<Rightarrow> judgment_output \<Rightarrow> cog_signals \<Rightarrow> bool" where
  "gate_evidence_task_wait reg a s =
    (if jd_decision a \<notin> {''wait'', ''pause''} then False
     else if \<not> registry_has_tool reg ''task.workbench'' then False
     else if strip (sg_active_task_source s) \<noteq> ''self_drive'' then False
     else if strip (sg_active_task_status s) \<in> {''done'', ''cancelled''} then False
     else (let next_step = strip (sg_active_task_next_step s); evidence = contains_evidence_intent next_step in
       if next_step = [] then False
       else if strip (sg_active_task_status s) = ''waiting'' \<and> \<not> evidence then False
       else if contains_wait_dependency next_step \<and> \<not> evidence then 3 \<le> sg_wait_streak s
       else evidence))"

text \<open>The repetition the signals report: of an action, or else of a read, or else of a listing.\<close>

definition acts_as :: "judgment_output \<Rightarrow> string \<Rightarrow> string \<Rightarrow> bool" where
  "acts_as a tool key \<longleftrightarrow> jd_decision a = ''act'' \<and> jd_chosen_action_id a = tool \<and> action_key_param (jd_params a) = key"

definition repeat_gate :: "registry \<Rightarrow> voice \<Rightarrow> int \<Rightarrow> judgment_output \<Rightarrow> cog_signals \<Rightarrow> judgment_output option" where
  "repeat_gate reg v n a s = (let path_gate = (\<lambda>name tool path k. if acts_as a tool path
       then Some (if registry_has_tool reg ''task.workbench'' then control_gate v name 2 [path, dec_int k] a
         else wait_fallback v name [path, dec_int k] a) else None) in
     if n \<le> sg_repeat_action_count s then
       (let tool = sg_repeat_action_tool s; key = sg_repeat_action_key s; args = [tool, key, dec_int (sg_repeat_action_count s)]
        in if acts_as a tool key then Some (if tool \<noteq> ''task.workbench'' \<and> registry_has_tool reg ''task.workbench''
             then control_gate v ''repetition'' 2 args a else wait_fallback v ''repetition'' args a) else None)
     else if n \<le> sg_repeat_read_count s then path_gate ''read'' ''file.read'' (sg_repeat_read_path s) (sg_repeat_read_count s)
     else if n \<le> sg_repeat_list_count s then path_gate ''list'' ''file.list'' (sg_repeat_list_path s) (sg_repeat_list_count s)
     else None)"

definition apply_execution_gate ::
    "registry \<Rightarrow> voice \<Rightarrow> tracker \<Rightarrow> judgment_output \<Rightarrow> cog_signals \<Rightarrow> judgment_output" where
  "apply_execution_gate reg v t a s =
    (if gate_evidence_task_wait reg a s
     then (let next_step = strip (sg_active_task_next_step s) in
       workbench_gate v ''evidence'' ''self-drive-evidence'' 2 3 [strip (sg_active_task_id s), jd_decision a] next_step
         (Some ''evidence_required_before_wait'') next_step a)
     else (case repeat_gate reg v (bt_threshold t) a s of Some g \<Rightarrow> g
       | None \<Rightarrow> if gate_after_unprogressful_probe reg a s
           then (let args = [sg_last_action_tool s, sg_last_action_key s, jd_chosen_action_id a,
                   action_key_param (jd_params a), sg_last_action_reason s]
             in if registry_has_tool reg ''task.workbench'' then control_gate v ''probe'' 3 args a
                else wait_fallback v ''probe'' args a)
           else a))"

section \<open>What the gate does\<close>

text \<open>A replacement: a note for a workbench that there is, or a wait.\<close>

definition replacement :: "registry \<Rightarrow> judgment_output \<Rightarrow> judgment_output \<Rightarrow> bool" where
  "replacement reg a g \<longleftrightarrow>
     (registry_has_tool reg ''task.workbench'' \<and> (\<exists>wb r n. g = build_workbench_action wb r (Some a) (Some n))) \<or>
     (\<exists>v name args. g = wait_fallback v name args a)"

lemma replacement_control [intro]:
  "registry_has_tool reg ''task.workbench'' \<Longrightarrow> replacement reg a (control_gate v name ne args a)"
  by (auto simp: replacement_def control_gate_def workbench_gate_def)

lemma replacement_wait [intro]: "replacement reg a (wait_fallback v name args a)"
  unfolding replacement_def by blast

lemma repeat_gate_replacement: "repeat_gate reg v n a s = Some g \<Longrightarrow> replacement reg a g"
  by (auto simp: repeat_gate_def Let_def split: if_splits)

lemma gate_evidence_workbench: "gate_evidence_task_wait reg a s \<Longrightarrow> registry_has_tool reg ''task.workbench''"
  by (auto simp: gate_evidence_task_wait_def split: if_splits)

lemma gate_replaces: "apply_execution_gate reg v t a s = a \<or> replacement reg a (apply_execution_gate reg v t a s)"
proof (cases "gate_evidence_task_wait reg a s")
  case True
  then show ?thesis
    using gate_evidence_workbench [OF True]
    by (auto simp: apply_execution_gate_def workbench_gate_def replacement_def Let_def)
next
  case False
  then show ?thesis
    by (auto simp: apply_execution_gate_def Let_def dest: repeat_gate_replacement split: option.split)
qed

lemma gate_tools [simp]:
  "jd_chosen_action_id (control_gate v name ne args a) = ''task.workbench''"
  "jd_decision (wait_fallback v name args a) = ''wait''"
  by (simp_all add: control_gate_def workbench_gate_def build_workbench_action_def wait_fallback_def
      judgment_wait_def blank_judgment_def)

lemma replacement_tool:
  "replacement reg a g \<Longrightarrow> jd_chosen_action_id g = ''task.workbench'' \<or> jd_decision g = ''wait'' \<and> jd_chosen_action_id g = []"
  by (auto simp: replacement_def build_workbench_action_def wait_fallback_def judgment_wait_def blank_judgment_def)

section \<open>Repetitions the gate stops\<close>

text \<open>An action is carried out again and again with the same result, and then chosen once more.\<close>

fun repeated :: "registry \<Rightarrow> voice \<Rightarrow> string \<Rightarrow> string \<Rightarrow> string option \<Rightarrow> dict \<Rightarrow> string \<Rightarrow> nat \<Rightarrow> tracker \<Rightarrow> tracker" where
  "repeated reg v tool key task p summary 0 t = t"
| "repeated reg v tool key task p summary (Suc n) t =
     on_act_result reg tool summary (snd (on_act reg v tool key task p (repeated reg v tool key task p summary n t)))"

lemma on_act_fields:
  assumes "\<not> tool_has_capability reg tool ''result_streak_only''" "task = Some c" "c \<noteq> []"
  shows "bt_action_sig (snd (on_act reg v tool key task p t)) = Some (tool, effective_key reg tool key p)"
    "bt_action_count (snd (on_act reg v tool key task p t)) =
       (if bt_action_sig t = Some (tool, effective_key reg tool key p) then bt_action_count t + 1 else 1)"
    "bt_last_result_fp (snd (on_act reg v tool key task p t)) = bt_last_result_fp t"
    "bt_threshold (snd (on_act reg v tool key task p t)) = bt_threshold t"
  using assms by (simp_all add: on_act_def Let_def)

lemma on_act_result_fields [simp]:
  "bt_action_sig (on_act_result reg tool s t) = bt_action_sig t"
  "bt_threshold (on_act_result reg tool s t) = bt_threshold t"
  by (simp_all add: on_act_result_def Let_def)

lemma repeated_counts:
  fixes t :: tracker and v :: voice and key summary :: string and p :: dict
  assumes cap: "\<not> tool_has_capability reg tool ''result_streak_only''" and task: "task = Some c" "c \<noteq> []"
    and nonneg: "0 \<le> bt_action_count t"
  defines "t' \<equiv> \<lambda>n. repeated reg v tool key task p summary n t"
  shows "bt_threshold (t' n) = bt_threshold t \<and> (0 < n \<longrightarrow> int n \<le> bt_action_count (t' n) \<and>
     bt_action_sig (t' n) = Some (tool, effective_key reg tool key p) \<and> bt_last_result_fp (t' n) = bt_fingerprint summary)"
proof (induction n)
  case (Suc n)
  show ?case
  proof (cases n)
    case 0
    then show ?thesis using cap nonneg on_act_fields [OF cap task]
      by (simp add: t'_def on_act_result_def Let_def)
  next
    case (Suc m)
    then show ?thesis using Suc.IH cap on_act_fields [OF cap task, of v key p "t' n"]
      by (simp add: t'_def on_act_result_def Let_def)
  qed
qed (simp add: t'_def)


definition bench_registry :: registry where
  "bench_registry name = (if name \<in> {''task.workbench'', ''shell.run'', ''file.edit'', ''file.read''} then
     Some \<lparr>tm_name = name, tm_params = [], tm_prefer_tier = [], tm_progress_category = [],
       tm_capabilities = (if name = ''file.edit'' then [''completion_mutation'']
         else if name = ''file.read'' then [''result_streak_only''] else [])\<rparr> else None)"

definition demo_voice :: voice where
  "demo_voice = \<lparr>vc_say = \<lambda>name args. name, vc_now = []\<rparr>"

definition demo_act :: "string \<Rightarrow> dict \<Rightarrow> judgment_output" where
  "demo_act tool p = blank_judgment\<lparr>jd_decision := ''act'', jd_chosen_action_id := tool, jd_params := p\<rparr>"

definition demo_cog_signals :: cog_signals where
  "demo_cog_signals = \<lparr>sg_repeat_action_count = 0, sg_repeat_action_tool = [], sg_repeat_action_key = [],
     sg_repeat_read_count = 0, sg_repeat_read_path = [], sg_repeat_list_count = 0, sg_repeat_list_path = [],
     sg_loop_probe_version = 0, sg_last_action_tool = [], sg_last_action_key = [], sg_last_action_status = [],
     sg_last_action_progressful = None, sg_last_action_reason = [], sg_active_task_id = [],
     sg_active_task_source = [], sg_active_task_status = [], sg_active_task_next_step = [], sg_wait_streak = 0\<rparr>"

lemmas key_eval = action_key_param_def action_key_primary_fields_def action_key_excluded_fields_def
  action_key_modifier_order_def stable_modifier_parts_def ordered_keys_def stable_text_def strip_def lstrip_def
  is_space_def dict_get_def char_of_def

lemma demo_shell_acts: "acts_as (demo_act ''shell.run'' [(''command'', PStr ''ls'')]) ''shell.run'' ''ls''"
  by (simp add: acts_as_def demo_act_def blank_judgment_def key_eval)

lemma demo_capabilities:
  "tool_has_capability bench_registry ''shell.run'' cap = False"
  "tool_has_capability bench_registry ''file.edit'' cap = (cap = ''completion_mutation'')"
  "tool_has_capability bench_registry ''file.read'' cap = (cap = ''result_streak_only'')"
  "registry_has_tool bench_registry ''task.workbench''"
  by (auto simp: tool_has_capability_def registry_has_tool_def bench_registry_def)

lemma new_tracker_fields [simp]:
  "bt_action_count (new_tracker ws n) = 0" "bt_threshold (new_tracker ws n) = max 1 n"
  by (simp_all add: new_tracker_def)


section \<open>Repetitions the gate cannot see\<close>

lemma probe_fields [simp]:
  "sg_last_action_progressful (apply_cognitive_probe t s) = sg_last_action_progressful s"
  "sg_repeat_action_count (apply_cognitive_probe t s) = bt_action_count t"
  "bt_action_sig t = Some g \<Longrightarrow> sg_repeat_action_tool (apply_cognitive_probe t s) = fst g"
  "bt_action_sig t = Some g \<Longrightarrow> sg_repeat_action_key (apply_cognitive_probe t s) = snd g"
  by (simp_all add: apply_cognitive_probe_def)

lemma act_no_evidence_gate: "jd_decision a = ''act'' \<Longrightarrow> \<not> gate_evidence_task_wait reg a s"
  by (simp add: gate_evidence_task_wait_def)

lemma gate_is_identity:
  assumes "jd_decision a = ''act''" "sg_last_action_progressful s \<noteq> Some False"
    "repeat_gate reg v (bt_threshold t) a s = None"
  shows "apply_execution_gate reg v t a s = a"
  using assms by (simp add: apply_execution_gate_def act_no_evidence_gate gate_after_unprogressful_probe_def Let_def)

lemma effective_key_of_change:
  assumes "tool_has_capability reg tool ''completion_mutation''" "content_sig p \<noteq> []"
  shows "length key < length (effective_key reg tool key p)"
proof -
  have "p \<noteq> []" using assms(2) by (auto simp: content_sig_def dict_get_def py_or_def)
  then show ?thesis using assms by (simp add: effective_key_def)
qed



text \<open>A round in which a file is read: it is announced, carried out, and its result is noted.\<close>

definition read_round :: "registry \<Rightarrow> voice \<Rightarrow> string \<Rightarrow> string \<Rightarrow> dict \<Rightarrow> tracker \<Rightarrow> string \<times> int \<times> string \<times> int \<times> int \<Rightarrow> tracker" where
  "read_round reg v key task p t r = (let (path, max_chars, summary, st, en) = r in
     snd (on_read v path max_chars summary st en
       (on_act_result reg ''file.read'' summary (snd (on_act reg v ''file.read'' key (Some task) p t)))))"

lemma seq_window_fields [simp]:
  "bt_action_sig (seq_window path st en t) = bt_action_sig t" "bt_action_count (seq_window path st en t) = bt_action_count t"
  "bt_threshold (seq_window path st en t) = bt_threshold t"
  by (simp_all add: seq_window_def Let_def)

lemma on_read_fields [simp]:
  "bt_action_sig (snd (on_read v path m summary st en t)) = bt_action_sig t"
  "bt_action_count (snd (on_read v path m summary st en t)) = bt_action_count t"
  "bt_threshold (snd (on_read v path m summary st en t)) = bt_threshold t"
  by (simp_all add: on_read_def Let_def)

lemma read_rounds_fields:
  assumes "tool_has_capability reg ''file.read'' ''result_streak_only''"
  shows "bt_action_sig (foldl (read_round reg v key task p) t rs) = bt_action_sig t \<and>
    bt_action_count (foldl (read_round reg v key task p) t rs) = bt_action_count t \<and>
    bt_threshold (foldl (read_round reg v key task p) t rs) = bt_threshold t"
  using assms by (induction rs arbitrary: t) (simp_all add: read_round_def on_act_def on_act_result_def split: prod.split)

text \<open>
  While the streak of another action stands at the threshold, reading a file is never stopped: the
  gate looks at the reads only when the action streak is short, and reading does not shorten it. The
  same file with the same content can be read any number of times.
\<close>

theorem standing_streak_hides_reads:
  fixes t :: tracker and v v' :: voice and s :: cog_signals and key task :: string and p :: dict
    and rs :: "(string \<times> int \<times> string \<times> int \<times> int) list"
  assumes "tool_has_capability reg ''file.read'' ''result_streak_only''"
    and "bt_threshold t \<le> bt_action_count t" and "bt_action_sig t = Some (other, okey)" and "other \<noteq> ''file.read''"
    and "jd_decision a = ''act''" and "jd_chosen_action_id a = ''file.read''" and "sg_last_action_progressful s \<noteq> Some False"
  defines "t' \<equiv> foldl (read_round reg v key task p) t rs"
  shows "apply_execution_gate reg v' t' a (apply_cognitive_probe t' s) = a"
proof (rule gate_is_identity)
  note f = read_rounds_fields [OF assms(1), of v key task p t rs]
  then show "repeat_gate reg v' (bt_threshold t') a (apply_cognitive_probe t' s) = None"
    using assms(2,3,4,6) by (simp add: repeat_gate_def acts_as_def t'_def Let_def)
qed (use assms(5,7) in simp_all)

theorem standing_streak_hides_reads_witness:
  "let p = [(''path'', PStr ''a'')]; a = demo_act ''file.read'' p;
     t = foldl (read_round bench_registry demo_voice ''a'' ''7'' p)
       ((new_tracker [] 3)\<lparr>bt_action_sig := Some (''shell.run'', ''ls''), bt_action_count := 3\<rparr>)
       (replicate 99 (''a'', 4000, ''text'', 0, 0))
   in apply_execution_gate bench_registry demo_voice t a (apply_cognitive_probe t demo_cog_signals) = a"
  using standing_streak_hides_reads [where reg = bench_registry and other = "''shell.run''" and okey = "''ls''"
      and t = "(new_tracker [] 3)\<lparr>bt_action_sig := Some (''shell.run'', ''ls''), bt_action_count := 3\<rparr>"
      and a = "demo_act ''file.read'' [(''path'', PStr ''a'')]" and v = demo_voice and v' = demo_voice
      and s = demo_cog_signals and key = "''a''" and task = "''7''" and p = "[(''path'', PStr ''a'')]"
      and rs = "replicate 99 (''a'', 4000, ''text'', 0, 0)"]
  by (simp add: demo_capabilities demo_cog_signals_def demo_act_def blank_judgment_def Let_def)

end
