(* ===== verification/Tool_History.thy ===== *)
theory Tool_History
  imports Behavior_Gate
begin

text \<open>
  The tool history of a tick (\<open>core/loop/shared/continue_phase.py\<close>): entries are dicts, the oldest first.
  The code replaces the contents of one shared list; here the functions return the new list. Two passes
  shorten it: repeated successful look-ups become one entry that counts them, and a long history keeps
  its last entries. The theorems say what the counts that stop a loop see of a shortened history.
\<close>

section \<open>Lines and signatures of entries\<close>

definition repeat_compact_tools :: "string list" where
  "repeat_compact_tools = [''file.read'', ''file.list'', ''memory.search'', ''task.list'', ''probe.run'', ''web.fetch'', ''shell.run'']"

definition low_increment_continue_tools :: "string list" where
  "low_increment_continue_tools = [''file.read'', ''file.list'', ''memory.search'', ''task.list'', ''probe.list'',
     ''probe.run'', ''config.list_keys'']"

definition task_scoped_continue_tools :: "string list" where
  "task_scoped_continue_tools = [''task.advance'', ''task.update'', ''task.workbench'', ''task.complete'', ''task.fail'', ''task.wait'']"

definition entry_dict :: "dict \<Rightarrow> string \<Rightarrow> dict" where
  "entry_dict e k = (case dict_field e k of Some d \<Rightarrow> d | None \<Rightarrow> [])"

definition entry_tool :: "dict \<Rightarrow> string" where
  "entry_tool e = str_or_empty (dict_get e ''tool'')"

text \<open>\<open>a or b or ... or ""\<close>.\<close>

definition first_truthy :: "pyval list \<Rightarrow> pyval" where
  "first_truthy vs = foldr py_or vs (PStr [])"

definition entry_result :: "dict \<Rightarrow> string" where
  "entry_result e = py_str (first_truthy [dict_get e ''result'', dict_get e ''summary''])"

definition history_line_key :: "dict \<Rightarrow> pyval" where
  "history_line_key e = (let p = entry_dict e ''params'' in first_truthy
     ([dict_get p ''path'', dict_get p ''name'', dict_get p ''title'', dict_get p ''key'',
       PStr (str_or_empty (dict_get p ''id'')), dict_get p ''command'', dict_get p ''query'', dict_get e ''resource_key'']))"

definition clipped_state_delta :: "dict \<Rightarrow> dict" where
  "clipped_state_delta d = fold (\<lambda>(k, v). AList.update (clip_for_context k 64) (PStr (clip_for_context (py_str v) 220))) d []"

definition compact_history_line :: "dict \<Rightarrow> string" where
  "compact_history_line e = (let tool = py_str (py_or (dict_get e ''tool'') (PStr ''?''));
     status = py_str (py_or (dict_get e ''status'') (PStr ''?'')); key = history_line_key e;
     result = strip (entry_result e);
     log_summary = strip (str_or_empty (dict_get (entry_dict e ''metadata'') ''log_summary''));
     artifacts = (case dict_get e ''artifact_paths'' of PList vs \<Rightarrow> map (PStr \<circ> py_str) (filter truthy vs) | _ \<Rightarrow> []);
     delta = clipped_state_delta (entry_dict e ''state_delta'')
   in json_dumps True (PDict ([(''tool'', PStr tool), (''status'', PStr status)] @
     (if truthy key then [(''key'', PStr (py_str key))] else []) @
     (if truthy (dict_get e ''error'') then [(''error'', PStr (py_str (dict_get e ''error'')))] else []) @
     (if log_summary \<noteq> [] then [(''summary'', PStr (clip_for_context log_summary 150))]
      else if result \<noteq> [] then [(''summary_preview'', PStr (clip_for_context result 150)),
        (''result_chars'', PInt (int (length result))), (''result_hash'', PStr (take 12 (md5_hex result)))] else []) @
     (if truthy (dict_get e ''fingerprint'') then [(''fingerprint'', PStr (py_str (dict_get e ''fingerprint'')))] else []) @
     (if artifacts \<noteq> [] then [(''artifacts'', PList artifacts)] else []) @
     (if delta \<noteq> [] then [(''state_delta'', PDict delta)] else []))))"

text \<open>The signature of a look-up that succeeded; empty for every other entry.\<close>

definition repeat_history_signature :: "dict \<Rightarrow> string" where
  "repeat_history_signature e = (let tool = entry_tool e in
     if tool \<notin> set repeat_compact_tools then []
     else if truthy (dict_get e ''error'') \<or> truthy (dict_get e ''skipped'') \<or>
       str_or_empty (dict_get e ''status'') \<notin> {[], ''ok''} then []
     else if entry_result e = [] then []
     else tool @ ''|'' @ json_dumps True (PDict (entry_dict e ''params'')) @ ''|'' @ take 16 (md5_hex (entry_result e)))"

definition compacted_history_entry :: "string \<Rightarrow> string \<Rightarrow> dict \<Rightarrow> dict" where
  "compacted_history_entry tool result p = [(''tool'', PStr tool), (''params'', PDict p), (''result'', PStr result),
     (''status'', PStr ''compacted''), (''error'', PStr [])]"

section \<open>The counts that stop a loop\<close>

text \<open>An entry stands for itself, or for the look-ups that were compacted into it.\<close>

definition low_increment_weight :: "dict \<Rightarrow> int res" where
  "low_increment_weight e = (let tool = entry_tool e; p = entry_dict e ''params'' in
     if tool \<in> set low_increment_continue_tools then Inr 1
     else if tool = ''[repeat-compacted]'' \<and> str_or_empty (dict_get p ''repeat_tool'') \<in> set low_increment_continue_tools
       then int_field p ''repeat_count'' else Inr 0)"

fun low_increment_history_count :: "dict list \<Rightarrow> int res" where
  "low_increment_history_count [] = Inr 0"
| "low_increment_history_count (e # h) = bind_res (low_increment_weight e) (\<lambda>n.
     bind_res (low_increment_history_count h) (\<lambda>m. Inr (n + m)))"

text \<open>Counted from the newest entry on; the list is reversed.\<close>

fun trailing_count :: "string \<Rightarrow> string \<Rightarrow> int \<Rightarrow> dict list \<Rightarrow> int res" where
  "trailing_count tool key n [] = Inr n"
| "trailing_count tool key n (e # h) = (let p = entry_dict e ''params'' in
     if entry_tool e = ''[repeat-compacted]'' then
       (if dict_get p ''repeat_tool'' = PStr tool \<and> dict_get p ''repeat_key'' = PStr key
        then bind_res (int_field p ''repeat_count'') (\<lambda>k. trailing_count tool key (n + k) h) else Inr n)
     else if startswith (entry_tool e) ''['' then trailing_count tool key n h
     else if entry_tool e \<noteq> tool \<or> action_key_param p \<noteq> key then Inr n
     else trailing_count tool key (n + 1) h)"

definition trailing_same_action_count :: "dict list \<Rightarrow> string \<Rightarrow> string \<Rightarrow> int res" where
  "trailing_same_action_count h tool key = (if tool = [] then Inr 0 else trailing_count tool key 0 (rev h))"

section \<open>Compacting\<close>

definition sig_count :: "string \<Rightarrow> dict list \<Rightarrow> nat" where
  "sig_count s h = length (filter (\<lambda>e. repeat_history_signature e = s) h)"

definition is_repeated :: "dict list \<Rightarrow> string \<Rightarrow> bool" where
  "is_repeated h s \<longleftrightarrow> s \<noteq> [] \<and> 1 < sig_count s h"

text \<open>The entry in place of the earlier look-ups \<open>old\<close> that said what \<open>e\<close> says.\<close>

definition repeat_entry :: "voice \<Rightarrow> dict list \<Rightarrow> dict \<Rightarrow> dict" where
  "repeat_entry v old e = compacted_history_entry ''[repeat-compacted]''
     (vc_say v ''repeat_compacted'' [dec_nat (length old)] @ CHR 0x0A # join [CHR 0x0A] (map compact_history_line old))
     [(''repeat_tool'', PStr (entry_tool e)), (''repeat_key'', PStr (action_key_param (entry_dict e ''params''))),
      (''repeat_count'', PInt (int (length old)))]"

text \<open>
  \<open>h\<close> is the whole history, \<open>old\<close> the part that was passed. An entry is the latest of its signature when
  the signature does not occur in the rest; the earlier ones are then those in \<open>old\<close>.
\<close>

fun rebuild_history :: "voice \<Rightarrow> dict list \<Rightarrow> dict list \<Rightarrow> dict list \<Rightarrow> dict list" where
  "rebuild_history v h old [] = []"
| "rebuild_history v h old (e # es) = (let s = repeat_history_signature e; tail = rebuild_history v h (old @ [e]) es in
     if \<not> is_repeated h s then e # tail
     else if sig_count s es > 0 then tail
     else repeat_entry v (filter (\<lambda>x. repeat_history_signature x = s) old) e # e # tail)"

definition compact_repeated_tool_history :: "voice \<Rightarrow> dict list \<Rightarrow> dict list" where
  "compact_repeated_tool_history v h = (if length h < 2 then h
     else if \<not> (\<exists>e \<in> set h. is_repeated h (repeat_history_signature e)) then h else rebuild_history v h [] h)"

definition compact_tool_history :: "voice \<Rightarrow> int \<Rightarrow> dict list \<Rightarrow> dict list" where
  "compact_tool_history v keep_last h = (let k = nat (max 1 keep_last) in
     if length h \<le> k then h
     else (let older = take (length h - k) h in
       compacted_history_entry ''[compacted]'' (vc_say v ''compacted'' [dec_nat (length older)] @ CHR 0x0A #
         join [CHR 0x0A] (map compact_history_line older)) [] # drop (length h - k) h))"

section \<open>Signatures\<close>

definition sig_tool :: "string \<Rightarrow> string" where
  "sig_tool s = takeWhile (\<lambda>c. c \<noteq> CHR ''|'') s"

lemma sig_tool_of:
  assumes "repeat_history_signature e = s" "s \<noteq> []"
  shows "entry_tool e = sig_tool s" "entry_tool e \<in> set repeat_compact_tools"
proof -
  show mem: "entry_tool e \<in> set repeat_compact_tools"
    using assms by (auto simp: repeat_history_signature_def Let_def split: if_splits)
  obtain r where "s = entry_tool e @ ''|'' @ r"
    using assms by (auto simp: repeat_history_signature_def Let_def split: if_splits)
  moreover have "\<forall>t \<in> set repeat_compact_tools. CHR ''|'' \<notin> set t"
    by (simp add: repeat_compact_tools_def)
  ultimately have "takeWhile (\<lambda>c. c \<noteq> CHR ''|'') (entry_tool e) = entry_tool e" "s = entry_tool e @ CHR ''|'' # r"
    using mem by (auto simp: takeWhile_eq_all_conv)
  then show "entry_tool e = sig_tool s"
    by (simp add: sig_tool_def takeWhile_tail)
qed

lemma compacted_tool_not_compactable: "''[repeat-compacted]'' \<notin> set repeat_compact_tools" "''[compacted]'' \<notin> set repeat_compact_tools"
  by (simp_all add: repeat_compact_tools_def)

lemma compacted_entry_fields [simp]:
  "entry_tool (compacted_history_entry t r p) = t"
  "entry_dict (compacted_history_entry t r p) ''params'' = p"
  by (simp_all add: entry_tool_def entry_dict_def compacted_history_entry_def dict_field_def dict_get_def
      str_or_empty_def py_or_def)

lemma repeat_entry_fields [simp]:
  "entry_tool (repeat_entry v old e) = ''[repeat-compacted]''"
  "dict_get (entry_dict (repeat_entry v old e) ''params'') ''repeat_tool'' = PStr (entry_tool e)"
  "dict_get (entry_dict (repeat_entry v old e) ''params'') ''repeat_key'' =
     PStr (action_key_param (entry_dict e ''params''))"
  "int_field (entry_dict (repeat_entry v old e) ''params'') ''repeat_count'' = Inr (int (length old))"
  by (simp_all add: repeat_entry_def dict_get_def int_field_def py_or_def)

lemma repeat_entry_sig [simp]: "repeat_history_signature (repeat_entry v old e) = []"
  by (simp add: repeat_history_signature_def compacted_tool_not_compactable)

lemma sig_count_simps [simp]:
  "sig_count s [] = 0" "sig_count s (e # h) = (if repeat_history_signature e = s then 1 else 0) + sig_count s h"
  "sig_count s (h @ h') = sig_count s h + sig_count s h'"
  by (simp_all add: sig_count_def)

lemma sig_count_pos: "0 < sig_count s h \<longleftrightarrow> s \<in> repeat_history_signature ` set h"
  by (auto simp: sig_count_def filter_empty_conv)

section \<open>Compacting keeps the count of look-ups\<close>

definition sig_weight :: "string \<Rightarrow> int" where
  "sig_weight s = (if sig_tool s \<in> set low_increment_continue_tools then 1 else 0)"

definition pending_weight :: "dict list \<Rightarrow> dict list \<Rightarrow> dict list \<Rightarrow> int" where
  "pending_weight h old es = (\<Sum>s \<in> {s \<in> repeat_history_signature ` set es. is_repeated h s}. sig_weight s * int (sig_count s old))"

lemma weight_of_signed:
  assumes "repeat_history_signature e = s" "s \<noteq> []"
  shows "low_increment_weight e = Inr (sig_weight s)"
proof -
  have "entry_tool e \<noteq> ''[repeat-compacted]''"
    using sig_tool_of(2) [OF assms] by (auto simp: compacted_tool_not_compactable)
  then show ?thesis
    using sig_tool_of(1) [OF assms] by (simp add: low_increment_weight_def sig_weight_def Let_def)
qed

lemma weight_of_repeat:
  assumes "repeat_history_signature e = s" "s \<noteq> []"
  shows "low_increment_weight (repeat_entry v old e) = Inr (sig_weight s * int (length old))"
proof -
  have "sig_tool s \<noteq> []"
    using sig_tool_of [OF assms] by (auto simp: repeat_compact_tools_def)
  then show ?thesis
    using sig_tool_of(1) [OF assms]
    by (simp add: low_increment_weight_def sig_weight_def str_or_empty_def py_or_def Let_def low_increment_continue_tools_def)
qed

lemma pending_weight_Nil [simp]: "pending_weight h old [] = 0"
  by (simp add: pending_weight_def)

lemma pending_weight_add:
  "pending_weight h (old @ [e]) es = pending_weight h old es +
     (if is_repeated h (repeat_history_signature e) \<and> 0 < sig_count (repeat_history_signature e) es
      then sig_weight (repeat_history_signature e) else 0)"
proof -
  let ?S = "{s \<in> repeat_history_signature ` set es. is_repeated h s}" and ?s = "repeat_history_signature e"
  have "pending_weight h (old @ [e]) es = pending_weight h old es + (\<Sum>s \<in> ?S. if s = ?s then sig_weight s else 0)"
    unfolding pending_weight_def sum.distrib [symmetric] by (rule sum.cong) (auto simp: algebra_simps)
  also have "(\<Sum>s \<in> ?S. if s = ?s then sig_weight s else 0) = (if ?s \<in> ?S then sig_weight ?s else 0)"
    by (simp add: sum.delta')
  finally show ?thesis by (auto simp: sig_count_pos)
qed

lemma pending_weight_Cons:
  "pending_weight h old (e # es) = pending_weight h old es +
     (if is_repeated h (repeat_history_signature e) \<and> sig_count (repeat_history_signature e) es = 0
      then sig_weight (repeat_history_signature e) * int (sig_count (repeat_history_signature e) old) else 0)"
proof -
  let ?S = "{s \<in> repeat_history_signature ` set es. is_repeated h s}" and ?s = "repeat_history_signature e"
  have "{s \<in> repeat_history_signature ` set (e # es). is_repeated h s} = (if is_repeated h ?s then insert ?s ?S else ?S)"
    by auto
  moreover have "?s \<in> ?S \<longleftrightarrow> is_repeated h ?s \<and> 0 < sig_count ?s es" by (auto simp: sig_count_pos)
  ultimately show ?thesis by (auto simp: pending_weight_def insert_absorb)
qed

lemma rebuild_count:
  "low_increment_history_count (rebuild_history v h old es) =
     bind_res (low_increment_history_count es) (\<lambda>m. Inr (pending_weight h old es + m))"
proof (induction es arbitrary: old)
  case (Cons e es)
  let ?s = "repeat_history_signature e"
  show ?case
  proof (cases "is_repeated h ?s")
    case True
    then have w: "low_increment_weight e = Inr (sig_weight ?s)"
      and r: "low_increment_weight (repeat_entry v (filter (\<lambda>x. repeat_history_signature x = ?s) old) e) =
        Inr (sig_weight ?s * int (sig_count ?s old))"
      by (simp_all add: is_repeated_def weight_of_signed weight_of_repeat sig_count_def)
    show ?thesis
      by (cases "low_increment_history_count es"; cases "0 < sig_count ?s es")
        (use True w r Cons in \<open>simp_all add: pending_weight_add pending_weight_Cons Let_def\<close>)
  next
    case False
    then show ?thesis
      by (cases "low_increment_history_count es"; cases "low_increment_weight e")
        (simp_all add: Cons pending_weight_add pending_weight_Cons Let_def)
  qed
qed simp

text \<open>C19: 
  Compacting the repeated look-ups of a history does not change how many look-ups of low increment
  the budget counts, errors included: an entry that stands for others counts for all of them.
\<close>

theorem compaction_keeps_low_increment_count:
  "low_increment_history_count (compact_repeated_tool_history v h) = low_increment_history_count h"
proof -
  have "pending_weight h [] h = 0" by (simp add: pending_weight_def)
  then show ?thesis
    by (cases "low_increment_history_count h") (simp_all add: compact_repeated_tool_history_def rebuild_count)
qed

section \<open>Compacting makes scattered look-ups consecutive\<close>

lemma rebuild_snoc:
  assumes "repeat_history_signature e = s" "is_repeated h s"
  shows "\<exists>pre. rebuild_history v h old (es @ [e]) =
      pre @ [repeat_entry v (filter (\<lambda>x. repeat_history_signature x = s) (old @ es)) e, e] \<and>
    (\<forall>x \<in> set pre. x \<in> set es \<or> (\<exists>xs y. x = repeat_entry v xs y))"
proof (induction es arbitrary: old)
  case Nil
  then show ?case using assms by (simp add: Let_def)
next
  case (Cons x es)
  obtain pre where pre: "rebuild_history v h (old @ [x]) (es @ [e]) =
      pre @ [repeat_entry v (filter (\<lambda>x. repeat_history_signature x = s) (old @ x # es)) e, e]"
    "\<forall>x \<in> set pre. x \<in> set es \<or> (\<exists>xs y. x = repeat_entry v xs y)"
    using Cons.IH [of "old @ [x]"] by auto
  define hd where "hd = (let t = repeat_history_signature x in if \<not> is_repeated h t then [x]
     else if sig_count t (es @ [e]) > 0 then []
     else [repeat_entry v (filter (\<lambda>x. repeat_history_signature x = t) old) x, x])"
  have "rebuild_history v h old ((x # es) @ [e]) = hd @ rebuild_history v h (old @ [x]) (es @ [e])"
    by (simp add: hd_def Let_def)
  moreover have "\<forall>y \<in> set hd. y = x \<or> (\<exists>xs z. y = repeat_entry v xs z)"
    by (auto simp: hd_def Let_def)
  ultimately show ?case
    using pre by (intro exI [of _ "hd @ pre"]) auto
qed

lemma trailing_count_grows:
  assumes "\<forall>e \<in> set h. entry_tool e = ''[repeat-compacted]'' \<longrightarrow> (\<exists>xs y. e = repeat_entry v xs y)"
  shows "\<exists>k. trailing_count tool key n h = Inr k \<and> n \<le> k"
  using assms
proof (induction h arbitrary: n)
  case (Cons e h)
  have ih: "\<exists>k. trailing_count tool key m h = Inr k \<and> m \<le> k" for m
    using Cons by simp
  have up: "n \<le> m \<Longrightarrow> \<exists>k. trailing_count tool key m h = Inr k \<and> n \<le> k" for m
    using ih [of m] order_trans by blast
  have c: "int_field (entry_dict e ''params'') ''repeat_count'' = Inr k \<and> 0 \<le> k
      \<Longrightarrow> \<exists>j. bind_res (int_field (entry_dict e ''params'') ''repeat_count'') (\<lambda>k. trailing_count tool key (n + k) h) = Inr j \<and> n \<le> j" for k
    using up [of "n + k"] by simp
  show ?case
    using Cons.prems c up [of n] up [of "n + 1"] by (auto simp: Let_def startswith_def)
qed simp

text \<open>
  After compacting, the newest look-up counts as repeated in a row as often as it occurs anywhere
  in the history, whatever was done in between: the entry that stands for the earlier ones is put right
  before it, and the count of the trailing equal actions goes through it.
\<close>

theorem compaction_joins_repeats:
  assumes "repeat_history_signature e \<noteq> []" and "1 < sig_count (repeat_history_signature e) (h @ [e])"
    and "\<forall>x \<in> set h. entry_tool x \<noteq> ''[repeat-compacted]''"
  shows "\<exists>k. trailing_same_action_count (compact_repeated_tool_history v (h @ [e])) (entry_tool e)
      (action_key_param (entry_dict e ''params'')) = Inr k \<and> int (sig_count (repeat_history_signature e) (h @ [e])) \<le> k"
proof -
  let ?s = "repeat_history_signature e" and ?key = "action_key_param (entry_dict e ''params'')"
  let ?old = "filter (\<lambda>x. repeat_history_signature x = ?s) h"
  have rep: "is_repeated (h @ [e]) ?s" using assms(1,2) by (simp add: is_repeated_def)
  have tool: "entry_tool e \<in> set repeat_compact_tools" "entry_tool e \<noteq> []"
    using sig_tool_of(2) [OF refl assms(1)] by (auto simp: repeat_compact_tools_def)
  then have plain: "\<not> startswith (entry_tool e) ''[''" "entry_tool e \<noteq> ''[repeat-compacted]''"
    by (auto simp: repeat_compact_tools_def startswith_def)
  obtain pre where "rebuild_history v (h @ [e]) [] (h @ [e]) = pre @ [repeat_entry v ?old e, e]"
    and pre: "\<forall>x \<in> set pre. x \<in> set h \<or> (\<exists>xs y. x = repeat_entry v xs y)"
    using rebuild_snoc [OF refl rep, of v "[]" h] by auto
  moreover have "h \<noteq> []" using assms(2) by auto
  ultimately have c: "compact_repeated_tool_history v (h @ [e]) = pre @ [repeat_entry v ?old e, e]"
    using rep by (cases h) (auto simp: compact_repeated_tool_history_def)
  have "\<exists>k. trailing_count (entry_tool e) ?key (1 + int (length ?old)) (rev pre) = Inr k \<and> 1 + int (length ?old) \<le> k"
    by (rule trailing_count_grows) (use pre assms(3) in auto)
  then show ?thesis
    using tool(2) plain by (simp add: trailing_same_action_count_def c sig_count_def Let_def)
qed

definition lookup_entry :: "string \<Rightarrow> string \<Rightarrow> dict" where
  "lookup_entry path result = tool_history_entry (demo_act ''file.read'' [(''path'', PStr path)]) (plain_result result)"

definition scattered :: "dict list" where
  "scattered = [lookup_entry ''a'' ''x'', lookup_entry ''b'' ''y'', lookup_entry ''a'' ''x'', lookup_entry ''b'' ''z'', lookup_entry ''a'' ''x'']"

lemma lookup_entry_simps [simp]:
  "entry_tool (lookup_entry p r) = ''file.read''"
  "entry_dict (lookup_entry p r) ''params'' = [(''path'', PStr p)]"
  by (simp_all add: lookup_entry_def tool_history_entry_def entry_tool_def entry_dict_def dict_get_def dict_field_def
      str_or_empty_def py_or_def demo_act_def blank_judgment_def Let_def)

lemma lookup_entry_sig: "r \<noteq> [] \<Longrightarrow> repeat_history_signature (lookup_entry p r) \<noteq> []"
  by (simp add: repeat_history_signature_def Let_def repeat_compact_tools_def)
    (simp add: lookup_entry_def tool_history_entry_def plain_result_def error_text_def error_category_def dict_get_def
      entry_result_def first_truthy_def py_or_def str_or_empty_def)

lemma lookup_key: "action_key_param [(''path'', PStr ''a'')] = ''a''" "action_key_param [(''path'', PStr ''b'')] = ''b''"
  by (simp_all add: key_eval)

theorem compaction_joins_repeats_witness:
  "(\<exists>k. trailing_same_action_count (compact_repeated_tool_history demo_voice scattered) ''file.read'' ''a'' = Inr k \<and> 3 \<le> k) \<and>
    trailing_same_action_count scattered ''file.read'' ''a'' = Inr 1"
proof (rule conjI)
  let ?e = "lookup_entry ''a'' ''x''"
  let ?h = "[?e, lookup_entry ''b'' ''y'', ?e, lookup_entry ''b'' ''z'']"
  have s: "scattered = ?h @ [?e]" by (simp add: scattered_def)
  obtain k where "trailing_same_action_count (compact_repeated_tool_history demo_voice (?h @ [?e])) (entry_tool ?e)
      (action_key_param (entry_dict ?e ''params'')) = Inr k" "int (sig_count (repeat_history_signature ?e) (?h @ [?e])) \<le> k"
    using compaction_joins_repeats [of ?e ?h demo_voice] lookup_entry_sig by auto
  then show "\<exists>k. trailing_same_action_count (compact_repeated_tool_history demo_voice scattered) ''file.read'' ''a'' = Inr k \<and> 3 \<le> k"
    unfolding s by (intro exI [of _ k]) (auto simp: lookup_key split: if_splits)
  show "trailing_same_action_count scattered ''file.read'' ''a'' = Inr 1"
    by (simp add: scattered_def trailing_same_action_count_def startswith_def lookup_key Let_def)
qed

end
