(* ===== verification/Py_Io.thy ===== *)
theory Py_Io
  imports Py
begin

text \<open>
  Statements with a state: the result of one is its value or the exception it raised, and the state after it.
\<close>

text \<open>\<open>a; b\<close>: an exception of the first statement ends both.\<close>

definition then_do :: "'a res \<times> 's \<Rightarrow> ('a \<Rightarrow> 's \<Rightarrow> 'b res \<times> 's) \<Rightarrow> 'b res \<times> 's" where
  "then_do m f = (case m of (Inl x, s) \<Rightarrow> (Inl x, s) | (Inr a, s) \<Rightarrow> f a s)"

text \<open>\<open>try: a except Exception as x: b\<close>, and \<open>with suppress(Exception): a\<close>.\<close>

definition or_else :: "'a res \<times> 's \<Rightarrow> (exn \<Rightarrow> 's \<Rightarrow> 'a res \<times> 's) \<Rightarrow> 'a res \<times> 's" where
  "or_else m f = (case m of (Inl x, s) \<Rightarrow> f x s | (Inr a, s) \<Rightarrow> (Inr a, s))"

definition suppressed :: "'a res \<times> 's \<Rightarrow> unit res \<times> 's" where
  "suppressed m = (Inr (), snd m)"

lemma then_do_simps [simp]: "then_do (Inl x, s) f = (Inl x, s)" "then_do (Inr a, s) f = f a s"
  by (simp_all add: then_do_def)

lemma or_else_simps [simp]: "or_else (Inl x, s) f = f x s" "or_else (Inr a, s) f = (Inr a, s)"
  by (simp_all add: or_else_def)

lemma suppressed_simp [simp]: "suppressed (r, s) = (Inr (), s)"
  by (simp add: suppressed_def)

lemma then_do_cases:
  assumes "then_do m f = (r, s')"
  obtains (raised) x where "m = (Inl x, s')" "r = Inl x" | (done1) a t where "m = (Inr a, t)" "f a t = (r, s')"
  using assms by (cases m; cases "fst m") auto

lemma then_do_regular: "then_do m f = (Inr l, s') \<Longrightarrow> \<exists>a t. m = (Inr a, t) \<and> f a t = (Inr l, s')"
  by (auto elim: then_do_cases)

lemma then_do_pure: "then_do (x, s) f = (Inr l, s') \<Longrightarrow> \<exists>a. x = Inr a \<and> f a s = (Inr l, s')"
  by (auto elim: then_do_cases)

lemma or_else_cases:
  assumes "or_else m f = (r, s')"
  obtains (raised) x t where "m = (Inl x, t)" "f x t = (r, s')" | (done1) a where "m = (Inr a, s')" "r = Inr a"
  using assms by (cases m; cases "fst m") auto

end
