(* ===== verification/Continue_Phase.thy ===== *)
theory Continue_Phase
  imports Tool_History Task_Models Py_Num Py_Io
begin

text \<open>
  The inner loop of a tick (\<open>core/loop/shared/continue_phase.py\<close>): the model is asked for the next
  action with the tool history, the action passes a redirection and three gates, it is carried out, and
  its result is noted, until something ends the loop. What the model decides, what a tool does, whether
  a chat message waits and what is recorded or reconciled outside of the loop are functions of a state
  \<open>'w\<close> that the model leaves open. The memory items of the phase that the model is shown are kept as items.
\<close>

section \<open>Reading the history\<close>

definition action_history_key :: "judgment_output \<Rightarrow> string \<times> string" where
  "action_history_key a = (jd_chosen_action_id a, action_key_param (jd_params a))"

fun not_a_file_failure :: "string \<Rightarrow> dict list \<Rightarrow> bool" where
  "not_a_file_failure path [] = False"
| "not_a_file_failure path (e # newest_first) =
    (if entry_tool e \<noteq> ''file.read'' \<or> str_or_empty (dict_get (entry_dict e ''params'') ''path'') \<noteq> path
     then not_a_file_failure path newest_first
     else (let t = lower (join '' '' (map (\<lambda>k. str_or_empty (dict_get e k)) [''error'', ''summary'', ''result''])) in
       contains t ''notafile'' \<or> contains t ''knownstablefailure'' \<or> not_a_file_failure path newest_first))"

definition history_has_not_a_file_failure :: "dict list \<Rightarrow> string \<Rightarrow> bool" where
  "history_has_not_a_file_failure h path \<longleftrightarrow> path \<noteq> [] \<and> not_a_file_failure path (rev h)"

definition action_path :: "judgment_output \<Rightarrow> string" where
  "action_path a = strip (str_or_empty (dict_get (jd_params a) ''path''))"

definition redirect_not_a_file_read_to_list ::
    "registry \<Rightarrow> voice \<Rightarrow> dict list \<Rightarrow> judgment_output \<Rightarrow> judgment_output" where
  "redirect_not_a_file_read_to_list reg v h a =
    (if jd_decision a \<noteq> ''act'' \<or> jd_chosen_action_id a \<noteq> ''file.read'' then a
     else if \<not> history_has_not_a_file_failure h (action_path a) \<or> \<not> registry_has_tool reg ''file.list'' then a
     else blank_judgment\<lparr>jd_decision := ''act'', jd_chosen_action_id := ''file.list'',
       jd_params := [(''path'', PStr (action_path a)), (''limit'', PInt 200), (''include_hidden'', PBool True)],
       jd_rationale := vc_say v ''redirect'' [], jd_reflection := jd_reflection a, jd_next_step := jd_next_step a,
       jd_model_strategy := jd_model_strategy a, jd_applied_skills := jd_applied_skills a\<rparr>)"

definition is_not_a_file_redirected_list :: "judgment_output \<Rightarrow> dict list \<Rightarrow> bool" where
  "is_not_a_file_redirected_list a h \<longleftrightarrow> jd_decision a = ''act'' \<and> jd_chosen_action_id a = ''file.list'' \<and>
     history_has_not_a_file_failure h (action_path a)"

section \<open>Task ids\<close>

definition coerce_task_id :: "pyval \<Rightarrow> int option" where
  "coerce_task_id v = (case py_int v of Inl _ \<Rightarrow> None | Inr n \<Rightarrow> if 0 < n then Some n else None)"

definition entry_task_id :: "dict \<Rightarrow> int option" where
  "entry_task_id e = (case List.map_filter coerce_task_id [dict_get (entry_dict e ''params'') ''task_id'',
       dict_get (entry_dict e ''state_delta'') ''task_id'', dict_get (entry_dict e ''metadata'') ''task_id'',
       dict_get e ''resource_key''] of [] \<Rightarrow> None | n # _ \<Rightarrow> Some n)"

definition latest_task_id_from_history :: "dict list \<Rightarrow> int option" where
  "latest_task_id_from_history h = (case List.map_filter entry_task_id (rev h) of [] \<Rightarrow> None | n # _ \<Rightarrow> Some n)"

definition ensure_continue_task_id :: "task option \<Rightarrow> dict list \<Rightarrow> judgment_output \<Rightarrow> judgment_output" where
  "ensure_continue_task_id active h a =
    (if jd_decision a \<noteq> ''act'' \<or> jd_chosen_action_id a \<notin> set task_scoped_continue_tools then a
     else if coerce_task_id (dict_get (jd_params a) ''task_id'') \<noteq> None then a
     else (let own = (case active of None \<Rightarrow> None | Some k \<Rightarrow> coerce_task_id (PInt (t_id k)));
         found = (case own of Some n \<Rightarrow> Some n | None \<Rightarrow> latest_task_id_from_history h)
       in (case found of None \<Rightarrow> a | Some n \<Rightarrow> a\<lparr>jd_params := AList.update ''task_id'' (PInt n) (jd_params a)\<rparr>)))"

definition is_continue_control_workbench :: "judgment_output \<Rightarrow> bool" where
  "is_continue_control_workbench a \<longleftrightarrow> jd_chosen_action_id a = ''task.workbench'' \<and>
     startswith (str_or_empty (dict_get (entry_dict (jd_params a) ''workbench'') ''recovery_state'')) ''continue_''"

section \<open>Limits\<close>

text \<open>The thresholds as configured; \<open>th_low_budget\<close> is \<open>None\<close> where the configuration has no such field.\<close>

record thresholds =
  th_compact_threshold :: int
  th_keep_last :: int
  th_max_inner_rounds :: int
  th_low_budget :: pyval
  th_behavior_streak :: int

definition tool_history_compact_limits :: "thresholds \<Rightarrow> int \<times> int" where
  "tool_history_compact_limits t = (max 1 (th_compact_threshold t), max 1 (th_keep_last t))"

definition continue_repeat_threshold :: "thresholds \<Rightarrow> int" where
  "continue_repeat_threshold t = max 2 (if th_behavior_streak t = 0 then 4 else th_behavior_streak t)"

definition continue_low_increment_budget :: "thresholds \<Rightarrow> int \<Rightarrow> int" where
  "continue_low_increment_budget t max_rounds =
    (let dflt = (if max_rounds \<le> 0 then 2 else max 1 (min 2 max_rounds)) in
     if th_low_budget t = PNone then dflt
     else (case py_int (th_low_budget t) of Inr n \<Rightarrow> max 1 n | Inl _ \<Rightarrow> dflt))"

definition recent_tool_names :: "dict list \<Rightarrow> string list" where
  "recent_tool_names h = filter (\<lambda>s. s \<noteq> []) (map entry_tool (slice_last (max 1 (min 6 (int (length h)))) h))"

section \<open>Notes of the gates\<close>

definition repeat_workbench_action :: "voice \<Rightarrow> judgment_output \<Rightarrow> int \<Rightarrow> judgment_output" where
  "repeat_workbench_action v a n = (let (tool, key) = action_history_key a; args = [tool, key, dec_int n] in
     workbench_gate v ''continue.repeat'' ''runtime-loop'' 2 2 args
       (control_next_verification (vc_say v ''continue.repeat.verification'' args))
       (Some ''continue_repeat_action_gated'') (vc_say v ''continue.repeat.next'' args) a)"

definition low_increment_workbench_action :: "voice \<Rightarrow> judgment_output \<Rightarrow> int \<Rightarrow> dict list \<Rightarrow> judgment_output" where
  "low_increment_workbench_action v a budget h =
    (let args = [jd_chosen_action_id a, action_key_param (jd_params a), dec_int budget, join '', '' (recent_tool_names h)] in
     workbench_gate v ''continue.low'' ''runtime-loop'' 3 2 args
       (control_next_verification (vc_say v ''continue.low.verification'' args))
       (Some ''continue_low_increment_budget_reached'') (vc_say v ''continue.low.next'' args) a)"

text \<open>What to do next when the rounds are used up, read off the newest entries.\<close>

definition recovery_hint :: "dict \<Rightarrow> string option" where
  "recovery_hint delta = find (\<lambda>v. v \<noteq> [] \<and> \<not> is_control_next_verification v)
     (map (\<lambda>k. clip_for_context (str_or_empty (dict_get delta k)) 240) [''recovery_next_step'', ''next_verification''])"

fun round_limit_advice :: "voice \<Rightarrow> dict list \<Rightarrow> string" where
  "round_limit_advice v [] = vc_say v ''limit.fallback'' []"
| "round_limit_advice v (e # newest_first) = (let delta = entry_dict e ''state_delta'';
     tool = strip (entry_tool e); err = strip (str_or_empty (dict_get e ''error''));
     key = action_key_param (entry_dict e ''params'');
     missing = (case dict_get delta ''missing_params'' of PList vs \<Rightarrow> join '', '' (map py_str vs) | _ \<Rightarrow> []);
     summary = clip_for_context (py_str (first_truthy [dict_get e ''summary'', dict_get e ''result''])) 140
   in case recovery_hint delta of Some v' \<Rightarrow> v' | None \<Rightarrow>
     if err = ''ToolInputInvalid'' \<and> tool \<noteq> [] \<and> missing \<noteq> [] then vc_say v ''limit.manifest'' [tool, missing]
     else if err = ''ToolInputInvalid'' \<and> tool \<noteq> [] then vc_say v ''limit.params'' [tool]
     else if err \<noteq> [] then vc_say v ''limit.error'' [tool, clip_for_context err 80]
     else if str_or_empty (dict_get e ''status'') = ''ok'' \<and> tool \<noteq> [] \<and> \<not> startswith tool ''task.'' \<and> summary \<noteq> []
       then (if tool \<in> set low_increment_continue_tools then vc_say v ''limit.low'' [] else vc_say v ''limit.tool'' [tool, key])
     else round_limit_advice v newest_first)"

definition round_limit_action :: "voice \<Rightarrow> dict list \<Rightarrow> int \<Rightarrow> judgment_output" where
  "round_limit_action v h n = (let advice = round_limit_advice v (rev h);
     args = [dec_int n, join '', '' (recent_tool_names h), advice];
     wb = workbench_note v ''continue.limit'' ''runtime-loop'' 3 2 args
       (control_next_verification (vc_say v ''continue.limit.verification'' args)) (Some ''continue_round_limit_reached'')
   in build_workbench_action (wb @ [(''verification_state'', PDict [(''status'', PStr ''resolved''),
        (''goal'', PStr (vc_say v ''continue.limit.goal'' args))])]) (vc_say v ''continue.limit.rationale'' args) None (Some advice))"

section \<open>State and environment of the loop\<close>

record 'w cont_env =
  cn_reg :: registry
  cn_voice :: voice
  cn_user_message :: string
  cn_active :: "task option"
  cn_thresholds :: thresholds
  cn_thinking :: "string \<times> string \<times> string"
  cn_pri_insight :: rat
  cn_decide :: "dict list \<Rightarrow> string option \<Rightarrow> string option \<Rightarrow> wm_item list \<Rightarrow> 'w \<Rightarrow> judgment_output res \<times> 'w"
  cn_dispatch :: "judgment_output \<Rightarrow> 'w \<Rightarrow> tool_result res \<times> 'w"
  cn_pending :: "'w \<Rightarrow> bool"
  cn_record :: "string \<Rightarrow> 'w \<Rightarrow> 'w"
  cn_reconcile :: "'w \<Rightarrow> unit res \<times> 'w"

record 'w cont_state =
  cs_history :: "dict list"
  cs_wm :: wm
  cs_delta :: "wm_item list"
  cs_tracker :: tracker
  cs_signals :: "cog_signals option"
  cs_action :: judgment_output
  cs_result :: tool_result
  cs_inner :: int
  cs_world :: 'w

definition add_item :: "wm_item \<Rightarrow> 'w cont_state \<Rightarrow> unit res \<times> 'w cont_state" where
  "add_item i s = (let (r, m) = wm_add i (cs_wm s) in (r, s\<lparr>cs_wm := m\<rparr>))"

definition add_delta_item :: "wm_item \<Rightarrow> 'w cont_state \<Rightarrow> unit res \<times> 'w cont_state" where
  "add_delta_item i s = then_do (add_item i s) (\<lambda>_ s'. (Inr (), s'\<lparr>cs_delta := cs_delta s' @ [i]\<rparr>))"

fun add_items :: "(wm_item \<Rightarrow> 'w cont_state \<Rightarrow> unit res \<times> 'w cont_state) \<Rightarrow> wm_item list \<Rightarrow>
    'w cont_state \<Rightarrow> unit res \<times> 'w cont_state" where
  "add_items add [] s = (Inr (), s)"
| "add_items add (i # is) s = then_do (add i s) (\<lambda>_. add_items add is)"

definition call :: "('w \<Rightarrow> 'a res \<times> 'w) \<Rightarrow> 'w cont_state \<Rightarrow> 'a res \<times> 'w cont_state" where
  "call f s = (let (r, w) = f (cs_world s) in (r, s\<lparr>cs_world := w\<rparr>))"

section \<open>One round\<close>

definition max_inner_rounds :: "'w cont_env \<Rightarrow> int" where
  "max_inner_rounds c = max 0 (th_max_inner_rounds (cn_thresholds c))"

definition low_increment_budget :: "'w cont_env \<Rightarrow> int" where
  "low_increment_budget c = continue_low_increment_budget (cn_thresholds c) (max_inner_rounds c)"

definition has_workbench :: "'w cont_env \<Rightarrow> bool" where
  "has_workbench c \<longleftrightarrow> registry_has_tool (cn_reg c) ''task.workbench''"

text \<open>The history as the model is shown it in this round.\<close>

definition compacted_history :: "'w cont_env \<Rightarrow> dict list \<Rightarrow> dict list" where
  "compacted_history c h = (let h1 = compact_repeated_tool_history (cn_voice c) h;
     (limit, keep) = tool_history_compact_limits (cn_thresholds c) in
     if limit \<le> int (length h1) \<and> keep < int (length h1) then compact_tool_history (cn_voice c) keep h1 else h1)"

definition gate_repeats :: "'w cont_env \<Rightarrow> dict list \<Rightarrow> judgment_output \<Rightarrow> judgment_output res" where
  "gate_repeats c h a =
    (if jd_decision a = ''act'' \<and> jd_chosen_action_id a \<noteq> [] \<and> jd_chosen_action_id a \<noteq> ''task.workbench'' \<and> has_workbench c
     then (let (tool, key) = action_history_key a in
       bind_res (trailing_same_action_count h tool key) (\<lambda>n. Inr
         (if continue_repeat_threshold (cn_thresholds c) \<le> n + 1 then repeat_workbench_action (cn_voice c) a (n + 1) else a)))
     else Inr a)"

definition gate_low_increment :: "'w cont_env \<Rightarrow> dict list \<Rightarrow> judgment_output \<Rightarrow> judgment_output res" where
  "gate_low_increment c h a =
    (if jd_decision a = ''act'' \<and> jd_chosen_action_id a \<in> set low_increment_continue_tools \<and>
        \<not> is_not_a_file_redirected_list a h \<and> has_workbench c
     then bind_res (low_increment_history_count h) (\<lambda>n. Inr
       (if low_increment_budget c \<le> n then low_increment_workbench_action (cn_voice c) a (low_increment_budget c) h else a))
     else Inr a)"

text \<open>The action after the redirection and the gates, with its task.\<close>

definition gated_action :: "'w cont_env \<Rightarrow> dict list \<Rightarrow> judgment_output \<Rightarrow> judgment_output res" where
  "gated_action c h a = bind_res (gate_repeats c h a) (\<lambda>a1. bind_res (gate_low_increment c h a1) (\<lambda>a2.
     Inr (ensure_continue_task_id (cn_active c) h a2)))"

definition active_signals :: "task option \<Rightarrow> cog_signals \<Rightarrow> cog_signals" where
  "active_signals active g = (case active of
      None \<Rightarrow> g\<lparr>sg_active_task_id := [], sg_active_task_source := [], sg_active_task_status := [], sg_active_task_next_step := []\<rparr>
    | Some k \<Rightarrow> g\<lparr>sg_active_task_id := dec_int (t_id k), sg_active_task_source := str_or_empty (t_source k),
        sg_active_task_status := t_status k, sg_active_task_next_step := str_or_empty (t_next_step k)\<rparr>)"

definition announce :: "'w cont_env \<Rightarrow> judgment_output \<Rightarrow> 'w cont_state \<Rightarrow> unit res \<times> 'w cont_state" where
  "announce c a s =
    (if jd_decision a \<noteq> ''act'' then (Inr (), s)
     else (let (items, t) = on_act (cn_reg c) (cn_voice c) (jd_chosen_action_id a) (action_key_param (jd_params a))
         (map_option (\<lambda>k. dec_int (t_id k)) (cn_active c)) (jd_params a) (cs_tracker s)
       in then_do (add_items add_delta_item items (s\<lparr>cs_tracker := t\<rparr>)) (\<lambda>_ s1.
         (Inr (), s1\<lparr>cs_signals := map_option (apply_cognitive_probe (cs_tracker s1)) (cs_signals s1)\<rparr>))))"

text \<open>The action that is carried out: the gate of the tracker, and no action without a tool.\<close>

definition execution_choice :: "'w cont_env \<Rightarrow> judgment_output \<Rightarrow> 'w cont_state \<Rightarrow> judgment_output" where
  "execution_choice c a s = (let b = (case cs_signals s of None \<Rightarrow> a
       | Some g \<Rightarrow> apply_execution_gate (cn_reg c) (cn_voice c) (cs_tracker s) a g) in
     if jd_decision b = ''act'' \<and> jd_chosen_action_id b = [] \<and> jd_delegate_tasks b \<noteq> []
     then judgment_wait (vc_say (cn_voice c) ''delegate'' []) else b)"

definition note_result :: "'w cont_env \<Rightarrow> judgment_output \<Rightarrow> tool_result \<Rightarrow> 'w cont_state \<Rightarrow> unit res \<times> 'w cont_state" where
  "note_result c a r s = (let v = cn_voice c; tool = jd_chosen_action_id a; key = action_key_param (jd_params a);
     item = new_item v (if tool \<noteq> [] then tool else tr_kind r)
       (''['' @ tool @ (if key \<noteq> [] then ''  '' @ key else []) @ ''] '' @ tr_summary r) (tr_priority r) in
   then_do (if tr_summary r \<noteq> [] \<and> (\<not> tr_skipped r \<or> error_text r \<noteq> []) then add_delta_item item s else (Inr (), s)) (\<lambda>_ s1.
   then_do (if strip (jd_reflection a) \<noteq> []
     then add_item (new_item v ''synthesis'' (vc_say v ''synthesis'' [strip (jd_reflection a)]) (cn_pri_insight c)) s1
     else (Inr (), s1)) (\<lambda>_ s2.
   (Inr (), if jd_rationale a \<noteq> [] then s2\<lparr>cs_world := cn_record c
       (''[inner-'' @ dec_int (cs_inner s2 + 1) @ ''] '' @ jd_rationale a) (cs_world s2)\<rparr> else s2))))"

definition note_act :: "'w cont_env \<Rightarrow> judgment_output \<Rightarrow> tool_result \<Rightarrow> 'w cont_state \<Rightarrow> unit res \<times> 'w cont_state" where
  "note_act c a r s =
    (let (items, t) = (if contains (lower (error_text r)) ''oldtextnotfound''
         then on_edit_failure (cn_voice c) (error_text r) (cs_tracker s) else ([], cs_tracker s))
     in then_do (add_items add_item items (s\<lparr>cs_tracker := t\<rparr>)) (\<lambda>_ s1. (Inr (), s1\<lparr>
       cs_tracker := on_act_result (cn_reg c) (jd_chosen_action_id a) (tr_summary r) (cs_tracker s1),
       cs_history := cs_history s1 @ [tool_history_entry a r]\<rparr>)))"

datatype loop_end = Leave | Again

definition end_round :: "'w cont_env \<Rightarrow> bool \<Rightarrow> judgment_output \<Rightarrow> tool_result \<Rightarrow> 'w cont_state \<Rightarrow> loop_end res \<times> 'w cont_state" where
  "end_round c redirected a r s =
    (if jd_decision a = ''act'' \<and> (redirected \<or> is_continue_control_workbench a)
     then (Inr Leave, s\<lparr>cs_action := a, cs_result := r\<rparr>)
     else (let a' = (if jd_reply_to_user a \<noteq> [] then a\<lparr>jd_speech_intent := jd_reply_to_user a, jd_reply_to_user := []\<rparr> else a);
         s' = s\<lparr>cs_action := a', cs_result := r, cs_inner := cs_inner s + 1\<rparr>
       in (Inr (if jd_speech_intent a' \<noteq> [] \<or> \<not> should_continue_within_tick a' (cn_user_message c)
               (cn_active c \<noteq> None) (cn_reg c) (Some r) \<or> error_text r = ''PlanUnchanged'' then Leave else Again), s')))"

definition carry_out :: "'w cont_env \<Rightarrow> bool \<Rightarrow> judgment_output \<Rightarrow> 'w cont_state \<Rightarrow> loop_end res \<times> 'w cont_state" where
  "carry_out c redirected a s = then_do (call (cn_dispatch c a) s) (\<lambda>r s1. then_do (note_result c a r s1) (\<lambda>_ s2.
     then_do (if jd_decision a = ''act'' then note_act c a r s2 else (Inr (), s2)) (\<lambda>_. end_round c redirected a r)))"

definition record_round_limit :: "'w cont_env \<Rightarrow> 'w cont_state \<Rightarrow> loop_end res \<times> 'w cont_state" where
  "record_round_limit c s =
    (if cn_active c = None \<or> \<not> has_workbench c then (Inr Leave, s)
     else (let a = round_limit_action (cn_voice c) (cs_history s) (max_inner_rounds c) in
       then_do (call (cn_dispatch c a) s) (\<lambda>r s1. (Inr Leave,
         s1\<lparr>cs_history := cs_history s1 @ [tool_history_entry a r], cs_action := a, cs_result := r\<rparr>))))"

text \<open>What the model is asked with: the tier and the thinking that the last action asks for.\<close>

definition ask_model :: "'w cont_env \<Rightarrow> 'w cont_state \<Rightarrow> judgment_output res \<times> 'w cont_state" where
  "ask_model c s = (let (th, chat, auto_th) = cn_thinking c;
     thinking = resolve_thinking_override th chat auto_th (cn_user_message c) None (jd_model_strategy (cs_action s)) in
   call (cn_decide c (cs_history s) (next_initial_tier_hint (cs_action s)) thinking (cs_delta s)) s)"

definition decided_round :: "'w cont_env \<Rightarrow> 'w cont_state \<Rightarrow> loop_end res \<times> 'w cont_state" where
  "decided_round c s = (let s0 = s\<lparr>cs_history := compacted_history c (cs_history s)\<rparr> in
     then_do (ask_model c s0) (\<lambda>a0 s1. let h = cs_history s1;
       a1 = redirect_not_a_file_read_to_list (cn_reg c) (cn_voice c) h a0; redirected = is_not_a_file_redirected_list a1 h in
       then_do (gated_action c h a1, s1) (\<lambda>a2 s2. then_do (announce c a2 s2) (\<lambda>_ s3.
         let s4 = s3\<lparr>cs_signals := map_option (active_signals (cn_active c)) (cs_signals s3)\<rparr>
         in carry_out c redirected (execution_choice c a2 s4) s4))))"

definition continue_round :: "'w cont_env \<Rightarrow> 'w cont_state \<Rightarrow> loop_end res \<times> 'w cont_state" where
  "continue_round c s =
    (if 0 < max_inner_rounds c \<and> max_inner_rounds c \<le> cs_inner s then record_round_limit c s
     else if cn_pending c (cs_world s) then (Inr Leave, s)
     else decided_round c s)"

section \<open>The loop\<close>

partial_function (option) continue_loop :: "'w cont_env \<Rightarrow> 'w cont_state \<Rightarrow> (unit res \<times> 'w cont_state) option" where
  "continue_loop c s = (case continue_round c s of
      (Inl x, s') \<Rightarrow> Some (Inl x, s')
    | (Inr Leave, s') \<Rightarrow> Some (Inr (), s')
    | (Inr Again, s') \<Rightarrow> continue_loop c s')"

definition run_continue_phase :: "'w cont_env \<Rightarrow> 'w cont_state \<Rightarrow> (unit res \<times> 'w cont_state) option" where
  "run_continue_phase c s = (case continue_loop c (s\<lparr>cs_delta := [], cs_inner := 0\<rparr>) of
      Some (Inr _, s') \<Rightarrow> Some (call (cn_reconcile c) s')
    | other \<Rightarrow> other)"

section \<open>What a round keeps\<close>

text \<open>The parts of the state that only the end of a round changes, and the history.\<close>

definition round_frame :: "'w cont_state \<Rightarrow> int \<times> judgment_output \<times> tool_result \<times> dict list" where
  "round_frame s = (cs_inner s, cs_action s, cs_result s, cs_history s)"

lemma round_frame_updates [simp]:
  "round_frame (s\<lparr>cs_wm := m\<rparr>) = round_frame s" "round_frame (s\<lparr>cs_delta := d\<rparr>) = round_frame s"
  "round_frame (s\<lparr>cs_tracker := t\<rparr>) = round_frame s" "round_frame (s\<lparr>cs_signals := g\<rparr>) = round_frame s"
  "round_frame (s\<lparr>cs_world := w\<rparr>) = round_frame s"
  by (simp_all add: round_frame_def)

lemma frame_add_item [simp]: "round_frame (snd (add_item i s)) = round_frame s"
  by (simp add: add_item_def split: prod.split)

lemma frame_add_delta_item [simp]: "round_frame (snd (add_delta_item i s)) = round_frame s"
  using frame_add_item [of i s] by (cases "add_item i s"; cases "fst (add_item i s)") (auto simp: add_delta_item_def)

lemma frame_add_items:
  assumes "\<And>i s. round_frame (snd (add i s)) = round_frame s"
  shows "round_frame (snd (add_items add is s)) = round_frame s"
proof (induction "is" arbitrary: s)
  case (Cons i "is")
  show ?case using assms [of i s] Cons [of "snd (add i s)"]
    by (cases "add i s"; cases "fst (add i s)") auto
qed simp

lemmas frame_added [simp] = frame_add_items [of add_item, OF frame_add_item] frame_add_items [of add_delta_item, OF frame_add_delta_item]

lemma frame_call [simp]: "round_frame (snd (call f s)) = round_frame s"
  by (simp add: call_def split: prod.split)

lemma frame_then_do:
  assumes "round_frame (snd m) = F" "\<And>a t. m = (Inr a, t) \<Longrightarrow> round_frame t = F \<Longrightarrow> round_frame (snd (f a t)) = F"
  shows "round_frame (snd (then_do m f)) = F"
  using assms by (cases m; cases "fst m") auto

lemma frame_announce [simp]: "round_frame (snd (announce c a s)) = round_frame s"
  by (auto simp: announce_def split: prod.split intro!: frame_then_do)

lemma frame_note_result [simp]: "round_frame (snd (note_result c a r s)) = round_frame s"
  by (auto simp: note_result_def Let_def intro!: frame_then_do)

lemma frame_ask_model [simp]: "round_frame (snd (ask_model c s)) = round_frame s"
  by (simp add: ask_model_def split: prod.split)

lemma frame_note_act:
  "note_act c a r s = (Inr u, s') \<Longrightarrow> cs_inner s' = cs_inner s \<and> cs_history s' = cs_history s @ [tool_history_entry a r]"
proof -
  assume n: "note_act c a r s = (Inr u, s')"
  obtain ws t where it: "(if contains (lower (error_text r)) ''oldtextnotfound''
      then on_edit_failure (cn_voice c) (error_text r) (cs_tracker s) else ([], cs_tracker s)) = (ws, t)" by fastforce
  from n it obtain x s1 where a: "add_items add_item ws (s\<lparr>cs_tracker := t\<rparr>) = (Inr x, s1)" and s': "s' = s1\<lparr>
      cs_tracker := on_act_result (cn_reg c) (jd_chosen_action_id a) (tr_summary r) (cs_tracker s1),
      cs_history := cs_history s1 @ [tool_history_entry a r]\<rparr>"
    by (auto simp: note_act_def elim!: then_do_cases)
  have "round_frame s1 = round_frame s"
    using frame_added(1) [of ws "s\<lparr>cs_tracker := t\<rparr>"] a by simp
  then show ?thesis using s' by (simp add: round_frame_def)
qed

text \<open>A round that ends regularly after it carried out an action.\<close>

lemma carry_out_ends:
  assumes "carry_out c redirected a s = (Inr l, s')"
  obtains r w w' s1 where "cn_dispatch c a w = (Inr r, w')" and "end_round c redirected a r s1 = (Inr l, s')"
    and "cs_inner s1 = cs_inner s"
    and "cs_history s1 = cs_history s @ (if jd_decision a = ''act'' then [tool_history_entry a r] else [])"
proof -
  from assms obtain r t where d: "call (cn_dispatch c a) s = (Inr r, t)"
    and rest: "then_do (note_result c a r t) (\<lambda>_ s2. then_do (if jd_decision a = ''act'' then note_act c a r s2 else (Inr (), s2))
      (\<lambda>_. end_round c redirected a r)) = (Inr l, s')"
    by (auto simp: carry_out_def elim!: then_do_cases)
  from d have disp: "cn_dispatch c a (cs_world s) = (Inr r, cs_world t)"
    by (auto simp: call_def split: prod.splits)
  have t: "round_frame t = round_frame s" using frame_call [of "cn_dispatch c a" s] d by simp
  from rest obtain u s2 where n: "note_result c a r t = (Inr u, s2)"
    and rest2: "then_do (if jd_decision a = ''act'' then note_act c a r s2 else (Inr (), s2)) (\<lambda>_. end_round c redirected a r) = (Inr l, s')"
    by (auto elim!: then_do_cases)
  have s2: "round_frame s2 = round_frame s" using frame_note_result [of c a r t] n t by simp
  from rest2 obtain u' s3 where a: "(if jd_decision a = ''act'' then note_act c a r s2 else (Inr (), s2)) = (Inr u', s3)"
    and e: "end_round c redirected a r s3 = (Inr l, s')" by (auto elim!: then_do_cases)
  have "cs_inner s3 = cs_inner s \<and> cs_history s3 = cs_history s @ (if jd_decision a = ''act'' then [tool_history_entry a r] else [])"
    using a s2 frame_note_act [of c a r s2 u' s3] by (auto simp: round_frame_def split: if_splits)
  then show ?thesis using that disp e by blast
qed

lemma decided_round_ends:
  assumes "decided_round c s = (Inr l, s')"
  defines "h \<equiv> compacted_history c (cs_history s)"
  obtains a0 w0 w1 a1 a2 s4 b r w w' s5 where "cn_decide c h (next_initial_tier_hint (cs_action s))
      (case cn_thinking c of (th, chat, auto_th) \<Rightarrow> resolve_thinking_override th chat auto_th (cn_user_message c) None
        (jd_model_strategy (cs_action s))) (cs_delta s) w0 = (Inr a0, w1)"
    and "a1 = redirect_not_a_file_read_to_list (cn_reg c) (cn_voice c) h a0" and "gated_action c h a1 = Inr a2"
    and "b = execution_choice c a2 s4" and "cn_dispatch c b w = (Inr r, w')"
    and "end_round c (is_not_a_file_redirected_list a1 h) b r s5 = (Inr l, s')"
    and "cs_inner s5 = cs_inner s" and "cs_history s5 = h @ (if jd_decision b = ''act'' then [tool_history_entry b r] else [])"
proof -
  let ?s0 = "s\<lparr>cs_history := h\<rparr>"
  from assms(1) obtain a0 s1 where ask: "ask_model c ?s0 = (Inr a0, s1)"
    and rest: "(let h' = cs_history s1; a1 = redirect_not_a_file_read_to_list (cn_reg c) (cn_voice c) h' a0;
         redirected = is_not_a_file_redirected_list a1 h' in
       then_do (gated_action c h' a1, s1) (\<lambda>a2 s2. then_do (announce c a2 s2) (\<lambda>_ s3.
         let s4 = s3\<lparr>cs_signals := map_option (active_signals (cn_active c)) (cs_signals s3)\<rparr>
         in carry_out c redirected (execution_choice c a2 s4) s4))) = (Inr l, s')"
    by (auto simp: decided_round_def h_def Let_def elim!: then_do_cases)
  have s1: "round_frame s1 = round_frame ?s0" using frame_ask_model [of c ?s0] ask by simp
  then have h: "cs_history s1 = h" by (simp add: round_frame_def)
  from ask have dec: "cn_decide c h (next_initial_tier_hint (cs_action s))
      (case cn_thinking c of (th, chat, auto_th) \<Rightarrow> resolve_thinking_override th chat auto_th (cn_user_message c) None
        (jd_model_strategy (cs_action s))) (cs_delta s) (cs_world s) = (Inr a0, cs_world s1)"
    by (auto simp: ask_model_def call_def split: prod.splits)
  define a1 where "a1 = redirect_not_a_file_read_to_list (cn_reg c) (cn_voice c) h a0"
  let ?go = "\<lambda>a2 s3. let s4 = s3\<lparr>cs_signals := map_option (active_signals (cn_active c)) (cs_signals s3)\<rparr>
    in carry_out c (is_not_a_file_redirected_list a1 h) (execution_choice c a2 s4) s4"
  have "then_do (gated_action c h a1, s1) (\<lambda>a2 s2. then_do (announce c a2 s2) (\<lambda>_. ?go a2)) = (Inr l, s')"
    using rest unfolding Let_def h a1_def .
  then obtain a2 where g: "gated_action c h a1 = Inr a2"
    and go: "then_do (announce c a2 s1) (\<lambda>_. ?go a2) = (Inr l, s')"
    by (blast dest: then_do_pure)
  from go obtain u s3 where an: "announce c a2 s1 = (Inr u, s3)" and co: "?go a2 s3 = (Inr l, s')"
    by (blast dest: then_do_regular)
  let ?s4 = "s3\<lparr>cs_signals := map_option (active_signals (cn_active c)) (cs_signals s3)\<rparr>"
  have "round_frame ?s4 = round_frame ?s0" using frame_announce [of c a2 s1] an s1 by simp
  then have fr: "cs_inner ?s4 = cs_inner s" "cs_history ?s4 = h" by (simp_all add: round_frame_def)
  obtain r w w' s5 where e: "cn_dispatch c (execution_choice c a2 ?s4) w = (Inr r, w')"
    "end_round c (is_not_a_file_redirected_list a1 h) (execution_choice c a2 ?s4) r s5 = (Inr l, s')"
    "cs_inner s5 = cs_inner ?s4"
    "cs_history s5 = cs_history ?s4 @ (if jd_decision (execution_choice c a2 ?s4) = ''act''
       then [tool_history_entry (execution_choice c a2 ?s4) r] else [])"
    by (rule carry_out_ends [OF co [unfolded Let_def]])
  show ?thesis
    by (rule that [OF dec a1_def g refl e(1,2)]) (use e(3,4) fr in simp_all)
qed

section \<open>The loop ends when rounds are limited\<close>

lemma again_counts:
  assumes "continue_round c s = (Inr Again, s')"
  shows "cs_inner s' = cs_inner s + 1 \<and> \<not> (0 < max_inner_rounds c \<and> max_inner_rounds c \<le> cs_inner s)"
proof -
  have lim: "\<not> (0 < max_inner_rounds c \<and> max_inner_rounds c \<le> cs_inner s)"
    using assms by (auto simp: continue_round_def record_round_limit_def Let_def split: if_splits elim!: then_do_cases)
  then have "decided_round c s = (Inr Again, s')"
    using assms by (auto simp: continue_round_def split: if_splits)
  then show ?thesis
    using lim by (rule_tac decided_round_ends) (auto simp: end_round_def Let_def split: if_splits)
qed

text \<open>C16: 
  With a limit on the rounds of a tick the inner loop returns, whatever the model decides and the
  tools do: it goes on at most as often as the limit says.
\<close>

theorem continue_phase_ends:
  assumes "0 < th_max_inner_rounds (cn_thresholds c)"
  shows "\<exists>r s'. run_continue_phase c s = Some (r, s')"
proof -
  have lim: "0 < max_inner_rounds c" using assms by (simp add: max_inner_rounds_def)
  have "\<exists>r s'. continue_loop c s = Some (r, s')" for s
  proof (induction "nat (max_inner_rounds c - cs_inner s)" arbitrary: s rule: less_induct)
    case less
    obtain l s' where round: "continue_round c s = (l, s')" by fastforce
    show ?case
    proof (cases "l = Inr Again")
      case True
      with round again_counts [of c s s'] lim
      have "cs_inner s' = cs_inner s + 1" "cs_inner s < max_inner_rounds c" by auto
      then have "nat (max_inner_rounds c - cs_inner s') < nat (max_inner_rounds c - cs_inner s)" by simp
      from less [OF this] show ?thesis using round True by (subst continue_loop.simps) simp
    next
      case False
      then show ?thesis
        using round by (subst continue_loop.simps) (auto split: sum.split loop_end.split)
    qed
  qed
  from this [of "s\<lparr>cs_delta := [], cs_inner := 0\<rparr>"] obtain r s'
    where "continue_loop c (s\<lparr>cs_delta := [], cs_inner := 0\<rparr>) = Some (r, s')" by blast
  then show ?thesis
    by (cases r; cases "call (cn_reconcile c) s'") (simp_all add: run_continue_phase_def)
qed

section \<open>The budget of look-ups\<close>

lemma workbench_not_look_up: "''task.workbench'' \<notin> set low_increment_continue_tools" "[] \<notin> set low_increment_continue_tools"
  by (simp_all add: low_increment_continue_tools_def)

lemma gate_tool_workbench [simp]:
  "jd_chosen_action_id (workbench_gate v name d ne nc args nv rec nx a) = ''task.workbench''"
  by (simp add: workbench_gate_def build_workbench_action_def)

lemma gate_repeats_look_up:
  assumes "gate_repeats c h a = Inr b" "jd_chosen_action_id b \<in> set low_increment_continue_tools"
  shows "b = a"
  using assms
  by (cases "trailing_same_action_count h (jd_chosen_action_id a) (action_key_param (jd_params a))")
    (auto simp: gate_repeats_def action_history_key_def repeat_workbench_action_def workbench_not_look_up Let_def split: if_splits)

lemma gate_low_look_up:
  assumes "gate_low_increment c h a = Inr b" "jd_chosen_action_id b \<in> set low_increment_continue_tools" "jd_decision b = ''act''"
    and "has_workbench c" "low_increment_history_count h = Inr n" "low_increment_budget c \<le> n"
  shows "b = a \<and> is_not_a_file_redirected_list a h"
  using assms by (auto simp: gate_low_increment_def low_increment_workbench_action_def workbench_not_look_up Let_def split: if_splits)

lemma ensure_look_up:
  assumes "ensure_continue_task_id active h a = b" "jd_chosen_action_id b \<in> set low_increment_continue_tools"
  shows "b = a"
proof -
  have "set task_scoped_continue_tools \<inter> set low_increment_continue_tools = {}"
    by (simp add: task_scoped_continue_tools_def low_increment_continue_tools_def)
  then show ?thesis
    using assms by (auto simp: ensure_continue_task_id_def Let_def split: if_splits option.splits)
qed

lemma execution_choice_look_up:
  assumes "jd_chosen_action_id (execution_choice c a s) \<in> set low_increment_continue_tools"
  shows "execution_choice c a s = a"
proof (cases "cs_signals s")
  case None
  then show ?thesis
    using assms by (auto simp: execution_choice_def judgment_wait_def blank_judgment_def workbench_not_look_up split: if_splits)
next
  case (Some g)
  let ?b = "apply_execution_gate (cn_reg c) (cn_voice c) (cs_tracker s) a g"
  have b: "jd_chosen_action_id ?b \<in> set low_increment_continue_tools" and e: "execution_choice c a s = ?b"
    using assms Some by (auto simp: execution_choice_def judgment_wait_def blank_judgment_def workbench_not_look_up Let_def split: if_splits)
  from gate_replaces [of "cn_reg c" "cn_voice c" "cs_tracker s" a g] show ?thesis
    using b e by (auto dest!: replacement_tool simp: workbench_not_look_up)
qed

lemma gated_look_up:
  assumes "gated_action c h a = Inr b" "jd_chosen_action_id b \<in> set low_increment_continue_tools" "jd_decision b = ''act''"
    and "has_workbench c" "low_increment_history_count h = Inr n" "low_increment_budget c \<le> n"
  shows "b = a \<and> is_not_a_file_redirected_list a h"
proof -
  from assms(1) obtain a1 a2 where g: "gate_repeats c h a = Inr a1" "gate_low_increment c h a1 = Inr a2"
    and b: "b = ensure_continue_task_id (cn_active c) h a2"
    by (cases "gate_repeats c h a"; cases "gate_low_increment c h (projr (gate_repeats c h a))") (auto simp: gated_action_def)
  from ensure_look_up [OF b [symmetric] assms(2)] have a2: "b = a2" .
  with gate_low_look_up [OF g(2)] assms have "a2 = a1" "is_not_a_file_redirected_list a1 h" by auto
  with gate_repeats_look_up [OF g(1)] a2 assms(2) show ?thesis by auto
qed


section \<open>The history stays short\<close>

lemma length_compact_tool_history:
  "length (compact_tool_history v k h) = (if length h \<le> nat (max 1 k) then length h else nat (max 1 k) + 1)"
  by (auto simp: compact_tool_history_def Let_def)

text \<open>
  The history the model is shown in a round is never longer than one below the threshold of
  compaction, or than the entries that are kept and their summary, however long it has become.
\<close>

theorem shown_history_bounded:
  "int (length (compacted_history c h)) \<le> max (max 1 (th_compact_threshold (cn_thresholds c)) - 1)
     (max 1 (th_keep_last (cn_thresholds c)) + 1)"
  by (auto simp: compacted_history_def tool_history_compact_limits_def length_compact_tool_history Let_def)

text \<open>What the budget sees after a long history was cut: only the entries that were kept.\<close>

lemma low_count_append:
  "low_increment_history_count (h @ h') = bind_res (low_increment_history_count h) (\<lambda>n.
     bind_res (low_increment_history_count h') (\<lambda>m. Inr (n + m)))"
proof (induction h)
  case Nil
  then show ?case by (cases "low_increment_history_count h'") auto
next
  case (Cons e h)
  then show ?case
    by (cases "low_increment_weight e"; cases "low_increment_history_count h"; cases "low_increment_history_count h'") auto
qed

lemma cut_history_forgets:
  assumes "nat (max 1 k) < length h"
  shows "low_increment_history_count (compact_tool_history v k h) =
    low_increment_history_count (drop (length h - nat (max 1 k)) h)"
  using assms
  by (cases "low_increment_history_count (drop (length h - nat (max 1 k)) h)")
    (auto simp: compact_tool_history_def low_increment_weight_def low_increment_continue_tools_def Let_def)

section \<open>Without a limit the gates do not end the loop\<close>

text \<open>A model that searches and writes by turns, for a task, under the default thresholds.\<close>

definition turn_tool :: "bool \<Rightarrow> string" where
  "turn_tool w = (if w then ''web.search'' else ''file.write'')"

definition two_tools :: registry where
  "two_tools name = (if name \<in> {''task.workbench'', ''web.search'', ''file.write''} then
     Some \<lparr>tm_name = name, tm_params = [], tm_prefer_tier = [], tm_progress_category = [], tm_capabilities = []\<rparr> else None)"

definition alternating :: "task \<Rightarrow> bool cont_env" where
  "alternating k = \<lparr>cn_reg = two_tools, cn_voice = demo_voice, cn_user_message = [], cn_active = Some k,
     cn_thresholds = \<lparr>th_compact_threshold = 6, th_keep_last = 3, th_max_inner_rounds = 0, th_low_budget = PNone,
       th_behavior_streak = 3\<rparr>,
     cn_thinking = ([], [], []), cn_pri_insight = 0,
     cn_decide = (\<lambda>h tier th delta w. (Inr (demo_act (turn_tool w) []), \<not> w)),
     cn_dispatch = (\<lambda>a w. (Inr (plain_result []), w)), cn_pending = (\<lambda>w. False), cn_record = (\<lambda>t w. w),
     cn_reconcile = (\<lambda>w. (Inr (), w))\<rparr>"

lemma turn_tool_facts [simp]:
  "turn_tool w \<notin> set repeat_compact_tools" "turn_tool w \<notin> set low_increment_continue_tools"
  "turn_tool w \<notin> set task_scoped_continue_tools" "turn_tool w \<noteq> []" "turn_tool w \<noteq> ''task.workbench''"
  "turn_tool w \<noteq> ''[repeat-compacted]''" "\<not> startswith (turn_tool w) ''[''" "turn_tool w \<noteq> ''file.read''"
  "turn_tool w \<noteq> ''file.list''" "turn_tool w \<noteq> ''task.complete''" "turn_tool w \<noteq> ''task.fail''"
  "turn_tool (\<not> w) \<noteq> turn_tool w" "\<not> tool_has_capability two_tools (turn_tool w) cap"
  by (auto simp: turn_tool_def repeat_compact_tools_def low_increment_continue_tools_def task_scoped_continue_tools_def
      startswith_def tool_has_capability_def two_tools_def)

definition turn_entry :: "dict \<Rightarrow> bool" where
  "turn_entry e \<longleftrightarrow> entry_tool e \<in> {''[compacted]'', turn_tool True, turn_tool False}"

lemma turn_entry_unsigned: "turn_entry e \<Longrightarrow> repeat_history_signature e = []"
  using turn_tool_facts(1) by (auto simp: turn_entry_def repeat_history_signature_def Let_def compacted_tool_not_compactable)

text \<open>The state before the model is asked and answers with the tool of \<open>w\<close>; the last action used the other.\<close>

definition turn_ready :: "'w cont_state \<Rightarrow> bool \<Rightarrow> bool" where
  "turn_ready s w \<longleftrightarrow> (\<forall>e \<in> set (cs_history s). turn_entry e) \<and> cs_history s \<noteq> [] \<and>
     entry_tool (last (cs_history s)) = turn_tool (\<not> w) \<and>
     bt_threshold (cs_tracker s) = 3 \<and> (turn_tool (\<not> w), []) = last (bt_recent_actions (cs_tracker s)) \<and>
     bt_recent_actions (cs_tracker s) \<noteq> [] \<and> bt_action_sig (cs_tracker s) = Some (turn_tool (\<not> w), []) \<and>
     bt_read_count (cs_tracker s) = 0 \<and> bt_list_count (cs_tracker s) = 0 \<and>
     (\<forall>g. cs_signals s = Some g \<longrightarrow> sg_last_action_progressful g = None)"

lemma compacted_turns:
  assumes "\<forall>e \<in> set h. turn_entry e" "h \<noteq> []"
  shows "\<forall>e \<in> set (compacted_history c h). turn_entry e" "compacted_history c h \<noteq> []" "last (compacted_history c h) = last h"
proof -
  have r: "compact_repeated_tool_history v h = h" for v
    using assms(1) by (auto simp: compact_repeated_tool_history_def is_repeated_def turn_entry_unsigned)
  show "\<forall>e \<in> set (compacted_history c h). turn_entry e"
    using assms by (auto simp: compacted_history_def r compact_tool_history_def turn_entry_def Let_def
        dest: in_set_dropD split: prod.split)
  show "compacted_history c h \<noteq> []" "last (compacted_history c h) = last h"
    using assms by (auto simp: compacted_history_def r compact_tool_history_def Let_def last_drop split: prod.split)
qed

lemma no_params_key [simp]: "action_key_param [] = []"
  by (simp add: key_eval)

lemma demo_act_fields [simp]:
  "jd_decision (demo_act t p) = ''act''" "jd_chosen_action_id (demo_act t p) = t" "jd_params (demo_act t p) = p"
  "jd_rationale (demo_act t p) = []" "jd_reflection (demo_act t p) = []" "jd_reply_to_user (demo_act t p) = []"
  "jd_speech_intent (demo_act t p) = []"
  by (simp_all add: demo_act_def blank_judgment_def)

lemma turn_passes_gates:
  assumes "h \<noteq> []" "entry_tool (last h) = turn_tool (\<not> w)"
  shows "gated_action (alternating k) h (redirect_not_a_file_read_to_list two_tools demo_voice h (demo_act (turn_tool w) [])) =
      Inr (demo_act (turn_tool w) [])"
    and "\<not> is_not_a_file_redirected_list (redirect_not_a_file_read_to_list two_tools demo_voice h (demo_act (turn_tool w) [])) h"
proof -
  have "trailing_same_action_count h (turn_tool w) [] = Inr 0"
    using assms turn_tool_facts(12) [of w] turn_tool_facts(6,7) [of "\<not> w"]
    by (cases h rule: rev_cases) (simp_all add: trailing_same_action_count_def Let_def)
  then show "gated_action (alternating k) h (redirect_not_a_file_read_to_list two_tools demo_voice h (demo_act (turn_tool w) [])) =
      Inr (demo_act (turn_tool w) [])"
    by (simp add: gated_action_def redirect_not_a_file_read_to_list_def gate_repeats_def action_history_key_def
        continue_repeat_threshold_def alternating_def gate_low_increment_def ensure_continue_task_id_def)
  show "\<not> is_not_a_file_redirected_list (redirect_not_a_file_read_to_list two_tools demo_voice h (demo_act (turn_tool w) [])) h"
    by (simp add: redirect_not_a_file_read_to_list_def is_not_a_file_redirected_list_def)
qed

lemma push_two:
  assumes "xs \<noteq> []"
  shows "\<exists>ys. push_bounded 3 x xs = ys @ [last xs, x]"
proof (cases xs rule: rev_cases)
  case (snoc zs l)
  have "push_bounded 3 x (zs @ [l]) = drop (length zs - 1) zs @ [l, x]"
    by (simp add: push_bounded_def slice_last_def)
  then show ?thesis using snoc by auto
qed (use assms in simp)

lemma turn_announced:
  assumes "bt_threshold t = 3" "bt_recent_actions t \<noteq> []" "last (bt_recent_actions t) = (turn_tool (\<not> w), [])"
    "bt_action_sig t = Some (turn_tool (\<not> w), [])" "tid \<noteq> []"
  shows "\<exists>t'. on_act two_tools v (turn_tool w) [] (Some tid) [] t = ([], t') \<and> bt_threshold t' = 3 \<and>
     bt_recent_actions t' \<noteq> [] \<and> last (bt_recent_actions t') = (turn_tool w, []) \<and>
     bt_action_sig t' = Some (turn_tool w, []) \<and> bt_action_count t' = 1 \<and>
     bt_read_count t' = bt_read_count t \<and> bt_list_count t' = bt_list_count t"
proof -
  obtain ys where ys: "push_bounded 3 (turn_tool w, []) (bt_recent_actions t) = ys @ [(turn_tool (\<not> w), []), (turn_tool w, [])]"
    using push_two [OF assms(2), of "(turn_tool w, [])"] assms(3) by auto
  have "\<not> all_same 3 (ys @ [(turn_tool (\<not> w), []), (turn_tool w, [] :: string)])"
    using turn_tool_facts(12) [of w] not_sym [OF turn_tool_facts(12) [of w]]
    by (auto simp: all_same_def card_1_singleton_iff)
  then show ?thesis
    using assms turn_tool_facts(12) [of w] by (simp add: on_act_def effective_key_def ys Let_def)
qed

lemma turn_gate:
  assumes "bt_action_count t = 1" "bt_threshold t = 3" "bt_read_count t = 0" "bt_list_count t = 0"
    "sg_last_action_progressful g = None"
  shows "apply_execution_gate two_tools v t (demo_act (turn_tool w) []) (active_signals active (apply_cognitive_probe t g)) =
    demo_act (turn_tool w) []"
proof (rule gate_is_identity)
  show "repeat_gate two_tools v (bt_threshold t) (demo_act (turn_tool w) [])
      (active_signals active (apply_cognitive_probe t g)) = None"
    using assms by (cases active) (simp_all add: repeat_gate_def active_signals_def apply_cognitive_probe_def)
qed (use assms in \<open>cases active; simp add: active_signals_def apply_cognitive_probe_def\<close>)+

lemma turn_entry_demo: "entry_tool (tool_history_entry (demo_act t p) r) = t"
  by (simp add: entry_tool_def tool_history_entry_def dict_get_def str_or_empty_def py_or_def Let_def)

lemma turn_carried_out:
  fixes s :: "bool cont_state"
  assumes "bt_action_count (cs_tracker s) = 1"
  shows "\<exists>s'. carry_out (alternating k) False (demo_act (turn_tool w) []) s = (Inr Again, s') \<and>
     cs_history s' = cs_history s @ [tool_history_entry (demo_act (turn_tool w) []) (plain_result [])] \<and>
     cs_tracker s' = on_act_result two_tools (turn_tool w) [] (cs_tracker s) \<and> cs_signals s' = cs_signals s \<and>
     cs_world s' = cs_world s"
proof -
  have e: "error_text (plain_result []) = []" "tr_summary (plain_result []) = []" "\<not> tr_skipped (plain_result [])"
    by (simp_all add: plain_result_def error_text_def)
  have go: "should_continue_within_tick (demo_act (turn_tool w) []) [] True two_tools (Some (plain_result []))"
    by (simp add: should_continue_within_tick_def e)
  show ?thesis
    by (simp add: carry_out_def alternating_def call_def note_result_def note_act_def end_round_def e go strip_def lstrip_def
        is_continue_control_workbench_def Let_def lower_def)
qed

lemma on_act_result_keeps [simp]:
  "bt_recent_actions (on_act_result reg tool r t) = bt_recent_actions t"
  "bt_read_count (on_act_result reg tool r t) = bt_read_count t"
  "bt_list_count (on_act_result reg tool r t) = bt_list_count t"
  by (simp_all add: on_act_result_def Let_def)

lemma turn_round:
  fixes s :: "bool cont_state"
  assumes "turn_ready s (cs_world s)"
  shows "\<exists>s'. continue_round (alternating k) s = (Inr Again, s') \<and> turn_ready s' (cs_world s')"
proof -
  let ?c = "alternating k" and ?w = "cs_world s"
  let ?h = "compacted_history ?c (cs_history s)" and ?a = "demo_act (turn_tool ?w) []"
  have inv: "\<forall>e \<in> set (cs_history s). turn_entry e" "cs_history s \<noteq> []" "entry_tool (last (cs_history s)) = turn_tool (\<not> ?w)"
    using assms by (simp_all add: turn_ready_def)
  note h = compacted_turns [OF inv(1,2), of ?c]
  define s1 where "s1 = s\<lparr>cs_history := ?h, cs_world := \<not> ?w\<rparr>"
  have ask: "ask_model ?c (s\<lparr>cs_history := ?h\<rparr>) = (Inr ?a, s1)"
    by (simp add: ask_model_def alternating_def call_def s1_def)
  obtain t where t: "on_act two_tools demo_voice (turn_tool ?w) [] (Some (dec_int (t_id k))) [] (cs_tracker s) = ([], t)"
    "bt_threshold t = 3" "bt_recent_actions t \<noteq> []" "last (bt_recent_actions t) = (turn_tool ?w, [])"
    "bt_action_sig t = Some (turn_tool ?w, [])" "bt_action_count t = 1" "bt_read_count t = 0" "bt_list_count t = 0"
    using turn_announced [of "cs_tracker s" ?w "dec_int (t_id k)" demo_voice] assms dec_int_nonempty
    by (auto simp: turn_ready_def)
  define s4 where "s4 = s1\<lparr>cs_tracker := t, cs_signals := map_option (active_signals (Some k))
     (map_option (apply_cognitive_probe t) (cs_signals s))\<rparr>"
  have an: "announce ?c ?a s1 = (Inr (), s1\<lparr>cs_tracker := t, cs_signals := map_option (apply_cognitive_probe t) (cs_signals s)\<rparr>)"
    using t(1) by (simp add: announce_def alternating_def s1_def)
  have ex: "execution_choice ?c ?a s4 = ?a"
    using turn_gate [OF t(6,2,7,8)] assms
    by (cases "cs_signals s") (auto simp: execution_choice_def alternating_def s4_def turn_ready_def)
  obtain s' where c: "carry_out ?c False ?a s4 = (Inr Again, s')"
    "cs_history s' = ?h @ [tool_history_entry ?a (plain_result [])]"
    "cs_tracker s' = on_act_result two_tools (turn_tool ?w) [] t" "cs_signals s' = cs_signals s4" "cs_world s' = (\<not> ?w)"
    using turn_carried_out [of s4 k ?w] t(6) by (auto simp: s4_def s1_def)
  note g = turn_passes_gates(1) [of ?h ?w k, OF h(2)] turn_passes_gates(2) [of ?h ?w, OF h(2)]
  have "decided_round ?c s = (Inr Again, s')"
    using ask an ex c(1) g h(3) inv(3)
    by (simp add: decided_round_def Let_def s1_def s4_def) (simp add: alternating_def)
  then have "continue_round ?c s = (Inr Again, s')"
    by (simp add: continue_round_def) (simp add: alternating_def max_inner_rounds_def)
  moreover have "turn_ready s' (cs_world s')"
    using c(2-5) t h(1) assms
    by (auto simp: turn_ready_def turn_entry_def turn_entry_demo turn_tool_def s4_def active_signals_def
        apply_cognitive_probe_def)
  ultimately show ?thesis by blast
qed


section \<open>Examples\<close>

theorem continue_phase_ends_witness:
  "\<forall>k (s :: bool cont_state). \<exists>r s'. run_continue_phase ((alternating k)\<lparr>cn_thresholds := \<lparr>th_compact_threshold = 6,
     th_keep_last = 3, th_max_inner_rounds = 4, th_low_budget = PNone, th_behavior_streak = 3\<rparr>\<rparr>) s = Some (r, s')"
  using continue_phase_ends [where c = "(alternating k)\<lparr>cn_thresholds := \<lparr>th_compact_threshold = 6,
     th_keep_last = 3, th_max_inner_rounds = 4, th_low_budget = PNone, th_behavior_streak = 3\<rparr>\<rparr>" for k]
  by simp

text \<open>A path was read twice and is not a file; the model wants to read it again, and it is listed instead.\<close>

definition list_registry :: registry where
  "list_registry name = (if name \<in> {''task.workbench'', ''file.list'', ''file.read''} then
     Some \<lparr>tm_name = name, tm_params = [], tm_prefer_tier = [], tm_progress_category = [], tm_capabilities = []\<rparr> else None)"

definition not_file_entry :: dict where
  "not_file_entry = tool_history_entry (demo_act ''file.read'' [(''path'', PStr ''d'')])
     ((plain_result ''d'')\<lparr>tr_error := Some ''NotAFile''\<rparr>)"

definition reading_again :: "unit cont_env" where
  "reading_again = \<lparr>cn_reg = list_registry, cn_voice = demo_voice, cn_user_message = ''hi'', cn_active = None,
     cn_thresholds = \<lparr>th_compact_threshold = 6, th_keep_last = 3, th_max_inner_rounds = 0, th_low_budget = PNone,
       th_behavior_streak = 3\<rparr>,
     cn_thinking = ([], [], []), cn_pri_insight = 0,
     cn_decide = (\<lambda>h tier th delta w. (Inr (demo_act ''file.read'' [(''path'', PStr ''d'')]), w)),
     cn_dispatch = (\<lambda>a w. (Inr (plain_result []), w)), cn_pending = (\<lambda>w. False), cn_record = (\<lambda>t w. w),
     cn_reconcile = (\<lambda>w. (Inr (), w))\<rparr>"

definition read_twice :: "unit cont_state" where
  "read_twice = \<lparr>cs_history = [not_file_entry, not_file_entry], cs_wm = new_wm 10 0 0, cs_delta = [],
     cs_tracker = new_tracker [] 3, cs_signals = None, cs_action = blank_judgment, cs_result = plain_result [],
     cs_inner = 0, cs_world = ()\<rparr>"

lemma not_file_entry_simps [simp]:
  "entry_tool not_file_entry = ''file.read''" "entry_dict not_file_entry ''params'' = [(''path'', PStr ''d'')]"
  "repeat_history_signature not_file_entry = []"
  "not_a_file_failure ''d'' (not_file_entry # h)"
  by (simp_all add: not_file_entry_def tool_history_entry_def entry_tool_def entry_dict_def dict_get_def dict_field_def
      str_or_empty_def py_or_def plain_result_def error_text_def repeat_history_signature_def repeat_compact_tools_def
      lower_def lower_char_def char_of_def bit_0 Let_def)

lemma read_twice_history: "compacted_history reading_again (cs_history read_twice) = [not_file_entry, not_file_entry]"
  by (simp add: compacted_history_def compact_repeated_tool_history_def is_repeated_def read_twice_def reading_again_def
      tool_history_compact_limits_def)

lemma read_twice_round: "\<exists>s'. decided_round reading_again read_twice = (Inr Leave, s') \<and>
    jd_decision (cs_action s') = ''act'' \<and> jd_chosen_action_id (cs_action s') = ''file.list''"
proof -
  let ?h = "[not_file_entry, not_file_entry]"
  let ?a = "redirect_not_a_file_read_to_list list_registry demo_voice ?h (demo_act ''file.read'' [(''path'', PStr ''d'')])"
  have path: "action_path (demo_act ''file.read'' [(''path'', PStr ''d'')]) = ''d''"
    by (simp add: action_path_def dict_get_def str_or_empty_def py_or_def strip_def lstrip_def is_space_def)
  have f: "history_has_not_a_file_failure ?h ''d''" by (simp add: history_has_not_a_file_failure_def del: not_a_file_failure.simps)
  then have a: "jd_decision ?a = ''act''" "jd_chosen_action_id ?a = ''file.list''" "jd_reply_to_user ?a = []"
    "jd_delegate_tasks ?a = []" "jd_reflection ?a = []" "jd_rationale ?a = ''redirect''" "action_path ?a = ''d''"
    by (simp_all add: redirect_not_a_file_read_to_list_def path registry_has_tool_def list_registry_def blank_judgment_def
        demo_voice_def)
      (simp add: action_path_def dict_get_def str_or_empty_def py_or_def strip_def lstrip_def is_space_def)
  with f have red: "is_not_a_file_redirected_list ?a ?h" by (simp add: is_not_a_file_redirected_list_def)
  have "gated_action reading_again ?h ?a = Inr ?a"
    using a red by (simp add: gated_action_def gate_repeats_def gate_low_increment_def action_history_key_def
        trailing_same_action_count_def startswith_def reading_again_def continue_repeat_threshold_def
        ensure_continue_task_id_def task_scoped_continue_tools_def Let_def)
  then show ?thesis
    using a red read_twice_history
    by (simp add: decided_round_def Let_def ask_model_def call_def reading_again_def read_twice_def announce_def on_act_def
        execution_choice_def carry_out_def note_result_def note_act_def end_round_def plain_result_def error_text_def
        strip_def lstrip_def lower_def on_act_result_def split: prod.split)
qed


end
