(* ===== verification/Json_Roundtrip.thy ===== *)
theory Json_Roundtrip
  imports Py_Num
begin

text \<open>
  \<open>json.loads(json.dumps(v)) = v\<close> for every value without duplicate keys. Facts, and whatever else the
  code keeps as text, go through both. A float must be written with a decimal, as \<open>repr\<close> does.
\<close>

section \<open>Values that come back\<close>

fun json_ok :: "pyval \<Rightarrow> bool" where
  "json_ok (PFloat m k) = (0 < k)"
| "json_ok (PList vs) = (\<forall>v \<in> set vs. json_ok v)"
| "json_ok (PDict kvs) = (distinct (map fst kvs) \<and> (\<forall>kv \<in> set kvs. json_ok (snd kv)))"
| "json_ok v = True"

text \<open>How deep the parser goes for a value.\<close>

fun json_need :: "pyval \<Rightarrow> nat" where
  "json_need (PList vs) = Suc (foldr (\<lambda>v n. Suc (max (json_need v) n)) vs 0)"
| "json_need (PDict kvs) = Suc (foldr (\<lambda>kv n. Suc (max (json_need (snd kv)) n)) kvs 0)"
| "json_need v = 1"

section \<open>Strings\<close>

lemma hex_val_digit: "n < 16 \<Longrightarrow> hex_val (hex_digit n) = Some n"
  by (auto simp: hex_val_def hex_digit_def Let_def of_char_of)

lemma parse_str_char: "parse_str acc (json_char c @ cs) = parse_str (c # acc) cs"
proof -
  let ?n = "of_char c :: nat"
  have code: "?n = k \<Longrightarrow> c = char_of k" for k by (erule subst) simp
  have lt: "?n < 256" by (metis of_char_of char_of_char mod_less_divisor zero_less_numeral)
  have ctl: "hex4 CHR ''0'' CHR ''0'' (hex_digit (?n div 16)) (hex_digit (?n mod 16)) = Some ?n"
  proof -
    have "hex_val CHR ''0'' = Some 0" by (simp add: hex_val_def)
    moreover have "?n div 16 < 16" by (rule less_mult_imp_div_less) (use lt in simp)
    ultimately show ?thesis by (simp add: hex4_def hex_val_digit)
  qed
  consider "?n = 34 \<or> ?n = 92" | "?n \<in> {8, 9, 10, 12, 13}" | "?n < 32" "?n \<notin> {8, 9, 10, 12, 13}"
    | "32 \<le> ?n" "?n \<noteq> 34" "?n \<noteq> 92" by fastforce
  then show ?thesis
  proof cases
    case 1
    then show ?thesis by (auto simp: json_char_def unescape_def Let_def)
  next
    case 2
    then consider "?n = 8" | "?n = 9" | "?n = 10" | "?n = 12" | "?n = 13" by blast
    then show ?thesis
      by cases (simp_all add: json_char_def unescape_def Let_def code [symmetric])
  next
    case 3
    then show ?thesis using ctl lt by (simp add: json_char_def Let_def)
  next
    case 4
    then have "c \<noteq> char_of (34::nat)" "c \<noteq> char_of (92::nat)" by (auto simp: of_char_of)
    with 4 show ?thesis by (simp add: json_char_def Let_def)
  qed
qed

lemma parse_str_string: "parse_str acc (concat (map json_char s) @ char_of (34::nat) # r) = Some (rev acc @ s, r)"
  by (induction s arbitrary: acc) (simp_all add: parse_str_char)

section \<open>Numbers\<close>

text \<open>What may follow a number for it to end there.\<close>

definition num_end :: "string \<Rightarrow> bool" where
  "num_end r \<longleftrightarrow> (case r of [] \<Rightarrow> True | c # _ \<Rightarrow> \<not> is_digit c \<and> c \<noteq> CHR ''.'' \<and> c \<noteq> CHR ''e'' \<and> c \<noteq> CHR ''E'')"

lemma digits_nat_append: "digits_nat (xs @ ys) = digits_nat xs * 10 ^ length ys + digits_nat ys"
proof (induction ys rule: rev_induct)
  case (snoc y ys)
  then show ?case by (simp add: digits_nat_def algebra_simps)
qed (simp add: digits_nat_def)

lemma digits_nat_dec_nat [simp]: "digits_nat (dec_nat n) = n"
proof (induction n rule: dec_nat.induct)
  case (1 n)
  show ?case
  proof (cases "n < 10")
    case True
    then show ?thesis by (subst dec_nat.simps) (simp add: digits_nat_def of_char_of)
  next
    case False
    then have "digits_nat (dec_nat n) = digits_nat (dec_nat (n div 10) @ [char_of (48 + n mod 10)])"
      by (subst dec_nat.simps) simp
    also have "\<dots> = n" using 1 False by (simp add: digits_nat_append) (simp add: digits_nat_def of_char_of)
    finally show ?thesis .
  qed
qed

lemma dec_nat_digits: "\<forall>c \<in> set (dec_nat n). is_digit c"
  using set_dec_nat_code [of _ n] by (auto simp: is_digit_def Let_def)

lemma dec_nat_no_leading_zero: "0 < n \<Longrightarrow> hd (dec_nat n) \<noteq> CHR ''0''"
proof (induction n rule: dec_nat.induct)
  case (1 n)
  show ?case
  proof (cases "n < 10")
    case True
    have "char_of (48 + n) \<noteq> CHR ''0''"
    proof
      assume "char_of (48 + n) = CHR ''0''"
      then have "(of_char (char_of (48 + n) :: char) :: nat) = of_char CHR ''0''" by (rule arg_cong)
      then show False using True 1(2) by (simp add: of_char_of)
    qed
    then show ?thesis using True by (subst dec_nat.simps) simp
  next
    case False
    then have "hd (dec_nat (n div 10)) \<noteq> CHR ''0''" using 1 by simp
    then show ?thesis using False by (subst dec_nat.simps) simp
  qed
qed

lemma dec_nat_leading: "length (dec_nat n) > 1 \<Longrightarrow> hd (dec_nat n) \<noteq> CHR ''0''"
proof (cases "n = 0")
  case True
  moreover assume "length (dec_nat n) > 1"
  ultimately show ?thesis by (simp add: dec_nat.simps [of 0])
qed (simp add: dec_nat_no_leading_zero)

lemma take_digits: "\<forall>c \<in> set ds. is_digit c \<Longrightarrow> (case r of [] \<Rightarrow> True | c # _ \<Rightarrow> \<not> is_digit c) \<Longrightarrow>
    takeWhile is_digit (ds @ r) = ds \<and> dropWhile is_digit (ds @ r) = r"
  by (induction ds) (auto split: list.splits)

lemma dec_nat_not_minus: "\<exists>c cs. dec_nat n @ r = c # cs \<and> c \<noteq> CHR ''-'' \<and> c \<noteq> CHR ''+''"
proof -
  obtain c cs where "dec_nat n = c # cs" "48 \<le> (of_char c :: nat)" using dec_nat_head by blast
  then show ?thesis by auto
qed

lemma num_end_digit: "num_end r \<Longrightarrow> (case r of [] \<Rightarrow> True | c # _ \<Rightarrow> \<not> is_digit c)"
  by (auto simp: num_end_def split: list.splits)

lemma minus_no_digit: "\<not> is_digit CHR ''-''" "\<not> is_digit CHR ''.''"
  by (simp_all add: is_digit_def)

lemma parse_num_int:
  assumes "num_end r"
  shows "parse_num (dec_int i @ r) = Some (PInt i, r)"
proof -
  define d where "d = dec_nat (nat \<bar>i\<bar>)"
  have t: "takeWhile is_digit (d @ r) = d" "dropWhile is_digit (d @ r) = r" "d \<noteq> []" "digits_nat d = nat \<bar>i\<bar>"
    using take_digits [OF dec_nat_digits num_end_digit [OF assms]] by (simp_all add: d_def)
  have nofrac: "(case r of c # d # _ \<Rightarrow> c = CHR ''.'' \<and> is_digit d | _ \<Rightarrow> False) = False"
    and noexp: "(case r of c # _ \<Rightarrow> c = CHR ''e'' \<or> c = CHR ''E'' | [] \<Rightarrow> False) = False"
    using assms by (auto simp: num_end_def split: list.splits)
  have lead: "\<not> (length d > 1 \<and> hd d = CHR ''0'')" unfolding d_def using dec_nat_leading by blast
  have minus: "(case d @ r of c # _ \<Rightarrow> c = CHR ''-'' | [] \<Rightarrow> False) = False"
    using dec_nat_not_minus [of "nat \<bar>i\<bar>" r] by (auto simp: d_def)
  have body: "dec_int i @ r = (if i < 0 then CHR ''-'' # d @ r else d @ r)"
    by (simp add: dec_int_def d_def)
  show ?thesis
  proof (cases "i < 0")
    case True
    then have "dec_int i @ r = CHR ''-'' # d @ r" using body by simp
    then show ?thesis using True lead by (simp add: t nofrac noexp Let_def)
  next
    case False
    then have "dec_int i @ r = d @ r" using body by simp
    then show ?thesis using False lead by (simp add: t nofrac noexp minus Let_def)
  qed
qed

lemma parse_num_float:
  assumes "num_end r" "0 < k"
  shows "parse_num (float_repr m k @ r) = Some (PFloat m k, r)"
proof -
  define a ip fs fp where "a = nat \<bar>m\<bar>" and "ip = dec_nat (a div 10 ^ k)" and "fs = dec_nat (a mod 10 ^ k)"
    and "fp = replicate (k - length fs) (CHR ''0'') @ fs"
  have "a mod 10 ^ k < 10 ^ Suc (k - 1)" using assms(2) by simp
  then have "length fs \<le> k" using length_dec_nat [of "a mod 10 ^ k" "k - 1"] assms(2) by (simp add: fs_def)
  then have flen: "length fp = k" by (simp add: fp_def)
  have "is_digit CHR ''0''" by (simp add: is_digit_def)
  then have fdig: "\<forall>c \<in> set fp. is_digit c" using dec_nat_digits by (auto simp: fp_def fs_def)
  have t: "takeWhile is_digit (ip @ CHR ''.'' # fp @ r) = ip" "dropWhile is_digit (ip @ CHR ''.'' # fp @ r) = CHR ''.'' # fp @ r"
    "ip \<noteq> []"
    using take_digits [of ip "CHR ''.'' # fp @ r"] dec_nat_digits minus_no_digit by (simp_all add: ip_def)
  have f: "takeWhile is_digit (fp @ r) = fp" "dropWhile is_digit (fp @ r) = r"
    using take_digits [OF fdig num_end_digit [OF assms(1)]] by simp_all
  have noexp: "(case r of c # _ \<Rightarrow> c = CHR ''e'' \<or> c = CHR ''E'' | [] \<Rightarrow> False) = False"
    using assms by (auto simp: num_end_def split: list.splits)
  have frac: "(case fp @ r of d # _ \<Rightarrow> is_digit d | [] \<Rightarrow> False) = True"
    using fdig flen assms(2) by (cases fp) auto
  have lead: "\<not> (length ip > 1 \<and> hd ip = CHR ''0'')" unfolding ip_def using dec_nat_leading by blast
  have "digits_nat (replicate n CHR ''0'') = 0" for n
    by (induction n) (simp_all add: digits_nat_def)
  then have "digits_nat fp = a mod 10 ^ k" by (simp add: fp_def digits_nat_append) (simp add: fs_def)
  then have val: "digits_nat (ip @ fp) = a" by (simp add: digits_nat_append flen) (simp add: ip_def div_mult_mod_eq)
  have minus: "(case ip @ CHR ''.'' # fp @ r of c # _ \<Rightarrow> c = CHR ''-'' | [] \<Rightarrow> False) = False"
    using dec_nat_not_minus [of "a div 10 ^ k" "CHR ''.'' # fp @ r"] by (auto simp: ip_def)
  have body: "float_repr m k @ r = (if m < 0 then CHR ''-'' # ip @ CHR ''.'' # fp @ r else ip @ CHR ''.'' # fp @ r)"
    using assms(2) by (simp add: float_repr_def Let_def a_def ip_def fs_def fp_def)
  have am: "int a = \<bar>m\<bar>" by (simp add: a_def)
  show ?thesis
  proof (cases "m < 0")
    case True
    then have "float_repr m k @ r = CHR ''-'' # ip @ CHR ''.'' # fp @ r" using body by simp
    then show ?thesis using True lead am by (simp add: t f frac noexp val flen Let_def)
  next
    case False
    then have "float_repr m k @ r = ip @ CHR ''.'' # fp @ r" using body by simp
    then show ?thesis using False lead am by (simp add: t f frac noexp val flen minus Let_def)
  qed
qed

section \<open>One call of the parser\<close>

lemma parse_val_space: "parse_val n (CHR '' '' # s) = parse_val n s"
  by (cases n) (simp_all add: skip_ws_def json_ws_def)

lemma parse_elems_space: "parse_elems n (CHR '' '' # s) = parse_elems n s"
  by (cases n) (simp_all add: parse_val_space)

lemma parse_members_space: "parse_members n d (CHR '' '' # s) = parse_members n d s"
  by (cases n) (simp_all add: skip_ws_def json_ws_def)

lemma parse_val_start:
  assumes "\<not> json_ws c" "c \<noteq> CHR ''n''" "c \<noteq> CHR ''t''" "c \<noteq> CHR ''f''"
  shows "parse_val (Suc n) (c # cs) =
     (if c = char_of (34::nat) then (case parse_str [] cs of Some (x, r) \<Rightarrow> Some (PStr x, r) | None \<Rightarrow> None)
      else if c = CHR ''['' then (case skip_ws cs of [] \<Rightarrow> None | d # ds \<Rightarrow>
        (if d = CHR '']'' then Some (PList [], ds) else (case parse_elems n cs of Some (vs, r) \<Rightarrow> Some (PList vs, r) | None \<Rightarrow> None)))
      else if c = CHR ''{'' then (case skip_ws cs of [] \<Rightarrow> None | d # ds \<Rightarrow>
        (if d = CHR ''}'' then Some (PDict [], ds) else (case parse_members n [] cs of Some (kvs, r) \<Rightarrow> Some (PDict kvs, r) | None \<Rightarrow> None)))
      else parse_num (c # cs))"
proof -
  have "skip_ws (c # cs) = c # cs" using assms(1) by (simp add: skip_ws_def)
  then show ?thesis using assms(2-4) by (simp only: parse_val.simps(2) Let_def) (simp del: parse_num.simps)
qed

lemma quote_start: "\<not> json_ws (char_of (34::nat))" "char_of (34::nat) \<noteq> CHR ''n''" "char_of (34::nat) \<noteq> CHR ''t''"
  "char_of (34::nat) \<noteq> CHR ''f''" "char_of (34::nat) \<noteq> CHR ''}''" "char_of (34::nat) \<noteq> CHR '']''"
  by (simp_all add: json_ws_def of_char_of Let_def char_of_def bit_0)

lemma quote_not_minus: "char_of (34::nat) \<noteq> CHR ''-''"
  by (simp add: char_of_def bit_0)

lemma bracket_not_quote: "CHR ''['' \<noteq> char_of (34::nat)" "CHR ''{'' \<noteq> char_of (34::nat)"
  by (simp_all add: char_of_def bit_0)

lemma num_start: "is_digit c \<or> c = CHR ''-'' \<Longrightarrow> \<not> json_ws c \<and> c \<noteq> CHR ''n'' \<and> c \<noteq> CHR ''t'' \<and> c \<noteq> CHR ''f'' \<and>
    c \<noteq> char_of (34::nat) \<and> c \<noteq> CHR ''['' \<and> c \<noteq> CHR ''{'' \<and> c \<noteq> CHR '']'' \<and> c \<noteq> CHR ''}''"
  using quote_not_minus by (auto simp: is_digit_def json_ws_def Let_def of_char_of)

lemma parse_val_number:
  assumes "s = c # cs" "is_digit c \<or> c = CHR ''-''"
  shows "parse_val (Suc n) s = parse_num s"
  unfolding assms(1) using num_start [OF assms(2)] by (subst parse_val_start) (simp_all del: parse_num.simps)

lemma dec_int_start: "\<exists>c cs. dec_int i = c # cs \<and> (is_digit c \<or> c = CHR ''-'')"
  using dec_nat_head [of "nat \<bar>i\<bar>"] by (auto simp: dec_int_def is_digit_def Let_def)

lemma float_repr_start: "\<exists>c cs. float_repr m k = c # cs \<and> (is_digit c \<or> c = CHR ''-'')"
  using dec_nat_head [of "nat \<bar>m\<bar> div 10 ^ k"] by (auto simp: float_repr_def is_digit_def Let_def)

text \<open>What a written value starts with: no space, and no closing bracket.\<close>

lemma dumps_start: "\<exists>c cs. json_dumps False v = c # cs \<and> \<not> json_ws c \<and> c \<noteq> CHR '']'' \<and> c \<noteq> CHR ''}''"
proof (cases v)
  case (PInt i)
  then show ?thesis using dec_int_start [of i] num_start by auto
next
  case (PFloat m k)
  then show ?thesis using float_repr_start [of m k] num_start by auto
next
  case (PStr t)
  then show ?thesis using quote_start by (simp add: json_string_def)
qed (auto simp: json_ws_def Let_def)

lemma skip_dumps: "skip_ws (json_dumps False v @ r) = json_dumps False v @ r"
  using dumps_start [of v] by (auto simp: skip_ws_def)

section \<open>The whole value\<close>

lemma num_end_simps [simp]: "num_end []" "num_end (CHR '','' # r)" "num_end (CHR '']'' # r)" "num_end (CHR ''}'' # r)"
  by (simp_all add: num_end_def is_digit_def)

definition reads_back :: "pyval \<Rightarrow> bool" where
  "reads_back v \<longleftrightarrow> (\<forall>n r. json_need v \<le> n \<longrightarrow> num_end r \<longrightarrow> parse_val n (json_dumps False v @ r) = Some (v, r))"

lemma reads_backD: "reads_back v \<Longrightarrow> json_need v \<le> n \<Longrightarrow> num_end r \<Longrightarrow> parse_val n (json_dumps False v @ r) = Some (v, r)"
  by (simp add: reads_back_def)

definition elems_need :: "pyval list \<Rightarrow> nat" where
  "elems_need vs = foldr (\<lambda>v n. Suc (max (json_need v) n)) vs 0"

lemma close_no_space [simp]: "skip_ws (CHR '','' # r) = CHR '','' # r" "skip_ws (CHR '']'' # r) = CHR '']'' # r"
  "skip_ws (CHR ''}'' # r) = CHR ''}'' # r" "skip_ws (CHR '':'' # r) = CHR '':'' # r"
  by (simp_all add: skip_ws_def json_ws_def)

lemma elems_read_back:
  assumes "\<forall>v \<in> set vs. reads_back v" "vs \<noteq> []" "elems_need vs \<le> n"
  shows "parse_elems n (join '', '' (map (json_dumps False) vs) @ CHR '']'' # r) = Some (vs, r)"
  using assms
proof (induction vs arbitrary: n)
  case (Cons v vs)
  from Cons.prems(3) obtain m where n: "n = Suc m" and m: "json_need v \<le> m" "elems_need vs \<le> m"
    by (cases n) (auto simp: elems_need_def)
  note v = reads_backD [of v m, OF _ m(1)]
  show ?case
  proof (cases vs)
    case Nil
    then show ?thesis using v Cons.prems(1) by (simp add: n)
  next
    case (Cons w ws)
    have "parse_elems m (CHR '' '' # join '', '' (map (json_dumps False) vs) @ CHR '']'' # r) = Some (vs, r)"
      using Cons.IH [OF _ _ m(2)] Cons.prems(1) Cons by (simp add: parse_elems_space)
    then show ?thesis using v Cons.prems(1) Cons by (simp add: n)
  qed
qed simp

definition members_need :: "dict \<Rightarrow> nat" where
  "members_need kvs = foldr (\<lambda>kv n. Suc (max (json_need (snd kv)) n)) kvs 0"

definition member_text :: "string \<times> pyval \<Rightarrow> string" where
  "member_text kv = json_string (fst kv) @ '': '' @ json_dumps False (snd kv)"

lemma update_new: "k \<notin> fst ` set d \<Longrightarrow> AList.update k v d = d @ [(k, v)]"
  by (induction d) auto

lemma member_read_back:
  assumes "reads_back v" "json_need v \<le> m" "num_end s"
  shows "parse_members (Suc m) d (member_text (k, v) @ s) = (case skip_ws s of [] \<Rightarrow> None
    | e # es \<Rightarrow> if e = CHR ''}'' then Some (AList.update k v d, es)
        else if e = CHR '','' then parse_members m (AList.update k v d) es else None)"
proof -
  have "skip_ws (char_of (34::nat) # t) = char_of (34::nat) # t" for t
    using quote_start(1) by (simp add: skip_ws_def)
  moreover have "parse_val m (CHR '' '' # json_dumps False v @ s) = Some (v, s)"
    using reads_backD [OF assms] by (simp add: parse_val_space)
  ultimately show ?thesis by (simp add: member_text_def json_string_def parse_str_string)
qed

lemma members_read_back:
  assumes "\<forall>kv \<in> set kvs. reads_back (snd kv)" "kvs \<noteq> []" "members_need kvs \<le> n" "distinct (map fst (d @ kvs))"
  shows "parse_members n d (join '', '' (map member_text kvs) @ CHR ''}'' # r) = Some (d @ kvs, r)"
  using assms
proof (induction kvs arbitrary: n d)
  case (Cons kv kvs)
  obtain k v where kv: "kv = (k, v)" by fastforce
  from Cons.prems(3) obtain m where n: "n = Suc m" and m: "json_need v \<le> m" "members_need kvs \<le> m"
    by (cases n) (auto simp: members_need_def kv)
  have rb: "reads_back v" using Cons.prems(1) kv by simp
  have up: "AList.update k v d = d @ [(k, v)]" using Cons.prems(4) kv by (intro update_new) auto
  note step = member_read_back [OF rb m(1)]
  show ?case
  proof (cases kvs)
    case Nil
    then show ?thesis using step [of "CHR ''}'' # r" d k] by (simp add: n kv up del: parse_members.simps)
  next
    case (Cons w ws)
    have "parse_members m (d @ [(k, v)]) (CHR '' '' # join '', '' (map member_text kvs) @ CHR ''}'' # r) =
        Some ((d @ [(k, v)]) @ kvs, r)"
      using Cons.IH [OF _ _ m(2), of "d @ [(k, v)]"] Cons.prems(1,4) Cons kv by (simp add: parse_members_space)
    then show ?thesis
      using Cons step [of "CHR '','' # CHR '' '' # join '', '' (map member_text kvs) @ CHR ''}'' # r" d k]
      by (simp add: n kv up del: parse_members.simps)
  qed
qed simp

lemma dumps_reads_back: "json_ok v \<Longrightarrow> reads_back v"
proof (induction v)
  case PNone
  show ?case by (auto simp: reads_back_def skip_ws_def json_ws_def Suc_le_eq dest!: gr0_implies_Suc)
next
  case (PBool b)
  show ?case by (auto simp: reads_back_def skip_ws_def json_ws_def Suc_le_eq dest!: gr0_implies_Suc)
next
  case (PInt i)
  show ?case
  proof (unfold reads_back_def, intro allI impI)
    fix n r assume "json_need (PInt i) \<le> n" "num_end r"
    then obtain m where "n = Suc m" by (cases n) auto
    then show "parse_val n (json_dumps False (PInt i) @ r) = Some (PInt i, r)"
      using dec_int_start [of i] parse_num_int [OF \<open>num_end r\<close>, of i] by (auto simp: parse_val_number simp del: parse_num.simps parse_val.simps)
  qed
next
  case (PFloat f k)
  then have k: "0 < k" by simp
  show ?case
  proof (unfold reads_back_def, intro allI impI)
    fix n r assume "json_need (PFloat f k) \<le> n" "num_end r"
    then obtain m where "n = Suc m" by (cases n) auto
    then show "parse_val n (json_dumps False (PFloat f k) @ r) = Some (PFloat f k, r)"
      using float_repr_start [of f k] parse_num_float [OF \<open>num_end r\<close> k, of f] by (auto simp: parse_val_number simp del: parse_num.simps parse_val.simps)
  qed
next
  case (PStr t)
  show ?case
    using quote_start by (auto simp: reads_back_def json_string_def parse_val_start parse_str_string Suc_le_eq
        simp del: parse_val.simps dest!: gr0_implies_Suc)
next
  case (PList vs)
  then have vs: "\<forall>v \<in> set vs. reads_back v" by simp
  show ?case
  proof (unfold reads_back_def, intro allI impI)
    fix n r assume n: "json_need (PList vs) \<le> n" and "num_end r"
    then obtain m where m: "n = Suc m" "elems_need vs \<le> m" by (cases n) (auto simp: elems_need_def)
    show "parse_val n (json_dumps False (PList vs) @ r) = Some (PList vs, r)"
    proof (cases vs)
      case Nil
      then show ?thesis by (simp add: m parse_val_start json_ws_def bracket_not_quote del: parse_val.simps)
    next
      case (Cons w ws)
      obtain c cs where "json_dumps False w = c # cs" "\<not> json_ws c" "c \<noteq> CHR '']''" using dumps_start by blast
      then have "\<exists>c cs. skip_ws (join '', '' (map (json_dumps False) vs) @ CHR '']'' # r) = c # cs \<and> c \<noteq> CHR '']''"
        using Cons by (cases ws) (auto simp: skip_ws_def)
      then show ?thesis
        using elems_read_back [OF vs _ m(2), of r] Cons by (auto simp: m parse_val_start json_ws_def bracket_not_quote simp del: parse_val.simps)
    qed
  qed
next
  case (PDict kvs)
  then have kvs: "\<forall>kv \<in> set kvs. reads_back (snd kv)" by (fastforce simp: snds.simps)
  have written: "json_dumps False (PDict kvs) = CHR ''{'' # join '', '' (map member_text kvs) @ ''}''"
    by (simp add: member_text_def [abs_def] comp_def)
  show ?case
  proof (unfold reads_back_def, intro allI impI)
    fix n r assume n: "json_need (PDict kvs) \<le> n" and "num_end r"
    then obtain m where m: "n = Suc m" "members_need kvs \<le> m" by (cases n) (auto simp: members_need_def)
    show "parse_val n (json_dumps False (PDict kvs) @ r) = Some (PDict kvs, r)"
    proof (cases kvs)
      case Nil
      then show ?thesis by (simp add: m parse_val_start json_ws_def bracket_not_quote del: parse_val.simps)
    next
      case (Cons w ws)
      have "\<exists>cs. skip_ws (join '', '' (map member_text kvs) @ CHR ''}'' # r) = char_of (34::nat) # cs"
        using Cons quote_start(1) by (cases ws) (auto simp: skip_ws_def member_text_def json_string_def)
      then show ?thesis
        using members_read_back [OF kvs _ m(2), of "[]" r] Cons PDict.prems quote_start
        unfolding written by (auto simp: m parse_val_start json_ws_def bracket_not_quote simp del: parse_val.simps)
    qed
  qed
qed

section \<open>The parser's depth suffices\<close>

lemma join_Cons: "length (join s (x # xs)) = length x + (if xs = [] then 0 else length s + length (join s xs))"
  by (cases xs) simp_all

lemma dumps_length_pos: "1 \<le> length (json_dumps False v)"
  using dumps_start [of v] by auto

lemma elems_need_bound:
  "\<forall>v \<in> set vs. json_need v \<le> 2 * length (json_dumps False v) \<Longrightarrow>
     elems_need vs \<le> 2 * length (join '', '' (map (json_dumps False) vs)) + 1"
  by (induction vs) (auto simp: elems_need_def join_Cons)

lemma members_need_bound:
  "\<forall>kv \<in> set kvs. json_need (snd kv) \<le> 2 * length (json_dumps False (snd kv)) \<Longrightarrow>
     members_need kvs \<le> 2 * length (join '', '' (map member_text kvs)) + 1"
  by (induction kvs) (auto simp: members_need_def join_Cons member_text_def)

lemma json_need_bound: "json_need v \<le> 2 * length (json_dumps False v)"
proof (induction v)
  case (PInt i)
  show ?case using dumps_length_pos [of "PInt i"] by simp
next
  case (PFloat m k)
  show ?case using dumps_length_pos [of "PFloat m k"] by simp
next
  case (PList vs)
  then show ?case using elems_need_bound [of vs] by (auto simp: elems_need_def)
next
  case (PDict kvs)
  then have "\<forall>kv \<in> set kvs. json_need (snd kv) \<le> 2 * length (json_dumps False (snd kv))"
    by (fastforce simp: snds.simps)
  then show ?case
    using members_need_bound [of kvs] by (simp add: members_need_def member_text_def [abs_def] comp_def)
qed (simp_all add: json_string_def)

lemma json_round_trip:
  assumes "json_ok v"
  shows "json_loads (json_dumps False v) = Some v"
proof -
  have "json_need v \<le> 2 * length (json_dumps False v) + 2" using json_need_bound [of v] by simp
  then have "parse_val (2 * length (json_dumps False v) + 2) (json_dumps False v @ []) = Some (v, [])"
    by (rule reads_backD [OF dumps_reads_back [OF assms]]) simp
  then show ?thesis by (simp add: json_loads_def skip_ws_def del: parse_val.simps)
qed

section \<open>Sorted keys\<close>

text \<open>\<open>json.dumps(v, sort_keys=True)\<close> writes the value with its keys in order.\<close>

fun sorted_keys :: "pyval \<Rightarrow> pyval" where
  "sorted_keys (PList vs) = PList (map sorted_keys vs)"
| "sorted_keys (PDict kvs) = PDict (sort_key fst (map (\<lambda>kv. (fst kv, sorted_keys (snd kv))) kvs))"
| "sorted_keys v = v"

lemma insort_key_map: "(\<And>x. g (f x) = h x) \<Longrightarrow> insort_key g (f x) (map f xs) = map f (insort_key h x xs)"
  by (induction xs) auto

lemma sort_key_map: "(\<And>x. g (f x) = h x) \<Longrightarrow> sort_key g (map f xs) = map f (sort_key h xs)"
  by (induction xs) (auto simp: insort_key_map)

lemma distinct_sort_key: "distinct (map fst xs) \<Longrightarrow> distinct (map fst (sort_key fst xs))"
  by (simp add: distinct_map)

lemma dumps_sorted: "json_dumps True v = json_dumps False (sorted_keys v)"
proof (induction v)
  case (PList vs)
  then have "map (json_dumps True) vs = map (json_dumps False) (map sorted_keys vs)" by simp
  then show ?case by (simp only: json_dumps.simps sorted_keys.simps)
next
  case (PDict kvs)
  then have same: "map (\<lambda>kv. (fst kv, json_dumps True (snd kv))) kvs =
      map (\<lambda>kv. (fst kv, json_dumps False (snd kv))) (map (\<lambda>kv. (fst kv, sorted_keys (snd kv))) kvs)"
    by (force simp: snds.simps)
  have shift: "sort_key fst (map (\<lambda>kv. (fst kv, json_dumps False (snd kv))) xs) =
      map (\<lambda>kv. (fst kv, json_dumps False (snd kv))) (sort_key fst xs)" for xs :: dict
    by (rule sort_key_map) simp
  show ?case by (simp only: json_dumps.simps sorted_keys.simps same Let_def if_True if_False shift)
qed simp_all

lemma json_ok_sorted: "json_ok v \<Longrightarrow> json_ok (sorted_keys v)"
proof (induction v)
  case (PDict kvs)
  then have "\<forall>kv \<in> set kvs. json_ok (sorted_keys (snd kv))" by (force simp: snds.simps)
  moreover have "distinct (map fst (map (\<lambda>kv. (fst kv, sorted_keys (snd kv))) kvs))"
    using PDict.prems by (simp add: comp_def)
  then have "distinct (map fst (sort_key fst (map (\<lambda>kv. (fst kv, sorted_keys (snd kv))) kvs)))"
    by (rule distinct_sort_key)
  ultimately show ?case by (auto simp del: map_map)
qed simp_all

text \<open>What a value without duplicate keys reads as when it was written with sorted keys.\<close>

lemma json_sorted_round_trip: "json_ok v \<Longrightarrow> json_loads (json_dumps True v) = Some (sorted_keys v)"
  by (simp add: dumps_sorted json_round_trip json_ok_sorted)

lemma map_of_sort_key: "distinct (map fst xs) \<Longrightarrow> map_of (sort_key fst xs) k = map_of xs k"
  by (rule option.expand) (auto simp: map_of_eq_Some_iff distinct_sort_key image_iff option.case_eq_if
      map_of_eq_None_iff dest!: map_of_SomeD)

lemma map_of_sorted_keys:
  "distinct (map fst kvs) \<Longrightarrow>
     map_of (sort_key fst (map (\<lambda>kv. (fst kv, sorted_keys (snd kv))) kvs)) k = map_option sorted_keys (map_of kvs k)"
proof (subst map_of_sort_key)
  show "map_of (map (\<lambda>kv. (fst kv, sorted_keys (snd kv))) kvs) k = map_option sorted_keys (map_of kvs k)"
    by (induction kvs) auto
qed (simp add: comp_def)

end
