(* ===== verification/Stored_Facts.thy ===== *)
theory Stored_Facts
  imports Metabolic Json_Roundtrip
begin

text \<open>
  Dicts that are kept as JSON in facts: submitting one, and what is read back. A text is shortened on its way into
  the store, a number comes back as it was.
\<close>

section \<open>Submitting a fact\<close>

lemma fact_op_not_blocked:
  "check_tool_blocked (pseudo_tool_name (build_proposal ''set_fact'' key v sc src r b)) = None"
  "check_tool_blocked (pseudo_tool_name (build_proposal ''delete_fact'' key v sc src r b)) = None"
  by (simp_all add: check_tool_blocked_def pseudo_tool_name_def default_blocked_tools_def build_proposal_def)

lemma submit_fact_effect:
  "\<exists>l. submit_fact e key (PStr v) sc src r b w =
     (Inr True, w\<lparr>w_facts := set_fact (e_now_sql e) key v sc (w_facts w), w_ledger := l\<rparr>)"
  by (simp add: submit_fact_def submit_def apply_state_write_def apply_fact_write_def fact_op_not_blocked
      bind_res_def append_lifecycle_ledger_def)
    (simp add: build_proposal_def; blast)

lemma submit_delete_fact_effect:
  "\<exists>l. submit_delete_fact e key sc src r b w = (Inr True, w\<lparr>w_facts := delete_fact key (w_facts w), w_ledger := l\<rparr>)"
  by (simp add: submit_delete_fact_def submit_def apply_state_write_def apply_fact_write_def fact_op_not_blocked
      bind_res_def append_lifecycle_ledger_def)
    (simp add: build_proposal_def; blast)

lemma submit_fact_obtain:
  obtains l where "submit_fact e key (PStr v) sc src r b w =
     (Inr True, w\<lparr>w_facts := set_fact (e_now_sql e) key v sc (w_facts w), w_ledger := l\<rparr>)"
  using submit_fact_effect by blast

lemma submit_delete_fact_obtain:
  obtains l where "submit_delete_fact e key sc src r b w =
     (Inr True, w\<lparr>w_facts := delete_fact key (w_facts w), w_ledger := l\<rparr>)"
  using submit_delete_fact_effect by blast

section \<open>Reading it back\<close>

fun plain_value :: "pyval \<Rightarrow> bool" where
  "plain_value (PFloat m k) = (0 < k)"
| "plain_value (PList vs) = False"
| "plain_value (PDict d) = False"
| "plain_value v = True"

fun shortened_value :: "pyval \<Rightarrow> pyval" where
  "shortened_value (PStr s) = PStr (compact_runtime_text runtime_text_max_chars ''runtime store'' s)"
| "shortened_value v = v"

lemma plain_value_json: "plain_value v \<Longrightarrow> json_ok v"
  by (cases v) auto

lemma plain_value_stored:
  "plain_value v \<Longrightarrow> compact_runtime_value 1 v = shortened_value v \<and> json_ok (shortened_value v) \<and> sorted_keys (shortened_value v) = shortened_value v"
  by (cases v) (auto simp: compact_runtime_value_def runtime_max_depth_def)

lemma stored_payload:
  assumes "distinct (map fst p)" "length p \<le> 80" "\<forall>kv \<in> set p. plain_value (snd kv)"
  shows "\<exists>d. json_loads (fact_value (build_fact_upsert now (json_dumps False (PDict p)) sc)) = Some (PDict d) \<and>
    (\<forall>k. map_of d k = map_option shortened_value (map_of p k))"
proof -
  let ?q = "map (\<lambda>kv. (fst kv, shortened_value (snd kv))) p"
  have ok: "json_ok (PDict p)" using assms(1,3) plain_value_json by auto
  have "fact_value (build_fact_upsert now (json_dumps False (PDict p)) sc) = json_dumps True (compact_runtime_value 0 (PDict p))"
    by (simp add: build_fact_upsert_def compact_runtime_json_text_def json_round_trip [OF ok] del: json_dumps.simps)
  also have "compact_runtime_value 0 (PDict p) = PDict ?q"
    using compact_runtime_value_dict [of 0 p] assms plain_value_stored
    by (auto simp: runtime_max_depth_def dict_ok_def runtime_collection_max_items_def)
  finally have stored: "fact_value (build_fact_upsert now (json_dumps False (PDict p)) sc) = json_dumps True (PDict ?q)" .
  have qkeys: "distinct (map fst ?q)" using assms(1) by (simp add: comp_def)
  then have "json_ok (PDict ?q)" using assms(3) plain_value_stored by auto
  note readback = json_sorted_round_trip [OF this, unfolded sorted_keys.simps]
  have "map_of ?q k = map_option shortened_value (map_of p k)" for k
    by (induction p) auto
  moreover have "map_option sorted_keys (map_option shortened_value (map_of p k)) = map_option shortened_value (map_of p k)" for k
    using assms(3) plain_value_stored by (cases "map_of p k") (auto dest!: map_of_SomeD)
  ultimately have fields: "map_of (sort_key fst (map (\<lambda>kv. (fst kv, sorted_keys (snd kv))) ?q)) k =
      map_option shortened_value (map_of p k)" for k
    by (simp only: map_of_sorted_keys [OF qkeys])
  show ?thesis unfolding stored by (intro exI conjI allI) (rule readback, rule fields)
qed

end
