(* ===== verification/Evo_Breaker.thy ===== *)
theory Evo_Breaker
  imports Stored_Facts Py_More Py_Io
begin

text \<open>
  The circuit breakers of the self-evolution (\<open>core/evolution/breaker.py\<close>): a target that failed too often
  is left alone for a while, and a failure that goes on stops every evolution. Their state is a JSON fact per
  target. The clock is a finite decimal, as a fact keeps it.
\<close>

section \<open>Keys and configuration\<close>

definition breaker_fact_key :: "string \<Rightarrow> string" where
  "breaker_fact_key target = ''evolution:breaker:'' @ target"

definition global_breaker_fact_key :: string where
  "global_breaker_fact_key = ''evolution:breaker:global''"

definition verification_fact_key :: "string \<Rightarrow> string" where
  "verification_fact_key target = ''evolution:verify:'' @ target"

record breaker_cfg =
  bk_fail_threshold :: int
  bk_escalate_threshold :: int
  bk_cooldown_seconds :: int
  bk_global_cooldown_seconds :: int

type_synonym clock = "int \<times> nat"

section \<open>The fact of a breaker\<close>

fun first_breaker_dict :: "string \<Rightarrow> (string \<times> string) list \<Rightarrow> dict" where
  "first_breaker_dict target [] = []"
| "first_breaker_dict target ((k, raw) # rest) =
     (if k \<noteq> target then first_breaker_dict target rest
      else (case json_loads raw of None \<Rightarrow> [] | Some (PDict d) \<Rightarrow> d | Some _ \<Rightarrow> first_breaker_dict target rest))"

definition load_breaker_fact :: "string \<Rightarrow> world \<Rightarrow> dict" where
  "load_breaker_fact key w = first_breaker_dict key (list_facts key 1 (w_facts w))"

definition submit_breaker_fact :: "env \<Rightarrow> string \<Rightarrow> string \<Rightarrow> world \<Rightarrow> bool res \<times> world" where
  "submit_breaker_fact e key v = submit_fact e key (PStr v) ''system'' ''evolution/breaker'' 0 []"

definition delete_breaker_fact :: "env \<Rightarrow> string \<Rightarrow> world \<Rightarrow> bool res \<times> world" where
  "delete_breaker_fact e key = submit_delete_fact e key ''system'' ''evolution/breaker'' 0 []"

section \<open>Reading a breaker\<close>

definition zero_float :: pyval where
  "zero_float = PFloat 0 1"

definition cooldown_until :: "dict \<Rightarrow> pyfloat res" where
  "cooldown_until st = py_float (py_or (dict_get_or zero_float st ''cooldown_until'') zero_float)"

definition failure_streak :: "dict \<Rightarrow> int res" where
  "failure_streak st = py_int (py_or (dict_get_or (PInt 0) st ''failure_streak'') (PInt 0))"

text \<open>\<open>int(until - now)\<close>, for \<open>until\<close> after \<open>now\<close>.\<close>

fun remaining_seconds :: "pyfloat \<Rightarrow> clock \<Rightarrow> int res" where
  "remaining_seconds (FNum n l) (m, k) = Inr ((n * 10 ^ k - m * 10 ^ l) div 10 ^ (k + l))"
| "remaining_seconds (FInf neg) now = Inl (Exn ''OverflowError'' ''cannot convert float infinity to integer'')"
| "remaining_seconds FNan now = Inl (Exn ''ValueError'' ''cannot convert float NaN to integer'')"

definition cooled_down :: "pyfloat \<Rightarrow> clock \<Rightarrow> bool" where
  "cooled_down until now = float_le until (FNum (fst now) (snd now))"

definition is_global_breaker_cooling_down :: "env \<Rightarrow> clock \<Rightarrow> world \<Rightarrow> (bool \<times> int) res \<times> world" where
  "is_global_breaker_cooling_down e now w =
    then_do (cooldown_until (load_breaker_fact global_breaker_fact_key w), w) (\<lambda>until w.
      if cooled_down until now
      then then_do (suppressed (delete_breaker_fact e global_breaker_fact_key w)) (\<lambda>_ w'. (Inr (False, 0), w'))
      else (bind_res (remaining_seconds until now) (\<lambda>n. Inr (True, n)), w))"

definition is_target_breaker_cooling_down ::
    "env \<Rightarrow> clock \<Rightarrow> string \<Rightarrow> world \<Rightarrow> (bool \<times> int \<times> int) res \<times> world" where
  "is_target_breaker_cooling_down e now target w = (let st = load_breaker_fact (breaker_fact_key target) w in
    then_do (cooldown_until st, w) (\<lambda>until w. then_do (failure_streak st, w) (\<lambda>streak w.
      if cooled_down until now
      then then_do (suppressed (delete_breaker_fact e (breaker_fact_key target) w)) (\<lambda>_ w'.
        (Inr (False, 0, streak), w'))
      else (bind_res (remaining_seconds until now) (\<lambda>n. Inr (True, n, streak)), w))))"

section \<open>Writing a breaker\<close>

text \<open>\<open>now + float(seconds)\<close>.\<close>

definition later_by :: "clock \<Rightarrow> int \<Rightarrow> pyval" where
  "later_by now s = PFloat (fst now + s * 10 ^ snd now) (snd now)"

definition breaker_payload :: "string \<Rightarrow> string \<Rightarrow> int \<Rightarrow> pyval \<Rightarrow> string \<Rightarrow> string \<Rightarrow> dict" where
  "breaker_payload name target streak until at reason = [(name, PStr target), (''failure_streak'', PInt streak),
     (''cooldown_until'', until), (''updated_at'', PStr at), (''reason'', PStr reason)]"

definition update_target_breaker_state ::
    "env \<Rightarrow> clock \<Rightarrow> breaker_cfg \<Rightarrow> string \<Rightarrow> bool \<Rightarrow> string \<Rightarrow> world \<Rightarrow> unit res \<times> world" where
  "update_target_breaker_state e now c target success reason w = (let key = breaker_fact_key target in
    if success then suppressed (delete_breaker_fact e key w)
    else then_do (failure_streak (load_breaker_fact key w), w) (\<lambda>prev w. let streak = prev + 1;
      until = (if bk_fail_threshold c \<le> streak then later_by now (bk_cooldown_seconds c) else zero_float) in
    then_do (submit_breaker_fact e key
        (json_dumps False (PDict (breaker_payload ''target'' target streak until (e_now_iso e) reason))) w) (\<lambda>_ w1.
      if bk_escalate_threshold c \<le> streak
      then then_do (submit_breaker_fact e global_breaker_fact_key (json_dumps False (PDict
          (breaker_payload ''failure_target'' target streak (later_by now (bk_global_cooldown_seconds c)) (e_now_iso e) reason)))
        w1) (\<lambda>_ w2. (Inr (), w2))
      else (Inr (), w1))))"

section \<open>One attempt on a target\<close>

text \<open>
  What a run of the engine (\<open>EvolutionEngine.run\<close>) does to the breaker of a target it attempts in vain:
  the breaker is asked when the candidates are gathered, and told of the failure at the end.
\<close>

definition failed_attempt :: "env \<Rightarrow> clock \<Rightarrow> clock \<Rightarrow> breaker_cfg \<Rightarrow> string \<Rightarrow> string \<Rightarrow> world \<Rightarrow> bool res \<times> world" where
  "failed_attempt e asked told c target reason w =
    then_do (is_target_breaker_cooling_down e asked target w) (\<lambda>(is_open, _) w1.
      if is_open then (Inr False, w1)
      else then_do (update_target_breaker_state e told c target False reason w1) (\<lambda>_ w2. (Inr True, w2)))"

text \<open>Failed attempts, one after the other, while the rest of the program leaves the breakers alone.\<close>

inductive failed_tries :: "breaker_cfg \<Rightarrow> world \<Rightarrow> world \<Rightarrow> bool" for c where
  begin_attempts: "failed_tries c w w"
| attempt_fails: "failed_tries c w w1 \<Longrightarrow> failed_attempt e asked told c target reason w1 = (r, w2) \<Longrightarrow>
    0 \<le> fst asked \<Longrightarrow> failed_tries c w w2"
| rest_runs: "failed_tries c w w1 \<Longrightarrow>
    filter (\<lambda>kr. startswith (fst kr) ''evolution:breaker:'') (w_facts w2) =
      filter (\<lambda>kr. startswith (fst kr) ''evolution:breaker:'') (w_facts w1) \<Longrightarrow> failed_tries c w w2"

section \<open>What the engine stores\<close>

text \<open>The text of a breaker is compacted on the way in, and still holds the numbers.\<close>

definition breaker_value :: "pyval \<Rightarrow> int \<Rightarrow> string \<Rightarrow> bool" where
  "breaker_value until streak raw \<longleftrightarrow> (\<exists>d. json_loads raw = Some (PDict d) \<and>
     map_of d ''cooldown_until'' = Some until \<and> map_of d ''failure_streak'' = Some (PInt streak))"

lemma breaker_payload_stored:
  assumes "name \<in> {''target'', ''failure_target''}" "0 < k"
  shows "breaker_value (PFloat m k) streak (fact_value (build_fact_upsert now
     (json_dumps False (PDict (breaker_payload name target streak (PFloat m k) at reason))) sc))"
proof -
  let ?p = "breaker_payload name target streak (PFloat m k) at reason"
  obtain d where "json_loads (fact_value (build_fact_upsert now (json_dumps False (PDict ?p)) sc)) = Some (PDict d)"
      "\<And>key. map_of d key = map_option shortened_value (map_of ?p key)"
    using stored_payload [of ?p now sc] assms by (auto simp: breaker_payload_def)
  then show ?thesis unfolding breaker_value_def using assms(1) by (auto simp: breaker_payload_def)
qed

section \<open>A breaker is asked\<close>

lemma set_list_facts: "(k, v) \<in> set (list_facts pre n f) \<Longrightarrow> \<exists>r. (k, r) \<in> set f \<and> v = fact_value r"
  by (auto simp: list_facts_def newest_first_def sql_limit_def split: if_splits dest!: in_set_takeD)

lemma first_breaker_dict_cases:
  "first_breaker_dict key kvs = [] \<or> (\<exists>raw d. (key, raw) \<in> set kvs \<and> json_loads raw = Some (PDict d) \<and>
     first_breaker_dict key kvs = d)"
  by (induction kvs rule: first_breaker_dict.induct) (auto split: option.splits pyval.splits)

lemma load_breaker_fact_cases:
  obtains (missing) "load_breaker_fact key w = []"
  | (found) r d where "(key, r) \<in> set (w_facts w)" "json_loads (fact_value r) = Some (PDict d)"
      "load_breaker_fact key w = d"
  unfolding load_breaker_fact_def
  using first_breaker_dict_cases [of key "list_facts key 1 (w_facts w)"] set_list_facts by blast

definition resting :: "fact_row \<Rightarrow> bool" where
  "resting r \<longleftrightarrow> (\<forall>d. json_loads (fact_value r) = Some (PDict d) \<longrightarrow>
     map_of d ''cooldown_until'' = Some zero_float \<and> map_of d ''failure_streak'' = Some (PInt 1))"

definition all_resting :: "world \<Rightarrow> bool" where
  "all_resting w \<longleftrightarrow> (\<forall>k r. (k, r) \<in> set (w_facts w) \<longrightarrow> startswith k ''evolution:breaker:'' \<longrightarrow> resting r)"

lemma breaker_keys [simp]: "startswith (breaker_fact_key t) ''evolution:breaker:''"
  "startswith global_breaker_fact_key ''evolution:breaker:''"
  by (simp_all add: breaker_fact_key_def global_breaker_fact_key_def startswith_def)

lemma empty_state [simp]: "cooldown_until [] = Inr (FNum 0 1)" "failure_streak [] = Inr 0"
  by (simp_all add: cooldown_until_def failure_streak_def dict_get_or_def py_or_def zero_float_def)

lemma zero_cooled [simp]: "0 \<le> fst now \<Longrightarrow> cooled_down (FNum 0 (Suc 0)) now"
  by (simp add: cooled_down_def)

lemma resting_state:
  assumes "all_resting w" "startswith key ''evolution:breaker:''"
  shows "cooldown_until (load_breaker_fact key w) = Inr (FNum 0 1) \<and>
     (\<exists>n \<in> {0, 1}. failure_streak (load_breaker_fact key w) = Inr n)"
proof (cases rule: load_breaker_fact_cases [of key w])
  case missing
  then show ?thesis by simp
next
  case (found r d)
  then have "map_of d ''cooldown_until'' = Some zero_float" "map_of d ''failure_streak'' = Some (PInt 1)"
    using assms by (auto simp: all_resting_def resting_def)
  then show ?thesis
    by (simp add: found(3) cooldown_until_def failure_streak_def dict_get_or_def py_or_def zero_float_def)
qed

lemma resting_target_closed:
  assumes "all_resting w" "0 \<le> fst now"
  obtains l n where "is_target_breaker_cooling_down e now t w =
    (Inr (False, 0, n), w\<lparr>w_facts := delete_fact (breaker_fact_key t) (w_facts w), w_ledger := l\<rparr>)" "n \<in> {0, 1}"
proof -
  obtain n where "cooldown_until (load_breaker_fact (breaker_fact_key t) w) = Inr (FNum 0 1)" "n \<in> {0, 1}"
    "failure_streak (load_breaker_fact (breaker_fact_key t) w) = Inr n"
    using resting_state [OF assms(1) breaker_keys(1)] by blast
  moreover obtain l where "delete_breaker_fact e (breaker_fact_key t) w =
     (Inr True, w\<lparr>w_facts := delete_fact (breaker_fact_key t) (w_facts w), w_ledger := l\<rparr>)"
    unfolding delete_breaker_fact_def by (rule submit_delete_fact_obtain)
  ultimately show thesis using assms(2) by (intro that [of n l]) (auto simp: is_target_breaker_cooling_down_def)
qed

lemma resting_global_closed:
  assumes "all_resting w" "0 \<le> fst now"
  shows "fst (is_global_breaker_cooling_down e now w) = Inr (False, 0)"
  using resting_state [OF assms(1) breaker_keys(2)] assms(2)
  by (auto simp: is_global_breaker_cooling_down_def suppressed_def)

section \<open>A failed attempt\<close>

lemma load_deleted: "load_breaker_fact key (w\<lparr>w_facts := delete_fact key f, w_ledger := l\<rparr>) = []"
  by (rule load_breaker_fact_cases [of key "w\<lparr>w_facts := delete_fact key f, w_ledger := l\<rparr>"])
    (auto simp: delete_fact_def)

lemma resting_delete: "all_resting w \<Longrightarrow> all_resting (w\<lparr>w_facts := delete_fact key (w_facts w), w_ledger := l\<rparr>)"
  by (auto simp: all_resting_def delete_fact_def)

lemma resting_set:
  assumes "all_resting w" "resting (build_fact_upsert now v sc)"
  shows "all_resting (w\<lparr>w_facts := set_fact now key v sc (w_facts w), w_ledger := l\<rparr>)"
proof -
  have "set (AList.update k x xs) \<subseteq> insert (k, x) (set xs)" for k x and xs :: facts
    by (induction xs) auto
  then show ?thesis using assms by (fastforce simp: all_resting_def set_fact_def)
qed

lemma breaker_value_resting: "breaker_value zero_float 1 (fact_value r) \<Longrightarrow> resting r"
  by (auto simp: breaker_value_def resting_def)

lemma failed_attempt_rests:
  assumes "all_resting w" "0 \<le> fst asked" "1 < bk_fail_threshold c" "1 < bk_escalate_threshold c"
    "failed_attempt e asked told c t reason w = (r, w')"
  shows "all_resting w'"
proof -
  let ?key = "breaker_fact_key t"
  obtain l n where ask: "is_target_breaker_cooling_down e asked t w =
      (Inr (False, 0, n), w\<lparr>w_facts := delete_fact ?key (w_facts w), w_ledger := l\<rparr>)" (is "_ = (_, ?w1)")
    using resting_target_closed [OF assms(1,2)] by metis
  let ?v = "json_dumps False (PDict (breaker_payload ''target'' t 1 zero_float (e_now_iso e) reason))"
  obtain l' where sub: "submit_breaker_fact e ?key ?v ?w1 =
      (Inr True, ?w1\<lparr>w_facts := set_fact (e_now_sql e) ?key ?v ''system'' (w_facts ?w1), w_ledger := l'\<rparr>)"
    unfolding submit_breaker_fact_def by (rule submit_fact_obtain)
  have "w' = ?w1\<lparr>w_facts := set_fact (e_now_sql e) ?key ?v ''system'' (w_facts ?w1), w_ledger := l'\<rparr>"
    using assms(3-5) unfolding failed_attempt_def ask
    by (simp add: update_target_breaker_state_def load_deleted sub Let_def del: json_dumps.simps)
  moreover have "resting (build_fact_upsert (e_now_sql e) ?v ''system'')"
    using breaker_payload_stored [of "''target''" 1 0] by (intro breaker_value_resting) (simp add: zero_float_def)
  ultimately show ?thesis by (metis resting_set resting_delete [OF assms(1)])
qed

lemma attempts_rest:
  assumes "failed_tries c w w'" "all_resting w" "1 < bk_fail_threshold c" "1 < bk_escalate_threshold c"
  shows "all_resting w'"
  using assms
proof (induction rule: failed_tries.induct)
  case (attempt_fails w w1 e asked told target reason r w2)
  show ?case
    by (rule failed_attempt_rests [OF attempt_fails.IH [OF attempt_fails.prems] attempt_fails.hyps(3)
        attempt_fails.prems(2,3) attempt_fails.hyps(2)])
next
  case (rest_runs w w1 w2)
  have "kr \<in> set (w_facts w1)" if "kr \<in> set (w_facts w2)" "startswith (fst kr) ''evolution:breaker:''" for kr
  proof -
    have "kr \<in> set (filter (\<lambda>kr. startswith (fst kr) ''evolution:breaker:'') (w_facts w2))" using that by simp
    then show ?thesis unfolding rest_runs.hyps(2) by simp
  qed
  with rest_runs show ?case by (fastforce simp: all_resting_def)
qed simp



section \<open>A breaker that opens\<close>

text \<open>The only fact the key of a breaker finds is its own.\<close>

definition key_alone :: "string \<Rightarrow> facts \<Rightarrow> bool" where
  "key_alone key f \<longleftrightarrow> (\<forall>k r. (k, r) \<in> set f \<longrightarrow> sql_like (key @ ''%'') k \<longrightarrow> k = key)"

lemma sql_like_self: "sql_like (key @ ''%'') key"
  using sql_like_prefix [of key "[]"] by simp

lemma filter_alone:
  assumes "distinct (map fst f)" "key_alone key f" "map_of f key = Some r"
  shows "filter (\<lambda>(k, r). key = [] \<or> sql_like (key @ ''%'') k) f = [(key, r)]"
proof (cases "key = []")
  case True
  have all: "\<forall>kr \<in> set f. fst kr = key"
    using assms(2) True by (auto simp: key_alone_def)
  have "(key, r) \<in> set f" using assms(3) by (rule map_of_SomeD)
  then obtain f' where "f = (key, r) # f' \<or> f = (key, r) # f'" using all assms(1)
    by (cases f) (auto simp: image_iff)
  then show ?thesis using all assms(1) True by (cases f') (auto simp: image_iff)
next
  case False
  have "filter (\<lambda>(k, r). sql_like (key @ ''%'') k) f = [(key, r)]"
    using assms
  proof (induction f)
    case (Cons kr f)
    obtain k s where kr: "kr = (k, s)" by fastforce
    show ?case
    proof (cases "k = key")
      case True
      then have "\<not> sql_like (key @ ''%'') (fst x)" if "x \<in> set f" for x
        using Cons.prems(1,2) that kr by (cases x) (force simp: key_alone_def)
      then have "filter (\<lambda>(k, r). sql_like (key @ ''%'') k) f = []" by (auto simp: filter_empty_conv)
      then show ?thesis using True Cons.prems(3) by (simp add: kr sql_like_self)
    next
      case False
      then have "\<not> sql_like (key @ ''%'') k" using Cons.prems(2) by (auto simp: kr key_alone_def)
      moreover have "key_alone key f" using Cons.prems(2) by (auto simp: key_alone_def)
      ultimately show ?thesis using Cons False by (simp add: kr)
    qed
  qed simp
  then show ?thesis using False by (simp add: case_prod_beta)
qed

lemma load_alone:
  assumes "distinct (map fst (w_facts w))" "key_alone key (w_facts w)" "map_of (w_facts w) key = Some r"
    "json_loads (fact_value r) = Some (PDict d)"
  shows "load_breaker_fact key w = d"
  by (simp add: load_breaker_fact_def list_facts_def filter_alone [OF assms(1-3)] newest_first_def sql_limit_def assms(4))

lemma key_alone_set: "key_alone key f \<Longrightarrow> key_alone key (set_fact now key v sc f)"
proof -
  have "set (AList.update key x f) \<subseteq> insert (key, x) (set f)" for x
    by (induction f) auto
  then show "key_alone key f \<Longrightarrow> key_alone key (set_fact now key v sc f)"
    by (fastforce simp: key_alone_def set_fact_def)
qed

lemma breaker_value_state:
  "breaker_value (PFloat m k) n (fact_value r) \<Longrightarrow> \<exists>d. json_loads (fact_value r) = Some (PDict d) \<and>
     (m \<noteq> 0 \<longrightarrow> cooldown_until d = Inr (FNum m k)) \<and> failure_streak d = Inr n"
  by (auto simp: breaker_value_def cooldown_until_def failure_streak_def dict_get_or_def py_or_def)

lemma breaker_opened:
  assumes "facts_ok (w_facts w)" "key_alone (breaker_fact_key t) (w_facts w)"
    "failure_streak (load_breaker_fact (breaker_fact_key t) w) = Inr n"
    "bk_fail_threshold c \<le> n + 1" "n + 1 < bk_escalate_threshold c" "0 < snd told"
    "0 < fst told" "0 < bk_cooldown_seconds c"
    "update_target_breaker_state e told c t False reason w = (r, w')"
  shows "cooldown_until (load_breaker_fact (breaker_fact_key t) w') =
      Inr (FNum (fst told + bk_cooldown_seconds c * 10 ^ snd told) (snd told)) \<and>
    failure_streak (load_breaker_fact (breaker_fact_key t) w') = Inr (n + 1)"
proof -
  define m where "m = fst told + bk_cooldown_seconds c * 10 ^ snd told"
  have "m > 0" using assms(7,8) by (simp add: m_def add_pos_pos)
  let ?key = "breaker_fact_key t"
  let ?v = "json_dumps False (PDict (breaker_payload ''target'' t (n + 1) (PFloat m (snd told)) (e_now_iso e) reason))"
  obtain l where sub: "submit_breaker_fact e ?key ?v w =
      (Inr True, w\<lparr>w_facts := set_fact (e_now_sql e) ?key ?v ''system'' (w_facts w), w_ledger := l\<rparr>)"
    unfolding submit_breaker_fact_def by (rule submit_fact_obtain)
  have "w' = w\<lparr>w_facts := set_fact (e_now_sql e) ?key ?v ''system'' (w_facts w), w_ledger := l\<rparr>"
    using assms(3-5,9) sub
    by (simp add: update_target_breaker_state_def later_by_def m_def Let_def del: json_dumps.simps)
  then have facts: "w_facts w' = set_fact (e_now_sql e) ?key ?v ''system'' (w_facts w)" by simp
  let ?r = "build_fact_upsert (e_now_sql e) ?v ''system''"
  obtain d where d: "json_loads (fact_value ?r) = Some (PDict d)" "cooldown_until d = Inr (FNum m (snd told))"
      "failure_streak d = Inr (n + 1)"
    using breaker_value_state [OF breaker_payload_stored [of "''target''" "snd told" m]] assms(6) \<open>m > 0\<close> by blast
  have "load_breaker_fact ?key w' = d"
  proof (rule load_alone)
    show "distinct (map fst (w_facts w'))"
      unfolding facts set_fact_def by (rule distinct_update) (use assms(1) in \<open>simp add: facts_ok_def\<close>)
    show "key_alone ?key (w_facts w')" unfolding facts by (rule key_alone_set [OF assms(2)])
    show "map_of (w_facts w') ?key = Some ?r" by (simp add: facts set_fact_def update_conv' del: json_dumps.simps)
  qed (rule d(1))
  with d show ?thesis by (simp add: m_def)
qed

text \<open>
  A failure that reaches the threshold without going on to every target opens the breaker of its target for the
  configured time: until then asking it gives the whole seconds that are left and the number of failures.
\<close>

theorem breaker_opens:
  assumes "facts_ok (w_facts w)" "key_alone (breaker_fact_key t) (w_facts w)"
    "failure_streak (load_breaker_fact (breaker_fact_key t) w) = Inr n"
    "bk_fail_threshold c \<le> n + 1" "n + 1 < bk_escalate_threshold c" "0 < snd told"
    "0 < fst told" "0 < bk_cooldown_seconds c"
    "update_target_breaker_state e told c t False reason w = (r, w')"
    "until = fst told + bk_cooldown_seconds c * 10 ^ snd told"
  shows "fst (is_target_breaker_cooling_down e' now t w') =
    Inr (if until * 10 ^ snd now \<le> fst now * 10 ^ snd told then (False, 0, n + 1)
         else (True, (until * 10 ^ snd now - fst now * 10 ^ snd told) div 10 ^ (snd told + snd now), n + 1))"
proof -
  obtain m k where now: "now = (m, k)" by fastforce
  show ?thesis
    using breaker_opened [OF assms(1-9)]
    by (simp add: is_target_breaker_cooling_down_def cooled_down_def assms(10) now suppressed_def bind_res_def Let_def
        add.commute)
qed

lemma breaker_opens_witness:
  "fst (is_target_breaker_cooling_down demo_env (10005, 1) ''file.read''
     (snd (update_target_breaker_state demo_env (5, 1) \<lparr>bk_fail_threshold = 1, bk_escalate_threshold = 3,
        bk_cooldown_seconds = 1800, bk_global_cooldown_seconds = 3600\<rparr> ''file.read'' False ''no'' empty_world))) =
   Inr (True, 800, 1)"
  by (subst breaker_opens [where n = 0, OF _ _ _ _ _ _ _ _ prod.collapse [symmetric] refl])
    (simp_all add: empty_world_def facts_ok_def key_alone_def load_breaker_fact_def list_facts_def newest_first_def sql_limit_def)

end
