(* ===== verification/Py_Time.thy ===== *)
theory Py_Time
  imports Py_Json Complex_Main
begin

text \<open>
  \<open>datetime.fromisoformat\<close> for the dates the program writes and for their variants: \<open>YYYY-MM-DD\<close>, one
  character, \<open>HH\<close>, \<open>HH:MM\<close>, \<open>HH:MM:SS\<close> or \<open>HH:MM:SS\<close> with a fraction, and an offset \<open>Z\<close>, \<open>+HH:MM\<close> or
  \<open>+HH:MM:SS\<close>. The forms without separators and with week numbers, which the program never writes, are not read.
  An instant is its distance from 1970-01-01 UTC in seconds.
\<close>

definition leap_year :: "nat \<Rightarrow> bool" where
  "leap_year y \<longleftrightarrow> 4 dvd y \<and> (\<not> 100 dvd y \<or> 400 dvd y)"

definition month_days :: "nat \<Rightarrow> nat \<Rightarrow> nat" where
  "month_days y m = (if m = 2 then (if leap_year y then 29 else 28) else if m \<in> {4, 6, 9, 11} then 30 else 31)"

definition days_before_year :: "nat \<Rightarrow> nat" where
  "days_before_year y = (let p = y - 1 in 365 * p + p div 4 - p div 100 + p div 400)"

text \<open>719162 days lie between the first day of the year 1 and the first of 1970.\<close>

definition epoch_day :: "nat \<Rightarrow> nat \<Rightarrow> nat \<Rightarrow> int" where
  "epoch_day y m d = int (days_before_year y + sum_list (map (month_days y) [1..<m]) + (d - 1)) - 719162"

definition digits_of :: "nat \<Rightarrow> string \<Rightarrow> (nat \<times> string) option" where
  "digits_of n s = (let d = take n s in
     if length d = n \<and> list_all is_digit d then Some (digits_nat d, drop n s) else None)"

definition after_char :: "char \<Rightarrow> string \<Rightarrow> string option" where
  "after_char c s = (case s of d # ds \<Rightarrow> if d = c then Some ds else None | [] \<Rightarrow> None)"

definition colon_pair :: "string \<Rightarrow> (nat \<times> string) option" where
  "colon_pair s = Option.bind (after_char (CHR '':'') s) (digits_of 2)"

text \<open>The hours and what follows them; a fraction is cut to microseconds.\<close>

definition fraction_of :: "string \<Rightarrow> (rat \<times> string) option" where
  "fraction_of s = (case s of
      c # cs \<Rightarrow> if c = CHR ''.'' \<or> c = CHR '','' then
          (let d = takeWhile is_digit cs; u = take 6 d in
           if d = [] then None else Some (of_nat (digits_nat u) / 10 ^ length u, dropWhile is_digit cs))
        else Some (0, s)
    | [] \<Rightarrow> Some (0, []))"

definition clock_of :: "string \<Rightarrow> (nat \<times> nat \<times> nat \<times> rat \<times> string) option" where
  "clock_of s = Option.bind (digits_of 2 s) (\<lambda>(h, r1). case colon_pair r1 of
       None \<Rightarrow> if after_char (CHR '':'') r1 = None then Some (h, 0, 0, 0, r1) else None
     | Some (m, r2) \<Rightarrow> (case colon_pair r2 of
           None \<Rightarrow> if after_char (CHR '':'') r2 = None then Some (h, m, 0, 0, r2) else None
         | Some (sec, r3) \<Rightarrow> map_option (\<lambda>(f, r4). (h, m, sec, f, r4)) (fraction_of r3)))"

definition clock_seconds :: "string \<Rightarrow> (rat \<times> string) option" where
  "clock_seconds s = Option.bind (clock_of s) (\<lambda>(h, m, sec, f, r).
     if h < 24 \<and> m < 60 \<and> sec < 60 then Some (of_nat (3600 * h + 60 * m + sec) + f, r) else None)"

text \<open>The offset: none, or its distance from UTC in seconds.\<close>

definition zone_of :: "string \<Rightarrow> rat option option" where
  "zone_of s = (case s of
      [] \<Rightarrow> Some None
    | c # cs \<Rightarrow> if c = CHR ''Z'' then (if cs = [] then Some (Some 0) else None)
        else if c = CHR ''+'' \<or> c = CHR ''-'' then (case clock_seconds cs of
            Some (t, []) \<Rightarrow> Some (Some (if c = CHR ''-'' then - t else t)) | _ \<Rightarrow> None)
        else None)"

definition day_of :: "string \<Rightarrow> (int \<times> string) option" where
  "day_of s = Option.bind (digits_of 4 s) (\<lambda>(y, r1). Option.bind (after_char (CHR ''-'') r1) (\<lambda>r2.
     Option.bind (digits_of 2 r2) (\<lambda>(m, r3). Option.bind (after_char (CHR ''-'') r3) (\<lambda>r4.
     Option.bind (digits_of 2 r4) (\<lambda>(d, r5).
       if 1 \<le> y \<and> 1 \<le> m \<and> m \<le> 12 \<and> 1 \<le> d \<and> d \<le> month_days y m then Some (epoch_day y m d, r5) else None)))))"

text \<open>\<open>Some (t, z)\<close>: the wall clock \<open>t\<close> with the offset \<open>z\<close>, if one is given; \<open>None\<close>: it raises.\<close>

definition fromisoformat :: "string \<Rightarrow> (rat \<times> rat option) option" where
  "fromisoformat s = Option.bind (day_of s) (\<lambda>(d, r). case r of
       [] \<Rightarrow> Some (of_int d * 86400, None)
     | sep # t \<Rightarrow> Option.bind (clock_seconds t) (\<lambda>(c, r'). map_option (\<lambda>z. (of_int d * 86400 + c, z)) (zone_of r')))"

text \<open>\<open>dt.replace(tzinfo=UTC)\<close> when there is no offset.\<close>

definition instant_of :: "rat \<times> rat option \<Rightarrow> rat" where
  "instant_of tz = (case snd tz of None \<Rightarrow> fst tz | Some z \<Rightarrow> fst tz - z)"

text \<open>\<open>s.replace("Z", "+00:00")\<close>.\<close>

definition zulu :: "string \<Rightarrow> string" where
  "zulu s = concat (map (\<lambda>c. if c = CHR ''Z'' then ''+00:00'' else [c]) s)"

end
