(* ===== verification/Py_Re.thy ===== *)
theory Py_Re
  imports Py
begin

text \<open>
  Backtracking matching as \<open>re\<close> does it: a pattern yields its matches at a position in the order in which they
  are tried, and the first one counts. A match is the text it took, what follows it, and the groups it set.
\<close>

datatype re =
    One "char \<Rightarrow> bool"
  | Chars string
  | Both re re
  | Choice re re
  | Many bool re
  | Group nat re

type_synonym match = "string \<times> string \<times> (nat \<times> string) list"

text \<open>A repetition (the flag says whether it is greedy): a round that takes nothing ends it.\<close>

fun many_matches :: "(string \<Rightarrow> match list) \<Rightarrow> bool \<Rightarrow> nat \<Rightarrow> string \<Rightarrow> match list" where
  "many_matches f greedy 0 s = [([], s, [])]"
| "many_matches f greedy (Suc n) s =
     (let more = concat (map (\<lambda>(u, r, g). if u = [] then []
                   else map (\<lambda>(u', r', g'). (u @ u', r', g @ g')) (many_matches f greedy n r)) (f s))
      in if greedy then more @ [([], s, [])] else ([], s, []) # more)"

primrec matches_of :: "re \<Rightarrow> string \<Rightarrow> match list" where
  "matches_of (One p) s = (case s of [] \<Rightarrow> [] | c # cs \<Rightarrow> if p c then [([c], cs, [])] else [])"
| "matches_of (Chars t) s = (if prefix t s then [(t, drop (length t) s, [])] else [])"
| "matches_of (Both a b) s = concat (map (\<lambda>(u, r, g). map (\<lambda>(u', r', g'). (u @ u', r', g @ g')) (matches_of b r)) (matches_of a s))"
| "matches_of (Choice a b) s = matches_of a s @ matches_of b s"
| "matches_of (Many greedy a) s = many_matches (matches_of a) greedy (length s) s"
| "matches_of (Group i a) s = map (\<lambda>(u, r, g). (u, r, g @ [(i, u)])) (matches_of a s)"

fun re_search :: "re \<Rightarrow> string \<Rightarrow> match option" where
  "re_search p [] = (case matches_of p [] of [] \<Rightarrow> None | m # _ \<Rightarrow> Some m)"
| "re_search p (c # cs) = (case matches_of p (c # cs) of [] \<Rightarrow> re_search p cs | m # _ \<Rightarrow> Some m)"

definition group_of :: "nat \<Rightarrow> match \<Rightarrow> string" where
  "group_of i m = (if i = 0 then fst m else (case map_of (rev (snd (snd m))) i of None \<Rightarrow> [] | Some t \<Rightarrow> t))"

fun re_all :: "re list \<Rightarrow> re" where
  "re_all [] = Chars []"
| "re_all [a] = a"
| "re_all (a # as) = Both a (re_all as)"

definition any_char :: "bool \<Rightarrow> re" where
  "any_char greedy = Many greedy (One (\<lambda>_. True))"

definition re_opt :: "re \<Rightarrow> re" where
  "re_opt a = Choice a (Chars [])"

definition re_plus :: "bool \<Rightarrow> re \<Rightarrow> re" where
  "re_plus greedy a = Both a (Many greedy a)"

lemma matches_of_split: "(u, r, g) \<in> set (matches_of p s) \<Longrightarrow> s = u @ r"
proof (induction p arbitrary: u r g s)
  case (One p)
  then show ?case by (auto split: list.splits if_splits)
next
  case (Chars t)
  then show ?case by (auto split: if_splits elim: prefixE)
next
  case (Both a b)
  then show ?case by fastforce
next
  case (Many greedy a)
  have "s = u @ r" if "(u, r, g) \<in> set (many_matches (matches_of a) greedy n s)" for n u r g s
    using that
  proof (induction n arbitrary: u r g s)
    case (Suc n)
    from Suc.prems consider "u = []" "r = s"
      | u0 r0 g0 u' g' where "(u0, r0, g0) \<in> set (matches_of a s)" "(u', r, g') \<in> set (many_matches (matches_of a) greedy n r0)"
          "u = u0 @ u'"
      by (auto simp: Let_def split: if_splits)
    then show ?case
    proof cases
      case 2
      then show ?thesis using Many.IH [OF 2(1)] Suc.IH [OF 2(2)] by simp
    qed simp
  qed simp
  then show ?case using Many.prems by simp
qed auto

lemma re_search_within: "re_search p s = Some (u, r, g) \<Longrightarrow> \<exists>before. s = before @ u @ r"
proof (induction s)
  case (Cons c cs)
  then show ?case
  proof (cases "matches_of p (c # cs)")
    case Nil
    then obtain before where "cs = before @ u @ r" using Cons by auto
    then show ?thesis by (intro exI [of _ "c # before"]) simp
  next
    case (Cons m ms)
    then have "(u, r, g) \<in> set (matches_of p (c # cs))" using Cons.prems by simp
    then show ?thesis using matches_of_split by fastforce
  qed
next
  case Nil
  then have "(u, r, g) \<in> set (matches_of p [])" by (auto split: list.splits)
  then show ?case using matches_of_split by fastforce
qed

end
