(* ===== verification/Evo_Files.thy ===== *)
theory Evo_Files
  imports Evo_Breaker Py_Time Py_Re
begin

text \<open>
  What the self-evolution (\<open>core/evolution\<close>) works on: the store, the files of the project, the modules that are
  loaded, the registry of the tools and the calls of the model, with the small operations its parts share. The
  model's answers, Python's compiler, what loading a module does, the subprocess of a smoke test, faults of the
  file system and the texts are functions of the environment. A path is its text, relative to the root of the project.
\<close>

section \<open>State and environment\<close>

record evo_st =
  es_world :: world
  es_failures :: failures
  es_files :: "(string \<times> string) list"
  es_modules :: "(string \<times> string) list"
  es_tools :: "(string \<times> string) list"
  es_asked :: nat
  es_stamps :: nat

text \<open>A message is its role and its text; \<open>ev_exec\<close> gives the tools that a module registers when it is run, and
  what it raises; a write that fails may leave another text in the file.\<close>

type_synonym chat_line = "string \<times> string"

record evo_env =
  ev_env :: env
  ev_now :: clock
  ev_today :: string
  ev_stamp :: "nat \<Rightarrow> string"
  ev_chat :: "nat \<Rightarrow> chat_line list \<Rightarrow> pyval \<Rightarrow> string res"
  ev_say :: "string \<Rightarrow> string list \<Rightarrow> string"
  ev_load_prompt :: "string \<Rightarrow> string res"
  ev_compile :: "string \<Rightarrow> exn option"
  ev_parse :: "string \<Rightarrow> exn option"
  ev_probe :: "string \<Rightarrow> string \<Rightarrow> string option"
  ev_exec :: "string \<Rightarrow> string \<Rightarrow> string list \<times> exn option"
  ev_read_fault :: "string \<Rightarrow> exn option"
  ev_write_fault :: "string \<Rightarrow> string \<Rightarrow> (exn \<times> string option) option"
  ev_mtime :: "string \<Rightarrow> int"
  ev_trace :: "exn \<Rightarrow> string"
  ev_tools_dir :: string
  ev_dreams :: string
  ev_prompt_path :: "string \<Rightarrow> string option"
  ev_workspace :: string
  ev_reload_skills :: "exn option"
  ev_retrieve :: "evo_st \<Rightarrow> node list res"
  ev_constitution :: constitution
  ev_constitution_path :: string
  ev_file_at :: "string \<Rightarrow> string option"
  ev_boundary_title :: "string \<Rightarrow> bool"
  ev_unix_time :: "int \<times> nat"

record evo_cfg =
  ec_enabled :: bool
  ec_max_attempts :: nat
  ec_backup :: bool
  ec_backup_keep :: nat
  ec_min_runs :: int
  ec_rollback :: bool
  ec_trigger_min :: int
  ec_window_minutes :: int
  ec_candidates :: int
  ec_breakers :: breaker_cfg
  ec_ethos_max_delta :: rat
  ec_ethos_seed :: "string \<Rightarrow> pyfloat"

type_synonym 'a evo = "evo_st \<Rightarrow> 'a res \<times> evo_st"

record evolution_result =
  er_success :: bool
  er_target :: string
  er_reason :: string
  er_new_code :: string

definition evolution_failed :: "string \<Rightarrow> string \<Rightarrow> evolution_result" where
  "evolution_failed target reason = \<lparr>er_success = False, er_target = target, er_reason = reason, er_new_code = []\<rparr>"

definition on_world :: "(world \<Rightarrow> 'a res \<times> world) \<Rightarrow> 'a evo" where
  "on_world f s = (let (r, w) = f (es_world s) in (r, s\<lparr>es_world := w\<rparr>))"

section \<open>Files\<close>

definition file_text :: "string \<Rightarrow> evo_st \<Rightarrow> string option" where
  "file_text p s = map_of (es_files s) p"

definition file_exists :: "string \<Rightarrow> evo_st \<Rightarrow> bool" where
  "file_exists p s = (file_text p s \<noteq> None)"

definition read_text :: "evo_env \<Rightarrow> string \<Rightarrow> string evo" where
  "read_text E p s = (case file_text p s of
      None \<Rightarrow> (Inl (Exn ''FileNotFoundError'' p), s)
    | Some t \<Rightarrow> (case ev_read_fault E p of Some x \<Rightarrow> (Inl x, s) | None \<Rightarrow> (Inr t, s)))"

definition write_text :: "evo_env \<Rightarrow> string \<Rightarrow> string \<Rightarrow> unit evo" where
  "write_text E p t s = (case ev_write_fault E p t of
      None \<Rightarrow> (Inr (), s\<lparr>es_files := AList.update p t (es_files s)\<rparr>)
    | Some (x, left) \<Rightarrow> (Inl x, case left of None \<Rightarrow> s | Some u \<Rightarrow> s\<lparr>es_files := AList.update p u (es_files s)\<rparr>))"

definition unlink :: "string \<Rightarrow> evo_st \<Rightarrow> evo_st" where
  "unlink p s = s\<lparr>es_files := AList.delete p (es_files s)\<rparr>"

text \<open>\<open>path.read_text() if path.exists() else ""\<close>.\<close>

definition text_or_empty :: "evo_env \<Rightarrow> string \<Rightarrow> string evo" where
  "text_or_empty E p s = (if file_exists p s then read_text E p s else (Inr [], s))"

text \<open>A tool's file, by its directory and the stem of its name.\<close>

type_synonym tool_path = "string \<times> string"

definition tool_file :: "tool_path \<Rightarrow> string" where
  "tool_file p = fst p @ snd p @ ''.py''"

definition backup_file :: "tool_path \<Rightarrow> string" where
  "backup_file p = fst p @ snd p @ ''.py.bak''"

definition tool_module :: "tool_path \<Rightarrow> string" where
  "tool_module p = ''tools.'' @ snd p"

text \<open>\<open>Path(__file__).parent.parent / "tools"\<close>, of the file \<open>core/evolution/__init__.py\<close>.\<close>

definition engine_tools_dir :: string where
  "engine_tools_dir = ''core/tools/''"

section \<open>Modules and tools\<close>

definition reload_module_from_path :: "evo_env \<Rightarrow> string \<Rightarrow> string \<Rightarrow> unit evo" where
  "reload_module_from_path E name path s = (case file_text path s of
      None \<Rightarrow> (Inl (Exn ''RuntimeError'' (ev_say E ''reload_failed'' [name])), s)
    | Some src \<Rightarrow> (let (registered, raised) = ev_exec E name src;
          s1 = s\<lparr>es_modules := AList.update name src (es_modules s),
                 es_tools := fold (\<lambda>t. AList.update t src) registered (es_tools s)\<rparr>
        in case raised of None \<Rightarrow> (Inr (), s1) | Some x \<Rightarrow> (Inl (Exn ''RuntimeError'' (ev_say E ''reload_failed'' [name, exn_msg x])), s1)))"

definition is_registered_tool :: "string \<Rightarrow> evo_st \<Rightarrow> bool" where
  "is_registered_tool name s = (map_of (es_tools s) name \<noteq> None)"

text \<open>A call of the model.\<close>

definition ask_provider :: "evo_env \<Rightarrow> chat_line list \<Rightarrow> pyval \<Rightarrow> string evo" where
  "ask_provider E msgs temperature s = (ev_chat E (es_asked s) msgs temperature, s\<lparr>es_asked := es_asked s + 1\<rparr>)"

section \<open>Old backups and smoke tests\<close>

text \<open>\<open>parent.glob(stem + ".backup-*") + parent.glob(stem + ".lingzhou-backup")\<close>, oldest first.\<close>

definition old_backups :: "evo_env \<Rightarrow> tool_path \<Rightarrow> evo_st \<Rightarrow> string list" where
  "old_backups E p s = (let base = fst p @ snd p; names = map fst (es_files s) in
     sort_key (ev_mtime E)
       (filter (\<lambda>n. startswith n (base @ ''.backup-'') \<and> CHR ''/'' \<notin> set (drop (length base) n)) names @
        filter (\<lambda>n. n = base @ ''.lingzhou-backup'') names))"

definition clean_old_backups :: "evo_env \<Rightarrow> tool_path \<Rightarrow> nat \<Rightarrow> evo_st \<Rightarrow> evo_st" where
  "clean_old_backups E p keep s = (let bs = old_backups E p s in
     fold unlink (if length bs > keep then (if keep = 0 then [] else take (length bs - keep) bs) else []) s)"

definition smoke_failed_source :: "tool_path \<Rightarrow> string" where
  "smoke_failed_source p = fst p @ ''.'' @ snd p @ ''.smoke-failed.py''"

definition smoke_failed_log :: "tool_path \<Rightarrow> string" where
  "smoke_failed_log p = fst p @ ''.'' @ snd p @ ''.smoke-failed.log''"

definition clear_smoke_failure_artifacts :: "tool_path \<Rightarrow> evo_st \<Rightarrow> evo_st" where
  "clear_smoke_failure_artifacts p s = unlink (smoke_failed_log p) (unlink (smoke_failed_source p) s)"

definition try_write :: "evo_env \<Rightarrow> string \<Rightarrow> string \<Rightarrow> evo_st \<Rightarrow> string option \<times> evo_st" where
  "try_write E path txt s = (case write_text E path txt s of
      (Inl x, s') \<Rightarrow> (None, s') | (Inr u, s') \<Rightarrow> (Some path, s'))"

definition persist_smoke_failure_artifacts ::
    "evo_env \<Rightarrow> tool_path \<Rightarrow> string \<Rightarrow> string \<Rightarrow> evo_st \<Rightarrow> (string option \<times> string option) \<times> evo_st" where
  "persist_smoke_failure_artifacts E p src detail s =
    (let (source, s1) = try_write E (smoke_failed_source p) src s;
         (lg, s2) = try_write E (smoke_failed_log p) detail s1 in ((source, lg), s2))"

definition format_smoke_failure_message :: "string \<Rightarrow> string \<Rightarrow> string option \<Rightarrow> string option \<Rightarrow> string" where
  "format_smoke_failure_message rel_path detail source lg =
    ''smoke test failed | '' @ join '' | '' ([''module='' @ rel_path] @
       (case source of None \<Rightarrow> [] | Some p \<Rightarrow> [''failed_source='' @ p]) @
       (case lg of None \<Rightarrow> [] | Some p \<Rightarrow> [''failed_log='' @ p])) @ [char_of (10::nat), char_of (10::nat)] @ detail"

text \<open>\<open>None\<close>: the module passed.\<close>

definition smoke_test_module :: "evo_env \<Rightarrow> tool_path \<Rightarrow> string \<Rightarrow> evo_st \<Rightarrow> string option \<times> evo_st" where
  "smoke_test_module E p src s = (case ev_probe E (tool_file p) src of
      None \<Rightarrow> (None, clear_smoke_failure_artifacts p s)
    | Some detail \<Rightarrow> (let ((source, lg), s') = persist_smoke_failure_artifacts E p src detail s in
        (Some (format_smoke_failure_message (tool_file p) detail source lg), s')))"

section \<open>History, dreams, pending verifications\<close>

definition write_fact :: "evo_env \<Rightarrow> string \<Rightarrow> string \<Rightarrow> string \<Rightarrow> bool evo" where
  "write_fact E key v source = on_world (submit_fact (ev_env E) key (PStr v) ''system'' source 0 [])"

definition remove_fact :: "evo_env \<Rightarrow> string \<Rightarrow> string \<Rightarrow> bool evo" where
  "remove_fact E key source = on_world (submit_delete_fact (ev_env E) key ''system'' source 0 [])"

definition history_fact :: "evo_env \<Rightarrow> dict \<Rightarrow> unit evo" where
  "history_fact E d s = suppressed (write_fact E (''evolution:history:'' @ ev_stamp E (es_stamps s))
     (json_dumps False (PDict d)) ''evolution/history'' (s\<lparr>es_stamps := es_stamps s + 1\<rparr>))"

definition write_evolution_history_fact :: "evo_env \<Rightarrow> bool \<Rightarrow> string \<Rightarrow> bool \<Rightarrow> string \<Rightarrow> unit evo" where
  "write_evolution_history_fact E has_ctx tool success reason s = (if \<not> has_ctx then (Inr (), s)
    else history_fact E [(''tool'', PStr tool), (''success'', PBool success), (''reason'', PStr reason),
      (''at'', PStr (e_now_iso (ev_env E)))] s)"

text \<open>Only the reading of the file is outside of the \<open>try\<close>.\<close>

definition update_dreams :: "evo_env \<Rightarrow> bool \<Rightarrow> string \<Rightarrow> unit evo" where
  "update_dreams E has_ctx desc s = (if \<not> file_exists (ev_dreams E) s then (Inr (), s)
    else then_do (read_text E (ev_dreams E) s) (\<lambda>current s.
      suppressed (then_do (ask_provider E [(''system'', ev_say E ''dreams_system'' []),
          (''user'', ev_say E ''dreams_user'' [desc, last_chars 800 current])] PNone s) (\<lambda>answer s.
        let aspiration = strip answer in
        if aspiration = [] \<or> 120 < length aspiration then (Inr (), s)
        else then_do (write_text E (ev_dreams E) (the (file_text (ev_dreams E) s) @ [char_of (10::nat)] @
            ''- ['' @ ev_today E @ ''] '' @ aspiration) s) (\<lambda>_ s.
          if has_ctx then history_fact E [(''desc'', PStr desc), (''aspiration'', PStr aspiration),
              (''at'', PStr (e_now_iso (ev_env E)))] s
          else (Inr (), s))))))"

record metrics =
  mt_failures :: nat
  mt_runs :: nat
  mt_successes :: nat

definition earliest :: rat where
  "earliest = - 62135596800"

definition latest :: rat where
  "latest = 253402300800"

text \<open>\<open>_parse_ts\<close>: what cannot be read, or is no date in UTC, is the beginning of the epoch.\<close>

definition parse_ts :: "string \<Rightarrow> rat" where
  "parse_ts raw = (let t = strip raw; u = (if endswith t ''Z'' then take (length t - 1) t @ ''+00:00'' else t) in
     if t = [] then 0
     else (case fromisoformat u of None \<Rightarrow> 0
       | Some tz \<Rightarrow> if earliest \<le> instant_of tz \<and> instant_of tz < latest then instant_of tz else 0))"

definition counted_since :: "rat option \<Rightarrow> string \<Rightarrow> bool" where
  "counted_since since stamp \<longleftrightarrow> (case since of None \<Rightarrow> True | Some t \<Rightarrow> t \<le> parse_ts stamp)"

definition gather_target_validation_metrics :: "string \<Rightarrow> rat option \<Rightarrow> evo_st \<Rightarrow> metrics" where
  "gather_target_validation_metrics target since s =
    (let fs = filter (\<lambda>f. f_kind f = target \<and> counted_since since (f_created_at f)) (list_failures 200 (es_failures s));
         rs = filter (\<lambda>r. r_tool_name r = PStr target \<and> counted_since since (r_created_at r))
           (list_runs None None 200 (w_runs (es_world s)))
     in \<lparr>mt_failures = length fs, mt_runs = length rs,
         mt_successes = length (filter (\<lambda>r. r_status r = ''succeeded'') rs)\<rparr>)"

definition metrics_value :: "metrics \<Rightarrow> pyval" where
  "metrics_value m = PDict [(''failures'', PInt (int (mt_failures m))), (''runs'', PInt (int (mt_runs m))),
     (''successes'', PInt (int (mt_successes m)))]"

definition write_pending_verification_fact :: "evo_env \<Rightarrow> string \<Rightarrow> tool_path \<Rightarrow> bool evo" where
  "write_pending_verification_fact E target p s =
    write_fact E (verification_fact_key target) (json_dumps False (PDict [(''target'', PStr target),
      (''tool_path'', PStr (tool_file p)), (''backup_path'', PStr (backup_file p)),
      (''created_at'', PStr (e_now_iso (ev_env E))),
      (''baseline'', metrics_value (gather_target_validation_metrics target None s))])) ''evolution/verify_setup'' s"

end
