(* ===== verification/Evo_Tool.thy ===== *)
theory Evo_Tool
  imports Evo_Files
begin

text \<open>
  Rewriting a tool (\<open>core/evolution/tool.py\<close>): a candidate of the model is compiled, tested in a subprocess, written,
  loaded, and kept if the whole project still parses; otherwise the old text comes back. A second way, for several
  candidates at once, promotes the best of them.
\<close>

section \<open>Choosing and reading a candidate\<close>

definition count_lines :: "(string \<Rightarrow> bool) \<Rightarrow> string \<Rightarrow> int" where
  "count_lines p code = int (length (filter (\<lambda>l. p (strip l)) (split_lines code)))"

definition score_candidate :: "string \<Rightarrow> int" where
  "score_candidate code = (let n = length (split_lines code) in
     100 + min (count_lines (\<lambda>l. startswith l ''except'') code * 10) 50
     + (if contains code ''_log.'' \<or> contains code ''logging.'' then 5 else 0)
     + (if 50 \<le> n \<and> n \<le> 300 then 5 else if 400 < n then - 10 else 0)
     - count_lines (\<lambda>l. startswith l ''print('') code * 5)"

definition python_fence :: re where
  "python_fence = re_all [Chars ''```'', re_opt (Chars ''python''), Many True (One is_space),
     Group 1 (re_plus False (One (\<lambda>_. True))), Chars ''```'']"

definition extract_python :: "string \<Rightarrow> string" where
  "extract_python t = (case re_search python_fence t of None \<Rightarrow> strip t | Some m \<Rightarrow> strip (group_of 1 m))"

text \<open>\<open>s.replace(old, new)\<close>, from left to right; the number counts what is left of a match.\<close>

fun subst_from :: "string \<Rightarrow> string \<Rightarrow> nat \<Rightarrow> string \<Rightarrow> string" where
  "subst_from old new n [] = []"
| "subst_from old new (Suc n) (c # cs) = subst_from old new n cs"
| "subst_from old new 0 (c # cs) = (if prefix old (c # cs) then new @ subst_from old new (length old - 1) cs
     else c # subst_from old new 0 cs)"

definition fill_prompt :: "string \<Rightarrow> string \<Rightarrow> string \<Rightarrow> string \<Rightarrow> string" where
  "fill_prompt template name src feedback = subst_from ''{{failure_summary}}'' feedback 0
     (subst_from ''{{current_source}}'' src 0 (subst_from ''{{tool_name}}'' name 0 template))"

definition replace_dots :: "string \<Rightarrow> string" where
  "replace_dots name = map (\<lambda>c. if c = CHR ''.'' then CHR ''_'' else c) name"

definition find_tool_path :: "evo_env \<Rightarrow> string \<Rightarrow> evo_st \<Rightarrow> tool_path option" where
  "find_tool_path E name s = (let own = (ev_tools_dir E, replace_dots name);
       shared = (ev_tools_dir E, takeWhile (\<lambda>c. c \<noteq> CHR ''.'') name)
     in if file_exists (tool_file own) s then Some own
        else if file_exists (tool_file shared) s then Some shared else None)"

section \<open>Rewriting a tool\<close>

definition syntax_error :: "exn \<Rightarrow> bool" where
  "syntax_error x \<longleftrightarrow> exn_class x \<in> {''SyntaxError'', ''IndentationError'', ''TabError''}"

definition raise_if :: "exn option \<Rightarrow> unit evo" where
  "raise_if x s = (case x of None \<Rightarrow> (Inr (), s) | Some e \<Rightarrow> (Inl e, s))"

text \<open>Load the module of the tool; on any failure the old text is written and loaded again.\<close>

definition load_or_restore :: "evo_env \<Rightarrow> string \<Rightarrow> tool_path \<Rightarrow> string \<Rightarrow> bool \<Rightarrow> unit evo" where
  "load_or_restore E name p old quiet s =
    or_else (then_do (reload_module_from_path E (tool_module p) (tool_file p) s) (\<lambda>_ s.
        raise_if (if is_registered_tool name s then None
                  else Some (Exn ''RuntimeError'' (ev_say E ''not_registered'' [name]))) s))
      (\<lambda>x s. then_do (write_text E (tool_file p) old s) (\<lambda>_ s.
         then_do (let again = reload_module_from_path E (tool_module p) (tool_file p) s in
             if quiet then suppressed again else again) (\<lambda>_ s. (Inl x, s))))"

text \<open>All sources of the project, by their path: \<open>Inr True\<close> when each one parses.\<close>

definition project_source :: "string \<Rightarrow> bool" where
  "project_source path \<longleftrightarrow> endswith path ''.py'' \<and> \<not> contains path ''__pycache__'' \<and>
     \<not> contains path ''.py.bak'' \<and> \<not> contains path ''.lingzhou-backup''"

fun sources_parse :: "evo_env \<Rightarrow> string list \<Rightarrow> evo_st \<Rightarrow> bool res" where
  "sources_parse E [] s = Inr True"
| "sources_parse E (path # rest) s = (case fst (read_text E path s) of Inl x \<Rightarrow> Inl x
     | Inr src \<Rightarrow> (case ev_parse E src of
         None \<Rightarrow> sources_parse E rest s
       | Some x \<Rightarrow> if syntax_error x then bind_res (sources_parse E rest s) (\<lambda>_. Inr False) else Inl x))"

definition project_parses :: "evo_env \<Rightarrow> evo_st \<Rightarrow> bool res" where
  "project_parses E s = sources_parse E (sort (filter project_source (map fst (es_files s)))) s"

definition write_backup :: "evo_env \<Rightarrow> evo_cfg \<Rightarrow> tool_path \<Rightarrow> string \<Rightarrow> unit evo" where
  "write_backup E c p old s = (if ec_backup c \<and> file_exists (tool_file p) s
     then then_do (write_text E (backup_file p) old s) (\<lambda>_ s. (Inr (), clean_old_backups E p (ec_backup_keep c) s))
     else (Inr (), s))"

text \<open>What an evolution leaves behind when it succeeded.\<close>

definition note_success ::
    "evo_env \<Rightarrow> evo_cfg \<Rightarrow> bool \<Rightarrow> string \<Rightarrow> tool_path \<Rightarrow> string \<Rightarrow> string \<Rightarrow> unit evo" where
  "note_success E c has_ctx name p dream reason s =
    then_do (if has_ctx \<and> ec_backup c \<and> file_exists (backup_file p) s
        then write_pending_verification_fact E name p s else (Inr True, s)) (\<lambda>_ s.
      then_do (update_dreams E has_ctx dream s) (\<lambda>_. write_evolution_history_fact E has_ctx name True reason))"

datatype attempt_end = Evolved string | Untested string | Broken string | Unparsed

text \<open>
  One round of the loop, up to its \<open>continue\<close> or \<open>return\<close>, for the code of a model's answer, in three parts: the code is
  compiled and tested (with the message of the smoke test when it fails), written and loaded, and kept or taken back.
\<close>

definition check_candidate :: "evo_env \<Rightarrow> evo_cfg \<Rightarrow> tool_path \<Rightarrow> string \<Rightarrow> string \<Rightarrow> string option evo" where
  "check_candidate E c p old code s =
    then_do (raise_if (ev_compile E code) s) (\<lambda>_ s.
    then_do (write_backup E c p old s) (\<lambda>_ s.
    then_do (raise_if (case ev_parse E code of None \<Rightarrow> None
        | Some x \<Rightarrow> Some (if syntax_error x then Exn ''ValueError'' (''Syntax error in generated tool source: '' @ exn_msg x) else x)) s) (\<lambda>_ s.
      let (message, s') = smoke_test_module E p code s in (Inr message, s'))))"

definition settle_candidate ::
    "evo_env \<Rightarrow> evo_cfg \<Rightarrow> bool \<Rightarrow> string \<Rightarrow> tool_path \<Rightarrow> string \<Rightarrow> string \<Rightarrow> attempt_end evo" where
  "settle_candidate E c has_ctx name p old code s =
    then_do (project_parses E s, s) (\<lambda>all_ok s.
      if \<not> all_ok then
        then_do (if file_exists (tool_file p) s \<and> old \<noteq> []
          then then_do (write_text E (tool_file p) old s) (\<lambda>_. reload_module_from_path E (tool_module p) (tool_file p))
          else (Inr (), s)) (\<lambda>_ s. (Inr Unparsed, s))
      else then_do (note_success E c has_ctx name p (ev_say E ''dream_evolved'' [name]) [] s) (\<lambda>_ s. (Inr (Evolved code), s)))"

definition try_candidate ::
    "evo_env \<Rightarrow> evo_cfg \<Rightarrow> bool \<Rightarrow> string \<Rightarrow> tool_path \<Rightarrow> string \<Rightarrow> string \<Rightarrow> attempt_end evo" where
  "try_candidate E c has_ctx name p old code s =
    then_do (check_candidate E c p old code s) (\<lambda>failed s. case failed of
      Some message \<Rightarrow> (Inr (Untested message), s)
    | None \<Rightarrow> then_do (write_text E (tool_file p) code s) (\<lambda>_ s.
        then_do (load_or_restore E name p old False s) (\<lambda>_.
          settle_candidate E c has_ctx name p old code)))"

text \<open>The handler of any exception but a syntax error.\<close>

definition give_up :: "evo_env \<Rightarrow> bool \<Rightarrow> string \<Rightarrow> tool_path \<Rightarrow> string \<Rightarrow> exn \<Rightarrow> evolution_result evo" where
  "give_up E has_ctx name p old x s =
    then_do (if file_exists (tool_file p) s \<and> old \<noteq> []
        then then_do (write_text E (tool_file p) old s) (\<lambda>_ s.
          suppressed (reload_module_from_path E (tool_module p) (tool_file p) s))
        else (Inr (), s)) (\<lambda>_ s.
      then_do (write_evolution_history_fact E has_ctx name False (ev_trace E x) s) (\<lambda>_ s.
        (Inr (evolution_failed name (ev_trace E x)), s)))"

text \<open>\<open>left\<close> rounds are left, \<open>draft\<close> is the code of the last answer.\<close>

fun evolve_rounds ::
    "evo_env \<Rightarrow> evo_cfg \<Rightarrow> bool \<Rightarrow> string \<Rightarrow> tool_path \<Rightarrow> string \<Rightarrow> nat \<Rightarrow> string \<Rightarrow> chat_line list \<Rightarrow> evolution_result evo" where
  "evolve_rounds E c has_ctx name p old 0 draft msgs s =
    (let reason = ev_say E ''too_many_attempts'' [dec_nat (ec_max_attempts c)] in
     then_do (write_evolution_history_fact E has_ctx name False reason s) (\<lambda>_ s. (Inr (evolution_failed name reason), s)))"
| "evolve_rounds E c has_ctx name p old (Suc left) draft msgs s =
    (let (answer, s1) = ask_provider E msgs PNone s;
         code = (case answer of Inl x \<Rightarrow> draft | Inr t \<Rightarrow> extract_python t);
         more = (\<lambda>txt. if 0 < left then msgs @ [(''assistant'', code), (''user'', txt)] else msgs);
         (r, s2) = (case answer of Inl x \<Rightarrow> (Inl x, s1) | Inr t \<Rightarrow> try_candidate E c has_ctx name p old code s1)
     in case r of
          Inr (Evolved new) \<Rightarrow> (Inr \<lparr>er_success = True, er_target = name, er_reason = [], er_new_code = new\<rparr>, s2)
        | Inr (Untested message) \<Rightarrow>
            evolve_rounds E c has_ctx name p old left code (more (ev_say E ''fix_runtime'' [message])) s2
        | Inr _ \<Rightarrow> evolve_rounds E c has_ctx name p old left code msgs s2
        | Inl x \<Rightarrow>
            if syntax_error x then evolve_rounds E c has_ctx name p old left code (more (ev_say E ''fix_syntax'' [exn_msg x])) s2
            else give_up E has_ctx name p old x s2)"

definition evolution_prompt :: "evo_env \<Rightarrow> string \<Rightarrow> string \<Rightarrow> string \<Rightarrow> string res" where
  "evolution_prompt E name src feedback =
     bind_res (ev_load_prompt E ''evolution'') (\<lambda>t. Inr (fill_prompt t name src feedback))"

definition evolve_tool ::
    "evo_env \<Rightarrow> evo_cfg \<Rightarrow> bool \<Rightarrow> string \<Rightarrow> tool_path \<Rightarrow> string \<Rightarrow> evolution_result evo" where
  "evolve_tool E c has_ctx name p feedback s =
    then_do (text_or_empty E (tool_file p) s) (\<lambda>old s.
      let refuse = (\<lambda>reason. then_do (write_evolution_history_fact E has_ctx name False reason s) (\<lambda>_ s.
            (Inr (evolution_failed name reason), s)))
      in case audit_evolution_target (tool_module p) of
           Some (Protected_Module m) \<Rightarrow> refuse (ev_say E ''protected'' [m])
         | None \<Rightarrow>
            if old = [] then refuse (ev_say E ''no_version'' [name])
            else then_do (evolution_prompt E name old feedback, s) (\<lambda>prompt.
              evolve_rounds E c has_ctx name p old (ec_max_attempts c) []
                [(''system'', ev_say E ''evolve_system'' []), (''user'', prompt)]))"

section \<open>Several candidates\<close>

definition promote_candidate ::
    "evo_env \<Rightarrow> evo_cfg \<Rightarrow> bool \<Rightarrow> string \<Rightarrow> tool_path \<Rightarrow> string \<Rightarrow> nat \<Rightarrow> int \<Rightarrow> evolution_result evo" where
  "promote_candidate E c has_ctx name p code idx score s =
    (let why = ''competitive_evolve: candidate='' @ dec_nat idx @ '' score='' @ dec_int score in
    then_do (text_or_empty E (tool_file p) s) (\<lambda>old s.
    then_do (write_backup E c p old s) (\<lambda>_ s.
    then_do (write_text E (tool_file p) code s) (\<lambda>_ s.
    then_do (load_or_restore E name p old True s) (\<lambda>_ s.
    then_do (note_success E c has_ctx name p (ev_say E ''dream_competitive'' [dec_nat idx, dec_int score, name]) why s) (\<lambda>_ s.
      (Inr \<lparr>er_success = True, er_target = name, er_reason = why, er_new_code = code\<rparr>, s)))))))"

definition strategy_temperature :: "nat \<Rightarrow> pyval" where
  "strategy_temperature idx = [PFloat 2 1, PFloat 7 1, PFloat 5 1, PFloat 6 1] ! (idx mod 4)"

text \<open>One candidate: no text when the model or the compiler refuses.\<close>

definition gen_candidate :: "evo_env \<Rightarrow> string \<Rightarrow> nat \<Rightarrow> evo_st \<Rightarrow> (nat \<times> string) \<times> evo_st" where
  "gen_candidate E prompt idx s =
    (let (answer, s') = ask_provider E [(''system'', ev_say E ''strategy'' [dec_nat (idx mod 4)]), (''user'', prompt)]
           (strategy_temperature idx) s
     in ((idx, case answer of Inl x \<Rightarrow> []
           | Inr t \<Rightarrow> (let code = extract_python t in if ev_compile E code = None then code else [])), s'))"

fun gen_candidates :: "evo_env \<Rightarrow> string \<Rightarrow> nat list \<Rightarrow> evo_st \<Rightarrow> (nat \<times> string) list \<times> evo_st" where
  "gen_candidates E prompt [] s = ([], s)"
| "gen_candidates E prompt (i # is) s = (let (g, s1) = gen_candidate E prompt i s; (gs, s2) = gen_candidates E prompt is s1
     in (g # gs, s2))"

fun score_candidates ::
    "evo_env \<Rightarrow> tool_path \<Rightarrow> (nat \<times> string) list \<Rightarrow> evo_st \<Rightarrow> (int \<times> nat \<times> string) list \<times> evo_st" where
  "score_candidates E p [] s = ([], s)"
| "score_candidates E p ((i, code) # gs) s = (if code = [] then score_candidates E p gs s
     else (let (failed, s1) = smoke_test_module E p code s; (rest, s2) = score_candidates E p gs s1
           in (if failed = None then (score_candidate code, i, code) # rest else rest, s2)))"

definition competitive_evolve_tool ::
    "evo_env \<Rightarrow> evo_cfg \<Rightarrow> bool \<Rightarrow> string \<Rightarrow> tool_path \<Rightarrow> string \<Rightarrow> int \<Rightarrow> evolution_result evo" where
  "competitive_evolve_tool E c has_ctx name p feedback wanted s =
    (let n = nat (if wanted < 1 then 1 else if 4 < wanted then 4 else wanted) in
    then_do (text_or_empty E (tool_file p) s) (\<lambda>old s.
    then_do (evolution_prompt E name old feedback, s) (\<lambda>prompt s.
      let (gs, s1) = gen_candidates E prompt [0..<n] s; (scored, s2) = score_candidates E p gs s1 in
      case sort_key (\<lambda>c. - fst c) scored of
        [] \<Rightarrow> evolve_tool E c has_ctx name p feedback s2
      | (score, idx, code) # _ \<Rightarrow> or_else (promote_candidate E c has_ctx name p code idx score s2) (\<lambda>x s.
          then_do (write_evolution_history_fact E has_ctx name False (ev_trace E x) s) (\<lambda>_ s.
            (Inr (evolution_failed name (ev_trace E x)), s))))))"

section \<open>The target\<close>

definition json_object :: re where
  "json_object = re_all [Chars ''{'', any_char True, Chars ''}'']"

text \<open>The name of the target, if there is one, and the reason.\<close>

definition choose_tool_target_with_llm ::
    "evo_env \<Rightarrow> failure list \<Rightarrow> (string \<times> int) list \<Rightarrow> (string \<times> int \<times> int) list \<Rightarrow> evo_st \<Rightarrow>
     (string option \<times> string) \<times> evo_st" where
  "choose_tool_target_with_llm E recent candidates blocked s = (case candidates of
      [] \<Rightarrow> ((None, ''no candidates''), s)
    | (best, _) # _ \<Rightarrow>
       (let lines = map (\<lambda>(n, k). ''- '' @ n @ '': failures='' @ dec_int k) candidates;
            stopped = map (\<lambda>(n, r, k). ''- '' @ n @ '': remain='' @ dec_int r @ ''s, streak='' @ dec_int k) blocked;
            samples = List.map_filter (\<lambda>(n, k). let ss = map (\<lambda>f. py_str (f_summary f)) (filter (\<lambda>f. f_kind f = n) recent)
              in if ss = [] then None else Some (n @ '': '' @ join '' | '' ss)) candidates;
            nl = [char_of (10::nat)];
            (answer, s1) = ask_provider E [(''system'', ev_say E ''scheduler'' []), (''user'', ev_say E ''targets''
              [join nl lines, join nl stopped, join nl samples])] (PFloat 1 1) s
        in (case answer of
             Inl x \<Rightarrow> (Some best, ''llm target decision failed: '' @ exn_msg x)
           | Inr raw \<Rightarrow> (case re_search json_object raw of
               None \<Rightarrow> (Some best, ''llm output invalid, fallback to top candidate'')
             | Some m \<Rightarrow> (case json_loads (group_of 0 m) of
                 None \<Rightarrow> (Some best, ''llm target decision failed: '' @ ev_say E ''json_error'' [group_of 0 m])
               | Some (PDict payload) \<Rightarrow>
                  (let reason = str_or_empty (dict_get payload ''reason'');
                       target = strip (str_or_empty (dict_get payload ''target''))
                   in if \<not> truthy (dict_get_or (PBool True) payload ''should_evolve'')
                      then (None, if reason \<noteq> [] then reason else ''llm decided skip'')
                      else if target \<in> fst ` set candidates then (Some target, reason)
                      else (Some best, ''llm target invalid, fallback to top candidate''))
               | Some _ \<Rightarrow> (Some best, ''llm payload invalid, fallback to top candidate''))), s1)))"

section \<open>What each step does to the file of the tool\<close>

lemma file_text_write: "file_text q (s\<lparr>es_files := AList.update p t (es_files s)\<rparr>) = (if q = p then Some t else file_text q s)"
  by (simp add: file_text_def update_conv')

lemma file_text_unlink: "q \<noteq> p \<Longrightarrow> file_text q (unlink p s) = file_text q s"
  by (simp add: file_text_def unlink_def delete_conv')

lemma file_text_updates [simp]:
  "file_text q (s\<lparr>es_world := w\<rparr>) = file_text q s" "file_text q (s\<lparr>es_modules := m\<rparr>) = file_text q s"
  "file_text q (s\<lparr>es_tools := m\<rparr>) = file_text q s" "file_text q (s\<lparr>es_asked := n\<rparr>) = file_text q s"
  "file_text q (s\<lparr>es_stamps := n\<rparr>) = file_text q s"
  by (simp_all add: file_text_def)

lemma write_text_cases:
  assumes "write_text E p t s = (r, s')"
  obtains (written) "r = Inr ()" "s' = s\<lparr>es_files := AList.update p t (es_files s)\<rparr>"
  | (fault) x left where "ev_write_fault E p t = Some (x, left)" "r = Inl x"
      "s' = (case left of None \<Rightarrow> s | Some u \<Rightarrow> s\<lparr>es_files := AList.update p u (es_files s)\<rparr>)"
  using assms by (auto simp: write_text_def split: option.splits prod.splits)

lemma write_text_other: "write_text E p t s = (r, s') \<Longrightarrow> q \<noteq> p \<Longrightarrow> file_text q s' = file_text q s"
  by (erule write_text_cases) (auto simp: file_text_write split: option.splits)

lemma write_text_exists: "write_text E p t s = (r, s') \<Longrightarrow> file_exists q s \<Longrightarrow> file_exists q s'"
  by (erule write_text_cases) (auto simp: file_exists_def file_text_write split: option.splits)

lemma write_text_ok: "ev_write_fault E p t = None \<Longrightarrow> write_text E p t s = (Inr (), s\<lparr>es_files := AList.update p t (es_files s)\<rparr>)"
  by (simp add: write_text_def)

lemma on_world_files [simp]: "file_text q (snd (on_world f s)) = file_text q s"
  by (simp add: on_world_def split: prod.split)

lemma history_files [simp]: "file_text q (snd (history_fact E d s)) = file_text q s"
  "file_text q (snd (write_evolution_history_fact E b n ok r s)) = file_text q s"
  "fst (write_evolution_history_fact E b n ok r s) = Inr ()"
  by (simp_all add: history_fact_def suppressed_def write_fact_def write_evolution_history_fact_def)

lemma pending_files [simp]: "file_text q (snd (write_pending_verification_fact E t p s)) = file_text q s"
  by (simp add: write_pending_verification_fact_def write_fact_def)

lemma reload_files [simp]: "file_text q (snd (reload_module_from_path E n p s)) = file_text q s"
  by (simp add: reload_module_from_path_def Let_def split: option.split prod.split)

lemma tool_files_differ [simp]: "backup_file p \<noteq> tool_file p" "smoke_failed_source p \<noteq> tool_file p" "smoke_failed_log p \<noteq> tool_file p"
  by (auto simp: backup_file_def tool_file_def smoke_failed_source_def smoke_failed_log_def dest: arg_cong [where f = length])

lemma backups_not_tool: "tool_file p \<notin> set (old_backups E p s)"
  by (auto simp: old_backups_def tool_file_def startswith_def Let_def)

lemma fold_unlink: "q \<notin> set ps \<Longrightarrow> file_text q (fold unlink ps s) = file_text q s"
  by (induction ps arbitrary: s) (auto simp: file_text_unlink)

lemma clean_backups_file [simp]: "file_text (tool_file p) (clean_old_backups E p k s) = file_text (tool_file p) s"
  using backups_not_tool [of p E s] by (auto simp: clean_old_backups_def Let_def intro!: fold_unlink dest: in_set_takeD)

lemma write_backup_file: "write_backup E c p old s = (r, s') \<Longrightarrow> file_text (tool_file p) s' = file_text (tool_file p) s"
  by (auto simp: write_backup_def write_text_other tool_files_differ(1) [symmetric] split: if_splits elim!: then_do_cases)

lemma try_write_file: "try_write E p t s = (r, s') \<Longrightarrow> q \<noteq> p \<Longrightarrow> file_text q s' = file_text q s"
  by (auto simp: try_write_def split: prod.splits sum.splits dest: write_text_other)

lemma smoke_test_file:
  assumes "smoke_test_module E p src s = (r, s')"
  shows "file_text (tool_file p) s' = file_text (tool_file p) s"
proof (cases "ev_probe E (tool_file p) src")
  case None
  then show ?thesis using assms
    by (auto simp: smoke_test_module_def clear_smoke_failure_artifacts_def file_text_unlink tool_files_differ(2,3) [symmetric])
next
  case (Some detail)
  obtain a s1 b s2 where "try_write E (smoke_failed_source p) src s = (a, s1)" "try_write E (smoke_failed_log p) detail s1 = (b, s2)"
    by fastforce
  moreover from this have "s' = s2"
    using assms Some by (simp add: smoke_test_module_def persist_smoke_failure_artifacts_def)
  ultimately show ?thesis
    by (metis try_write_file tool_files_differ(2) tool_files_differ(3))
qed

lemma smoke_test_passed: "smoke_test_module E p src s = (None, s') \<Longrightarrow> ev_probe E (tool_file p) src = None"
  by (auto simp: smoke_test_module_def split: option.splits prod.splits)

lemma dreams_file:
  assumes "update_dreams E b d s = (r, s')" "q \<noteq> ev_dreams E"
  shows "file_text q s' = file_text q s"
proof -
  have inner: "file_text q (snd (then_do (ask_provider E m t s) (\<lambda>answer s. let aspiration = strip answer in
        if aspiration = [] \<or> 120 < length aspiration then (Inr (), s)
        else then_do (write_text E (ev_dreams E) (the (file_text (ev_dreams E) s) @ [char_of (10::nat)] @
            ''- ['' @ ev_today E @ ''] '' @ aspiration) s) (\<lambda>_ s. if b then history_fact E (h aspiration) s else (Inr (), s)))))
      = file_text q s" for m t h s
  proof (cases "ev_chat E (es_asked s) m t")
    case (Inr answer)
    define s1 where "s1 = s\<lparr>es_asked := es_asked s + 1\<rparr>"
    obtain r2 s2 where w: "write_text E (ev_dreams E) (the (file_text (ev_dreams E) s1) @ [char_of (10::nat)] @
            ''- ['' @ ev_today E @ ''] '' @ strip answer) s1 = (r2, s2)" by fastforce
    have "file_text q s2 = file_text q s" using write_text_other [OF w assms(2)] by (simp add: s1_def)
    then show ?thesis using w
      by (cases r2) (auto simp: ask_provider_def Inr s1_def [symmetric] Let_def; simp add: s1_def)+
  qed (simp add: ask_provider_def)
  show ?thesis
    using assms(1) inner by (auto simp: update_dreams_def read_text_def suppressed_def split: if_splits option.splits)
qed

section \<open>A rewritten tool is the new code or the old one\<close>

definition plain_faults :: "evo_env \<Rightarrow> bool" where
  "plain_faults E \<longleftrightarrow> (\<forall>p t x l. ev_write_fault E p t = Some (x, l) \<longrightarrow> \<not> syntax_error x) \<and>
     (\<forall>p x. ev_read_fault E p = Some x \<longrightarrow> \<not> syntax_error x)"

text \<open>What a piece of code went through before it replaces a tool.\<close>

definition accepted_code :: "evo_env \<Rightarrow> tool_path \<Rightarrow> string \<Rightarrow> bool" where
  "accepted_code E p code \<longleftrightarrow> ev_compile E code = None \<and> ev_parse E code = None \<and>
     ev_probe E (tool_file p) code = None \<and> snd (ev_exec E (tool_module p) code) = None"

lemma runtime_error [simp]: "\<not> syntax_error (Exn ''RuntimeError'' m)" "\<not> syntax_error (Exn ''ValueError'' m)"
  "\<not> syntax_error (Exn ''FileNotFoundError'' m)"
  by (simp_all add: syntax_error_def)

lemma reload_result:
  assumes "reload_module_from_path E n p s = (r, s')"
  shows "(r = Inr () \<longrightarrow> (\<exists>src. file_text p s = Some src \<and> snd (ev_exec E n src) = None)) \<and> (\<forall>x. r = Inl x \<longrightarrow> \<not> syntax_error x)"
  using assms by (auto simp: reload_module_from_path_def Let_def split: option.splits prod.splits)

lemma reload_exists: "reload_module_from_path E n p s = (r, s') \<Longrightarrow> file_text q s' = file_text q s"
  using reload_files [of q E n p s] by simp

lemma write_fault_plain: "plain_faults E \<Longrightarrow> write_text E p t s = (Inl x, s') \<Longrightarrow> \<not> syntax_error x"
  by (auto simp: plain_faults_def elim!: write_text_cases)

lemma load_or_restore_result:
  assumes "load_or_restore E name p old quiet s = (r, s')" "plain_faults E" "file_text (tool_file p) s = Some code"
  shows "(r = Inr () \<longrightarrow> file_text (tool_file p) s' = Some code \<and> snd (ev_exec E (tool_module p) code) = None) \<and>
    (\<forall>x. r = Inl x \<longrightarrow> file_exists (tool_file p) s' \<and> \<not> syntax_error x)"
proof -
  let ?load = "then_do (reload_module_from_path E (tool_module p) (tool_file p) s) (\<lambda>_ s.
     raise_if (if is_registered_tool name s then None else Some (Exn ''RuntimeError'' (ev_say E ''not_registered'' [name]))) s)"
  obtain r1 s1 where l: "?load = (r1, s1)" by fastforce
  have keep: "file_text (tool_file p) s1 = Some code"
    and good: "r1 = Inr () \<Longrightarrow> snd (ev_exec E (tool_module p) code) = None"
    and bad: "\<And>x. r1 = Inl x \<Longrightarrow> \<not> syntax_error x"
    using l assms(3) reload_result reload_exists
    by (auto simp: raise_if_def elim!: then_do_cases split: if_splits option.splits) fastforce+
  show ?thesis
  proof (cases r1)
    case (Inr u)
    then show ?thesis using assms(1) l keep good by (auto simp: load_or_restore_def)
  next
    case (Inl x)
    obtain r2 s2 where w: "write_text E (tool_file p) old s1 = (r2, s2)" by fastforce
    have ex: "file_exists (tool_file p) s2"
      using write_text_exists [OF w] keep by (simp add: file_exists_def)
    obtain r3 s3 where again: "reload_module_from_path E (tool_module p) (tool_file p) s2 = (r3, s3)" by fastforce
    have "file_exists (tool_file p) s3" using ex reload_exists [OF again] by (simp add: file_exists_def)
    then show ?thesis
      using assms(1) l Inl w again ex bad reload_result [OF again] write_fault_plain [OF assms(2), of "tool_file p" old s1]
      by (cases r2; cases r3) (auto simp: load_or_restore_def Let_def split: if_splits)
  qed
qed

lemma note_success_result:
  assumes "note_success E c b name p d why s = (r, s')" "plain_faults E" "q \<noteq> ev_dreams E"
  shows "file_text q s' = file_text q s \<and> (\<forall>x. r = Inl x \<longrightarrow> \<not> syntax_error x)"
proof -
  define m where "m = (if b \<and> ec_backup c \<and> file_exists (backup_file p) s then write_pending_verification_fact E name p s else (Inr True, s))"
  have "fst m = Inr True"
    using submit_fact_effect [of "ev_env E" "verification_fact_key name" _ "''system''" "''evolution/verify_setup''" 0 "[]" "es_world s"]
    by (auto simp: m_def write_pending_verification_fact_def write_fact_def on_world_def split: prod.split) (metis prod.inject)
  moreover have "file_text q (snd m) = file_text q s" by (simp add: m_def)
  ultimately obtain s1 where s1: "m = (Inr True, s1)" "file_text q s1 = file_text q s" by (metis prod.collapse)
  obtain r2 s2 where d: "update_dreams E b d s1 = (r2, s2)" by fastforce
  have keep: "file_text q s2 = file_text q s" using dreams_file [OF d assms(3)] s1 by simp
  have err: "\<And>x. r2 = Inl x \<Longrightarrow> \<not> syntax_error x"
    using d assms(2) by (auto simp: update_dreams_def read_text_def suppressed_def plain_faults_def split: if_splits option.splits)
  show ?thesis
    using assms(1) keep err s1 d history_files(2) [of q E b name True why s2] history_files(3) [of E b name True why s2]
    by (cases r2) (auto simp: note_success_def m_def [symmetric])
qed

lemma sources_parse_plain: "sources_parse E ps s = Inl x \<Longrightarrow> plain_faults E \<Longrightarrow> \<not> syntax_error x"
  by (induction ps)
    (auto simp: read_text_def plain_faults_def bind_res_def split: option.splits if_splits sum.splits)

text \<open>How a round leaves the file: replaced by accepted code, as it was, or in a state that \<open>give_up\<close> mends.\<close>

definition round_ok :: "evo_env \<Rightarrow> tool_path \<Rightarrow> string \<Rightarrow> string \<Rightarrow> attempt_end res \<Rightarrow> evo_st \<Rightarrow> bool" where
  "round_ok E p old code r s \<longleftrightarrow> (case r of
      Inr (Evolved new) \<Rightarrow> new = code \<and> file_text (tool_file p) s = Some code \<and> accepted_code E p code
    | Inr _ \<Rightarrow> file_text (tool_file p) s = Some old
    | Inl x \<Rightarrow> if syntax_error x then file_text (tool_file p) s = Some old else file_exists (tool_file p) s)"

lemma then_do_step:
  "then_do m f = (r, s') \<Longrightarrow> (\<And>x. m = (Inl x, s') \<Longrightarrow> P (Inl x) s') \<Longrightarrow>
   (\<And>a t. m = (Inr a, t) \<Longrightarrow> f a t = (r, s') \<Longrightarrow> P r s') \<Longrightarrow> P r s'"
  by (erule then_do_cases) auto

lemma raise_if_cases: "raise_if x s = (r, s') \<longleftrightarrow> s' = s \<and> r = (case x of None \<Rightarrow> Inr () | Some e \<Rightarrow> Inl e)"
  by (auto simp: raise_if_def split: option.splits)

lemma check_candidate_result:
  assumes "check_candidate E c p old code s = (r, s')" "plain_faults E"
  shows "file_text (tool_file p) s' = file_text (tool_file p) s \<and>
    (r = Inr None \<longrightarrow> ev_compile E code = None \<and> ev_parse E code = None \<and> ev_probe E (tool_file p) code = None)"
proof (cases "ev_compile E code")
  case None
  obtain r2 s2 where w: "write_backup E c p old s = (r2, s2)" by fastforce
  obtain m s3 where t: "smoke_test_module E p code s2 = (m, s3)" by fastforce
  show ?thesis
    using assms(1) None w t write_backup_file [OF w] smoke_test_file [OF t] smoke_test_passed [of E p code s2]
    by (cases r2) (auto simp: check_candidate_def raise_if_def split: option.splits)
qed (use assms(1) in \<open>auto simp: check_candidate_def raise_if_def\<close>)

lemma settle_candidate_ok:
  assumes "settle_candidate E c b name p old code s = (r, s')"
    and "plain_faults E" "tool_file p \<noteq> ev_dreams E" "old \<noteq> []" "ev_write_fault E (tool_file p) old = None"
    and "file_text (tool_file p) s = Some code" "accepted_code E p code"
  shows "round_ok E p old code r s'"
proof (cases "project_parses E s")
  case (Inl x)
  then show ?thesis using assms(1,6) sources_parse_plain [OF _ assms(2)]
    by (auto simp: settle_candidate_def round_ok_def project_parses_def file_exists_def)
next
  case (Inr all_ok)
  show ?thesis
  proof (cases all_ok)
    case True
    obtain r1 s1 where n: "note_success E c b name p (ev_say E ''dream_evolved'' [name]) [] s = (r1, s1)" by fastforce
    then show ?thesis using assms(1,6,7) Inr True note_success_result [OF n assms(2,3)]
      by (cases r1) (auto simp: settle_candidate_def round_ok_def file_exists_def)
  next
    case False
    define s1 where "s1 = s\<lparr>es_files := AList.update (tool_file p) old (es_files s)\<rparr>"
    have "file_text (tool_file p) s1 = Some old" by (simp add: s1_def file_text_write)
    moreover obtain r2 s2 where again: "reload_module_from_path E (tool_module p) (tool_file p) s1 = (r2, s2)" by fastforce
    ultimately have after: "file_text (tool_file p) s2 = Some old" "\<And>x. r2 = Inl x \<Longrightarrow> \<not> syntax_error x"
      using reload_exists [OF again] reload_result [OF again] by auto
    have "file_exists (tool_file p) s" using assms(6) by (simp add: file_exists_def)
    then have "settle_candidate E c b name p old code s = then_do (r2, s2) (\<lambda>_ s. (Inr Unparsed, s))"
      using Inr False assms(4,5) again by (simp add: settle_candidate_def write_text_ok s1_def)
    then show ?thesis using assms(1) after by (cases r2) (auto simp: round_ok_def file_exists_def)
  qed
qed

lemma try_candidate_ok:
  assumes "try_candidate E c b name p old code s = (r, s')"
    and "plain_faults E" "tool_file p \<noteq> ev_dreams E" "old \<noteq> []" "ev_write_fault E (tool_file p) old = None"
    and old: "file_text (tool_file p) s = Some old"
  shows "round_ok E p old code r s'"
proof -
  obtain r1 s1 where ch: "check_candidate E c p old code s = (r1, s1)" by fastforce
  note checked = check_candidate_result [OF ch assms(2)]
  show ?thesis
  proof (cases "r1 = Inr None")
    case False
    then show ?thesis using assms(1) ch checked old
      by (cases r1) (auto simp: try_candidate_def round_ok_def file_exists_def)
  next
    case True
    obtain r2 s2 where w: "write_text E (tool_file p) code s1 = (r2, s2)" by fastforce
    have there: "file_exists (tool_file p) s2" using write_text_exists [OF w] checked old by (simp add: file_exists_def)
    show ?thesis
    proof (cases r2)
      case (Inl x)
      then show ?thesis using assms(1) ch True w there write_fault_plain [OF assms(2), of "tool_file p" code s1]
        by (auto simp: try_candidate_def round_ok_def)
    next
      case (Inr u)
      then have new: "file_text (tool_file p) s2 = Some code" using w
        by (auto simp: file_text_write elim!: write_text_cases)
      obtain r3 s3 where l: "load_or_restore E name p old False s2 = (r3, s3)" by fastforce
      note loaded = load_or_restore_result [OF l assms(2) new]
      show ?thesis
      proof (cases r3)
        case (Inl x)
        then show ?thesis using assms(1) ch True w \<open>r2 = Inr u\<close> l loaded by (auto simp: try_candidate_def round_ok_def)
      next
        case (Inr v)
        then have "settle_candidate E c b name p old code s3 = (r, s')"
          using assms(1) ch True w \<open>r2 = Inr u\<close> l by (simp add: try_candidate_def)
        then show ?thesis
          using settle_candidate_ok assms(2-5) loaded Inr checked True by (auto simp: accepted_code_def)
      qed
    qed
  qed
qed

definition evolved_or_kept :: "evo_env \<Rightarrow> tool_path \<Rightarrow> string \<Rightarrow> evolution_result res \<Rightarrow> evo_st \<Rightarrow> bool" where
  "evolved_or_kept E p old r s \<longleftrightarrow> (case r of
      Inr res \<Rightarrow> if er_success res
        then file_text (tool_file p) s = Some (er_new_code res) \<and> accepted_code E p (er_new_code res)
        else file_text (tool_file p) s = Some old
    | Inl x \<Rightarrow> file_text (tool_file p) s = Some old)"

lemma give_up_keeps:
  assumes "give_up E b name p old x s = (r, s')" "file_exists (tool_file p) s" "old \<noteq> []"
    "ev_write_fault E (tool_file p) old = None"
  shows "evolved_or_kept E p old r s'"
proof -
  define s1 where "s1 = s\<lparr>es_files := AList.update (tool_file p) old (es_files s)\<rparr>"
  have "file_text (tool_file p) s1 = Some old" by (simp add: s1_def file_text_write)
  moreover obtain r2 s2 where again: "reload_module_from_path E (tool_module p) (tool_file p) s1 = (r2, s2)" by fastforce
  ultimately have "file_text (tool_file p) s2 = Some old" using reload_exists [OF again] by simp
  moreover obtain s3 where h: "write_evolution_history_fact E b name False (ev_trace E x) s2 = (Inr (), s3)"
      "file_text (tool_file p) s3 = file_text (tool_file p) s2"
    using history_files(2,3) by (metis prod.collapse)
  ultimately show ?thesis using assms again
    by (auto simp: give_up_def write_text_ok s1_def [symmetric] evolved_or_kept_def evolution_failed_def)
qed

lemma evolve_rounds_ok:
  assumes "plain_faults E" "tool_file p \<noteq> ev_dreams E" "old \<noteq> []" "ev_write_fault E (tool_file p) old = None"
    and "evolve_rounds E c b name p old n draft msgs s = (r, s')" "file_text (tool_file p) s = Some old"
  shows "evolved_or_kept E p old r s'"
  using assms(5,6)
proof (induction n arbitrary: draft msgs s)
  case 0
  obtain s1 where "write_evolution_history_fact E b name False (ev_say E ''too_many_attempts'' [dec_nat (ec_max_attempts c)]) s =
      (Inr (), s1)" "file_text (tool_file p) s1 = file_text (tool_file p) s"
    using history_files(2,3) by (metis prod.collapse)
  with 0 show ?case by (auto simp: evolved_or_kept_def evolution_failed_def Let_def)
next
  case (Suc n)
  define answer s1 where "answer = ev_chat E (es_asked s) msgs PNone" and "s1 = s\<lparr>es_asked := es_asked s + 1\<rparr>"
  define code where "code = (case answer of Inl x \<Rightarrow> draft | Inr t \<Rightarrow> extract_python t)"
  obtain r2 s2 where tried: "(case answer of Inl x \<Rightarrow> (Inl x, s1) | Inr t \<Rightarrow> try_candidate E c b name p old code s1) = (r2, s2)"
    by fastforce
  have at1: "file_text (tool_file p) s1 = Some old" using Suc.prems(2) by (simp add: s1_def)
  have ok: "round_ok E p old code r2 s2"
  proof (cases answer)
    case (Inl x)
    then show ?thesis using tried at1 by (auto simp: round_ok_def file_exists_def)
  next
    case (Inr t)
    then show ?thesis using tried at1 by (intro try_candidate_ok [OF _ assms(1-4)]) auto
  qed
  note unfolded = Suc.prems(1) [unfolded evolve_rounds.simps ask_provider_def, folded answer_def s1_def, unfolded Let_def prod.case,
      folded code_def, unfolded tried prod.case]
  show ?case
  proof (cases r2)
    case (Inl x)
    then show ?thesis
      using unfolded ok Suc.IH give_up_keeps [OF _ _ assms(3,4)] by (auto simp: round_ok_def split: if_splits)
  next
    case (Inr e)
    then show ?thesis
      using unfolded ok Suc.IH by (cases e) (auto simp: round_ok_def evolved_or_kept_def)
  qed
qed

text \<open>C32: 
  However an evolution of a tool ends, its file holds the new code if and only if success was reported, and then
  that code compiled, passed the smoke test and was loaded; otherwise it holds the old text, also after an exception.
\<close>

theorem evolve_tool_all_or_nothing:
  assumes "evolve_tool E c has_ctx name p feedback s = (r, s')" "file_text (tool_file p) s = Some old"
    "ev_read_fault E (tool_file p) = None" "ev_write_fault E (tool_file p) old = None"
    "plain_faults E" "tool_file p \<noteq> ev_dreams E"
  shows "case r of
      Inr res \<Rightarrow> if er_success res
        then file_text (tool_file p) s' = Some (er_new_code res) \<and> accepted_code E p (er_new_code res)
        else file_text (tool_file p) s' = Some old
    | Inl x \<Rightarrow> file_text (tool_file p) s' = Some old"
proof -
  have got: "text_or_empty E (tool_file p) s = (Inr old, s)"
    using assms(2,3) by (simp add: text_or_empty_def file_exists_def read_text_def)
  have refuse: "evolved_or_kept E p old r s'"
    if "then_do (write_evolution_history_fact E has_ctx name False why s) (\<lambda>_ s. (Inr (evolution_failed name why), s)) = (r, s')" for why
  proof -
    obtain s1 where "write_evolution_history_fact E has_ctx name False why s = (Inr (), s1)"
        "file_text (tool_file p) s1 = file_text (tool_file p) s"
      using history_files(2,3) by (metis prod.collapse)
    with that show ?thesis using assms(2) by (auto simp: evolved_or_kept_def evolution_failed_def)
  qed
  have "evolved_or_kept E p old r s'"
  proof (cases "audit_evolution_target (tool_module p)")
    case (Some a)
    then show ?thesis using assms(1) refuse by (cases a) (simp add: evolve_tool_def got Let_def)
  next
    case audited: None
    show ?thesis
    proof (cases "old = []")
      case True
      then show ?thesis using assms(1) audited by (intro refuse) (simp add: evolve_tool_def got)
    next
      case False
      show ?thesis
      proof (cases "evolution_prompt E name old feedback")
        case (Inl x)
        then show ?thesis using assms(1,2) audited False by (auto simp: evolve_tool_def got evolved_or_kept_def)
      next
        case (Inr t)
        then show ?thesis using assms(1) audited False evolve_rounds_ok [OF assms(5,6) _ assms(4) _ assms(2)]
          by (simp add: evolve_tool_def got)
      qed
    qed
  qed
  then show ?thesis by (simp add: evolved_or_kept_def)
qed

section \<open>The registry while a tool is rewritten\<close>

text \<open>\<open>tools.\<close> modules are never among the protected ones, so the audit refuses no tool.\<close>

lemma audit_passes_tools [simp]: "audit_evolution_target (tool_module p) = None"
  by (simp add: audit_evolution_target_def tool_module_def immune_protected_modules_def)

lemma es_tools_unlink: "es_tools (fold unlink ps s) = es_tools s"
  by (induction ps arbitrary: s) (simp_all add: unlink_def)

lemma es_tools_write: "es_tools (snd (write_text E p t s)) = es_tools s"
  by (simp add: write_text_def split: option.split prod.split)

lemma es_tools_try_write: "try_write E p t s = (r, s') \<Longrightarrow> es_tools s' = es_tools s"
  using es_tools_write [of E p t s] by (auto simp: try_write_def split: prod.splits sum.splits)

lemma es_tools_world: "es_tools (snd (on_world f s)) = es_tools s"
  by (simp add: on_world_def split: prod.split)

lemma es_tools_history: "es_tools (snd (history_fact E d s)) = es_tools s"
  "es_tools (snd (write_evolution_history_fact E b n ok r s)) = es_tools s"
  by (simp_all add: history_fact_def suppressed_def write_fact_def write_evolution_history_fact_def es_tools_world)

lemma es_tools_smoke: "es_tools (snd (smoke_test_module E p src s)) = es_tools s"
proof (cases "ev_probe E (tool_file p) src")
  case None
  then show ?thesis by (simp add: smoke_test_module_def clear_smoke_failure_artifacts_def unlink_def)
next
  case (Some detail)
  obtain a s1 b s2 where "try_write E (smoke_failed_source p) src s = (a, s1)" "try_write E (smoke_failed_log p) detail s1 = (b, s2)"
    by fastforce
  then show ?thesis using es_tools_try_write Some
    by (fastforce simp: smoke_test_module_def persist_smoke_failure_artifacts_def)
qed

lemma es_tools_dreams:
  assumes "update_dreams E b d s = (r, s')"
  shows "es_tools s' = es_tools s"
proof -
  have inner: "es_tools (snd (then_do (ask_provider E m t s) (\<lambda>answer s. let aspiration = strip answer in
        if aspiration = [] \<or> 120 < length aspiration then (Inr (), s)
        else then_do (write_text E (ev_dreams E) (the (file_text (ev_dreams E) s) @ [char_of (10::nat)] @
            ''- ['' @ ev_today E @ ''] '' @ aspiration) s) (\<lambda>_ s. if b then history_fact E (h aspiration) s else (Inr (), s)))))
      = es_tools s" for m t h s
  proof (cases "ev_chat E (es_asked s) m t")
    case (Inr answer)
    define s1 where "s1 = s\<lparr>es_asked := es_asked s + 1\<rparr>"
    obtain r2 s2 where w: "write_text E (ev_dreams E) (the (file_text (ev_dreams E) s1) @ [char_of (10::nat)] @
            ''- ['' @ ev_today E @ ''] '' @ strip answer) s1 = (r2, s2)" by fastforce
    have "es_tools s2 = es_tools s" using arg_cong [OF w, of "\<lambda>m. es_tools (snd m)"] by (simp add: s1_def es_tools_write)
    then show ?thesis using w
      by (cases r2) (auto simp: ask_provider_def Inr s1_def [symmetric] Let_def es_tools_history; simp add: s1_def)+
  qed (simp add: ask_provider_def)
  show ?thesis
    using assms inner by (auto simp: update_dreams_def read_text_def suppressed_def split: if_splits option.splits)
qed

text \<open>With no faults of the file system nothing after the loading of a module fails.\<close>

definition no_faults :: "evo_env \<Rightarrow> bool" where
  "no_faults E \<longleftrightarrow> (\<forall>p t. ev_write_fault E p t = None) \<and> (\<forall>p. ev_read_fault E p = None)"

lemma dreams_quiet:
  assumes "no_faults E"
  obtains s' where "update_dreams E b d s = (Inr (), s')" "es_tools s' = es_tools s"
proof -
  obtain r s' where u: "update_dreams E b d s = (r, s')" by fastforce
  moreover from this have "r = Inr ()"
    using assms by (auto simp: update_dreams_def read_text_def no_faults_def file_exists_def suppressed_def split: if_splits)
  ultimately show thesis using that es_tools_dreams by blast
qed

lemma write_fact_done: "fst (write_fact E key v source s) = Inr True"
proof -
  obtain l where "submit_fact (ev_env E) key (PStr v) ''system'' source 0 [] (es_world s) =
      (Inr True, (es_world s)\<lparr>w_facts := set_fact (e_now_sql (ev_env E)) key v ''system'' (w_facts (es_world s)), w_ledger := l\<rparr>)"
    by (rule submit_fact_obtain)
  then show ?thesis by (simp add: write_fact_def on_world_def)
qed

lemma pending_written: "fst (write_pending_verification_fact E n p s) = Inr True"
  by (simp only: write_pending_verification_fact_def write_fact_done)

lemma es_tools_pending: "es_tools (snd (write_pending_verification_fact E n p s)) = es_tools s"
  by (simp only: write_pending_verification_fact_def write_fact_def es_tools_world)

lemma note_success_quiet:
  assumes "no_faults E"
  shows "\<exists>s'. note_success E c b name p d why s = (Inr (), s') \<and> es_tools s' = es_tools s"
proof -
  define m where "m = (if b \<and> ec_backup c \<and> file_exists (backup_file p) s then write_pending_verification_fact E name p s else (Inr True, s))"
  have "fst m = Inr True" "es_tools (snd m) = es_tools s"
    by (simp_all add: m_def pending_written es_tools_pending)
  then obtain s1 where s1: "m = (Inr True, s1)" "es_tools s1 = es_tools s" by (metis prod.collapse)
  obtain s2 where s2: "update_dreams E b d s1 = (Inr (), s2)" "es_tools s2 = es_tools s1"
    using dreams_quiet [OF assms] by blast
  obtain s3 where "write_evolution_history_fact E b name True why s2 = (Inr (), s3)" "es_tools s3 = es_tools s2"
    using history_files(3) es_tools_history(2) by (metis prod.collapse)
  with s1 s2 show ?thesis by (simp add: note_success_def m_def [symmetric])
qed

lemma sources_parse_all: "no_faults E \<Longrightarrow> (\<And>t. ev_parse E t = None) \<Longrightarrow> set ps \<subseteq> fst ` set (es_files s) \<Longrightarrow> sources_parse E ps s = Inr True"
proof (induction ps)
  case (Cons q ps)
  then obtain t where "file_text q s = Some t" by (auto simp: file_text_def) (metis map_of_eq_None_iff option.exhaust image_eqI fst_conv)
  with Cons show ?case by (simp add: read_text_def no_faults_def)
qed simp

lemma check_candidate_quiet:
  assumes "no_faults E" "ev_compile E code = None" "\<And>t. ev_parse E t = None" "ev_probe E (tool_file p) code = None"
  shows "\<exists>s'. check_candidate E c p old code s = (Inr None, s') \<and> es_tools s' = es_tools s"
proof -
  have "\<exists>s1. write_backup E c p old s = (Inr (), s1) \<and> es_tools s1 = es_tools s"
    using assms(1) by (simp add: write_backup_def no_faults_def write_text_ok clean_old_backups_def Let_def es_tools_unlink)
  then obtain s1 where s1: "write_backup E c p old s = (Inr (), s1)" "es_tools s1 = es_tools s" by blast
  obtain s2 where "smoke_test_module E p code s1 = (None, s2)" "es_tools s2 = es_tools s1"
    using assms(4) es_tools_smoke [of E p code s1] by (auto simp: smoke_test_module_def)
  with s1 show ?thesis using assms(2,3) by (simp add: check_candidate_def raise_if_def)
qed

text \<open>
  A tool that is registered stays registered, so the check after the loading cannot fail: code that registers no
  tool at all replaces the file, the evolution counts as a success, and the registry still holds the old handler.
\<close>

theorem unregistered_code_succeeds:
  assumes "no_faults E" "file_text (tool_file p) s = Some old" "old \<noteq> []" "ev_load_prompt E ''evolution'' = Inr template"
    "ec_max_attempts c = Suc n" "\<And>k msgs t. ev_chat E k msgs t = Inr answer" "code = extract_python answer"
    "ev_compile E code = None" "\<And>t. ev_parse E t = None" "ev_probe E (tool_file p) code = None"
    "ev_exec E (tool_module p) code = ([], None)" "is_registered_tool name s"
  shows "\<exists>s'. evolve_tool E c has_ctx name p feedback s =
      (Inr \<lparr>er_success = True, er_target = name, er_reason = [], er_new_code = code\<rparr>, s') \<and> es_tools s' = es_tools s"
proof -
  define s0 where "s0 = s\<lparr>es_asked := es_asked s + 1\<rparr>"
  obtain s1 where s1: "check_candidate E c p old code s0 = (Inr None, s1)" "es_tools s1 = es_tools s0"
    using check_candidate_quiet [OF assms(1,8,9,10)] by blast
  define s2 where "s2 = s1\<lparr>es_files := AList.update (tool_file p) code (es_files s1)\<rparr>"
  have w: "write_text E (tool_file p) code s1 = (Inr (), s2)"
    using assms(1) by (simp add: no_faults_def write_text_ok s2_def)
  define s3 where "s3 = s2\<lparr>es_modules := AList.update (tool_module p) code (es_modules s2)\<rparr>"
  have "file_text (tool_file p) s2 = Some code" by (simp add: s2_def file_text_write)
  then have "reload_module_from_path E (tool_module p) (tool_file p) s2 = (Inr (), s3)"
    using assms(11) by (simp add: reload_module_from_path_def s3_def)
  moreover have "is_registered_tool name s3"
    using assms(12) s1(2) by (simp add: is_registered_tool_def s3_def s2_def s0_def)
  ultimately have l: "load_or_restore E name p old False s2 = (Inr (), s3)"
    by (simp add: load_or_restore_def raise_if_def)
  have "project_parses E s3 = Inr True"
    unfolding project_parses_def using assms(1,9) by (intro sources_parse_all) auto
  moreover obtain s4 where "note_success E c has_ctx name p (ev_say E ''dream_evolved'' [name]) [] s3 = (Inr (), s4)" "es_tools s4 = es_tools s3"
    using note_success_quiet [OF assms(1)] by blast
  ultimately have done_: "try_candidate E c has_ctx name p old code s0 = (Inr (Evolved code), s4)" "es_tools s4 = es_tools s"
    using s1 w l by (simp_all add: try_candidate_def settle_candidate_def s3_def s2_def s0_def)
  have "text_or_empty E (tool_file p) s = (Inr old, s)"
    using assms(1,2) by (simp add: text_or_empty_def file_exists_def read_text_def no_faults_def)
  then show ?thesis
    using assms(3-6) done_ by (simp add: evolve_tool_def evolution_prompt_def bind_res_def ask_provider_def assms(7) [symmetric] s0_def)
qed

section \<open>A competitive evolution that fails late\<close>

lemma promote_fails_late:
  assumes "\<And>q t. ev_write_fault E q t = None" "ev_read_fault E (ev_dreams E) = Some x" "ev_read_fault E (tool_file p) = None"
    "\<not> ec_backup c" "tool_file p \<noteq> ev_dreams E" "file_exists (ev_dreams E) s" "file_text (tool_file p) s = Some old"
    "ev_exec E (tool_module p) code = (registered, None)" "is_registered_tool name s \<or> name \<in> set registered"
  shows "\<exists>s'. promote_candidate E c has_ctx name p code idx score s = (Inl x, s') \<and> file_text (tool_file p) s' = Some code"
proof -
  define s1 where "s1 = s\<lparr>es_files := AList.update (tool_file p) code (es_files s)\<rparr>"
  define s2 where "s2 = s1\<lparr>es_modules := AList.update (tool_module p) code (es_modules s1),
    es_tools := fold (\<lambda>t. AList.update t code) registered (es_tools s1)\<rparr>"
  have new: "file_text (tool_file p) s1 = Some code" by (simp add: s1_def file_text_write)
  have reg: "map_of (fold (\<lambda>t. AList.update t code) ts tools) name \<noteq> None"
    if "map_of tools name \<noteq> None \<or> name \<in> set ts" for ts and tools :: "(string \<times> string) list"
    using that by (induction ts arbitrary: tools) (auto simp: update_conv')
  have "reload_module_from_path E (tool_module p) (tool_file p) s1 = (Inr (), s2)"
    using new assms(8) by (simp add: reload_module_from_path_def s2_def)
  moreover have "is_registered_tool name s2"
    using reg [of "es_tools s1" registered] assms(9) by (auto simp: is_registered_tool_def s2_def s1_def)
  ultimately have "load_or_restore E name p old True s1 = (Inr (), s2)" by (simp add: load_or_restore_def raise_if_def)
  moreover have "file_text (ev_dreams E) s2 = file_text (ev_dreams E) s"
    using assms(5) by (simp add: s2_def s1_def file_text_write)
  ultimately show ?thesis using assms(1-4,6,7) new
    by (auto simp: promote_candidate_def text_or_empty_def file_exists_def read_text_def write_backup_def write_text_ok
        s1_def [symmetric] note_success_def update_dreams_def Let_def s2_def)
qed

text \<open>
  A competitive evolution whose last step raises reports a failure but leaves the new code in the file and in the
  registry: unlike \<open>evolve_tool\<close> it does not write the old text back.
\<close>

theorem failed_competition_keeps_new_code:
  assumes "\<And>q t. ev_write_fault E q t = None" "ev_read_fault E (ev_dreams E) = Some x" "ev_read_fault E (tool_file p) = None"
    "\<not> ec_backup c" "tool_file p \<noteq> ev_dreams E" "file_exists (ev_dreams E) s2" "file_text (tool_file p) s = Some old"
    "file_text (tool_file p) s2 = Some old"
    "ev_exec E (tool_module p) code = (registered, None)" "is_registered_tool name s2 \<or> name \<in> set registered"
    "evolution_prompt E name old feedback = Inr prompt" "n = nat (if wanted < 1 then 1 else if 4 < wanted then 4 else wanted)"
    "gen_candidates E prompt [0..<n] s = (gs, s1)" "score_candidates E p gs s1 = (scored, s2)"
    "sort_key (\<lambda>c. - fst c) scored = (score, idx, code) # others"
  shows "\<exists>s'. competitive_evolve_tool E c has_ctx name p feedback wanted s = (Inr (evolution_failed name (ev_trace E x)), s') \<and>
    file_text (tool_file p) s' = Some code"
proof -
  obtain s3 where s3: "promote_candidate E c has_ctx name p code idx score s2 = (Inl x, s3)" "file_text (tool_file p) s3 = Some code"
    using promote_fails_late [OF assms(1-6,8-10)] by blast
  obtain s4 where "write_evolution_history_fact E has_ctx name False (ev_trace E x) s3 = (Inr (), s4)"
      "file_text (tool_file p) s4 = file_text (tool_file p) s3"
    using history_files(2,3) by (metis prod.collapse)
  with s3 show ?thesis using assms(3,7,11-15)
    by (simp add: competitive_evolve_tool_def text_or_empty_def file_exists_def read_text_def)
qed

section \<open>Instances\<close>

text \<open>A model that always answers \<open>good\<close>, and a project of one tool.\<close>

definition demo_evo :: evo_env where
  "demo_evo = \<lparr>ev_env = demo_env, ev_now = (5, 1), ev_today = ''2026-01-01'', ev_stamp = dec_nat,
     ev_chat = (\<lambda>_ _ _. Inr ''good''), ev_say = (\<lambda>t _. t), ev_load_prompt = Inr, ev_compile = (\<lambda>_. None), ev_parse = (\<lambda>_. None),
     ev_probe = (\<lambda>_ _. None), ev_exec = (\<lambda>_ _. ([], None)), ev_read_fault = (\<lambda>_. None), ev_write_fault = (\<lambda>_ _. None),
     ev_mtime = (\<lambda>_. 0), ev_trace = exn_msg, ev_tools_dir = ''tools/'', ev_dreams = ''DREAMS.md'', ev_prompt_path = Some,
     ev_workspace = ''ws'', ev_reload_skills = None, ev_retrieve = (\<lambda>_. Inr []), ev_constitution = no_constitution,
     ev_constitution_path = [], ev_file_at = (\<lambda>_. None), ev_boundary_title = (\<lambda>_. False), ev_unix_time = (5, 1)\<rparr>"

definition demo_evo_cfg :: evo_cfg where
  "demo_evo_cfg = \<lparr>ec_enabled = True, ec_max_attempts = 1, ec_backup = False, ec_backup_keep = 3, ec_min_runs = 1,
     ec_rollback = True, ec_trigger_min = 1, ec_window_minutes = 60, ec_candidates = 1,
     ec_breakers = \<lparr>bk_fail_threshold = 2, bk_escalate_threshold = 3, bk_cooldown_seconds = 1800,
       bk_global_cooldown_seconds = 3600\<rparr>, ec_ethos_max_delta = 3 / 20, ec_ethos_seed = (\<lambda>_. FNum 5 1)\<rparr>"

definition demo_evo_st :: evo_st where
  "demo_evo_st = \<lparr>es_world = empty_world, es_failures = empty_tbl, es_files = [(''tools/x.py'', ''old''), (''DREAMS.md'', [])],
     es_modules = [], es_tools = [(''x.do'', ''old'')], es_asked = 0, es_stamps = 0\<rparr>"

lemma demo_strip: "strip ''good'' = ''good''"
  by (simp add: strip_def lstrip_def is_space_def)

lemma demo_extract: "extract_python ''good'' = ''good''"
  by (simp add: extract_python_def python_fence_def re_opt_def re_plus_def demo_strip)

lemma evolve_tool_all_or_nothing_witness:
  "case fst (evolve_tool demo_evo demo_evo_cfg False ''x.do'' (''tools/'', ''x'') [] demo_evo_st) of
      Inr res \<Rightarrow> if er_success res
        then file_text (tool_file (''tools/'', ''x'')) (snd (evolve_tool demo_evo demo_evo_cfg False ''x.do'' (''tools/'', ''x'') [] demo_evo_st)) =
            Some (er_new_code res) \<and> accepted_code demo_evo (''tools/'', ''x'') (er_new_code res)
        else file_text (tool_file (''tools/'', ''x'')) (snd (evolve_tool demo_evo demo_evo_cfg False ''x.do'' (''tools/'', ''x'') [] demo_evo_st)) = Some ''old''
    | Inl x \<Rightarrow> file_text (tool_file (''tools/'', ''x'')) (snd (evolve_tool demo_evo demo_evo_cfg False ''x.do'' (''tools/'', ''x'') [] demo_evo_st)) = Some ''old''"
  by (rule evolve_tool_all_or_nothing [OF prod.collapse [symmetric]])
    (simp_all add: demo_evo_def demo_evo_st_def file_text_def tool_file_def plain_faults_def)

lemma unregistered_code_succeeds_witness:
  "\<exists>s'. evolve_tool demo_evo demo_evo_cfg False ''x.do'' (''tools/'', ''x'') [] demo_evo_st =
      (Inr \<lparr>er_success = True, er_target = ''x.do'', er_reason = [], er_new_code = ''good''\<rparr>, s') \<and> es_tools s' = [(''x.do'', ''old'')]"
  using unregistered_code_succeeds [of demo_evo "(''tools/'', ''x'')" demo_evo_st "''old''" "''evolution''" demo_evo_cfg 0 "''good''" "''good''"
      "''x.do''" False "[]"]
  by (simp add: demo_evo_def demo_evo_cfg_def demo_evo_st_def file_text_def tool_file_def no_faults_def demo_extract is_registered_tool_def)

lemma demo_lines: "score_candidate ''good'' = 100"
  by (simp add: score_candidate_def count_lines_def split_lines_def is_line_break_def demo_strip startswith_def)

lemma failed_competition_keeps_new_code_witness:
  "\<exists>s'. competitive_evolve_tool (demo_evo\<lparr>ev_read_fault := (\<lambda>p. if p = ''DREAMS.md'' then Some (Exn ''UnicodeDecodeError'' ''bad'') else None)\<rparr>)
       demo_evo_cfg False ''x.do'' (''tools/'', ''x'') [] 2 demo_evo_st = (Inr (evolution_failed ''x.do'' ''bad''), s') \<and>
     file_text (tool_file (''tools/'', ''x'')) s' = Some ''good''"
proof -
  let ?E = "demo_evo\<lparr>ev_read_fault := (\<lambda>p. if p = ''DREAMS.md'' then Some (Exn ''UnicodeDecodeError'' ''bad'') else None)\<rparr>"
  have two: "nat (if (2::int) < 1 then 1 else if 4 < (2::int) then 4 else 2) = 2" "[0..<2] = [0, Suc 0]"
    by (simp_all add: upt_conv_Cons)
  have "\<exists>s'. competitive_evolve_tool ?E demo_evo_cfg False ''x.do'' (''tools/'', ''x'') [] 2 demo_evo_st =
        (Inr (evolution_failed ''x.do'' (ev_trace ?E (Exn ''UnicodeDecodeError'' ''bad''))), s') \<and>
      file_text (tool_file (''tools/'', ''x'')) s' = Some ''good''"
    by (rule failed_competition_keeps_new_code [where p = "(''tools/'', ''x'')" and old = "''old''" and prompt = "''evolution''" and n = 2
          and gs = "[(0, ''good''), (1, ''good'')]" and scored = "[(100, 0, ''good''), (100, 1, ''good'')]" and score = 100 and idx = 0
          and others = "[(100, 1, ''good'')]" and registered = "[]" and ?s1.0 = "demo_evo_st\<lparr>es_asked := 2\<rparr>" and ?s2.0 = "demo_evo_st\<lparr>es_asked := 2\<rparr>"])
      (simp_all add: demo_evo_def demo_evo_cfg_def demo_evo_st_def file_text_def file_exists_def tool_file_def is_registered_tool_def
        evolution_prompt_def bind_res_def fill_prompt_def two gen_candidate_def ask_provider_def demo_extract smoke_test_module_def
        clear_smoke_failure_artifacts_def unlink_def smoke_failed_source_def smoke_failed_log_def demo_lines)
  then show ?thesis by (simp add: demo_evo_def)
qed

end
