(* ===== verification/Evo_Soft.thy ===== *)
theory Evo_Soft
  imports Evo_Tool
begin

text \<open>
  The evolutions that change no code (\<open>core/evolution/soft.py\<close>, with the skill files of \<open>core/skill\<close>): the values of
  the ethos, a prompt, a skill, the model. Values are rational numbers; a value that is no number or infinite is kept apart.
\<close>

section \<open>The ethos\<close>

definition rat_of_decimal :: "int \<Rightarrow> nat \<Rightarrow> rat" where
  "rat_of_decimal m k = of_int m / 10 ^ k"

text \<open>\<open>0.0 <= v <= 1.0\<close>: the value, if it is so.\<close>

definition unit_value :: "pyfloat \<Rightarrow> rat option" where
  "unit_value v = (case v of
      FNum m k \<Rightarrow> let r = rat_of_decimal m k in if 0 \<le> r \<and> r \<le> 1 then Some r else None
    | _ \<Rightarrow> None)"

text \<open>\<open>round(v, 4)\<close>, a tie to the even side.\<close>

definition half_even :: "rat \<Rightarrow> int" where
  "half_even x = (let f = \<lfloor>x\<rfloor>; d = x - of_int f in
     if d < 1 / 2 then f else if 1 / 2 < d then f + 1 else if even f then f else f + 1)"

definition round4 :: "rat \<Rightarrow> rat" where
  "round4 x = of_int (half_even (x * 10000)) / 10000"

fun shortest_decimal :: "int \<Rightarrow> nat \<Rightarrow> pyval" where
  "shortest_decimal m (Suc (Suc k)) = (if m mod 10 = 0 then shortest_decimal (m div 10) (Suc k) else PFloat m (Suc (Suc k)))"
| "shortest_decimal m k = PFloat m k"

text \<open>
  One dimension: a larger step is cut to \<open>max_delta\<close>, a guarded dimension does not fall, and the result is cut to the
  unit interval and rounded. The flag says whether the step was cut.
\<close>

definition new_ethos_value :: "rat \<Rightarrow> bool \<Rightarrow> pyfloat \<Rightarrow> rat \<Rightarrow> rat \<times> bool" where
  "new_ethos_value max_delta guarded old v = (case old of
      FNum m k \<Rightarrow> (let r = rat_of_decimal m k; cut = max_delta < \<bar>v - r\<bar>;
          v1 = (if cut then r + max_delta * (if r < v then 1 else - 1) else v);
          v2 = (if guarded \<and> v1 < r then r else v1)
        in (round4 (max 0 (min 1 v2)), cut))
    | FInf neg \<Rightarrow> (if neg then 0 else 1, True)
    | FNan \<Rightarrow> (round4 (max 0 (min 1 v)), False))"

fun validate_ethos ::
    "evo_env \<Rightarrow> rat \<Rightarrow> (string \<Rightarrow> bool) \<Rightarrow> (string \<Rightarrow> pyfloat) \<Rightarrow> dict \<Rightarrow> string list \<Rightarrow>
     (string + (string \<times> rat) list \<times> string list) res" where
  "validate_ethos E delta guarded old proposed [] = Inr (Inr ([], []))"
| "validate_ethos E delta guarded old proposed (q # qs) = (case map_of proposed q of
      None \<Rightarrow> Inr (Inl (ev_say E ''missing_dimension'' [q]))
    | Some raw \<Rightarrow> (case py_float raw of
        Inl x \<Rightarrow> Inl x
      | Inr f \<Rightarrow> (case unit_value f of
          None \<Rightarrow> Inr (Inl (ev_say E ''out_of_range'' [q]))
        | Some v \<Rightarrow> (let (r, cut) = new_ethos_value delta (guarded q) (old q) v in
            bind_res (validate_ethos E delta guarded old proposed qs) (\<lambda>rest. Inr (case rest of
                Inl why \<Rightarrow> Inl why
              | Inr (vs, cuts) \<Rightarrow> Inr ((q, r) # vs, if cut then q # cuts else cuts)))))))"

fun all_floats :: "(string \<times> pyval) list \<Rightarrow> (string \<times> pyfloat) list res" where
  "all_floats [] = Inr []"
| "all_floats ((d, v) # r) = bind_res (py_float v) (\<lambda>f. bind_res (all_floats r) (\<lambda>fs. Inr ((d, f) # fs)))"

text \<open>The values now: those of the fact, and those of the configuration for the missing ones.\<close>

definition current_ethos :: "evo_cfg \<Rightarrow> facts \<Rightarrow> (string \<Rightarrow> pyfloat) res" where
  "current_ethos c f = (let text0 = fst (get_fact f ''soul:ethos_baseline'') in
     bind_res (if text0 = [] then Inr [] else (case json_loads text0 of
         None \<Rightarrow> Inl (Exn ''JSONDecodeError'' []) | Some (PDict d) \<Rightarrow> Inr d | Some _ \<Rightarrow> Inr [])) (\<lambda>raw.
     bind_res (all_floats (List.map_filter (\<lambda>q. map_option (Pair q) (map_of raw q)) ethos_dimensions)) (\<lambda>fs.
       Inr (\<lambda>q. case map_of fs q of None \<Rightarrow> ec_ethos_seed c q | Some v \<Rightarrow> v))))"

definition strip_end :: "string \<Rightarrow> string" where
  "strip_end s = rev (lstrip (rev s))"

definition clip_ethos_reflection_text :: "string \<Rightarrow> nat \<Rightarrow> string" where
  "clip_ethos_reflection_text txt limit = (let value = strip txt in
     if length value \<le> limit then value
     else strip_end (take (max 32 (limit - 32)) value) @ [char_of (10::nat)] @ ''...[reflection truncated]...'')"

definition reflection_text :: "node list \<Rightarrow> string" where
  "reflection_text rs = clip_ethos_reflection_text (join [char_of (10::nat)]
     (map (\<lambda>r. ''- ['' @ n_title r @ ''] '' @ clip_ethos_reflection_text (n_body r) 900) rs)) 4000"

definition flat_object :: re where
  "flat_object = re_all [Chars ''{'', re_plus True (One (\<lambda>c. c \<noteq> CHR ''}'')), Chars ''}'']"

definition ethos_failed :: "string \<Rightarrow> evolution_result" where
  "ethos_failed reason = evolution_failed ''ethos_baseline'' reason"

definition ethos_json :: "(string \<times> rat) list \<Rightarrow> string" where
  "ethos_json vs = json_dumps False (PDict (map (\<lambda>(d, v). (d, shortest_decimal \<lfloor>v * 10000\<rfloor> 4)) vs))"

definition evolve_ethos :: "evo_env \<Rightarrow> evo_cfg \<Rightarrow> evolution_result evo" where
  "evolve_ethos E c s = (if \<not> ec_enabled c then (Inr (ethos_failed ''evolution disabled''), s)
    else then_do (current_ethos c (w_facts (es_world s)), s) (\<lambda>old s.
      let reflections = (case ev_retrieve E s of Inl x \<Rightarrow> [] | Inr ns \<Rightarrow> filter (\<lambda>n. n_kind n = ''reflection'') ns) in
      if reflections = [] then (Inr (ethos_failed ''no reflections yet''), s)
      else (let boundaries = extract_constitution_boundaries (ev_boundary_title E)
              (fst (load_constitution (ev_constitution_path E) (ev_file_at E (ev_constitution_path E)) (ev_constitution E)));
            (answer, s1) = ask_provider E [(''system'', ev_say E ''ethos_system'' []),
              (''user'', ev_say E ''ethos_user'' (reflection_text reflections # boundaries))] PNone s
        in case answer of
             Inl x \<Rightarrow> (Inr (ethos_failed (exn_msg x)), s1)
           | Inr raw \<Rightarrow> (case re_search flat_object (strip raw) of
               None \<Rightarrow> (Inr (ethos_failed (ev_say E ''no_json'' [strip raw])), s1)
             | Some m \<Rightarrow> (case json_loads (group_of 0 m) of
                 Some (PDict proposed) \<Rightarrow>
                   then_do (validate_ethos E (ec_ethos_max_delta c) (\<lambda>q. \<exists>b \<in> set boundaries. contains (lower b) q) old
                      proposed ethos_dimensions, s1) (\<lambda>checked s1. case checked of
                     Inl why \<Rightarrow> (Inr (ethos_failed why), s1)
                   | Inr (vs, cuts) \<Rightarrow>
                      then_do (on_world (set_soul_fact (ev_env E) ''soul:ethos_baseline'' (PStr (ethos_json vs)) ''system''
                          ''evolution/ethos'' 0 ''ethos evolution from recent reflections and constitution boundaries'') s1) (\<lambda>_ s2.
                      then_do (update_dreams E True (ev_say E ''dream_ethos'' [ethos_json vs]) s2) (\<lambda>_ s3.
                        (Inr \<lparr>er_success = True, er_target = ''ethos_baseline'',
                           er_reason = (if cuts = [] then [] else ev_say E ''clamp_note'' cuts), er_new_code = ethos_json vs\<rparr>, s3))))
               | _ \<Rightarrow> (Inr (ethos_failed (ev_say E ''json_error'' [group_of 0 m])), s1))))))"

section \<open>Prompts\<close>

text \<open>\<open>path.with_suffix(suffix)\<close>.\<close>

definition with_suffix :: "string \<Rightarrow> string \<Rightarrow> string" where
  "with_suffix path suff = (let name = rev (takeWhile (\<lambda>ch. ch \<noteq> CHR ''/'') (rev path));
       dir = take (length path - length name) path;
       ext = rev (takeWhile (\<lambda>ch. ch \<noteq> CHR ''.'') (rev name)); stem = take (length name - length ext - 1) name
     in if CHR ''.'' \<in> set name \<and> stem \<noteq> [] \<and> ext \<noteq> [] then dir @ stem @ suff else path @ suff)"

definition required_markers :: "string list" where
  "required_markers = map (\<lambda>m. [char_of (34::nat)] @ m @ [char_of (34::nat)])
     [''decision'', ''chosen_action_id'', ''params'', ''rationale'', ''reflection'', ''reply_to_user'', ''next_step'']"

text \<open>The part under \<open>try\<close>, and its handler: any exception brings back the backup, if there is one.\<close>

definition rewrite_prompt :: "evo_env \<Rightarrow> evo_cfg \<Rightarrow> string \<Rightarrow> string \<Rightarrow> string \<Rightarrow> string \<Rightarrow> evolution_result evo" where
  "rewrite_prompt E c key path current feedback s = (let target = ''prompt:'' @ key; bak = with_suffix path ''.md.bak'' in
    then_do (ask_provider E [(''system'', ev_say E ''prompt_system'' []), (''user'', ev_say E ''prompt_user'' [current, feedback])] PNone s)
      (\<lambda>answer s. let new = strip answer in
      if new = [] then (Inr (evolution_failed target (ev_say E ''empty_answer'' [])), s)
      else if \<exists>m \<in> set required_markers. \<not> contains new m then (Inr (evolution_failed target (ev_say E ''markers_missing'' [])), s)
      else then_do (if ec_backup c \<and> file_exists path s then then_do (read_text E path s) (write_text E bak) else (Inr (), s)) (\<lambda>_ s.
        then_do (write_text E path new s) (\<lambda>_ s.
        then_do (update_dreams E False (ev_say E ''dream_prompt'' [key]) s) (\<lambda>_ s.
          (Inr \<lparr>er_success = True, er_target = target, er_reason = [], er_new_code = new\<rparr>, s))))))"

definition restore_backup :: "evo_env \<Rightarrow> evo_cfg \<Rightarrow> string \<Rightarrow> string \<Rightarrow> unit evo" where
  "restore_backup E c path bak s = (if ec_backup c \<and> file_exists bak s
     then then_do (read_text E bak s) (write_text E path) else (Inr (), s))"

definition evolve_prompt :: "evo_env \<Rightarrow> evo_cfg \<Rightarrow> string \<Rightarrow> string \<Rightarrow> evolution_result evo" where
  "evolve_prompt E c key feedback s = (let target = ''prompt:'' @ key in case ev_prompt_path E key of
      None \<Rightarrow> (Inr (evolution_failed target (ev_say E ''unknown_prompt'' [])), s)
    | Some path \<Rightarrow> then_do (text_or_empty E path s) (\<lambda>current s.
        or_else (rewrite_prompt E c key path current feedback s) (\<lambda>x s.
          then_do (if file_exists path s then restore_backup E c path (with_suffix path ''.md.bak'') s else (Inr (), s)) (\<lambda>_ s.
            (Inr (evolution_failed target (exn_msg x)), s)))))"

section \<open>Skills\<close>

text \<open>A word character of \<open>re\<close>, up to code point 255.\<close>

definition word_char :: "char \<Rightarrow> bool" where
  "word_char ch = (let n = (of_char ch :: nat) in (48 \<le> n \<and> n \<le> 57) \<or> (65 \<le> n \<and> n \<le> 90) \<or> n = 95 \<or> (97 \<le> n \<and> n \<le> 122) \<or>
     n \<in> {170, 178, 179, 181, 185, 186, 188, 189, 190} \<or> (192 \<le> n \<and> n \<noteq> 215 \<and> n \<noteq> 247))"

definition frontmatter_key :: re where
  "frontmatter_key = re_all [Group 1 (Both (One (\<lambda>c. c = CHR ''_'' \<or> (let n = (of_char c :: nat) in (65 \<le> n \<and> n \<le> 90) \<or> (97 \<le> n \<and> n \<le> 122))))
       (Many True (One (\<lambda>c. c = CHR ''-'' \<or> word_char c)))), Chars '':'', Many True (One is_space)]"

text \<open>A line \<open>key: value\<close>, matched from its beginning.\<close>

definition key_line :: "string \<Rightarrow> (string \<times> string) option" where
  "key_line line = (case matches_of frontmatter_key line of [] \<Rightarrow> None
     | m # _ \<Rightarrow> Some (group_of 1 m, strip (fst (snd m))))"

definition indented :: "string \<Rightarrow> bool" where
  "indented line \<longleftrightarrow> startswith line '' '' \<or> startswith line [char_of (9::nat)]"

text \<open>A block ends before the next line that is not indented and has a key.\<close>

fun block_end :: "string list \<Rightarrow> string list \<times> string list" where
  "block_end [] = ([], [])"
| "block_end (l # ls) = (if l \<noteq> [] \<and> \<not> indented l \<and> key_line l \<noteq> None then ([], l # ls)
     else (let (b, r) = block_end ls in (lstrip l # b, r)))"

lemma block_end_length: "block_end ls = (b, r) \<Longrightarrow> length r \<le> length ls"
  by (induction ls arbitrary: b r) (auto split: if_splits prod.splits)

definition strip_quotes :: "string \<Rightarrow> string" where
  "strip_quotes s = (let q = (\<lambda>c. c = char_of (34::nat) \<or> c = char_of (39::nat)) in
     rev (dropWhile q (rev (dropWhile q s))))"

function frontmatter :: "string list \<Rightarrow> (string \<times> string) list \<Rightarrow> (string \<times> string) list" where
  "frontmatter [] meta = meta"
| "frontmatter (l # ls) meta = (case key_line l of
      None \<Rightarrow> frontmatter ls meta
    | Some (key, v) \<Rightarrow>
       if v = ''|'' \<or> v = ''>'' \<or> (v = [] \<and> (case ls of [] \<Rightarrow> False | n # _ \<Rightarrow> indented n))
       then (let (b, r) = block_end ls in frontmatter r (AList.update key (strip (join [char_of (10::nat)] b)) meta))
       else frontmatter ls (AList.update key (strip_quotes v) meta))"
  by pat_completeness auto
termination
proof (relation "measure (\<lambda>(ls, _). length ls)", goal_cases)
  case (3 l ls meta p key v x b r)
  then show ?case using block_end_length [of ls b r] by (cases p) auto
qed auto

definition split_frontmatter :: "string \<Rightarrow> (string \<times> string) list \<times> string" where
  "split_frontmatter content = (if \<not> startswith content ''---'' then ([], strip content)
    else (let ls = tl (split_lines content); raw = takeWhile (\<lambda>l. strip l \<noteq> ''---'') ls in
      if length raw = length ls then ([], strip content)
      else (frontmatter raw [], strip (join [char_of (10::nat)] (drop (length raw + 1) ls)))))"

definition meta_text :: "(string \<times> string) list \<Rightarrow> string \<Rightarrow> string" where
  "meta_text meta k = (case map_of meta k of None \<Rightarrow> [] | Some v \<Rightarrow> v)"

definition workspace_skill_file :: "evo_env \<Rightarrow> string \<Rightarrow> string" where
  "workspace_skill_file E name = ev_workspace E @ ''/skills/'' @ name @ ''/SKILL.md''"

definition ensure_workspace_skill_file :: "evo_env \<Rightarrow> string \<Rightarrow> string evo" where
  "ensure_workspace_skill_file E name s = (let target = workspace_skill_file E name; seed = ''prompts/skills/'' @ name @ ''/SKILL.md'' in
    if file_exists target s \<or> \<not> file_exists seed s then (Inr target, s)
    else then_do (then_do (read_text E seed s) (write_text E target)) (\<lambda>_ s. (Inr target, s)))"

text \<open>Why a text is not accepted as the skill.\<close>

definition skill_refused :: "evo_env \<Rightarrow> string \<Rightarrow> string \<Rightarrow> string option" where
  "skill_refused E name new = (let meta = fst (split_frontmatter new) in
     if new = [] then Some (ev_say E ''empty_answer'' [])
     else if meta_text meta ''name'' = [] \<or> meta_text meta ''description'' = [] then Some (ev_say E ''skill_incomplete'' [])
     else if strip (meta_text meta ''name'') \<noteq> name then Some (ev_say E ''skill_name'' [name]) else None)"

definition reload_skills :: "evo_env \<Rightarrow> bool \<Rightarrow> unit evo" where
  "reload_skills E has_ctx s = raise_if (if has_ctx then ev_reload_skills E else None) s"

definition evolve_skill :: "evo_env \<Rightarrow> evo_cfg \<Rightarrow> bool \<Rightarrow> string \<Rightarrow> string \<Rightarrow> evolution_result evo" where
  "evolve_skill E c has_ctx name feedback s = (let target = ''skill:'' @ name in
    then_do (ensure_workspace_skill_file E name s) (\<lambda>path s.
    then_do (text_or_empty E path s) (\<lambda>current s. let bak = with_suffix path ''.md.bak'' in
      or_else (then_do (ask_provider E [(''system'', ev_say E ''skill_system'' []),
            (''user'', ev_say E ''skill_user'' [name, path, current, feedback])] PNone s) (\<lambda>answer s. let new = strip answer in
        case skill_refused E name new of
          Some why \<Rightarrow> (Inr (evolution_failed target why), s)
        | None \<Rightarrow> then_do (if ec_backup c \<and> file_exists path s then write_text E bak current s else (Inr (), s)) (\<lambda>_ s.
            then_do (write_text E path new s) (\<lambda>_ s.
            then_do (reload_skills E has_ctx s) (\<lambda>_ s.
            then_do (update_dreams E False (ev_say E ''dream_skill'' [name]) s) (\<lambda>_ s.
              (Inr \<lparr>er_success = True, er_target = target, er_reason = [], er_new_code = new\<rparr>, s)))))))
        (\<lambda>x s. then_do (restore_backup E c path bak s) (\<lambda>_ s. (Inr (evolution_failed target (exn_msg x)), s))))))"

definition synthesize_skill :: "evo_env \<Rightarrow> evo_cfg \<Rightarrow> bool \<Rightarrow> string \<Rightarrow> string \<Rightarrow> evolution_result evo" where
  "synthesize_skill E c has_ctx name description s = (let path = workspace_skill_file E name; target = ''skill:'' @ name in
    if file_exists path s then evolve_skill E c has_ctx name description s
    else or_else (then_do (ask_provider E [(''system'', ev_say E ''synthesize_system'' []),
          (''user'', ev_say E ''synthesize_user'' [name, description])] PNone s) (\<lambda>answer s. let new = strip answer in
        case skill_refused E name new of
          Some why \<Rightarrow> (Inr (evolution_failed target why), s)
        | None \<Rightarrow> then_do (write_text E path new s) (\<lambda>_ s.
            then_do (reload_skills E has_ctx s) (\<lambda>_ s.
            then_do (update_dreams E has_ctx (ev_say E ''dream_synthesized'' [name, description]) s) (\<lambda>_ s.
              (Inr \<lparr>er_success = True, er_target = target, er_reason = [], er_new_code = new\<rparr>, s))))))
      (\<lambda>x s. (Inr (evolution_failed target (ev_trace E x)), s)))"

section \<open>The model\<close>

fun organ_failure_text :: "evo_env \<Rightarrow> preflight_failure \<Rightarrow> string" where
  "organ_failure_text E Born_At_Missing = ev_say E ''born_at_missing'' []"
| "organ_failure_text E Ethos_Unparsable = ev_say E ''ethos_unparsable'' []"
| "organ_failure_text E Constitution_Not_Loaded = ev_say E ''constitution_not_loaded'' []"

definition soul_fact :: "evo_env \<Rightarrow> string \<Rightarrow> string \<Rightarrow> string \<Rightarrow> bool evo" where
  "soul_fact E key v basis = on_world (set_soul_fact (ev_env E) key (PStr v) ''system'' ''evolution/upgrade'' 0 basis)"

definition evolve_model :: "evo_env \<Rightarrow> string \<Rightarrow> string \<Rightarrow> evolution_result evo" where
  "evolve_model E model reason s = (let target = ''model:'' @ model; failures = three_organ_preflight (w_facts (es_world s)) (ev_constitution E);
      status = verify_constitution_integrity (ev_file_at E) (ev_constitution E) in
    if failures \<noteq> [] then
      (let msg = ev_say E ''preflight_failed'' (map (organ_failure_text E) failures) in
       then_do (soul_fact E ''soul:upgrade_blocked_reason'' msg ''evolution preflight failed; recorded upgrade block reason'' s) (\<lambda>_ s.
         (Inr (evolution_failed target msg), s)))
    else if status \<notin> {''ok'', ''uninitialized''} then (Inr (evolution_failed target (ev_say E ''constitution_refused'' [status])), s)
    else then_do (soul_fact E (''soul:upgrade_event:'' @ dec_int (fst (ev_unix_time E) div 10 ^ snd (ev_unix_time E)))
          (json_dumps False (PDict [(''new_model'', PStr model), (''reason'', PStr reason),
            (''ts'', PFloat (fst (ev_unix_time E)) (snd (ev_unix_time E)))]))
          ''upgrade record snapshot for restart continuity'' s) (\<lambda>_ s.
      then_do (soul_fact E ''soul:proposed_model'' model ''model evolve proposal snapshot'' s) (\<lambda>_ s.
        (Inr \<lparr>er_success = True, er_target = target, er_reason = ev_say E ''upgrade_ready'' [model], er_new_code = []\<rparr>, s))))"

section \<open>The ethos changes slowly\<close>

lemma half_even_near: "\<bar>of_int (half_even x) - x\<bar> \<le> 1 / 2"
proof -
  define f where "f = \<lfloor>x\<rfloor>"
  have "of_int f \<le> x" "x < of_int f + 1" unfolding f_def by linarith+
  then show ?thesis by (auto simp: half_even_def Let_def f_def [symmetric])
qed

lemma round4_near: "\<bar>round4 x - x\<bar> \<le> 1 / 20000"
  using half_even_near [of "x * 10000"] by (simp add: round4_def abs_if field_simps split: if_splits)

lemma half_even_unit:
  assumes "0 \<le> x" "x \<le> of_int n"
  shows "0 \<le> half_even x \<and> half_even x \<le> n"
proof -
  have f: "0 \<le> \<lfloor>x\<rfloor>" "\<lfloor>x\<rfloor> \<le> n" using assms by linarith+
  have "half_even x \<le> n"
  proof (cases "\<lfloor>x\<rfloor> = n")
    case True
    then have "x - of_int \<lfloor>x\<rfloor> < 1 / 2" using assms by linarith
    then show ?thesis using True by (simp add: half_even_def Let_def)
  next
    case False
    then show ?thesis using f by (simp add: half_even_def Let_def)
  qed
  moreover have "0 \<le> half_even x" using f by (simp add: half_even_def Let_def)
  ultimately show ?thesis by simp
qed

lemma round4_unit: "0 \<le> x \<Longrightarrow> x \<le> 1 \<Longrightarrow> 0 \<le> round4 x \<and> round4 x \<le> 1"
  using half_even_unit [of "x * 10000" 10000] by (auto simp: round4_def)

definition slow_change :: "rat \<Rightarrow> bool \<Rightarrow> pyfloat \<Rightarrow> rat \<Rightarrow> bool" where
  "slow_change delta guarded old v \<longleftrightarrow> 0 \<le> v \<and> v \<le> 1 \<and> (case unit_value old of
      Some r \<Rightarrow> \<bar>v - r\<bar> \<le> delta + 1 / 20000 \<and> (guarded \<longrightarrow> r - 1 / 20000 \<le> v)
    | None \<Rightarrow> True)"

lemma clamp_near: "0 \<le> r \<Longrightarrow> r \<le> 1 \<Longrightarrow> \<bar>max 0 (min 1 v) - r\<bar> \<le> \<bar>v - r\<bar>" for r v :: rat
  by (auto simp: max_def min_def abs_if)

lemma new_ethos_value_slow:
  assumes "0 \<le> delta" "new_ethos_value delta guarded old v = (n, hit)"
  shows "slow_change delta guarded old n"
proof (cases old)
  case (FNum m k)
  define r where "r = rat_of_decimal m k"
  define v1 where "v1 = (if delta < \<bar>v - r\<bar> then r + delta * (if r < v then 1 else - 1) else v)"
  define v2 where "v2 = (if guarded \<and> v1 < r then r else v1)"
  have n: "n = round4 (max 0 (min 1 v2))"
    using assms(2) unfolding FNum v2_def v1_def r_def by (auto simp: new_ethos_value_def Let_def)
  have "\<bar>v1 - r\<bar> \<le> delta" using assms(1) by (auto simp: v1_def)
  then have near: "\<bar>v2 - r\<bar> \<le> delta" "guarded \<Longrightarrow> r \<le> v2" using assms(1) by (auto simp: v2_def)
  have unit: "0 \<le> n \<and> n \<le> 1" unfolding n by (rule round4_unit) auto
  show ?thesis
  proof (cases "0 \<le> r \<and> r \<le> 1")
    case True
    have "\<bar>max 0 (min 1 v2) - r\<bar> \<le> delta" using clamp_near [of r v2] True near(1) by linarith
    moreover have "guarded \<Longrightarrow> r \<le> max 0 (min 1 v2)" using near(2) True by (simp add: max_def min_def)
    moreover have "\<bar>n - max 0 (min 1 v2)\<bar> \<le> 1 / 20000" unfolding n by (rule round4_near)
    ultimately have "\<bar>n - r\<bar> \<le> delta + 1 / 20000" "guarded \<Longrightarrow> r - 1 / 20000 \<le> n" by linarith+
    then show ?thesis using unit True by (simp add: slow_change_def unit_value_def FNum r_def)
  qed (use unit in \<open>auto simp: slow_change_def unit_value_def FNum r_def Let_def\<close>)
next
  case (FInf neg)
  then show ?thesis using assms(2) by (auto simp: slow_change_def unit_value_def new_ethos_value_def split: if_splits)
next
  case FNan
  then have "n = round4 (max 0 (min 1 v))" using assms(2) by (simp add: new_ethos_value_def)
  then show ?thesis using round4_unit [of "max 0 (min 1 v)"] FNan by (simp add: slow_change_def unit_value_def)
qed

lemma validate_ethos_slow:
  assumes "0 \<le> delta"
  shows "validate_ethos E delta guarded old proposed qs = Inr (Inr (vs, cuts)) \<Longrightarrow>
    map fst vs = qs \<and> (\<forall>dv \<in> set vs. slow_change delta (guarded (fst dv)) (old (fst dv)) (snd dv))"
proof (induction qs arbitrary: vs cuts)
  case (Cons q qs)
  then obtain raw f v r hit where "map_of proposed q = Some raw" "py_float raw = Inr f" "unit_value f = Some v"
      and val: "new_ethos_value delta (guarded q) (old q) v = (r, hit)"
    by (auto split: option.splits sum.splits prod.splits)
  with Cons.prems obtain ws cs where "validate_ethos E delta guarded old proposed qs = Inr (Inr (ws, cs))" "vs = (q, r) # ws"
    by (auto simp: bind_res_def split: sum.splits prod.splits)
  then show ?case using Cons.IH new_ethos_value_slow [OF assms val] by simp
qed simp

text \<open>The boundaries that guard a dimension, and the values that an evolution starts from.\<close>

definition ethos_guard :: "evo_env \<Rightarrow> string \<Rightarrow> bool" where
  "ethos_guard E q \<longleftrightarrow> (\<exists>b \<in> set (extract_constitution_boundaries (ev_boundary_title E)
     (fst (load_constitution (ev_constitution_path E) (ev_file_at E (ev_constitution_path E)) (ev_constitution E)))). contains (lower b) q)"


section \<open>A failing call undoes the last success\<close>


section \<open>Instances\<close>

lemma greedy_run:
  assumes f: "f [] = []" "\<And>c cs. f (c # cs) = (if p c then [([c], cs, [])] else [])"
    and "list_all p b" "rest = [] \<or> \<not> p (hd rest)" "length b \<le> n"
  shows "\<exists>more. many_matches f True n (b @ rest) = (b, rest, []) # more"
  using assms(3-5)
proof (induction b arbitrary: n)
  case Nil
  then show ?case by (cases n; cases rest) (auto simp: f)
next
  case (Cons c b)
  then obtain m where n: "n = Suc m" by (cases n) auto
  have "\<exists>more. many_matches f True m (b @ rest) = (b, rest, []) # more"
    using Cons.prems n by (intro Cons.IH) auto
  then show ?case using Cons.prems(1) by (auto simp: n f)
qed

lemma flat_object_match:
  assumes "list_all (\<lambda>c. c \<noteq> CHR ''}'') (c # b)"
  shows "re_search flat_object (''{'' @ c # b @ ''}'') = Some (''{'' @ c # b @ ''}'', [], [])"
proof -
  define q where "q = Many True (One (\<lambda>c. c \<noteq> CHR ''}''))"
  have "\<exists>more. many_matches (matches_of (One (\<lambda>c. c \<noteq> CHR ''}''))) True (length (b @ ''}'')) (b @ ''}'') = (b, ''}'', []) # more"
    using assms by (intro greedy_run [where p = "\<lambda>c. c \<noteq> CHR ''}''"]) auto
  then obtain more where "matches_of q (b @ ''}'') = (b, ''}'', []) # more"
    unfolding q_def matches_of.simps(5) by blast
  then have "\<exists>ms. matches_of (Both (Chars ''{'') (Both (Both (One (\<lambda>c. c \<noteq> CHR ''}'')) q) (Chars ''}''))) (CHR ''{'' # c # b @ ''}'') =
      (''{'' @ c # b @ ''}'', [], []) # ms"
    using assms by simp
  moreover have "flat_object = Both (Chars ''{'') (Both (Both (One (\<lambda>c. c \<noteq> CHR ''}'')) q) (Chars ''}''))"
    by (simp add: flat_object_def re_plus_def q_def)
  ultimately have "\<exists>ms. matches_of flat_object (CHR ''{'' # c # b @ ''}'') = (''{'' @ c # b @ ''}'', [], []) # ms" by (simp only:)
  then show ?thesis by auto
qed

lemma validate_ethos_complete:
  "\<forall>q \<in> set qs. \<exists>raw f v. map_of proposed q = Some raw \<and> py_float raw = Inr f \<and> unit_value f = Some v \<Longrightarrow>
     \<exists>vs cuts. validate_ethos E delta guarded old proposed qs = Inr (Inr (vs, cuts))"
  by (induction qs) (auto simp: bind_res_def split: prod.split)

definition demo_values :: dict where
  "demo_values = [(''truth'', PInt 1), (''caution'', PInt 1), (''continuity'', PInt 1), (''curiosity'', PInt 1), (''care'', PInt 1)]"

definition demo_ethos :: evo_env where
  "demo_ethos = demo_evo\<lparr>ev_chat := (\<lambda>_ _ _. Inr (json_dumps False (PDict demo_values))), ev_dreams := ''none'',
     ev_retrieve := (\<lambda>_. Inr [\<lparr>n_id = ''n'', n_kind = ''reflection'', n_title = ''t'', n_body = ''b'', n_activation = FNum 1 0,
       n_valence = FNum 0 0, n_importance = FNum 1 0, n_tags = [], n_source = ''s'', n_created_at = ''now''\<rparr>])\<rparr>"

lemma demo_json: "json_loads (json_dumps False (PDict demo_values)) = Some (PDict demo_values)"
  by (rule json_round_trip) (simp add: demo_values_def)

lemma demo_values_text: "\<exists>c b. json_dumps False (PDict demo_values) = ''{'' @ c # b @ ''}'' \<and> list_all (\<lambda>c. c \<noteq> CHR ''}'') (c # b)"
  by (simp add: demo_values_def json_string_def json_char_def dec_int_def dec_nat.simps Let_def char_of_def bit_0)

lemma strip_braces: "strip (''{'' @ x @ ''}'') = ''{'' @ x @ ''}''"
  by (simp add: strip_def lstrip_def is_space_def)

lemma soul_fact_done:
  assumes "validate_soul_key key = Inr key"
  shows "fst (set_soul_fact e key v sc src r b w) = Inr True"
  using assms
  by (auto simp: set_soul_fact_def submit_def apply_state_write_def apply_soul_change_def build_proposal_def check_tool_blocked_def
      pseudo_tool_name_def default_blocked_tools_def bind_res_def validate_soul_key_def Let_def startswith_def accepted_as_def split: if_splits)

lemma demo_no_file: "file_text ''none'' (demo_evo_st\<lparr>es_asked := 1\<rparr>) = None"
  by (simp add: demo_evo_st_def file_text_def)


definition demo_prompts :: evo_env where
  "demo_prompts = demo_evo\<lparr>ev_chat := (\<lambda>n _ _. if n = 0 then Inr (concat required_markers) else Inl (Exn ''TimeoutError'' ''slow'')),
     ev_dreams := ''none''\<rparr>"

lemma contains_append: "contains b m \<Longrightarrow> contains (a @ b) m"
  by (induction a) auto

lemma contains_here: "contains (m @ b) m"
proof -
  have "prefix m s \<Longrightarrow> contains s m" for s by (cases s) auto
  then show ?thesis by simp
qed

lemma contains_concat: "m \<in> set ms \<Longrightarrow> contains (concat ms) m"
  by (induction ms) (auto simp: contains_here contains_append)


end
