(* ===== verification/Evo_Run.thy ===== *)
theory Evo_Run
  imports Evo_Soft
begin

text \<open>
  The engine itself (\<open>core/evolution/__init__.py\<close>, and the pending verifications of \<open>core/evolution/smoke.py\<close>): a run
  settles the evolutions that wait for their verification, asks the breakers, counts the recent failures per tool,
  lets the model choose a target and evolves it.
\<close>

section \<open>Pending verifications\<close>

definition verification_outcome :: "dict \<Rightarrow> metrics \<Rightarrow> int \<Rightarrow> string res" where
  "verification_outcome baseline observed min_runs =
    (let num = (\<lambda>k. py_int (py_or (dict_get_or (PInt 0) baseline k) (PInt 0)));
         runs = int (mt_runs observed); failed = int (mt_failures observed) in
     bind_res (num ''failures'') (\<lambda>bf. bind_res (num ''runs'') (\<lambda>br. Inr (
       if runs < min_runs then ''pending''
       else if 0 < failed \<and> mt_successes observed = 0 \<and>
           of_int bf / of_int (max br 1) \<le> (of_int failed / of_int (max runs 1) :: rat) then ''regressed''
       else ''verified''))))"

text \<open>\<open>payload.get(k)\<close> of what a fact holds; only a dict has a \<open>get\<close>.\<close>

definition value_dict :: "pyval \<Rightarrow> dict res" where
  "value_dict v = (case v of PDict d \<Rightarrow> Inr d
     | _ \<Rightarrow> Inl (Exn ''AttributeError'' (str_repr (type_name v) @ '' object has no attribute '' @ str_repr ''get'')))"

definition metrics_text :: "metrics \<Rightarrow> string" where
  "metrics_text m = ''observed='' @ py_str (metrics_value m)"

text \<open>The old text comes back from the backup, if that is allowed and both files are there; the module has the name of the file.\<close>

definition roll_back :: "evo_env \<Rightarrow> evo_cfg \<Rightarrow> string \<Rightarrow> string \<Rightarrow> bool evo" where
  "roll_back E c backup tool s = (if ec_rollback c \<and> file_exists backup s \<and> file_exists tool s
    then then_do (read_text E backup s) (\<lambda>old s. then_do (write_text E tool old s) (\<lambda>_ s.
      then_do (reload_module_from_path E (''tools.'' @ (let name = rev (takeWhile (\<lambda>ch. ch \<noteq> CHR ''/'') (rev tool)) in
          take (length name - 3) name)) tool s) (\<lambda>_ s. (Inr True, s))))
    else (Inr False, s))"

definition told_breaker :: "evo_env \<Rightarrow> evo_cfg \<Rightarrow> string \<Rightarrow> bool \<Rightarrow> string \<Rightarrow> unit evo" where
  "told_breaker E c target ok reason =
     on_world (update_target_breaker_state (ev_env E) (ev_now E) (ec_breakers c) target ok reason)"

text \<open>One fact: the results it adds.\<close>

definition settle_verification :: "evo_env \<Rightarrow> evo_cfg \<Rightarrow> string \<times> string \<Rightarrow> evolution_result list evo" where
  "settle_verification E c kr s = (let (key, raw) = kr; drop = (\<lambda>rs s. then_do (remove_fact E key ''evolution/verify'' s) (\<lambda>_ s. (Inr rs, s))) in
    case json_loads raw of
      None \<Rightarrow> drop [] s
    | Some v \<Rightarrow> then_do (value_dict v, s) (\<lambda>payload s. let target = str_or_empty (dict_get payload ''target'') in
        if target = [] then drop [] s
        else (let observed = gather_target_validation_metrics target
                (Some (parse_ts (str_or_empty (dict_get payload ''created_at'')))) s in
          then_do (bind_res (value_dict (py_or (dict_get payload ''baseline'') (PDict []))) (\<lambda>base.
              verification_outcome base observed (ec_min_runs c)), s) (\<lambda>outcome s.
            if outcome = ''pending'' then (Inr [], s)
            else if outcome = ''verified'' then
              then_do (told_breaker E c target True (''verification '' @ metrics_text observed) s) (\<lambda>_ s.
                drop [\<lparr>er_success = True, er_target = ''verify:'' @ target, er_reason = metrics_text observed, er_new_code = []\<rparr>] s)
            else then_do (roll_back E c (str_or_empty (dict_get payload ''backup_path'')) (str_or_empty (dict_get payload ''tool_path'')) s)
              (\<lambda>rolled_back s.
              then_do (told_breaker E c target False (''verification regressed '' @ metrics_text observed) s) (\<lambda>_ s.
                drop [\<lparr>er_success = rolled_back, er_target = (if rolled_back then ''rollback:'' else ''verify:'') @ target,
                  er_reason = metrics_text observed, er_new_code = []\<rparr>] s))))))"

fun settle_verifications :: "evo_env \<Rightarrow> evo_cfg \<Rightarrow> (string \<times> string) list \<Rightarrow> evolution_result list evo" where
  "settle_verifications E c [] s = (Inr [], s)"
| "settle_verifications E c (kr # krs) s = then_do (settle_verification E c kr s) (\<lambda>rs s.
     then_do (settle_verifications E c krs s) (\<lambda>more s. (Inr (rs @ more), s)))"

definition process_pending_verifications :: "evo_env \<Rightarrow> evo_cfg \<Rightarrow> evolution_result list evo" where
  "process_pending_verifications E c s =
     settle_verifications E c (list_facts ''evolution:verify:'' 50 (w_facts (es_world s))) s"

section \<open>Counting failures\<close>

text \<open>A failure counts when its time cannot be read, or is not before the window.\<close>

definition in_window :: "evo_env \<Rightarrow> evo_cfg \<Rightarrow> failure \<Rightarrow> bool" where
  "in_window E c f = (case fromisoformat (zulu (f_created_at f)) of
      None \<Rightarrow> True
    | Some tz \<Rightarrow> rat_of_decimal (fst (ev_now E)) (snd (ev_now E)) - 60 * of_int (ec_window_minutes c) \<le> instant_of tz)"

text \<open>\<open>Counter(kinds).most_common()\<close>: by falling count, equal counts in the order of their first occurrence.\<close>

definition most_common :: "string list \<Rightarrow> (string \<times> int) list" where
  "most_common ks = sort_key (\<lambda>kn. - snd kn) (map (\<lambda>k. (k, int (count_list ks k))) (rev (remdups (rev ks))))"

definition ranked_tools :: "evo_cfg \<Rightarrow> failure list \<Rightarrow> (string \<times> int) list" where
  "ranked_tools c recent = filter (\<lambda>kn. ec_trigger_min c \<le> snd kn)
     (most_common (filter (\<lambda>k. k \<noteq> [] \<and> k \<noteq> ''judgment_parse'') (map f_kind recent)))"

definition failure_feedback :: "string \<Rightarrow> failure list \<Rightarrow> string" where
  "failure_feedback kind recent =
     join [char_of (10::nat)] (map (\<lambda>f. ''- '' @ py_str (f_summary f)) (filter (\<lambda>f. f_kind f = kind) recent))"

section \<open>A run\<close>

text \<open>The ranked tools that have a file, by whether their breaker is open.\<close>

fun gather_candidates ::
    "evo_env \<Rightarrow> (string \<times> int) list \<Rightarrow> ((string \<times> int \<times> tool_path) list \<times> (string \<times> int \<times> int) list) evo" where
  "gather_candidates E [] s = (Inr ([], []), s)"
| "gather_candidates E ((name, n) # rest) s = (if \<not> is_registered_tool name s then gather_candidates E rest s
     else (case find_tool_path E name s of
         None \<Rightarrow> gather_candidates E rest s
       | Some p \<Rightarrow> then_do (on_world (is_target_breaker_cooling_down (ev_env E) (ev_now E) name) s) (\<lambda>(is_open, remain, streak) s.
           then_do (gather_candidates E rest s) (\<lambda>(cs, bs) s.
             (Inr (if is_open then (cs, (name, remain, streak) # bs) else ((name, n, p) # cs, bs)), s)))))"

definition evolve_target ::
    "evo_env \<Rightarrow> evo_cfg \<Rightarrow> failure list \<Rightarrow> evolution_result list \<Rightarrow> (string \<times> int \<times> tool_path) list \<Rightarrow>
     (string \<times> int \<times> int) list \<Rightarrow> evolution_result list evo" where
  "evolve_target E c recent results cs bs s =
    (let ((target, why), s) = choose_tool_target_with_llm E recent (map (\<lambda>(n, k, p). (n, k)) cs) bs s in
     if target = None \<or> target = Some [] then (Inr (results @ [evolution_failed ''evolution:llm-skip'' why]), s)
     else (let (name, n, p) = (case find (\<lambda>x. Some (fst x) = target) cs of Some x \<Rightarrow> x | None \<Rightarrow> hd cs);
             feedback = failure_feedback name recent in
       then_do (if 2 \<le> ec_candidates c then competitive_evolve_tool E c True name p feedback (ec_candidates c) s
           else evolve_tool E c True name p feedback s) (\<lambda>r s.
       then_do (told_breaker E c name (er_success r) (er_reason r) s) (\<lambda>_ s.
       then_do (evolve_ethos E c s) (\<lambda>ethos s.
         (Inr (results @ [r] @ (if er_success ethos then [ethos] else [])), s))))))"

definition blocked_reason :: "(string \<times> int \<times> int) list \<Rightarrow> string" where
  "blocked_reason bs = ''all candidates blocked: '' @ join ''; ''
     (map (\<lambda>(n, r, k). n @ ''(remain='' @ dec_int r @ ''s,streak='' @ dec_int k @ '')'') bs)"

definition evolve_ranked :: "evo_env \<Rightarrow> evo_cfg \<Rightarrow> failure list \<Rightarrow> evolution_result list \<Rightarrow> evolution_result list evo" where
  "evolve_ranked E c recent results s = then_do (gather_candidates E (ranked_tools c recent) s) (\<lambda>(cs, bs) s.
     if cs = [] then (Inr (if bs = [] then results else results @ [evolution_failed ''evolution:breaker'' (blocked_reason bs)]), s)
     else evolve_target E c recent results cs bs s)"

definition evolve_recent :: "evo_env \<Rightarrow> evo_cfg \<Rightarrow> failure list \<Rightarrow> evolution_result list \<Rightarrow> evolution_result list evo" where
  "evolve_recent E c recent results s =
    (if ec_trigger_min c \<le> int (count_list (map f_kind recent) ''judgment_parse'')
     then then_do (evolve_prompt E c ''judgment'' (failure_feedback ''judgment_parse'' recent) s) (\<lambda>r s.
       if er_success r then (Inr (results @ [r]), s) else evolve_ranked E c recent (results @ [r]) s)
     else evolve_ranked E c recent results s)"

definition run_evolution :: "evo_env \<Rightarrow> evo_cfg \<Rightarrow> evolution_result list evo" where
  "run_evolution E c s = (if \<not> ec_enabled c then (Inr [], s)
    else then_do (process_pending_verifications E c s) (\<lambda>results s.
      then_do (on_world (is_global_breaker_cooling_down (ev_env E) (ev_now E)) s) (\<lambda>(is_open, remain) s.
        if is_open then (Inr (results @ [evolution_failed ''evolution:global-breaker''
            (''global breaker open, remaining='' @ dec_int remain @ ''s'')]), s)
        else (let recent = filter (in_window E c) (list_failures 20 (es_failures s)) in
          if recent = [] then (Inr results, s) else evolve_recent E c recent results s))))"

section \<open>A new tool\<close>

definition name_field :: re where
  "name_field = re_all [Chars (''name='' @ [char_of (34::nat)]), Group 1 (re_plus True (One (\<lambda>ch. ch \<noteq> char_of (34::nat)))),
     Chars [char_of (34::nat)]]"

definition synthesized_name :: "string \<Rightarrow> string \<Rightarrow> string" where
  "synthesized_name hint code = (if hint \<noteq> [] then hint else (case re_search name_field code of
      None \<Rightarrow> ''custom_tool'' | Some m \<Rightarrow> takeWhile (\<lambda>ch. ch \<noteq> CHR ''.'') (group_of 1 m)))"

text \<open>Loading it; on a failure the text before comes back, or the file goes.\<close>

definition load_or_remove :: "evo_env \<Rightarrow> string \<Rightarrow> tool_path \<Rightarrow> string \<Rightarrow> unit evo" where
  "load_or_remove E name p previous s =
    or_else (then_do (reload_module_from_path E (tool_module p) (tool_file p) s) (\<lambda>_ s.
        raise_if (if is_registered_tool name s then None
                  else Some (Exn ''RuntimeError'' (ev_say E ''not_registered'' [name]))) s))
      (\<lambda>x s. if previous \<noteq> []
         then then_do (write_text E (tool_file p) previous s) (\<lambda>_ s.
           then_do (reload_module_from_path E (tool_module p) (tool_file p) s) (\<lambda>_ s. (Inl x, s)))
         else (Inl x, unlink (tool_file p) s))"

definition synthesize_tool :: "evo_env \<Rightarrow> string \<Rightarrow> string \<Rightarrow> evolution_result evo" where
  "synthesize_tool E description hint s =
    or_else (then_do (ask_provider E [(''system'', ev_say E ''synthesize_tool_system'' []),
        (''user'', ev_say E ''synthesize_tool_user'' [description])] PNone s) (\<lambda>answer s. let code = extract_python answer in
      then_do (raise_if (ev_compile E code) s) (\<lambda>_ s. let name = synthesized_name hint code; p = (ev_tools_dir E, name) in
        case smoke_test_module E p code s of
          (Some message, s) \<Rightarrow> (Inr (evolution_failed name (''synthesize smoke failed: '' @ message)), s)
        | (None, s) \<Rightarrow> then_do (text_or_empty E (tool_file p) s) (\<lambda>previous s.
            then_do (write_text E (tool_file p) code s) (\<lambda>_ s.
            then_do (load_or_remove E name p previous s) (\<lambda>_ s.
              (Inr \<lparr>er_success = True, er_target = name, er_reason = [], er_new_code = code\<rparr>, s)))))))
      (\<lambda>x s. (Inr (evolution_failed [] (exn_msg x)), s))"

section \<open>The directory of the tools\<close>

lemma gather_nothing: "(\<And>name. find_tool_path E name s = None) \<Longrightarrow> gather_candidates E ranked s = (Inr ([], []), s)"
  by (induction E ranked s rule: gather_candidates.induct) auto

text \<open>
  The engine looks for the tools under \<open>core/tools/\<close>, two directories above its own file. In a project without such
  files (the tools are under \<open>tools/\<close>) it finds none of them, and however many failures there are, no tool is evolved
  and nothing changes.
\<close>

theorem no_tool_is_found:
  assumes "ev_tools_dir E = engine_tools_dir" "\<forall>path \<in> fst ` set (es_files s). \<not> startswith path ''core/tools/''"
  shows "find_tool_path E name s = None \<and> evolve_ranked E c recent results s = (Inr results, s)"
proof -
  have "\<not> file_exists (tool_file (ev_tools_dir E, stem)) s" for stem
  proof -
    have "startswith (tool_file (ev_tools_dir E, stem)) ''core/tools/''"
      by (simp add: tool_file_def assms(1) engine_tools_dir_def startswith_def)
    then show ?thesis using assms(2) by (auto simp: file_exists_def file_text_def map_of_eq_None_iff)
  qed
  then have none: "\<And>name. find_tool_path E name s = None" by (simp add: find_tool_path_def)
  then show ?thesis using gather_nothing [of E s] by (simp add: evolve_ranked_def)
qed

lemma no_tool_is_found_witness:
  "find_tool_path (demo_evo\<lparr>ev_tools_dir := engine_tools_dir\<rparr>) ''x.do'' demo_evo_st = None \<and>
   evolve_ranked (demo_evo\<lparr>ev_tools_dir := engine_tools_dir\<rparr>) demo_evo_cfg [] [] demo_evo_st = (Inr [], demo_evo_st)"
  by (rule no_tool_is_found) (simp_all add: demo_evo_st_def startswith_def)

section \<open>A verification that failed\<close>

lemma breaker_told:
  assumes "failure_streak (load_breaker_fact (breaker_fact_key t) w) = Inr n"
  shows "fst (update_target_breaker_state e now c t False reason w) = Inr ()"
proof -
  have sub: "fst (submit_breaker_fact e key v w) = Inr True" for key v w
  proof -
    obtain l where "submit_fact e key (PStr v) ''system'' ''evolution/breaker'' 0 [] w =
        (Inr True, w\<lparr>w_facts := set_fact (e_now_sql e) key v ''system'' (w_facts w), w_ledger := l\<rparr>)"
      by (rule submit_fact_obtain)
    then show ?thesis by (simp add: submit_breaker_fact_def)
  qed
  have step: "\<exists>w'. submit_breaker_fact e key v w = (Inr True, w')" for key v w
    using sub [of key v w] by (metis prod.collapse)
  define until where "until = (if bk_fail_threshold c \<le> n + 1 then later_by now (bk_cooldown_seconds c) else zero_float)"
  obtain w1 where "submit_breaker_fact e (breaker_fact_key t)
      (json_dumps False (PDict (breaker_payload ''target'' t (n + 1) until (e_now_iso e) reason))) w = (Inr True, w1)"
    using step by blast
  moreover obtain w2 where "submit_breaker_fact e global_breaker_fact_key (json_dumps False (PDict
      (breaker_payload ''failure_target'' t (n + 1) (later_by now (bk_global_cooldown_seconds c)) (e_now_iso e) reason))) w1 = (Inr True, w2)"
    using step by blast
  ultimately show ?thesis using assms
    by (simp add: update_target_breaker_state_def until_def Let_def del: json_dumps.simps)
qed


definition demo_payload :: dict where
  "demo_payload = [(''target'', PStr ''x.do''), (''tool_path'', PStr ''tools/x.py''), (''backup_path'', PStr ''tools/x.py.bak''),
     (''baseline'', PDict [(''failures'', PInt 0)])]"

definition demo_regressed :: evo_st where
  "demo_regressed = demo_evo_st\<lparr>es_failures := record_failure ''x'' ''x.do'' [] [] [] empty_tbl,
     es_files := [(''tools/x.py'', ''new''), (''tools/x.py.bak'', ''old'')]\<rparr>"

lemma demo_since: "parse_ts [] = 0" "parse_ts ''x'' = 0"
  by (simp_all add: parse_ts_def strip_def lstrip_def is_space_def endswith_def fromisoformat_def day_of_def digits_of_def Let_def suffix_def)

lemma demo_metrics: "gather_target_validation_metrics ''x.do'' (Some 0) demo_regressed = \<lparr>mt_failures = 1, mt_runs = 0, mt_successes = 0\<rparr>"
  by (simp add: gather_target_validation_metrics_def demo_regressed_def demo_evo_st_def empty_world_def empty_tbl_def record_failure_def
      tbl_insert_def list_failures_def tbl_select_def list_runs_def sql_limit_def failure_from_row_def counted_since_def demo_since Let_def)


end
