(* ===== verification/Workers.thy ===== *)
theory Workers
  imports Judgment Py_Io
begin

text \<open>
  The workers (\<open>core/execution/workers.py\<close>): what is repaired in the parameters of an action before its tool
  is called, when the call is refused, what a tool may return, the metadata a worker adds, and the pools that
  bound how many calls of a kind run at a time. A tool is a function over a state of its own; texts shown to the
  model are entries of a catalogue, \<open>say\<close>. A tool leaves the parameters it is given as they are.
\<close>

section \<open>Results as tools give them\<close>

text \<open>The fields of a \<open>ToolResult\<close> are not checked, a tool can put any value there.\<close>

record loose_result =
  lr_summary :: pyval
  lr_evidence :: pyval
  lr_skipped :: pyval
  lr_error :: pyval
  lr_kind :: pyval
  lr_priority :: pyval
  lr_resource_key :: pyval
  lr_fingerprint :: pyval
  lr_artifact_paths :: pyval
  lr_state_delta :: pyval
  lr_metadata :: pyval

definition fresh_result :: "pyval \<Rightarrow> loose_result" where
  "fresh_result summary = \<lparr>lr_summary = summary, lr_evidence = PStr [], lr_skipped = PBool False, lr_error = PNone,
     lr_kind = PStr ''execute_result'', lr_priority = PFloat 9 1, lr_resource_key = PStr [], lr_fingerprint = PStr [],
     lr_artifact_paths = PList [], lr_state_delta = PDict [], lr_metadata = PDict []\<rparr>"

text \<open>\<open>ToolResult(**raw)\<close>, after the keys that are no field are dropped and a summary is supplied.\<close>

definition result_of_dict :: "string \<Rightarrow> dict \<Rightarrow> loose_result" where
  "result_of_dict done_text d = (let r = fresh_result (PStr done_text); g = (\<lambda>k old. dict_get_or old d k) in
     \<lparr>lr_summary = g ''summary'' (lr_summary r), lr_evidence = g ''evidence'' (lr_evidence r),
      lr_skipped = g ''skipped'' (lr_skipped r), lr_error = g ''error'' (lr_error r), lr_kind = g ''kind'' (lr_kind r),
      lr_priority = g ''priority'' (lr_priority r), lr_resource_key = g ''resource_key'' (lr_resource_key r),
      lr_fingerprint = g ''fingerprint'' (lr_fingerprint r), lr_artifact_paths = g ''artifact_paths'' (lr_artifact_paths r),
      lr_state_delta = g ''state_delta'' (lr_state_delta r), lr_metadata = g ''metadata'' (lr_metadata r)\<rparr>)"

datatype raw_result = Raw_Result loose_result | Raw_Value pyval

type_synonym 's tool = "dict \<Rightarrow> 's \<Rightarrow> raw_result res \<times> 's"

type_synonym catalogue = "string \<Rightarrow> string list \<Rightarrow> string"

definition coerced_result :: "catalogue \<Rightarrow> raw_result \<Rightarrow> loose_result" where
  "coerced_result say raw = (case raw of
      Raw_Result r \<Rightarrow> r
    | Raw_Value (PDict d) \<Rightarrow> result_of_dict (say ''finished'' []) d
    | Raw_Value v \<Rightarrow> fresh_result (PStr (py_str v)))"

text \<open>\<open>metadata.setdefault(key, value)\<close>, \<open>metadata.get\<close> and \<open>state_delta.get\<close>.\<close>

definition setdefault :: "string \<Rightarrow> pyval \<Rightarrow> dict \<Rightarrow> dict" where
  "setdefault k v d = (if map_of d k = None then d @ [(k, v)] else d)"

definition meta_default :: "string \<Rightarrow> pyval \<Rightarrow> loose_result \<Rightarrow> loose_result res" where
  "meta_default k v r = (case lr_metadata r of
      PDict d \<Rightarrow> Inr (r\<lparr>lr_metadata := PDict (setdefault k v d)\<rparr>)
    | w \<Rightarrow> Inl (Exn ''AttributeError'' (str_repr (type_name w) @ '' object has no attribute '' @ str_repr ''setdefault'')))"

definition meta :: "loose_result \<Rightarrow> dict" where
  "meta r = (case as_dict (lr_metadata r) of None \<Rightarrow> [] | Some d \<Rightarrow> d)"

definition delta :: "loose_result \<Rightarrow> dict" where
  "delta r = (case as_dict (lr_state_delta r) of None \<Rightarrow> [] | Some d \<Rightarrow> d)"

fun meta_defaults :: "(string \<times> pyval) list \<Rightarrow> loose_result \<Rightarrow> loose_result res" where
  "meta_defaults [] r = Inr r"
| "meta_defaults ((k, v) # kvs) r = bind_res (meta_default k v r) (meta_defaults kvs)"

section \<open>Parameters\<close>

definition workbench_preference_fields :: "string list" where
  "workbench_preference_fields = [''domain'', ''intent'', ''hypothesis'', ''working_hypothesis'', ''recovery_state'',
     ''next_verification'', ''capabilities'', ''experiments'', ''evidence'', ''open_questions'', ''completion_checks'',
     ''progress'', ''failures'']"

definition task_id_aliases :: "(string \<times> string list) list" where
  "task_id_aliases = [(''task_id'', [''id'', ''payload.task_id'', ''params.task_id'', ''payload.id'', ''params.id''])]"

definition tool_param_aliases :: "string \<Rightarrow> (string \<times> string list) list" where
  "tool_param_aliases tool =
    (if tool = ''shell.run'' then
       [(''command'', [''cmd'', ''payload.command'', ''params.command'']),
        (''timeout'', [''timeout_sec'', ''timeoutSec'', ''payload.timeout'', ''params.timeout'']),
        (''workdir'', [''work_dir'', ''dir'', ''payload.workdir'', ''params.workdir'']),
        (''sandbox'', [''sandbox_enabled'', ''is_sandbox'', ''payload.sandbox'', ''params.sandbox''])]
     else if tool = ''task.resume'' \<or> tool = ''task.workbench'' then task_id_aliases else [])"

definition resolve_nested_alias :: "dict \<Rightarrow> string \<Rightarrow> pyval" where
  "resolve_nested_alias p a = (let dot = CHR ''.''; root = takeWhile (\<lambda>c. c \<noteq> dot) a; nested = drop (length root + 1) a in
     if dot \<notin> set a then dict_get p a
     else if dot \<in> set nested then PNone
     else (case dict_get p root of PDict d \<Rightarrow> dict_get d nested | _ \<Rightarrow> PNone))"

definition is_missing_param_value :: "string \<Rightarrow> pyval \<Rightarrow> bool" where
  "is_missing_param_value name v \<longleftrightarrow> v = PNone \<or>
     (name = ''command'' \<and> (case v of PStr s \<Rightarrow> strip s = [] | _ \<Rightarrow> False)) \<or>
     (name = ''task_id'' \<and> (case py_int (py_or v (PInt 0)) of Inl x \<Rightarrow> True | Inr i \<Rightarrow> i \<le> 0))"

definition image_input_count :: "dict \<Rightarrow> nat" where
  "image_input_count p = sum_list (map (\<lambda>k. case dict_get p k of
       PList vs \<Rightarrow> length vs | v \<Rightarrow> if truthy v then 1 else 0) [''path'', ''paths'', ''image'', ''images''])"

section \<open>Repairs\<close>

text \<open>
  The parameters of \<open>task.workbench\<close> without a workbench are collected into one. The lists under \<open>evidence\<close> and
  \<open>progress\<close> are the ones of the action, so what is appended is seen there too: the second component.
\<close>

definition appended :: "string \<Rightarrow> pyval list \<Rightarrow> dict \<Rightarrow> dict" where
  "appended k new d = (case map_of d k of
      Some (PList old) \<Rightarrow> AList.update k (PList (old @ new)) d
    | _ \<Rightarrow> d)"

definition added_items :: "dict \<Rightarrow> (string \<times> pyval list) list" where
  "added_items p = (let texts = (\<lambda>ks. map PStr (filter (\<lambda>t. t \<noteq> []) (map (\<lambda>k. strip (str_or_empty (dict_get p k))) ks)))
     in filter (\<lambda>kv. snd kv \<noteq> []) [(''evidence'', texts [''result_summary'']), (''progress'', texts [''current_step'', ''summary''])])"

definition repair_task_workbench_params :: "string \<Rightarrow> dict \<Rightarrow> dict \<times> dict" where
  "repair_task_workbench_params tool p =
    (if tool \<noteq> ''task.workbench'' then (p, p)
     else if (case dict_get p ''workbench'' of PDict w \<Rightarrow> w \<noteq> [] | _ \<Rightarrow> False) then (p, p)
     else (let own = filter (\<lambda>kv. fst kv \<in> set workbench_preference_fields) p;
               adding = added_items p;
               workbench = fold (\<lambda>(k, new) d. appended k new (setdefault k (PList []) d)) adding own;
               p' = fold (\<lambda>(k, new). appended k new) adding p
       in if workbench = [] then (p, p)
          else (AList.update ''workbench'' (PDict workbench)
             (if map_of p' ''task_id'' = None \<and> map_of p' ''id'' \<noteq> None
              then AList.update ''task_id'' (dict_get p' ''id'') p' else p'), p')))"

definition repair_alias :: "string \<times> string list \<Rightarrow> dict \<Rightarrow> dict" where
  "repair_alias ca p = (let (canonical, aliases) = ca in
     if \<not> is_missing_param_value canonical (dict_get p canonical) then p
     else (case find (\<lambda>a. \<not> is_missing_param_value canonical (resolve_nested_alias p a)) aliases of
         None \<Rightarrow> p
       | Some a \<Rightarrow> AList.update canonical (resolve_nested_alias p a) p))"

definition repair_tool_param_aliases :: "string \<Rightarrow> dict \<Rightarrow> dict" where
  "repair_tool_param_aliases tool p = fold repair_alias (tool_param_aliases tool) p"

definition repair_task_id_from_active_task :: "string \<Rightarrow> int option \<Rightarrow> dict \<Rightarrow> dict" where
  "repair_task_id_from_active_task tool active p =
    (if tool \<notin> {''task.resume'', ''task.workbench''} then p
     else if \<not> is_missing_param_value ''task_id'' (dict_get p ''task_id'') then p
     else (case active of None \<Rightarrow> p
         | Some i \<Rightarrow> if i \<le> 0 then p else AList.update ''task_id'' (PInt i) p))"

definition repaired_params :: "string \<Rightarrow> int option \<Rightarrow> dict \<Rightarrow> dict" where
  "repaired_params tool active p = repair_task_id_from_active_task tool active
     (repair_tool_param_aliases tool (fst (repair_task_workbench_params tool p)))"

text \<open>The parameters of the action, after the call.\<close>

definition params_after :: "string \<Rightarrow> dict \<Rightarrow> dict" where
  "params_after tool p = snd (repair_task_workbench_params tool p)"

section \<open>Required parameters\<close>

definition param_lacks :: "tool_param \<Rightarrow> dict \<Rightarrow> bool" where
  "param_lacks q p \<longleftrightarrow> (let v = dict_get p (tp_name q) in tp_required q \<and>
     (is_missing_param_value (tp_name q) v \<or>
      (tp_type q = ''string'' \<and> strip (py_str v) = [] \<and> \<not> (tp_name q = ''path'' \<and> py_str v = []))))"

definition missing_params :: "tool_manifest \<Rightarrow> dict \<Rightarrow> string list" where
  "missing_params m p = map tp_name (filter (\<lambda>q. param_lacks q p) (tm_params m))"

definition param_template_value :: "string \<Rightarrow> pyval" where
  "param_template_value t = (if t = ''string'' then PStr ''<string>'' else if t = ''number'' then PInt 0
     else if t = ''boolean'' then PBool False else if t = ''array'' then PList []
     else if t = ''object'' then PDict [] else PNone)"

definition expected_param_specs :: "tool_manifest \<Rightarrow> pyval" where
  "expected_param_specs m = PList (map (\<lambda>q. PDict [(''name'', PStr (tp_name q)), (''type'', PStr (tp_type q)),
     (''required'', PBool (tp_required q)), (''description'', PStr (tp_description q))]) (tm_params m))"

definition retry_params_template :: "tool_manifest \<Rightarrow> dict \<Rightarrow> string list \<Rightarrow> dict" where
  "retry_params_template m p missing = fold (\<lambda>q. if tp_name q \<in> set missing
     then AList.update (tp_name q) (param_template_value (tp_type q)) else (\<lambda>d. d)) (tm_params m) p"

definition invalid_input :: "catalogue \<Rightarrow> tool_manifest \<Rightarrow> dict \<Rightarrow> loose_result" where
  "invalid_input say m p = (let missing = missing_params m p; names = PList (map PStr missing);
       facts = [(''missing_params'', names), (''expected_params'', expected_param_specs m),
         (''retry_params_template'', PDict (retry_params_template m p missing)),
         (''recovery_next_step'', PStr (say ''supply_params'' [tm_name m, join '', '' missing]))]
     in (fresh_result (PStr (say ''params_missing'' [tm_name m, join '', '' missing])))
       \<lparr>lr_error := PStr ''ToolInputInvalid'', lr_skipped := PBool True, lr_kind := PStr ''error'',
        lr_state_delta := PDict ((''tool_input_invalid'', PBool True) # (''tool_name'', PStr (tm_name m)) # facts),
        lr_metadata := PDict ((''tool_name'', PStr (tm_name m)) #
          (''log_summary'', PStr (tm_name m @ '' missing_params='' @ join '','' missing)) # facts)\<rparr>)"

definition validate_required_params :: "catalogue \<Rightarrow> tool_manifest \<Rightarrow> dict \<Rightarrow> loose_result option" where
  "validate_required_params say m p = (if missing_params m p = [] then None else Some (invalid_input say m p))"

section \<open>Calling a tool\<close>

definition call_handler ::
    "catalogue \<Rightarrow> tool_manifest \<Rightarrow> 's tool \<Rightarrow> int option \<Rightarrow> dict \<Rightarrow> 's \<Rightarrow> loose_result res \<times> 's" where
  "call_handler say m h active params s = (let p = repaired_params (tm_name m) active params in
     case validate_required_params say m p of
       Some r \<Rightarrow> (Inr r, s)
     | None \<Rightarrow> then_do (h p s) (\<lambda>raw s. (Inr (coerced_result say raw), s)))"

text \<open>\<open>dispatch\<close> hands over the numbers it read from the pool when it took its slot.\<close>

record pool_slot =
  sl_wait_ms :: int
  sl_waiting :: int
  sl_inflight :: int
  sl_peak :: int

record worker_call =
  wk_say :: catalogue
  wk_active :: "int option"
  wk_slot :: pool_slot

definition call_tool_and_tag_path ::
    "worker_call \<Rightarrow> tool_manifest \<Rightarrow> 's tool \<Rightarrow> dict \<Rightarrow> string \<Rightarrow> 's \<Rightarrow> loose_result res \<times> 's" where
  "call_tool_and_tag_path W m h params path s = then_do (call_handler (wk_say W) m h (wk_active W) params s)
     (\<lambda>r s. (meta_default ''worker_path'' (PStr path) r, s))"

definition is_background_result :: "loose_result \<Rightarrow> bool" where
  "is_background_result r \<longleftrightarrow> truthy (dict_get (delta r) ''background'')"

definition name_session :: "loose_result \<Rightarrow> loose_result" where
  "name_session r = (if is_background_result r \<and> \<not> truthy (dict_get (meta r) ''session_id'') \<and> truthy (lr_resource_key r)
    then r\<lparr>lr_metadata := PDict (AList.update ''session_id'' (lr_resource_key r) (meta r))\<rparr> else r)"

definition exec_tags :: "loose_result \<Rightarrow> loose_result res" where
  "exec_tags r = (let background = is_background_result r in
    bind_res (meta_default ''execution_mode'' (PStr (if background then ''background'' else ''foreground'')) r) (\<lambda>r1.
      let r2 = name_session r1; session = dict_get (meta r2) ''session_id''
      in if background \<and> truthy session
         then meta_default ''run_monitor'' (PDict [(''kind'', PStr ''process''), (''session_id'', PStr (str_or_empty session))]) r2
         else Inr r2))"

definition multimodal_tags :: "dict \<Rightarrow> loose_result \<Rightarrow> loose_result res" where
  "multimodal_tags params = meta_defaults [(''modality'', PStr ''image''),
     (''input_count'', PInt (int (max 1 (image_input_count params))))]"

definition text_param :: "dict \<Rightarrow> string \<Rightarrow> string \<Rightarrow> string" where
  "text_param p k dflt = py_str (py_or (dict_get p k) (PStr dflt))"

definition llm_tags :: "dict \<Rightarrow> loose_result \<Rightarrow> loose_result res" where
  "llm_tags params r = bind_res (meta_default ''reasoning_mode'' (PStr ''tool-mediated-llm'') r) (\<lambda>r.
     let key = strip (str_or_empty (py_or (dict_get params ''monitor_fact_key'') (dict_get params ''status_fact_key''))) in
     if key = [] then Inr r
     else meta_default ''run_monitor'' (PDict [(''kind'', PStr ''fact''), (''key'', PStr key),
         (''status_field'', PStr (text_param params ''monitor_status_field'' ''status'')),
         (''progress_field'', PStr (text_param params ''monitor_progress_field'' ''progress''))]) r)"

text \<open>The workers of the five pools; any other type is served as a tool chain.\<close>

definition execute_on ::
    "string \<Rightarrow> worker_call \<Rightarrow> tool_manifest \<Rightarrow> 's tool \<Rightarrow> dict \<Rightarrow> 's \<Rightarrow> loose_result res \<times> 's" where
  "execute_on worker W m h params s =
    (let go = (\<lambda>path tags. then_do (call_tool_and_tag_path W m h params path s) (\<lambda>r s. (tags r, s)));
         after = params_after (tm_name m) params
     in if worker = ''exec-worker'' then go ''exec'' exec_tags
        else if worker = ''multimodal-worker'' then go ''multimodal'' (multimodal_tags after)
        else if worker = ''llm-worker'' then go ''llm'' (llm_tags after)
        else go ''tool-chain'' Inr)"

definition worker_limit :: "(string \<Rightarrow> pyval) \<Rightarrow> string \<Rightarrow> int" where
  "worker_limit cfg attr = max 1 (case py_int (py_or (cfg attr) (PInt 1)) of Inl x \<Rightarrow> 1 | Inr i \<Rightarrow> i)"

definition worker_types :: "string list" where
  "worker_types = [''tool-chain-worker'', ''evolve-worker'', ''exec-worker'', ''multimodal-worker'', ''llm-worker'']"

definition pool_of :: "string \<Rightarrow> string" where
  "pool_of worker = (if worker \<in> set worker_types then worker else ''tool-chain-worker'')"

definition pool_limit :: "(string \<Rightarrow> pyval) \<Rightarrow> string \<Rightarrow> int" where
  "pool_limit cfg worker = worker_limit cfg (worker_limit_config_key (pool_of worker))"

definition attach_common_metadata ::
    "string \<Rightarrow> string \<Rightarrow> int \<Rightarrow> pool_slot \<Rightarrow> loose_result \<Rightarrow> loose_result res" where
  "attach_common_metadata worker tool limit sl = meta_defaults [(''worker_type'', PStr worker), (''tool_name'', PStr tool),
     (''worker_limit'', PInt limit), (''worker_wait_ms'', PInt (sl_wait_ms sl)), (''worker_inflight'', PInt (sl_inflight sl)),
     (''worker_waiting'', PInt (max 0 (sl_waiting sl))), (''worker_peak_inflight'', PInt (sl_peak sl))]"

definition worker_dispatch ::
    "(string \<Rightarrow> pyval) \<Rightarrow> string \<Rightarrow> worker_call \<Rightarrow> string \<Rightarrow> tool_manifest \<Rightarrow> 's tool \<Rightarrow> dict \<Rightarrow> 's \<Rightarrow> loose_result res \<times> 's" where
  "worker_dispatch cfg worker W tool m h params s = then_do (execute_on worker W m h params s)
     (\<lambda>r s. (attach_common_metadata worker tool (pool_limit cfg worker) (wk_slot W) r, s))"

section \<open>The pools\<close>

text \<open>
  A pool with its semaphore. \<open>pool_enter\<close> is what happens when \<open>acquire\<close> returns: the call stops waiting and is
  in flight. A call that is cancelled while it waits only stops waiting.
\<close>

record worker_pool =
  wp_limit :: int
  wp_free :: int
  wp_inflight :: int
  wp_waiting :: int
  wp_peak_inflight :: int

definition new_pool :: "int \<Rightarrow> worker_pool" where
  "new_pool limit = \<lparr>wp_limit = limit, wp_free = limit, wp_inflight = 0, wp_waiting = 0, wp_peak_inflight = 0\<rparr>"

definition pool_wait :: "worker_pool \<Rightarrow> worker_pool" where
  "pool_wait q = q\<lparr>wp_waiting := wp_waiting q + 1\<rparr>"

definition pool_stop_waiting :: "worker_pool \<Rightarrow> worker_pool" where
  "pool_stop_waiting q = q\<lparr>wp_waiting := max 0 (wp_waiting q - 1)\<rparr>"

definition enter_flight :: "worker_pool \<Rightarrow> worker_pool" where
  "enter_flight q = q\<lparr>wp_inflight := wp_inflight q + 1, wp_peak_inflight := max (wp_peak_inflight q) (wp_inflight q + 1)\<rparr>"

definition pool_enter :: "worker_pool \<Rightarrow> worker_pool option" where
  "pool_enter q = (if wp_free q \<le> 0 then None
     else Some (enter_flight (pool_stop_waiting (q\<lparr>wp_free := wp_free q - 1\<rparr>))))"

definition pool_leave :: "worker_pool \<Rightarrow> worker_pool" where
  "pool_leave q = q\<lparr>wp_inflight := max 0 (wp_inflight q - 1), wp_free := wp_free q + 1\<rparr>"

text \<open>The calls of a pool: how many wait and how many are between entering and leaving.\<close>

inductive pool_reach :: "int \<Rightarrow> nat \<Rightarrow> nat \<Rightarrow> worker_pool \<Rightarrow> bool" for limit where
  fresh: "pool_reach limit 0 0 (new_pool limit)"
| arrive: "pool_reach limit n k q \<Longrightarrow> pool_reach limit (Suc n) k (pool_wait q)"
| cancel: "pool_reach limit (Suc n) k q \<Longrightarrow> pool_reach limit n k (pool_stop_waiting q)"
| enter: "pool_reach limit (Suc n) k q \<Longrightarrow> pool_enter q = Some q' \<Longrightarrow> pool_reach limit n (Suc k) q'"
| leave: "pool_reach limit n (Suc k) q \<Longrightarrow> pool_reach limit n k (pool_leave q)"

section \<open>What a tool is called with\<close>

lemma appended_other: "k \<noteq> j \<Longrightarrow> map_of (appended j new d) k = map_of d k"
  by (auto simp: appended_def update_conv' split: option.splits pyval.splits)

lemma appends_other: "k \<notin> fst ` set adding \<Longrightarrow> map_of (fold (\<lambda>(j, new). appended j new) adding d) k = map_of d k"
  by (induction adding arbitrary: d) (auto simp: appended_other)

lemma added_items_keys: "fst ` set (added_items p) \<subseteq> {''evidence'', ''progress''}"
  by (auto simp: added_items_def Let_def)

text \<open>Every parameter that was given, but for the two lists a summary is appended to, and the workbench itself.\<close>

definition keeps_given :: "dict \<Rightarrow> dict \<Rightarrow> bool" where
  "keeps_given params p \<longleftrightarrow> (\<forall>k. k \<notin> {''workbench'', ''evidence'', ''progress''} \<longrightarrow>
     \<not> is_missing_param_value k (dict_get params k) \<longrightarrow> dict_get p k = dict_get params k)"

lemma keeps_given_refl [simp]: "keeps_given p p"
  by (simp add: keeps_given_def)

lemma keeps_given_trans: "keeps_given p q \<Longrightarrow> keeps_given q r \<Longrightarrow> keeps_given p r"
  by (simp add: keeps_given_def)

lemma keeps_given_set: "is_missing_param_value k (dict_get p k) \<Longrightarrow> keeps_given p (AList.update k v p)"
  by (auto simp: keeps_given_def dict_get_update)

lemma missing_none: "is_missing_param_value k PNone"
  by (simp add: is_missing_param_value_def)

lemma repair_task_workbench_keeps: "keeps_given p (fst (repair_task_workbench_params tool p))"
proof -
  define p' where "p' = fold (\<lambda>(k, new). appended k new) (added_items p) p"
  have other: "k \<notin> {''evidence'', ''progress''} \<Longrightarrow> map_of p' k = map_of p k" for k
    using added_items_keys [of p] unfolding p'_def by (intro appends_other) blast
  then have "keeps_given p p'" by (simp add: keeps_given_def dict_get_def)
  moreover have "keeps_given p' (if map_of p' ''task_id'' = None \<and> map_of p' ''id'' \<noteq> None
      then AList.update ''task_id'' (dict_get p' ''id'') p' else p')"
    using keeps_given_set [of "''task_id''" p'] by (simp add: dict_get_def missing_none)
  moreover have "keeps_given q (AList.update ''workbench'' v q)" for q v
    by (simp add: keeps_given_def dict_get_update)
  ultimately show ?thesis
    by (auto simp: repair_task_workbench_params_def Let_def p'_def [symmetric] intro: keeps_given_trans)
qed

lemma repair_alias_keeps: "keeps_given p (repair_alias ca p)"
  by (auto simp: repair_alias_def keeps_given_set split: option.splits prod.splits)

lemma repair_aliases_keep: "keeps_given p (repair_tool_param_aliases tool p)"
proof -
  have "keeps_given p (fold repair_alias cas p)" for cas
  proof (induction cas arbitrary: p)
    case (Cons ca cas)
    then show ?case using keeps_given_trans [OF repair_alias_keeps [of p ca]] by simp
  qed simp
  then show ?thesis by (simp add: repair_tool_param_aliases_def)
qed

lemma repair_task_id_keeps: "keeps_given p (repair_task_id_from_active_task tool active p)"
  by (auto simp: repair_task_id_from_active_task_def keeps_given_set split: option.splits)

lemma repaired_params_keep: "keeps_given p (repaired_params tool active p)"
  unfolding repaired_params_def
  by (rule keeps_given_trans [OF repair_task_workbench_keeps keeps_given_trans [OF repair_aliases_keep repair_task_id_keeps]])


section \<open>What a worker returns\<close>

lemma setdefault_dom: "dom (map_of (setdefault k v d)) = insert k (dom (map_of d))"
  by (auto simp: setdefault_def map_add_def split: option.splits)

lemma setdefault_keeps: "map_of d k = Some w \<Longrightarrow> map_of (setdefault j v d) k = Some w"
  by (simp add: setdefault_def map_add_def)

lemma meta_default_meta:
  "meta_default k v r = Inr r' \<Longrightarrow> \<exists>d. lr_metadata r = PDict d \<and> lr_metadata r' = PDict (setdefault k v d)"
  by (auto simp: meta_default_def split: pyval.splits)

text \<open>The metadata is a dict that has the keys \<open>ks\<close>.\<close>

definition meta_has :: "string set \<Rightarrow> loose_result \<Rightarrow> bool" where
  "meta_has ks r \<longleftrightarrow> (\<exists>d. lr_metadata r = PDict d \<and> ks \<subseteq> dom (map_of d))"

lemma meta_has_default: "meta_default k v r = Inr r' \<Longrightarrow> meta_has ks r \<Longrightarrow> meta_has (insert k ks) r'"
  using meta_default_meta by (fastforce simp: meta_has_def setdefault_dom)

lemma meta_default_has: "meta_default k v r = Inr r' \<Longrightarrow> meta_has {k} r'"
  using meta_default_meta by (fastforce simp: meta_has_def setdefault_dom)

lemma meta_has_defaults: "meta_defaults kvs r = Inr r' \<Longrightarrow> meta_has ks r \<Longrightarrow> meta_has (fst ` set kvs \<union> ks) r'"
proof (induction kvs arbitrary: r ks)
  case (Cons kv kvs)
  obtain k v where kv: "kv = (k, v)" by fastforce
  from Cons.prems(1) obtain r1 where "meta_default k v r = Inr r1" "meta_defaults kvs r1 = Inr r'"
    by (auto simp: kv bind_res_def split: sum.splits)
  then show ?case using Cons.IH [OF _ meta_has_default [OF _ Cons.prems(2)]] by (force simp: kv)
qed simp

lemma meta_has_mono: "meta_has ks r \<Longrightarrow> js \<subseteq> ks \<Longrightarrow> meta_has js r"
  by (auto simp: meta_has_def)

lemma bind_res_regular: "bind_res m f = Inr r \<Longrightarrow> \<exists>a. m = Inr a \<and> f a = Inr r"
  by (auto simp: bind_res_def split: sum.splits)

lemma name_session_has: "meta_has ks r \<Longrightarrow> meta_has ks (name_session r)"
  by (auto simp: name_session_def meta_has_def meta_def update_conv')

lemma exec_tags_has:
  assumes "exec_tags r = Inr r'" "meta_has ks r"
  shows "meta_has ks r'"
proof -
  from assms(1) obtain a where a: "meta_default ''execution_mode'' (PStr (if is_background_result r then ''background''
      else ''foreground'')) r = Inr a"
      "(let r2 = name_session a; session = dict_get (meta r2) ''session_id'' in if is_background_result r \<and> truthy session
         then meta_default ''run_monitor'' (PDict [(''kind'', PStr ''process''), (''session_id'', PStr (str_or_empty session))]) r2
         else Inr r2) = Inr r'"
    unfolding exec_tags_def Let_def by (auto dest!: bind_res_regular)
  then have "meta_has ks (name_session a)"
    using name_session_has meta_has_mono [OF meta_has_default [OF a(1) assms(2)]] by blast
  with a(2) show ?thesis
    by (auto simp: Let_def split: if_splits dest!: meta_has_default intro: meta_has_mono)
qed

lemma llm_tags_has:
  assumes "llm_tags p r = Inr r'" "meta_has ks r"
  shows "meta_has ks r'"
proof -
  from assms(1) obtain a where a: "meta_default ''reasoning_mode'' (PStr ''tool-mediated-llm'') r = Inr a"
    unfolding llm_tags_def by (auto dest!: bind_res_regular)
  have "meta_has ks a" using meta_has_mono [OF meta_has_default [OF a assms(2)]] by blast
  with assms(1) a show ?thesis
    by (auto simp: llm_tags_def bind_res_def Let_def split: if_splits dest!: meta_has_default intro: meta_has_mono)
qed

lemma execute_on_has:
  assumes "execute_on worker W m h params s = (Inr r, s')"
  shows "meta_has {''worker_path''} r"
proof -
  obtain path tags r0 r1 where r1: "meta_default ''worker_path'' (PStr path) r0 = Inr r1" "tags r1 = Inr r"
      "tags \<in> {exec_tags, multimodal_tags (params_after (tm_name m) params), llm_tags (params_after (tm_name m) params), Inr}"
    using assms
    by (auto simp: execute_on_def call_tool_and_tag_path_def Let_def split: if_splits elim!: then_do_cases)
  have "meta_has {''worker_path''} r1" using meta_default_has [OF r1(1)] .
  with r1(2,3) show ?thesis
    using exec_tags_has llm_tags_has
    by (auto simp: multimodal_tags_def dest!: meta_has_defaults intro: meta_has_mono)
qed

definition worker_keys :: "string set" where
  "worker_keys = {''worker_path'', ''worker_type'', ''tool_name'', ''worker_limit'', ''worker_wait_ms'', ''worker_inflight'',
     ''worker_waiting'', ''worker_peak_inflight''}"

text \<open>C28: 
  Whatever a tool returns, a call that comes back from a worker carries a dict as metadata, with the worker's keys.
\<close>

theorem worker_metadata:
  assumes "worker_dispatch cfg worker W tool m h params s = (Inr r, s')"
  shows "meta_has worker_keys r"
proof -
  from assms obtain r1 where r1: "execute_on worker W m h params s = (Inr r1, s')"
      "attach_common_metadata worker tool (pool_limit cfg worker) (wk_slot W) r1 = Inr r"
    by (auto simp: worker_dispatch_def elim: then_do_cases)
  show ?thesis
    by (rule meta_has_mono [OF meta_has_defaults [OF r1(2) [unfolded attach_common_metadata_def] execute_on_has [OF r1(1)]]])
      (simp add: worker_keys_def)
qed

definition demo_manifest :: tool_manifest where
  "demo_manifest = \<lparr>tm_name = ''shell.run'', tm_params = [\<lparr>tp_name = ''command'', tp_type = ''string'', tp_description = [],
     tp_required = True\<rparr>], tm_prefer_tier = [], tm_progress_category = [], tm_capabilities = []\<rparr>"

definition demo_worker :: worker_call where
  "demo_worker = \<lparr>wk_say = (\<lambda>k a. k), wk_active = None,
     wk_slot = \<lparr>sl_wait_ms = 0, sl_waiting = 0, sl_inflight = 1, sl_peak = 1\<rparr>\<rparr>"

definition demo_echo :: "unit tool" where
  "demo_echo p s = (Inr (Raw_Value (dict_get p ''command'')), s)"

definition demo_answer :: loose_result where
  "demo_answer = (fresh_result (PStr ''ls''))\<lparr>lr_metadata := PDict [(''worker_path'', PStr ''exec''),
     (''execution_mode'', PStr ''foreground''), (''worker_type'', PStr ''exec-worker''), (''tool_name'', PStr ''shell.run''),
     (''worker_limit'', PInt 1), (''worker_wait_ms'', PInt 0), (''worker_inflight'', PInt 1), (''worker_waiting'', PInt 0),
     (''worker_peak_inflight'', PInt 1)]\<rparr>"

lemma worker_metadata_witness: "meta_has worker_keys demo_answer"
proof (rule worker_metadata)
  have p: "repaired_params ''shell.run'' None [(''cmd'', PStr ''ls'')] = [(''cmd'', PStr ''ls''), (''command'', PStr ''ls'')]"
    by code_simp
  have "missing_params demo_manifest [(''cmd'', PStr ''ls''), (''command'', PStr ''ls'')] = []" by code_simp
  then have c: "call_handler (\<lambda>k a. k) demo_manifest demo_echo None [(''cmd'', PStr ''ls'')] () = (Inr (fresh_result (PStr ''ls'')), ())"
    using p by (simp add: call_handler_def validate_required_params_def demo_echo_def demo_manifest_def coerced_result_def dict_get_def)
  have l: "pool_limit (\<lambda>k. PNone) ''exec-worker'' = 1" by code_simp
  show "worker_dispatch (\<lambda>k. PNone) ''exec-worker'' demo_worker ''shell.run'' demo_manifest demo_echo [(''cmd'', PStr ''ls'')] () =
      (Inr demo_answer, ())"
    by (simp add: worker_dispatch_def execute_on_def call_tool_and_tag_path_def c demo_worker_def Let_def fresh_result_def
        meta_default_def setdefault_def exec_tags_def name_session_def is_background_result_def delta_def dict_get_def
        attach_common_metadata_def l demo_answer_def)
qed

section \<open>How many calls run\<close>

text \<open>C29: 
  Calls of a pool come, wait, give up, enter and leave in any order: its counters are exact, and no more calls are in
  flight than its limit, at no time.
\<close>

theorem pool_bounds:
  assumes "pool_reach limit n k q" "1 \<le> limit"
  shows "wp_limit q = limit \<and> wp_inflight q = int k \<and> wp_waiting q = int n \<and> wp_free q + int k = limit \<and>
    int k \<le> wp_peak_inflight q \<and> wp_peak_inflight q \<le> limit"
  using assms
  by (induction) (auto simp: new_pool_def pool_wait_def pool_stop_waiting_def pool_enter_def enter_flight_def pool_leave_def
      split: if_splits)


lemma pool_bounds_witness:
  "pool_enter (pool_wait (pool_wait (new_pool 1))) =
     Some \<lparr>wp_limit = 1, wp_free = 0, wp_inflight = 1, wp_waiting = 1, wp_peak_inflight = 1\<rparr> \<and>
   wp_inflight \<lparr>wp_limit = 1, wp_free = 0, wp_inflight = 1, wp_waiting = 1, wp_peak_inflight = 1\<rparr> = int 1 \<and>
   wp_waiting \<lparr>wp_limit = 1, wp_free = 0, wp_inflight = 1, wp_waiting = 1, wp_peak_inflight = 1\<rparr> = int 1"
proof -
  let ?q = "\<lparr>wp_limit = 1, wp_free = 0, wp_inflight = 1, wp_waiting = 1, wp_peak_inflight = 1\<rparr>"
  have e: "pool_enter (pool_wait (pool_wait (new_pool 1))) = Some ?q"
    by (simp add: pool_enter_def pool_wait_def new_pool_def enter_flight_def pool_stop_waiting_def)
  have "pool_reach 1 (Suc 0) (Suc 0) ?q"
    by (rule pool_reach.enter [OF pool_reach.arrive [OF pool_reach.arrive [OF pool_reach.fresh]] e])
  from pool_bounds [OF this] e show ?thesis by simp
qed

end
