(* ===== verification/Auto_Cortex.thy ===== *)
theory Auto_Cortex
  imports Workers Task_State
begin

text \<open>
  What the outcome of a run writes into the cortex workbench of its task without being asked
  (\<open>core/cortex/autoworkbench.py\<close>): lists of experiments, evidence, progress, capabilities and failures that are
  joined with what is there, the newest first, and the state of the problem the task is on.
\<close>

section \<open>Texts and lists\<close>

definition squeezed :: "nat \<Rightarrow> pyval \<Rightarrow> string" where
  "squeezed limit v = (let t = squeeze (str_or_empty v) in
     if length t \<le> limit then t else take (limit - 3) t @ ''...'')"

definition compact_json :: "dict \<Rightarrow> string" where
  "compact_json d = (if d = [] then [] else squeezed 220 (PStr (json_dumps True (PDict d))))"

definition item_key :: "pyval \<Rightarrow> string" where
  "item_key v = (case v of PDict d \<Rightarrow> json_dumps True v | _ \<Rightarrow> py_str v)"

fun merge_items :: "nat \<Rightarrow> string list \<Rightarrow> pyval list \<Rightarrow> pyval list" where
  "merge_items left seen [] = []"
| "merge_items left seen (v # vs) = (let k = item_key v in
     if k = [] \<or> k \<in> set seen then merge_items left seen vs
     else if left \<le> 1 then [v] else v # merge_items (left - 1) (k # seen) vs)"

definition merge_list :: "pyval \<Rightarrow> pyval list \<Rightarrow> nat \<Rightarrow> pyval" where
  "merge_list existing incoming limit = PList (merge_items limit []
     (incoming @ (case as_list existing of None \<Rightarrow> [] | Some base \<Rightarrow> base)))"

definition max_items :: "string \<Rightarrow> nat" where
  "max_items k = (if k = ''experiments'' \<or> k = ''evidence'' then 10 else 8)"

definition put_first :: "string \<Rightarrow> pyval \<Rightarrow> dict \<Rightarrow> dict" where
  "put_first k v cortex = AList.update k (merge_list (dict_get cortex k) [v] (max_items k)) cortex"

definition meaningful_detail :: "string list \<Rightarrow> string" where
  "meaningful_detail ts = (case filter (\<lambda>t. t \<noteq> []) (map (\<lambda>t. squeezed 220 (PStr t)) ts) of [] \<Rightarrow> [] | t # _ \<Rightarrow> t)"

section \<open>What a run tells\<close>

record run_outcome =
  oc_run_id :: int
  oc_task_id :: int
  oc_tool :: string
  oc_status :: string
  oc_summary :: string
  oc_error :: string
  oc_evidence :: string
  oc_progress :: string
  oc_delta :: dict
  oc_artifacts :: pyval

definition should_auto_record :: "string \<Rightarrow> string \<Rightarrow> string \<Rightarrow> run_outcome \<Rightarrow> bool" where
  "should_auto_record tool status err oc =
    (if status \<in> {''failed'', ''cancelled''} \<or> err \<noteq> [] then True
     else if truthy (dict_get (oc_delta oc) ''completion_blocked'') \<or> truthy (dict_get (oc_delta oc) ''tool_input_invalid'') then True
     else if tool = ''task.workbench'' then False
     else if oc_evidence oc \<noteq> [] \<or> oc_delta oc \<noteq> [] \<or> truthy (oc_artifacts oc) then True
     else oc_summary oc \<noteq> [] \<and> tool \<noteq> [])"

text \<open>\<open>list(v or [])\<close>, and joining a list whose items have to be texts.\<close>

definition py_list :: "pyval \<Rightarrow> pyval list res" where
  "py_list v = (case v of
      PList vs \<Rightarrow> Inr vs
    | PStr s \<Rightarrow> Inr (map (\<lambda>c. PStr [c]) s)
    | PDict d \<Rightarrow> Inr (map (\<lambda>kv. PStr (fst kv)) d)
    | _ \<Rightarrow> Inl (Exn ''TypeError'' (str_repr (type_name v) @ '' object is not iterable'')))"

definition join_texts :: "pyval list \<Rightarrow> string res" where
  "join_texts vs = (if list_all (\<lambda>v. case v of PStr s \<Rightarrow> True | _ \<Rightarrow> False) vs then Inr (join '', '' (map py_str vs))
     else Inl (Exn ''TypeError'' ''sequence item: expected str instance''))"

definition own_dict :: "dict \<Rightarrow> string \<Rightarrow> dict" where
  "own_dict d k = (case dict_get d k of PDict e \<Rightarrow> e | _ \<Rightarrow> [])"

definition next_hint :: "dict \<Rightarrow> string" where
  "next_hint st = squeezed 240 (py_or (py_or (dict_get st ''recovery_next_step'') (dict_get st ''next_verification'')) (PStr []))"

text \<open>The cortex and its \<open>problem_runtime\<close> after a success, and after a failure.\<close>

definition run_line :: "string \<Rightarrow> string \<Rightarrow> string" where
  "run_line head detail = (if detail = [] then head else head @ '': '' @ detail)"

definition noted_success :: "catalogue \<Rightarrow> run_outcome \<Rightarrow> string \<Rightarrow> string \<Rightarrow> dict \<times> dict \<Rightarrow> dict \<times> dict" where
  "noted_success say oc tool detail cr = (let (cortex, runtime) = cr; i = dec_int (oc_run_id oc);
       outside = \<not> startswith tool ''task.'';
       runtime' = (if outside then AList.update ''failure_streak'' (PInt 0) (AList.update ''last_success_run_id'' (PStr i)
           (AList.update ''phase'' (PStr ''verification_collected'') runtime)) else runtime);
       first = own_dict cortex ''action_first'';
       c1 = (if outside \<and> first \<noteq> [] then AList.update ''action_first'' (PDict
           (AList.update ''last_verifiable_action_tool'' (PStr tool) (AList.update ''last_verifiable_action_run_id'' (PStr i) first))) cortex
         else cortex);
       c2 = put_first ''capabilities'' (PDict [(''name'', PStr (say ''available'' [tool])), (''status'', PStr ''available'')]) c1;
       c3 = (if detail = [] then c2 else put_first ''evidence'' (PStr (''run#'' @ i @ '' '' @ tool @ '' succeeded: '' @ detail)) c2)
     in (put_first ''progress'' (PStr (run_line (''run#'' @ i @ '' [succeeded] '' @ tool) detail)) c3, runtime'))"

definition noted_failure ::
    "catalogue \<Rightarrow> run_outcome \<Rightarrow> string \<Rightarrow> string \<Rightarrow> string \<Rightarrow> bool \<Rightarrow> dict \<times> dict \<Rightarrow> (dict \<times> dict) res" where
  "noted_failure say oc tool status err guard cr = (let (cortex, runtime) = cr; i = dec_int (oc_run_id oc) in
     bind_res (py_int (py_or (dict_get runtime ''failure_streak'') (PInt 0))) (\<lambda>n.
       let runtime' = AList.update ''last_failure_run_id'' (PStr i) (AList.update ''failure_streak'' (PInt (n + 1))
             (AList.update ''phase'' (PStr ''recovering'') runtime));
           detail = meaningful_detail [err, oc_summary oc, oc_evidence oc, oc_progress oc];
           c1 = put_first ''failures'' (PStr (run_line (''run#'' @ i @ '' '' @ tool @ '' '' @ status) detail)) cortex;
           c2 = AList.update ''recovery_state'' (PStr ''recovering_from_run_failure'') c1;
           hint = next_hint (oc_delta oc);
           c3 = (if hint \<noteq> [] \<and> guard then AList.update ''next_verification'' (PStr hint) c2
             else if strip (str_or_empty (dict_get c2 ''next_verification'')) = []
             then AList.update ''next_verification'' (PStr (if hint \<noteq> [] then hint
                else say ''fix_and_verify'' [tool, dec_int (oc_task_id oc)])) c2
             else c2)
       in Inr (c3, runtime')))"

definition guarded_success :: "run_outcome \<Rightarrow> string \<Rightarrow> bool \<Rightarrow> dict \<times> dict \<Rightarrow> dict \<times> dict" where
  "guarded_success oc status guard cr = (let (cortex, runtime) = cr; hint = next_hint (oc_delta oc) in
     if status = ''succeeded'' \<and> guard \<and> hint \<noteq> []
     then (AList.update ''next_verification'' (PStr hint)
         (AList.update ''recovery_state'' (PStr ''recovering_from_runtime_guard'') cortex),
       AList.update ''phase'' (PStr ''recovering'') runtime)
     else cr)"

text \<open>The cortex after a run that is worth recording.\<close>

definition recorded_run ::
    "catalogue \<Rightarrow> dict \<Rightarrow> run_outcome \<Rightarrow> string \<Rightarrow> string \<Rightarrow> string \<Rightarrow> bool \<Rightarrow> string \<Rightarrow> dict res" where
  "recorded_run say existing oc tool status err guard detail =
    (let i = dec_int (oc_run_id oc);
         experiment = [(''run_id'', PStr i), (''tool'', PStr tool), (''status'', PStr status)] @
           (if detail = [] then [] else [(''summary'', PStr detail)]);
         c0 = put_first ''experiments'' (PDict experiment) existing;
         r0 = AList.update ''last_status'' (PStr status) (AList.update ''last_tool'' (PStr tool)
           (AList.update ''last_run_id'' (PStr i) (own_dict c0 ''problem_runtime'')))
     in bind_res (if status = ''succeeded'' then Inr (noted_success say oc tool detail (c0, r0))
            else if status \<in> {''failed'', ''cancelled''} \<or> err \<noteq> [] then noted_failure say oc tool status err guard (c0, r0)
            else Inr (c0, r0)) (\<lambda>cr.
          let (cortex, runtime) = guarded_success oc status guard cr
          in Inr (AList.update ''problem_runtime'' (PDict runtime) cortex)))"

definition clipped_status :: "run_outcome \<Rightarrow> string" where
  "clipped_status oc = squeezed 40 (PStr (if oc_status oc = [] then ''unknown'' else oc_status oc))"

definition build_auto_cortex_patch :: "catalogue \<Rightarrow> dict \<Rightarrow> run_outcome \<Rightarrow> dict res" where
  "build_auto_cortex_patch say existing oc =
    (let tool = squeezed 80 (PStr (if oc_tool oc = [] then ''unknown'' else oc_tool oc));
         err = squeezed 220 (PStr (oc_error oc));
         guard = truthy (dict_get (oc_delta oc) ''tool_input_invalid'') \<or> truthy (dict_get (oc_delta oc) ''completion_blocked'') in
     bind_res (py_list (py_or (oc_artifacts oc) (PList []))) (\<lambda>items.
     bind_res (join_texts items) (\<lambda>artifacts.
     let detail = meaningful_detail [oc_progress oc, oc_evidence oc, oc_summary oc, err, compact_json (oc_delta oc), artifacts] in
     if \<not> should_auto_record tool (clipped_status oc) err oc then Inr []
     else bind_res (recorded_run say existing oc tool (clipped_status oc) err guard detail) (\<lambda>cortex.
       Inr [(''cortex'', PDict cortex)]))))"

text \<open>For a task of the store: its stored cortex is what is joined with.\<close>

definition build_auto_cortex_result_patch :: "catalogue \<Rightarrow> tasks \<Rightarrow> run_outcome \<Rightarrow> dict res" where
  "build_auto_cortex_result_patch say ts oc = (if oc_task_id oc = 0 then Inr []
     else (case get_task_by_id ts (oc_task_id oc) of
         None \<Rightarrow> Inr []
       | Some k \<Rightarrow> build_auto_cortex_patch say
           (case py_or (t_result_json k) (PDict []) of PDict d \<Rightarrow> own_dict d ''cortex'' | _ \<Rightarrow> []) oc))"

section \<open>Bounded lists\<close>

lemma merge_items_spec:
  "length (merge_items left seen vs) \<le> max 1 left \<and> set (merge_items left seen vs) \<subseteq> set vs \<and>
   distinct (map item_key (merge_items left seen vs)) \<and> set (map item_key (merge_items left seen vs)) \<inter> set seen = {}"
proof (induction left seen vs rule: merge_items.induct)
  case (2 left seen v vs)
  show ?case
  proof (cases "item_key v = [] \<or> item_key v \<in> set seen")
    case True
    then show ?thesis using 2(1) [OF refl] by (auto simp: Let_def)
  next
    case False
    show ?thesis
    proof (cases "left \<le> 1")
      case False
      note ih = 2(2) [OF refl \<open>\<not> (item_key v = [] \<or> item_key v \<in> set seen)\<close> False]
      then show ?thesis using False \<open>\<not> (item_key v = [] \<or> item_key v \<in> set seen)\<close> by (auto simp: Let_def)
    qed (use False in \<open>simp add: Let_def\<close>)
  qed
qed simp

text \<open>What a list of the cortex looks like after an item was put first: no more items than allowed, no two of the same key.\<close>

definition bounded_list :: "string \<Rightarrow> dict \<Rightarrow> bool" where
  "bounded_list k d \<longleftrightarrow> (case dict_get d k of PList vs \<Rightarrow> length vs \<le> max_items k \<and> distinct (map item_key vs) | _ \<Rightarrow> False)"

lemma put_first_bounded: "bounded_list k (put_first k v d)"
proof -
  have "max 1 (max_items k) = max_items k" by (simp add: max_items_def)
  then show ?thesis
    using merge_items_spec [of "max_items k" "[]" "[v] @ (case as_list (dict_get d k) of None \<Rightarrow> [] | Some base \<Rightarrow> base)"]
    by (auto simp: bounded_list_def put_first_def merge_list_def dict_get_update)
qed

lemma put_first_newest: "item_key v \<noteq> [] \<Longrightarrow> \<exists>vs. dict_get (put_first k v d) k = PList (v # vs)"
  by (simp add: put_first_def merge_list_def dict_get_update max_items_def)

lemma bounded_list_other [simp]: "k \<noteq> j \<Longrightarrow> bounded_list k (AList.update j v d) = bounded_list k d"
  by (simp add: bounded_list_def dict_get_update)

lemma bounded_put_other [simp]: "k \<noteq> j \<Longrightarrow> bounded_list k (put_first j v d) = bounded_list k d"
  by (simp add: put_first_def)

lemma guarded_success_lists:
  "k \<notin> {''next_verification'', ''recovery_state''} \<Longrightarrow> bounded_list k (fst (guarded_success oc st g cr)) = bounded_list k (fst cr)"
  by (auto simp: guarded_success_def Let_def split: prod.splits)

lemma noted_success_lists:
  "bounded_list ''experiments'' c \<Longrightarrow> k \<in> {''experiments'', ''capabilities'', ''progress''} \<Longrightarrow>
   bounded_list k (fst (noted_success say oc tool detail (c, r)))"
  by (auto simp: noted_success_def Let_def put_first_bounded)

lemma noted_failure_lists:
  "bounded_list ''experiments'' c \<Longrightarrow> noted_failure say oc tool st err g (c, r) = Inr cr \<Longrightarrow> k \<in> {''experiments'', ''failures''} \<Longrightarrow>
   bounded_list k (fst cr)"
  by (auto simp: noted_failure_def Let_def put_first_bounded dest!: bind_res_regular)

lemma recorded_run_lists:
  assumes "recorded_run say existing oc tool st err guard detail = Inr c"
  shows "bounded_list ''experiments'' c \<and> (st = ''succeeded'' \<longrightarrow> bounded_list ''progress'' c) \<and>
    (st = ''failed'' \<longrightarrow> bounded_list ''failures'' c)"
proof -
  from assms obtain c0 r0 cr where
    c0: "bounded_list ''experiments'' c0"
    and cr: "(if st = ''succeeded'' then Inr (noted_success say oc tool detail (c0, r0))
              else if st \<in> {''failed'', ''cancelled''} \<or> err \<noteq> [] then noted_failure say oc tool st err guard (c0, r0)
              else Inr (c0, r0)) = Inr cr"
    and c: "c = AList.update ''problem_runtime'' (PDict (snd (guarded_success oc st guard cr))) (fst (guarded_success oc st guard cr))"
    unfolding recorded_run_def Let_def case_prod_beta by (blast dest: bind_res_regular intro: put_first_bounded)
  show ?thesis
    using c0 cr noted_success_lists [OF c0] noted_failure_lists [OF c0]
    by (auto simp: c guarded_success_lists split: if_splits)
qed

text \<open>
  A patch of the cortex holds at most ten experiments and at most eight lines of progress or failures, no two of them equal,
  however much was stored before.
\<close>

theorem auto_cortex_bounded:
  assumes "build_auto_cortex_patch say existing oc = Inr [(''cortex'', PDict c)]"
  shows "bounded_list ''experiments'' c \<and> (oc_status oc = ''succeeded'' \<longrightarrow> bounded_list ''progress'' c) \<and>
    (oc_status oc = ''failed'' \<longrightarrow> bounded_list ''failures'' c)"
proof -
  have "clipped_status oc = ''succeeded''" if "oc_status oc = ''succeeded''" unfolding clipped_status_def that by code_simp
  moreover have "clipped_status oc = ''failed''" if "oc_status oc = ''failed''" unfolding clipped_status_def that by code_simp
  moreover from assms obtain tool err guard detail where
      "recorded_run say existing oc tool (clipped_status oc) err guard detail = Inr c"
    by (auto simp: build_auto_cortex_patch_def Let_def dest!: bind_res_regular split: if_splits)
  ultimately show ?thesis by (auto dest: recorded_run_lists)
qed

definition demo_outcome :: run_outcome where
  "demo_outcome = \<lparr>oc_run_id = 3, oc_task_id = 1, oc_tool = ''shell.run'', oc_status = ''succeeded'', oc_summary = ''built'', oc_error = [],
     oc_evidence = [], oc_progress = [], oc_delta = [], oc_artifacts = PList []\<rparr>"

lemma auto_cortex_bounded_witness:
  "\<exists>c. build_auto_cortex_patch (\<lambda>k a. k) [(''progress'', PList (replicate 9 (PStr ''old'')))] demo_outcome = Inr [(''cortex'', PDict c)] \<and>
     bounded_list ''experiments'' c \<and> bounded_list ''progress'' c"
proof -
  let ?p = "build_auto_cortex_patch (\<lambda>k a. k) [(''progress'', PList (replicate 9 (PStr ''old'')))] demo_outcome"
  have "case ?p of Inr [(k, PDict c)] \<Rightarrow> k = ''cortex'' | _ \<Rightarrow> False" by code_simp
  then obtain c where c: "?p = Inr [(''cortex'', PDict c)]" by (auto split: sum.splits list.splits prod.splits pyval.splits)
  from auto_cortex_bounded [OF c] c show ?thesis by (simp add: demo_outcome_def)
qed

end
