(* ===== verification/Run_Finish.thy ===== *)
theory Run_Finish
  imports Auto_Cortex Metabolic Working_Memory
begin

text \<open>
  The end of a run (\<open>core/execution/helpers.py\<close>): the status and the task of a result, the run, its task and the
  memory that are told about it, the reflection on a failure, and which failures count as stable. The store, the
  episodic memory and the metabolic engine are present; recording an event and adding a reflection do not raise.
  Chinese texts are entries of the catalogue, also where a text is searched for one. What is only logged is left out.
\<close>

section \<open>State and configuration\<close>

record exec_st =
  xs_world :: world
  xs_failures :: failures
  xs_reflections :: reflections
  xs_events :: "(string \<times> dict) list"
  xs_wm :: wm

text \<open>
  What a dispatch finds: the tools, the active task, the configuration, the readings of the clock when the mute is
  asked for and when the outcome is noted, the slot its worker gives it, and the random part of a reflection's id.
\<close>

record exec_env =
  xe_env :: env
  xe_say :: catalogue
  xe_registry :: registry
  xe_tool :: "string \<Rightarrow> exec_st tool"
  xe_active :: "task option"
  xe_loop :: "string \<Rightarrow> pyval"
  xe_routing :: "(string \<times> string) list"
  xe_threshold :: int
  xe_ttl :: int
  xe_failure_affect :: "(int \<times> nat) \<times> (int \<times> nat)"
  xe_asked :: "int \<times> nat"
  xe_seen :: "int \<times> nat"
  xe_told :: "int \<times> nat"
  xe_slot :: pool_slot
  xe_ms :: int
  xe_reflection :: string

type_synonym 'a exec = "exec_st \<Rightarrow> 'a res \<times> exec_st"

definition with_world :: "(world \<Rightarrow> 'a res \<times> world) \<Rightarrow> 'a exec" where
  "with_world f s = (let (r, w) = f (xs_world s) in (r, s\<lparr>xs_world := w\<rparr>))"

definition record_event :: "string \<Rightarrow> dict \<Rightarrow> exec_st \<Rightarrow> exec_st" where
  "record_event kind d s = s\<lparr>xs_events := xs_events s @ [(kind, d)]\<rparr>"

section \<open>Reading a result\<close>

definition coerce_result_text :: "pyval \<Rightarrow> string" where
  "coerce_result_text v = (case v of PNone \<Rightarrow> [] | PStr s \<Rightarrow> s | PDict d \<Rightarrow> json_dumps True v | PList vs \<Rightarrow> json_dumps True v
     | _ \<Rightarrow> py_str v)"

definition normalize_text_fields :: "loose_result \<Rightarrow> loose_result" where
  "normalize_text_fields r = r\<lparr>lr_summary := PStr (coerce_result_text (lr_summary r)),
     lr_evidence := PStr (coerce_result_text (lr_evidence r)),
     lr_error := (if lr_error r = PNone then PNone else PStr (coerce_result_text (lr_error r)))\<rparr>"

definition meta_field_text :: "loose_result \<Rightarrow> string \<Rightarrow> string" where
  "meta_field_text r k = str_or_empty (dict_get (meta r) k)"

definition durable_patterns :: "catalogue \<Rightarrow> (string \<times> string list) list" where
  "durable_patterns say = [(''missing_path'', [''no such file or directory'', say ''path_missing'' [], say ''file_missing'' [],
       say ''not_found'' [], say ''script_missing'' []]),
     (''not_a_directory'', [''not a directory'', say ''not_a_directory'' []]),
     (''not_a_file'', [''not a file'', say ''not_a_file'' []]),
     (''empty_path'', [say ''path_empty'' [], ''emptypath'']),
     (''command_not_found'', [''command not found'', say ''tool_missing'' []])]"

definition failure_text :: "loose_result \<Rightarrow> string" where
  "failure_text r = lower (join [char_of (10 :: nat)] (filter (\<lambda>t. t \<noteq> []) [coerce_result_text (lr_summary r),
     coerce_result_text (py_or (lr_error r) (PStr [])), coerce_result_text (lr_evidence r)]))"

definition classify_durable_failure :: "catalogue \<Rightarrow> loose_result \<Rightarrow> string option" where
  "classify_durable_failure say r = map_option fst
     (find (\<lambda>(code, needles). list_ex (contains (failure_text r)) needles) (durable_patterns say))"

definition failure_fact_key :: "string \<Rightarrow> dict \<Rightarrow> string" where
  "failure_fact_key tool params = ''durable_failure:'' @ take 16 (md5_hex (tool @ ''|'' @ action_key_param params))"

section \<open>The policy of stable failures\<close>

definition default_policy :: "int \<times> int" where
  "default_policy = (3, 7200)"

text \<open>A text that is no JSON is ignored; a value that is no dict, or no number in it, raises.\<close>

definition load_durable_failure_policy :: "facts \<Rightarrow> (int \<times> int) res" where
  "load_durable_failure_policy f = (let (raw, found) = get_fact f ''control:durable_failure_policy''; (n, ttl) = default_policy in
     if \<not> found \<or> strip raw = [] then Inr (n, ttl)
     else (case json_loads raw of
         None \<Rightarrow> Inr (n, ttl)
       | Some (PDict d) \<Rightarrow> bind_res (py_int (py_or (dict_get d ''threshold'') (PInt n))) (\<lambda>n'.
           bind_res (py_int (py_or (dict_get d ''ttl_sec'') (PInt ttl))) (\<lambda>ttl'.
             Inr (if 0 < n' then n' else n, if 0 < ttl' then ttl' else ttl)))
       | Some v \<Rightarrow> Inl (Exn ''AttributeError'' (str_repr (type_name v) @ '' object has no attribute '' @ str_repr ''get''))))"

section \<open>Task and status of a run\<close>

definition target_task_tools :: "string list" where
  "target_task_tools = [''task.advance'', ''task.complete'', ''task.fail'', ''task.resume'', ''task.steer'', ''task.update'', ''task.wait'']"

definition positive_task_id :: "pyval \<Rightarrow> int" where
  "positive_task_id v = (case py_int (py_or v (PInt 0)) of Inl x \<Rightarrow> 0 | Inr i \<Rightarrow> max 0 i)"

definition planned_run_task_id :: "string \<Rightarrow> dict \<Rightarrow> int \<Rightarrow> int" where
  "planned_run_task_id tool params active = (let i = positive_task_id (dict_get params ''task_id'') in
     if tool \<in> set target_task_tools \<and> i \<noteq> 0 then i else active)"

definition resolved_run_task_id :: "loose_result \<Rightarrow> int \<Rightarrow> int" where
  "resolved_run_task_id r active = (let i = positive_task_id (dict_get (meta r) ''task_id'') in
     if meta_field_text r ''tool_name'' \<in> set target_task_tools \<and> i \<noteq> 0 then i else active)"

definition run_status_from_result :: "loose_result \<Rightarrow> string" where
  "run_status_from_result r =
    (if truthy (dict_get (meta r) ''session_id'') \<and> dict_get (delta r) ''process'' = PStr ''started'' \<and> is_background_result r
     then ''running''
     else if truthy (lr_error r) \<and> \<not> truthy (lr_skipped r) then ''failed''
     else if truthy (lr_skipped r) then ''cancelled'' else ''succeeded'')"

definition run_progress_text :: "loose_result \<Rightarrow> string" where
  "run_progress_text r = (case filter (\<lambda>t. t \<noteq> []) [strip (str_or_empty (dict_get (delta r) ''progress'')),
       strip (meta_field_text r ''progress''), strip (meta_field_text r ''log_summary'')] of
     t # _ \<Rightarrow> t | [] \<Rightarrow> strip (str_or_empty (lr_summary r)))"

definition result_to_dict :: "loose_result \<Rightarrow> dict res" where
  "result_to_dict r = bind_res (py_list (lr_artifact_paths r)) (\<lambda>paths. bind_res (py_dict (lr_state_delta r)) (\<lambda>d.
     bind_res (py_dict (lr_metadata r)) (\<lambda>m. Inr [(''summary'', lr_summary r), (''evidence'', lr_evidence r), (''skipped'', lr_skipped r),
       (''error'', lr_error r), (''resource_key'', lr_resource_key r), (''fingerprint'', lr_fingerprint r),
       (''artifact_paths'', PList paths), (''state_delta'', PDict d), (''metadata'', PDict m)])))"

section \<open>Semantic memory\<close>

definition decimal :: "int \<times> nat \<Rightarrow> pyval" where
  "decimal x = PFloat (fst x) (snd x)"

text \<open>Through the engine, and past it when that raises; texts of low value are dropped both times.\<close>

definition fallback_upsert_semantic_memory :: "env \<Rightarrow> node \<Rightarrow> world \<Rightarrow> world" where
  "fallback_upsert_semantic_memory e n w = (case w_semantic w of None \<Rightarrow> w
     | Some nodes \<Rightarrow> if e_low_value e (n_kind n) (n_title n) (n_body n) then w
         else w\<lparr>w_semantic := Some (nodes @ [n\<lparr>n_title := compact_runtime_text 1000 ''semantic title'' (n_title n),
           n_body := compact_runtime_text runtime_text_max_chars ''semantic body'' (n_body n)\<rparr>])\<rparr>)"

definition remember ::
    "exec_env \<Rightarrow> string \<Rightarrow> string \<Rightarrow> string \<Rightarrow> string \<Rightarrow> (int \<times> nat) \<times> (int \<times> nat) \<Rightarrow> string list \<Rightarrow> string \<Rightarrow> string \<Rightarrow> exec_st \<Rightarrow> exec_st" where
  "remember E node_id kind title body affect tags source basis s = (let (act, val) = affect; e = xe_env E in
     s\<lparr>xs_world := (case add_semantic_memory e node_id
           (semantic_memory_value node_id kind title body (decimal act) (decimal val) (PFloat 0 1) tags [] source) source 0 basis (xs_world s) of
         (Inr n, w) \<Rightarrow> w
       | (Inl x, w) \<Rightarrow> fallback_upsert_semantic_memory e \<lparr>n_id = node_id, n_kind = kind, n_title = title, n_body = body,
           n_activation = FNum (fst act) (snd act), n_valence = FNum (fst val) (snd val), n_importance = FNum 0 1,
           n_tags = tags, n_source = source, n_created_at = e_now_iso e\<rparr> w)\<rparr>)"

definition clip_run_outcome_field :: "string \<Rightarrow> string" where
  "clip_run_outcome_field v = (if length v \<le> 6000 then v
     else (let keep = 2940 in take keep v @ [char_of (10 :: nat)] @ ''...[run_result memory truncated, omitted '' @
       dec_nat (length v - keep * 2) @ '' chars]...'' @ [char_of (10 :: nat)] @ last_chars keep v))"

definition newline :: string where
  "newline = [char_of (10 :: nat)]"

definition named_field :: "string \<Rightarrow> string \<Rightarrow> string list" where
  "named_field k v = (if v = [] then [] else [k @ ''='' @ clip_run_outcome_field v])"

definition low_value_success_tools :: "string list" where
  "low_value_success_tools = [''file.read'', ''file.list'', ''memory.search'', ''memory.get_fact'', ''memory.list_facts'',
     ''probe.list'', ''probe.run'', ''schedule.list'', ''task.list'', ''config.get'', ''config.list_keys'', ''shell.capabilities'',
     ''skill.list'', ''skill.search'', ''skill.activate'', ''browser.snapshot'', ''web.fetch'', ''web.search'', ''image.analyze'']"

text \<open>\<open>wanted\<close> tells whether the semantic memory is handed over at all.\<close>

definition record_run_outcome_memory :: "exec_env \<Rightarrow> bool \<Rightarrow> string \<Rightarrow> run_outcome \<Rightarrow> exec_st \<Rightarrow> exec_st" where
  "record_run_outcome_memory E wanted worker oc s =
    (let i = dec_int (oc_run_id oc); tool = oc_tool oc; failure = oc_error oc \<noteq> [] \<or> oc_status oc = ''failed'';
         s1 = record_event (if failure then ''run_failed'' else ''run_completed'') [(''run_id'', PInt (oc_run_id oc)),
           (''task_id'', PInt (oc_task_id oc)), (''tool_name'', PStr tool), (''worker_type'', PStr worker),
           (''status'', PStr (oc_status oc)), (''summary'', PStr (oc_summary oc)), (''error'', PStr (oc_error oc))] s;
         name = (if tool = [] then ''unknown'' else tool);
         tags = [oc_status oc] @ (if tool = [] then [] else [tool]) @ (if worker = [] then [] else [worker]) @
           (if oc_task_id oc = 0 then [] else [''task:'' @ dec_int (oc_task_id oc)])
     in if \<not> wanted \<or> w_semantic (xs_world s) = None \<or> \<not> failure then s1
        else remember E (''run-result-'' @ i) ''run_result'' (''[run#'' @ i @ ''] '' @ name @ '' '' @ oc_status oc)
          (join newline ([''status='' @ oc_status oc, ''tool='' @ name] @ named_field ''progress'' (oc_progress oc) @
             named_field ''summary'' (oc_summary oc) @ named_field ''error'' (oc_error oc) @ named_field ''evidence'' (oc_evidence oc)))
          (xe_failure_affect E) (if ''failed'' \<in> set tags then tags else tags @ [''failed'']) ''execution/run_result''
          (''run_result_'' @ i) s1)"

section \<open>Reflections\<close>

definition meta_reflection_decision :: "catalogue \<Rightarrow> string \<Rightarrow> string \<Rightarrow> string \<Rightarrow> string" where
  "meta_reflection_decision say target level text0 =
    (if list_ex (contains (lower text0)) [''rollback'', say ''rolled_back'' [], ''regressed'', ''regression''] then ''rollback''
     else if level = ''double'' \<or> target \<in> {''threshold'', ''routing'', ''task_split''} then ''apply'' else ''defer'')"

definition build_meta_reflection :: "exec_env \<Rightarrow> int \<Rightarrow> int \<Rightarrow> string \<Rightarrow> loose_result \<Rightarrow> reflection_args option" where
  "build_meta_reflection E run_id task_id tool r =
    (if \<not> (truthy (lr_error r) \<or> truthy (lr_skipped r)) then None
     else (let say = xe_say E; name = (if tool = [] then ''unknown'' else tool);
         t = lower (join newline (filter (\<lambda>x. x \<noteq> []) [tool, str_or_empty (lr_error r), py_str (lr_summary r), py_str (lr_evidence r)]));
         (target, level, texts, args) =
           (if contains t ''knownstablefailure'' then (''threshold'', ''single'', ''muted'', [name])
            else if contains t ''emptypath'' \<or> contains t (say ''path_empty'' []) then (''task_split'', ''double'', ''split'', [name])
            else if contains t ''toolnotfound'' \<or> contains t (say ''tool_missing'' []) then (''routing'', ''double'', ''routing'', [name])
            else (''tool'', ''single'', ''tool'', [name, dec_int run_id, run_status_from_result r]))
       in Some \<lparr>rf_id = ''mr-'' @ xe_reflection E, rf_target_kind = target, rf_trigger = ''failure_pattern'', rf_loop_level = level,
         rf_diagnosis = say (''diagnosis_'' @ texts) args, rf_proposal = say (''proposal_'' @ texts) [],
         rf_verification_plan = say (''verification_'' @ texts) [], rf_decision = meta_reflection_decision say target level t,
         rf_task_id = task_id, rf_run_id = run_id, rf_tool_name = tool, rf_extras = []\<rparr>))"

definition record_meta_reflection_memory :: "exec_env \<Rightarrow> reflection_args \<Rightarrow> exec_st \<Rightarrow> exec_st" where
  "record_meta_reflection_memory E a s =
    (let d = rf_decision a; i = dec_int (rf_run_id a); tool = rf_tool_name a; target = rf_target_kind a;
         s1 = (if rf_loop_level a = ''double'' then record_event ''double_loop_reflection'' [(''reflection_id'', PStr (rf_id a)),
           (''run_id'', PInt (rf_run_id a)), (''task_id'', PInt (rf_task_id a)), (''tool_name'', PStr tool),
           (''target_kind'', PStr target), (''decision'', PStr d)] s else s);
         plan = newline @ ''proposal='' @ rf_proposal a @ newline @ ''verification_plan='' @ rf_verification_plan a
     in if w_semantic (xs_world s) = None then s1
        else (let s2 = remember E (''meta-reflection-'' @ rf_id a) ''meta_reflection''
                (''['' @ d @ ''] '' @ (if target = [] then ''reflection'' else target) @ '' run#'' @ i)
                (''diagnosis='' @ rf_diagnosis a @ plan)
                (if d = ''defer'' then (7, 1) else (8, 1), if d = ''rollback'' then (42, 2) else (58, 2))
                ([''meta_reflection'', target, rf_loop_level a, d] @ (if tool = [] then [] else [tool]) @
                  (if rf_task_id a = 0 then [] else [''task:'' @ dec_int (rf_task_id a)]))
                ''execution/meta_reflection'' (''meta_reflection:'' @ rf_id a) s1
          in if d \<notin> {''apply'', ''rollback''} then s2
             else remember E (''rule-revision-'' @ rf_id a) ''rule_revision''
                (''['' @ d @ ''] '' @ (if target = [] then ''rule'' else target) @ '' via '' @ (if tool = [] then ''unknown-tool'' else tool) @
                  '' run#'' @ i)
                (''target_kind='' @ target @ newline @ ''tool_name='' @ tool @ plan)
                ((83, 2), if d = ''rollback'' then (46, 2) else (62, 2))
                ([target, d] @ (if tool = [] then [] else [tool])) ''execution/rule_revision'' (''rule_revision:'' @ rf_id a) s2))"

section \<open>Finalizing\<close>

definition outcome_of :: "int \<Rightarrow> int \<Rightarrow> loose_result \<Rightarrow> run_outcome" where
  "outcome_of run_id task_id r = \<lparr>oc_run_id = run_id, oc_task_id = task_id, oc_tool = meta_field_text r ''tool_name'',
     oc_status = run_status_from_result r, oc_summary = py_str (lr_summary r), oc_error = str_or_empty (lr_error r),
     oc_evidence = py_str (lr_evidence r), oc_progress = run_progress_text r, oc_delta = delta r,
     oc_artifacts = lr_artifact_paths r\<rparr>"

definition told_run :: "exec_env \<Rightarrow> run_outcome \<Rightarrow> loose_result \<Rightarrow> unit exec" where
  "told_run E oc r s = then_do (result_to_dict r, s) (\<lambda>d. with_world (submit_update_run (xe_env E) (oc_run_id oc)
     \<lparr>rp_task_id = Some (oc_task_id oc), rp_status = Some (oc_status oc), rp_output_json = Some d, rp_log_text = Some (oc_summary oc),
      rp_error_text = Some (oc_error oc), rp_session_id = Some (meta_field_text r ''session_id''), rp_model_tier = None,
      rp_progress = Some (oc_progress oc), rp_extras = []\<rparr> ''execution/helpers/finalize_run'' 0
     (''run_id='' @ dec_int (oc_run_id oc) @ '' status='' @ oc_status oc)))"

definition told_task :: "exec_env \<Rightarrow> run_outcome \<Rightarrow> loose_result \<Rightarrow> unit exec" where
  "told_task E oc r s = (if oc_task_id oc = 0 then (Inr (), s)
     else then_do (build_auto_cortex_result_patch (xe_say E) (w_tasks (xs_world s)) oc, s) (\<lambda>cortex.
       with_world (submit_update_task_result (xe_env E) (oc_task_id oc) (PDict (dict_update
         (build_task_run_result_patch (oc_run_id oc) (oc_status oc) (meta_field_text r ''worker_type'') (oc_tool oc)
            (meta_field_text r ''session_id'') (oc_summary oc) (lr_error r)) cortex)) ''execution/helpers/finalize_run'' [])))"

definition told_reflections :: "exec_env \<Rightarrow> run_outcome \<Rightarrow> loose_result \<Rightarrow> exec_st \<Rightarrow> exec_st" where
  "told_reflections E oc r s = (case build_meta_reflection E (oc_run_id oc) (oc_task_id oc) (oc_tool oc) r of
      None \<Rightarrow> s
    | Some a \<Rightarrow> record_meta_reflection_memory E a
        (s\<lparr>xs_reflections := add_meta_reflection (e_now_sql (xe_env E)) a (xs_reflections s)\<rparr>))"

text \<open>The result comes back with the id of the run in its metadata and its state.\<close>

definition stamped_run :: "int \<Rightarrow> loose_result \<Rightarrow> loose_result res" where
  "stamped_run i r = bind_res (meta_default ''run_id'' (PInt i) r) (\<lambda>r. Inr (case lr_state_delta r of
     PDict d \<Rightarrow> r\<lparr>lr_state_delta := PDict (setdefault ''run_id'' (PInt i) d)\<rparr> | _ \<Rightarrow> r))"

definition finalize_run :: "exec_env \<Rightarrow> int \<Rightarrow> int \<Rightarrow> loose_result \<Rightarrow> loose_result exec" where
  "finalize_run E run_id active r0 s = then_do (stamped_run run_id r0, s) (\<lambda>r s.
     let oc = outcome_of run_id (resolved_run_task_id r active) r in
     then_do (told_run E oc r s) (\<lambda>_ s.
       let s1 = (if oc_status oc \<in> {''succeeded'', ''failed'', ''cancelled''}
             then record_run_outcome_memory E (\<not> (oc_status oc = ''succeeded'' \<and> oc_tool oc \<in> set low_value_success_tools))
               (meta_field_text r ''worker_type'') oc s else s) in
       then_do (told_task E oc r s1) (\<lambda>_ s2. (Inr r, told_reflections E oc r s2))))"

end
