(* ===== verification/Exec_Layer.thy ===== *)
theory Exec_Layer
  imports Run_Finish Json_Roundtrip
begin

text \<open>
  The execution layer (\<open>core/execution/layer.py\<close>): from a decision to the result of its tool. A run is entered,
  a tool that keeps failing in the same way is muted for a while, an action that does not fit the plan is stopped, the
  worker calls the tool, the outcome is counted, and the run is finished.
\<close>

section \<open>The dispatch of one action\<close>

record exec_dispatch =
  xd_run_id :: int
  xd_task_id :: int
  xd_run_type :: string
  xd_tool :: string
  xd_worker :: string
  xd_tier :: string

definition registry_caps :: "registry \<Rightarrow> string \<Rightarrow> string list" where
  "registry_caps reg tool = (case reg tool of None \<Rightarrow> [] | Some m \<Rightarrow> tm_capabilities m)"

definition active_id :: "exec_env \<Rightarrow> int" where
  "active_id E = (case xe_active E of None \<Rightarrow> 0 | Some k \<Rightarrow> t_id k)"

text \<open>\<open>(v or "").strip()\<close>\<close>

definition stripped :: "pyval \<Rightarrow> string res" where
  "stripped v = (case py_or v (PStr []) of PStr s \<Rightarrow> Inr (strip s)
     | w \<Rightarrow> Inl (Exn ''AttributeError'' (str_repr (type_name w) @ '' object has no attribute '' @ str_repr ''strip'')))"

definition planned_dispatch :: "exec_env \<Rightarrow> judgment_output \<Rightarrow> exec_dispatch res" where
  "planned_dispatch E a = (let tool = jd_chosen_action_id a in
     bind_res (case xe_active E of None \<Rightarrow> Inr [] | Some k \<Rightarrow> stripped (t_model_tier k)) (\<lambda>tier.
       let p = resolve_execution_dispatch tier tool (xe_routing E) (jd_params a) (Some (registry_caps (xe_registry E)))
       in Inr \<lparr>xd_run_id = 0, xd_task_id = planned_run_task_id tool (jd_params a) (active_id E), xd_run_type = ep_run_type p,
         xd_tool = tool, xd_worker = ep_worker_type p, xd_tier = ep_model_tier p\<rparr>))"

definition stamp_metadata :: "exec_dispatch \<Rightarrow> loose_result \<Rightarrow> loose_result res" where
  "stamp_metadata d = meta_defaults [(''tool_name'', PStr (xd_tool d)), (''worker_type'', PStr (xd_worker d)),
     (''run_id'', PInt (xd_run_id d))]"

definition action_basis :: "judgment_output \<Rightarrow> string \<Rightarrow> string" where
  "action_basis a fallback = decision_basis_from_parts [PStr (jd_rationale a)] fallback 240"

definition start_run_record :: "exec_env \<Rightarrow> exec_dispatch \<Rightarrow> judgment_output \<Rightarrow> exec_dispatch exec" where
  "start_run_record E d a s = then_do (with_world (submit_add_run (xe_env E)
       (run_args_default\<lparr>ra_task_id := xd_task_id d, ra_run_type := xd_run_type d, ra_worker_type := xd_worker d,
          ra_status := ''running'', ra_input_json := [(''decision'', PStr (jd_decision a)), (''tool'', PStr (xd_tool d)),
            (''params'', PDict (jd_params a))], ra_tool_name := xd_tool d, ra_model_tier := xd_tier d\<rparr>)
       ''execution/layer/_dispatch_act'' 0 (action_basis a [])) s) (\<lambda>i s.
     (Inr (d\<lparr>xd_run_id := i\<rparr>), record_event ''run_started'' [(''run_id'', PInt i), (''task_id'', PInt (xd_task_id d)),
        (''tool_name'', PStr (xd_tool d)), (''run_type'', PStr (xd_run_type d)), (''worker_type'', PStr (xd_worker d)),
        (''model_tier'', PStr (xd_tier d))] s))"

section \<open>Stable failures\<close>

definition summary_preview :: "string \<Rightarrow> string" where
  "summary_preview t = (if length t \<le> 1200 then t
     else (let marker = newline @ ''...[durable failure summary truncated chars='' @ dec_nat (length t) @ '' sha256='' @ sha256_hex t @
             '']...'' @ newline;
           budget = 1200 - length marker; head = max 160 (budget div 2)
       in take head t @ marker @ last_chars (budget - head) t))"

definition durable_failure_summary_fields :: "string \<Rightarrow> dict" where
  "durable_failure_summary_fields t = [(''last_summary_preview'', PStr (summary_preview t)),
     (''last_summary_chars'', PInt (int (length t))), (''last_summary_sha256'', PStr (sha256_hex t))]"

text \<open>Whether the fact of an action says that it is muted at a time; whatever goes wrong counts as no.\<close>

definition muted_data :: "facts \<Rightarrow> string \<Rightarrow> int \<times> nat \<Rightarrow> dict option" where
  "muted_data f key now = (let (raw, found) = get_fact f key in
     if \<not> found \<or> raw = [] then None
     else (case json_loads raw of
         Some (PDict d) \<Rightarrow> (case py_float (py_or (dict_get d ''muted_until'') (PInt 0)) of
             Inr (FNum m k) \<Rightarrow> if float_le (FNum m k) (FNum (fst now) (snd now)) then None else Some d
           | _ \<Rightarrow> None)
       | _ \<Rightarrow> None))"

definition skipped_error :: "string \<Rightarrow> string \<Rightarrow> loose_result" where
  "skipped_error summary err = (fresh_result (PStr summary))\<lparr>lr_error := PStr err, lr_skipped := PBool True, lr_kind := PStr ''error''\<rparr>"

definition muted_result :: "exec_env \<Rightarrow> string \<Rightarrow> dict \<Rightarrow> loose_result" where
  "muted_result E tool d = skipped_error (xe_say E ''muted_action'' [str_repr tool,
     py_str (py_or (dict_get d ''last_summary_preview'') (dict_get_or (PStr []) d ''last_summary''))]) ''KnownStableFailure''"

text \<open>The steps of the plan that are in progress; a plan that is no list of dicts raises.\<close>

fun steps_in_progress :: "pyval list \<Rightarrow> pyval list res" where
  "steps_in_progress [] = Inr []"
| "steps_in_progress (PDict d # vs) = bind_res (steps_in_progress vs) (\<lambda>rest. Inr (
     if dict_get d ''status'' = PStr ''in_progress'' then dict_get_or (PStr []) d ''step'' # rest else rest))"
| "steps_in_progress (v # vs) = Inl (Exn ''AttributeError'' (str_repr (type_name v) @ '' object has no attribute '' @ str_repr ''get''))"

definition is_mutation :: "string \<Rightarrow> bool" where
  "is_mutation tool \<longleftrightarrow> \<not> startswith tool ''task.'' \<and> tool \<notin> {''memory.get_fact'', ''file.read'', ''file.list'', ''file.search''}"

definition plan_mismatch :: "exec_env \<Rightarrow> string \<Rightarrow> loose_result option res" where
  "plan_mismatch E tool = (case xe_active E of
      None \<Rightarrow> Inr None
    | Some k \<Rightarrow> (let plan = dict_get (t_extras k) ''plan'' in
        if \<not> is_mutation tool \<or> \<not> truthy plan then Inr None
        else bind_res (py_list plan) (\<lambda>vs. bind_res (steps_in_progress vs) (\<lambda>steps.
          bind_res (stripped (t_current_step k)) (\<lambda>cur. Inr (case steps of
              st # _ \<Rightarrow> if cur = [] then Some (skipped_error (xe_say E ''plan_mismatch'' [py_str st]) ''PlanStepMismatch'') else None
            | [] \<Rightarrow> None))))))"

definition preflight_tool_result :: "exec_env \<Rightarrow> judgment_output \<Rightarrow> exec_dispatch \<Rightarrow> exec_st \<Rightarrow> loose_result option res" where
  "preflight_tool_result E a d s =
    (case muted_data (w_facts (xs_world s)) (failure_fact_key (xd_tool d) (jd_params a)) (xe_asked E) of
       Some m \<Rightarrow> bind_res (stamp_metadata d (muted_result E (xd_tool d) m)) (\<lambda>r. Inr (Some r))
     | None \<Rightarrow> bind_res (plan_mismatch E (xd_tool d)) (\<lambda>stop. case stop of
           None \<Rightarrow> Inr None
         | Some r \<Rightarrow> bind_res (stamp_metadata d r) (\<lambda>r. Inr (Some r))))"

definition clock_value :: "int \<times> nat \<Rightarrow> pyval" where
  "clock_value c = PFloat (fst c) (snd c)"

definition previous_count :: "string \<times> bool \<Rightarrow> string \<Rightarrow> int res" where
  "previous_count rf reason = (let (raw, found) = rf in
     case (if found then case json_loads raw of None \<Rightarrow> PDict [] | Some v \<Rightarrow> v else PDict []) of
       PDict d \<Rightarrow> if dict_get d ''reason'' = PStr reason then py_int (py_or (dict_get d ''count'') (PInt 0)) else Inr 0
     | v \<Rightarrow> Inl (Exn ''AttributeError'' (str_repr (type_name v) @ '' object has no attribute '' @ str_repr ''get'')))"

definition failure_payload :: "exec_env \<Rightarrow> string \<Rightarrow> string \<Rightarrow> string \<Rightarrow> int \<Rightarrow> int \<Rightarrow> int \<Rightarrow> string \<Rightarrow> dict" where
  "failure_payload E tool key reason c n ttl summary =
     [(''tool'', PStr tool), (''key'', PStr key), (''reason'', PStr reason), (''count'', PInt c),
      (''last_seen'', clock_value (xe_seen E)),
      (''muted_until'', if n \<le> c then PFloat (fst (xe_told E) + ttl * 10 ^ snd (xe_told E)) (snd (xe_told E)) else PInt 0),
      (''policy_threshold'', PInt n), (''policy_ttl_sec'', PInt ttl)] @ durable_failure_summary_fields summary"

definition cleared_payload :: "exec_env \<Rightarrow> string \<Rightarrow> string \<Rightarrow> string \<Rightarrow> dict" where
  "cleared_payload E tool key summary = [(''tool'', PStr tool), (''key'', PStr key), (''reason'', PStr []), (''count'', PInt 0)] @
     durable_failure_summary_fields summary @ [(''last_seen'', clock_value (xe_seen E)), (''muted_until'', PInt 0)]"

text \<open>The key is formed again, from the parameters as the call left them.\<close>

definition sync_durable_failure :: "exec_env \<Rightarrow> judgment_output \<Rightarrow> string \<Rightarrow> int \<Rightarrow> int \<Rightarrow> loose_result \<Rightarrow> unit exec" where
  "sync_durable_failure E a tool n ttl r s =
    (let params = params_after tool (jd_params a); fact = failure_fact_key tool params; key = action_key_param params;
         write = (\<lambda>payload source why. then_do (with_world (submit_fact (xe_env E) fact (PStr (json_dumps False (PDict payload)))
           ''system'' source 0 (action_basis a (why @ tool))) s) (\<lambda>_ s. (Inr (), s)))
     in if \<not> truthy (lr_error r)
        then write (cleared_payload E tool key (str_or_empty (lr_summary r))) ''execution/failure_clear'' ''durable failure cleared for ''
        else (case classify_durable_failure (xe_say E) r of
            None \<Rightarrow> (Inr (), s)
          | Some reason \<Rightarrow> then_do (previous_count (get_fact (w_facts (xs_world s)) fact) reason, s) (\<lambda>c s.
              write (failure_payload E tool key reason (c + 1) n ttl (str_or_empty (lr_summary r)))
                ''execution/failure_track'' ''durable failure tracked for '')))"

definition note_failure :: "exec_env \<Rightarrow> exec_dispatch \<Rightarrow> loose_result \<Rightarrow> exec_st \<Rightarrow> exec_st" where
  "note_failure E d r s = (if truthy (lr_error r) \<and> \<not> truthy (lr_skipped r)
    then s\<lparr>xs_failures := record_failure (e_now_sql (xe_env E)) (xd_tool d) (summary_preview (str_or_empty (lr_summary r)))
      (summary_preview (str_or_empty (lr_evidence r)))
      (let i = resolved_run_task_id r (xd_task_id d) in if i = 0 then [] else dec_int i) (xs_failures s)\<rparr>
    else s)"

section \<open>Carrying an action out\<close>

definition failed_call :: "exec_env \<Rightarrow> exn \<Rightarrow> loose_result" where
  "failed_call E x = (fresh_result (PStr (xe_say E ''tool_raised'' [exn_msg x])))
     \<lparr>lr_evidence := PStr (exn_msg x), lr_error := PStr (exn_msg x)\<rparr>"

definition called_tool :: "exec_env \<Rightarrow> judgment_output \<Rightarrow> exec_dispatch \<Rightarrow> tool_manifest \<Rightarrow> loose_result exec" where
  "called_tool E a d m s = then_do (or_else (worker_dispatch (xe_loop E) (xd_worker d)
        \<lparr>wk_say = xe_say E, wk_active = map_option t_id (xe_active E), wk_slot = xe_slot E\<rparr> (xd_tool d) m (xe_tool E (xd_tool d))
        (jd_params a) s) (\<lambda>x s. (Inr (failed_call E x), s))) (\<lambda>r s.
     (bind_res (stamp_metadata d r) (\<lambda>r. meta_default ''dispatch_ms'' (PInt (xe_ms E)) (normalize_text_fields r)), s))"

definition finish :: "exec_env \<Rightarrow> exec_dispatch \<Rightarrow> loose_result \<Rightarrow> loose_result exec" where
  "finish E d r = finalize_run E (xd_run_id d) (xd_task_id d) r"

definition carried_out :: "exec_env \<Rightarrow> judgment_output \<Rightarrow> exec_dispatch \<Rightarrow> tool_manifest \<Rightarrow> int \<Rightarrow> int \<Rightarrow> loose_result exec" where
  "carried_out E a d m n ttl s = then_do (called_tool E a d m s) (\<lambda>r s.
     then_do (sync_durable_failure E a (xd_tool d) n ttl r (note_failure E d r s)) (\<lambda>_ s. finish E d r s))"

definition or_configured :: "int \<Rightarrow> int \<Rightarrow> int" where
  "or_configured v configured = (if v \<noteq> 0 then v else configured)"

definition dispatch_act :: "exec_env \<Rightarrow> judgment_output \<Rightarrow> loose_result exec" where
  "dispatch_act E a s = then_do (planned_dispatch E a, s) (\<lambda>d0 s.
     then_do (load_durable_failure_policy (w_facts (xs_world s)), s) (\<lambda>policy s.
     let n = or_configured (fst policy) (xe_threshold E); ttl = or_configured (snd policy) (xe_ttl E) in
     then_do (start_run_record E d0 a s) (\<lambda>d s.
     case xe_registry E (xd_tool d) of
       None \<Rightarrow> then_do (stamp_metadata d (skipped_error (xe_say E ''tool_not_found'' [str_repr (xd_tool d)]) ''ToolNotFound''), s) (finish E d)
     | Some m \<Rightarrow> then_do (preflight_tool_result E a d s, s) (\<lambda>stop s. case stop of
           Some r \<Rightarrow> finish E d r s
         | None \<Rightarrow> carried_out E a d m n ttl s))))"

section \<open>Several actions at a time\<close>

definition terminal_task_actions :: "string list" where
  "terminal_task_actions = [''task.complete'', ''task.fail'']"

text \<open>The entries of \<open>parallel_actions\<close> as actions; parameters that are no dict raise.\<close>

fun sub_actions :: "string \<Rightarrow> dict list \<Rightarrow> judgment_output list res" where
  "sub_actions why [] = Inr []"
| "sub_actions why (item # items) = (case dict_get item ''action_id'' of
      PStr (ch # cs) \<Rightarrow> bind_res (dict_or_empty (dict_get item ''params'')) (\<lambda>p. bind_res (sub_actions why items) (\<lambda>rest.
        Inr (blank_judgment\<lparr>jd_decision := ''act'', jd_chosen_action_id := ch # cs, jd_params := p, jd_rationale := why\<rparr> # rest)))
    | _ \<Rightarrow> sub_actions why items)"

text \<open>\<open>max\<close> of the priorities, which are numbers.\<close>

fun max_number :: "pyval \<Rightarrow> pyval list \<Rightarrow> pyval res" where
  "max_number best [] = Inr best"
| "max_number best (v # vs) = bind_res (py_float v) (\<lambda>f. bind_res (py_float best) (\<lambda>b.
     max_number (if float_le f b then best else v) vs))"

definition skipped_wait :: "string \<Rightarrow> string \<Rightarrow> pyval \<Rightarrow> loose_result" where
  "skipped_wait summary kind priority =
     (fresh_result (PStr summary))\<lparr>lr_skipped := PBool True, lr_kind := PStr kind, lr_priority := priority\<rparr>"

definition names_value :: "judgment_output list \<Rightarrow> pyval" where
  "names_value as = PList (map (\<lambda>a. PStr (jd_chosen_action_id a)) as)"

definition terminal_invalid :: "catalogue \<Rightarrow> judgment_output list \<Rightarrow> loose_result" where
  "terminal_invalid say subs = (fresh_result (PStr (say ''terminal_parallel'' [])))
     \<lparr>lr_skipped := PBool True, lr_error := PStr ''TerminalActionParallelInvalid'',
      lr_state_delta := PDict [(''deferred_terminal_actions'', names_value subs), (''recovery_next_step'', PStr (say ''terminal_alone'' []))],
      lr_metadata := PDict [(''tool_name'', PStr ''exec.parallel''), (''log_summary'', PStr ''exec.parallel terminal_actions_invalid''),
        (''parallel_count'', PInt (int (length subs))), (''deferred_terminal_actions'', names_value subs)]\<rparr>"

definition merged_results ::
    "catalogue \<Rightarrow> judgment_output list \<Rightarrow> judgment_output list \<Rightarrow> loose_result list \<Rightarrow> loose_result res" where
  "merged_results say terminals subs rs =
    (let lines = map (\<lambda>(a, r). ''['' @ jd_chosen_action_id a @ ''] '' @ py_str (lr_summary r))
           (filter (\<lambda>(a, r). truthy (lr_summary r)) (zip subs rs));
         errors = filter truthy (map lr_error rs); names = map jd_chosen_action_id terminals;
         summary = join newline lines;
         told = (if terminals = [] then summary
           else join newline (filter (\<lambda>t. t \<noteq> []) [summary, say ''deferred'' [join '', '' names]]))
     in bind_res (case map lr_priority rs of [] \<Rightarrow> Inr (PFloat 9 1) | v # vs \<Rightarrow> max_number v vs) (\<lambda>priority.
        Inr ((fresh_result (PStr told))\<lparr>lr_error := (if errors = [] then PNone else PStr (join ''; '' (map py_str errors))),
          lr_state_delta := PDict (if terminals = [] then [] else [(''deferred_terminal_actions'', names_value terminals),
             (''recovery_next_step'', PStr (say ''evidence_first'' []))]),
          lr_priority := priority,
          lr_metadata := PDict [(''tool_name'', PStr ''exec.parallel''),
             (''log_summary'', PStr (''exec.parallel count='' @ dec_nat (length subs) @ '' errors='' @ dec_nat (length errors))),
             (''parallel_count'', PInt (int (length subs))), (''errors'', PList errors),
             (''deferred_terminal_actions'', names_value terminals)]\<rparr>)))"

text \<open>\<open>gather\<close> is \<open>run_all\<close>: it carries the actions out in any interleaving and returns their results in order.\<close>

definition dispatch_parallel ::
    "catalogue \<Rightarrow> (judgment_output list \<Rightarrow> loose_result list exec) \<Rightarrow> judgment_output \<Rightarrow> loose_result exec" where
  "dispatch_parallel say run_all a s = then_do (sub_actions (jd_rationale a) (jd_parallel_actions a), s) (\<lambda>subs s.
     let terminal = (\<lambda>b. jd_chosen_action_id b \<in> set terminal_task_actions); terminals = filter terminal subs;
         mixed = terminals \<noteq> [] \<and> 1 < length subs;
         chosen = (if mixed then filter (\<lambda>b. \<not> terminal b) subs else subs) in
     if subs = [] then (Inr (skipped_wait (say ''parallel_empty'' []) ''wait'' (PFloat 9 1)), s)
     else if mixed \<and> chosen = [] then (Inr (terminal_invalid say terminals), s)
     else then_do (run_all chosen s) (\<lambda>rs s. (merged_results say terminals chosen rs, s)))"

text \<open>One after the other; the environment of each is the one it finds.\<close>

fun one_by_one :: "(nat \<Rightarrow> exec_env) \<Rightarrow> nat \<Rightarrow> judgment_output list \<Rightarrow> loose_result list exec" where
  "one_by_one E i [] s = (Inr [], s)"
| "one_by_one E i (a # as) s = then_do (dispatch_act (E i) a s) (\<lambda>r s. then_do (one_by_one E (Suc i) as s) (\<lambda>rs s. (Inr (r # rs), s)))"

definition dispatch_decision :: "(nat \<Rightarrow> exec_env) \<Rightarrow> judgment_output \<Rightarrow> loose_result exec" where
  "dispatch_decision E a s = (let say = xe_say (E 0); why = jd_rationale a in
     if jd_decision a = ''wait'' then (Inr (skipped_wait (''wait: '' @ why) ''wait'' (PFloat 3 1)), s)
     else if jd_decision a = ''pause'' then
       then_do (let (r, m) = wm_add \<lparr>wi_kind = ''caution'', wi_content = ''pause: '' @ why, wi_priority = 9 / 10,
           wi_created_at = e_now_iso (xe_env (E 0))\<rparr> (xs_wm s) in (r, s\<lparr>xs_wm := m\<rparr>)) (\<lambda>_ s.
         (Inr (skipped_wait (''pause: '' @ why) ''pause'' (PFloat 9 1)), s))
     else if jd_decision a = ''act'' then
       (if jd_parallel_actions a \<noteq> [] \<and> jd_chosen_action_id a \<in> {[], ''__parallel__''}
        then dispatch_parallel say (one_by_one E 0) a s else dispatch_act (E 0) a s)
     else (Inr (skipped_wait (say ''unknown_decision'' [str_repr (jd_decision a)]) ''error'' (PFloat 9 1)), s))"

end
