(* ===== verification/Exec_Promises.thy ===== *)
theory Exec_Promises
  imports Exec_Layer Stored_Facts Py_Num
begin

text \<open>
  What the execution layer promises: a run that was entered is finished when its action returns, an action that failed
  in the same way too often is not carried out again before its time is over, a batch of actions does not end a task;
  and where these promises have gaps.
\<close>

section \<open>Parts of the world that a submission leaves alone\<close>

lemma submit_keeps_facts:
  assumes "pr_op p \<notin> {''set_fact'', ''delete_fact'', ''soul_change''}"
  shows "w_facts (snd (submit e p w)) = w_facts w"
proof -
  have "w_facts (snd (apply_state_write e p w)) = w_facts w"
    using task_effect_apply [of w e p] assms
    by (auto simp: apply_state_write_def apply_semantic_write_def task_effect_def Let_def split: option.split sum.split)
  then show ?thesis using submit_world [of e p w] by (auto simp: append_lifecycle_ledger_def)
qed

lemma submit_keeps_runs:
  assumes "pr_op p \<notin> {''add_run'', ''update_run''}"
  shows "w_runs (snd (submit e p w)) = w_runs w"
proof -
  have "w_runs (snd (apply_task_write e p w)) = w_runs w"
    using assms by (auto simp: apply_task_write_def apply_create_task_def apply_task_defs with_task_id_def on_tasks_def Let_def
        split: sum.split)
  then have "w_runs (snd (apply_state_write e p w)) = w_runs w"
    by (auto simp: apply_state_write_def apply_fact_write_def apply_soul_change_def apply_semantic_write_def Let_def
        split: option.split sum.split)
  then show ?thesis using submit_world [of e p w] by (auto simp: append_lifecycle_ledger_def)
qed

lemma op_of_built [simp]: "pr_op (build_proposal op key v sc src r b) = op"
  by (simp add: build_proposal_def)

lemma snd_let_pair: "snd (let (r, w) = x in (f r, g w)) = g (snd x)"
  by (simp add: case_prod_beta)

lemma kept_by_memory:
  "w_facts (snd (add_semantic_memory e i v src r b w)) = w_facts w" "w_runs (snd (add_semantic_memory e i v src r b w)) = w_runs w"
  by (simp_all add: add_semantic_memory_def case_prod_beta submit_keeps_facts submit_keeps_runs)

lemma kept_by_task_result:
  "w_facts (snd (submit_update_task_result e i v src b w)) = w_facts w"
  "w_runs (snd (submit_update_task_result e i v src b w)) = w_runs w"
  by (simp_all add: submit_update_task_result_def submit_task_op_def case_prod_beta submit_keeps_facts submit_keeps_runs)

lemma kept_by_run_ops:
  "w_facts (snd (submit_update_run e i p src r b w)) = w_facts w" "w_facts (snd (submit_add_run e a src r b w)) = w_facts w"
  by (simp_all add: submit_update_run_def submit_add_run_def case_prod_beta submit_keeps_facts)

section \<open>Entering and updating a run\<close>

lemma run_ops_not_blocked:
  "check_tool_blocked (pseudo_tool_name (build_proposal ''update_run'' key v sc src r b)) = None"
  "check_tool_blocked (pseudo_tool_name (build_proposal ''add_run'' key v sc src r b)) = None"
  by (simp_all add: check_tool_blocked_def pseudo_tool_name_def default_blocked_tools_def build_proposal_def)

lemma submit_update_run_effect:
  "\<exists>l pf. submit_update_run e i p src r b w = (Inr (), w\<lparr>w_runs := update_run (e_now_iso e) i pf (w_runs w), w_ledger := l\<rparr>) \<and>
     rp_status pf = rp_status p"
proof -
  let ?p = "build_proposal ''update_run'' (dec_int i) (run_patch_value p) ''run'' src r b"
  have "rp_status (run_patch_fields (proposal_data ?p)) = rp_status p"
    by (simp add: run_patch_fields_def proposal_data_def build_proposal_def run_patch_value_def opt_val_def dict_get_def
        optional_str_field_def Let_def split: option.split)
  moreover have "proposal_task_id ?p = Inr i" by (simp add: proposal_task_id_def build_proposal_def)
  ultimately show ?thesis
    by (intro exI [of _ "w_ledger (snd (submit e ?p w))"] exI [of _ "run_patch_fields (proposal_data ?p)"])
      (simp add: submit_update_run_def submit_def run_ops_not_blocked apply_state_write_def task_write_ops_def
        apply_task_write_def apply_update_run_def with_task_id_def accepted_as_def bind_res_def append_lifecycle_ledger_def)
qed

lemma submit_add_run_effect:
  "\<exists>l a'. submit_add_run e a src r b w = (Inr (fst (add_run (e_now_iso e) a' (w_runs w))),
     w\<lparr>w_runs := snd (add_run (e_now_iso e) a' (w_runs w)), w_ledger := l\<rparr>) \<and> ra_status a' = (if ra_status a = [] then ''running'' else ra_status a)"
proof -
  let ?p = "build_proposal ''add_run'' ''run:new'' (run_value a) ''run'' src r b"
  let ?a = "run_fields (proposal_data ?p) (ra_task_id a)"
  have field: "int_field (proposal_data ?p) ''task_id'' = Inr (ra_task_id a)"
    by (simp add: int_field_def proposal_data_def build_proposal_def run_value_def dict_get_def py_or_def)
  have "ra_status ?a = (if ra_status a = [] then ''running'' else ra_status a)"
    by (simp add: run_fields_def proposal_data_def build_proposal_def run_value_def str_field_def dict_get_def py_or_def Let_def)
  moreover have "int_or_zero (PInt i) = i" for i by (simp add: int_or_zero_def py_or_def)
  ultimately show ?thesis
    by (intro exI [of _ "w_ledger (snd (submit e ?p w))"] exI [of _ ?a])
      (simp add: submit_add_run_def submit_def run_ops_not_blocked apply_state_write_def task_write_ops_def
        apply_task_write_def apply_add_run_def field accepted_as_def bind_res_def append_lifecycle_ledger_def case_prod_beta Let_def)
qed

section \<open>Finishing a run\<close>

lemma with_world_snd: "snd (with_world f s) = s\<lparr>xs_world := snd (f (xs_world s))\<rparr>"
  by (simp add: with_world_def case_prod_beta)

lemma remember_keeps [simp]:
  "w_facts (xs_world (remember E i k t b a tags src basis s)) = w_facts (xs_world s)"
  "w_runs (xs_world (remember E i k t b a tags src basis s)) = w_runs (xs_world s)"
proof -
  obtain r w where aw: "add_semantic_memory (xe_env E) i (semantic_memory_value i k t b (decimal (fst a)) (decimal (snd a))
      (PFloat 0 1) tags [] src) src 0 basis (xs_world s) = (r, w)" by fastforce
  then have "w_facts w = w_facts (xs_world s)" "w_runs w = w_runs (xs_world s)"
    using kept_by_memory by (metis snd_conv)+
  then show "w_facts (xs_world (remember E i k t b a tags src basis s)) = w_facts (xs_world s)"
    "w_runs (xs_world (remember E i k t b a tags src basis s)) = w_runs (xs_world s)"
    using aw by (auto simp: remember_def fallback_upsert_semantic_memory_def case_prod_beta Let_def split: sum.split option.split)
qed

lemma memory_keeps [simp]:
  "w_facts (xs_world (record_run_outcome_memory E b wk oc s)) = w_facts (xs_world s)"
  "w_runs (xs_world (record_run_outcome_memory E b wk oc s)) = w_runs (xs_world s)"
  "w_facts (xs_world (record_meta_reflection_memory E a s)) = w_facts (xs_world s)"
  "w_runs (xs_world (record_meta_reflection_memory E a s)) = w_runs (xs_world s)"
  by (simp_all add: record_run_outcome_memory_def record_meta_reflection_memory_def record_event_def Let_def)

lemma reflections_keep [simp]:
  "w_facts (xs_world (told_reflections E oc r s)) = w_facts (xs_world s)"
  "w_runs (xs_world (told_reflections E oc r s)) = w_runs (xs_world s)"
  by (simp_all add: told_reflections_def split: option.split)

lemma told_task_keeps:
  "w_facts (xs_world (snd (told_task E oc r s))) = w_facts (xs_world s)" "w_runs (xs_world (snd (told_task E oc r s))) = w_runs (xs_world s)"
  by (simp_all add: told_task_def then_do_def with_world_snd kept_by_task_result split: sum.split)

definition run_patch_of :: "run_outcome \<Rightarrow> loose_result \<Rightarrow> dict \<Rightarrow> run_patch" where
  "run_patch_of oc r d = \<lparr>rp_task_id = Some (oc_task_id oc), rp_status = Some (oc_status oc), rp_output_json = Some d,
      rp_log_text = Some (oc_summary oc), rp_error_text = Some (oc_error oc), rp_session_id = Some (meta_field_text r ''session_id''),
      rp_model_tier = None, rp_progress = Some (oc_progress oc), rp_extras = []\<rparr>"

lemma told_run_effect:
  assumes "told_run E oc r s = (Inr (), s')"
  shows "\<exists>pf now l. s' = s\<lparr>xs_world := (xs_world s)\<lparr>w_runs := update_run now (oc_run_id oc) pf (w_runs (xs_world s)), w_ledger := l\<rparr>\<rparr> \<and>
     rp_status pf = Some (oc_status oc)"
proof -
  from assms obtain d src b where m: "with_world (submit_update_run (xe_env E) (oc_run_id oc) (run_patch_of oc r d) src 0 b) s = (Inr (), s')"
    by (auto simp: told_run_def run_patch_of_def dest!: then_do_pure)
  obtain l pf where "submit_update_run (xe_env E) (oc_run_id oc) (run_patch_of oc r d) src 0 b (xs_world s) =
      (Inr (), (xs_world s)\<lparr>w_runs := update_run (e_now_iso (xe_env E)) (oc_run_id oc) pf (w_runs (xs_world s)), w_ledger := l\<rparr>)"
    and pf: "rp_status pf = rp_status (run_patch_of oc r d)"
    using submit_update_run_effect by blast
  with m have "s' = s\<lparr>xs_world := (xs_world s)\<lparr>w_runs := update_run (e_now_iso (xe_env E)) (oc_run_id oc) pf (w_runs (xs_world s)), w_ledger := l\<rparr>\<rparr>"
    by (simp add: with_world_def)
  with pf show ?thesis unfolding run_patch_of_def by (metis run_patch.select_convs(2))
qed

lemma status_not_empty: "run_status_from_result r \<noteq> []"
  by (simp add: run_status_from_result_def)

lemma told_run_facts: "w_facts (xs_world (snd (told_run E oc r s))) = w_facts (xs_world s)"
  by (simp add: told_run_def then_do_def with_world_snd kept_by_run_ops split: sum.split)

lemma then_do_keeps:
  "P (snd m) \<Longrightarrow> (\<And>a t. m = (Inr a, t) \<Longrightarrow> P t \<Longrightarrow> P (snd (f a t))) \<Longrightarrow> P (snd (then_do m f))"
  by (cases m; cases "fst m") auto

lemma finalize_run_facts: "w_facts (xs_world (snd (finalize_run E i act r s))) = w_facts (xs_world s)"
proof -
  define P where "P t \<longleftrightarrow> w_facts (xs_world t) = w_facts (xs_world s)" for t :: exec_st
  have run: "P t \<Longrightarrow> P (snd (told_run E oc q t))" and task: "P t \<Longrightarrow> P (snd (told_task E oc q t))" for oc q t
    by (simp_all add: P_def told_run_facts told_task_keeps)
  have memory: "P t \<Longrightarrow> P (if b then record_run_outcome_memory E b' wk oc t else t)" for b b' wk oc t
    by (simp add: P_def)
  have reflect: "P t \<Longrightarrow> P (told_reflections E oc q t)" for oc q t
    by (simp add: P_def)
  have "P (snd (finalize_run E i act r s))"
    unfolding finalize_run_def Let_def
    by (rule then_do_keeps [where P = P], simp add: P_def)
      (rule then_do_keeps [where P = P], erule run, rule then_do_keeps [where P = P], rule task, erule memory, simp add: reflect)
  then show ?thesis by (simp add: P_def)
qed

text \<open>A run that is in the table has the status of its result afterwards.\<close>

lemma finalize_run_status:
  assumes "finalize_run E i act r0 s = (Inr r, s')" "tbl_get (w_runs (xs_world s)) i = Some row"
  shows "\<exists>row'. tbl_get (w_runs (xs_world s')) i = Some row' \<and> rrow_status row' = run_status_from_result r"
proof -
  from assms(1) obtain oc s1 s2 where oc: "oc = outcome_of i (resolved_run_task_id r act) r"
    and s1: "told_run E oc r s = (Inr (), s1)"
    and s2: "told_task E oc r (if oc_status oc \<in> {''succeeded'', ''failed'', ''cancelled''}
             then record_run_outcome_memory E (\<not> (oc_status oc = ''succeeded'' \<and> oc_tool oc \<in> set low_value_success_tools))
               (meta_field_text r ''worker_type'') oc s1 else s1) = (Inr (), s2)"
    and s': "s' = told_reflections E oc r s2"
    unfolding finalize_run_def Let_def by (fastforce dest!: then_do_regular)
  from told_run_effect [OF s1] obtain pf now l where
      "w_runs (xs_world s1) = update_run now i pf (w_runs (xs_world s))" "rp_status pf = Some (run_status_from_result r)"
    by (auto simp: oc outcome_of_def)
  moreover have "w_runs (xs_world s2) = w_runs (xs_world s1)"
    using arg_cong [OF s2, of "\<lambda>x. w_runs (xs_world (snd x))"] by (simp add: told_task_keeps split: if_splits)
  ultimately show ?thesis
    using assms(2) status_not_empty [of r] by (simp add: s' tbl_get_update_run patched_run_status)
qed

section \<open>A dispatched action\<close>

lemma start_run_effect:
  assumes "start_run_record E d0 a s = (Inr d, s1)" "tbl_ok (w_runs (xs_world s))"
  shows "d = d0\<lparr>xd_run_id := xd_run_id d\<rparr> \<and> tbl_get (w_runs (xs_world s)) (xd_run_id d) = None \<and>
    (\<exists>row. tbl_get (w_runs (xs_world s1)) (xd_run_id d) = Some row \<and> rrow_status row = ''running'') \<and>
    w_facts (xs_world s1) = w_facts (xs_world s)"
proof -
  define args where "args = run_args_default\<lparr>ra_task_id := xd_task_id d0, ra_run_type := xd_run_type d0, ra_worker_type := xd_worker d0,
          ra_status := ''running'', ra_input_json := [(''decision'', PStr (jd_decision a)), (''tool'', PStr (xd_tool d0)),
            (''params'', PDict (jd_params a))], ra_tool_name := xd_tool d0, ra_model_tier := xd_tier d0\<rparr>"
  have args: "ra_status args = ''running''" by (simp add: args_def)
  note m = assms(1) [unfolded start_run_record_def, folded args_def]
  obtain l a' where sub: "submit_add_run (xe_env E) args ''execution/layer/_dispatch_act'' 0 (action_basis a []) (xs_world s) =
      (Inr (fst (add_run (e_now_iso (xe_env E)) a' (w_runs (xs_world s)))),
       (xs_world s)\<lparr>w_runs := snd (add_run (e_now_iso (xe_env E)) a' (w_runs (xs_world s))), w_ledger := l\<rparr>)"
      "ra_status a' = ''running''"
    using submit_add_run_effect [of "xe_env E" args] args by (metis list.distinct(1))
  have "tbl_get (w_runs (xs_world s)) (fst (add_run (e_now_iso (xe_env E)) a' (w_runs (xs_world s)))) = None"
    using tb.ins_fresh [OF assms(2)] by (simp add: add_run_def)
  moreover have "\<exists>row. tbl_get (snd (add_run (e_now_iso (xe_env E)) a' (w_runs (xs_world s)))) (fst (add_run (e_now_iso (xe_env E)) a'
      (w_runs (xs_world s)))) = Some row \<and> rrow_status row = ''running''"
    using tb.get_ins_same [OF assms(2)] sub(2) by (simp add: add_run_def)
  ultimately show ?thesis using m sub(1) by (auto simp: with_world_def record_event_def)
qed

lemma planned_tool: "planned_dispatch E a = Inr d \<Longrightarrow> xd_tool d = jd_chosen_action_id a"
  by (auto simp: planned_dispatch_def Let_def dest!: bind_res_regular)

lemma started_tool:
  assumes "planned_dispatch E a = Inr d0" "start_run_record E d0 a s = (Inr d, s1)" "tbl_ok (w_runs (xs_world s))"
  shows "xd_tool d = jd_chosen_action_id a"
proof -
  have "xd_tool (d0\<lparr>xd_run_id := i\<rparr>) = xd_tool d0" for i by simp
  then show ?thesis using start_run_effect [OF assms(2,3)] planned_tool [OF assms(1)] by metis
qed

lemma worker_dispatch_keeps:
  assumes "P s" "\<And>p. P (snd (h p s))"
  shows "P (snd (worker_dispatch cfg worker W tool m h params s))"
proof -
  have "P (snd (call_handler say m h active ps s))" for say active ps
    using assms by (auto simp: call_handler_def Let_def split: option.split intro!: then_do_keeps [where P = P])
  then have "P (snd (call_tool_and_tag_path W m h ps path s))" for ps path
    unfolding call_tool_and_tag_path_def by (rule then_do_keeps) simp
  then have tagged: "P (snd (then_do (call_tool_and_tag_path W m h ps path s) (\<lambda>r s. (f r, s))))" for ps path f
    by (rule then_do_keeps) simp
  have "P (snd (execute_on worker W m h ps s))" for ps
    by (simp add: execute_on_def Let_def tagged)
  then show ?thesis unfolding worker_dispatch_def by (rule then_do_keeps) simp
qed

lemma called_tool_keeps:
  assumes "P s" "\<And>p. P (snd (xe_tool E (xd_tool d) p s))"
  shows "P (snd (called_tool E a d m s))"
proof -
  have "P (snd (worker_dispatch (xe_loop E) (xd_worker d) W (xd_tool d) m (xe_tool E (xd_tool d)) (jd_params a) s))" for W
    by (rule worker_dispatch_keeps [of P]) (use assms in auto)
  then have "P (snd (or_else (worker_dispatch (xe_loop E) (xd_worker d) W (xd_tool d) m (xe_tool E (xd_tool d)) (jd_params a) s)
      (\<lambda>x s. (Inr (failed_call E x), s))))" for W
    by (simp add: or_else_def split: prod.split sum.split) (metis snd_conv)
  then show ?thesis unfolding called_tool_def by (rule then_do_keeps) simp
qed

lemma submit_fact_on:
  "\<exists>l. with_world (submit_fact e k (PStr v) sc src i b) s =
     (Inr True, s\<lparr>xs_world := (xs_world s)\<lparr>w_facts := set_fact (e_now_sql e) k v sc (w_facts (xs_world s)), w_ledger := l\<rparr>\<rparr>)"
  using submit_fact_effect [of e k v sc src i b "xs_world s"] by (auto simp: with_world_def)

lemma called_tool_facts:
  assumes "\<And>p t. w_facts (xs_world (snd (xe_tool E (xd_tool d) p t))) = w_facts (xs_world t)"
  shows "w_facts (xs_world (snd (called_tool E a d m s))) = w_facts (xs_world s)"
  by (rule called_tool_keeps [where P = "\<lambda>t. w_facts (xs_world t) = w_facts (xs_world s)"]) (simp_all add: assms)

lemma sync_effect:
  "\<exists>f l. snd (sync_durable_failure E a tool n ttl r s) = s\<lparr>xs_world := (xs_world s)\<lparr>w_facts := f, w_ledger := l\<rparr>\<rparr>"
proof -
  define Q where "Q t \<longleftrightarrow> (\<exists>f l. t = s\<lparr>xs_world := (xs_world s)\<lparr>w_facts := f, w_ledger := l\<rparr>\<rparr>)" for t :: exec_st
  have same: "Q s" unfolding Q_def by (intro exI [of _ "w_facts (xs_world s)"] exI [of _ "w_ledger (xs_world s)"]) simp
  have written: "Q (snd (then_do (with_world (submit_fact e k (PStr v) sc src i b) s) (\<lambda>_ s. (Inr (), s))))" for e k v sc src i b
  proof -
    obtain l where "with_world (submit_fact e k (PStr v) sc src i b) s =
       (Inr True, s\<lparr>xs_world := (xs_world s)\<lparr>w_facts := set_fact (e_now_sql e) k v sc (w_facts (xs_world s)), w_ledger := l\<rparr>\<rparr>)"
      using submit_fact_on by blast
    then show ?thesis unfolding Q_def by auto
  qed
  have tracked: "Q (snd (then_do (c, s) (\<lambda>i t. then_do (with_world (submit_fact e k (PStr (v i)) sc src j b) s) (\<lambda>_ s. (Inr (), s)))))"
    for c :: "int res" and e k v sc src j b
    using written same by (cases c) simp_all
  have "Q (snd (sync_durable_failure E a tool n ttl r s))"
    unfolding sync_durable_failure_def Let_def
    by (cases "truthy (lr_error r)"; cases "classify_durable_failure (xe_say E) r")
      (simp_all add: written tracked same del: json_dumps.simps)
  then show ?thesis by (simp add: Q_def)
qed

lemma dispatch_act_ends:
  assumes "dispatch_act E a s = (Inr r, s')"
  obtains d0 policy d s1 where "planned_dispatch E a = Inr d0"
    "load_durable_failure_policy (w_facts (xs_world s)) = Inr policy" "start_run_record E d0 a s = (Inr d, s1)"
    "(\<exists>q. finish E d q s1 = (Inr r, s')) \<or>
     (\<exists>m n ttl. xe_registry E (xd_tool d) = Some m \<and> preflight_tool_result E a d s1 = Inr None \<and>
        carried_out E a d m n ttl s1 = (Inr r, s'))"
proof -
  from assms obtain d0 policy d s1 where p: "planned_dispatch E a = Inr d0"
    "load_durable_failure_policy (w_facts (xs_world s)) = Inr policy" "start_run_record E d0 a s = (Inr d, s1)"
    and rest: "(case xe_registry E (xd_tool d) of
       None \<Rightarrow> then_do (stamp_metadata d (skipped_error (xe_say E ''tool_not_found'' [str_repr (xd_tool d)]) ''ToolNotFound''), s1) (finish E d)
     | Some m \<Rightarrow> then_do (preflight_tool_result E a d s1, s1) (\<lambda>stop s. case stop of
           Some r \<Rightarrow> finish E d r s
         | None \<Rightarrow> carried_out E a d m (or_configured (fst policy) (xe_threshold E)) (or_configured (snd policy) (xe_ttl E)) s)) = (Inr r, s')"
    unfolding dispatch_act_def Let_def by (auto dest!: then_do_pure then_do_regular)
  then show thesis
    by (intro that [OF p]) (auto split: option.splits dest!: then_do_pure; blast)
qed

text \<open>C25: 
  An action that returns has entered a run and left it with the status of its result: succeeded, failed, cancelled, or running
  when the tool has started a process in the background. This holds for tools that remove no runs.
\<close>

theorem entered_run_is_finished:
  assumes "dispatch_act E a s = (Inr r, s')" "tbl_ok (w_runs (xs_world s))"
    "\<And>tool p t i. tbl_get (w_runs (xs_world t)) i \<noteq> None \<Longrightarrow> tbl_get (w_runs (xs_world (snd (xe_tool E tool p t)))) i \<noteq> None"
  shows "\<exists>i row. tbl_get (w_runs (xs_world s)) i = None \<and> tbl_get (w_runs (xs_world s')) i = Some row \<and>
    rrow_status row = run_status_from_result r"
proof -
  from dispatch_act_ends [OF assms(1)] obtain d0 d s1 where d: "start_run_record E d0 a s = (Inr d, s1)"
    and ends: "(\<exists>q. finish E d q s1 = (Inr r, s')) \<or>
     (\<exists>m n ttl. xe_registry E (xd_tool d) = Some m \<and> preflight_tool_result E a d s1 = Inr None \<and> carried_out E a d m n ttl s1 = (Inr r, s'))"
    by metis
  define P where "P t \<longleftrightarrow> tbl_get (w_runs (xs_world t)) (xd_run_id d) \<noteq> None" for t :: exec_st
  have fresh: "tbl_get (w_runs (xs_world s)) (xd_run_id d) = None" and P1: "P s1"
    using start_run_effect [OF d assms(2)] by (auto simp: P_def)
  have "\<exists>q t. P t \<and> finish E d q t = (Inr r, s')"
    using ends
  proof
    assume "\<exists>q. finish E d q s1 = (Inr r, s')"
    with P1 show ?thesis by blast
  next
    assume "\<exists>m n ttl. xe_registry E (xd_tool d) = Some m \<and> preflight_tool_result E a d s1 = Inr None \<and> carried_out E a d m n ttl s1 = (Inr r, s')"
    then obtain m n ttl q s2 s3 where c: "called_tool E a d m s1 = (Inr q, s2)"
        "sync_durable_failure E a (xd_tool d) n ttl q (note_failure E d q s2) = (Inr (), s3)" "finish E d q s3 = (Inr r, s')"
      by (auto simp: carried_out_def dest!: then_do_regular)
    have "P s2" using called_tool_keeps [of P s1 E d a m] P1 assms(3) c(1) by (simp add: P_def)
    then have "P (note_failure E d q s2)" by (simp add: P_def note_failure_def)
    then have "P s3" using sync_effect [of E a "xd_tool d" n ttl q "note_failure E d q s2"] c(2) by (auto simp: P_def)
    with c(3) show ?thesis by blast
  qed
  then obtain q t row where "tbl_get (w_runs (xs_world t)) (xd_run_id d) = Some row" "finalize_run E (xd_run_id d) (xd_task_id d) q t = (Inr r, s')"
    by (auto simp: P_def finish_def)
  from finalize_run_status [OF this(2,1)] fresh show ?thesis by blast
qed

section \<open>What a dispatch does not depend on\<close>

lemma remember_of [simp]:
  "remember (E\<lparr>xe_tool := h\<rparr>) = remember E" "remember (E\<lparr>xe_threshold := n\<rparr>) = remember E" "remember (E\<lparr>xe_ttl := n\<rparr>) = remember E"
  by (intro ext; simp add: remember_def)+

lemma finish_of [simp]:
  "finish (E\<lparr>xe_tool := h\<rparr>) = finish E" "finish (E\<lparr>xe_threshold := n\<rparr>) = finish E" "finish (E\<lparr>xe_ttl := n\<rparr>) = finish E"
  by (intro ext; simp add: finish_def finalize_run_def told_run_def told_task_def told_reflections_def build_meta_reflection_def
      record_run_outcome_memory_def record_meta_reflection_memory_def Let_def cong: option.case_cong if_cong)+

lemma plan_mismatch_of [simp]:
  "plan_mismatch (E\<lparr>xe_tool := h\<rparr>) = plan_mismatch E" "plan_mismatch (E\<lparr>xe_threshold := n\<rparr>) = plan_mismatch E"
  "plan_mismatch (E\<lparr>xe_ttl := n\<rparr>) = plan_mismatch E"
  by (intro ext; simp add: plan_mismatch_def Let_def cong: option.case_cong if_cong list.case_cong)+

lemma muted_result_of [simp]:
  "muted_result (E\<lparr>xe_tool := h\<rparr>) = muted_result E" "muted_result (E\<lparr>xe_threshold := n\<rparr>) = muted_result E"
  "muted_result (E\<lparr>xe_ttl := n\<rparr>) = muted_result E"
  by (intro ext; simp add: muted_result_def)+

lemma preflight_of [simp]:
  "preflight_tool_result (E\<lparr>xe_tool := h\<rparr>) = preflight_tool_result E"
  "preflight_tool_result (E\<lparr>xe_threshold := n\<rparr>) = preflight_tool_result E"
  "preflight_tool_result (E\<lparr>xe_ttl := n\<rparr>) = preflight_tool_result E"
  by (intro ext; simp add: preflight_tool_result_def cong: option.case_cong if_cong)+

lemma start_of [simp]:
  "start_run_record (E\<lparr>xe_tool := h\<rparr>) = start_run_record E" "start_run_record (E\<lparr>xe_threshold := n\<rparr>) = start_run_record E"
  "start_run_record (E\<lparr>xe_ttl := n\<rparr>) = start_run_record E"
  by (intro ext; simp add: start_run_record_def)+

lemma planned_of [simp]:
  "planned_dispatch (E\<lparr>xe_tool := h\<rparr>) = planned_dispatch E" "planned_dispatch (E\<lparr>xe_threshold := n\<rparr>) = planned_dispatch E"
  "planned_dispatch (E\<lparr>xe_ttl := n\<rparr>) = planned_dispatch E"
  by (intro ext; simp add: planned_dispatch_def active_id_def)+

lemma sync_of [simp]:
  "sync_durable_failure (E\<lparr>xe_threshold := n\<rparr>) = sync_durable_failure E" "sync_durable_failure (E\<lparr>xe_ttl := n\<rparr>) = sync_durable_failure E"
  by (intro ext; simp add: sync_durable_failure_def failure_payload_def cleared_payload_def Let_def del: json_dumps.simps
      cong: option.case_cong if_cong)+

lemma called_tool_of [simp]:
  "called_tool (E\<lparr>xe_threshold := n\<rparr>) = called_tool E" "called_tool (E\<lparr>xe_ttl := n\<rparr>) = called_tool E"
  by (intro ext; simp add: called_tool_def failed_call_def)+

lemma note_failure_of [simp]:
  "note_failure (E\<lparr>xe_threshold := n\<rparr>) = note_failure E" "note_failure (E\<lparr>xe_ttl := n\<rparr>) = note_failure E"
  by (intro ext; simp add: note_failure_def cong: if_cong)+

lemma carried_out_of [simp]:
  "carried_out (E\<lparr>xe_threshold := n\<rparr>) = carried_out E" "carried_out (E\<lparr>xe_ttl := n\<rparr>) = carried_out E"
  by (intro ext; simp add: carried_out_def)+

lemma policy_positive: "load_durable_failure_policy f = Inr (n, ttl) \<Longrightarrow> 0 < n \<and> 0 < ttl"
  by (auto simp: load_durable_failure_policy_def default_policy_def Let_def bind_res_def split: if_splits option.splits pyval.splits sum.splits prod.splits)

text \<open>C31: 
  The threshold and the time of the configuration have no effect: the policy that is asked first always has its own, three
  failures and two hours when no fact says otherwise.
\<close>

theorem configured_threshold_unused:
  "dispatch_act (E\<lparr>xe_threshold := n, xe_ttl := ttl\<rparr>) a s = dispatch_act E a s"
proof (cases "load_durable_failure_policy (w_facts (xs_world s))")
  case (Inl x)
  then show ?thesis by (cases "planned_dispatch E a") (simp_all add: dispatch_act_def)
next
  case (Inr policy)
  then have "or_configured (fst policy) x = fst policy" "or_configured (snd policy) x = snd policy" for x
    using policy_positive by (cases policy; fastforce simp: or_configured_def)+
  then show ?thesis
    by (cases "planned_dispatch E a") (simp_all add: dispatch_act_def Let_def Inr cong: option.case_cong)
qed

text \<open>A policy that is JSON but no dict makes every action raise, before anything is entered.\<close>

theorem bad_policy_stops_every_action:
  assumes "get_fact (w_facts (xs_world s)) ''control:durable_failure_policy'' = (raw, True)" "json_loads raw = Some v" "as_dict v = None"
    "strip raw \<noteq> []"
  shows "\<exists>x. dispatch_act E a s = (Inl x, s)"
proof -
  obtain x where "load_durable_failure_policy (w_facts (xs_world s)) = Inl x"
    using assms by (cases v) (simp_all add: load_durable_failure_policy_def default_policy_def Let_def)
  then show ?thesis by (cases "planned_dispatch E a") (simp_all add: dispatch_act_def)
qed

section \<open>Muted actions\<close>

lemma stamped_fields:
  "meta_defaults kvs r = Inr q \<Longrightarrow> lr_error q = lr_error r \<and> lr_summary q = lr_summary r \<and> lr_evidence q = lr_evidence r \<and> lr_skipped q = lr_skipped r"
proof (induction kvs r rule: meta_defaults.induct)
  case (2 k v kvs r)
  then show ?case by (auto simp: meta_default_def dest!: bind_res_regular split: pyval.splits)
qed simp

lemma finish_result:
  "finish E d q t = (Inr r, s') \<Longrightarrow> lr_error r = lr_error q \<and> lr_summary r = lr_summary q \<and> lr_evidence r = lr_evidence q"
  by (auto simp: finish_def finalize_run_def stamped_run_def meta_default_def Let_def dest!: then_do_regular then_do_pure bind_res_regular
      split: pyval.splits)

text \<open>The second component: no tool is called.\<close>

lemma muted_dispatch:
  assumes "muted_data (w_facts (xs_world s)) (failure_fact_key (jd_chosen_action_id a) (jd_params a)) (xe_asked E) = Some dat"
    "xe_registry E (jd_chosen_action_id a) = Some m" "dispatch_act E a s = (Inr r, s')" "tbl_ok (w_runs (xs_world s))"
  shows "lr_error r = PStr ''KnownStableFailure'' \<and> dispatch_act (E\<lparr>xe_tool := h\<rparr>) a s = (Inr r, s')"
proof -
  from assms(3) obtain d0 policy d s1 where p: "planned_dispatch E a = Inr d0"
    "load_durable_failure_policy (w_facts (xs_world s)) = Inr policy" "start_run_record E d0 a s = (Inr d, s1)"
    unfolding dispatch_act_def Let_def by (auto dest!: then_do_pure then_do_regular)
  note tool = started_tool [OF p(1,3) assms(4)]
  have facts: "w_facts (xs_world s1) = w_facts (xs_world s)" using start_run_effect [OF p(3) assms(4)] by blast
  obtain q where pre: "preflight_tool_result E a d s1 = Inr (Some q)" "lr_error q = PStr ''KnownStableFailure''"
  proof -
    have "\<exists>q. stamp_metadata d (muted_result E (xd_tool d) dat) = Inr q"
      by (simp add: stamp_metadata_def muted_result_def skipped_error_def fresh_result_def meta_default_def bind_res_def)
    then obtain q where q: "stamp_metadata d (muted_result E (xd_tool d) dat) = Inr q" by blast
    then have "lr_error q = PStr ''KnownStableFailure''"
      unfolding stamp_metadata_def by (drule_tac stamped_fields) (simp add: muted_result_def skipped_error_def)
    then show thesis using q that assms(1) by (simp add: preflight_tool_result_def tool facts)
  qed
  have run: "dispatch_act F a s = finish F d q s1"
    if "F = E \<or> F = E\<lparr>xe_tool := h\<rparr>" for F
    using that p pre(1) assms(2) tool by (auto simp: dispatch_act_def Let_def)
  then show ?thesis using finish_result pre(2) assms(3) by auto
qed

text \<open>What the sync of a counted failure stores, and how the mute is read from it.\<close>

lemma failure_payload_muted:
  assumes "n \<le> c" "0 < snd (xe_told E)" "0 < snd (xe_seen E)" "until = fst (xe_told E) + ttl * 10 ^ snd (xe_told E)" "0 < until"
    "fst now * 10 ^ snd (xe_told E) < until * 10 ^ snd now"
  shows "\<exists>dat. muted_data (set_fact at' key (json_dumps False (PDict (failure_payload E tool k reason c n ttl summary))) sc f) key now = Some dat"
proof -
  let ?p = "failure_payload E tool k reason c n ttl summary"
  let ?raw = "fact_value (build_fact_upsert at' (json_dumps False (PDict ?p)) sc)"
  have "distinct (map fst ?p)" "length ?p \<le> 80"
    by (simp_all add: failure_payload_def durable_failure_summary_fields_def)
  moreover have "\<forall>kv \<in> set ?p. plain_value (snd kv)"
    using assms(2,3) by (auto simp: failure_payload_def durable_failure_summary_fields_def clock_value_def)
  ultimately obtain d where d: "json_loads ?raw = Some (PDict d)" "\<And>k. map_of d k = map_option shortened_value (map_of ?p k)"
    using stored_payload [of ?p at' sc] by blast
  have until: "dict_get d ''muted_until'' = PFloat until (snd (xe_told E))"
    using assms(1,4) by (simp add: dict_get_def d(2) failure_payload_def)
  have "json_loads [] = None" by code_simp
  then have "?raw \<noteq> []" using d(1) by auto
  then show ?thesis
    using assms(5,6) d(1) until
    by (simp add: muted_data_def get_fact_def set_fact_def update_conv' py_or_def del: json_dumps.simps)
qed

lemma counted_failure:
  assumes "sync_durable_failure E a tool n ttl r s = (Inr (), s')" "truthy (lr_error r)"
    "classify_durable_failure (xe_say E) r = Some reason" "params_after tool (jd_params a) = jd_params a"
    "previous_count (get_fact (w_facts (xs_world s)) (failure_fact_key tool (jd_params a))) reason = Inr c"
  shows "w_facts (xs_world s') = set_fact (e_now_sql (xe_env E)) (failure_fact_key tool (jd_params a)) (json_dumps False (PDict
    (failure_payload E tool (action_key_param (jd_params a)) reason (c + 1) n ttl (str_or_empty (lr_summary r))))) ''system''
    (w_facts (xs_world s))"
proof -
  let ?k = "failure_fact_key tool (jd_params a)"
  let ?v = "json_dumps False (PDict (failure_payload E tool (action_key_param (jd_params a)) reason (c + 1) n ttl (str_or_empty (lr_summary r))))"
  obtain l where "with_world (submit_fact (xe_env E) ?k (PStr ?v) ''system'' ''execution/failure_track'' 0
      (action_basis a (''durable failure tracked for '' @ tool))) s =
     (Inr True, s\<lparr>xs_world := (xs_world s)\<lparr>w_facts := set_fact (e_now_sql (xe_env E)) ?k ?v ''system'' (w_facts (xs_world s)), w_ledger := l\<rparr>\<rparr>)"
    using submit_fact_on by blast
  then have "s' = s\<lparr>xs_world := (xs_world s)\<lparr>w_facts := set_fact (e_now_sql (xe_env E)) ?k ?v ''system'' (w_facts (xs_world s)), w_ledger := l\<rparr>\<rparr>"
    using assms by (simp add: sync_durable_failure_def Let_def del: json_dumps.simps)
  then show ?thesis by simp
qed

lemma counted_failure_total:
  assumes "truthy (lr_error r)" "classify_durable_failure (xe_say E) r = Some reason" "params_after tool (jd_params a) = jd_params a"
    "previous_count (get_fact (w_facts (xs_world s)) (failure_fact_key tool (jd_params a))) reason = Inr c"
  shows "\<exists>s'. sync_durable_failure E a tool n ttl r s = (Inr (), s')"
proof -
  let ?k = "failure_fact_key tool (jd_params a)"
  let ?v = "json_dumps False (PDict (failure_payload E tool (action_key_param (jd_params a)) reason (c + 1) n ttl (str_or_empty (lr_summary r))))"
  obtain t where "with_world (submit_fact (xe_env E) ?k (PStr ?v) ''system'' ''execution/failure_track'' 0
      (action_basis a (''durable failure tracked for '' @ tool))) s = (Inr True, t)"
    using submit_fact_on by blast
  then show ?thesis using assms by (simp add: sync_durable_failure_def Let_def del: json_dumps.simps)
qed

lemma classify_same:
  "lr_error q = lr_error r \<Longrightarrow> lr_summary q = lr_summary r \<Longrightarrow> lr_evidence q = lr_evidence r \<Longrightarrow>
   classify_durable_failure say q = classify_durable_failure say r"
  by (simp add: classify_durable_failure_def failure_text_def)

text \<open>The action was neither muted nor stopped: its tool was called, and the facts are those the sync wrote.\<close>

lemma failure_was_counted:
  assumes "dispatch_act E a s = (Inr r, s')" "tbl_ok (w_runs (xs_world s))" "tool = jd_chosen_action_id a"
    "xe_registry E tool = Some m" "muted_data (w_facts (xs_world s)) (failure_fact_key tool (jd_params a)) (xe_asked E) = None"
    "plan_mismatch E tool = Inr None" "params_after tool (jd_params a) = jd_params a"
    "\<And>p t. w_facts (xs_world (snd (xe_tool E tool p t))) = w_facts (xs_world t)"
    "load_durable_failure_policy (w_facts (xs_world s)) = Inr (n, ttl)" "truthy (lr_error r)"
    "classify_durable_failure (xe_say E) r = Some reason"
    "previous_count (get_fact (w_facts (xs_world s)) (failure_fact_key tool (jd_params a))) reason = Inr c"
  shows "w_facts (xs_world s') = set_fact (e_now_sql (xe_env E)) (failure_fact_key tool (jd_params a)) (json_dumps False (PDict
    (failure_payload E tool (action_key_param (jd_params a)) reason (c + 1) n ttl (str_or_empty (lr_summary r))))) ''system''
    (w_facts (xs_world s))"
proof -
  from assms(1) obtain d0 d t1 where p: "planned_dispatch E a = Inr d0" "start_run_record E d0 a s = (Inr d, t1)"
    unfolding dispatch_act_def Let_def by (auto dest!: then_do_pure then_do_regular)
  note tl = started_tool [OF p assms(2), folded assms(3)]
  have facts1: "w_facts (xs_world t1) = w_facts (xs_world s)" using start_run_effect [OF p(2) assms(2)] by blast
  have "preflight_tool_result E a d t1 = Inr None"
    using assms(5,6) by (simp add: preflight_tool_result_def tl facts1)
  moreover have "or_configured n x = n" "or_configured ttl x = ttl" for x
    using policy_positive [OF assms(9)] by (simp_all add: or_configured_def)
  ultimately have "carried_out E a d m n ttl t1 = (Inr r, s')"
    using assms(1,4,9) p tl by (simp add: dispatch_act_def Let_def)
  then obtain q t2 t3 where c: "called_tool E a d m t1 = (Inr q, t2)"
      "sync_durable_failure E a tool n ttl q (note_failure E d q t2) = (Inr (), t3)" "finish E d q t3 = (Inr r, s')"
    by (auto simp: carried_out_def tl dest!: then_do_regular)
  have "w_facts (xs_world t2) = w_facts (xs_world s)"
    using called_tool_facts [of E d a m t1] c(1) facts1 assms(8) tl by simp
  then have facts2: "w_facts (xs_world (note_failure E d q t2)) = w_facts (xs_world s)" by (simp add: note_failure_def)
  note same = finish_result [OF c(3)]
  have "w_facts (xs_world s') = w_facts (xs_world t3)"
    using arg_cong [OF c(3), of "\<lambda>x. w_facts (xs_world (snd x))"] by (simp add: finish_def finalize_run_facts)
  also have "\<dots> = set_fact (e_now_sql (xe_env E)) (failure_fact_key tool (jd_params a)) (json_dumps False (PDict
    (failure_payload E tool (action_key_param (jd_params a)) reason (c + 1) n ttl (str_or_empty (lr_summary q))))) ''system''
    (w_facts (xs_world s))"
    using counted_failure [OF c(2)] same assms(7,10-12) classify_same [of q r] facts2 by (metis (no_types, lifting))
  finally show ?thesis using same by (simp del: json_dumps.simps)
qed

section \<open>Several actions at a time\<close>

definition terminal :: "judgment_output \<Rightarrow> bool" where
  "terminal b \<longleftrightarrow> jd_chosen_action_id b \<in> set terminal_task_actions"

text \<open>C30: 
  An action that ends a task is never carried out together with others: what is carried out is a single action, or there
  is no such action in it. Two ways of carrying out that agree there cannot be told apart.
\<close>

theorem batch_never_ends_a_task:
  assumes "\<And>subs s. length subs = 1 \<or> (\<forall>b \<in> set subs. \<not> terminal b) \<Longrightarrow> run_all subs s = run_all' subs s"
  shows "dispatch_parallel say run_all a s = dispatch_parallel say run_all' a s"
proof -
  have rest: "run_all (filter (\<lambda>b. \<not> terminal b) subs) s = run_all' (filter (\<lambda>b. \<not> terminal b) subs) s" for subs s
    by (rule assms) simp
  have all: "run_all subs s = run_all' subs s" if "filter terminal subs = []" for subs s
    by (rule assms) (use that in \<open>simp add: filter_empty_conv\<close>)
  have one: "run_all subs s = run_all' subs s" if "\<not> Suc 0 < length subs" "subs \<noteq> []" for subs s
    by (rule assms) (use that in \<open>cases subs; simp\<close>)
  show ?thesis
    by (cases "sub_actions (jd_rationale a) (jd_parallel_actions a)")
      (auto simp: dispatch_parallel_def Let_def terminal_def [symmetric] rest all one)
qed

text \<open>
  A batch of one action that ends a task: it is carried out, and the result tells the model that it was put off.
\<close>

theorem single_terminal_told_deferred:
  assumes "sub_actions (jd_rationale a) (jd_parallel_actions a) = Inr [b]" "terminal b" "run_all [b] s = (Inr [q], s')"
  shows "\<exists>r. dispatch_parallel say run_all a s = (Inr r, s') \<and>
    dict_get (delta r) ''deferred_terminal_actions'' = PList [PStr (jd_chosen_action_id b)]"
  using assms
  by (simp add: dispatch_parallel_def Let_def terminal_def merged_results_def names_value_def delta_def dict_get_def bind_res_def)

section \<open>Gaps\<close>

text \<open>An unknown tool is refused without being counted: it is never muted, however often it is asked for.\<close>

theorem unknown_tool_is_not_counted:
  assumes "xe_registry E (jd_chosen_action_id a) = None" "tbl_ok (w_runs (xs_world s))"
  shows "w_facts (xs_world (snd (dispatch_act E a s))) = w_facts (xs_world s)"
proof -
  define P where "P t \<longleftrightarrow> w_facts (xs_world t) = w_facts (xs_world s)" for t :: exec_st
  have start: "P (snd (start_run_record E d0 a s))" for d0
    by (simp add: start_run_record_def then_do_def with_world_def kept_by_run_ops record_event_def P_def case_prod_beta split: sum.split)
  have fin: "P t \<Longrightarrow> P (snd (finish E d q t))" for d q t
    by (simp add: P_def finish_def finalize_run_facts)
  have "P (snd (dispatch_act E a s))"
  proof (cases "planned_dispatch E a")
    case (Inr d0)
    note tool = started_tool [OF Inr _ assms(2)]
    have "P (snd (then_do (start_run_record E d0 a s) (\<lambda>d s. case xe_registry E (xd_tool d) of
       None \<Rightarrow> then_do (stamp_metadata d (skipped_error (xe_say E ''tool_not_found'' [str_repr (xd_tool d)]) ''ToolNotFound''), s) (finish E d)
     | Some m \<Rightarrow> f d m s)))" for f
    proof (rule then_do_keeps [where P = P, OF start])
      fix d t assume d: "start_run_record E d0 a s = (Inr d, t)" "P t"
      have "P (snd (then_do (stamp_metadata d (skipped_error (xe_say E ''tool_not_found'' [str_repr (xd_tool d)]) ''ToolNotFound''), t) (finish E d)))"
        by (rule then_do_keeps [where P = P]) (use d(2) fin in auto)
      then show "P (snd (case xe_registry E (xd_tool d) of
         None \<Rightarrow> then_do (stamp_metadata d (skipped_error (xe_say E ''tool_not_found'' [str_repr (xd_tool d)]) ''ToolNotFound''), t) (finish E d)
       | Some m \<Rightarrow> f d m t))" by (simp add: tool [OF d(1)] assms(1))
    qed
    then show ?thesis
      by (cases "load_durable_failure_policy (w_facts (xs_world s))") (simp_all add: dispatch_act_def Inr Let_def P_def)
  qed (simp add: dispatch_act_def P_def)
  then show ?thesis by (simp add: P_def)
qed

text \<open>
  A plan with a step that is no dict makes a changing action raise after its run was entered: the run stays as running.
\<close>

theorem broken_plan_leaves_run_running:
  assumes "xe_active E = Some k" "dict_get (t_extras k) ''plan'' = PList (v # vs)" "as_dict v = None"
    "is_mutation (jd_chosen_action_id a)" "xe_registry E (jd_chosen_action_id a) = Some m"
    "muted_data (w_facts (xs_world s)) (failure_fact_key (jd_chosen_action_id a) (jd_params a)) (xe_asked E) = None"
    "planned_dispatch E a = Inr d0" "load_durable_failure_policy (w_facts (xs_world s)) = Inr policy"
    "start_run_record E d0 a s = (Inr d, s1)" "tbl_ok (w_runs (xs_world s))"
  shows "\<exists>x row. dispatch_act E a s = (Inl x, s1) \<and> tbl_get (w_runs (xs_world s)) (xd_run_id d) = None \<and>
    tbl_get (w_runs (xs_world s1)) (xd_run_id d) = Some row \<and> rrow_status row = ''running''"
proof -
  note tool = started_tool [OF assms(7,9,10)]
  obtain x where "steps_in_progress (v # vs) = Inl x" using assms(3) by (cases v) auto
  then have "plan_mismatch E (jd_chosen_action_id a) = Inl x"
    using assms(1,2,4) by (simp add: plan_mismatch_def py_list_def)
  then have "preflight_tool_result E a d s1 = Inl x"
    using assms(6) start_run_effect [OF assms(9,10)] by (simp add: preflight_tool_result_def tool)
  then have "dispatch_act E a s = (Inl x, s1)"
    by (simp add: dispatch_act_def assms(5,7,8,9) tool Let_def)
  then show ?thesis using start_run_effect [OF assms(9,10)] by blast
qed

end
