(* ===== verification/Exec_Contract.thy ===== *)
theory Exec_Contract
  imports Exec_Promises
begin

text \<open>
  The main promise of the execution layer, and the properties of \<open>Exec_Promises\<close> on a small instance: a tool that always
  raises, an action that calls it, and a store without any row.
\<close>

section \<open>A failure that keeps coming back\<close>

text \<open>C26: 
  When an action fails in a known way as often as the policy allows, the same action is not carried out again before the
  time of the policy is over: its result says so, and no tool is called. This holds for tools that leave the facts alone.
\<close>

theorem stable_failure_is_muted:
  assumes "dispatch_act E a s = (Inr r, s1)" "tbl_ok (w_runs (xs_world s))" "tool = jd_chosen_action_id a"
    "xe_registry E tool = Some m" "muted_data (w_facts (xs_world s)) (failure_fact_key tool (jd_params a)) (xe_asked E) = None"
    "plan_mismatch E tool = Inr None" "params_after tool (jd_params a) = jd_params a"
    "\<And>p t. w_facts (xs_world (snd (xe_tool E tool p t))) = w_facts (xs_world t)"
    "load_durable_failure_policy (w_facts (xs_world s)) = Inr (n, ttl)" "truthy (lr_error r)"
    "classify_durable_failure (xe_say E) r = Some reason"
    "previous_count (get_fact (w_facts (xs_world s)) (failure_fact_key tool (jd_params a))) reason = Inr c" "n \<le> c + 1"
    "0 < snd (xe_told E)" "0 < snd (xe_seen E)" "0 \<le> fst (xe_told E)"
    "dispatch_act F a s1 = (Inr r', s2)" "xe_registry F tool = Some m'" "tbl_ok (w_runs (xs_world s1))"
    "fst (xe_asked F) * 10 ^ snd (xe_told E) < (fst (xe_told E) + ttl * 10 ^ snd (xe_told E)) * 10 ^ snd (xe_asked F)"
  shows "lr_error r' = PStr ''KnownStableFailure'' \<and> dispatch_act (F\<lparr>xe_tool := h\<rparr>) a s1 = (Inr r', s2)"
proof -
  have "0 < fst (xe_told E) + ttl * 10 ^ snd (xe_told E)"
    using policy_positive [OF assms(9)] assms(16) by (simp add: add_nonneg_pos)
  then obtain dat where "muted_data (w_facts (xs_world s1)) (failure_fact_key tool (jd_params a)) (xe_asked F) = Some dat"
    using failure_payload_muted [OF assms(13-15) refl _ assms(20)] failure_was_counted [OF assms(1-12)] by metis
  then show ?thesis
    using muted_dispatch [of s1 a F dat m' r' s2 h] assms(3,17-19) by simp
qed

section \<open>Dispatches that return\<close>

lemma start_run_total:
  assumes "tbl_ok (w_runs (xs_world s))"
  shows "\<exists>i w. start_run_record E d0 a s = (Inr (d0\<lparr>xd_run_id := i\<rparr>), s\<lparr>xs_world := w, xs_events := xs_events s @ [(''run_started'',
      [(''run_id'', PInt i), (''task_id'', PInt (xd_task_id d0)), (''tool_name'', PStr (xd_tool d0)), (''run_type'', PStr (xd_run_type d0)),
       (''worker_type'', PStr (xd_worker d0)), (''model_tier'', PStr (xd_tier d0))])]\<rparr>) \<and>
    w_facts w = w_facts (xs_world s) \<and> tbl_ok (w_runs w)"
proof -
  define args where "args = run_args_default\<lparr>ra_task_id := xd_task_id d0, ra_run_type := xd_run_type d0, ra_worker_type := xd_worker d0,
          ra_status := ''running'', ra_input_json := [(''decision'', PStr (jd_decision a)), (''tool'', PStr (xd_tool d0)),
            (''params'', PDict (jd_params a))], ra_tool_name := xd_tool d0, ra_model_tier := xd_tier d0\<rparr>"
  obtain l a' where "submit_add_run (xe_env E) args ''execution/layer/_dispatch_act'' 0 (action_basis a []) (xs_world s) =
      (Inr (fst (add_run (e_now_iso (xe_env E)) a' (w_runs (xs_world s)))),
       (xs_world s)\<lparr>w_runs := snd (add_run (e_now_iso (xe_env E)) a' (w_runs (xs_world s))), w_ledger := l\<rparr>)"
    using submit_add_run_effect [of "xe_env E" args] by metis
  then show ?thesis
    using tb.ok_ins [OF assms]
    by (intro exI [of _ "fst (add_run (e_now_iso (xe_env E)) a' (w_runs (xs_world s)))"]
        exI [of _ "(xs_world s)\<lparr>w_runs := snd (add_run (e_now_iso (xe_env E)) a' (w_runs (xs_world s))), w_ledger := l\<rparr>"])
      (simp add: start_run_record_def args_def [symmetric] with_world_def record_event_def add_run_def)
qed

text \<open>A result with the lists and dicts it should have, for no task.\<close>

lemma finish_total:
  assumes "lr_artifact_paths q = PList ps" "lr_state_delta q = PDict dd" "lr_metadata q = PDict md" "xd_task_id d = 0"
    "dict_get md ''tool_name'' = PStr tool" "tool \<noteq> []" "tool \<notin> set target_task_tools" "tbl_ok (w_runs (xs_world t))"
  shows "\<exists>r s'. finish E d q t = (Inr r, s') \<and> tbl_ok (w_runs (xs_world s'))"
proof -
  obtain r where r: "stamped_run (xd_run_id d) q = Inr r" "lr_artifact_paths r = PList ps"
      "lr_state_delta r = PDict (setdefault ''run_id'' (PInt (xd_run_id d)) dd)"
      "lr_metadata r = PDict (setdefault ''run_id'' (PInt (xd_run_id d)) md)"
    using assms(1-3) by (simp add: stamped_run_def meta_default_def)
  have "dict_get (setdefault ''run_id'' v md) ''tool_name'' = PStr tool" for v
    using assms(5) by (auto simp: setdefault_def dict_get_def map_add_def split: option.splits)
  then have name: "meta_field_text r ''tool_name'' = tool"
    using assms(6) by (simp add: meta_field_text_def meta_def r(4) str_or_empty_def py_or_def)
  then have none: "resolved_run_task_id r 0 = 0" using assms(7) by (simp add: resolved_run_task_id_def Let_def)
  define oc where "oc = outcome_of (xd_run_id d) 0 r"
  obtain dct where dct: "result_to_dict r = Inr dct" by (simp add: result_to_dict_def py_list_def r(2-4))
  obtain l pf src b where "told_run E oc r t = with_world (submit_update_run (xe_env E) (oc_run_id oc) (run_patch_of oc r dct) src 0 b) t"
    by (simp add: told_run_def dct run_patch_of_def)
  moreover obtain l pf where "submit_update_run (xe_env E) (oc_run_id oc) (run_patch_of oc r dct) src 0 b (xs_world t) =
      (Inr (), (xs_world t)\<lparr>w_runs := update_run (e_now_iso (xe_env E)) (oc_run_id oc) pf (w_runs (xs_world t)), w_ledger := l\<rparr>)"
    using submit_update_run_effect by blast
  ultimately obtain t1 where t1: "told_run E oc r t = (Inr (), t1)" "tbl_ok (w_runs (xs_world t1))"
    using assms(8) by (simp add: with_world_def)
  have "told_task E oc r t' = (Inr (), t')" for t' by (simp add: told_task_def oc_def outcome_of_def)
  then show ?thesis
    using t1 by (simp add: finish_def finalize_run_def r(1) none assms(4) Let_def oc_def [symmetric])
qed

section \<open>The instance\<close>

definition demo_fault :: exn where
  "demo_fault = Exn ''OSError'' ''no such file or directory''"

definition demo_exec :: exec_env where
  "demo_exec = \<lparr>xe_env = demo_env, xe_say = (\<lambda>k args. k),
     xe_registry = (\<lambda>t. if t = ''x.do'' then Some \<lparr>tm_name = t, tm_params = [], tm_prefer_tier = [], tm_progress_category = [],
       tm_capabilities = []\<rparr> else None),
     xe_tool = (\<lambda>t p s. (Inl demo_fault, s)), xe_active = None, xe_loop = (\<lambda>k. PNone), xe_routing = [], xe_threshold = 3, xe_ttl = 7200,
     xe_failure_affect = ((7, 1), (3, 1)), xe_asked = (50, 1), xe_seen = (60, 1), xe_told = (60, 1),
     xe_slot = \<lparr>sl_wait_ms = 0, sl_waiting = 0, sl_inflight = 1, sl_peak = 1\<rparr>, xe_ms = 5, xe_reflection = ''1''\<rparr>"

definition demo_policy :: string where
  "demo_policy = json_dumps False (PDict [(''threshold'', PInt 1)])"

definition demo_exec_st :: exec_st where
  "demo_exec_st = \<lparr>xs_world = empty_world\<lparr>w_facts := [(''control:durable_failure_policy'',
       \<lparr>fact_value = demo_policy, fact_scope = ''system'', fact_updated_at = []\<rparr>)]\<rparr>,
     xs_failures = empty_tbl, xs_reflections = [], xs_events = [], xs_wm = new_wm 10 1000 100\<rparr>"

definition demo_do :: judgment_output where
  "demo_do = blank_judgment\<lparr>jd_decision := ''act'', jd_chosen_action_id := ''x.do''\<rparr>"

lemma demo_call:
  "xd_tool d = ''x.do'' \<Longrightarrow> xd_worker d = ''tool-chain-worker'' \<Longrightarrow> xe_registry demo_exec ''x.do'' = Some m \<Longrightarrow>
   \<exists>q md. called_tool demo_exec demo_do d m t = (Inr q, t) \<and> lr_error q = PStr ''no such file or directory'' \<and>
     lr_summary q = PStr ''tool_raised'' \<and> lr_evidence q = PStr ''no such file or directory'' \<and>
     lr_artifact_paths q = PList [] \<and> lr_state_delta q = PDict [] \<and> lr_metadata q = PDict md \<and> dict_get md ''tool_name'' = PStr ''x.do''"
  by (auto simp: called_tool_def worker_dispatch_def execute_on_def call_tool_and_tag_path_def call_handler_def Let_def
      validate_required_params_def missing_params_def demo_exec_def demo_do_def demo_fault_def failed_call_def fresh_result_def
      stamp_metadata_def meta_default_def setdefault_def normalize_text_fields_def coerce_result_text_def dict_get_def)

lemma demo_planned: "\<exists>d0. planned_dispatch demo_exec demo_do = Inr d0 \<and> xd_tool d0 = ''x.do'' \<and> xd_worker d0 = ''tool-chain-worker'' \<and> xd_task_id d0 = 0"
  by (simp add: planned_dispatch_def demo_exec_def demo_do_def blank_judgment_def resolve_execution_dispatch_def infer_run_profile_def
      infer_by_name_def has_monitor_signal_def infer_by_capability_def registry_caps_def planned_run_task_id_def positive_task_id_def
      active_id_def dict_get_def py_or_def target_task_tools_def)

lemma stamped_metadata:
  assumes "lr_metadata r = PDict []"
  shows "\<exists>q md. stamp_metadata d r = Inr q \<and> lr_metadata q = PDict md \<and> dict_get md ''tool_name'' = PStr (xd_tool d) \<and>
    lr_artifact_paths q = lr_artifact_paths r \<and> lr_state_delta q = lr_state_delta r"
  using assms by (simp add: stamp_metadata_def meta_default_def setdefault_def dict_get_def)

lemma muted_dispatch_total:
  assumes "planned_dispatch E a = Inr d0" "xd_tool d0 \<noteq> []" "xd_tool d0 \<notin> set target_task_tools" "xd_task_id d0 = 0"
    "load_durable_failure_policy (w_facts (xs_world s)) = Inr policy" "xe_registry E (xd_tool d0) = Some m"
    "muted_data (w_facts (xs_world s)) (failure_fact_key (xd_tool d0) (jd_params a)) (xe_asked E) = Some dat"
    "tbl_ok (w_runs (xs_world s))"
  shows "\<exists>r s'. dispatch_act E a s = (Inr r, s')"
proof -
  obtain i w ev where st: "start_run_record E d0 a s = (Inr (d0\<lparr>xd_run_id := i\<rparr>), s\<lparr>xs_world := w, xs_events := ev\<rparr>)"
      "w_facts w = w_facts (xs_world s)" "tbl_ok (w_runs w)"
    using start_run_total [OF assms(8), of E d0 a] by blast
  define d where "d = d0\<lparr>xd_run_id := i\<rparr>"
  have "lr_metadata (muted_result E (xd_tool d) dat) = PDict []" by (simp add: muted_result_def skipped_error_def fresh_result_def)
  then obtain q md where q: "stamp_metadata d (muted_result E (xd_tool d) dat) = Inr q" "lr_metadata q = PDict md"
      "dict_get md ''tool_name'' = PStr (xd_tool d)" "lr_artifact_paths q = PList []" "lr_state_delta q = PDict []"
    using stamped_metadata [of "muted_result E (xd_tool d) dat" d] by (auto simp: muted_result_def skipped_error_def fresh_result_def)
  obtain r s' where "finish E d q (s\<lparr>xs_world := w, xs_events := ev\<rparr>) = (Inr r, s')"
    using finish_total [OF q(4,5,2) _ q(3), where t = "s\<lparr>xs_world := w, xs_events := ev\<rparr>" and d = d and E = E] assms(2-4) st(3)
    by (auto simp: d_def)
  moreover have "preflight_tool_result E a d (s\<lparr>xs_world := w, xs_events := ev\<rparr>) = Inr (Some q)"
    using assms(7) q(1) by (simp add: preflight_tool_result_def st(2) d_def)
  ultimately show ?thesis using st(1) assms(1,5,6) by (simp add: dispatch_act_def Let_def d_def)
qed

lemma demo_policy_loaded: "load_durable_failure_policy (w_facts (xs_world demo_exec_st)) = Inr (1, 7200)"
proof -
  have "json_loads demo_policy = Some (PDict [(''threshold'', PInt 1)])" unfolding demo_policy_def by (rule json_round_trip) simp
  moreover have "strip demo_policy \<noteq> []" by code_simp
  ultimately show ?thesis
    by (simp add: load_durable_failure_policy_def demo_exec_st_def get_fact_def default_policy_def dict_get_def py_or_def)
qed

lemma demo_key: "failure_fact_key tool p \<noteq> ''control:durable_failure_policy''"
  by (simp add: failure_fact_key_def)

lemma demo_facts: "get_fact (w_facts (xs_world demo_exec_st)) (failure_fact_key tool p) = ([], False)"
  using demo_key [of tool p] by (auto simp: demo_exec_st_def get_fact_def)

lemma demo_tables: "tbl_ok (w_runs (xs_world demo_exec_st))"
  by (simp add: demo_exec_st_def empty_world_def)

lemma demo_unmuted: "muted_data (w_facts (xs_world demo_exec_st)) (failure_fact_key tool p) now = None"
  by (simp add: muted_data_def demo_facts)

lemma demo_first:
  "\<exists>r s1. dispatch_act demo_exec demo_do demo_exec_st = (Inr r, s1) \<and> lr_error r = PStr ''no such file or directory'' \<and>
     classify_durable_failure (xe_say demo_exec) r = Some ''missing_path'' \<and> tbl_ok (w_runs (xs_world s1))"
proof -
  obtain d0 where d0: "planned_dispatch demo_exec demo_do = Inr d0" "xd_tool d0 = ''x.do''" "xd_worker d0 = ''tool-chain-worker''" "xd_task_id d0 = 0"
    using demo_planned by blast
  obtain i w ev where st: "start_run_record demo_exec d0 demo_do demo_exec_st =
      (Inr (d0\<lparr>xd_run_id := i\<rparr>), demo_exec_st\<lparr>xs_world := w, xs_events := ev\<rparr>)"
      "w_facts w = w_facts (xs_world demo_exec_st)" "tbl_ok (w_runs w)"
    using start_run_total [OF demo_tables, of demo_exec d0 demo_do] by blast
  define d where "d = d0\<lparr>xd_run_id := i\<rparr>"
  define t where "t = demo_exec_st\<lparr>xs_world := w, xs_events := ev\<rparr>"
  obtain m where m: "xe_registry demo_exec ''x.do'' = Some m" by (simp add: demo_exec_def)
  have dt: "xd_tool d = ''x.do''" "xd_worker d = ''tool-chain-worker''" "xd_task_id d = 0" using d0 by (simp_all add: d_def)
  obtain q md where q: "called_tool demo_exec demo_do d m t = (Inr q, t)" "lr_error q = PStr ''no such file or directory''"
      "lr_summary q = PStr ''tool_raised''" "lr_evidence q = PStr ''no such file or directory''" "lr_artifact_paths q = PList []"
      "lr_state_delta q = PDict []" "lr_metadata q = PDict md" "dict_get md ''tool_name'' = PStr ''x.do''"
    using demo_call [OF dt(1,2) m] by blast
  have cl: "classify_durable_failure (xe_say demo_exec) q = Some ''missing_path''"
  proof -
    have "failure_text q = lower (''tool_raised'' @ [char_of (10::nat)] @ ''no such file or directory'' @ [char_of (10::nat)] @ ''no such file or directory'')"
      by (simp add: failure_text_def q(2-4) coerce_result_text_def py_or_def)
    moreover have "contains (lower (''tool_raised'' @ [char_of (10::nat)] @ ''no such file or directory'' @ [char_of (10::nat)] @
        ''no such file or directory'')) ''no such file or directory''" by code_simp
    ultimately show ?thesis by (simp add: classify_durable_failure_def durable_patterns_def)
  qed
  have same: "params_after ''x.do'' (jd_params demo_do) = jd_params demo_do"
    by (simp add: params_after_def repair_task_workbench_params_def)
  have pre: "preflight_tool_result demo_exec demo_do d t = Inr None"
    using demo_unmuted by (simp add: preflight_tool_result_def t_def st(2) plan_mismatch_def) (simp add: demo_exec_def)
  have "previous_count (get_fact (w_facts (xs_world (note_failure demo_exec d q t))) (failure_fact_key ''x.do'' (jd_params demo_do))) ''missing_path'' = Inr 0"
    using demo_facts by (simp add: note_failure_def t_def st(2) previous_count_def dict_get_def)
  then obtain t3 where t3: "sync_durable_failure demo_exec demo_do (xd_tool d) 1 7200 q (note_failure demo_exec d q t) = (Inr (), t3)"
    using counted_failure_total [OF _ cl] q(2) same dt(1) by fastforce
  have "tbl_ok (w_runs (xs_world t3))"
    using sync_effect [of demo_exec demo_do "xd_tool d" 1 7200 q "note_failure demo_exec d q t"] t3 st(3)
    by (auto simp: note_failure_def t_def)
  then obtain r s1 where fin: "finish demo_exec d q t3 = (Inr r, s1)" "tbl_ok (w_runs (xs_world s1))"
    using finish_total [OF q(5-7) dt(3) q(8), where t = t3 and E = demo_exec] by (auto simp: target_task_tools_def)
  have "dispatch_act demo_exec demo_do demo_exec_st = (Inr r, s1)"
    using d0(1) demo_policy_loaded st(1) m pre q(1) t3 fin(1)
    by (simp add: dispatch_act_def Let_def d_def [symmetric] t_def [symmetric] dt carried_out_def or_configured_def)
  then show ?thesis using fin finish_result [OF fin(1)] q(2) cl classify_same by metis
qed

section \<open>The properties on the instance\<close>

lemma demo_tool_plain: "w_facts (xs_world (snd (xe_tool demo_exec tool p t))) = w_facts (xs_world t)"
  by (simp add: demo_exec_def)

lemma demo_second:
  assumes "dispatch_act demo_exec demo_do demo_exec_st = (Inr r, s1)" "lr_error r = PStr ''no such file or directory''"
    "classify_durable_failure (xe_say demo_exec) r = Some ''missing_path''" "tbl_ok (w_runs (xs_world s1))"
  shows "\<exists>r' s2. dispatch_act (demo_exec\<lparr>xe_asked := (70, 1)\<rparr>) demo_do s1 = (Inr r', s2)"
proof -
  let ?F = "demo_exec\<lparr>xe_asked := (70, 1)\<rparr>"
  obtain m where m: "xe_registry demo_exec ''x.do'' = Some m" by (simp add: demo_exec_def)
  have facts: "\<exists>p. w_facts (xs_world s1) = set_fact (e_now_sql (xe_env demo_exec)) (failure_fact_key ''x.do'' (jd_params demo_do))
      (json_dumps False (PDict (failure_payload demo_exec ''x.do'' (action_key_param (jd_params demo_do)) ''missing_path'' 1 1 7200 p))) ''system''
      (w_facts (xs_world demo_exec_st))"
  proof -
    have tl: "''x.do'' = jd_chosen_action_id demo_do" by (simp add: demo_do_def)
    have plan: "plan_mismatch demo_exec ''x.do'' = Inr None" by (simp add: plan_mismatch_def demo_exec_def)
    have same: "params_after ''x.do'' (jd_params demo_do) = jd_params demo_do" by (simp add: params_after_def repair_task_workbench_params_def)
    have t: "truthy (lr_error r)" by (simp add: assms(2))
    have c: "previous_count (get_fact (w_facts (xs_world demo_exec_st)) (failure_fact_key ''x.do'' (jd_params demo_do))) ''missing_path'' = Inr 0"
      by (simp add: demo_facts previous_count_def dict_get_def)
    show ?thesis
      using failure_was_counted [OF assms(1) demo_tables tl m demo_unmuted plan same demo_tool_plain demo_policy_loaded t assms(3) c]
      by (metis add_0)
  qed
  then obtain dat where dat: "muted_data (w_facts (xs_world s1)) (failure_fact_key ''x.do'' (jd_params demo_do)) (70, 1) = Some dat"
    using failure_payload_muted [of 1 1 demo_exec _ 7200 "(70, 1)"] by (fastforce simp: demo_exec_def)
  have "get_fact (w_facts (xs_world s1)) ''control:durable_failure_policy'' = get_fact (w_facts (xs_world demo_exec_st)) ''control:durable_failure_policy''"
    using facts demo_key [of "''x.do''" "jd_params demo_do"]
    by (auto simp: get_fact_def set_fact_def update_conv' simp del: json_dumps.simps dest: sym)
  then have policy: "load_durable_failure_policy (w_facts (xs_world s1)) = Inr (1, 7200)"
    using demo_policy_loaded by (simp add: load_durable_failure_policy_def)
  obtain d0 where d0: "planned_dispatch demo_exec demo_do = Inr d0" "xd_tool d0 = ''x.do''" "xd_task_id d0 = 0"
    using demo_planned by blast
  have "planned_dispatch ?F demo_do = Inr d0" using d0(1) by (simp add: planned_dispatch_def active_id_def)
  then show ?thesis
    by (rule muted_dispatch_total) (use d0 policy dat m assms(4) in \<open>simp_all add: target_task_tools_def\<close>)
qed

theorem stable_failure_is_muted_witness:
  "\<exists>r s1 r' s2. dispatch_act demo_exec demo_do demo_exec_st = (Inr r, s1) \<and>
     dispatch_act (demo_exec\<lparr>xe_asked := (70, 1)\<rparr>) demo_do s1 = (Inr r', s2) \<and> lr_error r' = PStr ''KnownStableFailure''"
proof -
  obtain r s1 where r: "dispatch_act demo_exec demo_do demo_exec_st = (Inr r, s1)" "lr_error r = PStr ''no such file or directory''"
     "classify_durable_failure (xe_say demo_exec) r = Some ''missing_path''" "tbl_ok (w_runs (xs_world s1))"
    using demo_first by blast
  obtain r' s2 where r': "dispatch_act (demo_exec\<lparr>xe_asked := (70, 1)\<rparr>) demo_do s1 = (Inr r', s2)"
    using demo_second [OF r] by blast
  obtain m where m: "xe_registry demo_exec ''x.do'' = Some m" by (simp add: demo_exec_def)
  have tl: "''x.do'' = jd_chosen_action_id demo_do" by (simp add: demo_do_def)
  have plan: "plan_mismatch demo_exec ''x.do'' = Inr None" by (simp add: plan_mismatch_def demo_exec_def)
  have same: "params_after ''x.do'' (jd_params demo_do) = jd_params demo_do" by (simp add: params_after_def repair_task_workbench_params_def)
  have t: "truthy (lr_error r)" by (simp add: r(2))
  have c: "previous_count (get_fact (w_facts (xs_world demo_exec_st)) (failure_fact_key ''x.do'' (jd_params demo_do))) ''missing_path'' = Inr 0"
    by (simp add: demo_facts previous_count_def dict_get_def)
  have m': "xe_registry (demo_exec\<lparr>xe_asked := (70, 1)\<rparr>) ''x.do'' = Some m" by (simp add: m)
  have "lr_error r' = PStr ''KnownStableFailure''"
    by (rule stable_failure_is_muted [OF r(1) demo_tables tl m demo_unmuted plan same demo_tool_plain demo_policy_loaded t r(3) c _ _ _ _
        r' m' r(4), THEN conjunct1]) (simp_all add: demo_exec_def)
  then show ?thesis using r(1) r' by blast
qed

theorem entered_run_is_finished_witness:
  "\<exists>r s' i row. dispatch_act demo_exec demo_do demo_exec_st = (Inr r, s') \<and> tbl_get (w_runs (xs_world s')) i = Some row \<and>
     rrow_status row = run_status_from_result r"
proof -
  obtain r s1 where r: "dispatch_act demo_exec demo_do demo_exec_st = (Inr r, s1)" using demo_first by blast
  have "tbl_get (w_runs (xs_world (snd (xe_tool demo_exec tool p t)))) i \<noteq> None" if "tbl_get (w_runs (xs_world t)) i \<noteq> None" for tool p t i
    using that by (simp add: demo_exec_def)
  from entered_run_is_finished [OF r demo_tables this] r show ?thesis by blast
qed

theorem bad_policy_stops_every_action_witness:
  "\<exists>x. dispatch_act demo_exec demo_do (demo_exec_st\<lparr>xs_world := empty_world\<lparr>w_facts := [(''control:durable_failure_policy'',
       \<lparr>fact_value = ''[]'', fact_scope = ''system'', fact_updated_at = []\<rparr>)]\<rparr>\<rparr>) =
     (Inl x, demo_exec_st\<lparr>xs_world := empty_world\<lparr>w_facts := [(''control:durable_failure_policy'',
       \<lparr>fact_value = ''[]'', fact_scope = ''system'', fact_updated_at = []\<rparr>)]\<rparr>\<rparr>)"
proof (rule bad_policy_stops_every_action)
  show "json_loads ''[]'' = Some (PList [])" "strip ''[]'' \<noteq> []" by code_simp+
qed (simp_all add: get_fact_def)

definition demo_batch :: judgment_output where
  "demo_batch = blank_judgment\<lparr>jd_decision := ''act'', jd_parallel_actions := [[(''action_id'', PStr ''task.complete'')]]\<rparr>"

theorem single_terminal_told_deferred_witness:
  "\<exists>r. dispatch_parallel (\<lambda>k a. k) (\<lambda>subs s. (Inr [fresh_result (PStr ''done'')], s)) demo_batch demo_exec_st = (Inr r, demo_exec_st) \<and>
     dict_get (delta r) ''deferred_terminal_actions'' = PList [PStr (jd_chosen_action_id
       (blank_judgment\<lparr>jd_decision := ''act'', jd_chosen_action_id := ''task.complete''\<rparr>))]"
  by (rule single_terminal_told_deferred)
    (simp_all add: demo_batch_def blank_judgment_def dict_or_empty_def dict_get_def py_or_def terminal_def terminal_task_actions_def)

theorem batch_never_ends_a_task_witness:
  "dispatch_parallel (\<lambda>k a. k) (\<lambda>subs s. (Inr [fresh_result (PStr ''done'')], s)) demo_batch demo_exec_st =
   dispatch_parallel (\<lambda>k a. k) (\<lambda>subs s. if length subs = 1 \<or> list_all (\<lambda>b. \<not> terminal b) subs
     then (Inr [fresh_result (PStr ''done'')], s) else (Inl demo_fault, s)) demo_batch demo_exec_st"
  by (rule batch_never_ends_a_task) (auto simp: list_all_iff)

theorem unknown_tool_is_not_counted_witness:
  "w_facts (xs_world (snd (dispatch_act (demo_exec\<lparr>xe_registry := (\<lambda>t. None)\<rparr>) demo_do demo_exec_st))) = w_facts (xs_world demo_exec_st)"
  by (rule unknown_tool_is_not_counted) (simp_all add: demo_tables)

end
