(* ===== verification/Spec2Isabelle.thy ===== *)
theory Spec2Isabelle
  imports Task_Contract Run_Store Signal_Store Chat_Store Ingress Task_Query Metabolic Subagent_View
    Dispatcher Working_Memory Intent Message_Fate Cycle_Driver Model_Call Continue_Phase Evo_Run
    Exec_Contract
begin

text \<open>
  A model of the persistent core of lingzhou, an agent that runs as a loop over a SQLite task
  store. Model calls, tools and channels are I/O; what keeps the agent consistent is the store, the
  engine through which every state change passes, the read-only view its sub-agents work on and the
  dispatcher that runs its ticks. These are modelled, operation by operation.

  \<^bold>\<open>The parts and their theories.\<close>

  \<^item> \<open>Py\<close>, \<open>Py_Json\<close>, \<open>Py_More\<close>, \<open>Sha256\<close>, \<open>Md5\<close>: Python's values, text, dicts, \<open>json\<close>, \<open>float\<close> and
    \<open>hashlib.sha256\<close>, with the lemmas everything shares. Loosely typed data are \<open>pyval\<close>s, an
    exception is a value \<open>Inl (Exn class message)\<close>.
  \<^item> \<open>Compact\<close> (\<open>store/compact.py\<close>): every stored text, list and dict is shortened.
  \<^item> \<open>Table\<close>: a SQLite table with an \<open>AUTOINCREMENT\<close> key: rows in key order and the last key used.
  \<^item> \<open>Task_Models\<close>, \<open>Task_State\<close>, \<open>Task_Contract\<close> (\<open>store/task/models.py\<close>, \<open>state.py\<close>): rows and
    tasks, each operation of \<open>TaskStateStore\<close>, and what they promise.
  \<^item> \<open>Run_Store\<close>, \<open>Signal_Store\<close>, \<open>Chat_Store\<close>, \<open>Record_Stores\<close> (\<open>run.py\<close>, \<open>signal.py\<close>,
    \<open>chat.py\<close>, \<open>ingress.py\<close>, \<open>failure.py\<close>, \<open>fact.py\<close>, \<open>reflection.py\<close>, \<open>ledger.py\<close>).
  \<^item> \<open>Immune\<close> (\<open>core/immune\<close>): which tools are blocked, the cached constitution, the preflight.
  \<^item> \<open>State_Writer\<close>, \<open>Metabolic\<close> (\<open>core/metabolic\<close>): a state change is a proposal; \<open>submit\<close> asks the
    immune policy, lets the writer carry it out on the stores and enters it in the ledger with its
    hash, whatever came of it.
  \<^item> \<open>Subagent_View\<close> (\<open>core/subagent/task_store_view.py\<close>): the overlay on a parent's store.
  \<^item> \<open>Dispatcher\<close> (\<open>core/loop/cycle/dispatcher.py\<close>): a step relation whose steps are the stretches
    of the coroutines between two suspension points.
  \<^item> \<open>Ingress\<close> (\<open>store/task/ingress.py\<close>, the retry loop of \<open>impl.py\<close>): the synchronous way into the
    database, with its transactions and the loop that retries a locked database.
  \<^item> \<open>Task_Query\<close> (\<open>store/task/query.py\<close>, the similarity of \<open>schema.py\<close>): the list of open tasks and
    the ranked search for tasks that say the same.
  \<^item> \<open>Heapq\<close>, \<open>Working_Memory\<close> (\<open>memory/working.py\<close>): the working memory over a model of \<open>heapq\<close>,
    whose contract is the locale \<open>priority_queue\<close>.
  \<^item> \<open>Intent\<close> (\<open>core/cortex/intent.py\<close>): what a planned verification asks for, and its stored state.
  \<^item> \<open>Focus\<close>, \<open>Focus_Contract\<close> (\<open>core/loop/cycle/focus.py\<close>): which task a tick works on, parking a
    task for its user and resuming it with the next message of the chat; it reads and writes the world
    of \<open>Metabolic\<close> through \<open>submit\<close>, and hands jobs to the \<open>Dispatcher\<close>.
  \<^item> \<open>Scrubber\<close> (\<open>core/loop/shared/logging.py\<close>): removing memory blocks from a text or a stream of it.
  \<^item> \<open>Chat_Turn\<close> (\<open>core/loop/cycle/chat.py\<close>), \<open>Chain_Run\<close> (\<open>core/loop/runtime/chain.py\<close>): a turn of the
    driver in the stages between its suspension points, and a job run on the state of its chain. What
    the tick does is an argument.
  \<^item> \<open>Message_Life\<close>, \<open>Message_Fate\<close>: ingress, driver, dispatcher and workers composed into one step
    relation, and what becomes of a user message in it. A ghost field records the messages that a
    failure or a cancelled job leaves behind; settling the messages of a job and freeing its worker
    are one step.
  \<^item> \<open>Run_Profile\<close>, \<open>Run_Poll\<close> (\<open>core/judgment/tiers.py\<close>, \<open>core/execution/run_profile.py\<close>, \<open>routing.py\<close>,
    \<open>task_tier.py\<close>, \<open>core/loop/runs/driver.py\<close>): tiers and run types, and the pending runs the driver polls.
  \<^item> \<open>Cycle_Driver\<close> (\<open>core/loop/cycle/driver.py\<close>, \<open>runtime/lifecycle.py\<close>): one cycle of the driver, composed
    of \<open>Chat_Turn\<close>, \<open>Run_Poll\<close> and the automatic tick, the wait after it and the main loop. The clock and
    what the wait sees are functions of the round.
  \<^item> \<open>Model_Health\<close>, \<open>Model_Call\<close> (\<open>core/judgment/decision\<close>): the health of the models and which one a
    call goes to; the call with its retries, and the trimming of its messages. The answers of a model,
    the verdicts on error texts and the token budgets are arguments.
  \<^item> \<open>Judgment\<close>, \<open>Behavior\<close>, \<open>Behavior_Gate\<close> (\<open>core/judgment/output.py\<close>, \<open>tools/registry.py\<close>,
    \<open>core/contracts/execution.py\<close>, \<open>core/loop/drive/behavior.py\<close>): what a model decides and a tool returns,
    when two actions are the same, the tracker of repetitions and the gate that stops them.
  \<^item> \<open>Tool_History\<close>, \<open>Continue_Phase\<close> (\<open>core/loop/shared/continue_phase.py\<close>): the history of a tick and its
    compaction, and the inner loop over the model and the tools, which are arguments.
  \<^item> \<open>Py_Num\<close>: decimal texts read back, for keys that are stored in facts. \<open>Py_Io\<close>: steps in a row that may
    raise, over any state. \<open>Py_Time\<close>: \<open>datetime.fromisoformat\<close>. \<open>Py_Re\<close>: the regular expressions the code
    uses, as a backtracking matcher. \<open>Json_Roundtrip\<close>: what \<open>json.dumps\<close> prints, \<open>json.loads\<close> reads back.
  \<^item> \<open>Workers\<close>, \<open>Auto_Cortex\<close>, \<open>Run_Finish\<close>, \<open>Exec_Layer\<close> (\<open>core/execution/workers.py\<close>,
    \<open>core/cortex/autoworkbench.py\<close>, \<open>core/execution/helpers.py\<close>, \<open>layer.py\<close>): from a decision to the result of
    its tool. A run is entered through \<open>submit\<close>, a stable failure or a plan that is not followed stops the action,
    the worker repairs and checks the parameters and calls the tool, the outcome is counted, and the run, its task,
    its workbench and the memory are told. A tool is a function over the state; parameters of an action are values,
    and the one place where a repair changes them in place is written out (\<open>params_after\<close>). The pools of the
    workers are a step relation of their own. \<open>Exec_Promises\<close>, \<open>Exec_Contract\<close>: what a dispatch promises, over
    \<open>Stored_Facts\<close>, what a proposal does to the facts.
  \<^item> \<open>Evo_Breaker\<close>, \<open>Evo_Files\<close>, \<open>Evo_Tool\<close>, \<open>Evo_Soft\<close>, \<open>Evo_Run\<close> (\<open>core/evolution\<close>,
    \<open>core/skill/helpers.py\<close>): the engine that rewrites the agent's own tools, prompts, skills and ethos. The
    breaker over the facts of the store; the files, loaded modules and registered tools the engine works on;
    the loop that asks for new code, checks, loads and tries it; the same for texts; and a run of the engine,
    which ranks the failures, evolves, verifies and rolls back. It writes facts through \<open>submit\<close>. The answers
    of the model, the compiler, what a module does when it is loaded, the test in another process, the faults of
    the file system and the wording of prompts are arguments (\<open>evo_env\<close>).

  \<^bold>\<open>How state and operations correspond.\<close> A table is a value; an operation takes it and returns its
  result and the new table, and a failing one returns \<open>Inl\<close>. Times, the texts shown to a user and
  the random parts of a key are arguments. Operations that read and then write in two SQL statements
  are split into the two where another coroutine can come in between (\<open>pop_select\<close> and \<open>pop_claim\<close>,
  \<open>drain_select\<close> and \<open>drain_claim\<close>). Sequences of operations are inductive relations
  (the reflexive closures of \<open>task_step\<close>, \<open>run_step\<close>, \<open>chat_step\<close>; \<open>disp_reach\<close>), and the lasting
  promises are invariants of them.

  \<^bold>\<open>What the lemmas show.\<close> Each store has a well-formedness invariant that its operations keep, and
  the effect of each operation on every branch. The properties, in the order of the manifest, say
  what lasts over any sequence of operations, what each operation does, and, where the code falls
  short of what its comments say, exactly how. Laws that clients rely on are locales, interpreted on
  the model where the provider stands: \<open>keyed_store\<close> (tables), \<open>fact_view\<close> (facts of a store and of a
  sub-agent's view), \<open>append_log\<close> (the ledger), \<open>priority_queue\<close> (the heap).

  \<^bold>\<open>Bounds and fuel.\<close> The JSON parser has fuel, twice the length of its text, which is enough
  because every second call consumes a character (and \<open>json_round_trip\<close> shows it for printed values); a
  repetition in a regular expression takes at most as many rounds as the text has characters, for a round that
  takes no character ends it. The loops that wait or run without a bound are partial
  functions whose returning is a theorem. The limits of \<open>store/compact.py\<close> (12000 characters, 80
  items, depth 8) are the source's. Text is Latin-1: the code's Chinese literals are constructors or
  arguments, and a comparison with one is false of any modelled text.

  \<^bold>\<open>Not modelled.\<close> The I/O of channels, providers and tools; the prompts and the decoding of model
  output; the layer that assembles the context of a judgment; the interleaving of the actions of one batch, which
  \<open>dispatch_decision\<close> carries out one after the other (\<open>dispatch_parallel\<close> takes any way of doing so); the
  episodic and semantic stores (full-text search and embeddings); configuration files; binary rounding of
  floats; crashes in the middle of one SQL statement.
\<close>

end
